(* ===== verification/Emv_Prelude.thy ===== *)
theory Emv_Prelude
  imports Main "HOL-Library.Word"
begin

text \<open>
  Shared vocabulary of the development.  Rust's \<open>u8\<close>, \<open>u16\<close>, \<open>u32\<close> and \<open>u64\<close> are words of
  their width, \<open>usize\<close> is \<open>nat\<close> with its 64-bit bound written out wherever the source uses
  checked arithmetic, \<open>Vec<u8>\<close> and \<open>&[u8]\<close> are lists of bytes, and \<open>Result<T, E>\<close> is the sum
  \<open>'e + 'a\<close> with \<open>Inl\<close> for \<open>Err\<close>.  The combinators below are the operations of the Rust
  standard library the source uses (\<open>?\<close>, \<open>ok_or\<close>, \<open>checked_add\<close>, slicing, \<open>chunks_exact\<close>,
  \<open>get\<close>, \<open>try_fold\<close>, \<open>collect\<close> into a \<open>Result\<close>), each with the characteristic equations the
  component proofs rewrite with.
\<close>

unbundle bit_operations_syntax

named_theorems krn_simps \<open>characteristic equations of the result combinators\<close>

named_theorems byte_simps \<open>masking and shifting of single bytes\<close>

type_synonym byte = "8 word"
type_synonym u16 = "16 word"
type_synonym u32 = "32 word"
type_synonym u64 = "64 word"
type_synonym bytes = "byte list"

section \<open>Result combinators\<close>

text \<open>The \<open>?\<close> operator: stop at an error, otherwise continue with the value.\<close>

definition rbind :: "'e + 'a \<Rightarrow> ('a \<Rightarrow> 'e + 'b) \<Rightarrow> 'e + 'b" where
  "rbind m f = (case m of Inl e \<Rightarrow> Inl e | Inr a \<Rightarrow> f a)"

lemma rbind_Inl [simp]: "rbind (Inl e) f = Inl e"
  by (simp add: rbind_def)

lemma rbind_Inr [simp]: "rbind (Inr a) f = f a"
  by (simp add: rbind_def)

lemma rbind_eq_Inr [krn_simps]: "rbind m f = Inr b \<longleftrightarrow> (\<exists>a. m = Inr a \<and> f a = Inr b)"
  by (cases m) auto

lemma rbind_eq_Inl [krn_simps]: "rbind m f = Inl e \<longleftrightarrow> m = Inl e \<or> (\<exists>a. m = Inr a \<and> f a = Inl e)"
  by (cases m) auto

lemma rbind_cong [fundef_cong]:
  "m = m' \<Longrightarrow> (\<And>a. m' = Inr a \<Longrightarrow> f a = g a) \<Longrightarrow> rbind m f = rbind m' g"
  by (cases m') auto

definition rmap :: "('a \<Rightarrow> 'b) \<Rightarrow> 'e + 'a \<Rightarrow> 'e + 'b" where
  "rmap f m = (case m of Inl e \<Rightarrow> Inl e | Inr a \<Rightarrow> Inr (f a))"

lemma rmap_Inl [simp]: "rmap f (Inl e) = Inl e"
  and rmap_Inr [simp]: "rmap f (Inr a) = Inr (f a)"
  by (simp_all add: rmap_def)

lemma rmap_eq_Inr [krn_simps]: "rmap f m = Inr b \<longleftrightarrow> (\<exists>a. m = Inr a \<and> b = f a)"
  by (cases m) auto

lemma rmap_eq_Inl [krn_simps]: "rmap f m = Inl e \<longleftrightarrow> m = Inl e"
  by (cases m) auto

text \<open>\<open>Result::map_err\<close> with a constant error.\<close>

definition or_err :: "'e \<Rightarrow> 'd + 'a \<Rightarrow> 'e + 'a" where
  "or_err e m = (case m of Inl _ \<Rightarrow> Inl e | Inr a \<Rightarrow> Inr a)"

lemma or_err_Inl [simp]: "or_err e (Inl d) = Inl e"
  and or_err_Inr [simp]: "or_err e (Inr a) = Inr a"
  by (simp_all add: or_err_def)

lemma or_err_eq_Inr [krn_simps]: "or_err e m = Inr a \<longleftrightarrow> m = Inr a"
  by (cases m) auto

definition ok_or :: "'a option \<Rightarrow> 'e \<Rightarrow> 'e + 'a" where
  "ok_or x e = (case x of None \<Rightarrow> Inl e | Some a \<Rightarrow> Inr a)"

lemma ok_or_None [simp]: "ok_or None e = Inl e"
  and ok_or_Some [simp]: "ok_or (Some a) e = Inr a"
  by (simp_all add: ok_or_def)

lemma ok_or_eq_Inr [krn_simps]: "ok_or x e = Inr a \<longleftrightarrow> x = Some a"
  by (cases x) auto

lemma ok_or_eq_Inl [krn_simps]: "ok_or x e = Inl d \<longleftrightarrow> x = None \<and> d = e"
  by (cases x) auto

text \<open>\<open>Option<Result<T, E>>::transpose\<close>, as used through \<open>opt.map(f).transpose()\<close>.\<close>

definition opt_traverse :: "('a \<Rightarrow> 'e + 'b) \<Rightarrow> 'a option \<Rightarrow> 'e + 'b option" where
  "opt_traverse f x = (case x of None \<Rightarrow> Inr None | Some a \<Rightarrow> rmap Some (f a))"

lemma opt_traverse_None [simp]: "opt_traverse f None = Inr None"
  and opt_traverse_Some [simp]: "opt_traverse f (Some a) = rmap Some (f a)"
  by (simp_all add: opt_traverse_def)

text \<open>\<open>iter().map(f).collect::<Result<Vec<_>, _>>()\<close>: the first error wins.\<close>

fun rmapM :: "('a \<Rightarrow> 'e + 'b) \<Rightarrow> 'a list \<Rightarrow> 'e + 'b list" where
  "rmapM f [] = Inr []"
| "rmapM f (x # xs) = rbind (f x) (\<lambda>y. rbind (rmapM f xs) (\<lambda>ys. Inr (y # ys)))"

lemma rmapM_eq_Inr_list_all2:
  "rmapM f xs = Inr ys \<longleftrightarrow> list_all2 (\<lambda>x y. f x = Inr y) xs ys"
  by (induction xs arbitrary: ys) (auto simp: krn_simps list_all2_Cons1)

lemma rmapM_total: "(\<And>x. x \<in> set xs \<Longrightarrow> f x = Inr (g x)) \<Longrightarrow> rmapM f xs = Inr (map g xs)"
  by (induction xs) auto

text \<open>\<open>Iterator::try_fold\<close> (and every \<open>for\<close> loop whose body may return early).\<close>

fun rfold :: "('s \<Rightarrow> 'a \<Rightarrow> 'e + 's) \<Rightarrow> 's \<Rightarrow> 'a list \<Rightarrow> 'e + 's" where
  "rfold f s [] = Inr s"
| "rfold f s (x # xs) = rbind (f s x) (\<lambda>s'. rfold f s' xs)"

lemma rfold_append: "rfold f s (xs @ ys) = rbind (rfold f s xs) (\<lambda>s'. rfold f s' ys)"
proof (induction xs arbitrary: s)
  case (Cons x xs)
  then show ?case by (cases "f s x") simp_all
qed simp

lemma rfold_map: "rfold f s (map g xs) = rfold (\<lambda>s x. f s (g x)) s xs"
  by (induction xs arbitrary: s) (simp_all add: rbind_def split: sum.split)

lemma rfold_concat: "rfold (\<lambda>s x. rfold f s (g x)) s xs = rfold f s (concat (map g xs))"
proof (induction xs arbitrary: s)
  case (Cons x xs)
  then show ?case by (simp add: rfold_append)
qed simp

text \<open>An invariant kept by the body holds for the result of a loop that ends normally.\<close>

lemma rfold_invariant:
  assumes "rfold f s xs = Inr t" and "P s"
    and "\<And>s x s'. x \<in> set xs \<Longrightarrow> P s \<Longrightarrow> f s x = Inr s' \<Longrightarrow> P s'"
  shows "P t"
  using assms
proof (induction xs arbitrary: s)
  case (Cons x xs)
  from Cons.prems(1) obtain s' where s': "f s x = Inr s'" and rest: "rfold f s' xs = Inr t"
    by (auto simp: krn_simps)
  have "P s'" using Cons.prems(2,3) s' by (meson list.set_intros(1))
  then show ?case using Cons.IH [OF rest] Cons.prems(3) by (meson list.set_intros(2))
qed simp

text \<open>
  The scan for a duplicate, \<open>for (i, x) in xs.iter().enumerate() { if xs[..i].iter().any(..) }\<close>:
  some element agrees in its key with an earlier one.
\<close>

definition has_earlier :: "('a \<Rightarrow> 'b) \<Rightarrow> 'a list \<Rightarrow> bool" where
  "has_earlier f xs \<longleftrightarrow>
     list_ex (\<lambda>(index, x). list_ex (\<lambda>prior. f prior = f x) (take index xs)) (enumerate 0 xs)"

lemma earlier_duplicate:
  "list_ex (\<lambda>(index, x). list_ex (\<lambda>prior. f prior = f x) (take index xs)) (enumerate 0 xs) \<longleftrightarrow>
     \<not> distinct (map f xs)"
proof -
  have "list_ex (\<lambda>(index, x). list_ex (\<lambda>prior. f prior = f x) (take index xs)) (enumerate 0 xs) \<longleftrightarrow>
      (\<exists>j<length xs. \<exists>x\<in>set (take j xs). f x = f (xs ! j))"
    by (fastforce simp: list_ex_iff in_set_enumerate_eq)
  also have "\<dots> \<longleftrightarrow> (\<exists>j<length xs. \<exists>i<j. f (xs ! i) = f (xs ! j))"
  proof (intro ex_cong conj_cong refl)
    fix j assume "j < length xs"
    then have "set (take j xs) = (!) xs ` {0..<j}" by (simp add: nth_image)
    then show "(\<exists>x\<in>set (take j xs). f x = f (xs ! j)) \<longleftrightarrow> (\<exists>i<j. f (xs ! i) = f (xs ! j))" by auto
  qed
  also have "\<dots> \<longleftrightarrow> \<not> distinct (map f xs)"
  proof
    assume "\<exists>j<length xs. \<exists>i<j. f (xs ! i) = f (xs ! j)"
    then obtain i j where ij: "j < length xs" "i < j" "f (xs ! i) = f (xs ! j)" by blast
    show "\<not> distinct (map f xs)"
    proof
      assume "distinct (map f xs)"
      from nth_eq_iff_index_eq [OF this, of i j] ij show False by simp
    qed
  next
    assume "\<not> distinct (map f xs)"
    then obtain i j where "i < length xs" "j < length xs" "i \<noteq> j" "f (xs ! i) = f (xs ! j)"
      by (auto simp: distinct_conv_nth)
    then show "\<exists>j<length xs. \<exists>i<j. f (xs ! i) = f (xs ! j)"
      by (cases "i < j") (metis, metis linorder_neqE_nat)
  qed
  finally show ?thesis .
qed

lemma has_earlier_iff [simp]: "has_earlier f xs \<longleftrightarrow> \<not> distinct (map f xs)"
  unfolding has_earlier_def by (rule earlier_duplicate)

section \<open>Indexing, slicing and bounded arithmetic\<close>

text \<open>\<open>slice.get(i)\<close>\<close>

definition get_at :: "'a list \<Rightarrow> nat \<Rightarrow> 'a option" where
  "get_at xs i = (if i < length xs then Some (xs ! i) else None)"

lemma get_at_eq_Some [simp]: "get_at xs i = Some x \<longleftrightarrow> i < length xs \<and> x = xs ! i"
  by (auto simp: get_at_def)

lemma get_at_eq_None [simp]: "get_at xs i = None \<longleftrightarrow> length xs \<le> i"
  by (auto simp: get_at_def)

text \<open>\<open>&xs[i..j]\<close>, for the in-range use the source makes of it.\<close>

definition slice_of :: "'a list \<Rightarrow> nat \<Rightarrow> nat \<Rightarrow> 'a list" where
  "slice_of xs i j = take (j - i) (drop i xs)"

lemma length_slice_of [simp]: "i \<le> j \<Longrightarrow> j \<le> length xs \<Longrightarrow> length (slice_of xs i j) = j - i"
  by (simp add: slice_of_def)

lemma slice_Nil [simp]: "slice_of [] i j = []" and slice_empty [simp]: "slice_of xs i i = []"
  by (simp_all add: slice_of_def)

lemma slice_append_prefix: "slice_of (xs @ ys) (length xs) (length xs + n) = take n ys"
  by (simp add: slice_of_def)

lemma slice_drop: "slice_of (drop k xs) i j = slice_of xs (k + i) (k + j)"
  by (simp add: slice_of_def add.commute)

lemma slice_join:
  "i \<le> j \<Longrightarrow> j \<le> k \<Longrightarrow> slice_of xs i j @ slice_of xs j k = slice_of xs i k"
proof -
  assume ij: "i \<le> j" and jk: "j \<le> k"
  have "k - i = (j - i) + (k - j)" using ij jk by simp
  then show ?thesis using ij by (simp only: slice_of_def take_add drop_drop) simp
qed

lemma slice_append_drop: "i \<le> j \<Longrightarrow> slice_of xs i j @ drop j xs = drop i xs"
proof -
  assume "i \<le> j"
  then have "drop j xs = drop (j - i) (drop i xs)" by simp
  then show ?thesis by (simp only: slice_of_def append_take_drop_id)
qed

lemma slice_to_end: "slice_of xs i (length xs) = drop i xs"
  by (simp add: slice_of_def)

lemma slice_from_0: "slice_of xs 0 j = take j xs"
  by (simp add: slice_of_def)

lemma slice_Suc: "i < length xs \<Longrightarrow> i < j \<Longrightarrow> slice_of xs i j = xs ! i # slice_of xs (Suc i) j"
  by (simp add: slice_of_def Cons_nth_drop_Suc [symmetric] Suc_diff_Suc [symmetric] del: drop_Suc)

text \<open>\<open>get(i..j)\<close>: \<open>None\<close> when the range does not fit.\<close>

definition get_range :: "'a list \<Rightarrow> nat \<Rightarrow> nat \<Rightarrow> 'a list option" where
  "get_range xs i j = (if i \<le> j \<and> j \<le> length xs then Some (slice_of xs i j) else None)"

lemma get_range_eq_Some [simp]:
  "get_range xs i j = Some ys \<longleftrightarrow> i \<le> j \<and> j \<le> length xs \<and> ys = slice_of xs i j"
  by (auto simp: get_range_def)

text \<open>\<open>usize\<close> arithmetic that reports overflow.\<close>

definition checked_add_usize :: "nat \<Rightarrow> nat \<Rightarrow> nat option" where
  "checked_add_usize a b = (if a + b < 2 ^ 64 then Some (a + b) else None)"

definition checked_mul_usize :: "nat \<Rightarrow> nat \<Rightarrow> nat option" where
  "checked_mul_usize a b = (if a * b < 2 ^ 64 then Some (a * b) else None)"

definition checked_sub_usize :: "nat \<Rightarrow> nat \<Rightarrow> nat option" where
  "checked_sub_usize a b = (if b \<le> a then Some (a - b) else None)"

lemma checked_add_usize_eq_Some [simp]:
  "checked_add_usize a b = Some c \<longleftrightarrow> a + b < 2 ^ 64 \<and> c = a + b"
  by (auto simp: checked_add_usize_def)

lemma checked_mul_usize_eq_Some [simp]:
  "checked_mul_usize a b = Some c \<longleftrightarrow> a * b < 2 ^ 64 \<and> c = a * b"
  by (auto simp: checked_mul_usize_def)

lemma checked_sub_usize_eq_Some [simp]:
  "checked_sub_usize a b = Some c \<longleftrightarrow> b \<le> a \<and> c = a - b"
  by (auto simp: checked_sub_usize_def)

text \<open>\<open>checked_pow\<close>, \<open>checked_mul\<close> and \<open>checked_add\<close> at \<open>u64\<close>.\<close>

definition checked_add_u64 :: "u64 \<Rightarrow> u64 \<Rightarrow> u64 option" where
  "checked_add_u64 a b = (if unat a + unat b < 2 ^ 64 then Some (a + b) else None)"

definition checked_mul_u64 :: "u64 \<Rightarrow> u64 \<Rightarrow> u64 option" where
  "checked_mul_u64 a b = (if unat a * unat b < 2 ^ 64 then Some (a * b) else None)"

definition checked_pow_u64 :: "u64 \<Rightarrow> nat \<Rightarrow> u64 option" where
  "checked_pow_u64 a n = (if unat a ^ n < 2 ^ 64 then Some (a ^ n) else None)"

lemma checked_add_u64_unat:
  "checked_add_u64 a b = Some c \<Longrightarrow> unat c = unat a + unat b"
  by (auto simp: checked_add_u64_def unat_word_ariths split: if_splits)

lemma checked_mul_u64_unat:
  "checked_mul_u64 a b = Some c \<Longrightarrow> unat c = unat a * unat b"
  by (auto simp: checked_mul_u64_def unat_word_ariths split: if_splits)

section \<open>Chunks\<close>

text \<open>\<open>chunks_exact(n)\<close>: the full chunks in order, the remainder left out.\<close>

fun chunks_exact :: "nat \<Rightarrow> 'a list \<Rightarrow> 'a list list" where
  "chunks_exact n xs =
     (if n = 0 \<or> length xs < n then [] else take n xs # chunks_exact n (drop n xs))"

declare chunks_exact.simps [simp del]

lemma chunks_exact_Nil [simp]: "0 < n \<Longrightarrow> chunks_exact n [] = []"
  by (simp add: chunks_exact.simps)

lemma chunks_exact_append:
  "length xs = n \<Longrightarrow> 0 < n \<Longrightarrow> chunks_exact n (xs @ ys) = xs # chunks_exact n ys"
  by (simp add: chunks_exact.simps [of n "xs @ ys"])

lemma chunks_exact_lengths: "c \<in> set (chunks_exact n xs) \<Longrightarrow> length c = n"
proof (induction n xs rule: chunks_exact.induct)
  case (1 n xs)
  then show ?case
    by (cases "n = 0 \<or> length xs < n") (auto simp: chunks_exact.simps [of n xs])
qed

lemma concat_chunks_exact: "0 < n \<Longrightarrow> n dvd length xs \<Longrightarrow> concat (chunks_exact n xs) = xs"
proof (induction n xs rule: chunks_exact.induct)
  case (1 n xs)
  show ?case
  proof (cases "length xs < n")
    case True
    with 1 have "xs = []" by (auto elim: dvdE)
    with 1 show ?thesis by simp
  next
    case False
    with 1 have "n dvd length (drop n xs)" by simp
    with 1 False have "concat (chunks_exact n (drop n xs)) = drop n xs" by simp
    with 1 False show ?thesis by (simp add: chunks_exact.simps [of n xs])
  qed
qed

lemma chunks_exact_concat:
  "0 < n \<Longrightarrow> (\<And>c. c \<in> set cs \<Longrightarrow> length c = n) \<Longrightarrow> chunks_exact n (concat cs) = cs"
  by (induction cs) (auto simp: chunks_exact_append)

section \<open>Bytes\<close>

lemma unat_byte_less [simp]: "unat (b :: byte) < 256"
  using unsigned_less [of b] by simp

lemma byte_of_nat_unat [simp]: "word_of_nat (unat (b :: byte)) = b"
  by simp

lemma unat_of_nat_byte: "n < 256 \<Longrightarrow> unat (word_of_nat n :: byte) = n"
  by (simp add: unat_of_nat take_bit_nat_def)

lemma unat_of_nat_u32: "n < 2 ^ 32 \<Longrightarrow> unat (word_of_nat n :: u32) = n"
  and unat_of_nat_u64: "m < 2 ^ 64 \<Longrightarrow> unat (word_of_nat m :: u64) = m"
  by (simp_all add: unat_of_nat take_bit_nat_def)

lemma unat_pow_u64: "unat a ^ k < 2 ^ 64 \<Longrightarrow> unat ((a :: u64) ^ k) = unat a ^ k"
proof -
  assume k: "unat a ^ k < 2 ^ 64"
  have "a ^ k = word_of_nat (unat a ^ k)" by simp
  then show ?thesis using unat_of_nat_u64 [OF k] by metis
qed

text \<open>A statement about one byte is a statement about 256 numerals, which evaluate.\<close>

lemma byte_exhaust: "(\<forall>n\<in>set [0..<256]. P (word_of_nat n :: byte)) \<Longrightarrow> P b"
proof -
  assume "\<forall>n\<in>set [0..<256]. P (word_of_nat n :: byte)"
  then have "P (word_of_nat (unat b))" by (rule bspec) simp
  then show ?thesis by simp
qed

lemma byte_and_80 [byte_simps]: "(b AND 0x80 :: byte) = 0 \<longleftrightarrow> unat b < 128"
proof -
  have "(0x80 :: byte) = 2 ^ 7" by simp
  then have "b AND 0x80 = 0 \<longleftrightarrow> \<not> bit b 7" by (simp only: and_exp_eq_0_iff_not_bit)
  also have "bit b 7 \<longleftrightarrow> bit (unat b) 7" by (simp only: bit_unsigned_iff) simp
  also have "\<dots> \<longleftrightarrow> odd (unat b div 2 ^ 7)" by (simp only: bit_iff_odd)
  also have "\<dots> \<longleftrightarrow> \<not> unat b < 128"
  proof (cases "unat b < 128")
    case False
    then have "unat b div 128 = 1" by (intro div_nat_eqI) simp_all
    with False show ?thesis by simp
  qed simp
  finally show ?thesis by simp
qed

lemma byte_and_mask: "unat (b AND mask n :: byte) = unat b mod 2 ^ n"
  by (simp only: take_bit_eq_mask [symmetric] unsigned_take_bit_eq) (simp only: take_bit_eq_mod)

lemma byte_and_7f [byte_simps]: "unat (b AND 0x7f :: byte) = unat b mod 128"
  using byte_and_mask [of b 7] by (simp add: mask_eq_exp_minus_1)

lemma byte_and_0f [byte_simps]: "unat (b AND 0x0f :: byte) = unat b mod 16"
  using byte_and_mask [of b 4] by (simp add: mask_eq_exp_minus_1)

lemma byte_and_07 [byte_simps]: "unat (b AND 0x07 :: byte) = unat b mod 8"
  using byte_and_mask [of b 3] by (simp add: mask_eq_exp_minus_1)

lemma byte_drop [byte_simps]: "unat (drop_bit n b :: byte) = unat b div 2 ^ n"
  by (subst unat_drop_bit_eq) (simp add: drop_bit_eq_div)

lemma push_8_or_nat: "c < 256 \<Longrightarrow> push_bit 8 n OR c = 256 * n + (c :: nat)"
proof -
  assume c: "c < 256"
  have nb: "\<not> bit c k" if "8 \<le> k" for k
  proof -
    have "(256 :: nat) \<le> 2 ^ k" using power_increasing [OF that, of "2 :: nat"] by simp
    with c show ?thesis by (simp add: bit_iff_odd)
  qed
  have "push_bit 8 n AND c = 0"
  proof (rule bit_eqI)
    fix k show "bit (push_bit 8 n AND c) k = bit 0 k"
      using nb [of k] by (cases "8 \<le> k") (simp_all add: bit_and_iff bit_push_bit_iff)
  qed
  then have "push_bit 8 n + c = push_bit 8 n OR c" by (rule disjunctive_add_eq_or)
  then show ?thesis by (simp add: push_bit_eq_mult)
qed

text \<open>\<open>u32::from_be_bytes\<close>, \<open>to_be_bytes\<close> and the big-endian value of a byte string.\<close>

fun be_value :: "bytes \<Rightarrow> nat" where
  "be_value [] = 0"
| "be_value (b # bs) = unat b * 256 ^ length bs + be_value bs"

lemma be_value_append: "be_value (xs @ ys) = be_value xs * 256 ^ length ys + be_value ys"
  by (induction xs) (simp_all add: algebra_simps power_add)

lemma be_value_less: "be_value xs < 256 ^ length xs"
proof (induction xs)
  case (Cons b bs)
  have "unat b * 256 ^ length bs + be_value bs < unat b * 256 ^ length bs + 256 ^ length bs"
    using Cons by simp
  also have "\<dots> = (unat b + 1) * 256 ^ length bs" by (simp add: algebra_simps)
  also have "\<dots> \<le> 256 * 256 ^ length bs"
    using unat_byte_less [of b] by (intro mult_right_mono) (simp_all del: unat_byte_less)
  finally show ?case by simp
qed simp

lemma be_value_inj: "length xs = length ys \<Longrightarrow> be_value xs = be_value ys \<Longrightarrow> xs = ys"
proof (induction xs ys rule: list_induct2)
  case (Cons x xs y ys)
  let ?m = "256 ^ length xs :: nat"
  have b: "be_value xs < ?m" "be_value ys < ?m"
    using be_value_less [of xs] be_value_less [of ys] Cons.hyps by simp_all
  from Cons.prems Cons.hyps have eq: "unat x * ?m + be_value xs = unat y * ?m + be_value ys"
    by simp
  have "(unat x * ?m + be_value xs) div ?m = unat x" "(unat y * ?m + be_value ys) div ?m = unat y"
    using b by simp_all
  with eq have xy: "unat x = unat y" by metis
  with eq have "be_value xs = be_value ys" by simp
  with xy Cons.IH show ?case by (simp add: word_unat_eq_iff)
qed simp

fun be_bytes :: "nat \<Rightarrow> nat \<Rightarrow> bytes" where
  "be_bytes 0 n = []"
| "be_bytes (Suc k) n = be_bytes k (n div 256) @ [word_of_nat n]"

lemma length_be_bytes [simp]: "length (be_bytes k n) = k"
  by (induction k arbitrary: n) simp_all

lemma be_value_be_bytes: "be_value (be_bytes k n) = n mod 256 ^ k"
proof (induction k arbitrary: n)
  case (Suc k)
  have "unat (word_of_nat n :: byte) = n mod 256" by (simp add: unat_of_nat take_bit_nat_def)
  moreover have "n mod 256 ^ Suc k = 256 * (n div 256 mod 256 ^ k) + n mod 256"
    by (simp add: mod_mult2_eq)
  ultimately show ?case by (simp add: be_value_append Suc)
qed simp

lemma be_value_eq_iff: "length bs = k \<Longrightarrow> n < 256 ^ k \<Longrightarrow> be_value bs = n \<longleftrightarrow> bs = be_bytes k n"
proof -
  assume l: "length bs = k" and "n < 256 ^ k"
  then have "be_value (be_bytes k n) = n" by (simp add: be_value_be_bytes)
  with l show ?thesis by (metis be_value_inj length_be_bytes)
qed

lemma u32_from_be_bytes_iff:
  "length bs = 4 \<Longrightarrow> (word_of_nat (be_value bs) :: u32) = w \<longleftrightarrow> bs = be_bytes 4 (unat w)"
proof -
  assume l: "length bs = 4"
  have n: "be_value bs < 2 ^ 32" using be_value_less [of bs] by (simp add: l)
  have w: "unat w < 256 ^ 4" using unsigned_less [of w] by simp
  have "(word_of_nat (be_value bs) :: u32) = w \<longleftrightarrow> be_value bs = unat w"
    using unat_of_nat_u32 [OF n] by (metis word_unat_eq_iff)
  then show ?thesis by (simp add: be_value_eq_iff [OF l w])
qed

text \<open>A Rust byte-string literal \<open>b"..."\<close>.\<close>

definition ascii :: "string \<Rightarrow> bytes" where
  "ascii s = map of_char s"

lemma length_ascii [simp]: "length (ascii s) = length s"
  by (simp add: ascii_def)

text \<open>\<open>str::trim_matches\<close>, and \<open>str::trim\<close> with the white space it removes.\<close>

definition trim_by :: "(char \<Rightarrow> bool) \<Rightarrow> string \<Rightarrow> string" where
  "trim_by p s = rev (dropWhile p (rev (dropWhile p s)))"

lemma list_all_hd: "list_all P xs \<Longrightarrow> xs \<noteq> [] \<Longrightarrow> P (hd xs)"
  by (cases xs) auto

section \<open>Fixed-size byte arrays\<close>

text \<open>
  \<open>[u8; 2]\<close>, \<open>[u8; 3]\<close> and \<open>[u8; 5]\<close>, the arrays with a bit layout of their own: the type fixes
  the length, the list view is what the code iterates and indexes, and an update outside the
  array changes nothing (\<open>get_mut\<close> returns \<open>None\<close>).
\<close>

datatype arr2 = A2 byte byte
datatype arr3 = A3 byte byte byte
datatype arr5 = A5 byte byte byte byte byte

fun list2 :: "arr2 \<Rightarrow> bytes" where "list2 (A2 a b) = [a, b]"
fun list3 :: "arr3 \<Rightarrow> bytes" where "list3 (A3 a b c) = [a, b, c]"
fun list5 :: "arr5 \<Rightarrow> bytes" where "list5 (A5 a b c d e) = [a, b, c, d, e]"

fun upd2 :: "arr2 \<Rightarrow> nat \<Rightarrow> (byte \<Rightarrow> byte) \<Rightarrow> arr2" where
  "upd2 (A2 a b) i f = (if i = 0 then A2 (f a) b else if i = 1 then A2 a (f b) else A2 a b)"

fun upd5 :: "arr5 \<Rightarrow> nat \<Rightarrow> (byte \<Rightarrow> byte) \<Rightarrow> arr5" where
  "upd5 (A5 a b c d e) i f =
     (if i = 0 then A5 (f a) b c d e else if i = 1 then A5 a (f b) c d e
      else if i = 2 then A5 a b (f c) d e else if i = 3 then A5 a b c (f d) e
      else if i = 4 then A5 a b c d (f e) else A5 a b c d e)"

lemma length_list2 [simp]: "length (list2 x) = 2"
  and length_list3 [simp]: "length (list3 y) = 3"
  and length_list5 [simp]: "length (list5 z) = 5"
  by (cases x, simp) (cases y, simp, cases z, simp)

lemma list2_upd2: "list2 (upd2 x i f) = (if i < 2 then (list2 x)[i := f (list2 x ! i)] else list2 x)"
  by (cases x) (auto simp: less_2_cases_iff)

lemma less_5_cases: "(i :: nat) < 5 \<longleftrightarrow> i = 0 \<or> i = 1 \<or> i = 2 \<or> i = 3 \<or> i = 4"
  by auto

lemma list5_upd5: "list5 (upd5 x i f) = (if i < 5 then (list5 x)[i := f (list5 x ! i)] else list5 x)"
proof (cases x)
  case (A5 a b c d e)
  have n: "[a, b, c, d, e] ! 2 = c" "[a, b, c, d, e] ! 3 = d" "[a, b, c, d, e] ! 4 = e"
    "[a, b, c, d, e][2 := y] = [a, b, y, d, e]" "[a, b, c, d, e][3 := y] = [a, b, c, y, e]"
    "[a, b, c, d, e][4 := y] = [a, b, c, d, y]" for y
    by (simp_all add: eval_nat_numeral)
  show ?thesis
    by (cases "i < 5") (auto simp: A5 less_5_cases n)
qed

lemma list2_inject [simp]: "list2 x = list2 y \<longleftrightarrow> x = y"
  by (cases x; cases y) simp

lemma list5_inject [simp]: "list5 x = list5 y \<longleftrightarrow> x = y"
  by (cases x; cases y) simp

text \<open>\<open>try_into\<close> from a slice: the error of the caller unless the length is exact.\<close>

fun to_arr2 :: "bytes \<Rightarrow> 'e \<Rightarrow> 'e + arr2" where
  "to_arr2 [a, b] err = Inr (A2 a b)"
| "to_arr2 _ err = Inl err"

fun to_arr3 :: "bytes \<Rightarrow> 'e \<Rightarrow> 'e + arr3" where
  "to_arr3 [a, b, c] err = Inr (A3 a b c)"
| "to_arr3 _ err = Inl err"

fun to_arr5 :: "bytes \<Rightarrow> 'e \<Rightarrow> 'e + arr5" where
  "to_arr5 [a, b, c, d, e] err = Inr (A5 a b c d e)"
| "to_arr5 _ err = Inl err"

lemma to_arr2_eq_Inr: "to_arr2 bs err = Inr x \<longleftrightarrow> bs = list2 x"
  by (cases x; cases "(bs, err)" rule: to_arr2.cases) auto

lemma to_arr3_eq_Inr: "to_arr3 bs err = Inr x \<longleftrightarrow> bs = list3 x"
  by (cases x; cases "(bs, err)" rule: to_arr3.cases) auto

lemma to_arr5_eq_Inr: "to_arr5 bs err = Inr x \<longleftrightarrow> bs = list5 x"
  by (cases x; cases "(bs, err)" rule: to_arr5.cases) auto

lemma to_arr2_total: "to_arr2 bs err = (if length bs = 2 then Inr (A2 (bs ! 0) (bs ! 1)) else Inl err)"
  by (cases "(bs, err)" rule: to_arr2.cases) auto

end
