(* ===== verification/Emv_Error.thy ===== *)
theory Emv_Error
  imports Emv_Prelude
begin

text \<open>
  The kernel's error type (\<open>src/src/error.rs\<close>): the enumeration with its C ABI codes, the
  table the C ABI enumerates, the lookup of an error by its code, and the three renderings
  of an error (symbolic name, description, display text).  \<open>krn_result\<close> is \<open>KernelResult<T>\<close>.
\<close>

datatype kernel_error =
    Ok | InvalidArgument | BufferTooSmall | ParseError | LengthOverflow
  | UnsupportedCdaRequest | InvalidProfile | MissingMandatoryTag | NoCommonAid
  | CardRemoved | HostTimeout | ScriptFailed | Busy | RngFailure | InternalError

type_synonym 'a krn_result = "kernel_error + 'a"

definition ERROR_TABLE :: "kernel_error list" where
  "ERROR_TABLE =
     [Ok, InvalidArgument, BufferTooSmall, ParseError, LengthOverflow, UnsupportedCdaRequest,
      InvalidProfile, MissingMandatoryTag, NoCommonAid, CardRemoved, HostTimeout, ScriptFailed,
      Busy, RngFailure, InternalError]"

text \<open>The discriminants of the \<open>repr(i32)\<close> enumeration.\<close>

fun error_code :: "kernel_error \<Rightarrow> int" where
  "error_code Ok = 0"
| "error_code InvalidArgument = 1"
| "error_code BufferTooSmall = 2"
| "error_code ParseError = 3"
| "error_code LengthOverflow = 4"
| "error_code UnsupportedCdaRequest = 5"
| "error_code InvalidProfile = 6"
| "error_code MissingMandatoryTag = 7"
| "error_code NoCommonAid = 8"
| "error_code CardRemoved = 9"
| "error_code HostTimeout = 10"
| "error_code ScriptFailed = 11"
| "error_code Busy = 12"
| "error_code RngFailure = 13"
| "error_code InternalError = 255"

definition error_from_code :: "int \<Rightarrow> kernel_error option" where
  "error_from_code c = List.find (\<lambda>e. error_code e = c) ERROR_TABLE"

fun error_name :: "kernel_error \<Rightarrow> string" where
  "error_name Ok = ''KRN_OK''"
| "error_name InvalidArgument = ''KRN_ERR_INVALID_ARGUMENT''"
| "error_name BufferTooSmall = ''KRN_ERR_BUFFER_TOO_SMALL''"
| "error_name ParseError = ''KRN_ERR_PARSE_ERROR''"
| "error_name LengthOverflow = ''KRN_ERR_LENGTH_OVERFLOW''"
| "error_name UnsupportedCdaRequest = ''KRN_ERR_UNSUPPORTED_CDA_REQUEST''"
| "error_name InvalidProfile = ''KRN_ERR_INVALID_PROFILE''"
| "error_name MissingMandatoryTag = ''KRN_ERR_MISSING_MANDATORY_TAG''"
| "error_name NoCommonAid = ''KRN_ERR_NO_COMMON_AID''"
| "error_name CardRemoved = ''KRN_ERR_CARD_REMOVED''"
| "error_name HostTimeout = ''KRN_ERR_HOST_TIMEOUT''"
| "error_name ScriptFailed = ''KRN_ERR_SCRIPT_FAILED''"
| "error_name Busy = ''KRN_ERR_BUSY''"
| "error_name RngFailure = ''KRN_ERR_RNG_FAILURE''"
| "error_name InternalError = ''KRN_ERR_INTERNAL''"

fun error_description :: "kernel_error \<Rightarrow> string" where
  "error_description Ok = ''operation completed successfully''"
| "error_description InvalidArgument = ''an ABI argument, state, or value is invalid''"
| "error_description BufferTooSmall = ''caller output buffer is too small''"
| "error_description ParseError = ''input data could not be parsed deterministically''"
| "error_description LengthOverflow = ''input or output exceeds a bounded kernel limit''"
| "error_description UnsupportedCdaRequest = ''requested CDA encoding is unsupported''"
| "error_description InvalidProfile = ''signed profile data is missing, invalid, or rejected''"
| "error_description MissingMandatoryTag = ''mandatory EMV data object is absent or malformed''"
| "error_description NoCommonAid = ''no mutually supported application identifier was found''"
| "error_description CardRemoved = ''card transport failed or the card became unavailable''"
| "error_description HostTimeout = ''online host response timed out''"
| "error_description ScriptFailed = ''critical issuer script processing failed''"
| "error_description Busy = ''context is already processing another operation''"
| "error_description RngFailure = ''platform RNG callback failed or returned weak output''"
| "error_description InternalError = ''unexpected internal kernel error''"

text \<open>The \<open>Display\<close> implementation.\<close>

fun error_display :: "kernel_error \<Rightarrow> string" where
  "error_display Ok = ''ok''"
| "error_display InvalidArgument = ''invalid argument''"
| "error_display BufferTooSmall = ''buffer too small''"
| "error_display ParseError = ''parse error''"
| "error_display LengthOverflow = ''length overflow''"
| "error_display UnsupportedCdaRequest = ''unsupported CDA request''"
| "error_display InvalidProfile = ''invalid profile''"
| "error_display MissingMandatoryTag = ''missing mandatory tag''"
| "error_display NoCommonAid = ''no common AID''"
| "error_display CardRemoved = ''card removed''"
| "error_display HostTimeout = ''host timeout''"
| "error_display ScriptFailed = ''script failed''"
| "error_display Busy = ''kernel busy''"
| "error_display RngFailure = ''RNG failure''"
| "error_display InternalError = ''internal error''"

lemma set_ERROR_TABLE: "e \<in> set ERROR_TABLE"
  by (cases e) (simp_all add: ERROR_TABLE_def)

lemma error_code_inj: "error_code e = error_code e' \<Longrightarrow> e = e'"
  by (cases e; cases e') simp_all

lemma error_from_code_code: "error_from_code (error_code e) = Some e"
  by (cases e) (simp_all add: error_from_code_def ERROR_TABLE_def)

lemma error_from_code_Some: "error_from_code c = Some e \<Longrightarrow> error_code e = c"
  by (auto simp: error_from_code_def find_Some_iff)

lemma error_name_inj: "error_name e = error_name e' \<Longrightarrow> e = e'"
  by (cases e; cases e') simp_all

end
