(* ===== verification/Emv_Rsa.thy ===== *)
theory Emv_Rsa
  imports Emv_Error
begin

text \<open>
  The RSA public-key operation (the arithmetic half of \<open>src/src/oda.rs\<close>): big-endian comparison,
  subtraction, modular addition, double-and-add multiplication and square-and-multiply
  exponentiation, and that together they compute \<open>signature ^ exponent mod modulus\<close>.
\<close>

unbundle bit_operations_syntax

definition MAX_ODA_RSA_MODULUS_BYTES :: nat where "MAX_ODA_RSA_MODULUS_BYTES = 256"

definition all_zero_or_ff :: "bytes \<Rightarrow> bool" where
  "all_zero_or_ff v \<longleftrightarrow> list_all (\<lambda>b. b = 0x00) v \<or> list_all (\<lambda>b. b = 0xff) v"

section \<open>Big-endian numbers\<close>

datatype cmp_ordering = CmpLess | CmpEqual | CmpGreater

fun compare_be :: "bytes \<Rightarrow> bytes \<Rightarrow> cmp_ordering" where
  "compare_be (l # a) (r # b) =
     (if l < r then CmpLess else if r < l then CmpGreater else compare_be a b)"
| "compare_be [] [] = CmpEqual"
| "compare_be [] (_ # _) = CmpLess"
| "compare_be (_ # _) [] = CmpGreater"

definition sub_step :: "bytes \<Rightarrow> bytes \<times> int \<Rightarrow> nat \<Rightarrow> bytes \<times> int" where
  "sub_step b s idx = (case s of (a, borrow) \<Rightarrow>
     let v = uint (a ! idx) - uint (b ! idx) - borrow in
     if v < 0 then (a[idx := word_of_int (v + 256)], 1) else (a[idx := word_of_int v], 0))"

definition sub_assign_be :: "bytes \<Rightarrow> bytes \<Rightarrow> bytes" where
  "sub_assign_be a b = fst (foldl (sub_step b) (a, 0) (rev [0..<length a]))"

definition add_step :: "bytes \<Rightarrow> bytes \<Rightarrow> bytes \<times> u16 \<Rightarrow> nat \<Rightarrow> bytes \<times> u16" where
  "add_step a b s idx = (case s of (total_bytes, carry) \<Rightarrow>
     let total = ucast (a ! idx) + ucast (b ! idx) + carry in
     (total_bytes[idx + 1 := ucast total], drop_bit 8 total))"

definition reduce_once :: "bytes \<Rightarrow> bytes \<Rightarrow> bytes" where
  "reduce_once s padded_modulus =
     (if compare_be s padded_modulus \<noteq> CmpLess then sub_assign_be s padded_modulus else s)"

definition mod_add_be :: "bytes \<Rightarrow> bytes \<Rightarrow> bytes \<Rightarrow> bytes krn_result" where
  "mod_add_be a b modulus =
     (if length a \<noteq> length modulus \<or> length b \<noteq> length modulus then Inl InvalidArgument
      else let (s, carry) = foldl (add_step a b) (replicate (length modulus + 1) 0, 0) (rev [0..<length modulus]);
               s = s[0 := ucast carry];
               padded_modulus = 0 # modulus
           in Inr (drop 1 (reduce_once s padded_modulus)))"

definition mul_bit_step :: "bytes \<Rightarrow> byte \<Rightarrow> bytes \<times> bytes \<Rightarrow> nat \<Rightarrow> (bytes \<times> bytes) krn_result" where
  "mul_bit_step modulus byte s k = (case s of (result, addend) \<Rightarrow>
     rbind (if byte AND push_bit k 1 \<noteq> 0 then mod_add_be result addend modulus else Inr result) (\<lambda>result.
     rbind (mod_add_be addend addend modulus) (\<lambda>addend. Inr (result, addend))))"

definition mod_mul_be :: "bytes \<Rightarrow> bytes \<Rightarrow> bytes \<Rightarrow> bytes krn_result" where
  "mod_mul_be a b modulus =
     (if length a \<noteq> length modulus \<or> length b \<noteq> length modulus then Inl InvalidArgument
      else rmap fst (rfold (\<lambda>s byte. rfold (mul_bit_step modulus byte) s [0..<8])
             (replicate (length modulus) 0, a) (rev b)))"

section \<open>The public-key operation\<close>

definition parse_rsa_public_exponent :: "bytes \<Rightarrow> u32 krn_result" where
  "parse_rsa_public_exponent exponent =
     (if exponent = [] \<or> length exponent > 3 \<or> all_zero_or_ff exponent then Inl InvalidProfile
      else let v = foldl (\<lambda>v b. push_bit 8 v OR ucast b) (0 :: u32) exponent in
        if v < 3 \<or> v mod 2 = 0 then Inl InvalidProfile else Inr v)"

definition validate_rsa_public_components :: "bytes \<Rightarrow> bytes \<Rightarrow> unit krn_result" where
  "validate_rsa_public_components signature modulus =
     (if length modulus < 2 \<or> length modulus > MAX_ODA_RSA_MODULUS_BYTES \<or> modulus ! 0 = 0 \<or>
         modulus ! (length modulus - 1) mod 2 = 0 \<or> all_zero_or_ff modulus then Inl InvalidProfile
      else if length signature \<noteq> length modulus \<or> all_zero_or_ff signature \<or>
         compare_be signature modulus \<noteq> CmpLess then Inl InvalidProfile
      else Inr ())"

lemma unat_drop_bit_1: "unat (drop_bit 1 (e :: u32)) = unat e div 2"
  by (subst unat_drop_bit_eq) (simp add: drop_bit_eq_div)

function rsa_loop :: "bytes \<Rightarrow> bytes \<Rightarrow> bytes \<Rightarrow> u32 \<Rightarrow> bytes krn_result" where
  "rsa_loop modulus result base remaining_exponent =
     (if remaining_exponent > 0 then
        rbind (if remaining_exponent AND 1 = 1 then mod_mul_be result base modulus else Inr result) (\<lambda>result.
          let remaining_exponent = drop_bit 1 remaining_exponent in
          rbind (if remaining_exponent > 0 then mod_mul_be base base modulus else Inr base) (\<lambda>base.
            rsa_loop modulus result base remaining_exponent))
      else Inr result)"
  by pat_completeness auto

termination
  by (relation "measure (\<lambda>(modulus, result, base, e). unat e)")
     (auto simp: unat_drop_bit_1 [unfolded One_nat_def] word_less_nat_alt)

declare rsa_loop.simps [simp del]

definition recover_rsa_public_block :: "bytes \<Rightarrow> bytes \<Rightarrow> bytes \<Rightarrow> bytes krn_result" where
  "recover_rsa_public_block signature modulus exponent =
     rbind (parse_rsa_public_exponent exponent) (\<lambda>exponent.
     rbind (validate_rsa_public_components signature modulus) (\<lambda>_.
       if modulus = [] then Inl InvalidProfile
       else rsa_loop modulus ((replicate (length modulus) 0)[length modulus - 1 := 1]) signature exponent))"

section \<open>Arithmetic on big-endian numbers\<close>

lemma compare_be_less_iff:
  "length a = length b \<Longrightarrow> compare_be a b = CmpLess \<longleftrightarrow> be_value a < be_value b"
proof (induction a b rule: list_induct2)
  case (Cons x xs y ys)
  have b: "be_value xs < 256 ^ length xs" "be_value ys < 256 ^ length xs"
    using be_value_less [of xs] be_value_less [of ys] Cons.hyps by simp_all
  have lt: "unat u * m + v < unat w * m + z" if "unat u < unat w" "v < m" for u w :: byte and v z m :: nat
  proof -
    have "unat u * m + v < (unat u + 1) * m" using that by simp
    also have "\<dots> \<le> unat w * m" using that by (intro mult_right_mono) simp_all
    finally show ?thesis by simp
  qed
  consider "unat x < unat y" | "unat y < unat x" | "x = y"
    by (metis linorder_neqE_nat word_unat_eq_iff)
  then show ?case
  proof cases
    case 1
    with lt [OF 1, of "be_value xs" "256 ^ length xs" "be_value ys"] b Cons.hyps show ?thesis
      by (simp add: word_less_nat_alt)
  next
    case 2
    with lt [OF 2, of "be_value ys" "256 ^ length xs" "be_value xs"] b Cons.hyps show ?thesis
      by (simp add: word_less_nat_alt)
  next
    case 3
    with Cons show ?thesis by simp
  qed
qed simp

lemma be_value_drop:
  "k < length a \<Longrightarrow> be_value (drop k a) = unat (a ! k) * 256 ^ (length a - Suc k) + be_value (drop (Suc k) a)"
  by (simp add: Cons_nth_drop_Suc [symmetric])

lemma rev_upt_Suc: "k < n \<Longrightarrow> rev [k..<n] = rev [Suc k..<n] @ [k]"
  by (simp add: upt_conv_Cons)

lemma add_total:
  assumes "unat (c :: u16) \<le> 1"
  shows "unat (ucast (x :: byte) + ucast (y :: byte) + c) = unat x + unat y + unat c"
proof -
  have "unat x + unat y + unat c < 65536" using assms unat_byte_less [of x] unat_byte_less [of y] by linarith
  moreover have "unat (ucast z :: u16) = unat z" for z :: byte
    using unat_byte_less [of z] by (simp add: unsigned_ucast_eq take_bit_nat_eq_self del: unat_byte_less)
  ultimately show ?thesis by (simp add: unat_word_ariths)
qed

lemma add_loop:
  assumes "length a = n" "length b = n" "k \<le> n"
  shows "case foldl (add_step a b) (replicate (n + 1) 0, 0) (rev [k..<n]) of (s, c) \<Rightarrow>
    length s = n + 1 \<and> unat c \<le> 1 \<and>
    be_value (drop (Suc k) s) + unat c * 256 ^ (n - k) = be_value (drop k a) + be_value (drop k b)"
  using assms(3)
proof (induction rule: inc_induct)
  case base
  then show ?case using assms by simp
next
  case (step k)
  obtain s c where f: "foldl (add_step a b) (replicate (n + 1) 0, 0) (rev [Suc k..<n]) = (s, c)" by force
  with step have ih: "length s = n + 1" "unat c \<le> 1"
    "be_value (drop (Suc (Suc k)) s) + unat c * 256 ^ (n - Suc k) = be_value (drop (Suc k) a) + be_value (drop (Suc k) b)"
    by simp_all
  define t where "t = (ucast (a ! k) + ucast (b ! k) + c :: u16)"
  have t: "unat t = unat (a ! k) + unat (b ! k) + unat c" unfolding t_def by (rule add_total) (rule ih)
  have low: "unat (ucast t :: byte) = unat t mod 256" by (simp add: unsigned_ucast_eq take_bit_eq_mod)
  have high: "unat (drop_bit 8 t) = unat t div 256" by (subst unat_drop_bit_eq) (simp add: drop_bit_eq_div)
  have "unat t < 512" using t ih unat_byte_less [of "a ! k"] unat_byte_less [of "b ! k"] by linarith
  then have c1: "unat (drop_bit 8 t) \<le> 1" by (simp add: high less_mult_imp_div_less)
  have split: "unat (ucast t :: byte) + 256 * unat (drop_bit 8 t) = unat t" by (simp add: low high)
  let ?s = "s[Suc k := ucast t]"
  have d: "be_value (drop (Suc k) ?s) = unat (ucast t :: byte) * 256 ^ (n - Suc k) + be_value (drop (Suc (Suc k)) s)"
    using ih(1) step.hyps by (simp add: be_value_drop)
  have pow: "(256 :: nat) ^ (n - k) = 256 * 256 ^ (n - Suc k)"
    using step.hyps by (simp add: Suc_diff_Suc flip: power_Suc)
  have "be_value (drop (Suc k) ?s) + unat (drop_bit 8 t) * 256 ^ (n - k) =
      unat t * 256 ^ (n - Suc k) + be_value (drop (Suc (Suc k)) s)"
    unfolding d pow split [symmetric] by (simp add: algebra_simps)
  also have "\<dots> = be_value (drop k a) + be_value (drop k b)"
    using ih(3) assms step.hyps by (simp add: t be_value_drop algebra_simps)
  finally have sum: "be_value (drop (Suc k) ?s) + unat (drop_bit 8 t) * 256 ^ (n - k) =
      be_value (drop k a) + be_value (drop k b)" .
  have "foldl (add_step a b) (replicate (n + 1) 0, 0) (rev [k..<n]) = (?s, drop_bit 8 t)"
    by (simp only: rev_upt_Suc [OF step.hyps(2)] foldl_append foldl.simps f)
      (simp add: add_step_def t_def Let_def)
  with sum ih(1) c1 show ?case by (simp only: prod.case length_list_update)
qed

lemma sub_loop:
  assumes "length b = length a" "k \<le> length a"
  shows "case foldl (sub_step b) (a, 0) (rev [k..<length a]) of (s, c) \<Rightarrow>
    length s = length a \<and> take k s = take k a \<and> (c = 0 \<or> c = 1) \<and>
    int (be_value (drop k s)) + int (be_value (drop k b)) = int (be_value (drop k a)) + c * 256 ^ (length a - k)"
  using assms(2)
proof (induction rule: inc_induct)
  case base
  then show ?case using assms by simp
next
  case (step k)
  obtain s c where f: "foldl (sub_step b) (a, 0) (rev [Suc k..<length a]) = (s, c)" by force
  with step have ih: "length s = length a" "take (Suc k) s = take (Suc k) a" "c = 0 \<or> c = 1"
    "int (be_value (drop (Suc k) s)) + int (be_value (drop (Suc k) b)) =
       int (be_value (drop (Suc k) a)) + c * 256 ^ (length a - Suc k)"
    by simp_all
  have sk: "s ! k = a ! k" using ih(2) by (metis lessI nth_take)
  have tk: "take k s = take k a" using ih(2) by (metis le_add1 min.absorb1 plus_1_eq_Suc take_take add.commute)
  define v where "v = uint (a ! k) - uint (b ! k) - c"
  define d where "d = (if v < 0 then 1 else 0 :: int)"
  have ub: "0 \<le> uint (x :: byte)" "uint x < 256" for x using uint_bounded [of x] by simp_all
  have "0 \<le> c" "c \<le> 1" using ih(3) by auto
  then have "- 256 \<le> v" "v < 256" using ub [of "a ! k"] ub [of "b ! k"] unfolding v_def by linarith+
  then have r: "0 \<le> v + 256 * d" "v + 256 * d < 256" by (simp_all add: d_def)
  let ?s = "s[k := word_of_int (v + 256 * d)]"
  have u: "int (unat (word_of_int (v + 256 * d) :: byte)) = v + 256 * d"
  proof -
    have "uint (word_of_int z :: byte) = z" if "0 \<le> z" "z < 256" for z
      using that by (simp add: uint_word_of_int)
    from this [OF r] show ?thesis by (simp only: uint_nat)
  qed
  define P where "P = (256 :: int) ^ (length a - Suc k)"
  have pow: "(256 :: int) ^ (length a - k) = 256 * P"
    unfolding P_def using step.hyps by (simp add: Suc_diff_Suc flip: power_Suc)
  have at: "int (be_value (drop k x)) = int (unat (x ! k)) * P + int (be_value (drop (Suc k) x))"
    if "length x = length a" for x
    using that step.hyps(2) by (subst be_value_drop) (simp_all add: P_def)
  have "int (be_value (drop k ?s)) = (v + 256 * d) * P + int (be_value (drop (Suc k) s))"
    using at [of ?s] ih(1) step.hyps(2) u by simp
  then have "int (be_value (drop k ?s)) + int (be_value (drop k b)) =
      (v + 256 * d + int (unat (b ! k))) * P + (int (be_value (drop (Suc k) s)) + int (be_value (drop (Suc k) b)))"
    using at [OF assms(1)] by (simp only: distrib_right)
  also have "\<dots> = (int (unat (a ! k)) - c + 256 * d) * P + (int (be_value (drop (Suc k) a)) + c * P)"
    unfolding ih(4) P_def [symmetric] by (simp only: v_def uint_nat) (simp only: algebra_simps)
  also have "\<dots> = int (be_value (drop k a)) + d * 256 ^ (length a - k)"
    unfolding pow at [OF refl] by (simp only: algebra_simps)
  finally have sum: "int (be_value (drop k ?s)) + int (be_value (drop k b)) =
      int (be_value (drop k a)) + d * 256 ^ (length a - k)" .
  have "foldl (sub_step b) (a, 0) (rev [k..<length a]) = (?s, d)"
    by (simp only: rev_upt_Suc [OF step.hyps(2)] foldl_append foldl.simps f)
      (cases "v < 0"; simp add: sub_step_def sk d_def v_def)
  moreover have "take k ?s = take k a" "d = 0 \<or> d = 1" using tk by (simp_all add: d_def)
  ultimately show ?case using sum ih(1) by (simp only: prod.case length_list_update)
qed

lemma sub_assign_be_value:
  assumes "length b = length a" "be_value b \<le> be_value a"
  shows "length (sub_assign_be a b) = length a \<and> be_value (sub_assign_be a b) = be_value a - be_value b"
proof -
  obtain s c where f: "foldl (sub_step b) (a, 0) (rev [0..<length a]) = (s, c)" by force
  with sub_loop [of b a 0] assms have s: "length s = length a" "c = 0 \<or> c = 1"
    "int (be_value s) + int (be_value b) = int (be_value a) + c * 256 ^ length a" by simp_all
  have "c \<noteq> 1"
  proof
    assume "c = 1"
    with s have "int (be_value s + be_value b) = int (be_value a + 256 ^ length a)" by simp
    then have "be_value s + be_value b = be_value a + 256 ^ length a" by (simp only: of_nat_eq_iff)
    with be_value_less [of s] s assms show False by simp
  qed
  with s assms have "c = 0" by simp
  with s assms show ?thesis by (simp add: sub_assign_be_def f)
qed

lemma be_bytes_value: "be_bytes (length bs) (be_value bs) = bs"
  using be_value_eq_iff [of bs "length bs" "be_value bs"] be_value_less [of bs] by simp

lemma mod_add_be_eq:
  assumes len: "length a = length m" "length b = length m" and less: "be_value a < be_value m" "be_value b < be_value m"
  shows "\<exists>r. mod_add_be a b m = Inr r \<and> length r = length m \<and> be_value r = (be_value a + be_value b) mod be_value m"
proof -
  let ?n = "length m"
  obtain s c where f: "foldl (add_step a b) (replicate (?n + 1) 0, 0) (rev [0..<?n]) = (s, c)" by force
  with add_loop [of a ?n b 0] len have s: "length s = ?n + 1" "unat c \<le> 1"
    "be_value (drop 1 s) + unat c * 256 ^ ?n = be_value a + be_value b" by simp_all
  define t where "t = s[0 := ucast c]"
  have "unat (ucast c :: byte) = unat c" using s by (simp add: unsigned_ucast_eq take_bit_nat_eq_self)
  moreover obtain x xs where "s = x # xs" using s by (cases s) auto
  ultimately have t: "length t = ?n + 1" "be_value t = be_value a + be_value b" using s by (simp_all add: t_def)
  define u where "u = reduce_once t (0 # m)"
  have "length u = ?n + 1 \<and> be_value u = (be_value a + be_value b) mod be_value m"
  proof (cases "be_value t < be_value m")
    case True
    with t have "compare_be t (0 # m) = CmpLess" by (subst compare_be_less_iff) simp_all
    with True t show ?thesis by (simp add: u_def reduce_once_def)
  next
    case False
    with t have "compare_be t (0 # m) \<noteq> CmpLess" by (subst compare_be_less_iff) simp_all
    moreover have "(be_value a + be_value b) mod be_value m = be_value t - be_value m"
      using False t less by (simp add: mod_if)
    ultimately show ?thesis using sub_assign_be_value [of "0 # m" t] t False by (simp add: u_def reduce_once_def)
  qed
  then obtain y ys where u: "u = y # ys" "length ys = ?n" "be_value u = (be_value a + be_value b) mod be_value m"
    by (cases u) auto
  have "be_value u < be_value m" using u(3) less by simp
  moreover have "be_value u = unat y * 256 ^ ?n + be_value ys" using u by simp
  ultimately have "unat y * 256 ^ ?n < 256 ^ ?n" using be_value_less [of m] by linarith
  then have "unat y = 0" by (cases "unat y") simp_all
  with u have "be_value ys = (be_value a + be_value b) mod be_value m" by simp
  moreover have "mod_add_be a b m = Inr (drop 1 u)"
    by (simp only: mod_add_be_def f u_def t_def len Let_def prod.case simp_thms if_False)
  moreover have "drop 1 u = ys" using u by simp
  ultimately show ?thesis using u(2) by (intro exI [of _ ys]) simp
qed

section \<open>The binary method\<close>

text \<open>
  Double-and-add and square-and-multiply are one method: an operation on representations is
  iterated along the bits of a number, least significant bit first.  The contract is that the
  operation represents a function in which applying \<open>a\<close> twice is applying its double once.
\<close>

fun bits_value :: "bool list \<Rightarrow> nat" where
  "bits_value [] = 0"
| "bits_value (b # bs) = of_bool b + 2 * bits_value bs"

locale binary_method =
  fixes opr :: "'a \<Rightarrow> 'a \<Rightarrow> 'e + 'a"
    and rep :: "'a \<Rightarrow> 'm \<Rightarrow> bool"
    and f :: "'m \<Rightarrow> 'm \<Rightarrow> 'm"
  assumes opr_rep: "rep x a \<Longrightarrow> rep y b \<Longrightarrow> \<exists>z. opr x y = Inr z \<and> rep z (f b a)"
    and f_twice: "f a (f a c) = f (f a a) c"
begin

lemma funpow_double: "(f (f a a) ^^ n) c = (f a ^^ (2 * n)) c"
proof (induction n arbitrary: c)
  case (Suc n)
  have "(f (f a a) ^^ Suc n) c = (f a ^^ (2 * n)) (f a (f a c))"
    by (simp add: funpow_Suc_right f_twice [symmetric] Suc del: funpow.simps)
  also have "\<dots> = (f a ^^ (2 * Suc n)) c" by (simp add: funpow_Suc_right del: funpow.simps)
  finally show ?case .
qed simp

definition bit_step :: "'a \<times> 'a \<Rightarrow> bool \<Rightarrow> 'e + 'a \<times> 'a" where
  "bit_step s b = (case s of (result, base) \<Rightarrow>
     rbind (if b then opr result base else Inr result) (\<lambda>result.
     rbind (opr base base) (\<lambda>base. Inr (result, base))))"

lemma bit_step_rep:
  assumes "rep x c" "rep y a"
  shows "\<exists>x' y'. bit_step (x, y) b = Inr (x', y') \<and> rep x' ((f a ^^ of_bool b) c) \<and> rep y' (f a a)"
proof -
  obtain y' where "opr y y = Inr y'" "rep y' (f a a)" using opr_rep [OF assms(2) assms(2)] by blast
  moreover obtain x' where "opr x y = Inr x'" "rep x' (f a c)" using opr_rep [OF assms] by blast
  ultimately show ?thesis using assms by (cases b) (simp_all add: bit_step_def)
qed

lemma bits_rep:
  "rep x c \<Longrightarrow> rep y a \<Longrightarrow> \<exists>x' y'. rfold bit_step (x, y) bs = Inr (x', y') \<and> rep x' ((f a ^^ bits_value bs) c)"
proof (induction bs arbitrary: x y a c)
  case (Cons b bs)
  from bit_step_rep [OF Cons.prems, of b] obtain x1 y1 where
    s: "bit_step (x, y) b = Inr (x1, y1)" "rep x1 ((f a ^^ of_bool b) c)" "rep y1 (f a a)" by blast
  from Cons.IH [OF s(2,3)] obtain x' y' where
    "rfold bit_step (x1, y1) bs = Inr (x', y')" "rep x' ((f (f a a) ^^ bits_value bs) ((f a ^^ of_bool b) c))"
    by blast
  moreover have "(f (f a a) ^^ bits_value bs) ((f a ^^ of_bool b) c) = (f a ^^ bits_value (b # bs)) c"
    unfolding funpow_double bits_value.simps add.commute [of "of_bool b"] funpow_add comp_def by (rule refl)
  ultimately show ?case using s(1) by simp
qed simp

end

definition modular_rep :: "bytes \<Rightarrow> bytes \<Rightarrow> nat \<Rightarrow> bool" where
  "modular_rep m x a \<longleftrightarrow> length x = length m \<and> be_value x = a \<and> a < be_value m"

interpretation madd: binary_method "\<lambda>x y. mod_add_be x y m" "modular_rep m" "\<lambda>a b. (a + b) mod be_value m"
  for m
proof
  fix x a y b
  assume "modular_rep m x a" "modular_rep m y b"
  then show "\<exists>z. mod_add_be x y m = Inr z \<and> modular_rep m z ((b + a) mod be_value m)"
    using mod_add_be_eq [of x m y] by (fastforce simp: modular_rep_def add.commute)
qed (simp add: mod_simps add.assoc)

lemma bits_value_append: "bits_value (xs @ ys) = bits_value xs + 2 ^ length xs * bits_value ys"
  by (induction xs) simp_all

definition byte_bits :: "byte \<Rightarrow> bool list" where
  "byte_bits b = map (bit b) [0..<8]"

lemma bits_value_byte: "bits_value (byte_bits b) = unat b"
proof -
  have "bits_value (map (bit b) [0..<n]) = take_bit n (unat b)" for n
  proof (induction n)
    case (Suc n)
    have "bit (unat b) n \<longleftrightarrow> bit b n" by (simp only: bit_unsigned_iff) simp
    with Suc show ?case by (simp add: bits_value_append take_bit_Suc_from_most)
  qed simp
  from this [of 8] have "bits_value (byte_bits b) = take_bit 8 (unat b)" unfolding byte_bits_def .
  then show ?thesis by (simp add: take_bit_nat_eq_self)
qed

lemma bits_value_bytes: "bits_value (concat (map byte_bits (rev bs))) = be_value bs"
proof (induction bs)
  case (Cons b bs)
  have "length (concat (map byte_bits xs)) = 8 * length xs" for xs
    by (induction xs) (simp_all add: byte_bits_def)
  then have "2 ^ length (concat (map byte_bits (rev bs))) = (256 :: nat) ^ length bs"
    by (simp add: power_mult)
  with Cons show ?case by (simp add: bits_value_append bits_value_byte)
qed simp

lemma mul_bit_step_eq: "mul_bit_step m byte s k = madd.bit_step m s (bit byte k)"
proof -
  have "byte AND push_bit k 1 = 0 \<longleftrightarrow> \<not> bit byte k"
    by (simp only: push_bit_of_1 and_exp_eq_0_iff_not_bit)
  then show ?thesis by (simp add: mul_bit_step_def madd.bit_step_def)
qed

lemma mod_mul_be_bits:
  "length a = length m \<Longrightarrow> length b = length m \<Longrightarrow> mod_mul_be a b m =
     rmap fst (rfold (madd.bit_step m) (replicate (length m) 0, a) (concat (map byte_bits (rev b))))"
  by (simp add: mod_mul_be_def mul_bit_step_eq [abs_def] byte_bits_def rfold_concat [symmetric] rfold_map)

lemma funpow_madd: "c < M \<Longrightarrow> ((\<lambda>z. (a + z) mod M) ^^ n) c = (n * a + c) mod (M :: nat)"
  by (induction n) (simp_all add: mod_simps algebra_simps)

lemma funpow_mmul: "c < M \<Longrightarrow> ((\<lambda>z. (a * z) mod M) ^^ n) c = (c * a ^ n) mod (M :: nat)"
  by (induction n) (simp_all add: mod_simps algebra_simps)

lemma be_value_zeros [simp]: "be_value (replicate n 0) = 0"
  by (induction n) simp_all

lemma mod_mul_be_eq:
  assumes x: "modular_rep m x a" and y: "modular_rep m y b"
  shows "\<exists>z. mod_mul_be x y m = Inr z \<and> modular_rep m z ((b * a) mod be_value m)"
proof -
  have pos: "0 < be_value m" using x by (simp add: modular_rep_def)
  then have "modular_rep m (replicate (length m) 0) 0" by (simp add: modular_rep_def)
  from madd.bits_rep [OF this x, of "concat (map byte_bits (rev y))"]
  obtain z z' where "rfold (madd.bit_step m) (replicate (length m) 0, x) (concat (map byte_bits (rev y))) = Inr (z, z')"
    "modular_rep m z (((\<lambda>z. (a + z) mod be_value m) ^^ be_value y) 0)"
    by (auto simp: bits_value_bytes)
  with x y pos show ?thesis by (simp add: mod_mul_be_bits funpow_madd modular_rep_def)
qed

interpretation mmul: binary_method "\<lambda>x y. mod_mul_be x y m" "modular_rep m" "\<lambda>a b. (a * b) mod be_value m"
  for m
  by unfold_locales (fact mod_mul_be_eq, simp add: mod_simps mult.assoc)

lemma rsa_loop_eq:
  "modular_rep m result c \<Longrightarrow> modular_rep m base a \<Longrightarrow>
     \<exists>z. rsa_loop m result base e = Inr z \<and> modular_rep m z ((c * a ^ unat e) mod be_value m)"
proof (induction m result base e arbitrary: c a rule: rsa_loop.induct)
  case (1 m result base e)
  have c: "c < be_value m" using "1.prems" by (simp add: modular_rep_def)
  show ?case
  proof (cases "e > 0")
    case True
    define e' where "e' = drop_bit 1 e"
    have e: "unat e = of_bool (odd (unat e)) + 2 * unat e'"
      unfolding e'_def unat_drop_bit_1 by (cases "odd (unat e)") simp_all
    have low: "e AND 1 = 1 \<longleftrightarrow> odd (unat e)"
    proof -
      have "bit (unat e) 0 \<longleftrightarrow> bit e 0" by (simp only: bit_unsigned_iff) simp
      then have "odd (unat e) \<longleftrightarrow> odd e" by (simp only: bit_0)
      then show ?thesis by (simp add: and_one_eq mod_2_eq_odd)
    qed
    obtain r where r: "(if e AND 1 = 1 then mod_mul_be result base m else Inr result) = Inr r"
      "modular_rep m r ((c * a ^ of_bool (odd (unat e))) mod be_value m)"
      using mod_mul_be_eq [OF "1.prems"] "1.prems"(1) c by (cases "odd (unat e)") (auto simp: low mult.commute)
    obtain sq where sq: "mod_mul_be base base m = Inr sq" "modular_rep m sq ((a * a) mod be_value m)"
      using mod_mul_be_eq [OF "1.prems"(2) "1.prems"(2)] by blast
    show ?thesis
    proof (cases "e' > 0")
      case True
      with "1.IH" [OF \<open>e > 0\<close> r(1) refl, of sq] sq r obtain z where
        "rsa_loop m r sq e' = Inr z"
        "modular_rep m z ((c * a ^ of_bool (odd (unat e))) mod be_value m * ((a * a) mod be_value m) ^ unat e' mod be_value m)"
        unfolding e'_def [symmetric] by auto
      moreover have "(c * a ^ of_bool (odd (unat e))) mod be_value m * ((a * a) mod be_value m) ^ unat e' mod be_value m
          = (c * a ^ unat e) mod be_value m"
      proof -
        have "a ^ unat e = a ^ of_bool (odd (unat e)) * (a * a) ^ unat e'"
          using arg_cong [OF e, of "\<lambda>n. a ^ n"] by (simp only: power_add power_mult power2_eq_square)
        moreover have "((a * a) mod be_value m) ^ unat e' mod be_value m = (a * a) ^ unat e' mod be_value m"
          by (rule power_mod)
        ultimately show ?thesis
          by (metis mod_mult_left_eq mod_mult_right_eq mult.assoc)
      qed
      ultimately show ?thesis using True \<open>e > 0\<close> r(1) sq
        by (subst rsa_loop.simps) (simp add: e'_def Let_def)
    next
      case False
      then have "e' = 0" by (simp add: word_less_nat_alt word_unat_eq_iff)
      then have "unat e = of_bool (odd (unat e))" using e by simp
      moreover have "rsa_loop m r base 0 = Inr r" by (subst rsa_loop.simps) simp
      ultimately show ?thesis using \<open>e > 0\<close> \<open>e' = 0\<close> r
        by (subst rsa_loop.simps) (auto simp: e'_def Let_def)
    qed
  next
    case False
    then have "e = 0" by (simp add: word_less_nat_alt word_unat_eq_iff)
    with "1.prems" c show ?thesis by (subst rsa_loop.simps) simp
  qed
qed

section \<open>The whole operation\<close>

lemma u32_push_8_or:
  assumes "unat (v :: u32) < 2 ^ 24"
  shows "unat (push_bit 8 v OR ucast (b :: byte)) = 256 * unat v + unat b"
proof -
  have "unat (ucast b :: u32) = unat b"
    using unat_byte_less [of b] by (simp add: unsigned_ucast_eq take_bit_nat_eq_self del: unat_byte_less)
  moreover have "unat (push_bit 8 v) = push_bit 8 (unat v)"
    using assms by (subst unsigned_push_bit_eq) (simp add: push_bit_eq_mult take_bit_nat_eq_self)
  ultimately show ?thesis by (simp only: unsigned_or_eq) (simp add: push_8_or_nat)
qed

lemma exponent_fold:
  "length pre + length bs \<le> 4 \<Longrightarrow> unat (v :: u32) = be_value pre \<Longrightarrow>
     unat (foldl (\<lambda>v b. push_bit 8 v OR ucast b) v bs) = be_value (pre @ bs)"
proof (induction bs arbitrary: v pre)
  case (Cons b bs)
  have "be_value pre < 2 ^ 24"
  proof -
    have "(256 :: nat) ^ length pre \<le> 256 ^ 3" using Cons.prems(1) by (intro power_increasing) simp_all
    then show ?thesis using be_value_less [of pre] by simp
  qed
  with Cons.prems have "unat (push_bit 8 v OR ucast b) = be_value (pre @ [b])"
    by (simp add: u32_push_8_or be_value_append)
  from Cons.IH [OF _ this] Cons.prems(1) show ?case by simp
qed simp

definition rsa_exponent_ok :: "bytes \<Rightarrow> bool" where
  "rsa_exponent_ok e \<longleftrightarrow> e \<noteq> [] \<and> length e \<le> 3 \<and> \<not> all_zero_or_ff e \<and> 3 \<le> be_value e \<and> odd (be_value e)"

definition rsa_operands_ok :: "bytes \<Rightarrow> bytes \<Rightarrow> bool" where
  "rsa_operands_ok s m \<longleftrightarrow> 2 \<le> length m \<and> length m \<le> 256 \<and> hd m \<noteq> 0 \<and> odd (be_value m) \<and> \<not> all_zero_or_ff m \<and>
     length s = length m \<and> \<not> all_zero_or_ff s \<and> be_value s < be_value m"

lemma parse_rsa_public_exponent_eq:
  "case parse_rsa_public_exponent e of Inl err \<Rightarrow> err = InvalidProfile \<and> \<not> rsa_exponent_ok e
   | Inr v \<Rightarrow> rsa_exponent_ok e \<and> unat v = be_value e"
proof (cases "e = [] \<or> length e > 3 \<or> all_zero_or_ff e")
  case False
  define v where "v = foldl (\<lambda>v b. push_bit 8 v OR ucast b) (0 :: u32) e"
  have v: "unat v = be_value e" using exponent_fold [of "[]" e 0] False by (simp add: v_def)
  have "v mod 2 = 0 \<longleftrightarrow> even (be_value e)"
    by (simp add: word_unat_eq_iff unat_mod_distrib v even_iff_mod_2_eq_zero)
  moreover have "v < 3 \<longleftrightarrow> be_value e < 3" by (simp add: word_less_nat_alt v)
  ultimately show ?thesis using False v unfolding parse_rsa_public_exponent_def rsa_exponent_ok_def v_def [symmetric]
    by (auto simp: Let_def)
qed (auto simp: parse_rsa_public_exponent_def rsa_exponent_ok_def)

lemma odd_be_value: "m \<noteq> [] \<Longrightarrow> odd (be_value m) \<longleftrightarrow> odd (unat (last m))"
  by (induction m rule: rev_induct) (simp_all add: be_value_append)

lemma validate_rsa_public_components_eq:
  "validate_rsa_public_components s m = (if rsa_operands_ok s m then Inr () else Inl InvalidProfile)"
proof (cases "2 \<le> length m \<and> length s = length m")
  case True
  then have "m \<noteq> []" by auto
  moreover from this have "last m mod 2 = 0 \<longleftrightarrow> even (be_value m)"
    using odd_be_value [of m] by (simp add: word_unat_eq_iff unat_mod_distrib) presburger
  ultimately show ?thesis using True
    by (auto simp: validate_rsa_public_components_def rsa_operands_ok_def MAX_ODA_RSA_MODULUS_BYTES_def
        compare_be_less_iff hd_conv_nth last_conv_nth)
qed (auto simp: validate_rsa_public_components_def rsa_operands_ok_def)

lemma be_value_one: "m \<noteq> [] \<Longrightarrow> be_value ((replicate (length m) 0)[length m - 1 := 1]) = 1"
  by (cases m rule: rev_cases) (simp_all add: replicate_append_same [symmetric] list_update_append be_value_append)

lemma recover_rsa_eq:
  "recover_rsa_public_block signature modulus exponent =
     (if rsa_exponent_ok exponent \<and> rsa_operands_ok signature modulus
      then Inr (be_bytes (length modulus) (be_value signature ^ be_value exponent mod be_value modulus))
      else Inl InvalidProfile)"
proof (cases "parse_rsa_public_exponent exponent")
  case (Inl err)
  with parse_rsa_public_exponent_eq [of exponent] show ?thesis by (simp add: recover_rsa_public_block_def)
next
  case (Inr v)
  with parse_rsa_public_exponent_eq [of exponent] have e: "rsa_exponent_ok exponent" "unat v = be_value exponent"
    by simp_all
  show ?thesis
  proof (cases "rsa_operands_ok signature modulus")
    case True
    then have m: "modulus \<noteq> []" "length modulus \<ge> 2" "length signature = length modulus"
      "be_value signature < be_value modulus" "hd modulus \<noteq> 0" by (auto simp: rsa_operands_ok_def)
    have "1 < be_value modulus"
    proof -
      have "unat (hd modulus) * 256 ^ length (tl modulus) \<le> be_value modulus" using m(1) by (cases modulus) simp_all
      moreover have "(1 :: nat) * 256 ^ 1 \<le> unat (hd modulus) * 256 ^ length (tl modulus)"
        using m(2,5) by (intro mult_mono power_increasing) (simp_all add: word_unat_eq_iff Suc_le_eq)
      ultimately show ?thesis by simp
    qed
    then have "modular_rep modulus ((replicate (length modulus) 0)[length modulus - 1 := 1]) 1"
      using m(1) by (simp add: modular_rep_def be_value_one [unfolded One_nat_def])
    moreover have "modular_rep modulus signature (be_value signature)" using m by (simp add: modular_rep_def)
    ultimately obtain z where
      "rsa_loop modulus ((replicate (length modulus) 0)[length modulus - 1 := 1]) signature v = Inr z"
      "modular_rep modulus z (be_value signature ^ be_value exponent mod be_value modulus)"
      using rsa_loop_eq e(2) by fastforce
    moreover from this(2) have "z = be_bytes (length modulus) (be_value signature ^ be_value exponent mod be_value modulus)"
      using be_bytes_value [of z] by (simp add: modular_rep_def)
    ultimately show ?thesis using True e(1) m(1) Inr
      by (simp add: recover_rsa_public_block_def validate_rsa_public_components_eq)
  next
    case False
    with Inr e(1) show ?thesis by (simp add: recover_rsa_public_block_def validate_rsa_public_components_eq)
  qed
qed

text \<open>C16: The RSA public-key operation computes exactly \<open>signature ^ exponent mod modulus\<close>,
  as many bytes as the modulus has, when the exponent is 1 to 3 bytes, odd and at least 3, the
  modulus is 2 to 256 bytes, odd and without a leading zero byte, the signature is as long as the
  modulus and below it, and none of the three is all zeros or all ones; otherwise it fails with
  \<open>InvalidProfile\<close>.\<close>
theorem recover_rsa_public_block_eq:
  "recover_rsa_public_block signature modulus exponent =
     (if rsa_exponent_ok exponent \<and> rsa_operands_ok signature modulus
      then Inr (be_bytes (length modulus) (be_value signature ^ be_value exponent mod be_value modulus))
      else Inl InvalidProfile)"
  by (rule recover_rsa_eq)

end
