(* ===== verification/Emv_State.thy ===== *)
theory Emv_State
  imports Emv_Error
begin

text \<open>
  Kernel states and the two status registers of a transaction (\<open>src/src/state.rs\<close>): the
  terminal verification results, five bytes, and the transaction status information, two.
  A bit is addressed by its byte index and mask; \<open>set\<close> lets through only the bits EMV
  assigns, so the reserved ones stay clear.
\<close>

unbundle bit_operations_syntax

datatype kernel_state =
    K_Idle | K_ParamsSet | K_SelectEnvironment | K_BuildCandidateList | K_SelectAid | K_Gpo
  | K_ReadRecords | K_OfflineDataAuthentication | K_ProcessingRestrictions | K_Cvm
  | K_TerminalRiskManagement | K_TerminalActionAnalysis | K_FirstGenerateAc
  | K_OnlineAuthorization | K_IssuerAuthentication | K_IssuerScripts | K_SecondGenerateAc
  | K_PostFinalIssuerScripts | K_FinalOutcome | K_Error

type_synonym status_bit = "nat \<times> byte"

section \<open>Registers as an interface\<close>

text \<open>
  A register is read through its bytes; \<open>set\<close> ORs the allowed part of a mask into one byte and
  ignores a byte index outside the register, \<open>is_set\<close> tests a mask.  Everything the phases of
  a transaction need about their status bits follows from these three laws.
\<close>

definition bit_hits :: "bytes \<Rightarrow> status_bit \<Rightarrow> status_bit \<Rightarrow> bool" where
  "bit_hits masks b c \<longleftrightarrow>
     fst b = fst c \<and> fst b < length masks \<and> snd b AND masks ! fst b AND snd c \<noteq> 0"

locale status_register =
  fixes masks :: bytes
    and reg_bytes :: "'r \<Rightarrow> bytes"
    and reg_set :: "'r \<Rightarrow> status_bit \<Rightarrow> 'r"
    and reg_is_set :: "'r \<Rightarrow> status_bit \<Rightarrow> bool"
  assumes length_bytes: "length (reg_bytes r) = length masks"
    and bytes_set: "reg_bytes (reg_set r (i, m)) =
      (if i < length masks then (reg_bytes r)[i := reg_bytes r ! i OR (m AND masks ! i)]
       else reg_bytes r)"
    and is_set_iff: "reg_is_set r (i, m) \<longleftrightarrow> i < length masks \<and> reg_bytes r ! i AND m \<noteq> 0"
begin

definition clean :: "'r \<Rightarrow> bool" where
  "clean r \<longleftrightarrow> (\<forall>i < length masks. reg_bytes r ! i AND NOT (masks ! i) = 0)"

lemma is_set_set: "reg_is_set (reg_set r b) c \<longleftrightarrow> reg_is_set r c \<or> bit_hits masks b c"
proof (cases b; cases c)
  fix i m j n
  assume b: "b = (i, m)" and c: "c = (j, n)"
  have or: "(x OR y) AND n \<noteq> 0 \<longleftrightarrow> x AND n \<noteq> 0 \<or> y AND n \<noteq> 0" for x y :: byte
    by (simp add: bit.conj_disj_distrib2 or_eq_0_iff)
  show ?thesis
    by (auto simp: b c is_set_iff bytes_set length_bytes nth_list_update or bit_hits_def and.assoc)
qed

lemma is_set_fold:
  "reg_is_set (foldl reg_set r bs) c \<longleftrightarrow> reg_is_set r c \<or> (\<exists>b\<in>set bs. bit_hits masks b c)"
  by (induction bs arbitrary: r) (auto simp: is_set_set)

lemma clean_set_iff: "clean (reg_set r b) \<longleftrightarrow> clean r"
proof (cases b)
  fix i m
  assume b: "b = (i, m)"
  have "(x OR (m AND y)) AND NOT y = x AND NOT y" for x y :: byte
    by (simp add: bit.conj_disj_distrib2 and.assoc)
  then show ?thesis
    by (auto simp: b clean_def bytes_set length_bytes nth_list_update)
qed

lemma clean_fold: "clean (foldl reg_set r bs) \<longleftrightarrow> clean r"
  by (induction bs arbitrary: r) (auto simp: clean_set_iff)

lemma set_idem: "reg_bytes (reg_set (reg_set r b) b) = reg_bytes (reg_set r b)"
proof (cases b)
  fix i m
  assume "b = (i, m)"
  then show ?thesis by (auto simp: bytes_set length_bytes nth_list_update or.assoc)
qed

end

section \<open>Terminal verification results\<close>

datatype tvr = Tvr (tvr_raw: arr5)

definition TVR_ALLOWED_MASKS :: bytes where
  "TVR_ALLOWED_MASKS = [0xfc, 0xf8, 0xfc, 0xf8, 0xf0]"

definition B1_OFFLINE_DATA_AUTH_NOT_PERFORMED :: status_bit where
  "B1_OFFLINE_DATA_AUTH_NOT_PERFORMED = (0, 0x80)"
definition B1_SDA_FAILED :: status_bit where "B1_SDA_FAILED = (0, 0x40)"
definition B1_ICC_DATA_MISSING :: status_bit where "B1_ICC_DATA_MISSING = (0, 0x20)"
definition B1_CARD_ON_EXCEPTION_FILE :: status_bit where "B1_CARD_ON_EXCEPTION_FILE = (0, 0x10)"
definition B1_DDA_FAILED :: status_bit where "B1_DDA_FAILED = (0, 0x08)"
definition B1_CDA_FAILED :: status_bit where "B1_CDA_FAILED = (0, 0x04)"
definition B2_DIFFERENT_APPLICATION_VERSIONS :: status_bit where
  "B2_DIFFERENT_APPLICATION_VERSIONS = (1, 0x80)"
definition B2_EXPIRED_APPLICATION :: status_bit where "B2_EXPIRED_APPLICATION = (1, 0x40)"
definition B2_APPLICATION_NOT_YET_EFFECTIVE :: status_bit where
  "B2_APPLICATION_NOT_YET_EFFECTIVE = (1, 0x20)"
definition B2_REQUESTED_SERVICE_NOT_ALLOWED :: status_bit where
  "B2_REQUESTED_SERVICE_NOT_ALLOWED = (1, 0x10)"
definition B2_NEW_CARD :: status_bit where "B2_NEW_CARD = (1, 0x08)"
definition B3_CARDHOLDER_VERIFICATION_NOT_SUCCESSFUL :: status_bit where
  "B3_CARDHOLDER_VERIFICATION_NOT_SUCCESSFUL = (2, 0x80)"
definition B3_UNRECOGNIZED_CVM :: status_bit where "B3_UNRECOGNIZED_CVM = (2, 0x40)"
definition B3_PIN_TRY_LIMIT_EXCEEDED :: status_bit where "B3_PIN_TRY_LIMIT_EXCEEDED = (2, 0x20)"
definition B3_PIN_PAD_NOT_PRESENT_OR_NOT_WORKING :: status_bit where
  "B3_PIN_PAD_NOT_PRESENT_OR_NOT_WORKING = (2, 0x10)"
definition B3_PIN_NOT_ENTERED :: status_bit where "B3_PIN_NOT_ENTERED = (2, 0x08)"
definition B3_ONLINE_PIN_ENTERED :: status_bit where "B3_ONLINE_PIN_ENTERED = (2, 0x04)"
definition B4_FLOOR_LIMIT_EXCEEDED :: status_bit where "B4_FLOOR_LIMIT_EXCEEDED = (3, 0x80)"
definition B4_LOWER_CONSECUTIVE_OFFLINE_LIMIT_EXCEEDED :: status_bit where
  "B4_LOWER_CONSECUTIVE_OFFLINE_LIMIT_EXCEEDED = (3, 0x40)"
definition B4_UPPER_CONSECUTIVE_OFFLINE_LIMIT_EXCEEDED :: status_bit where
  "B4_UPPER_CONSECUTIVE_OFFLINE_LIMIT_EXCEEDED = (3, 0x20)"
definition B4_RANDOM_TRANSACTION_SELECTION_PERFORMED :: status_bit where
  "B4_RANDOM_TRANSACTION_SELECTION_PERFORMED = (3, 0x10)"
definition B4_MERCHANT_FORCED_TRANSACTION_ONLINE :: status_bit where
  "B4_MERCHANT_FORCED_TRANSACTION_ONLINE = (3, 0x08)"
definition B5_DEFAULT_TDOL_USED :: status_bit where "B5_DEFAULT_TDOL_USED = (4, 0x80)"
definition B5_ISSUER_AUTHENTICATION_FAILED :: status_bit where
  "B5_ISSUER_AUTHENTICATION_FAILED = (4, 0x40)"
definition B5_SCRIPT_PROCESSING_FAILED_BEFORE_FINAL_GAC :: status_bit where
  "B5_SCRIPT_PROCESSING_FAILED_BEFORE_FINAL_GAC = (4, 0x20)"
definition B5_SCRIPT_PROCESSING_FAILED_AFTER_FINAL_GAC :: status_bit where
  "B5_SCRIPT_PROCESSING_FAILED_AFTER_FINAL_GAC = (4, 0x10)"

lemmas tvr_bit_defs =
  B1_OFFLINE_DATA_AUTH_NOT_PERFORMED_def B1_SDA_FAILED_def B1_ICC_DATA_MISSING_def
  B1_CARD_ON_EXCEPTION_FILE_def B1_DDA_FAILED_def B1_CDA_FAILED_def
  B2_DIFFERENT_APPLICATION_VERSIONS_def B2_EXPIRED_APPLICATION_def
  B2_APPLICATION_NOT_YET_EFFECTIVE_def B2_REQUESTED_SERVICE_NOT_ALLOWED_def B2_NEW_CARD_def
  B3_CARDHOLDER_VERIFICATION_NOT_SUCCESSFUL_def B3_UNRECOGNIZED_CVM_def
  B3_PIN_TRY_LIMIT_EXCEEDED_def B3_PIN_PAD_NOT_PRESENT_OR_NOT_WORKING_def
  B3_PIN_NOT_ENTERED_def B3_ONLINE_PIN_ENTERED_def B4_FLOOR_LIMIT_EXCEEDED_def
  B4_LOWER_CONSECUTIVE_OFFLINE_LIMIT_EXCEEDED_def B4_UPPER_CONSECUTIVE_OFFLINE_LIMIT_EXCEEDED_def
  B4_RANDOM_TRANSACTION_SELECTION_PERFORMED_def B4_MERCHANT_FORCED_TRANSACTION_ONLINE_def
  B5_DEFAULT_TDOL_USED_def B5_ISSUER_AUTHENTICATION_FAILED_def
  B5_SCRIPT_PROCESSING_FAILED_BEFORE_FINAL_GAC_def B5_SCRIPT_PROCESSING_FAILED_AFTER_FINAL_GAC_def

definition tvr_cleared :: tvr where
  "tvr_cleared = Tvr (A5 0 0 0 0 0)"

definition tvr_bytes :: "tvr \<Rightarrow> bytes" where
  "tvr_bytes t = list5 (tvr_raw t)"

definition tvr_set :: "tvr \<Rightarrow> status_bit \<Rightarrow> tvr" where
  "tvr_set t b = (case b of (i, m) \<Rightarrow>
     Tvr (upd5 (tvr_raw t) i (\<lambda>byte. byte OR (m AND TVR_ALLOWED_MASKS ! i))))"

definition tvr_clear :: "tvr \<Rightarrow> status_bit \<Rightarrow> tvr" where
  "tvr_clear t b = (case b of (i, m) \<Rightarrow> Tvr (upd5 (tvr_raw t) i (\<lambda>byte. byte AND NOT m)))"

definition tvr_is_set :: "tvr \<Rightarrow> status_bit \<Rightarrow> bool" where
  "tvr_is_set t b = (case b of (i, m) \<Rightarrow>
     (case get_at (tvr_bytes t) i of None \<Rightarrow> False | Some byte \<Rightarrow> byte AND m \<noteq> 0))"

definition tvr_has_rfu_bits :: "tvr \<Rightarrow> bool" where
  "tvr_has_rfu_bits t =
     list_ex (\<lambda>(byte, allowed). byte AND NOT allowed \<noteq> 0) (zip (tvr_bytes t) TVR_ALLOWED_MASKS)"

lemma length_TVR_ALLOWED_MASKS [simp]: "length TVR_ALLOWED_MASKS = 5"
  by (simp add: TVR_ALLOWED_MASKS_def)

lemma length_tvr_bytes [simp]: "length (tvr_bytes t) = 5"
  by (simp add: tvr_bytes_def)

lemma tvr_bytes_inject [simp]: "tvr_bytes t = tvr_bytes u \<longleftrightarrow> t = u"
  by (cases t; cases u) (simp add: tvr_bytes_def)

interpretation tvr: status_register TVR_ALLOWED_MASKS tvr_bytes tvr_set tvr_is_set
proof
  show "tvr_is_set r (i, m) \<longleftrightarrow> i < length TVR_ALLOWED_MASKS \<and> tvr_bytes r ! i AND m \<noteq> 0" for r i m
    by (simp add: tvr_is_set_def get_at_def)
qed (simp_all add: tvr_set_def tvr_bytes_def list5_upd5)

lemma tvr_has_rfu_bits_iff: "tvr_has_rfu_bits t \<longleftrightarrow> \<not> tvr.clean t"
  by (auto simp: tvr_has_rfu_bits_def tvr.clean_def list_ex_length)

lemma tvr_clean_cleared: "tvr.clean tvr_cleared"
  by (auto simp: tvr.clean_def tvr_cleared_def tvr_bytes_def less_5_cases)

lemma tvr_clean_clear: "tvr.clean t \<Longrightarrow> tvr.clean (tvr_clear t b)"
proof (cases b)
  fix i m
  assume b: "b = (i, m)" and t: "tvr.clean t"
  have "(x AND y) AND NOT z = 0" if "x AND NOT z = 0" for x y z :: byte
  proof -
    have "(x AND y) AND NOT z = y AND (x AND NOT z)"
      by (simp add: ac_simps)
    with that show ?thesis by simp
  qed
  with t show ?thesis
    by (auto simp: b tvr.clean_def tvr_clear_def tvr_bytes_def list5_upd5 nth_list_update)
qed

lemma tvr_is_set_clear:
  "tvr_is_set (tvr_clear t b) c \<longleftrightarrow>
     tvr_is_set t c \<and> (fst b = fst c \<longrightarrow> tvr_bytes t ! fst c AND NOT (snd b) AND snd c \<noteq> 0)"
proof (cases b; cases c)
  fix i m j n
  assume bc: "b = (i, m)" "c = (j, n)"
  have "x AND n \<noteq> 0" if "x AND (NOT m AND n) \<noteq> 0" for x :: byte
  proof -
    have "x AND (NOT m AND n) = NOT m AND (x AND n)"
      by (simp add: ac_simps)
    with that show ?thesis by auto
  qed
  then show ?thesis
    by (auto simp: bc tvr.is_set_iff tvr_clear_def tvr_bytes_def list5_upd5 nth_list_update and.assoc)
qed

section \<open>Transaction status information\<close>

datatype tsi = Tsi (tsi_raw: arr2)

definition TSI_ALLOWED_MASKS :: bytes where "TSI_ALLOWED_MASKS = [0xfc, 0x00]"

definition OFFLINE_DATA_AUTHENTICATION_PERFORMED :: status_bit where
  "OFFLINE_DATA_AUTHENTICATION_PERFORMED = (0, 0x80)"
definition CARDHOLDER_VERIFICATION_PERFORMED :: status_bit where
  "CARDHOLDER_VERIFICATION_PERFORMED = (0, 0x40)"
definition CARD_RISK_MANAGEMENT_PERFORMED :: status_bit where
  "CARD_RISK_MANAGEMENT_PERFORMED = (0, 0x20)"
definition ISSUER_AUTHENTICATION_PERFORMED :: status_bit where
  "ISSUER_AUTHENTICATION_PERFORMED = (0, 0x10)"
definition TERMINAL_RISK_MANAGEMENT_PERFORMED :: status_bit where
  "TERMINAL_RISK_MANAGEMENT_PERFORMED = (0, 0x08)"
definition SCRIPT_PROCESSING_PERFORMED :: status_bit where
  "SCRIPT_PROCESSING_PERFORMED = (0, 0x04)"

lemmas tsi_bit_defs =
  OFFLINE_DATA_AUTHENTICATION_PERFORMED_def CARDHOLDER_VERIFICATION_PERFORMED_def
  CARD_RISK_MANAGEMENT_PERFORMED_def ISSUER_AUTHENTICATION_PERFORMED_def
  TERMINAL_RISK_MANAGEMENT_PERFORMED_def SCRIPT_PROCESSING_PERFORMED_def

definition tsi_cleared :: tsi where
  "tsi_cleared = Tsi (A2 0 0)"

definition tsi_bytes :: "tsi \<Rightarrow> bytes" where
  "tsi_bytes t = list2 (tsi_raw t)"

definition tsi_set :: "tsi \<Rightarrow> status_bit \<Rightarrow> tsi" where
  "tsi_set t b = (case b of (i, m) \<Rightarrow>
     Tsi (upd2 (tsi_raw t) i (\<lambda>byte. byte OR (m AND TSI_ALLOWED_MASKS ! i))))"

definition tsi_is_set :: "tsi \<Rightarrow> status_bit \<Rightarrow> bool" where
  "tsi_is_set t b = (case b of (i, m) \<Rightarrow>
     (case get_at (tsi_bytes t) i of None \<Rightarrow> False | Some byte \<Rightarrow> byte AND m \<noteq> 0))"

definition tsi_has_rfu_bits :: "tsi \<Rightarrow> bool" where
  "tsi_has_rfu_bits t =
     list_ex (\<lambda>(byte, allowed). byte AND NOT allowed \<noteq> 0) (zip (tsi_bytes t) TSI_ALLOWED_MASKS)"

lemma length_TSI_ALLOWED_MASKS [simp]: "length TSI_ALLOWED_MASKS = 2"
  by (simp add: TSI_ALLOWED_MASKS_def)

interpretation tsi: status_register TSI_ALLOWED_MASKS tsi_bytes tsi_set tsi_is_set
proof
  show "tsi_is_set r (i, m) \<longleftrightarrow> i < length TSI_ALLOWED_MASKS \<and> tsi_bytes r ! i AND m \<noteq> 0" for r i m
    by (simp add: tsi_is_set_def tsi_bytes_def get_at_def)
qed (simp_all add: tsi_set_def tsi_bytes_def list2_upd2)

lemma tsi_has_rfu_bits_iff: "tsi_has_rfu_bits t \<longleftrightarrow> \<not> tsi.clean t"
  by (auto simp: tsi_has_rfu_bits_def tsi.clean_def tsi_bytes_def list_ex_length)

lemma tsi_clean_cleared: "tsi.clean tsi_cleared"
  by (auto simp: tsi.clean_def tsi_cleared_def tsi_bytes_def less_2_cases_iff)

section \<open>Raising a bit when a condition holds\<close>

text \<open>
  The shape the evaluation phases share, \<open>if condition { tvr.set(bit); flag = true; }\<close>, over the
  register and the flag.
\<close>

definition raise_if :: "bool \<Rightarrow> status_bit \<Rightarrow> tvr \<times> bool \<Rightarrow> tvr \<times> bool" where
  "raise_if c b s = (if c then (tvr_set (fst s) b, True) else s)"

lemma raise_if_is_set:
  "tvr_is_set (fst (raise_if c b s)) x \<longleftrightarrow> tvr_is_set (fst s) x \<or> c \<and> bit_hits TVR_ALLOWED_MASKS b x"
  by (simp add: raise_if_def tvr.is_set_set)

lemma raise_if_flag: "snd (raise_if c b s) \<longleftrightarrow> snd s \<or> c"
  by (simp add: raise_if_def)

lemma raise_if_clean: "tvr.clean (fst (raise_if c b s)) \<longleftrightarrow> tvr.clean (fst s)"
  by (simp add: raise_if_def tvr.clean_set_iff)

text \<open>The bundle the phases compute with: which setting of a bit another test sees.\<close>

lemmas status_simps =
  tvr.is_set_set tsi.is_set_set bit_hits_def tvr_bit_defs tsi_bit_defs
  TVR_ALLOWED_MASKS_def TSI_ALLOWED_MASKS_def

text \<open>A status register that starts cleared and in which bits are set, in any order and any number of
  times, has exactly the bits that were set, reserved ones excepted: a reserved bit is never set.\<close>

theorem status_registers_hold_the_bits_set:
  "(tvr_is_set (foldl tvr_set tvr_cleared bs) c \<longleftrightarrow> (\<exists>b\<in>set bs. bit_hits TVR_ALLOWED_MASKS b c)) \<and>
   \<not> tvr_has_rfu_bits (foldl tvr_set tvr_cleared bs) \<and>
   (tsi_is_set (foldl tsi_set tsi_cleared bs) c \<longleftrightarrow> (\<exists>b\<in>set bs. bit_hits TSI_ALLOWED_MASKS b c)) \<and>
   \<not> tsi_has_rfu_bits (foldl tsi_set tsi_cleared bs)"
proof -
  have "tvr_bytes tvr_cleared = replicate 5 0" "tsi_bytes tsi_cleared = replicate 2 0"
    by (simp_all add: tvr_bytes_def tvr_cleared_def tsi_bytes_def tsi_cleared_def numeral_eq_Suc)
  then have "\<not> tvr_is_set tvr_cleared (i, m)" "\<not> tsi_is_set tsi_cleared (i, m)" for i m
    by (auto simp: tvr.is_set_iff tsi.is_set_iff)
  then have "\<not> tvr_is_set tvr_cleared c" "\<not> tsi_is_set tsi_cleared c" by (metis surj_pair)+
  then show ?thesis
    by (simp add: tvr.is_set_fold tsi.is_set_fold tvr_has_rfu_bits_iff tsi_has_rfu_bits_iff
        tvr.clean_fold tsi.clean_fold tvr_clean_cleared tsi_clean_cleared)
qed

end
