(* ===== verification/Emv_Restrictions.thy ===== *)
theory Emv_Restrictions
  imports Emv_State
begin

text \<open>
  Processing restrictions (\<open>src/src/restrictions.rs\<close>): calendar dates, the application usage
  control, and the five checks that set bits of the second TVR byte.
\<close>

unbundle bit_operations_syntax

section \<open>Dates\<close>

datatype emv_date = EmvDate (date_year: byte) (date_month: byte) (date_day: byte)

definition is_leap_year_20yy :: "byte \<Rightarrow> bool" where
  "is_leap_year_20yy year \<longleftrightarrow> year mod 4 = 0"

definition date_new :: "byte \<Rightarrow> byte \<Rightarrow> byte \<Rightarrow> emv_date krn_result" where
  "date_new year month day =
     rbind
       (if month \<in> {1, 3, 5, 7, 8, 10, 12} then Inr (31 :: byte)
        else if month \<in> {4, 6, 9, 11} then Inr 30
        else if month = 2 \<and> is_leap_year_20yy year then Inr 29
        else if month = 2 then Inr 28
        else Inl ParseError)
       (\<lambda>max_day. if day = 0 \<or> day > max_day then Inl ParseError else Inr (EmvDate year month day))"

definition bcd :: "byte \<Rightarrow> byte krn_result" where
  "bcd byte =
     (let high = drop_bit 4 byte; low = byte AND 0x0f
      in if high > 9 \<or> low > 9 then Inl ParseError else Inr (high * 10 + low))"

definition date_from_bcd :: "arr3 \<Rightarrow> emv_date krn_result" where
  "date_from_bcd bytes =
     rbind (bcd (list3 bytes ! 0)) (\<lambda>year.
     rbind (bcd (list3 bytes ! 1)) (\<lambda>month.
     rbind (bcd (list3 bytes ! 2)) (\<lambda>day. date_new year month day)))"

text \<open>The derived order: year, then month, then day.\<close>

instantiation emv_date :: linorder
begin

definition less_eq_emv_date :: "emv_date \<Rightarrow> emv_date \<Rightarrow> bool" where
  "less_eq_emv_date d e \<longleftrightarrow>
     date_year d < date_year e \<or> date_year d = date_year e \<and>
       (date_month d < date_month e \<or> date_month d = date_month e \<and> date_day d \<le> date_day e)"

definition less_emv_date :: "emv_date \<Rightarrow> emv_date \<Rightarrow> bool" where
  "less_emv_date d e \<longleftrightarrow>
     date_year d < date_year e \<or> date_year d = date_year e \<and>
       (date_month d < date_month e \<or> date_month d = date_month e \<and> date_day d < date_day e)"

instance
  by standard (auto simp: less_eq_emv_date_def less_emv_date_def intro: emv_date.expand)

end

text \<open>Reference: the calendar of the years 2000 to 2099, and the day number in it.\<close>

definition days_in_month :: "nat \<Rightarrow> nat \<Rightarrow> nat" where
  "days_in_month y m =
     (if m \<in> {4, 6, 9, 11} then 30 else if m = 2 then (if 4 dvd y then 29 else 28) else 31)"

definition year_start :: "nat \<Rightarrow> nat" where
  "year_start y = 365 * y + (y + 3) div 4"

definition month_start :: "nat \<Rightarrow> nat \<Rightarrow> nat" where
  "month_start y m = year_start y + sum_list (map (days_in_month y) [1..<m])"

definition day_number :: "emv_date \<Rightarrow> nat" where
  "day_number d = month_start (unat (date_year d)) (unat (date_month d)) + unat (date_day d)"

definition valid_date :: "emv_date \<Rightarrow> bool" where
  "valid_date d \<longleftrightarrow> 1 \<le> unat (date_month d) \<and> unat (date_month d) \<le> 12 \<and> 1 \<le> unat (date_day d) \<and>
     unat (date_day d) \<le> days_in_month (unat (date_year d)) (unat (date_month d))"

definition bcd_byte :: "nat \<Rightarrow> byte" where
  "bcd_byte n = word_of_nat (16 * (n div 10) + n mod 10)"

lemma bcd_iff: "bcd b = Inr v \<longleftrightarrow> unat v \<le> 99 \<and> b = bcd_byte (unat v)"
proof
  have "\<forall>n\<in>set [0..<256]. (\<lambda>b. case bcd b of Inl _ \<Rightarrow> True
      | Inr v \<Rightarrow> unat v \<le> 99 \<and> b = bcd_byte (unat v)) (word_of_nat n :: byte)" by code_simp
  from byte_exhaust [OF this, of b]
  show "bcd b = Inr v \<Longrightarrow> unat v \<le> 99 \<and> b = bcd_byte (unat v)" by simp
  have c: "\<forall>n\<in>set [0..<100]. bcd (bcd_byte n) = Inr (word_of_nat n)" by code_simp
  assume v: "unat v \<le> 99 \<and> b = bcd_byte (unat v)"
  then have "unat v \<in> set [0..<100]" by simp
  with c have "bcd (bcd_byte (unat v)) = Inr (word_of_nat (unat v))" by (rule bspec)
  with v show "bcd b = Inr v" by simp
qed

lemma leap_iff: "is_leap_year_20yy y \<longleftrightarrow> 4 dvd unat y"
  by (simp add: is_leap_year_20yy_def word_unat_eq_iff unat_mod dvd_eq_mod_eq_0)

lemma date_new_iff: "date_new y m d = Inr e \<longleftrightarrow> e = EmvDate y m d \<and> valid_date e"
proof -
  have m: "m = 1 \<longleftrightarrow> unat m = 1" "m = 2 \<longleftrightarrow> unat m = 2" "m = 3 \<longleftrightarrow> unat m = 3" "m = 4 \<longleftrightarrow> unat m = 4"
    "m = 5 \<longleftrightarrow> unat m = 5" "m = 6 \<longleftrightarrow> unat m = 6" "m = 7 \<longleftrightarrow> unat m = 7" "m = 8 \<longleftrightarrow> unat m = 8"
    "m = 9 \<longleftrightarrow> unat m = 9" "m = 10 \<longleftrightarrow> unat m = 10" "m = 11 \<longleftrightarrow> unat m = 11" "m = 12 \<longleftrightarrow> unat m = 12"
    by (simp_all add: word_unat_eq_iff)
  have "set [1..<13] = {1, 2, 3, 4, 5, 6, 7, 8, 9, 10, 11, 12 :: nat}" by code_simp
  moreover have "1 \<le> unat m \<and> unat m \<le> 12 \<longleftrightarrow> unat m \<in> set [1..<13]" by auto
  ultimately have range: "1 \<le> unat m \<and> unat m \<le> 12 \<longleftrightarrow> unat m \<in> {1, 2, 3, 4, 5, 6, 7, 8, 9, 10, 11, 12}"
    by metis
  let ?k = "days_in_month (unat y) (unat m)"
  have "(if m \<in> {1, 3, 5, 7, 8, 10, 12} then Inr (31 :: byte)
        else if m \<in> {4, 6, 9, 11} then Inr 30
        else if m = 2 \<and> is_leap_year_20yy y then Inr 29
        else if m = 2 then Inr 28
        else Inl ParseError)
      = (if 1 \<le> unat m \<and> unat m \<le> 12 then Inr (word_of_nat ?k) else Inl ParseError)"
  proof (cases "1 \<le> unat m \<and> unat m \<le> 12")
    case True
    then have "unat m \<in> {1, 2, 3, 4, 5, 6, 7, 8, 9, 10, 11, 12}" by (simp only: range)
    with True show ?thesis
      unfolding insert_iff empty_iff m leap_iff
      by (elim disjE; simp add: days_in_month_def)
  next
    case False
    then show ?thesis unfolding insert_iff empty_iff m by auto
  qed
  moreover have "?k < 256" by (simp add: days_in_month_def)
  ultimately show ?thesis
    by (auto simp: date_new_def valid_date_def word_less_nat_alt unat_of_nat_byte word_unat_eq_iff
        Suc_le_eq split: if_splits)
qed

lemma date_from_bcd_iff:
  "date_from_bcd bs = Inr d \<longleftrightarrow>
     valid_date d \<and> unat (date_year d) \<le> 99 \<and>
     bs = A3 (bcd_byte (unat (date_year d))) (bcd_byte (unat (date_month d))) (bcd_byte (unat (date_day d)))"
proof -
  have le: "valid_date d \<Longrightarrow> unat (date_month d) \<le> 99 \<and> unat (date_day d) \<le> 99"
    by (auto simp: valid_date_def days_in_month_def split: if_splits)
  have "date_from_bcd bs = Inr d \<longleftrightarrow> bcd (list3 bs ! 0) = Inr (date_year d) \<and>
      bcd (list3 bs ! 1) = Inr (date_month d) \<and> bcd (list3 bs ! 2) = Inr (date_day d) \<and> valid_date d"
    by (cases d) (auto simp: date_from_bcd_def krn_simps date_new_iff)
  also have "\<dots> \<longleftrightarrow> valid_date d \<and> unat (date_year d) \<le> 99 \<and> list3 bs ! 0 = bcd_byte (unat (date_year d)) \<and>
      list3 bs ! 1 = bcd_byte (unat (date_month d)) \<and> list3 bs ! 2 = bcd_byte (unat (date_day d))"
    using le by (auto simp: bcd_iff)
  also have "\<dots> \<longleftrightarrow> valid_date d \<and> unat (date_year d) \<le> 99 \<and>
     bs = A3 (bcd_byte (unat (date_year d))) (bcd_byte (unat (date_month d))) (bcd_byte (unat (date_day d)))"
    by (cases bs) (auto simp: numeral_2_eq_2)
  finally show ?thesis .
qed

lemma year_start_Suc: "year_start (Suc y) = month_start y 13"
proof -
  have m: "[Suc 0..<13] = [1, 2, 3, 4, 5, 6, 7, 8, 9, 10, 11, 12 :: nat]" by code_simp
  have "(Suc y + 3) div 4 = (y + 3) div 4 + (if 4 dvd y then 1 else 0)"
  proof -
    obtain q r where y: "y = 4 * q + r" "r < 4"
      by (metis mod_less_divisor mult_div_mod_eq zero_less_numeral)
    then consider "r = 0" | "r = 1" | "r = 2" | "r = 3" by linarith
    then show ?thesis by cases (simp_all add: y, presburger+)
  qed
  then show ?thesis by (simp add: month_start_def year_start_def m days_in_month_def)
qed

lemma year_start_mono: "y \<le> y' \<Longrightarrow> year_start y \<le> year_start y'"
  unfolding year_start_def by (intro add_mono mult_le_mono2 div_le_mono) simp_all

lemma month_start_mono: "1 \<le> m \<Longrightarrow> m \<le> m' \<Longrightarrow> month_start y m \<le> month_start y m'"
proof -
  assume "1 \<le> m" "m \<le> m'"
  then have "[1..<m'] = [1..<m] @ [m..<m']" using upt_add_eq_append [of 1 m "m' - m"] by simp
  then show ?thesis by (simp add: month_start_def)
qed

lemma month_start_Suc: "1 \<le> m \<Longrightarrow> month_start y (Suc m) = month_start y m + days_in_month y m"
  by (simp add: month_start_def)

lemma day_number_less: "valid_date d \<Longrightarrow> valid_date e \<Longrightarrow> d < e \<Longrightarrow> day_number d < day_number e"
proof -
  assume d: "valid_date d" and e: "valid_date e" and "d < e"
  let ?y = "unat (date_year d)" and ?m = "unat (date_month d)"
  let ?y' = "unat (date_year e)" and ?m' = "unat (date_month e)"
  from \<open>d < e\<close> consider "?y < ?y'" | "date_year d = date_year e" "?m < ?m'"
    | "date_year d = date_year e" "date_month d = date_month e" "unat (date_day d) < unat (date_day e)"
    by (auto simp: less_emv_date_def word_less_nat_alt)
  then show ?thesis
  proof cases
    case 1
    have "day_number d \<le> month_start ?y (Suc ?m)"
      using d by (simp add: day_number_def valid_date_def month_start_Suc)
    also have "\<dots> \<le> month_start ?y 13" using d by (intro month_start_mono) (simp_all add: valid_date_def)
    also have "\<dots> \<le> year_start ?y'" using 1 by (simp add: year_start_Suc [symmetric] year_start_mono)
    also have "\<dots> < day_number e" using e by (simp add: day_number_def month_start_def valid_date_def)
    finally show ?thesis .
  next
    case 2
    have "day_number d \<le> month_start ?y (Suc ?m)"
      using d by (simp add: day_number_def valid_date_def month_start_Suc)
    also have "\<dots> \<le> month_start ?y ?m'" using d 2 by (intro month_start_mono) (simp_all add: valid_date_def)
    also have "\<dots> < day_number e" using e 2 by (simp add: day_number_def valid_date_def)
    finally show ?thesis .
  next
    case 3
    then show ?thesis by (simp add: day_number_def)
  qed
qed

lemma day_number_less_iff: "valid_date d \<Longrightarrow> valid_date e \<Longrightarrow> d < e \<longleftrightarrow> day_number d < day_number e"
  using day_number_less [of d e] day_number_less [of e d] by (metis linorder_neqE less_asym)

section \<open>Application usage control\<close>

datatype transaction_region = Domestic | International
datatype service_type = Cash | Goods | Services | Cashback
datatype terminal_channel = Atm | OtherThanAtm

record application_usage_control =
  auc_bytes :: arr2

definition DOMESTIC_CASH :: status_bit where "DOMESTIC_CASH = (0, 0x80)"
definition INTERNATIONAL_CASH :: status_bit where "INTERNATIONAL_CASH = (0, 0x40)"
definition DOMESTIC_GOODS :: status_bit where "DOMESTIC_GOODS = (0, 0x20)"
definition INTERNATIONAL_GOODS :: status_bit where "INTERNATIONAL_GOODS = (0, 0x10)"
definition DOMESTIC_SERVICES :: status_bit where "DOMESTIC_SERVICES = (0, 0x08)"
definition INTERNATIONAL_SERVICES :: status_bit where "INTERNATIONAL_SERVICES = (0, 0x04)"
definition VALID_AT_ATM :: status_bit where "VALID_AT_ATM = (0, 0x02)"
definition VALID_OTHER_THAN_ATM :: status_bit where "VALID_OTHER_THAN_ATM = (0, 0x01)"
definition DOMESTIC_CASHBACK :: status_bit where "DOMESTIC_CASHBACK = (1, 0x80)"
definition INTERNATIONAL_CASHBACK :: status_bit where "INTERNATIONAL_CASHBACK = (1, 0x40)"

definition auc_parse :: "bytes \<Rightarrow> application_usage_control krn_result" where
  "auc_parse raw = rmap (\<lambda>b. \<lparr>auc_bytes = b\<rparr>) (to_arr2 raw ParseError)"

definition auc_is_set :: "application_usage_control \<Rightarrow> status_bit \<Rightarrow> bool" where
  "auc_is_set auc m \<longleftrightarrow> list2 (auc_bytes auc) ! fst m AND snd m \<noteq> 0"

definition valid_for_domestic_cash :: "application_usage_control \<Rightarrow> bool" where
  "valid_for_domestic_cash auc \<longleftrightarrow> auc_is_set auc DOMESTIC_CASH"
definition valid_for_international_cash :: "application_usage_control \<Rightarrow> bool" where
  "valid_for_international_cash auc \<longleftrightarrow> auc_is_set auc INTERNATIONAL_CASH"
definition valid_for_domestic_goods :: "application_usage_control \<Rightarrow> bool" where
  "valid_for_domestic_goods auc \<longleftrightarrow> auc_is_set auc DOMESTIC_GOODS"
definition valid_for_international_goods :: "application_usage_control \<Rightarrow> bool" where
  "valid_for_international_goods auc \<longleftrightarrow> auc_is_set auc INTERNATIONAL_GOODS"
definition valid_for_domestic_services :: "application_usage_control \<Rightarrow> bool" where
  "valid_for_domestic_services auc \<longleftrightarrow> auc_is_set auc DOMESTIC_SERVICES"
definition valid_for_international_services :: "application_usage_control \<Rightarrow> bool" where
  "valid_for_international_services auc \<longleftrightarrow> auc_is_set auc INTERNATIONAL_SERVICES"
definition valid_at_atm :: "application_usage_control \<Rightarrow> bool" where
  "valid_at_atm auc \<longleftrightarrow> auc_is_set auc VALID_AT_ATM"
definition valid_other_than_atm :: "application_usage_control \<Rightarrow> bool" where
  "valid_other_than_atm auc \<longleftrightarrow> auc_is_set auc VALID_OTHER_THAN_ATM"
definition valid_for_domestic_cashback :: "application_usage_control \<Rightarrow> bool" where
  "valid_for_domestic_cashback auc \<longleftrightarrow> auc_is_set auc DOMESTIC_CASHBACK"
definition valid_for_international_cashback :: "application_usage_control \<Rightarrow> bool" where
  "valid_for_international_cashback auc \<longleftrightarrow> auc_is_set auc INTERNATIONAL_CASHBACK"

definition byte2_rfu_mask :: "application_usage_control \<Rightarrow> byte" where
  "byte2_rfu_mask auc = list2 (auc_bytes auc) ! 1 AND 0x3f"

fun service_mask :: "transaction_region \<Rightarrow> service_type \<Rightarrow> status_bit" where
  "service_mask Domestic Cash = DOMESTIC_CASH"
| "service_mask International Cash = INTERNATIONAL_CASH"
| "service_mask Domestic Goods = DOMESTIC_GOODS"
| "service_mask International Goods = INTERNATIONAL_GOODS"
| "service_mask Domestic Services = DOMESTIC_SERVICES"
| "service_mask International Services = INTERNATIONAL_SERVICES"
| "service_mask Domestic Cashback = DOMESTIC_CASHBACK"
| "service_mask International Cashback = INTERNATIONAL_CASHBACK"

definition auc_allows ::
    "application_usage_control \<Rightarrow> transaction_region \<Rightarrow> service_type \<Rightarrow> terminal_channel \<Rightarrow> bool" where
  "auc_allows auc region service channel =
     (let channel_mask = (case channel of Atm \<Rightarrow> VALID_AT_ATM | OtherThanAtm \<Rightarrow> VALID_OTHER_THAN_ATM)
      in auc_is_set auc channel_mask \<and> auc_is_set auc (service_mask region service))"

section \<open>The checks\<close>

record restriction_input =
  ri_transaction_date :: emv_date
  ri_application_expiration_date :: emv_date
  ri_application_effective_date :: "emv_date option"
  ri_card_application_version :: "arr2 option"
  ri_terminal_application_version :: "arr2 option"
  ri_auc :: application_usage_control
  ri_region :: transaction_region
  ri_service :: service_type
  ri_terminal_channel :: terminal_channel
  ri_new_card :: bool

record restriction_result =
  rr_tvr :: tvr
  rr_failed :: bool

datatype restriction_check =
  ApplicationVersion | ExpirationDate | EffectiveDate | ApplicationUsageControl | NewCard

definition RESTRICTION_CHECK_ORDER :: "restriction_check list" where
  "RESTRICTION_CHECK_ORDER =
     [ApplicationVersion, ExpirationDate, EffectiveDate, ApplicationUsageControl, NewCard]"

fun restriction_tvr_bit :: "restriction_check \<Rightarrow> restriction_input \<Rightarrow> status_bit option" where
  "restriction_tvr_bit ApplicationVersion inp =
     (case (ri_card_application_version inp, ri_terminal_application_version inp) of
        (Some card_version, Some terminal_version) \<Rightarrow>
          if card_version \<noteq> terminal_version then Some B2_DIFFERENT_APPLICATION_VERSIONS else None
      | _ \<Rightarrow> None)"
| "restriction_tvr_bit ExpirationDate inp =
     (if ri_transaction_date inp > ri_application_expiration_date inp
      then Some B2_EXPIRED_APPLICATION else None)"
| "restriction_tvr_bit EffectiveDate inp =
     (case ri_application_effective_date inp of
        Some effective_date \<Rightarrow>
          if ri_transaction_date inp < effective_date
          then Some B2_APPLICATION_NOT_YET_EFFECTIVE else None
      | None \<Rightarrow> None)"
| "restriction_tvr_bit ApplicationUsageControl inp =
     (if \<not> auc_allows (ri_auc inp) (ri_region inp) (ri_service inp) (ri_terminal_channel inp)
      then Some B2_REQUESTED_SERVICE_NOT_ALLOWED else None)"
| "restriction_tvr_bit NewCard inp = (if ri_new_card inp then Some B2_NEW_CARD else None)"

definition restrictions_evaluate :: "restriction_input \<Rightarrow> tvr \<Rightarrow> restriction_result" where
  "restrictions_evaluate inp t =
     (case foldl (\<lambda>(t, failed) check. case restriction_tvr_bit check inp of
          Some b \<Rightarrow> (tvr_set t b, True)
        | None \<Rightarrow> (t, failed)) (t, False) RESTRICTION_CHECK_ORDER of
      (t, failed) \<Rightarrow> \<lparr>rr_tvr = t, rr_failed = failed\<rparr>)"

definition restriction_bits :: "restriction_input \<Rightarrow> status_bit list" where
  "restriction_bits inp = List.map_filter (\<lambda>c. restriction_tvr_bit c inp) RESTRICTION_CHECK_ORDER"

lemma restriction_fold:
  "foldl (\<lambda>(t, failed) check. case bit_of check of
       Some b \<Rightarrow> (tvr_set t b, True) | None \<Rightarrow> (t, failed)) (t, failed) checks
   = (foldl tvr_set t (List.map_filter bit_of checks), failed \<or> List.map_filter bit_of checks \<noteq> [])"
  by (induction checks arbitrary: t failed) (auto simp: map_filter_simps split: option.splits)

lemma restrictions_evaluate_eq:
  "restrictions_evaluate inp t =
     \<lparr>rr_tvr = foldl tvr_set t (restriction_bits inp), rr_failed = (restriction_bits inp \<noteq> [])\<rparr>"
  by (simp add: restrictions_evaluate_def restriction_bits_def restriction_fold)

lemma set_restriction_bits:
  "set (restriction_bits inp) =
     (if ri_card_application_version inp \<noteq> None \<and> ri_terminal_application_version inp \<noteq> None \<and>
         ri_card_application_version inp \<noteq> ri_terminal_application_version inp
      then {B2_DIFFERENT_APPLICATION_VERSIONS} else {}) \<union>
     (if ri_application_expiration_date inp < ri_transaction_date inp
      then {B2_EXPIRED_APPLICATION} else {}) \<union>
     (if \<exists>e. ri_application_effective_date inp = Some e \<and> ri_transaction_date inp < e
      then {B2_APPLICATION_NOT_YET_EFFECTIVE} else {}) \<union>
     (if auc_allows (ri_auc inp) (ri_region inp) (ri_service inp) (ri_terminal_channel inp)
      then {} else {B2_REQUESTED_SERVICE_NOT_ALLOWED}) \<union>
     (if ri_new_card inp then {B2_NEW_CARD} else {})"
  by (auto simp: restriction_bits_def RESTRICTION_CHECK_ORDER_def map_filter_simps split: option.splits if_splits)

text \<open>A three-byte BCD date is accepted exactly when it is the encoding of a calendar date of the years
  2000 to 2099, the date it is the encoding of.\<close>

theorem date_from_bcd_valid:
  "date_from_bcd bs = Inr d \<longleftrightarrow>
     valid_date d \<and> unat (date_year d) \<le> 99 \<and>
     bs = A3 (bcd_byte (unat (date_year d))) (bcd_byte (unat (date_month d))) (bcd_byte (unat (date_day d)))"
  by (rule date_from_bcd_iff)

text \<open>Processing restrictions set exactly the bits of the checks that fail: an application version that
  differs when both are known, a transaction after the expiration date or before the effective
  date (in days of the calendar), a service the usage control does not allow, a new card; every
  other TVR bit is as before, reserved bits stay clear, and the result is failed exactly when
  some check failed.\<close>

theorem restrictions_bits:
  assumes "valid_date (ri_transaction_date inp)" "valid_date (ri_application_expiration_date inp)"
    and "\<And>e. ri_application_effective_date inp = Some e \<Longrightarrow> valid_date e"
  shows "(\<forall>b. tvr_is_set (rr_tvr (restrictions_evaluate inp t)) b \<longleftrightarrow> tvr_is_set t b \<or>
      bit_hits TVR_ALLOWED_MASKS B2_DIFFERENT_APPLICATION_VERSIONS b \<and>
        ri_card_application_version inp \<noteq> None \<and> ri_terminal_application_version inp \<noteq> None \<and>
        ri_card_application_version inp \<noteq> ri_terminal_application_version inp \<or>
      bit_hits TVR_ALLOWED_MASKS B2_EXPIRED_APPLICATION b \<and>
        day_number (ri_application_expiration_date inp) < day_number (ri_transaction_date inp) \<or>
      bit_hits TVR_ALLOWED_MASKS B2_APPLICATION_NOT_YET_EFFECTIVE b \<and>
        (case ri_application_effective_date inp of None \<Rightarrow> False
         | Some e \<Rightarrow> day_number (ri_transaction_date inp) < day_number e) \<or>
      bit_hits TVR_ALLOWED_MASKS B2_REQUESTED_SERVICE_NOT_ALLOWED b \<and>
        \<not> auc_allows (ri_auc inp) (ri_region inp) (ri_service inp) (ri_terminal_channel inp) \<or>
      bit_hits TVR_ALLOWED_MASKS B2_NEW_CARD b \<and> ri_new_card inp) \<and>
    (rr_failed (restrictions_evaluate inp t) \<longleftrightarrow> restriction_bits inp \<noteq> []) \<and>
    (tvr_has_rfu_bits (rr_tvr (restrictions_evaluate inp t)) \<longleftrightarrow> tvr_has_rfu_bits t)"
proof (intro conjI allI)
  show "rr_failed (restrictions_evaluate inp t) \<longleftrightarrow> restriction_bits inp \<noteq> []"
    by (simp add: restrictions_evaluate_eq)
  show "tvr_has_rfu_bits (rr_tvr (restrictions_evaluate inp t)) \<longleftrightarrow> tvr_has_rfu_bits t"
    by (auto simp: restrictions_evaluate_eq tvr_has_rfu_bits_iff tvr.clean_fold)
qed (use assms in \<open>auto simp: restrictions_evaluate_eq tvr.is_set_fold set_restriction_bits
       day_number_less_iff split: option.split\<close>)

lemma restrictions_bits_witness:
  "tvr_is_set (rr_tvr (restrictions_evaluate
      \<lparr>ri_transaction_date = EmvDate 26 3 1, ri_application_expiration_date = EmvDate 26 2 28,
       ri_application_effective_date = Some (EmvDate 20 2 29), ri_card_application_version = None,
       ri_terminal_application_version = None, ri_auc = \<lparr>auc_bytes = A2 0xff 0xc0\<rparr>,
       ri_region = Domestic, ri_service = Goods, ri_terminal_channel = OtherThanAtm,
       ri_new_card = False\<rparr> tvr_cleared)) B2_EXPIRED_APPLICATION"
  (is "tvr_is_set (rr_tvr (restrictions_evaluate ?i _)) _")
proof -
  have v: "valid_date (EmvDate 26 3 1)" "valid_date (EmvDate 26 2 28)" "valid_date (EmvDate 20 2 29)"
    by (simp_all add: valid_date_def days_in_month_def)
  have n: "day_number (EmvDate 26 2 28) < day_number (EmvDate 26 3 1)" by code_simp
  show ?thesis
    using restrictions_bits [of ?i tvr_cleared] v n by (simp add: status_simps)
qed

end
