(* ===== verification/Emv_Taa.thy ===== *)
theory Emv_Taa
  imports Emv_State
begin

text \<open>
  Terminal action analysis (\<open>src/src/taa.rs\<close>): the cryptogram to request, from the TVR and the
  terminal's and issuer's action codes.
\<close>

unbundle bit_operations_syntax

datatype terminal_action = ActionAac | ActionTc | ActionArqc

record action_codes =
  ac_denial :: arr5
  ac_online :: arr5
  ac_default :: arr5

definition action_codes_zeroed :: action_codes where
  "action_codes_zeroed =
     \<lparr>ac_denial = A5 0 0 0 0 0, ac_online = A5 0 0 0 0 0, ac_default = A5 0 0 0 0 0\<rparr>"

record taa_profile =
  fallback_when_offline_unable_online :: terminal_action
  no_match_default_when_online_capable :: terminal_action
  no_match_default_when_offline_only :: terminal_action

definition taa_profile_new ::
    "terminal_action \<Rightarrow> terminal_action \<Rightarrow> terminal_action \<Rightarrow> taa_profile krn_result" where
  "taa_profile_new fallback online_default offline_default =
     (if fallback \<notin> {ActionAac, ActionTc} then Inl InvalidProfile
      else if online_default \<notin> {ActionTc, ActionArqc} then Inl InvalidProfile
      else if offline_default \<notin> {ActionTc, ActionAac} then Inl InvalidProfile
      else Inr \<lparr>fallback_when_offline_unable_online = fallback,
                no_match_default_when_online_capable = online_default,
                no_match_default_when_offline_only = offline_default\<rparr>)"

definition taa_profile_spec_defaults :: taa_profile where
  "taa_profile_spec_defaults =
     \<lparr>fallback_when_offline_unable_online = ActionAac,
      no_match_default_when_online_capable = ActionArqc,
      no_match_default_when_offline_only = ActionAac\<rparr>"

record taa_input =
  taa_tvr :: tvr
  taa_tac :: action_codes
  taa_iac :: action_codes
  terminal_online_capable :: bool
  taa_input_profile :: taa_profile

record taa_decision =
  td_action :: terminal_action
  td_reason :: string

definition or5 :: "arr5 \<Rightarrow> arr5 \<Rightarrow> arr5" where
  "or5 l r = (case (l, r) of (A5 a b c d e, A5 a' b' c' d' e') \<Rightarrow>
     A5 (a OR a') (b OR b') (c OR c') (d OR d') (e OR e'))"

definition intersects :: "arr5 \<Rightarrow> arr5 \<Rightarrow> bool" where
  "intersects l r = list_ex (\<lambda>(l, r). l AND r \<noteq> 0) (zip (list5 l) (list5 r))"

definition decide :: "taa_input \<Rightarrow> taa_decision" where
  "decide inp =
     (let t = tvr_raw (taa_tvr inp); tac = taa_tac inp; iac = taa_iac inp; p = taa_input_profile inp in
      if intersects t (or5 (ac_denial tac) (ac_denial iac))
      then \<lparr>td_action = ActionAac, td_reason = ''denial action code matched''\<rparr>
      else if terminal_online_capable inp \<and> intersects t (or5 (ac_online tac) (ac_online iac))
      then \<lparr>td_action = ActionArqc, td_reason = ''online action code matched''\<rparr>
      else if \<not> terminal_online_capable inp \<and> intersects t (or5 (ac_default tac) (ac_default iac))
      then \<lparr>td_action = fallback_when_offline_unable_online p,
            td_reason = ''default action code matched while unable online''\<rparr>
      else if terminal_online_capable inp
      then \<lparr>td_action = no_match_default_when_online_capable p,
            td_reason = ''no action code matched while online capable''\<rparr>
      else \<lparr>td_action = no_match_default_when_offline_only p,
            td_reason = ''no action code matched while offline only''\<rparr>)"

section \<open>Bits of the action codes\<close>

text \<open>A TVR bit that is set and named by the terminal's or the issuer's code of a kind.\<close>

definition matched :: "(action_codes \<Rightarrow> arr5) \<Rightarrow> taa_input \<Rightarrow> bool" where
  "matched kind inp \<longleftrightarrow> (\<exists>i<5. \<exists>k<8.
     bit (tvr_bytes (taa_tvr inp) ! i) k \<and>
     (bit (list5 (kind (taa_tac inp)) ! i) k \<or> bit (list5 (kind (taa_iac inp)) ! i) k))"

definition wf_taa_profile :: "taa_profile \<Rightarrow> bool" where
  "wf_taa_profile p \<longleftrightarrow> fallback_when_offline_unable_online p \<noteq> ActionArqc \<and>
     no_match_default_when_online_capable p \<noteq> ActionAac \<and>
     no_match_default_when_offline_only p \<noteq> ActionArqc"

lemma byte_ne_0_iff: "(b :: byte) \<noteq> 0 \<longleftrightarrow> (\<exists>k<8. bit b k)"
  by (auto simp: bit_eq_iff [of b 0] dest: bit_imp_possible_bit)

lemma list5_or5: "list5 (or5 l r) = map2 (OR) (list5 l) (list5 r)"
  by (cases l; cases r) (simp add: or5_def)

lemma intersects_iff: "intersects l r \<longleftrightarrow> (\<exists>i<5. list5 l ! i AND list5 r ! i \<noteq> 0)"
  by (auto simp: intersects_def list_ex_length)

lemma intersects_or5:
  "intersects (tvr_raw (taa_tvr inp)) (or5 (kind (taa_tac inp)) (kind (taa_iac inp))) \<longleftrightarrow> matched kind inp"
proof -
  have "bit (list5 (or5 l r) ! i) k \<longleftrightarrow> bit (list5 l ! i) k \<or> bit (list5 r ! i) k" if "i < 5" for l r i k
    using that by (simp add: list5_or5 bit_or_iff)
  then show ?thesis
    unfolding intersects_iff matched_def byte_ne_0_iff bit_and_iff tvr_bytes_def by metis
qed

lemma taa_profile_new_wf: "taa_profile_new a b c = Inr p \<Longrightarrow> wf_taa_profile p"
  by (auto simp: taa_profile_new_def wf_taa_profile_def split: if_splits)

lemma decide_action:
  "td_action (decide inp) =
     (if matched ac_denial inp then ActionAac
      else if terminal_online_capable inp
      then (if matched ac_online inp then ActionArqc
            else no_match_default_when_online_capable (taa_input_profile inp))
      else (if matched ac_default inp then fallback_when_offline_unable_online (taa_input_profile inp)
            else no_match_default_when_offline_only (taa_input_profile inp)))"
  by (simp add: decide_def Let_def intersects_or5)

text \<open>C25: A TVR bit named by a denial code, the terminal's or the issuer's, denies the transaction whatever
  else matches; otherwise a terminal that can go online does so when an online code names a set
  bit.  With a profile that was accepted, a terminal that cannot go online never requests an
  online cryptogram, one that can declines only on a denial bit, and approval offline needs no
  denial bit and, if the terminal can go online, no online bit.\<close>

theorem taa_decision_priority:
  assumes "taa_profile_new a b c = Inr (taa_input_profile inp)"
  shows "(matched ac_denial inp \<longrightarrow> td_action (decide inp) = ActionAac) \<and>
    (\<not> matched ac_denial inp \<and> terminal_online_capable inp \<and> matched ac_online inp \<longrightarrow>
       td_action (decide inp) = ActionArqc) \<and>
    (\<not> terminal_online_capable inp \<longrightarrow> td_action (decide inp) \<noteq> ActionArqc) \<and>
    (terminal_online_capable inp \<and> td_action (decide inp) = ActionAac \<longrightarrow> matched ac_denial inp) \<and>
    (td_action (decide inp) = ActionTc \<longrightarrow> \<not> matched ac_denial inp \<and>
       (terminal_online_capable inp \<longrightarrow> \<not> matched ac_online inp)) \<and>
    (\<not> matched ac_denial inp \<and> \<not> terminal_online_capable inp \<and> matched ac_default inp \<longrightarrow>
       td_action (decide inp) = a)"
proof -
  from assms have "fallback_when_offline_unable_online (taa_input_profile inp) = a"
    by (auto simp: taa_profile_new_def split: if_splits dest: sym [of "taa_profile_ext _ _ _ _"])
  then show ?thesis
    using taa_profile_new_wf [OF assms] by (auto simp: decide_action wf_taa_profile_def)
qed

lemma taa_decision_priority_witness:
  "td_action (decide
     \<lparr>taa_tvr = Tvr (A5 0x80 0 0 0x80 0),
      taa_tac = \<lparr>ac_denial = A5 0 0 0 0 0, ac_online = A5 0 0 0 0x80 0, ac_default = A5 0 0 0 0 0\<rparr>,
      taa_iac = \<lparr>ac_denial = A5 0x80 0 0 0 0, ac_online = A5 0 0 0 0 0, ac_default = A5 0 0 0 0 0\<rparr>,
      terminal_online_capable = True, taa_input_profile = taa_profile_spec_defaults\<rparr>) = ActionAac"
  (is "td_action (decide ?i) = _")
proof -
  have p: "taa_profile_new ActionAac ActionArqc ActionAac = Inr (taa_input_profile ?i)"
    by (simp add: taa_profile_new_def taa_profile_spec_defaults_def)
  have "bit (0x80 :: byte) 7" by code_simp
  then have "\<exists>k<8. bit (0x80 :: byte) k" by (intro exI [of _ 7]) simp
  then have "matched ac_denial ?i"
    unfolding matched_def by (intro exI [of _ 0]) (simp add: tvr_bytes_def)
  with taa_decision_priority [OF p] show ?thesis by blast
qed

end
