(* ===== verification/Emv_Trm.thy ===== *)
theory Emv_Trm
  imports Emv_State
begin

text \<open>
  Terminal risk management (\<open>src/src/trm.rs\<close>): floor limits, consecutive offline limits against
  a counter that must be non-volatile, random selection, and the bits they set.
\<close>

definition MAX_TRANSACTION_TYPE_FLOOR_LIMITS :: nat where "MAX_TRANSACTION_TYPE_FLOOR_LIMITS = 16"

record transaction_type_floor_limit =
  tfl_transaction_type :: byte
  tfl_floor_limit :: u64

record trm_profile =
  floor_limit :: u64
  transaction_type_floor_limits :: "transaction_type_floor_limit list"
  random_selection_percent :: byte
  lower_consecutive_offline_limit :: "u16 option"
  upper_consecutive_offline_limit :: "u16 option"

definition trm_profile_with_limits ::
    "u64 \<Rightarrow> transaction_type_floor_limit list \<Rightarrow> byte \<Rightarrow> u16 option \<Rightarrow> u16 option \<Rightarrow> trm_profile option" where
  "trm_profile_with_limits fl limits percent lower upper =
     (if percent > 100 then None
      else if length limits > MAX_TRANSACTION_TYPE_FLOOR_LIMITS then None
      else if list_ex (\<lambda>(index, limit).
                list_ex (\<lambda>prior. tfl_transaction_type prior = tfl_transaction_type limit) (take index limits))
              (enumerate 0 limits) then None
      else if (case (lower, upper) of (Some l, Some u) \<Rightarrow> l > u | _ \<Rightarrow> False) then None
      else Some \<lparr>floor_limit = fl, transaction_type_floor_limits = limits,
                 random_selection_percent = percent, lower_consecutive_offline_limit = lower,
                 upper_consecutive_offline_limit = upper\<rparr>)"

definition trm_profile_new :: "u64 \<Rightarrow> byte \<Rightarrow> u16 option \<Rightarrow> u16 option \<Rightarrow> trm_profile option" where
  "trm_profile_new fl percent lower upper = trm_profile_with_limits fl [] percent lower upper"

definition floor_limit_for_transaction_type :: "trm_profile \<Rightarrow> byte \<Rightarrow> u64" where
  "floor_limit_for_transaction_type p t =
     (case List.find (\<lambda>limit. tfl_transaction_type limit = t) (transaction_type_floor_limits p) of
        Some limit \<Rightarrow> tfl_floor_limit limit
      | None \<Rightarrow> floor_limit p)"

definition requires_terminal_offline_counter :: "trm_profile \<Rightarrow> bool" where
  "requires_terminal_offline_counter p \<longleftrightarrow>
     lower_consecutive_offline_limit p \<noteq> None \<or> upper_consecutive_offline_limit p \<noteq> None"

datatype offline_counter_source = NonVolatile | Volatile

record offline_counter =
  oc_count :: u16
  oc_source :: offline_counter_source

record trm_input =
  trm_amount_authorized :: u64
  trm_transaction_type :: byte
  exception_file_match :: bool
  merchant_forced_online :: bool
  trm_offline_counter :: "offline_counter option"
  random_sample_basis_points :: "u16 option"
  trm_input_profile :: trm_profile

record trm_result =
  trm_tvr :: tvr
  trm_tsi :: tsi
  trm_force_online :: bool

definition offline_count_for_profile ::
    "trm_profile \<Rightarrow> offline_counter option \<Rightarrow> u16 option krn_result" where
  "offline_count_for_profile p counter_opt =
     (if \<not> requires_terminal_offline_counter p then Inr None
      else rbind (ok_or counter_opt InvalidProfile) (\<lambda>counter.
        if oc_source counter \<noteq> NonVolatile then Inl InvalidProfile else Inr (Some (oc_count counter))))"

definition random_selection_triggered :: "byte \<Rightarrow> u16 option \<Rightarrow> bool krn_result" where
  "random_selection_triggered percent sample_opt =
     (if (case sample_opt of Some sample \<Rightarrow> sample > 9999 | None \<Rightarrow> False) then Inl InvalidProfile
      else if percent = 0 then Inr False
      else rbind (ok_or sample_opt InvalidProfile) (\<lambda>sample.
        let threshold = (ucast percent :: u16) * 100 in Inr (sample < threshold)))"

definition exceeds :: "u16 option \<Rightarrow> u16 option \<Rightarrow> bool" where
  "exceeds count_opt limit_opt \<longleftrightarrow>
     (case (count_opt, limit_opt) of (Some count, Some limit) \<Rightarrow> count > limit | _ \<Rightarrow> False)"

definition trm_evaluate :: "trm_input \<Rightarrow> tvr \<Rightarrow> tsi \<Rightarrow> trm_result krn_result" where
  "trm_evaluate inp t i =
     (let p = trm_input_profile inp in
      rbind (offline_count_for_profile p (trm_offline_counter inp)) (\<lambda>offline_count.
        let fl = floor_limit_for_transaction_type p (trm_transaction_type inp);
            s = (t, False);
            s = raise_if (exception_file_match inp) B1_CARD_ON_EXCEPTION_FILE s;
            s = raise_if (trm_amount_authorized inp > fl) B4_FLOOR_LIMIT_EXCEEDED s;
            s = raise_if (exceeds offline_count (lower_consecutive_offline_limit p))
                  B4_LOWER_CONSECUTIVE_OFFLINE_LIMIT_EXCEEDED s;
            s = raise_if (exceeds offline_count (upper_consecutive_offline_limit p))
                  B4_UPPER_CONSECUTIVE_OFFLINE_LIMIT_EXCEEDED s
        in rbind (random_selection_triggered (random_selection_percent p) (random_sample_basis_points inp))
             (\<lambda>triggered.
               let s = raise_if triggered B4_RANDOM_TRANSACTION_SELECTION_PERFORMED s;
                   s = raise_if (merchant_forced_online inp) B4_MERCHANT_FORCED_TRANSACTION_ONLINE s
               in Inr \<lparr>trm_tvr = fst s, trm_tsi = tsi_set i TERMINAL_RISK_MANAGEMENT_PERFORMED,
                       trm_force_online = snd s\<rparr>)))"

section \<open>What it decides\<close>

definition wf_trm_profile :: "trm_profile \<Rightarrow> bool" where
  "wf_trm_profile p \<longleftrightarrow> unat (random_selection_percent p) \<le> 100 \<and>
     length (transaction_type_floor_limits p) \<le> 16 \<and>
     distinct (map tfl_transaction_type (transaction_type_floor_limits p)) \<and>
     (case (lower_consecutive_offline_limit p, upper_consecutive_offline_limit p) of
        (Some l, Some u) \<Rightarrow> l \<le> u | _ \<Rightarrow> True)"

lemma trm_profile_with_limits_iff:
  "trm_profile_with_limits fl limits percent lower upper = Some p \<longleftrightarrow>
     wf_trm_profile p \<and> p = \<lparr>floor_limit = fl, transaction_type_floor_limits = limits,
       random_selection_percent = percent, lower_consecutive_offline_limit = lower,
       upper_consecutive_offline_limit = upper\<rparr>"
  by (auto simp: trm_profile_with_limits_def earlier_duplicate wf_trm_profile_def word_less_nat_alt
      word_le_nat_alt not_less MAX_TRANSACTION_TYPE_FLOOR_LIMITS_def split: option.splits)

text \<open>The counter is needed only for a limit, and must then be non-volatile.\<close>

definition counter_ok :: "trm_input \<Rightarrow> bool" where
  "counter_ok inp \<longleftrightarrow> requires_terminal_offline_counter (trm_input_profile inp) \<longrightarrow>
     (\<exists>c. trm_offline_counter inp = Some c \<and> oc_source c = NonVolatile)"

definition sample_ok :: "trm_input \<Rightarrow> bool" where
  "sample_ok inp \<longleftrightarrow> (case random_sample_basis_points inp of
     Some sample \<Rightarrow> unat sample \<le> 9999
   | None \<Rightarrow> random_selection_percent (trm_input_profile inp) = 0)"

definition randomly_selected :: "trm_input \<Rightarrow> bool" where
  "randomly_selected inp \<longleftrightarrow> (\<exists>sample. random_sample_basis_points inp = Some sample \<and>
     unat sample < 100 * unat (random_selection_percent (trm_input_profile inp)))"

definition limit_exceeded :: "trm_input \<Rightarrow> u16 option \<Rightarrow> bool" where
  "limit_exceeded inp limit_opt \<longleftrightarrow> (\<exists>c l. trm_offline_counter inp = Some c \<and> limit_opt = Some l \<and> l < oc_count c)"

lemma random_selection_eq:
  "random_selection_triggered (random_selection_percent (trm_input_profile inp)) (random_sample_basis_points inp)
     = (if sample_ok inp then Inr (randomly_selected inp) else Inl InvalidProfile)"
proof -
  have t: "unat ((ucast b :: u16) * 100) = 100 * unat b" for b :: byte
  proof -
    have "unat b * 100 < 65536" using unat_byte_less [of b] by linarith
    then show ?thesis by (simp add: unat_word_ariths unsigned_ucast_eq take_bit_nat_eq_self)
  qed
  show ?thesis
    by (auto simp: random_selection_triggered_def sample_ok_def randomly_selected_def word_less_nat_alt t
        Let_def word_unat_eq_iff split: option.splits)
qed

lemma offline_count_eq:
  "offline_count_for_profile (trm_input_profile inp) (trm_offline_counter inp) =
     (if counter_ok inp
      then Inr (if requires_terminal_offline_counter (trm_input_profile inp)
                then map_option oc_count (trm_offline_counter inp) else None)
      else Inl InvalidProfile)"
  by (cases "trm_offline_counter inp") (auto simp: offline_count_for_profile_def counter_ok_def)

lemma exceeds_eq:
  "limit_opt \<in> {lower_consecutive_offline_limit (trm_input_profile inp),
       upper_consecutive_offline_limit (trm_input_profile inp)} \<Longrightarrow>
     exceeds (if requires_terminal_offline_counter (trm_input_profile inp)
                then map_option oc_count (trm_offline_counter inp) else None) limit_opt
       \<longleftrightarrow> limit_exceeded inp limit_opt"
  by (auto simp: exceeds_def limit_exceeded_def requires_terminal_offline_counter_def split: option.splits)

lemmas raise_simps = raise_if_is_set raise_if_flag

lemma tsi_records_trm: "tsi_is_set (tsi_set i TERMINAL_RISK_MANAGEMENT_PERFORMED) TERMINAL_RISK_MANAGEMENT_PERFORMED"
  by (simp add: status_simps)

lemma trm_evaluate_eq:
  "trm_evaluate inp t i =
     (if counter_ok inp \<and> sample_ok inp
      then let p = trm_input_profile inp;
               s = raise_if (merchant_forced_online inp) B4_MERCHANT_FORCED_TRANSACTION_ONLINE
                 (raise_if (randomly_selected inp) B4_RANDOM_TRANSACTION_SELECTION_PERFORMED
                 (raise_if (limit_exceeded inp (upper_consecutive_offline_limit p))
                    B4_UPPER_CONSECUTIVE_OFFLINE_LIMIT_EXCEEDED
                 (raise_if (limit_exceeded inp (lower_consecutive_offline_limit p))
                    B4_LOWER_CONSECUTIVE_OFFLINE_LIMIT_EXCEEDED
                 (raise_if (floor_limit_for_transaction_type p (trm_transaction_type inp) < trm_amount_authorized inp)
                    B4_FLOOR_LIMIT_EXCEEDED
                 (raise_if (exception_file_match inp) B1_CARD_ON_EXCEPTION_FILE (t, False))))))
           in Inr \<lparr>trm_tvr = fst s, trm_tsi = tsi_set i TERMINAL_RISK_MANAGEMENT_PERFORMED,
                   trm_force_online = snd s\<rparr>
      else Inl InvalidProfile)"
  unfolding trm_evaluate_def Let_def offline_count_eq random_selection_eq
  by (cases "counter_ok inp"; cases "sample_ok inp") (simp_all add: exceeds_eq)

text \<open>Terminal risk management fails, always with the profile error, exactly when a limit is configured
  without a non-volatile counter or the random sample is missing or out of range; otherwise it
  sets exactly the bits of the conditions that hold (exception file, floor limit of the
  transaction type, either consecutive limit exceeded, random selection at the configured
  percentage of 10000 samples, merchant forced online), forces the transaction online exactly
  when one of them does, and records in the TSI that it was performed.\<close>

theorem trm_evaluate_spec:
  "case trm_evaluate inp t i of
     Inl e \<Rightarrow> e = InvalidProfile \<and> \<not> (counter_ok inp \<and> sample_ok inp)
   | Inr r \<Rightarrow> counter_ok inp \<and> sample_ok inp \<and>
       (let conditions =
          [(exception_file_match inp, B1_CARD_ON_EXCEPTION_FILE),
           (floor_limit_for_transaction_type (trm_input_profile inp) (trm_transaction_type inp)
              < trm_amount_authorized inp, B4_FLOOR_LIMIT_EXCEEDED),
           (limit_exceeded inp (lower_consecutive_offline_limit (trm_input_profile inp)),
              B4_LOWER_CONSECUTIVE_OFFLINE_LIMIT_EXCEEDED),
           (limit_exceeded inp (upper_consecutive_offline_limit (trm_input_profile inp)),
              B4_UPPER_CONSECUTIVE_OFFLINE_LIMIT_EXCEEDED),
           (randomly_selected inp, B4_RANDOM_TRANSACTION_SELECTION_PERFORMED),
           (merchant_forced_online inp, B4_MERCHANT_FORCED_TRANSACTION_ONLINE)]
        in (trm_force_online r \<longleftrightarrow> list_ex fst conditions) \<and>
           (\<forall>x. tvr_is_set (trm_tvr r) x \<longleftrightarrow> tvr_is_set t x \<or>
              list_ex (\<lambda>(c, b). c \<and> bit_hits TVR_ALLOWED_MASKS b x) conditions)) \<and>
       tsi_is_set (trm_tsi r) TERMINAL_RISK_MANAGEMENT_PERFORMED \<and>
       (tvr_has_rfu_bits (trm_tvr r) \<longleftrightarrow> tvr_has_rfu_bits t)"
proof (cases "counter_ok inp \<and> sample_ok inp")
  case True
  then show ?thesis
    unfolding trm_evaluate_eq Let_def
    by (auto simp: raise_simps tvr_has_rfu_bits_iff tsi_records_trm raise_if_clean)
qed (auto simp: trm_evaluate_eq)

text \<open>A risk management profile is built exactly from a percentage up to 100, at most 16 floor limits for
  distinct transaction types, and consecutive limits with the lower not above the upper; the
  floor limit used for a transaction is then the one listed for its type, or the general one.\<close>

theorem trm_profile_built:
  "trm_profile_with_limits fl limits percent lower upper = Some p \<longleftrightarrow>
     wf_trm_profile p \<and> p = \<lparr>floor_limit = fl, transaction_type_floor_limits = limits,
       random_selection_percent = percent, lower_consecutive_offline_limit = lower,
       upper_consecutive_offline_limit = upper\<rparr>"
  by (rule trm_profile_with_limits_iff)

end
