(* ===== verification/Emv_C8.thy ===== *)
theory Emv_C8
  imports Emv_Error
begin

text \<open>
  Contactless outcomes (\<open>src/src/c8.rs\<close>): the outcome record with its consistency rules, the
  contactless limits, the relay resistance check, and the outcomes they lead to.
\<close>

unbundle bit_operations_syntax

definition MAX_C8_DATA_RECORD_LEN :: nat where "MAX_C8_DATA_RECORD_LEN = 252"
definition MAX_C8_DISCRETIONARY_DATA_LEN :: nat where "MAX_C8_DISCRETIONARY_DATA_LEN = 252"
definition MAX_RELAY_RESISTANCE_APDU_LEN :: nat where "MAX_RELAY_RESISTANCE_APDU_LEN = 261"
definition MAX_RELAY_RESISTANCE_RESPONSE_LEN :: nat where "MAX_RELAY_RESISTANCE_RESPONSE_LEN = 258"

section \<open>Outcomes\<close>

datatype contactless_outcome_code =
    OutApproved | OutDeclined | OutOnlineRequired | OutTryAgain | OutSelectNext
  | OutAlternateInterface | OutTerminate | OutCvmRequired | OutProfileDefined

datatype start_signal = StartNone | Start | StartRestart | StartPrompt

datatype ui_status =
  UiNone | UiReadyToRead | UiProcessing | UiApproved | UiDeclined | UiError | UiTryAgain

datatype alternate_interface = AltNone | AltContact | AltMagstripe | AltOtherCard

record ui_request =
  ui_message_id :: u16
  ui_status :: ui_status
  ui_hold_time_ms :: u16

definition ui_none :: ui_request where
  "ui_none = \<lparr>ui_message_id = 0, ui_status = UiNone, ui_hold_time_ms = 0\<rparr>"

record contactless_outcome =
  co_outcome_code :: contactless_outcome_code
  co_start_signal :: start_signal
  co_ui :: ui_request
  co_restart_required :: bool
  co_data_record :: bytes
  co_discretionary_data :: bytes
  co_alternate_interface :: alternate_interface

definition restart_rule ::
    "contactless_outcome_code \<Rightarrow> start_signal \<Rightarrow> ui_request \<Rightarrow> bool \<Rightarrow> unit krn_result" where
  "restart_rule code start ui restart =
     (case code of
        OutApproved \<Rightarrow> if restart then Inl InvalidArgument else Inr ()
      | OutDeclined \<Rightarrow> if restart then Inl InvalidArgument else Inr ()
      | OutOnlineRequired \<Rightarrow> if restart then Inl InvalidArgument else Inr ()
      | OutAlternateInterface \<Rightarrow> if restart then Inl InvalidArgument else Inr ()
      | OutTerminate \<Rightarrow> if restart then Inl InvalidArgument else Inr ()
      | OutTryAgain \<Rightarrow> if \<not> restart \<or> ui_status ui \<noteq> UiTryAgain then Inl InvalidArgument else Inr ()
      | OutCvmRequired \<Rightarrow> if \<not> restart \<or> start = StartNone then Inl InvalidArgument else Inr ()
      | OutSelectNext \<Rightarrow> Inr ()
      | OutProfileDefined \<Rightarrow> Inr ())"

definition contactless_outcome_new ::
    "contactless_outcome_code \<Rightarrow> start_signal \<Rightarrow> ui_request \<Rightarrow> bool \<Rightarrow> bytes \<Rightarrow> bytes
     \<Rightarrow> alternate_interface \<Rightarrow> contactless_outcome krn_result" where
  "contactless_outcome_new code start ui restart data_record discretionary_data alt =
     (if length data_record > MAX_C8_DATA_RECORD_LEN \<or>
         length discretionary_data > MAX_C8_DISCRETIONARY_DATA_LEN then Inl LengthOverflow
      else if code \<noteq> OutAlternateInterface \<and> alt \<noteq> AltNone then Inl InvalidArgument
      else if code = OutAlternateInterface \<and> alt = AltNone then Inl InvalidArgument
      else if ui_status ui = UiNone \<and> (ui_message_id ui \<noteq> 0 \<or> ui_hold_time_ms ui \<noteq> 0)
      then Inl InvalidArgument
      else if restart \<and> start = StartNone then Inl InvalidArgument
      else if start = StartRestart \<and> \<not> restart then Inl InvalidArgument
      else rbind (restart_rule code start ui restart) (\<lambda>_.
        Inr \<lparr>co_outcome_code = code, co_start_signal = start, co_ui = ui,
             co_restart_required = restart, co_data_record = data_record,
             co_discretionary_data = discretionary_data, co_alternate_interface = alt\<rparr>))"

section \<open>Outcomes for the callback\<close>

text \<open>
  The numbers of the enums, and the C view of an outcome, in which a pointer and its length are
  the bytes they denote.
\<close>

fun outcome_code_u8 :: "contactless_outcome_code \<Rightarrow> byte" where
  "outcome_code_u8 OutApproved = 1"
| "outcome_code_u8 OutDeclined = 2"
| "outcome_code_u8 OutOnlineRequired = 3"
| "outcome_code_u8 OutTryAgain = 4"
| "outcome_code_u8 OutSelectNext = 5"
| "outcome_code_u8 OutAlternateInterface = 6"
| "outcome_code_u8 OutTerminate = 7"
| "outcome_code_u8 OutCvmRequired = 8"
| "outcome_code_u8 OutProfileDefined = 255"

fun start_signal_u8 :: "start_signal \<Rightarrow> byte" where
  "start_signal_u8 StartNone = 0"
| "start_signal_u8 Start = 1"
| "start_signal_u8 StartRestart = 2"
| "start_signal_u8 StartPrompt = 3"

fun ui_status_u8 :: "ui_status \<Rightarrow> byte" where
  "ui_status_u8 UiNone = 0"
| "ui_status_u8 UiReadyToRead = 1"
| "ui_status_u8 UiProcessing = 2"
| "ui_status_u8 UiApproved = 3"
| "ui_status_u8 UiDeclined = 4"
| "ui_status_u8 UiError = 5"
| "ui_status_u8 UiTryAgain = 6"

fun alternate_interface_u8 :: "alternate_interface \<Rightarrow> byte" where
  "alternate_interface_u8 AltNone = 0"
| "alternate_interface_u8 AltContact = 1"
| "alternate_interface_u8 AltMagstripe = 2"
| "alternate_interface_u8 AltOtherCard = 3"

record krn_contactless_outcome =
  kco_outcome_code :: byte
  kco_start_signal :: byte
  kco_ui_message_id :: u16
  kco_ui_status :: byte
  kco_hold_time_ms :: u16
  kco_restart_required :: byte
  kco_data_record :: bytes
  kco_discretionary_data :: bytes
  kco_alternate_interface :: byte

definition as_ffi :: "contactless_outcome \<Rightarrow> krn_contactless_outcome" where
  "as_ffi c =
     \<lparr>kco_outcome_code = outcome_code_u8 (co_outcome_code c),
      kco_start_signal = start_signal_u8 (co_start_signal c),
      kco_ui_message_id = ui_message_id (co_ui c), kco_ui_status = ui_status_u8 (ui_status (co_ui c)),
      kco_hold_time_ms = ui_hold_time_ms (co_ui c),
      kco_restart_required = (if co_restart_required c then 1 else 0),
      kco_data_record = co_data_record c, kco_discretionary_data = co_discretionary_data c,
      kco_alternate_interface = alternate_interface_u8 (co_alternate_interface c)\<rparr>"

section \<open>Terminal transaction qualifiers\<close>

datatype terminal_transaction_qualifiers = Ttq byte byte byte byte

fun ttq_raw :: "terminal_transaction_qualifiers \<Rightarrow> bytes" where
  "ttq_raw (Ttq a b c d) = [a, b, c, d]"

fun ttq_parse :: "bytes \<Rightarrow> terminal_transaction_qualifiers krn_result" where
  "ttq_parse [a, b, c, d] = Inr (Ttq a b c d)"
| "ttq_parse _ = Inl ParseError"

definition ttq_bit_is_set :: "terminal_transaction_qualifiers \<Rightarrow> nat \<Rightarrow> byte \<Rightarrow> bool" where
  "ttq_bit_is_set t i m =
     (case get_at (ttq_raw t) i of Some byte \<Rightarrow> byte AND m \<noteq> 0 | None \<Rightarrow> False)"

definition count_ones :: "byte \<Rightarrow> nat" where
  "count_ones b = length (filter (bit b) [0..<8])"

definition ttq_set_bit_count :: "terminal_transaction_qualifiers \<Rightarrow> nat" where
  "ttq_set_bit_count t = sum_list (map count_ones (ttq_raw t))"

section \<open>Limits\<close>

record contactless_limit_input =
  amount_authorised_minor :: u64
  contactless_transaction_limit :: u64
  contactless_cvm_limit :: u64
  contactless_floor_limit :: u64
  cvm_satisfied :: bool

datatype contactless_limit_decision =
  LimitAllowed | LimitCvmRequired | LimitOnlineRequired | LimitAlternateInterface

definition evaluate_contactless_limits :: "contactless_limit_input \<Rightarrow> contactless_limit_decision" where
  "evaluate_contactless_limits inp =
     (if contactless_transaction_limit inp \<noteq> 0 \<and>
         amount_authorised_minor inp > contactless_transaction_limit inp then LimitAlternateInterface
      else if contactless_cvm_limit inp \<noteq> 0 \<and>
         amount_authorised_minor inp > contactless_cvm_limit inp \<and> \<not> cvm_satisfied inp
      then LimitCvmRequired
      else if contactless_floor_limit inp \<noteq> 0 \<and>
         amount_authorised_minor inp > contactless_floor_limit inp then LimitOnlineRequired
      else LimitAllowed)"

fun outcome_from_limit_decision :: "contactless_limit_decision \<Rightarrow> contactless_outcome krn_result" where
  "outcome_from_limit_decision LimitAllowed =
     contactless_outcome_new OutApproved StartNone
       \<lparr>ui_message_id = 1, ui_status = UiApproved, ui_hold_time_ms = 0\<rparr> False [] [] AltNone"
| "outcome_from_limit_decision LimitCvmRequired =
     contactless_outcome_new OutCvmRequired StartPrompt
       \<lparr>ui_message_id = 2, ui_status = UiProcessing, ui_hold_time_ms = 0\<rparr> True [] [] AltNone"
| "outcome_from_limit_decision LimitOnlineRequired =
     contactless_outcome_new OutOnlineRequired StartNone ui_none False [] [] AltNone"
| "outcome_from_limit_decision LimitAlternateInterface =
     contactless_outcome_new OutAlternateInterface StartPrompt
       \<lparr>ui_message_id = 3, ui_status = UiError, ui_hold_time_ms = 0\<rparr> False [] [] AltContact"

section \<open>Relay resistance\<close>

datatype relay_resistance_failure_outcome = RelayTryAgain | RelayAlternateInterface | RelayTerminate

record relay_resistance_profile =
  rrp_command_apdu :: bytes
  rrp_max_round_trip_ms :: u16
  rrp_success_response :: bytes
  rrp_failure_outcome :: relay_resistance_failure_outcome

definition validate_relay_resistance_command_apdu :: "bytes \<Rightarrow> unit krn_result" where
  "validate_relay_resistance_command_apdu command =
     (if length command \<le> 5 then Inr ()
      else let lc = unat (command ! 4) in
        if lc = 0 then Inl InvalidProfile
        else rbind (ok_or (checked_add_usize 5 lc) LengthOverflow) (\<lambda>data_end.
          if length command = data_end \<or> length command = data_end + 1 then Inr ()
          else Inl InvalidProfile))"

definition relay_resistance_profile_new ::
    "bytes \<Rightarrow> u16 \<Rightarrow> bytes \<Rightarrow> relay_resistance_failure_outcome \<Rightarrow> relay_resistance_profile krn_result" where
  "relay_resistance_profile_new command max_ms success failure_outcome =
     (if \<not> (4 \<le> length command \<and> length command \<le> MAX_RELAY_RESISTANCE_APDU_LEN) \<or>
         \<not> (2 \<le> length success \<and> length success \<le> MAX_RELAY_RESISTANCE_RESPONSE_LEN) \<or>
         max_ms = 0 then Inl InvalidProfile
      else rbind (validate_relay_resistance_command_apdu command) (\<lambda>_.
        Inr \<lparr>rrp_command_apdu = command, rrp_max_round_trip_ms = max_ms,
             rrp_success_response = success, rrp_failure_outcome = failure_outcome\<rparr>))"

datatype relay_resistance_decision = RelayPassed | RelayFailed relay_resistance_failure_outcome

definition evaluate_relay_resistance ::
    "relay_resistance_profile \<Rightarrow> bytes \<Rightarrow> u16 \<Rightarrow> relay_resistance_decision" where
  "evaluate_relay_resistance profile response round_trip_ms =
     (if round_trip_ms \<le> rrp_max_round_trip_ms profile \<and> response = rrp_success_response profile
      then RelayPassed else RelayFailed (rrp_failure_outcome profile))"

fun outcome_from_relay_resistance_failure ::
    "relay_resistance_failure_outcome \<Rightarrow> contactless_outcome krn_result" where
  "outcome_from_relay_resistance_failure RelayTryAgain =
     contactless_outcome_new OutTryAgain StartPrompt
       \<lparr>ui_message_id = 4, ui_status = UiTryAgain, ui_hold_time_ms = 0\<rparr> True [] [] AltNone"
| "outcome_from_relay_resistance_failure RelayAlternateInterface =
     contactless_outcome_new OutAlternateInterface StartPrompt
       \<lparr>ui_message_id = 3, ui_status = UiError, ui_hold_time_ms = 0\<rparr> False [] [] AltContact"
| "outcome_from_relay_resistance_failure RelayTerminate =
     contactless_outcome_new OutTerminate StartNone
       \<lparr>ui_message_id = 5, ui_status = UiError, ui_hold_time_ms = 0\<rparr> False [] [] AltNone"

section \<open>Consistent outcomes\<close>

text \<open>What holds of every outcome record: the rules the constructor enforces, read together.\<close>

definition outcome_ok :: "contactless_outcome \<Rightarrow> bool" where
  "outcome_ok o' \<longleftrightarrow>
     length (co_data_record o') \<le> 252 \<and> length (co_discretionary_data o') \<le> 252 \<and>
     (co_outcome_code o' = OutAlternateInterface \<longleftrightarrow> co_alternate_interface o' \<noteq> AltNone) \<and>
     (ui_status (co_ui o') = UiNone \<longrightarrow> co_ui o' = ui_none) \<and>
     (co_restart_required o' \<longrightarrow> co_start_signal o' \<noteq> StartNone \<and>
        co_outcome_code o' \<in> {OutTryAgain, OutSelectNext, OutCvmRequired, OutProfileDefined}) \<and>
     (co_start_signal o' = StartRestart \<longrightarrow> co_restart_required o') \<and>
     (co_outcome_code o' = OutTryAgain \<longrightarrow> co_restart_required o' \<and> ui_status (co_ui o') = UiTryAgain) \<and>
     (co_outcome_code o' = OutCvmRequired \<longrightarrow> co_restart_required o')"

lemma restart_rule_iff:
  "restart_rule code start ui restart = Inr () \<longleftrightarrow>
     (restart \<longrightarrow> code \<in> {OutTryAgain, OutSelectNext, OutCvmRequired, OutProfileDefined}) \<and>
     (code = OutTryAgain \<longrightarrow> restart \<and> ui_status ui = UiTryAgain) \<and>
     (code = OutCvmRequired \<longrightarrow> restart \<and> start \<noteq> StartNone)"
  by (cases code) (auto simp: restart_rule_def)

lemma if_Inl_eq_Inr: "(if P then Inl e else r) = Inr x \<longleftrightarrow> \<not> P \<and> r = Inr x"
  by simp

lemma contactless_outcome_new_iff:
  "contactless_outcome_new code start ui restart data disc alt = Inr o' \<longleftrightarrow>
     outcome_ok o' \<and> o' = \<lparr>co_outcome_code = code, co_start_signal = start, co_ui = ui,
       co_restart_required = restart, co_data_record = data, co_discretionary_data = disc,
       co_alternate_interface = alt\<rparr>"
proof -
  have ui: "ui = ui_none \<longleftrightarrow> ui_status ui = UiNone \<and> ui_message_id ui = 0 \<and> ui_hold_time_ms ui = 0"
    by (cases ui) (auto simp: ui_none_def)
  let ?o = "\<lparr>co_outcome_code = code, co_start_signal = start, co_ui = ui,
       co_restart_required = restart, co_data_record = data, co_discretionary_data = disc,
       co_alternate_interface = alt\<rparr>"
  have new: "contactless_outcome_new code start ui restart data disc alt = Inr o' \<longleftrightarrow>
      \<not> (length data > 252 \<or> length disc > 252) \<and>
      \<not> (code \<noteq> OutAlternateInterface \<and> alt \<noteq> AltNone) \<and>
      \<not> (code = OutAlternateInterface \<and> alt = AltNone) \<and>
      \<not> (ui_status ui = UiNone \<and> (ui_message_id ui \<noteq> 0 \<or> ui_hold_time_ms ui \<noteq> 0)) \<and>
      \<not> (restart \<and> start = StartNone) \<and> \<not> (start = StartRestart \<and> \<not> restart) \<and>
      restart_rule code start ui restart = Inr () \<and> o' = ?o"
    unfolding contactless_outcome_new_def if_Inl_eq_Inr rbind_eq_Inr
    by (simp add: MAX_C8_DATA_RECORD_LEN_def MAX_C8_DISCRETIONARY_DATA_LEN_def eq_commute[of o'])
  have ok: "outcome_ok ?o \<longleftrightarrow> length data \<le> 252 \<and> length disc \<le> 252 \<and>
      (code = OutAlternateInterface \<longleftrightarrow> alt \<noteq> AltNone) \<and> (ui_status ui = UiNone \<longrightarrow> ui = ui_none) \<and>
      (restart \<longrightarrow> start \<noteq> StartNone \<and> code \<in> {OutTryAgain, OutSelectNext, OutCvmRequired, OutProfileDefined}) \<and>
      (start = StartRestart \<longrightarrow> restart) \<and> (code = OutTryAgain \<longrightarrow> restart \<and> ui_status ui = UiTryAgain) \<and>
      (code = OutCvmRequired \<longrightarrow> restart)"
    by (simp add: outcome_ok_def)
  have "outcome_ok o' \<and> o' = ?o \<longleftrightarrow> outcome_ok ?o \<and> o' = ?o" by blast
  then show ?thesis unfolding new ok restart_rule_iff ui not_less[symmetric] by blast
qed

text \<open>Every limit decision has a consistent outcome; a contactless amount is approved exactly when it is
  within every limit that is set (the cardholder verification limit counting only while no
  verification was done), and above the transaction limit the outcome is always the contact
  interface, whatever the other limits say.\<close>

theorem contactless_limits_outcome:
  "\<exists>o'. outcome_from_limit_decision (evaluate_contactless_limits inp) = Inr o' \<and> outcome_ok o' \<and>
    (co_outcome_code o' = OutApproved \<longleftrightarrow>
      (contactless_transaction_limit inp = 0 \<or> amount_authorised_minor inp \<le> contactless_transaction_limit inp) \<and>
      (contactless_cvm_limit inp = 0 \<or> amount_authorised_minor inp \<le> contactless_cvm_limit inp \<or> cvm_satisfied inp) \<and>
      (contactless_floor_limit inp = 0 \<or> amount_authorised_minor inp \<le> contactless_floor_limit inp)) \<and>
    (co_outcome_code o' = OutAlternateInterface \<longleftrightarrow> contactless_transaction_limit inp \<noteq> 0 \<and>
       contactless_transaction_limit inp < amount_authorised_minor inp)"
  by (auto simp: evaluate_contactless_limits_def contactless_outcome_new_iff outcome_ok_def ui_none_def)

text \<open>The relay check passes exactly for the expected answer within the time limit, and a failed check
  always has a consistent outcome, which is never an approval or an online request.\<close>

theorem relay_resistance_outcome:
  "case evaluate_relay_resistance profile response ms of
     RelayPassed \<Rightarrow> unat ms \<le> unat (rrp_max_round_trip_ms profile) \<and> response = rrp_success_response profile
   | RelayFailed f \<Rightarrow> \<not> (unat ms \<le> unat (rrp_max_round_trip_ms profile) \<and> response = rrp_success_response profile) \<and>
       (\<exists>o'. outcome_from_relay_resistance_failure f = Inr o' \<and> outcome_ok o' \<and>
          co_outcome_code o' \<in> {OutTryAgain, OutAlternateInterface, OutTerminate})"
proof -
  have "\<exists>o'. outcome_from_relay_resistance_failure f = Inr o' \<and> outcome_ok o' \<and>
      co_outcome_code o' \<in> {OutTryAgain, OutAlternateInterface, OutTerminate}" for f
    by (cases f) (auto simp: contactless_outcome_new_iff outcome_ok_def)
  then show ?thesis by (auto simp: evaluate_relay_resistance_def word_le_nat_alt)
qed

end
