(* ===== verification/Emv_Sha1.thy ===== *)
theory Emv_Sha1
  imports Emv_Prelude
begin

text \<open>
  The SHA-1 of certificate and key checks (\<open>src/src/sha1.rs\<close>): the streaming state with its
  64-byte buffer, and the reference it implements: the FIPS 180-4 hash of the padded message.
\<close>

unbundle bit_operations_syntax

definition SHA1_DIGEST_BYTES :: nat where "SHA1_DIGEST_BYTES = 20"

section \<open>The compression function\<close>

datatype sha1_words = S5 u32 u32 u32 u32 u32

record sha1 =
  sha1_state :: sha1_words
  sha1_length_bytes :: u64
  sha1_buffer :: bytes
  sha1_buffer_len :: nat

definition sha1_init_words :: sha1_words where
  "sha1_init_words = S5 0x67452301 0xefcdab89 0x98badcfe 0x10325476 0xc3d2e1f0"

definition sha1_new :: sha1 where
  "sha1_new = \<lparr>sha1_state = sha1_init_words, sha1_length_bytes = 0,
     sha1_buffer = replicate 64 0, sha1_buffer_len = 0\<rparr>"

definition schedule_step :: "nat \<Rightarrow> u32 list \<Rightarrow> u32 list" where
  "schedule_step idx words = words[idx := word_rotl 1
     (words ! (idx - 3) XOR words ! (idx - 8) XOR words ! (idx - 14) XOR words ! (idx - 16))]"

definition message_schedule :: "bytes \<Rightarrow> u32 list" where
  "message_schedule block = fold schedule_step [16..<80]
     (map (\<lambda>chunk. word_of_nat (be_value chunk)) (chunks_exact 4 block) @ replicate 64 0)"

definition sha1_round :: "nat \<times> u32 \<Rightarrow> sha1_words \<Rightarrow> sha1_words" where
  "sha1_round = (\<lambda>(idx, word) v. case v of S5 a b c d e \<Rightarrow>
     let (f, k) =
           (if idx \<le> 19 then ((b AND c) OR (NOT b AND d), 0x5a827999)
            else if idx \<le> 39 then (b XOR c XOR d, 0x6ed9eba1)
            else if idx \<le> 59 then ((b AND c) OR (b AND d) OR (c AND d), 0x8f1bbcdc)
            else (b XOR c XOR d, 0xca62c1d6));
         temp = word_rotl 5 a + f + e + k + word
     in S5 temp a (word_rotl 30 b) c d)"

fun add_words :: "sha1_words \<Rightarrow> sha1_words \<Rightarrow> sha1_words" where
  "add_words (S5 a b c d e) (S5 a' b' c' d' e') = S5 (a + a') (b + b') (c + c') (d + d') (e + e')"

definition process_block :: "sha1_words \<Rightarrow> bytes \<Rightarrow> sha1_words" where
  "process_block state block =
     add_words state (fold sha1_round (enumerate 0 (message_schedule block)) state)"

section \<open>The streaming operations\<close>

definition copy_into :: "bytes \<Rightarrow> nat \<Rightarrow> bytes \<Rightarrow> bytes" where
  "copy_into buf i src = take i buf @ src @ drop (i + length src) buf"

text \<open>The first part of \<open>update\<close> tops up a buffer in use, and empties it when it is full.\<close>

definition sha1_top_up :: "sha1 \<Rightarrow> bytes \<Rightarrow> sha1 \<times> bytes" where
  "sha1_top_up s bs =
     (if sha1_buffer_len s > 0 then
        let n = min (64 - sha1_buffer_len s) (length bs);
            s = s\<lparr>sha1_buffer := copy_into (sha1_buffer s) (sha1_buffer_len s) (take n bs)\<rparr>;
            s = s\<lparr>sha1_buffer_len := sha1_buffer_len s + n\<rparr>;
            bs = drop n bs
        in (if sha1_buffer_len s = 64
            then (s\<lparr>sha1_state := process_block (sha1_state s) (sha1_buffer s), sha1_buffer_len := 0\<rparr>, bs)
            else (s, bs))
      else (s, bs))"

function sha1_full_blocks :: "sha1_words \<Rightarrow> bytes \<Rightarrow> sha1_words \<times> bytes" where
  "sha1_full_blocks state bs =
     (if length bs \<ge> 64 then sha1_full_blocks (process_block state (take 64 bs)) (drop 64 bs)
      else (state, bs))"
  by pat_completeness auto
termination
  by (relation "measure (\<lambda>(state, bs). length bs)") auto

declare sha1_full_blocks.simps [simp del]

definition sha1_update :: "sha1 \<Rightarrow> bytes \<Rightarrow> sha1" where
  "sha1_update s bs =
     (let s = s\<lparr>sha1_length_bytes := sha1_length_bytes s + word_of_nat (length bs)\<rparr>;
          (s, bs) = sha1_top_up s bs;
          (state, bs) = sha1_full_blocks (sha1_state s) bs;
          s = s\<lparr>sha1_state := state\<rparr>
      in if bs \<noteq> [] then s\<lparr>sha1_buffer := copy_into (sha1_buffer s) 0 bs, sha1_buffer_len := length bs\<rparr>
         else s)"

fun words_to_bytes :: "sha1_words \<Rightarrow> bytes" where
  "words_to_bytes (S5 a b c d e) =
     be_bytes 4 (unat a) @ be_bytes 4 (unat b) @ be_bytes 4 (unat c) @ be_bytes 4 (unat d)
       @ be_bytes 4 (unat e)"

definition sha1_finalize :: "sha1 \<Rightarrow> bytes" where
  "sha1_finalize s =
     (let bit_len = sha1_length_bytes s * 8;
          block = copy_into (replicate 64 0) 0 (take (sha1_buffer_len s) (sha1_buffer s));
          block = block[sha1_buffer_len s := 0x80];
          (state, block) = (if sha1_buffer_len s \<ge> 56
                            then (process_block (sha1_state s) block, replicate 64 0)
                            else (sha1_state s, block));
          block = copy_into block 56 (be_bytes 8 (unat bit_len))
      in words_to_bytes (process_block state block))"

section \<open>The reference hash\<close>

text \<open>
  FIPS 180-4: the message schedule as a recurrence, the round functions with exclusive or, and
  the hash as the compression of the blocks of the padded message.
\<close>

function fips_w :: "bytes \<Rightarrow> nat \<Rightarrow> u32" where
  "fips_w block t =
     (if t < 16 then word_of_nat (be_value (slice_of block (4 * t) (4 * t + 4)))
      else word_rotl 1 (fips_w block (t - 3) XOR fips_w block (t - 8) XOR fips_w block (t - 14)
             XOR fips_w block (t - 16)))"
  by pat_completeness auto
termination by (relation "measure snd") auto

declare fips_w.simps [simp del]

definition fips_f :: "nat \<Rightarrow> u32 \<Rightarrow> u32 \<Rightarrow> u32 \<Rightarrow> u32" where
  "fips_f t x y z =
     (if t < 20 then (x AND y) XOR (NOT x AND z)
      else if 40 \<le> t \<and> t < 60 then (x AND y) XOR (x AND z) XOR (y AND z)
      else x XOR y XOR z)"

definition fips_k :: "nat \<Rightarrow> u32" where
  "fips_k t = [0x5a827999, 0x6ed9eba1, 0x8f1bbcdc, 0xca62c1d6] ! (t div 20)"

definition fips_round :: "bytes \<Rightarrow> nat \<Rightarrow> sha1_words \<Rightarrow> sha1_words" where
  "fips_round block t v = (case v of S5 a b c d e \<Rightarrow>
     S5 (word_rotl 5 a + fips_f t b c d + e + fips_k t + fips_w block t) a (word_rotl 30 b) c d)"

definition fips_compress :: "sha1_words \<Rightarrow> bytes \<Rightarrow> sha1_words" where
  "fips_compress h block = add_words h (fold (fips_round block) [0..<80] h)"

definition fips_pad :: "bytes \<Rightarrow> bytes" where
  "fips_pad m = m @ [0x80] @ replicate ((119 - length m mod 64) mod 64) 0
     @ be_bytes 8 (8 * length m)"

definition fips_sha1 :: "bytes \<Rightarrow> bytes" where
  "fips_sha1 m = words_to_bytes (foldl fips_compress sha1_init_words (chunks_exact 64 (fips_pad m)))"

section \<open>The compression function is that of the standard\<close>

lemma length_chunks_exact: "0 < n \<Longrightarrow> length (chunks_exact n xs) = length xs div n"
proof (induction n xs rule: chunks_exact.induct)
  case (1 n xs)
  then show ?case by (subst chunks_exact.simps) (simp add: le_div_geq not_less)
qed

lemma nth_chunks_exact:
  "0 < n \<Longrightarrow> i < length xs div n \<Longrightarrow> chunks_exact n xs ! i = slice_of xs (n * i) (n * i + n)"
proof (induction n xs arbitrary: i rule: chunks_exact.induct)
  case (1 n xs)
  then have "\<not> (n = 0 \<or> length xs < n)" by (metis div_less not_less_zero)
  moreover from this 1 have "chunks_exact n (drop n xs) ! j = slice_of xs (n + n * j) (n + n * j + n)"
    if "j < length (drop n xs) div n" for j using that by (simp add: slice_drop add.assoc)
  moreover have "length xs div n = Suc (length (drop n xs) div n)" using calculation 1 by (simp add: le_div_geq)
  ultimately show ?case using 1
    by (subst chunks_exact.simps) (cases i, simp_all add: slice_of_def)
qed

lemma chunks_exact_append_dvd:
  "0 < n \<Longrightarrow> n dvd length xs \<Longrightarrow> chunks_exact n (xs @ ys) = chunks_exact n xs @ chunks_exact n ys"
proof (induction n xs rule: chunks_exact.induct)
  case (1 n xs)
  show ?case
  proof (cases "length xs < n")
    case True
    with 1 have "xs = []" by (auto elim: dvdE)
    with 1 show ?thesis by simp
  next
    case False
    with 1 have "n dvd length (drop n xs)" by simp
    with 1 False have "chunks_exact n (drop n xs @ ys) = chunks_exact n (drop n xs) @ chunks_exact n ys" by simp
    with 1 False show ?thesis
      by (subst (1 2) chunks_exact.simps) (simp add: chunks_exact.simps [of n xs])
  qed
qed

lemma message_schedule_prefix:
  assumes block: "length block = 64" and n: "16 \<le> n" "n \<le> 80"
  defines "start \<equiv> map (\<lambda>chunk. word_of_nat (be_value chunk)) (chunks_exact 4 block) @ replicate 64 0"
  shows "length (fold schedule_step [16..<n] start) = 80 \<and>
    (\<forall>i<n. fold schedule_step [16..<n] start ! i = fips_w block i)"
  using n
proof (induction n rule: dec_induct)
  case base
  show ?case using block
    by (auto simp: start_def length_chunks_exact nth_append nth_chunks_exact fips_w.simps)
next
  case (step n)
  define ws where "ws = fold schedule_step [16..<n] start"
  from step have ws: "length ws = 80" "\<And>i. i < n \<Longrightarrow> ws ! i = fips_w block i"
    by (simp_all add: ws_def)
  have "fips_w block n = word_rotl 1 (ws ! (n - 3) XOR ws ! (n - 8) XOR ws ! (n - 14) XOR ws ! (n - 16))"
    using step.hyps by (simp add: ws fips_w.simps [of block n])
  with ws step show ?case
    by (auto simp: ws_def [symmetric] schedule_step_def nth_list_update less_Suc_eq)
qed

lemma message_schedule_eq:
  assumes "length block = 64"
  shows "message_schedule block = map (fips_w block) [0..<80]"
proof -
  have "length (message_schedule block) = 80 \<and> (\<forall>i<80. message_schedule block ! i = fips_w block i)"
    using message_schedule_prefix [OF assms, of 80] unfolding message_schedule_def by simp
  then show ?thesis by (intro nth_equalityI) (simp_all del: upt_rec_numeral)
qed

lemma choice_xor: "((b :: u32) AND c) OR (NOT b AND d) = (b AND c) XOR (NOT b AND d)"
  by (rule bit_eqI) (auto simp: bit_and_iff bit_or_iff bit_xor_iff bit_not_iff)

lemma majority_xor: "((b :: u32) AND c) OR (b AND d) OR (c AND d) = (b AND c) XOR (b AND d) XOR (c AND d)"
  by (rule bit_eqI) (simp add: bit_and_iff bit_or_iff bit_xor_iff, blast)

lemma sha1_round_eq:
  assumes "t < 80"
  shows "sha1_round (t, fips_w block t) v = fips_round block t v"
proof (cases v)
  case (S5 a b c d e)
  consider "t < 20" "t div 20 = 0" | "20 \<le> t" "t < 40" "t div 20 = 1"
    | "40 \<le> t" "t < 60" "t div 20 = 2" | "60 \<le> t" "t div 20 = 3"
    using assms by (cases "t < 20"; cases "t < 40"; cases "t < 60") (simp_all add: div_nat_eqI)
  then show ?thesis
    by cases (simp_all add: S5 sha1_round_def fips_round_def fips_f_def fips_k_def choice_xor
        majority_xor)
qed

lemma process_block_eq:
  assumes "length block = 64"
  shows "process_block h block = fips_compress h block"
proof -
  have "enumerate 0 (map (fips_w block) [0..<80]) = map (\<lambda>t. (t, fips_w block t)) [0..<80]"
    by (rule nth_equalityI) (simp_all add: nth_enumerate_eq del: upt_rec_numeral)
  then have "fold sha1_round (enumerate 0 (message_schedule block)) h =
      fold (\<lambda>t. sha1_round (t, fips_w block t)) [0..<80] h"
    by (simp add: message_schedule_eq [OF assms] fold_map comp_def del: upt_rec_numeral)
  also have "\<dots> = fold (fips_round block) [0..<80] h"
    by (rule fold_cong) (simp_all add: sha1_round_eq fun_eq_iff del: upt_rec_numeral)
  finally show ?thesis by (simp add: process_block_def fips_compress_def)
qed

section \<open>Streaming\<close>

text \<open>The contract of a streaming digest, and what a client may conclude from it.\<close>

locale stream_digest =
  fixes init :: 's
    and upd :: "'s \<Rightarrow> bytes \<Rightarrow> 's"
    and fin :: "'s \<Rightarrow> bytes"
    and absorbed :: "'s \<Rightarrow> bytes \<Rightarrow> bool"
    and digest :: "bytes \<Rightarrow> bytes"
  assumes absorbed_init: "absorbed init []"
    and absorbed_upd: "absorbed s m \<Longrightarrow> absorbed (upd s b) (m @ b)"
    and fin_absorbed: "absorbed s m \<Longrightarrow> fin s = digest m"
begin

lemma absorbed_foldl: "absorbed s m \<Longrightarrow> absorbed (foldl upd s parts) (m @ concat parts)"
proof (induction parts arbitrary: s m)
  case (Cons b parts)
  from Cons.IH [OF absorbed_upd [OF Cons.prems]] show ?case by simp
qed simp

lemma fin_foldl: "fin (foldl upd init parts) = digest (concat parts)"
  using absorbed_foldl [OF absorbed_init] fin_absorbed by simp

end

text \<open>
  The state after a message: the blocks that are full are compressed, the rest is at the front of
  the buffer, and the length is counted modulo \<open>2 ^ 64\<close>.
\<close>

definition sha1_absorbed :: "sha1 \<Rightarrow> bytes \<Rightarrow> bool" where
  "sha1_absorbed s m \<longleftrightarrow> (\<exists>full rest. m = full @ rest \<and> 64 dvd length full \<and> length rest < 64 \<and>
     sha1_state s = foldl process_block sha1_init_words (chunks_exact 64 full) \<and>
     sha1_buffer_len s = length rest \<and> length (sha1_buffer s) = 64 \<and>
     take (length rest) (sha1_buffer s) = rest \<and>
     sha1_length_bytes s = word_of_nat (length m))"

lemma length_copy_into:
  "i + length src \<le> length buf \<Longrightarrow> length (copy_into buf i src) = length buf"
  by (simp add: copy_into_def)

lemma take_copy_into:
  "i + length src \<le> length buf \<Longrightarrow> take (i + length src) (copy_into buf i src) = take i buf @ src"
  by (simp add: copy_into_def)

lemma sha1_full_blocks_eq:
  "64 dvd length full \<Longrightarrow> length rest < 64 \<Longrightarrow>
     sha1_full_blocks h (full @ rest) = (foldl process_block h (chunks_exact 64 full), rest)"
proof (induction h "full @ rest" arbitrary: full rule: sha1_full_blocks.induct)
  case (1 h)
  show ?case
  proof (cases "full = []")
    case True
    with 1 show ?thesis by (subst sha1_full_blocks.simps) simp
  next
    case False
    with 1 have long: "64 \<le> length full" by (simp add: dvd_imp_le)
    with 1 have "64 dvd length (drop 64 full)" by simp
    with 1 long have "sha1_full_blocks (process_block h (take 64 full)) (drop 64 full @ rest) =
        (foldl process_block (process_block h (take 64 full)) (chunks_exact 64 (drop 64 full)), rest)"
      by simp
    with long show ?thesis
      by (subst sha1_full_blocks.simps) (simp add: chunks_exact.simps [of 64 full])
  qed
qed

lemma split_blocks:
  obtains full rest where "bs = full @ rest" "64 dvd length full" "length rest < 64"
proof
  let ?n = "64 * (length bs div 64)"
  show "bs = take ?n bs @ drop ?n bs" by simp
  have "?n \<le> length bs" by simp
  then show "64 dvd length (take ?n bs)" by (simp add: min_absorb2)
  show "length (drop ?n bs) < 64" by (simp add: minus_mult_div_eq_mod)
qed

text \<open>After the top-up the buffer is empty or the input is used up.\<close>

lemma sha1_top_up_absorbed:
  assumes full: "64 dvd length full" and rest: "length rest < 64"
    and st: "sha1_state s = foldl process_block sha1_init_words (chunks_exact 64 full)"
    and buf: "sha1_buffer_len s = length rest" "length (sha1_buffer s) = 64"
      "take (length rest) (sha1_buffer s) = rest"
    and t: "sha1_top_up s bs = (s', bs')"
  shows "\<exists>full' rest'. full @ rest @ bs = full' @ rest' @ bs' \<and> 64 dvd length full' \<and>
    (rest' = [] \<or> bs' = []) \<and> length rest' < 64 \<and>
    sha1_state s' = foldl process_block sha1_init_words (chunks_exact 64 full') \<and>
    sha1_buffer_len s' = length rest' \<and> length (sha1_buffer s') = 64 \<and>
    take (length rest') (sha1_buffer s') = rest' \<and> sha1_length_bytes s' = sha1_length_bytes s"
proof (cases "rest = []")
  case True
  with assms show ?thesis by (intro exI [of _ full] exI [of _ "[]"]) (auto simp: sha1_top_up_def)
next
  case False
  define n where "n = min (64 - length rest) (length bs)"
  have n: "n \<le> length bs" "length rest + n \<le> 64" using rest by (simp_all add: n_def)
  let ?buf = "copy_into (sha1_buffer s) (length rest) (take n bs)"
  have b: "length ?buf = 64" "take (length rest + n) ?buf = rest @ take n bs"
    using n buf length_copy_into [of "length rest" "take n bs" "sha1_buffer s"]
      take_copy_into [of "length rest" "take n bs" "sha1_buffer s"] by simp_all
  show ?thesis
  proof (cases "length rest + n = 64")
    case True
    have "?buf = rest @ take n bs" using b True by simp
    moreover have "chunks_exact 64 (full @ rest @ take n bs) = chunks_exact 64 full @ [rest @ take n bs]"
      using full True n chunks_exact_append [of "rest @ take n bs" 64 "[]"]
      by (simp add: chunks_exact_append_dvd)
    moreover have "s' = s\<lparr>sha1_buffer := ?buf, sha1_buffer_len := 0,
        sha1_state := process_block (sha1_state s) ?buf\<rparr>" "bs' = drop n bs"
      using t True False buf by (auto simp: sha1_top_up_def Let_def n_def [symmetric])
    ultimately show ?thesis using full st b True n
      by (intro exI [of _ "full @ rest @ take n bs"] exI [of _ "[]"]) simp
  next
    case False': False
    then have "n = length bs" using n rest by (simp add: n_def)
    moreover have "s' = s\<lparr>sha1_buffer := ?buf, sha1_buffer_len := length rest + n\<rparr>" "bs' = drop n bs"
      using t False False' buf by (auto simp: sha1_top_up_def Let_def n_def [symmetric])
    ultimately show ?thesis using full st b False' n
      by (intro exI [of _ full] exI [of _ "rest @ bs"]) simp
  qed
qed

lemma sha1_absorbed_new: "sha1_absorbed sha1_new []"
  by (auto simp: sha1_absorbed_def sha1_new_def)

lemma sha1_absorbed_update:
  assumes "sha1_absorbed s m"
  shows "sha1_absorbed (sha1_update s bs) (m @ bs)"
proof -
  from assms obtain full rest where m: "m = full @ rest" "64 dvd length full" "length rest < 64"
    "sha1_state s = foldl process_block sha1_init_words (chunks_exact 64 full)"
    "sha1_buffer_len s = length rest" "length (sha1_buffer s) = 64"
    "take (length rest) (sha1_buffer s) = rest" "sha1_length_bytes s = word_of_nat (length m)"
    unfolding sha1_absorbed_def by blast
  define s0 where "s0 = s\<lparr>sha1_length_bytes := sha1_length_bytes s + word_of_nat (length bs)\<rparr>"
  obtain s1 bs1 where t: "sha1_top_up s0 bs = (s1, bs1)" by force
  have "\<exists>full' rest'. full @ rest @ bs = full' @ rest' @ bs1 \<and> 64 dvd length full' \<and>
    (rest' = [] \<or> bs1 = []) \<and> length rest' < 64 \<and>
    sha1_state s1 = foldl process_block sha1_init_words (chunks_exact 64 full') \<and>
    sha1_buffer_len s1 = length rest' \<and> length (sha1_buffer s1) = 64 \<and>
    take (length rest') (sha1_buffer s1) = rest' \<and> sha1_length_bytes s1 = sha1_length_bytes s0"
    using m t by (intro sha1_top_up_absorbed [of _ _ s0]) (simp_all add: s0_def)
  then obtain full' rest' where f: "full @ rest @ bs = full' @ rest' @ bs1" "64 dvd length full'"
    "rest' = [] \<or> bs1 = []" "length rest' < 64"
    "sha1_state s1 = foldl process_block sha1_init_words (chunks_exact 64 full')"
    "sha1_buffer_len s1 = length rest'" "length (sha1_buffer s1) = 64"
    "take (length rest') (sha1_buffer s1) = rest'" "sha1_length_bytes s1 = sha1_length_bytes s0"
    by blast
  obtain b r where bs1: "bs1 = b @ r" "64 dvd length b" "length r < 64" by (rule split_blocks)
  have len: "sha1_length_bytes s1 = word_of_nat (length (m @ bs))"
    using f(9) m(8) by (simp add: s0_def)
  show ?thesis
  proof (cases "r = []")
    case True
    then have "sha1_update s bs = s1\<lparr>sha1_state := foldl process_block (sha1_state s1) (chunks_exact 64 b)\<rparr>"
      using bs1 t sha1_full_blocks_eq [of b r "sha1_state s1"]
      by (simp add: sha1_update_def s0_def [symmetric] Let_def)
    moreover have "chunks_exact 64 (full' @ b) = chunks_exact 64 full' @ chunks_exact 64 b"
      using f by (simp add: chunks_exact_append_dvd)
    moreover have "m @ bs = (full' @ b) @ rest'" using f bs1 True m by auto
    ultimately show ?thesis using f bs1 len unfolding sha1_absorbed_def
      by (intro exI [of _ "full' @ b"] exI [of _ rest']) simp
  next
    case False
    with bs1 f have r': "rest' = []" by simp
    let ?buf = "copy_into (sha1_buffer s1) 0 r"
    have "sha1_update s bs = s1\<lparr>sha1_state := foldl process_block (sha1_state s1) (chunks_exact 64 b),
        sha1_buffer := ?buf, sha1_buffer_len := length r\<rparr>"
      using bs1 t False sha1_full_blocks_eq [of b r "sha1_state s1"]
      by (simp add: sha1_update_def s0_def [symmetric] Let_def)
    moreover have "length ?buf = 64" "take (length r) ?buf = r"
      using bs1 f length_copy_into [of 0 r "sha1_buffer s1"] take_copy_into [of 0 r "sha1_buffer s1"] by simp_all
    moreover have "chunks_exact 64 (full' @ b) = chunks_exact 64 full' @ chunks_exact 64 b"
      using f by (simp add: chunks_exact_append_dvd)
    moreover have "m @ bs = (full' @ b) @ r" using f bs1 r' m by auto
    ultimately show ?thesis using f bs1 len unfolding sha1_absorbed_def
      by (intro exI [of _ "full' @ b"] exI [of _ r]) simp
  qed
qed

lemma be_bytes_mod: "be_bytes k (n mod 256 ^ k) = be_bytes k n"
  by (rule be_value_inj) (simp_all add: be_value_be_bytes)

lemma be_bytes_bit_length:
  "be_bytes 8 (unat ((word_of_nat n :: u64) * 8)) = be_bytes 8 (8 * n)"
proof -
  have "unat ((word_of_nat n :: u64) * 8) = unat (word_of_nat (8 * n) :: u64)"
    by (simp add: mult.commute)
  also have "\<dots> = 8 * n mod 256 ^ 8" by (simp only: unsigned_of_nat take_bit_nat_def) simp
  finally show ?thesis by (simp only: be_bytes_mod)
qed

lemma padding_in_buffer:
  assumes "length rest < 64" "length buf = 64" "take (length rest) buf = rest"
  shows "(copy_into (replicate 64 0) 0 (take (length rest) buf))[length rest := 0x80] =
    rest @ [0x80] @ replicate (63 - length rest) 0"
proof -
  have "64 - length rest = Suc (63 - length rest)" using assms by simp
  then have "replicate (64 - length rest) (0 :: byte) = 0 # replicate (63 - length rest) 0"
    by (simp only: replicate_Suc)
  then show ?thesis using assms by (simp add: copy_into_def list_update_append)
qed

lemma sha1_finalize_absorbed:
  assumes "sha1_absorbed s m"
  shows "sha1_finalize s = fips_sha1 m"
proof -
  from assms obtain full rest where m: "m = full @ rest" "64 dvd length full" "length rest < 64"
    "sha1_state s = foldl process_block sha1_init_words (chunks_exact 64 full)"
    "sha1_buffer_len s = length rest" "length (sha1_buffer s) = 64"
    "take (length rest) (sha1_buffer s) = rest" and len: "sha1_length_bytes s = word_of_nat (length m)"
    unfolding sha1_absorbed_def by blast
  define bits where "bits = be_bytes 8 (8 * length m)"
  have bits: "be_bytes 8 (unat (sha1_length_bytes s * 8)) = bits" and [simp]: "length bits = 8"
    by (simp_all only: len be_bytes_bit_length bits_def length_be_bytes)
  have block: "(copy_into (replicate 64 0) 0 (take (length rest) (sha1_buffer s)))[length rest := 0x80] =
      rest @ [0x80] @ replicate (63 - length rest) 0"
    using m by (intro padding_in_buffer) simp_all
  have mod: "length m mod 64 = length rest" using m by (auto elim!: dvdE)
  have pad: "fips_pad m = full @ rest @ [0x80] @ replicate ((119 - length rest) mod 64) 0 @ bits"
    unfolding fips_pad_def mod bits_def [symmetric] by (simp add: m(1))
  have chunks: "foldl process_block h (chunks_exact 64 (fips_pad m)) = foldl fips_compress h (chunks_exact 64 (fips_pad m))" for h
    using chunks_exact_lengths by (intro foldl_cong) (auto intro!: process_block_eq)
  have "sha1_finalize s = words_to_bytes (foldl process_block sha1_init_words (chunks_exact 64 (fips_pad m)))"
  proof (cases "56 \<le> length rest")
    case True
    let ?b1 = "rest @ [0x80] @ replicate (63 - length rest) 0" and ?b2 = "replicate 56 0 @ bits"
    have "(119 - length rest) mod 64 = (63 - length rest) + 56" using True m(3) by simp
    then have "fips_pad m = full @ ?b1 @ ?b2"
      by (simp only: pad append_assoc replicate_add)
    moreover have "chunks_exact 64 (full @ ?b1 @ ?b2) = chunks_exact 64 full @ [?b1, ?b2]"
      using m(2,3) chunks_exact_append [of ?b1 64 ?b2] chunks_exact_append [of ?b2 64 "[]"]
      by (simp add: chunks_exact_append_dvd)
    ultimately show ?thesis using True
      by (simp add: sha1_finalize_def Let_def m(4,5) block bits) (simp add: copy_into_def)
  next
    case False
    let ?b = "rest @ [0x80] @ replicate (55 - length rest) 0 @ bits"
    have "(119 - length rest) mod 64 = 55 - length rest"
      using False mod_add_self1 [of 64 "55 - length rest"] by simp
    then have "fips_pad m = full @ ?b" by (simp only: pad)
    moreover have "chunks_exact 64 (full @ ?b) = chunks_exact 64 full @ [?b]"
      using m(2) False chunks_exact_append [of ?b 64 "[]"] by (simp add: chunks_exact_append_dvd)
    moreover have "copy_into (rest @ 0x80 # replicate (63 - length rest) 0) 56 bits = ?b"
      using False by (simp add: copy_into_def take_Cons' min_def)
    ultimately show ?thesis using False
      by (simp add: sha1_finalize_def Let_def m(4,5) block bits)
  qed
  then show ?thesis by (simp add: fips_sha1_def chunks)
qed

interpretation sha1: stream_digest sha1_new sha1_update sha1_finalize sha1_absorbed fips_sha1
  by unfold_locales (fact sha1_absorbed_new sha1_absorbed_update sha1_finalize_absorbed)+

lemma length_words_to_bytes [simp]: "length (words_to_bytes w) = 20"
  by (cases w) simp

lemma length_fips_sha1 [simp]: "length (fips_sha1 m) = 20"
  by (simp add: fips_sha1_def)

text \<open>C12: However the message is cut into pieces, feeding them to the streaming hash and finishing gives
  the FIPS 180-4 hash of the whole message: the message padded with a one bit, zeros and its bit
  length, cut into 64-byte blocks and compressed with the schedule and the round functions of the
  standard.\<close>

theorem sha1_streaming:
  "sha1_finalize (foldl sha1_update sha1_new parts) = fips_sha1 (concat parts)"
  by (rule sha1.fin_foldl)

end
