(* ===== verification/Emv_Config.thy ===== *)
theory Emv_Config
  imports Emv_Restrictions Emv_Taa Emv_Trm Emv_C8 Emv_Sha1
begin

text \<open>
  Profile sets (\<open>src/src/config.rs\<close>): the signed scheme, application and key profiles the kernel
  is configured with, and the checks on them that do not depend on their JSON form.
\<close>

unbundle bit_operations_syntax

section \<open>Profiles\<close>

datatype build_mode = ModeTest | ModeCertification | ModeProduction

datatype signature_status = SignatureNotPresent | SignatureInvalid | SignatureVerified

record config_load_policy =
  policy_mode :: build_mode
  policy_signature_status :: signature_status
  policy_installed_version :: u64
  policy_candidate_version :: u64
  policy_evaluation_date :: emv_date

datatype profile_class = ClassCertification | ClassExampleOnly

record profile_source =
  source_owner :: string
  source_document :: string
  source_version :: string
  source_retrieved :: "emv_date option"
  source_verification :: string

datatype cda_request_encoding = EncodeInCdolData | EncodeP1LowBits byte

datatype cda_authentication_data =
  CdaApplicationCryptogram | CdaApplicationCryptogramAndIccDynamicNumber

record capk =
  capk_rid :: arr5
  capk_key_index :: byte
  capk_modulus :: bytes
  capk_exponent :: bytes
  capk_expiry :: emv_date
  capk_checksum_value :: bytes
  capk_source :: profile_source

record aid_profile =
  ap_aid :: bytes
  ap_priority :: byte
  ap_partial_selection :: bool
  ap_interfaces :: "string list"
  ap_action_codes :: action_codes
  ap_issuer_action_codes :: action_codes
  ap_floor_limit :: u64
  ap_transaction_type_floor_limits :: "transaction_type_floor_limit list"
  ap_cvm_limit_contact :: u64
  ap_random_selection_percent :: byte
  ap_lower_consecutive_offline_limit :: "u16 option"
  ap_upper_consecutive_offline_limit :: "u16 option"
  ap_contactless_transaction_limit :: u64
  ap_contactless_cvm_limit :: u64
  ap_cdcvm_supported :: bool
  ap_cda_supported :: bool
  ap_cda_request_encoding :: "cda_request_encoding option"
  ap_cda_authentication_data :: cda_authentication_data
  ap_default_cdol1 :: "bytes option"
  ap_critical_issuer_script_ins :: bytes
  ap_relay_resistance :: "relay_resistance_profile option"

record scheme_profile =
  sp_scheme_name :: string
  sp_rid :: arr5
  sp_kernel_type :: string
  sp_contact_kernel_type :: "string option"
  sp_taa :: taa_profile
  sp_aids :: "aid_profile list"
  sp_capks :: "capk list"

record profile_set =
  ps_version :: u64
  ps_profile_class :: profile_class
  ps_profile_source :: profile_source
  ps_schemes :: "scheme_profile list"

definition aid_trm_profile :: "aid_profile \<Rightarrow> trm_profile option" where
  "aid_trm_profile a =
     trm_profile_with_limits (ap_floor_limit a) (ap_transaction_type_floor_limits a)
       (ap_random_selection_percent a) (ap_lower_consecutive_offline_limit a)
       (ap_upper_consecutive_offline_limit a)"

definition cda_allowed_by_profile :: "aid_profile \<Rightarrow> bool" where
  "cda_allowed_by_profile a \<longleftrightarrow> ap_cda_supported a \<and> ap_cda_request_encoding a \<noteq> None"

section \<open>Checks between profiles\<close>

definition reject_duplicate_scheme_rids :: "scheme_profile list \<Rightarrow> unit krn_result" where
  "reject_duplicate_scheme_rids schemes =
     (if has_earlier sp_rid schemes then Inl InvalidProfile else Inr ())"

definition starts_with :: "'a list \<Rightarrow> 'a list \<Rightarrow> bool" where
  "starts_with xs p \<longleftrightarrow> take (length p) xs = p"

definition reject_aids_outside_scheme_rid :: "arr5 \<Rightarrow> aid_profile list \<Rightarrow> unit krn_result" where
  "reject_aids_outside_scheme_rid rid aids =
     (if list_ex (\<lambda>a. \<not> starts_with (ap_aid a) (list5 rid)) aids then Inl InvalidProfile else Inr ())"

definition reject_duplicate_aids :: "aid_profile list \<Rightarrow> unit krn_result" where
  "reject_duplicate_aids aids = (if has_earlier ap_aid aids then Inl InvalidProfile else Inr ())"

definition reject_duplicate_capk_identities :: "capk list \<Rightarrow> unit krn_result" where
  "reject_duplicate_capk_identities capks =
     (if has_earlier (\<lambda>c. (capk_rid c, capk_key_index c)) capks then Inl InvalidProfile else Inr ())"

definition reject_duplicate_bytes :: "bytes \<Rightarrow> unit krn_result" where
  "reject_duplicate_bytes vs = (if has_earlier id vs then Inl InvalidProfile else Inr ())"

section \<open>Values\<close>

definition hex_nibble :: "byte \<Rightarrow> byte krn_result" where
  "hex_nibble b =
     (if 0x30 \<le> b \<and> b \<le> 0x39 then Inr (b - 0x30)
      else if 0x61 \<le> b \<and> b \<le> 0x66 then Inr (b - 0x61 + 10)
      else if 0x41 \<le> b \<and> b \<le> 0x46 then Inr (b - 0x41 + 10)
      else Inl ParseError)"

definition decode_hex :: "string \<Rightarrow> bytes krn_result" where
  "decode_hex inp =
     (let bs = ascii inp in
      if bs = [] \<or> length bs mod 2 \<noteq> 0 then Inl ParseError
      else rmapM (\<lambda>pair. rbind (hex_nibble (pair ! 0)) (\<lambda>high.
             rbind (hex_nibble (pair ! 1)) (\<lambda>low. Inr (push_bit 4 high OR low)))) (chunks_exact 2 bs))"

definition is_dummy_bytes :: "bytes \<Rightarrow> bool" where
  "is_dummy_bytes v \<longleftrightarrow> list_all (\<lambda>b. b = 0) v \<or> list_all (\<lambda>b. b = 0xff) v"

definition reject_dummy_bytes :: "bytes \<Rightarrow> unit krn_result" where
  "reject_dummy_bytes v = (if is_dummy_bytes v then Inl InvalidProfile else Inr ())"

definition MAX_CAPK_RSA_MODULUS_BYTES :: nat where "MAX_CAPK_RSA_MODULUS_BYTES = 256"
definition MAX_CAPK_RSA_EXPONENT_BYTES :: nat where "MAX_CAPK_RSA_EXPONENT_BYTES = 3"

definition validate_capk_public_key_components :: "bytes \<Rightarrow> bytes \<Rightarrow> unit krn_result" where
  "validate_capk_public_key_components modulus exponent =
     (if length modulus < 64 \<or> length modulus > MAX_CAPK_RSA_MODULUS_BYTES \<or> modulus ! 0 = 0 \<or>
         is_dummy_bytes modulus then Inl InvalidProfile
      else if exponent = [] \<or> length exponent > MAX_CAPK_RSA_EXPONENT_BYTES \<or> exponent ! 0 = 0 \<or>
         is_dummy_bytes exponent then Inl InvalidProfile
      else let v = foldl (\<lambda>v b. push_bit 8 v OR ucast b) (0 :: u32) exponent in
        if v < 3 \<or> v mod 2 = 0 then Inl InvalidProfile else Inr ())"

definition decimal_pair :: "byte \<Rightarrow> byte \<Rightarrow> byte krn_result" where
  "decimal_pair high low =
     (if \<not> (0x30 \<le> high \<and> high \<le> 0x39) \<or> \<not> (0x30 \<le> low \<and> low \<le> 0x39) then Inl ParseError
      else Inr ((high - 0x30) * 10 + low - 0x30))"

definition parse_iso_date :: "string \<Rightarrow> emv_date krn_result" where
  "parse_iso_date inp =
     (let bs = ascii inp in
      if length bs \<noteq> 10 \<or> bs ! 0 \<noteq> 0x32 \<or> bs ! 1 \<noteq> 0x30 \<or> bs ! 4 \<noteq> 0x2d \<or> bs ! 7 \<noteq> 0x2d
      then Inl ParseError
      else rbind (decimal_pair (bs ! 2) (bs ! 3)) (\<lambda>year.
           rbind (decimal_pair (bs ! 5) (bs ! 6)) (\<lambda>month.
           rbind (decimal_pair (bs ! 8) (bs ! 9)) (\<lambda>day. date_new year month day))))"

definition capk_checksum_components :: "arr5 \<Rightarrow> byte \<Rightarrow> bytes \<Rightarrow> bytes \<Rightarrow> bytes" where
  "capk_checksum_components rid key_index modulus exponent =
     sha1_finalize (sha1_update (sha1_update (sha1_update (sha1_update sha1_new (list5 rid))
       [key_index]) modulus) exponent)"

text \<open>The checksum is the hash of the concatenation.\<close>

lemma capk_checksum_components_eq:
  "capk_checksum_components rid key_index modulus exponent =
     fips_sha1 (list5 rid @ [key_index] @ modulus @ exponent)"
  using sha1.fin_foldl [of "[list5 rid, [key_index], modulus, exponent]"]
  by (simp add: capk_checksum_components_def)

end
