(* ===== verification/Emv_Tlv.thy ===== *)
theory Emv_Tlv
  imports Emv_Error
begin

text \<open>
  The BER-TLV parser (\<open>src/src/tlv.rs\<close>): the bounded tag and length readers, the recursive
  descent \<open>parse_sequence\<close> with its depth, node and length limits, the searches over a parsed
  forest, and the tag-list parser of static data authentication.  The second half states what
  the parser recognises: a forest of well-formed data objects, in its one canonical encoding.
\<close>

unbundle bit_operations_syntax

definition MAX_TLV_DEPTH :: nat where "MAX_TLV_DEPTH = 8"
definition MAX_TLV_NODES :: nat where "MAX_TLV_NODES = 512"
definition MAX_TLV_VALUE_LENGTH :: nat where "MAX_TLV_VALUE_LENGTH = 4096"

datatype tlv =
  Tlv (tlv_tag: bytes) (tlv_value: bytes) (tlv_constructed: bool) (tlv_children: "tlv list")

record flat_tlv =
  flat_tag :: bytes
  flat_value :: bytes
  flat_constructed :: bool

section \<open>Tag and length readers\<close>

text \<open>The readers take the input and an offset and return the offset after what they read.\<close>

function read_tag_continuation :: "bytes \<Rightarrow> nat \<Rightarrow> nat \<Rightarrow> nat krn_result" where
  "read_tag_continuation input offset count =
     (if length input \<le> offset then Inl ParseError
      else let byte = input ! offset; offset' = offset + 1; count' = count + 1 in
        if count' = 1 \<and> byte AND 0x7f = 0 then Inl ParseError
        else if count' > 3 then Inl ParseError
        else if byte AND 0x80 = 0 then Inr offset'
        else read_tag_continuation input offset' count')"
  by pat_completeness auto
termination
  by (relation "measure (\<lambda>(input, offset, count). length input - offset)") auto

declare read_tag_continuation.simps [simp del]

definition read_tag :: "bytes \<Rightarrow> nat \<Rightarrow> (bool \<times> nat) krn_result" where
  "read_tag input offset =
     rbind (ok_or (get_at input offset) ParseError) (\<lambda>first.
       if first = 0x00 \<or> first = 0xff then Inl ParseError
       else let constructed = (first AND 0x20 \<noteq> 0) in
         if first AND 0x1f = 0x1f
         then rmap (\<lambda>offset'. (constructed, offset')) (read_tag_continuation input (offset + 1) 0)
         else Inr (constructed, offset + 1))"

text \<open>The loop over the length octets: \<open>length = (length << 8) | byte\<close>.\<close>

fun read_length_octets :: "bytes \<Rightarrow> nat \<Rightarrow> nat \<Rightarrow> nat \<Rightarrow> (nat \<times> nat) krn_result" where
  "read_length_octets input offset 0 len = Inr (len, offset)"
| "read_length_octets input offset (Suc octets) len =
     rbind (ok_or (get_at input offset) ParseError) (\<lambda>byte.
       read_length_octets input (offset + 1) octets (push_bit 8 len OR unat byte))"

definition read_length :: "bytes \<Rightarrow> nat \<Rightarrow> (nat \<times> nat) krn_result" where
  "read_length input offset =
     rbind (ok_or (get_at input offset) ParseError) (\<lambda>first.
       if first AND 0x80 = 0 then Inr (unat first, offset + 1)
       else let octets = unat (first AND 0x7f) in
         if octets = 0 \<or> octets > 3 then Inl ParseError
         else rbind (read_length_octets input (offset + 1) octets 0) (\<lambda>(len, offset').
           if len < 0x80 \<or> (len \<le> 0xff \<and> octets > 1) \<or> (len \<le> 0xffff \<and> octets > 2)
           then Inl ParseError
           else if len > MAX_TLV_VALUE_LENGTH then Inl LengthOverflow
           else Inr (len, offset')))"

text \<open>
  The tags the readers accept, as a predicate on the tag's bytes: a first byte other than
  \<open>00\<close> and \<open>ff\<close>, and, when its low five bits are all set, one to three continuation bytes of
  which all but the last carry bit 8 and the first is not an empty group.
\<close>

fun tag_continuation_ok :: "nat \<Rightarrow> bytes \<Rightarrow> bool" where
  "tag_continuation_ok k [] = False"
| "tag_continuation_ok k (b # bs) =
     (\<not> (k = 0 \<and> b AND 0x7f = 0) \<and> k < 3 \<and>
      (if b AND 0x80 = 0 then bs = [] else tag_continuation_ok (Suc k) bs))"

fun valid_tag :: "bytes \<Rightarrow> bool" where
  "valid_tag [] = False"
| "valid_tag (b # bs) =
     (b \<noteq> 0x00 \<and> b \<noteq> 0xff \<and>
      (if b AND 0x1f = 0x1f then tag_continuation_ok 0 bs else bs = []))"

definition constructed_tag :: "bytes \<Rightarrow> bool" where
  "constructed_tag tag \<longleftrightarrow> hd tag AND 0x20 \<noteq> 0"

lemma tag_continuation_ok_length: "tag_continuation_ok k bs \<Longrightarrow> bs \<noteq> [] \<and> k + length bs \<le> 3"
  by (induction k bs rule: tag_continuation_ok.induct) (auto split: if_splits)

lemma valid_tag_length: "valid_tag t \<Longrightarrow> 0 < length t \<and> length t \<le> 4"
  by (cases t) (auto split: if_splits dest: tag_continuation_ok_length)

lemma read_tag_continuation_iff:
  "read_tag_continuation input offset k = Inr offset' \<longleftrightarrow>
     offset \<le> offset' \<and> offset' \<le> length input \<and> tag_continuation_ok k (slice_of input offset offset')"
proof (induction input offset k rule: read_tag_continuation.induct)
  case (1 input offset k)
  show ?case
  proof (cases "offset < length input")
    case False
    then show ?thesis
      by (subst read_tag_continuation.simps) (auto simp: slice_of_def)
  next
    case True
    show ?thesis
    proof (cases "offset < offset'")
      case False
      with 1 True show ?thesis
        by (subst read_tag_continuation.simps) (auto simp: Let_def)
    next
      case lt: True
      have empty: "slice_of input (Suc offset) offset' = [] \<longleftrightarrow> offset' = Suc offset"
        if "offset' \<le> length input" using lt that by (auto simp: slice_of_def)
      from 1 True lt show ?thesis
        by (auto simp: read_tag_continuation.simps [of input offset k] Let_def slice_Suc empty)
    qed
  qed
qed

lemma read_tag_iff:
  "read_tag input offset = Inr (c, offset') \<longleftrightarrow>
     offset \<le> offset' \<and> offset' \<le> length input \<and> valid_tag (slice_of input offset offset') \<and>
     c = constructed_tag (slice_of input offset offset')"
proof (cases "offset < length input \<and> offset < offset'")
  case False
  then show ?thesis
    by (cases "offset = offset'")
       (auto simp: read_tag_def krn_simps read_tag_continuation_iff Let_def slice_of_def split: if_splits)
next
  case True
  then have "slice_of input (Suc offset) offset' = [] \<longleftrightarrow> offset' = Suc offset"
    if "offset' \<le> length input" using that by (auto simp: slice_of_def)
  with True show ?thesis
    by (auto simp: read_tag_def krn_simps read_tag_continuation_iff Let_def slice_Suc constructed_tag_def)
qed

lemma read_tag_progress: "read_tag input offset = Inr (c, offset') \<Longrightarrow> offset < offset' \<and> offset' \<le> length input"
  by (cases "offset = offset'") (auto simp: read_tag_iff)

text \<open>The one accepted encoding of a length: as few octets as the value needs.\<close>

definition canonical_length :: "nat \<Rightarrow> bytes" where
  "canonical_length n =
     (if n < 0x80 then [word_of_nat n]
      else if n \<le> 0xff then [0x81, word_of_nat n]
      else [0x82, word_of_nat (n div 256), word_of_nat (n mod 256)])"

lemma length_canonical_length: "0 < length (canonical_length n)"
  by (simp add: canonical_length_def)

lemma read_length_octets_eq:
  "read_length_octets input offset k len =
     (if offset + k \<le> length input
      then Inr (len * 256 ^ k + be_value (slice_of input offset (offset + k)), offset + k)
      else Inl ParseError)"
  if "offset \<le> length input"
  using that
proof (induction k arbitrary: offset len)
  case (Suc k)
  show ?case
  proof (cases "offset < length input")
    case True
    then have "slice_of input offset (offset + Suc k) =
        input ! offset # slice_of input (Suc offset) (Suc offset + k)"
      by (simp add: slice_Suc)
    moreover have "offset + Suc k \<le> length input \<Longrightarrow>
        length (slice_of input (Suc offset) (Suc offset + k)) = k" by simp
    ultimately show ?thesis
      using True Suc.IH [of "Suc offset" "push_bit 8 len OR unat (input ! offset)"]
      by (simp add: push_8_or_nat algebra_simps get_at_def)
  qed (use Suc.prems in \<open>simp add: get_at_def\<close>)
qed simp

lemma first_length_octet:
  assumes "(b :: byte) AND 0x80 \<noteq> 0" and "unat (b AND 0x7f) = k"
  shows "b = word_of_nat (128 + k)"
proof -
  have ge: "128 \<le> unat b" using assms(1) by (simp add: byte_and_80)
  moreover have "unat b - 128 < 128" using unat_byte_less [of b] by linarith
  ultimately have "unat b mod 128 = unat b - 128" by (simp add: le_mod_geq)
  with ge assms(2) have "unat b = 128 + k" by (simp add: byte_and_7f)
  then show ?thesis by (metis byte_of_nat_unat)
qed

lemma read_length_sound:
  assumes "read_length input offset = Inr (n, offset')"
  shows "offset < offset' \<and> offset' \<le> length input \<and> n \<le> 4096 \<and>
    slice_of input offset offset' = canonical_length n"
proof -
  let ?b = "input ! offset"
  have lt: "offset < length input" using assms by (auto simp: read_length_def krn_simps)
  show ?thesis
  proof (cases "?b AND 0x80 = 0")
    case True
    with assms lt have "n = unat ?b" "offset' = offset + 1"
      by (auto simp: read_length_def get_at_def)
    with lt True show ?thesis by (simp add: slice_Suc canonical_length_def byte_simps)
  next
    case False
    define k where "k = unat (?b AND 0x7f)"
    from assms lt False have
      k: "k \<noteq> 0" "k \<le> 3" and
      o: "read_length_octets input (offset + 1) k 0 = Inr (n, offset')" and
      n: "\<not> n < 0x80" "\<not> (n \<le> 0xff \<and> k > 1)" "\<not> (n \<le> 0xffff \<and> k > 2)" "n \<le> 4096"
      by (auto simp: read_length_def Let_def get_at_def krn_simps k_def MAX_TLV_VALUE_LENGTH_def
          split: if_splits)
    from o lt have off: "offset' = offset + 1 + k" "offset' \<le> length input" and
      nv: "n = be_value (slice_of input (Suc offset) (Suc offset + k))"
      by (auto simp: read_length_octets_eq split: if_splits)
    from k n have k12: "k = 1 \<or> k = 2" by auto
    have b: "?b = word_of_nat (128 + k)" using first_length_octet [OF False] by (simp add: k_def)
    have s: "slice_of input offset offset' = ?b # slice_of input (Suc offset) (Suc offset + k)"
      using lt off by (simp add: slice_Suc)
    show ?thesis
    proof (cases "k = 1")
      case True
      then have "slice_of input (Suc offset) (Suc offset + k) = [input ! Suc offset]"
        using off by (simp add: slice_Suc)
      moreover have "unat (input ! Suc offset) \<le> 255" using unat_byte_less [of "input ! Suc offset"] by linarith
      ultimately show ?thesis using n nv b s off lt True by (simp add: canonical_length_def)
    next
      case False
      with k12 have k2: "k = 2" by simp
      then have v: "slice_of input (Suc offset) (Suc offset + k) =
          [input ! Suc offset, input ! Suc (Suc offset)]"
        using off by (simp add: slice_Suc)
      with nv have nn: "n = 256 * unat (input ! Suc offset) + unat (input ! Suc (Suc offset))"
        by simp
      have "n div 256 = unat (input ! Suc offset)" "n mod 256 = unat (input ! Suc (Suc offset))"
        using unat_byte_less [of "input ! Suc (Suc offset)"] by (simp_all add: nn)
      with n v b s off lt k2 show ?thesis by (simp add: canonical_length_def)
    qed
  qed
qed

lemma read_length_complete:
  assumes "offset \<le> offset'" "offset' \<le> length input" "n \<le> 4096"
    and s: "slice_of input offset offset' = canonical_length n"
  shows "read_length input offset = Inr (n, offset')"
proof -
  have lt: "offset < offset'"
    using s length_canonical_length [of n] assms(1) by (cases "offset = offset'") auto
  with assms(2) have li: "offset < length input" by simp
  have hd_tl: "input ! offset # slice_of input (Suc offset) offset' = canonical_length n"
    using s lt li by (simp add: slice_Suc)
  consider (short) "n < 0x80" | (one) "0x80 \<le> n" "n \<le> 0xff" | (two) "0xff < n" by linarith
  then show ?thesis
  proof cases
    case short
    with hd_tl have "input ! offset = word_of_nat n" "slice_of input (Suc offset) offset' = []"
      by (simp_all add: canonical_length_def)
    moreover from this(2) have "offset' = Suc offset" using lt assms(2) by (auto simp: slice_of_def)
    ultimately show ?thesis using short li
      by (simp add: read_length_def get_at_def byte_simps unat_of_nat_byte)
  next
    case one
    with hd_tl have b: "input ! offset = 0x81" and v: "slice_of input (Suc offset) offset' = [word_of_nat n]"
      by (simp_all add: canonical_length_def)
    from v have "offset' = Suc offset + 1"
      using lt assms(2) length_slice_of [of "Suc offset" offset' input] by simp
    moreover from this v assms(2) have "input ! Suc offset = word_of_nat n" by (simp add: slice_Suc)
    ultimately show ?thesis using one b v li assms(2)
      by (simp add: read_length_def get_at_def read_length_octets_eq unat_of_nat_byte
          MAX_TLV_VALUE_LENGTH_def)
  next
    case two
    with hd_tl have b: "input ! offset = 0x82"
      and v: "slice_of input (Suc offset) offset' = [word_of_nat (n div 256), word_of_nat (n mod 256)]"
      by (simp_all add: canonical_length_def)
    from v have "offset' = Suc offset + 2"
      using lt assms(2) length_slice_of [of "Suc offset" offset' input] by simp
    moreover have "n div 256 < 256" using assms(3) by simp
    ultimately show ?thesis using two b v li assms(2,3)
      by (simp add: read_length_def get_at_def read_length_octets_eq unat_of_nat_byte
          MAX_TLV_VALUE_LENGTH_def)
  qed
qed

section \<open>The recursive descent\<close>

lemma read_header_progress:
  "read_tag input offset = Inr (c, tag_end) \<Longrightarrow> read_length input tag_end = Inr (len, value_start) \<Longrightarrow>
     offset < tag_end \<and> tag_end < value_start"
  by (auto dest!: read_tag_progress read_length_sound)

text \<open>
  \<open>parse_sequence\<close> checks the depth and runs the loop \<open>parse_items\<close> over its input; the loop
  counts nodes across the whole document and descends into the value of a constructed object.
  The offset after a complete sequence is always the end of the input, so only the node count
  is handed back.
\<close>

function parse_sequence :: "bytes \<Rightarrow> nat \<Rightarrow> nat \<Rightarrow> nat \<Rightarrow> (tlv list \<times> nat) krn_result"
  and parse_items :: "bytes \<Rightarrow> nat \<Rightarrow> nat \<Rightarrow> nat \<Rightarrow> (tlv list \<times> nat) krn_result" where
  "parse_sequence input offset depth nodes =
     (if depth > MAX_TLV_DEPTH then Inl ParseError else parse_items input offset depth nodes)"
| "parse_items input offset depth nodes =
     (if length input \<le> offset then Inr ([], nodes)
      else if nodes \<ge> MAX_TLV_NODES then Inl LengthOverflow
      else rbind (read_tag input offset) (\<lambda>(constructed, tag_end).
        rbind (read_length input tag_end) (\<lambda>(len, value_start).
          let value_end = value_start + len in
          if value_end \<ge> 2 ^ 64 \<or> value_end > length input then Inl LengthOverflow
          else let value = slice_of input value_start value_end in
            rbind (if constructed then parse_sequence value 0 (depth + 1) (nodes + 1)
                   else Inr ([], nodes + 1)) (\<lambda>(children, nodes').
              rbind (parse_items input value_end depth nodes') (\<lambda>(rest, nodes'').
                Inr (Tlv (slice_of input offset tag_end) value constructed children # rest,
                     nodes''))))))"
  by pat_completeness auto

termination
proof (relation "measure (\<lambda>x. case x of
    Inl (input, offset, _) \<Rightarrow> 2 * (length input - offset) + 1
  | Inr (input, offset, _) \<Rightarrow> 2 * (length input - offset))", goal_cases)
  case (3 input offset depth nodes c hdr tag_end len value_start)
  then show ?case using read_header_progress [of input offset] by fastforce
next
  case (4 input offset depth nodes)
  then show ?case using read_header_progress [of input offset] by fastforce
qed simp_all

declare parse_sequence.simps [simp del] parse_items.simps [simp del]

definition parse_many :: "bytes \<Rightarrow> tlv list krn_result" where
  "parse_many input = rmap fst (parse_sequence input 0 0 0)"

section \<open>Searches over a parsed forest\<close>

text \<open>\<open>flatten\<close> lists the nodes in document order.\<close>

fun tlv_walk :: "tlv \<Rightarrow> flat_tlv list" where
  "tlv_walk (Tlv tag value constructed children) =
     \<lparr>flat_tag = tag, flat_value = value, flat_constructed = constructed\<rparr>
       # concat (map tlv_walk children)"

definition tlv_flatten :: "tlv list \<Rightarrow> flat_tlv list" where
  "tlv_flatten tlvs = concat (map tlv_walk tlvs)"

fun find_first :: "tlv list \<Rightarrow> bytes \<Rightarrow> bytes option" where
  "find_first [] tag = None"
| "find_first (Tlv t value constructed children # tlvs) tag =
     (if t = tag then Some value
      else case find_first children tag of
        Some found \<Rightarrow> Some found
      | None \<Rightarrow> find_first tlvs tag)"

text \<open>Exactly one direct child may carry the tag; a second one is an error.\<close>

definition find_unique_direct :: "tlv list \<Rightarrow> bytes \<Rightarrow> bytes option krn_result" where
  "find_unique_direct tlvs tag =
     rfold (\<lambda>found t.
       if tlv_tag t = tag
       then (if found \<noteq> None then Inl ParseError else Inr (Some (tlv_value t)))
       else Inr found) None tlvs"

function unique_tag_list_loop :: "bytes \<Rightarrow> nat \<Rightarrow> nat \<Rightarrow> bytes list \<Rightarrow> bytes list krn_result" where
  "unique_tag_list_loop input max_tags offset tags =
     (if length input \<le> offset then Inr tags
      else if length tags \<ge> max_tags then Inl LengthOverflow
      else rbind (read_tag input offset) (\<lambda>(constructed, offset').
        let tag = slice_of input offset offset' in
        if constructed \<or> tag \<in> set tags then Inl ParseError
        else unique_tag_list_loop input max_tags offset' (tags @ [tag])))"
  by pat_completeness auto
termination
  by (relation "measure (\<lambda>(input, max_tags, offset, tags). length input - offset)")
     (auto dest!: read_tag_progress)

declare unique_tag_list_loop.simps [simp del]

definition parse_unique_primitive_tag_list :: "bytes \<Rightarrow> nat \<Rightarrow> bytes list krn_result" where
  "parse_unique_primitive_tag_list input max_tags =
     (if input = [] \<or> max_tags = 0 then Inl ParseError
      else unique_tag_list_loop input max_tags 0 [])"

section \<open>What the parser recognises\<close>

text \<open>
  The canonical encoding of a data object and of a forest, the number of nodes of a forest,
  and well-formedness at a depth: an accepted tag, a value within the limit, the constructed
  bit of the tag, and, for a constructed object, a value that is the encoding of its children,
  which sit one level deeper and not beyond level 8.
\<close>

definition encode_tlv :: "tlv \<Rightarrow> bytes" where
  "encode_tlv t = tlv_tag t @ canonical_length (length (tlv_value t)) @ tlv_value t"

definition encode_forest :: "tlv list \<Rightarrow> bytes" where
  "encode_forest ts = concat (map encode_tlv ts)"

fun tlv_nodes :: "tlv \<Rightarrow> nat" where
  "tlv_nodes (Tlv tag value constructed children) = Suc (sum_list (map tlv_nodes children))"

definition forest_nodes :: "tlv list \<Rightarrow> nat" where
  "forest_nodes ts = sum_list (map tlv_nodes ts)"

fun wf_tlv :: "nat \<Rightarrow> tlv \<Rightarrow> bool" where
  "wf_tlv d (Tlv tag value constructed children) \<longleftrightarrow>
     valid_tag tag \<and> length value \<le> 4096 \<and> constructed = constructed_tag tag \<and>
     (if constructed
      then d < 8 \<and> value = encode_forest children \<and> list_all (wf_tlv (Suc d)) children
      else children = [])"

definition wf_forest :: "nat \<Rightarrow> tlv list \<Rightarrow> bool" where
  "wf_forest d ts \<longleftrightarrow> list_all (wf_tlv d) ts"

lemma encode_forest_Nil [simp]: "encode_forest [] = []"
  and encode_forest_Cons: "encode_forest (t # ts) = encode_tlv t @ encode_forest ts"
  by (simp_all add: encode_forest_def)

lemma forest_nodes_Nil [simp]: "forest_nodes [] = 0"
  and forest_nodes_Cons [simp]:
    "forest_nodes (Tlv tag value c cs # ts) = Suc (forest_nodes cs) + forest_nodes ts"
  by (simp_all add: forest_nodes_def)

lemma wf_forest_Nil [simp]: "wf_forest d []"
  and wf_forest_Cons [simp]: "wf_forest d (t # ts) \<longleftrightarrow> wf_tlv d t \<and> wf_forest d ts"
  by (simp_all add: wf_forest_def)

lemma wf_tlv_iff:
  "wf_tlv d (Tlv tag value c cs) \<longleftrightarrow>
     valid_tag tag \<and> length value \<le> 4096 \<and> c = constructed_tag tag \<and>
     (if c then d < 8 \<and> value = encode_forest cs \<and> wf_forest (Suc d) cs else cs = [])"
  by (simp add: wf_forest_def)

declare wf_tlv.simps [simp del]

text \<open>Soundness: what the parser returns is well formed and re-encodes to the input.\<close>

lemma parse_sound_aux:
  "parse_sequence input offset depth nodes = Inr (ts, nodes') \<Longrightarrow> offset \<le> length input \<Longrightarrow>
     nodes \<le> 512 \<Longrightarrow> depth \<le> 8 \<and>
     drop offset input = encode_forest ts \<and> wf_forest depth ts \<and>
     nodes' = nodes + forest_nodes ts \<and> nodes' \<le> 512"
  "parse_items input offset depth nodes = Inr (ts, nodes') \<Longrightarrow> offset \<le> length input \<Longrightarrow>
     nodes \<le> 512 \<Longrightarrow>
     drop offset input = encode_forest ts \<and> wf_forest depth ts \<and>
     nodes' = nodes + forest_nodes ts \<and> nodes' \<le> 512"
proof (induction input offset depth nodes and input offset depth nodes arbitrary: ts nodes' and ts nodes'
    rule: parse_sequence_parse_items.induct)
  case (1 input offset depth nodes)
  then show ?case
    by (auto simp: parse_sequence.simps [of input] MAX_TLV_DEPTH_def split: if_splits)
next
  case (2 input offset depth nodes)
  show ?case
  proof (cases "length input \<le> offset")
    case True
    with "2.prems" show ?thesis by (simp add: parse_items.simps [of input])
  next
    case False
    let ?parse = "parse_items input offset depth nodes"
    from "2.prems"(1) False obtain c tag_end len value_start cs n1 rest n2 where
      n512: "\<not> nodes \<ge> MAX_TLV_NODES" and
      tag: "read_tag input offset = Inr (c, tag_end)" and
      len: "read_length input tag_end = Inr (len, value_start)" and
      fits: "\<not> (value_start + len \<ge> 2 ^ 64 \<or> value_start + len > length input)" and
      cs: "(if c then parse_sequence (slice_of input value_start (value_start + len)) 0 (depth + 1) (nodes + 1)
            else Inr ([], nodes + 1)) = Inr (cs, n1)" and
      rest: "parse_items input (value_start + len) depth n1 = Inr (rest, n2)" and
      res: "ts = Tlv (slice_of input offset tag_end) (slice_of input value_start (value_start + len)) c cs # rest"
        "nodes' = n2"
      by (subst (asm) parse_items.simps) (auto simp: krn_simps Let_def split: if_splits prod.splits)
    let ?val = "slice_of input value_start (value_start + len)"
    have t: "offset \<le> tag_end" "tag_end \<le> length input" "valid_tag (slice_of input offset tag_end)"
      "c = constructed_tag (slice_of input offset tag_end)"
      using tag by (simp_all add: read_tag_iff)
    have l: "tag_end < value_start" "len \<le> 4096" "slice_of input tag_end value_start = canonical_length len"
      using read_length_sound [OF len] by simp_all
    have vl: "length ?val = len" using fits by simp
    have n1: "nodes + 1 \<le> 512" using n512 by (simp add: MAX_TLV_NODES_def)
    have children: "n1 = nodes + 1 + forest_nodes cs \<and> n1 \<le> 512 \<and>
        (if c then depth < 8 \<and> ?val = encode_forest cs \<and> wf_forest (Suc depth) cs else cs = [])"
    proof (cases c)
      case True
      with cs have "parse_sequence ?val 0 (depth + 1) (nodes + 1) = Inr (cs, n1)" by simp
      from "2.IH"(1) [OF False n512 tag _ len refl refl fits refl True this] n1 True
      show ?thesis by simp
    next
      case False
      with cs n1 show ?thesis by auto
    qed
    have tail: "drop (value_start + len) input = encode_forest rest \<and> wf_forest depth rest \<and>
        n2 = n1 + forest_nodes rest \<and> n2 \<le> 512"
      using "2.IH"(2) [OF False n512 tag _ len refl refl fits refl cs refl rest] fits children
      by simp
    have "drop offset input = slice_of input offset tag_end @ slice_of input tag_end value_start @ ?val
        @ drop (value_start + len) input"
      using t(1) l(1) by (simp add: slice_append_drop)
    with t l vl children tail show ?thesis
      by (simp add: res encode_forest_Cons encode_tlv_def wf_tlv_iff)
  qed
qed

text \<open>Completeness: every well-formed forest within the limits is accepted in its encoding.\<close>

lemma valid_tag_ne: "valid_tag tag \<Longrightarrow> tag \<noteq> []"
  by (cases tag) auto

lemma slice_of_drop_append:
  "drop i input = xs @ ys \<Longrightarrow> i \<le> length input \<Longrightarrow>
     slice_of input i (i + length xs) = xs \<and> i + length xs \<le> length input \<and>
     drop (i + length xs) input = ys"
proof -
  assume d: "drop i input = xs @ ys" and i: "i \<le> length input"
  from arg_cong [OF d, of length] i have "i + length xs \<le> length input" by simp
  moreover have "drop (i + length xs) input = ys"
    using arg_cong [OF d, of "drop (length xs)"] by (simp add: add.commute)
  ultimately show ?thesis using d by (simp add: slice_of_def)
qed

lemma parse_complete_aux:
  "offset \<le> length input \<Longrightarrow> length input < 2 ^ 64 \<Longrightarrow> depth \<le> 8 \<Longrightarrow>
     drop offset input = encode_forest ts \<Longrightarrow> wf_forest depth ts \<Longrightarrow>
     nodes + forest_nodes ts \<le> 512 \<Longrightarrow>
     parse_sequence input offset depth nodes = Inr (ts, nodes + forest_nodes ts)"
  "offset \<le> length input \<Longrightarrow> length input < 2 ^ 64 \<Longrightarrow> depth \<le> 8 \<Longrightarrow>
     drop offset input = encode_forest ts \<Longrightarrow> wf_forest depth ts \<Longrightarrow>
     nodes + forest_nodes ts \<le> 512 \<Longrightarrow>
     parse_items input offset depth nodes = Inr (ts, nodes + forest_nodes ts)"
proof (induction input offset depth nodes and input offset depth nodes arbitrary: ts and ts
    rule: parse_sequence_parse_items.induct)
  case (1 input offset depth nodes)
  then show ?case by (simp add: parse_sequence.simps [of input] MAX_TLV_DEPTH_def)
next
  case (2 input offset depth nodes)
  show ?case
  proof (cases ts)
    case Nil
    with "2.prems" show ?thesis by (simp add: parse_items.simps [of input])
  next
    case (Cons t rest)
    obtain tag v c cs where t: "t = Tlv tag v c cs" by (cases t)
    let ?L = "canonical_length (length v)"
    from "2.prems" Cons t have
      wf: "valid_tag tag" "length v \<le> 4096" "c = constructed_tag tag" "wf_forest depth rest" and
      ch: "if c then depth < 8 \<and> v = encode_forest cs \<and> wf_forest (Suc depth) cs else cs = []" and
      d0: "drop offset input = tag @ ?L @ v @ encode_forest rest" and
      cnt: "nodes + Suc (forest_nodes cs) + forest_nodes rest \<le> 512"
      by (simp_all add: wf_tlv_iff encode_forest_Cons encode_tlv_def)
    define tag_end where "tag_end = offset + length tag"
    define value_start where "value_start = tag_end + length ?L"
    define value_end where "value_end = value_start + length v"
    have s1: "slice_of input offset tag_end = tag" "tag_end \<le> length input"
      "drop tag_end input = ?L @ v @ encode_forest rest"
      using slice_of_drop_append [OF d0 "2.prems"(1)] by (simp_all add: tag_end_def)
    have s2: "slice_of input tag_end value_start = ?L" "value_start \<le> length input"
      "drop value_start input = v @ encode_forest rest"
      using slice_of_drop_append [OF s1(3,2)] by (simp_all add: value_start_def)
    have s3: "slice_of input value_start value_end = v" "value_end \<le> length input"
      "drop value_end input = encode_forest rest"
      using slice_of_drop_append [OF s2(3,2)] by (simp_all add: value_end_def)
    have tag: "read_tag input offset = Inr (c, tag_end)"
      using wf s1 by (simp add: read_tag_iff tag_end_def)
    have len: "read_length input tag_end = Inr (length v, value_start)"
      using wf s2 by (intro read_length_complete) (simp_all add: value_start_def)
    have fits: "\<not> (value_end \<ge> 2 ^ 64 \<or> value_end > length input)"
      using s3(2) "2.prems"(2) by simp
    have lt: "\<not> length input \<le> offset"
      using valid_tag_ne [OF wf(1)] s1(2) by (simp add: tag_end_def flip: length_greater_0_conv)
    have n512: "\<not> nodes \<ge> MAX_TLV_NODES" using cnt by (simp add: MAX_TLV_NODES_def)
    define n1 where "n1 = nodes + 1 + forest_nodes cs"
    have cs: "(if c then parse_sequence v 0 (depth + 1) (nodes + 1) else Inr ([], nodes + 1))
        = Inr (cs, n1)"
    proof (cases c)
      case True
      have "length v < 2 ^ 64" using wf(2) by simp
      from "2.IH"(1) [OF lt n512 tag _ len refl value_end_def fits s3(1) [symmetric] True _ this, of cs]
        True ch cnt show ?thesis by (simp add: n1_def)
    qed (use ch in \<open>simp add: n1_def\<close>)
    have rest: "parse_items input value_end depth n1 = Inr (rest, n1 + forest_nodes rest)"
      by (rule "2.IH"(2) [OF lt n512 tag _ len refl value_end_def fits s3(1) [symmetric] _ refl])
         (use cs s3 "2.prems" wf cnt in \<open>simp_all add: n1_def\<close>)
    show ?thesis
      using lt n512 tag len fits cs rest s1(1) s3(1)
      by (subst parse_items.simps) (simp add: Let_def value_end_def [symmetric] Cons t n1_def)
  qed
qed

lemma length_canonical_length_le: "length (canonical_length n) \<le> 3"
  by (simp add: canonical_length_def)

lemma wf_forest_encode_length: "wf_forest d ts \<Longrightarrow> length (encode_forest ts) \<le> 4103 * forest_nodes ts"
proof (induction ts)
  case (Cons t ts)
  obtain tag v c cs where t: "t = Tlv tag v c cs" by (cases t)
  have "length tag \<le> 4" "length v \<le> 4096"
    using Cons.prems by (auto simp: t wf_tlv_iff dest: valid_tag_length)
  then have "length (encode_tlv t) \<le> 4103"
    using length_canonical_length_le [of "length v"] by (simp add: t encode_tlv_def)
  with Cons show ?case by (simp add: t encode_forest_Cons)
qed simp

lemma parse_many_eq_Inr:
  "parse_many input = Inr ts \<longleftrightarrow>
     wf_forest 0 ts \<and> forest_nodes ts \<le> 512 \<and> input = encode_forest ts"
proof
  assume "parse_many input = Inr ts"
  then obtain n where "parse_sequence input 0 0 0 = Inr (ts, n)"
    by (auto simp: parse_many_def krn_simps)
  from parse_sound_aux(1) [OF this]
  show "wf_forest 0 ts \<and> forest_nodes ts \<le> 512 \<and> input = encode_forest ts" by simp
next
  assume r: "wf_forest 0 ts \<and> forest_nodes ts \<le> 512 \<and> input = encode_forest ts"
  then have "length input < 2 ^ 64" using wf_forest_encode_length [of 0 ts] by simp
  with r have "parse_sequence input 0 0 0 = Inr (ts, 0 + forest_nodes ts)"
    by (intro parse_complete_aux) simp_all
  then show "parse_many input = Inr ts" by (simp add: parse_many_def)
qed

text \<open>
  The readings of one object on its own: what the callers that expect exactly one template
  rely on.
\<close>

lemma parse_many_single:
  "valid_tag tag \<Longrightarrow> \<not> constructed_tag tag \<Longrightarrow> length v \<le> 4096 \<Longrightarrow>
     parse_many (tag @ canonical_length (length v) @ v) = Inr [Tlv tag v False []]"
  by (simp add: parse_many_eq_Inr encode_forest_Cons encode_tlv_def wf_tlv_iff)

lemma find_unique_direct_aux:
  "rfold (\<lambda>found t.
       if tlv_tag t = tag
       then (if found \<noteq> None then Inl ParseError else Inr (Some (tlv_value t)))
       else Inr found) found tlvs =
     (case filter (\<lambda>t. tlv_tag t = tag) tlvs of
        [] \<Rightarrow> Inr found
      | t # ts \<Rightarrow> if ts = [] \<and> found = None then Inr (Some (tlv_value t)) else Inl ParseError)"
proof (induction tlvs arbitrary: found)
  case (Cons t tlvs)
  then show ?case by (cases found) (auto split: list.splits)
qed simp

lemma find_unique_direct_eq:
  "find_unique_direct tlvs tag =
     (case filter (\<lambda>t. tlv_tag t = tag) tlvs of
        [] \<Rightarrow> Inr None
      | [t] \<Rightarrow> Inr (Some (tlv_value t))
      | _ \<Rightarrow> Inl ParseError)"
  unfolding find_unique_direct_def find_unique_direct_aux by (auto split: list.splits)

lemma find_unique_direct_Some_mem:
  "find_unique_direct tlvs tag = Inr (Some v) \<Longrightarrow> \<exists>t\<in>set tlvs. tlv_tag t = tag \<and> tlv_value t = v"
proof -
  assume a: "find_unique_direct tlvs tag = Inr (Some v)"
  then obtain t where t: "filter (\<lambda>t. tlv_tag t = tag) tlvs = [t]" and "tlv_value t = v"
    by (auto simp: find_unique_direct_eq split: list.splits)
  from t have "t \<in> set (filter (\<lambda>t. tlv_tag t = tag) tlvs)" by simp
  with \<open>tlv_value t = v\<close> show ?thesis by auto
qed

lemma find_first_eq:
  "find_first tlvs tag =
     map_option flat_value (List.find (\<lambda>f. flat_tag f = tag) (tlv_flatten tlvs))"
proof (induction tlvs tag rule: find_first.induct)
  case (2 t v c cs tlvs tag)
  have find_append: "List.find P (xs @ ys) = (case List.find P xs of None \<Rightarrow> List.find P ys | Some x \<Rightarrow> Some x)"
    for P and xs ys :: "flat_tlv list" by (induction xs) simp_all
  from 2 show ?case by (auto simp: tlv_flatten_def find_append split: option.splits)
qed (simp add: tlv_flatten_def)

lemma length_flatten: "length (tlv_walk t) = tlv_nodes t"
proof (induction t)
  case (Tlv tag v c cs)
  then have "sum_list (map (length \<circ> tlv_walk) cs) = sum_list (map tlv_nodes cs)"
    by (intro arg_cong [of _ _ sum_list]) simp
  then show ?case by (simp add: length_concat)
qed

definition primitive_tag :: "bytes \<Rightarrow> bool" where
  "primitive_tag tag \<longleftrightarrow> valid_tag tag \<and> \<not> constructed_tag tag"

lemma primitive_tags_concat_Nil:
  "list_all primitive_tag new \<Longrightarrow> \<forall>xs\<in>set new. xs = [] \<Longrightarrow> new = []"
  by (cases new) (auto simp: primitive_tag_def)

lemma unique_tag_list_loop_iff:
  "offset \<le> length input \<Longrightarrow> distinct tags \<Longrightarrow> length tags \<le> max_tags \<Longrightarrow>
     unique_tag_list_loop input max_tags offset tags = Inr out \<longleftrightarrow>
     (\<exists>new. out = tags @ new \<and> drop offset input = concat new \<and> list_all primitive_tag new \<and>
        distinct out \<and> length out \<le> max_tags)"
proof (induction input max_tags offset tags rule: unique_tag_list_loop.induct)
  case (1 input max_tags offset tags)
  show ?case
  proof (cases "length input \<le> offset")
    case True
    with "1.prems" show ?thesis
      by (subst unique_tag_list_loop.simps)
         (auto dest: primitive_tags_concat_Nil)
  next
    case False
    show ?thesis (is "?l \<longleftrightarrow> ?r")
    proof
      assume ?l
      with False obtain c offset' where
        len: "\<not> length tags \<ge> max_tags" and tag: "read_tag input offset = Inr (c, offset')" and
        ok: "\<not> (c \<or> slice_of input offset offset' \<in> set tags)" and
        loop: "unique_tag_list_loop input max_tags offset' (tags @ [slice_of input offset offset']) = Inr out"
        by (subst (asm) unique_tag_list_loop.simps) (auto simp: krn_simps Let_def split: if_splits)
      let ?tag = "slice_of input offset offset'"
      have t: "offset \<le> offset'" "offset' \<le> length input" "primitive_tag ?tag"
        using tag ok by (auto simp: read_tag_iff primitive_tag_def)
      have d: "distinct (tags @ [?tag])" "length (tags @ [?tag]) \<le> max_tags"
        using ok len "1.prems" by simp_all
      from "1.IH" [OF False len tag _ refl ok t(2) d] loop obtain new where
        "out = tags @ [?tag] @ new" "drop offset' input = concat new" "list_all primitive_tag new"
        "distinct out" "length out \<le> max_tags" by auto
      with t show ?r
        by (intro exI [of _ "?tag # new"]) (auto simp: slice_append_drop [of offset offset' input, symmetric])
    next
      assume ?r
      then obtain new where new: "out = tags @ new" "drop offset input = concat new"
        "list_all primitive_tag new" "distinct out" "length out \<le> max_tags" by blast
      with False obtain tag rest where n: "new = tag # rest" by (cases new) auto
      define offset' where "offset' = offset + length tag"
      have s: "slice_of input offset offset' = tag" "offset' \<le> length input" "drop offset' input = concat rest"
        using slice_of_drop_append [of offset input tag "concat rest"] new n False
        by (simp_all add: offset'_def)
      have tag: "read_tag input offset = Inr (False, offset')"
        using new(3) n s by (simp add: read_tag_iff offset'_def primitive_tag_def)
      have len: "\<not> length tags \<ge> max_tags" and ok: "\<not> (False \<or> slice_of input offset offset' \<in> set tags)"
        using new n s by auto
      have "unique_tag_list_loop input max_tags offset' (tags @ [slice_of input offset offset']) = Inr out"
        using new n s "1.prems" by (subst "1.IH" [OF False len tag _ refl ok]) auto
      with False len tag ok show ?l by (subst unique_tag_list_loop.simps) (simp add: Let_def)
    qed
  qed
qed

lemma parse_unique_primitive_tag_list_iff:
  "parse_unique_primitive_tag_list input max_tags = Inr tags \<longleftrightarrow>
     tags \<noteq> [] \<and> input = concat tags \<and> list_all primitive_tag tags \<and> distinct tags \<and>
     length tags \<le> max_tags"
proof (cases "input = [] \<or> max_tags = 0")
  case True
  then show ?thesis
    by (cases tags) (auto simp: parse_unique_primitive_tag_list_def primitive_tag_def dest!: valid_tag_ne)
next
  case False
  then show ?thesis by (auto simp: parse_unique_primitive_tag_list_def unique_tag_list_loop_iff)
qed

text \<open>C9: The parser accepts exactly the canonical encodings: it returns a forest when, and only when, every
  object has an accepted tag, a minimal length of at most 4096 bytes and the constructed bit of its
  tag, templates nest at most eight deep, there are at most 512 objects, and the input is the
  encoding of that forest with no byte left over.\<close>

theorem parse_many_iff:
  "parse_many input = Inr ts \<longleftrightarrow>
     wf_forest 0 ts \<and> forest_nodes ts \<le> 512 \<and> input = encode_forest ts"
  by (rule parse_many_eq_Inr)

text \<open>A list of tags is accepted exactly when it is the concatenation of one or more distinct
  primitive tags, no more than the caller allows.\<close>

theorem unique_primitive_tag_list:
  "parse_unique_primitive_tag_list input max_tags = Inr tags \<longleftrightarrow>
     tags \<noteq> [] \<and> input = concat tags \<and> list_all primitive_tag tags \<and> distinct tags \<and>
     length tags \<le> max_tags"
  by (rule parse_unique_primitive_tag_list_iff)

end
