(* ===== verification/Emv_Dol.thy ===== *)
theory Emv_Dol
  imports Emv_Tlv
begin

text \<open>
  Data object lists and the tagged data store (\<open>src/src/dol.rs\<close>): the store with its tag
  validation and its limits, the parser of a data object list, and the construction of the
  data field a list asks for under either padding policy.
\<close>

unbundle bit_operations_syntax

definition MAX_DOL_ENTRIES :: nat where "MAX_DOL_ENTRIES = 128"
definition MAX_DOL_OUTPUT :: nat where "MAX_DOL_OUTPUT = 252"
definition MAX_DATASTORE_ENTRIES :: nat where "MAX_DATASTORE_ENTRIES = 512"
definition MAX_DATASTORE_VALUE_LEN :: nat where "MAX_DATASTORE_VALUE_LEN = 4096"

record dol_entry =
  dol_tag :: bytes
  dol_length :: nat

datatype dol_padding_policy = ZeroPadMissingAndShort | RequireExactValues

record data_store =
  ds_entries :: "(bytes \<times> bytes) list"

section \<open>The data store\<close>

definition ds_new :: data_store where
  "ds_new = \<lparr>ds_entries = []\<rparr>"

text \<open>The loop over \<open>tag[1..]\<close> with its running index.\<close>

fun validate_tag_tail :: "nat \<Rightarrow> nat \<Rightarrow> bytes \<Rightarrow> unit krn_result" where
  "validate_tag_tail taglen idx [] = Inr ()"
| "validate_tag_tail taglen idx (byte # rest) =
     (if idx + 2 = taglen
      then (if byte AND 0x80 \<noteq> 0 then Inl ParseError else validate_tag_tail taglen (idx + 1) rest)
      else (if byte AND 0x80 = 0 then Inl ParseError else validate_tag_tail taglen (idx + 1) rest))"

definition validate_data_tag :: "bytes \<Rightarrow> unit krn_result" where
  "validate_data_tag tag =
     (if tag = [] \<or> length tag > 4 then Inl InvalidArgument
      else let first = tag ! 0 in
        if first = 0x00 \<or> first = 0xff then Inl ParseError
        else if first AND 0x1f \<noteq> 0x1f then (if length tag = 1 then Inr () else Inl ParseError)
        else if length tag = 1 \<or> tag ! 1 AND 0x7f = 0 then Inl ParseError
        else validate_tag_tail (length tag) 0 (tl tag))"

text \<open>Overwriting the value of the first entry with the tag.\<close>

fun ds_replace :: "(bytes \<times> bytes) list \<Rightarrow> bytes \<Rightarrow> bytes \<Rightarrow> (bytes \<times> bytes) list" where
  "ds_replace [] tag v = []"
| "ds_replace ((stored, old) # es) tag v =
     (if stored = tag then (stored, v) # es else (stored, old) # ds_replace es tag v)"

definition ds_put :: "data_store \<Rightarrow> bytes \<Rightarrow> bytes \<Rightarrow> data_store krn_result" where
  "ds_put ds tag v =
     rbind (validate_data_tag tag) (\<lambda>_.
       if length v > MAX_DATASTORE_VALUE_LEN then Inl LengthOverflow
       else if list_ex (\<lambda>(stored, _). stored = tag) (ds_entries ds)
       then Inr (ds\<lparr>ds_entries := ds_replace (ds_entries ds) tag v\<rparr>)
       else if length (ds_entries ds) \<ge> MAX_DATASTORE_ENTRIES then Inl LengthOverflow
       else Inr (ds\<lparr>ds_entries := ds_entries ds @ [(tag, v)]\<rparr>))"

definition ds_get :: "data_store \<Rightarrow> bytes \<Rightarrow> bytes option" where
  "ds_get ds tag = map_option snd (List.find (\<lambda>(stored, _). stored = tag) (ds_entries ds))"

text \<open>What every operation keeps: distinct valid tags, and both limits.\<close>

definition ds_inv :: "data_store \<Rightarrow> bool" where
  "ds_inv ds \<longleftrightarrow> distinct (map fst (ds_entries ds)) \<and> length (ds_entries ds) \<le> 512 \<and>
     list_all (\<lambda>(t, v). valid_tag t \<and> length v \<le> 4096) (ds_entries ds)"

lemma validate_tag_tail_iff:
  "taglen = idx + 1 + length rest \<Longrightarrow> rest \<noteq> [] \<Longrightarrow> idx \<le> 2 \<Longrightarrow> taglen \<le> 4 \<Longrightarrow>
     validate_tag_tail taglen idx rest = Inr () \<and> (idx = 0 \<longrightarrow> hd rest AND 0x7f \<noteq> 0) \<longleftrightarrow>
     tag_continuation_ok idx rest"
proof (induction rest arbitrary: idx)
  case (Cons b rest)
  show ?case
  proof (cases rest)
    case Nil
    with Cons.prems show ?thesis by auto
  next
    case (Cons b' rest')
    with Cons.IH [of "idx + 1"] Cons.prems show ?thesis by auto
  qed
qed simp

lemma validate_data_tag_iff: "validate_data_tag tag = Inr () \<longleftrightarrow> valid_tag tag"
proof (cases tag)
  case Nil
  then show ?thesis by (simp add: validate_data_tag_def)
next
  case (Cons b rest)
  consider "length tag > 4" | "length tag \<le> 4" "rest = []" | "length tag \<le> 4" "rest \<noteq> []" by linarith
  then show ?thesis
  proof cases
    case 1
    then have "\<not> tag_continuation_ok 0 rest" "rest \<noteq> []"
      using Cons by (auto dest: tag_continuation_ok_length)
    with 1 Cons show ?thesis by (auto simp: validate_data_tag_def)
  next
    case 2
    with Cons show ?thesis by (auto simp: validate_data_tag_def Let_def)
  next
    case 3
    then have "rest ! 0 = hd rest" by (simp add: hd_conv_nth)
    with 3 Cons validate_tag_tail_iff [of "length tag" 0 rest] show ?thesis
      by (auto simp: validate_data_tag_def Let_def)
  qed
qed

lemma ds_get_map_of: "ds_get ds = map_of (ds_entries ds)"
proof
  fix tag
  have "map_option snd (List.find (\<lambda>(stored, _). stored = tag) es) = map_of es tag"
    for es :: "(bytes \<times> bytes) list" by (induction es) auto
  then show "ds_get ds tag = map_of (ds_entries ds) tag" by (simp add: ds_get_def)
qed

lemma ds_get_new [simp]: "ds_get ds_new tag = None"
  by (simp add: ds_get_map_of ds_new_def)

lemma list_ex_tag: "list_ex (\<lambda>(stored, _). stored = tag) es \<longleftrightarrow> map_of es tag \<noteq> None"
  by (induction es) auto

lemma map_of_ds_replace:
  "map_of es tag \<noteq> None \<Longrightarrow> map_of (ds_replace es tag v) = (map_of es)(tag \<mapsto> v)"
  by (induction es tag v rule: ds_replace.induct) (auto simp: fun_eq_iff split: if_splits)

lemma ds_replace_keys [simp]: "map fst (ds_replace es tag v) = map fst es"
  by (induction es tag v rule: ds_replace.induct) auto

lemma length_ds_replace [simp]: "length (ds_replace es tag v) = length es"
  by (induction es tag v rule: ds_replace.induct) auto

lemma set_ds_replace: "set (ds_replace es tag v) \<subseteq> insert (tag, v) (set es)"
  by (induction es tag v rule: ds_replace.induct) auto

lemma map_of_append_new: "map_of es tag = None \<Longrightarrow> map_of (es @ [(tag, v)]) = (map_of es)(tag \<mapsto> v)"
  by (auto simp: fun_eq_iff map_add_def split: option.splits)

lemma ds_put_eq_Inr:
  "ds_put ds tag v = Inr ds' \<Longrightarrow>
     valid_tag tag \<and> length v \<le> 4096 \<and> ds_get ds' = (ds_get ds)(tag \<mapsto> v)"
  by (auto simp: ds_put_def krn_simps validate_data_tag_iff ds_get_map_of list_ex_tag
      map_of_ds_replace map_of_append_new MAX_DATASTORE_VALUE_LEN_def simp del: map_of_append
      split: if_splits)

lemma ds_put_ok:
  "valid_tag tag \<Longrightarrow> length v \<le> 4096 \<Longrightarrow>
     ds_get ds tag \<noteq> None \<or> length (ds_entries ds) < 512 \<Longrightarrow> \<exists>ds'. ds_put ds tag v = Inr ds'"
  by (auto simp: ds_put_def validate_data_tag_iff [THEN iffD2] list_ex_tag ds_get_map_of
      MAX_DATASTORE_VALUE_LEN_def MAX_DATASTORE_ENTRIES_def)

lemma ds_inv_new: "ds_inv ds_new"
  by (simp add: ds_inv_def ds_new_def)

lemma ds_inv_put:
  assumes i: "ds_inv ds" and p: "ds_put ds tag v = Inr ds'"
  shows "ds_inv ds'"
proof -
  from ds_put_eq_Inr [OF p] have t: "valid_tag tag" "length v \<le> 4096" by simp_all
  from p consider (old) "ds_entries ds' = ds_replace (ds_entries ds) tag v"
    | (new) "map_of (ds_entries ds) tag = None" "length (ds_entries ds) < 512"
      "ds_entries ds' = ds_entries ds @ [(tag, v)]"
    by (auto simp: ds_put_def krn_simps list_ex_tag MAX_DATASTORE_ENTRIES_def split: if_splits)
  then show ?thesis
  proof cases
    case old
    with i t set_ds_replace [of "ds_entries ds" tag v] show ?thesis
      by (auto simp: ds_inv_def list_all_iff)
  next
    case new
    with i t show ?thesis by (auto simp: ds_inv_def map_of_eq_None_iff)
  qed
qed

section \<open>The store as an interface\<close>

text \<open>
  The clients of the store rely on one law of \<open>put\<close>: after it, the tag reads as the value and
  every other tag as before.  From it follows what a run of puts leaves behind, which the
  record parser and the terminal's data set use.
\<close>

locale tag_store =
  fixes put :: "'s \<Rightarrow> bytes \<Rightarrow> bytes \<Rightarrow> 's krn_result"
    and get :: "'s \<Rightarrow> bytes \<Rightarrow> bytes option"
  assumes get_put: "put s tag v = Inr s' \<Longrightarrow> get s' = (get s)(tag \<mapsto> v)"
begin

lemma get_put_all:
  "rfold (\<lambda>s (tag, v). put s tag v) s es = Inr s' \<Longrightarrow> get s' = get s ++ map_of (rev es)"
proof (induction es arbitrary: s)
  case (Cons e es)
  obtain tag v where e: "e = (tag, v)" by (cases e)
  from Cons.prems e obtain s1 where p: "put s tag v = Inr s1"
    and r: "rfold (\<lambda>s (tag, v). put s tag v) s1 es = Inr s'" by (auto simp: krn_simps)
  have "get s' = (get s)(tag \<mapsto> v) ++ map_of (rev es)"
    by (simp only: Cons.IH [OF r] get_put [OF p])
  moreover have "(get s)(tag \<mapsto> v) = get s ++ map_of [(tag, v)]" by simp
  ultimately show ?case by (simp only: e rev.simps map_of_append map_add_assoc)
qed simp

lemma get_put_distinct:
  assumes "rfold (\<lambda>s (tag, v). put s tag v) s es = Inr s'" and "distinct (map fst es)"
  shows "get s' = get s ++ map_of es"
proof -
  have "map_of (rev es) = map_of es"
    using assms(2) by (simp add: map_of_inject_set rev_map [symmetric])
  with get_put_all [OF assms(1)] show ?thesis by simp
qed

end

interpretation ds: tag_store ds_put ds_get
  by unfold_locales (simp add: ds_put_eq_Inr)

section \<open>Parsing a data object list\<close>

function read_dol_tag_continuation :: "bytes \<Rightarrow> nat \<Rightarrow> nat \<Rightarrow> nat krn_result" where
  "read_dol_tag_continuation input offset count =
     (if length input \<le> offset then Inl ParseError
      else let byte = input ! offset; offset' = offset + 1; count' = count + 1 in
        if count' = 1 \<and> byte AND 0x7f = 0 then Inl ParseError
        else if count' > 3 then Inl ParseError
        else if byte AND 0x80 = 0 then Inr offset'
        else read_dol_tag_continuation input offset' count')"
  by pat_completeness auto
termination
  by (relation "measure (\<lambda>(input, offset, count). length input - offset)") auto

declare read_dol_tag_continuation.simps [simp del]

definition read_dol_tag :: "bytes \<Rightarrow> nat \<Rightarrow> nat krn_result" where
  "read_dol_tag input offset =
     rbind (ok_or (get_at input offset) ParseError) (\<lambda>first.
       if first = 0x00 \<or> first = 0xff then Inl ParseError
       else if first AND 0x1f = 0x1f then read_dol_tag_continuation input (offset + 1) 0
       else Inr (offset + 1))"

lemma read_dol_tag_continuation_eq:
  "read_dol_tag_continuation input offset k = read_tag_continuation input offset k"
proof (induction input offset k rule: read_tag_continuation.induct)
  case (1 input offset k)
  then show ?case
    by (subst read_tag_continuation.simps, subst read_dol_tag_continuation.simps)
       (simp add: Let_def cong: if_cong)
qed

text \<open>The two tag readers of the source are the same reader, errors included.\<close>

lemma read_dol_tag_eq: "read_dol_tag input offset = rmap snd (read_tag input offset)"
proof -
  have "rmap snd (rmap (\<lambda>o'. (c, o')) m) = m" for c :: bool and m :: "nat krn_result"
    by (cases m) simp_all
  then show ?thesis
    by (cases "offset < length input")
       (simp_all add: read_dol_tag_def read_tag_def read_dol_tag_continuation_eq Let_def get_at_def)
qed

lemma read_dol_tag_iff:
  "read_dol_tag input offset = Inr offset' \<longleftrightarrow>
     offset \<le> offset' \<and> offset' \<le> length input \<and> valid_tag (slice_of input offset offset')"
  by (auto simp: read_dol_tag_eq krn_simps read_tag_iff)

function parse_dol_loop :: "bytes \<Rightarrow> nat \<Rightarrow> dol_entry list \<Rightarrow> dol_entry list krn_result" where
  "parse_dol_loop input offset out =
     (if length input \<le> offset then Inr out
      else if length out \<ge> MAX_DOL_ENTRIES then Inl LengthOverflow
      else rbind (read_dol_tag input offset) (\<lambda>tag_end.
        rbind (ok_or (get_at input tag_end) ParseError) (\<lambda>len.
          parse_dol_loop input (tag_end + 1)
            (out @ [\<lparr>dol_tag = slice_of input offset tag_end, dol_length = unat len\<rparr>]))))"
  by pat_completeness auto
termination
  by (relation "measure (\<lambda>(input, offset, out). length input - offset)")
     (auto simp: read_dol_tag_iff krn_simps)

declare parse_dol_loop.simps [simp del]

definition parse_dol :: "bytes \<Rightarrow> dol_entry list krn_result" where
  "parse_dol input = parse_dol_loop input 0 []"

text \<open>The encoding of a list of entries, and the entries that have one.\<close>

definition encode_dol_entry :: "dol_entry \<Rightarrow> bytes" where
  "encode_dol_entry e = dol_tag e @ [word_of_nat (dol_length e)]"

definition wf_dol_entry :: "dol_entry \<Rightarrow> bool" where
  "wf_dol_entry e \<longleftrightarrow> valid_tag (dol_tag e) \<and> dol_length e < 256"

lemma parse_dol_loop_iff:
  "offset \<le> length input \<Longrightarrow> length out \<le> 128 \<Longrightarrow>
     parse_dol_loop input offset out = Inr es \<longleftrightarrow>
     (\<exists>new. es = out @ new \<and> drop offset input = concat (map encode_dol_entry new) \<and>
        list_all wf_dol_entry new \<and> length es \<le> 128)"
proof (induction input offset out rule: parse_dol_loop.induct)
  case (1 input offset out)
  show ?case
  proof (cases "length input \<le> offset")
    case True
    with "1.prems" show ?thesis
      by (subst parse_dol_loop.simps) (auto simp: encode_dol_entry_def)
  next
    case False
    show ?thesis (is "?l \<longleftrightarrow> ?r")
    proof
      assume ?l
      with False obtain tag_end len where
        n: "\<not> length out \<ge> MAX_DOL_ENTRIES" and tag: "read_dol_tag input offset = Inr tag_end" and
        len: "ok_or (get_at input tag_end) ParseError = Inr len" and
        loop: "parse_dol_loop input (tag_end + 1)
          (out @ [\<lparr>dol_tag = slice_of input offset tag_end, dol_length = unat len\<rparr>]) = Inr es"
        by (subst (asm) parse_dol_loop.simps) (auto simp: krn_simps split: if_splits)
      let ?e = "\<lparr>dol_tag = slice_of input offset tag_end, dol_length = unat len\<rparr>"
      have e: "wf_dol_entry ?e" "offset \<le> tag_end" "tag_end < length input" "len = input ! tag_end"
        using tag len by (auto simp: read_dol_tag_iff krn_simps wf_dol_entry_def)
      have "length (out @ [?e]) \<le> 128" "tag_end + 1 \<le> length input"
        using n e by (simp_all add: MAX_DOL_ENTRIES_def)
      from "1.IH" [OF False n tag len this(2,1)] loop obtain new where
        new: "es = out @ ?e # new" "drop (tag_end + 1) input = concat (map encode_dol_entry new)"
          "list_all wf_dol_entry new" "length es \<le> 128" by auto
      have "drop offset input = slice_of input offset tag_end @ input ! tag_end # drop (tag_end + 1) input"
        using e by (simp add: Cons_nth_drop_Suc slice_append_drop)
      moreover have "encode_dol_entry ?e = slice_of input offset tag_end @ [input ! tag_end]"
        using e by (simp add: encode_dol_entry_def)
      ultimately show ?r using new e by (intro exI [of _ "?e # new"]) simp
    next
      assume ?r
      then obtain new where new: "es = out @ new" "drop offset input = concat (map encode_dol_entry new)"
        "list_all wf_dol_entry new" "length es \<le> 128" by blast
      with False obtain e rest where n: "new = e # rest" by (cases new) auto
      obtain tag k where e: "e = \<lparr>dol_tag = tag, dol_length = k\<rparr>" by (cases e)
      define tag_end where "tag_end = offset + length tag"
      have s: "slice_of input offset tag_end = tag" "tag_end \<le> length input"
        "drop tag_end input = [word_of_nat k] @ concat (map encode_dol_entry rest)"
        using slice_of_drop_append [of offset input tag "word_of_nat k # concat (map encode_dol_entry rest)"]
          new n e False by (simp_all add: tag_end_def encode_dol_entry_def)
      have s2: "slice_of input tag_end (tag_end + 1) = [word_of_nat k]" "tag_end + 1 \<le> length input"
        "drop (tag_end + 1) input = concat (map encode_dol_entry rest)"
        using slice_of_drop_append [OF s(3,2)] by simp_all
      have k: "k < 256" and tagv: "valid_tag tag" using new n e by (simp_all add: wf_dol_entry_def)
      have tag: "read_dol_tag input offset = Inr tag_end"
        using s tagv by (simp add: read_dol_tag_iff tag_end_def)
      have len: "ok_or (get_at input tag_end) ParseError = Inr (word_of_nat k)"
        using s2 by (simp add: krn_simps slice_Suc)
      have nout: "\<not> length out \<ge> MAX_DOL_ENTRIES" using new n by (simp add: MAX_DOL_ENTRIES_def)
      have "parse_dol_loop input (tag_end + 1)
          (out @ [\<lparr>dol_tag = slice_of input offset tag_end, dol_length = unat (word_of_nat k :: byte)\<rparr>]) = Inr es"
        using new n s s2 k e by (subst "1.IH" [OF False nout tag len]) (auto simp: unat_of_nat_byte)
      with False nout tag len show ?l by (subst parse_dol_loop.simps) simp
    qed
  qed
qed

lemma parse_dol_eq_Inr:
  "parse_dol input = Inr es \<longleftrightarrow>
     input = concat (map encode_dol_entry es) \<and> list_all wf_dol_entry es \<and> length es \<le> 128"
  by (simp add: parse_dol_def parse_dol_loop_iff)

section \<open>Building the data a list asks for\<close>

definition append_zero_padded :: "bytes \<Rightarrow> bytes \<Rightarrow> nat \<Rightarrow> bytes" where
  "append_zero_padded out v requested_len =
     out @ v @ replicate (requested_len - length v) 0"

definition dol_total :: "dol_entry list \<Rightarrow> nat krn_result" where
  "dol_total entries =
     rfold (\<lambda>acc e. ok_or (checked_add_usize acc (dol_length e)) LengthOverflow) 0 entries"

text \<open>One turn of the loop over the entries.\<close>

definition build_dol_step ::
    "data_store \<Rightarrow> dol_padding_policy \<Rightarrow> bytes \<Rightarrow> dol_entry \<Rightarrow> bytes krn_result" where
  "build_dol_step data padding_policy out e =
     (case ds_get data (dol_tag e) of
        Some v \<Rightarrow>
          if length v \<ge> dol_length e then Inr (out @ take (dol_length e) v)
          else if padding_policy = RequireExactValues then Inl MissingMandatoryTag
          else Inr (append_zero_padded out v (dol_length e))
      | None \<Rightarrow>
          if dol_length e = 0 then Inr out
          else if padding_policy = RequireExactValues then Inl MissingMandatoryTag
          else Inr (out @ replicate (dol_length e) 0))"

definition build_dol_with_policy ::
    "dol_entry list \<Rightarrow> data_store \<Rightarrow> dol_padding_policy \<Rightarrow> bytes krn_result" where
  "build_dol_with_policy entries data padding_policy =
     rbind (dol_total entries) (\<lambda>total.
       if total > MAX_DOL_OUTPUT then Inl LengthOverflow
       else rfold (build_dol_step data padding_policy) [] entries)"

definition build_dol :: "dol_entry list \<Rightarrow> data_store \<Rightarrow> bytes krn_result" where
  "build_dol entries data = build_dol_with_policy entries data ZeroPadMissingAndShort"

text \<open>
  Reference: the field an entry contributes is the stored value cut or zero-padded on the
  right to the requested length, an absent value counting as empty; under the exact policy the
  value has to be there in full.
\<close>

definition dol_field :: "data_store \<Rightarrow> dol_entry \<Rightarrow> bytes" where
  "dol_field data e =
     (let v = case ds_get data (dol_tag e) of None \<Rightarrow> [] | Some v \<Rightarrow> v
      in take (dol_length e) v @ replicate (dol_length e - length v) 0)"

definition dol_value_available :: "data_store \<Rightarrow> dol_entry \<Rightarrow> bool" where
  "dol_value_available data e \<longleftrightarrow>
     (case ds_get data (dol_tag e) of
        None \<Rightarrow> dol_length e = 0
      | Some v \<Rightarrow> dol_length e \<le> length v)"

lemma length_dol_field [simp]: "length (dol_field data e) = dol_length e"
  by (simp add: dol_field_def Let_def)

lemma dol_total_eq:
  "rfold (\<lambda>acc e. ok_or (checked_add_usize acc (dol_length e)) LengthOverflow) acc entries =
     (if acc + sum_list (map dol_length entries) < 2 ^ 64
      then Inr (acc + sum_list (map dol_length entries)) else Inl LengthOverflow)"
  if "acc < 2 ^ 64"
  using that
proof (induction entries arbitrary: acc)
  case (Cons e entries)
  then show ?case
    by (cases "acc + dol_length e < 2 ^ 64") (simp_all add: checked_add_usize_def add.assoc)
qed simp

lemma build_dol_step_eq:
  "build_dol_step data p out e =
     (if p = RequireExactValues \<and> \<not> dol_value_available data e then Inl MissingMandatoryTag
      else Inr (out @ dol_field data e))"
  by (cases p)
     (auto simp: build_dol_step_def dol_field_def dol_value_available_def append_zero_padded_def
        split: option.splits)

lemma build_dol_loop_eq:
  "rfold (build_dol_step data p) out entries =
     (if p = RequireExactValues \<and> \<not> list_all (dol_value_available data) entries
      then Inl MissingMandatoryTag else Inr (out @ concat (map (dol_field data) entries)))"
  by (induction entries arbitrary: out) (auto simp: build_dol_step_eq)

lemma build_dol_with_policy_eq:
  "build_dol_with_policy entries data p =
     (if sum_list (map dol_length entries) > 252 then Inl LengthOverflow
      else if p = RequireExactValues \<and> \<not> list_all (dol_value_available data) entries
      then Inl MissingMandatoryTag
      else Inr (concat (map (dol_field data) entries)))"
  using dol_total_eq [of 0 entries]
  by (auto simp: build_dol_with_policy_def dol_total_def build_dol_loop_eq MAX_DOL_OUTPUT_def)

lemma build_dol_length:
  "build_dol_with_policy entries data p = Inr out \<Longrightarrow>
     length out = sum_list (map dol_length entries) \<and> length out \<le> 252"
  by (auto simp: build_dol_with_policy_eq length_concat comp_def split: if_splits)

text \<open>The three readers of a tag agree: the reader of data object lists is the reader of data objects,
  errors included, and the store accepts a tag exactly when that reader takes all of it.\<close>

theorem tag_readers_agree:
  "read_dol_tag input offset = rmap snd (read_tag input offset) \<and>
   (validate_data_tag tag = Inr () \<longleftrightarrow> read_tag tag 0 = Inr (constructed_tag tag, length tag))"
  by (auto simp: read_dol_tag_eq validate_data_tag_iff read_tag_iff slice_of_def)

lemma ds_put_outcome:
  assumes "ds_inv ds"
  shows "case ds_put ds tag v of
      Inr ds' \<Rightarrow> valid_tag tag \<and> length v \<le> 4096 \<and> ds_inv ds' \<and> ds_get ds' = (ds_get ds)(tag \<mapsto> v)
    | Inl e \<Rightarrow> \<not> valid_tag tag \<or> length v > 4096 \<or> ds_get ds tag = None \<and> card (dom (ds_get ds)) = 512"
proof (cases "ds_put ds tag v")
  case (Inl e)
  have "card (dom (ds_get ds)) = length (ds_entries ds)"
    using assms by (simp add: ds_get_map_of ds_inv_def dom_map_of_conv_image_fst distinct_card
        flip: set_map)
  moreover have "length (ds_entries ds) \<le> 512" using assms by (simp add: ds_inv_def)
  moreover have "\<not> (valid_tag tag \<and> length v \<le> 4096 \<and> (ds_get ds tag \<noteq> None \<or> length (ds_entries ds) < 512))"
    using Inl ds_put_ok [of tag v ds] by force
  ultimately show ?thesis using Inl by (simp only: sum.case) linarith
next
  case (Inr ds')
  with ds_put_eq_Inr [OF Inr] ds_inv_put [OF assms Inr] show ?thesis by simp
qed

text \<open>C11: The data store implements a finite map of at most 512 valid tags to values of at most 4096
  bytes: storing keeps that invariant and updates the map at the tag and nowhere else, and it is
  refused only for an invalid tag, a value too long, or a new tag in a full store.\<close>

theorem data_store_put:
  assumes "ds_inv ds"
  shows "case ds_put ds tag v of
      Inr ds' \<Rightarrow> valid_tag tag \<and> length v \<le> 4096 \<and> ds_inv ds' \<and> ds_get ds' = (ds_get ds)(tag \<mapsto> v)
    | Inl e \<Rightarrow> \<not> valid_tag tag \<or> length v > 4096 \<or> ds_get ds tag = None \<and> card (dom (ds_get ds)) = 512"
  using assms by (rule ds_put_outcome)

lemma data_store_put_witness:
  "case ds_put ds_new [0x9f, 0x02] [1, 2] of Inr ds' \<Rightarrow> ds_get ds' = [[0x9f, 0x02] \<mapsto> [1, 2]] | Inl e \<Rightarrow> False"
  using data_store_put [OF ds_inv_new, of "[0x9f, 0x02]" "[1, 2]"]
  by (auto simp: fun_eq_iff ds_get_new dom_def split: sum.splits)

text \<open>A data object list parses exactly when it is the concatenation of at most 128 entries, each an
  accepted tag and a length byte.\<close>

theorem parse_dol_iff:
  "parse_dol input = Inr es \<longleftrightarrow>
     input = concat (map encode_dol_entry es) \<and> list_all wf_dol_entry es \<and> length es \<le> 128"
  by (rule parse_dol_eq_Inr)

text \<open>C40: The data built for a list is the concatenation of the requested fields, in order and each of the
  requested length: the front of the stored value when it is long enough, otherwise the value padded
  with zeros, or zeros for an absent one; it fails exactly when more than 252 bytes are requested
  or, where exact values are required, a value is missing or too short.\<close>

theorem build_dol_content:
  "build_dol_with_policy entries data p =
     (if sum_list (map dol_length entries) > 252 then Inl LengthOverflow
      else if p = RequireExactValues \<and> \<not> list_all (dol_value_available data) entries
      then Inl MissingMandatoryTag
      else Inr (concat (map (dol_field data) entries)))"
  by (rule build_dol_with_policy_eq)

end
