(* ===== verification/Emv_Card.thy ===== *)
theory Emv_Card
  imports Emv_State
begin

text \<open>
  The two small bit fields a card returns: the application interchange profile
  (\<open>src/src/aip.rs\<close>) and the cryptogram information data (\<open>src/src/cid.rs\<close>).
\<close>

unbundle bit_operations_syntax

section \<open>Application interchange profile\<close>

record application_interchange_profile =
  aip_raw :: arr2

definition aip_parse :: "bytes \<Rightarrow> application_interchange_profile krn_result" where
  "aip_parse raw = rmap (\<lambda>raw. \<lparr>aip_raw = raw\<rparr>) (to_arr2 raw MissingMandatoryTag)"

definition sda_supported :: "application_interchange_profile \<Rightarrow> bool" where
  "sda_supported aip \<longleftrightarrow> list2 (aip_raw aip) ! 0 AND 0x80 \<noteq> 0"

definition dda_supported :: "application_interchange_profile \<Rightarrow> bool" where
  "dda_supported aip \<longleftrightarrow> list2 (aip_raw aip) ! 0 AND 0x40 \<noteq> 0"

definition cda_supported :: "application_interchange_profile \<Rightarrow> bool" where
  "cda_supported aip \<longleftrightarrow> list2 (aip_raw aip) ! 1 AND 0x80 \<noteq> 0"

definition oda_required :: "application_interchange_profile \<Rightarrow> bool" where
  "oda_required aip \<longleftrightarrow> sda_supported aip \<or> dda_supported aip \<or> cda_supported aip"

lemma aip_parse_eq_Inr: "aip_parse raw = Inr aip \<longleftrightarrow> raw = list2 (aip_raw aip)"
  by (cases aip) (auto simp: aip_parse_def krn_simps to_arr2_eq_Inr)

section \<open>Cryptogram information data\<close>

datatype cryptogram_type = Aac | Tc | Arqc | ApplicationAuthenticationReferral

record cid =
  cid_raw :: byte

definition cryptogram_type_of :: "cid \<Rightarrow> cryptogram_type" where
  "cryptogram_type_of cid =
     (let t = cid_raw cid AND 0xc0 in
      if t = 0x00 then Aac else if t = 0x40 then Tc else if t = 0x80 then Arqc
      else ApplicationAuthenticationReferral)"

definition advice_required :: "cid \<Rightarrow> bool" where
  "advice_required cid \<longleftrightarrow> cid_raw cid AND 0x08 \<noteq> 0"

definition reason_advice_code :: "cid \<Rightarrow> byte" where
  "reason_advice_code cid = cid_raw cid AND 0x07"

end
