(* ===== verification/Emv_Gac.thy ===== *)
theory Emv_Gac
  imports Emv_Dol Emv_Card
begin

text \<open>
  GENERATE AC answers (\<open>src/src/gac.rs\<close>): the two response formats, and the package of data
  objects sent to the issuer for an online authorization.
\<close>

definition MAX_ISSUER_APPLICATION_DATA_LEN :: nat where "MAX_ISSUER_APPLICATION_DATA_LEN = 32"

text \<open>The smallest signature offline data authentication accepts (\<open>oda.rs\<close>).\<close>

definition MIN_ODA_SIGNATURE_BYTES :: nat where "MIN_ODA_SIGNATURE_BYTES = 8"

record generate_ac_response =
  gac_cid :: cid
  gac_application_cryptogram :: bytes
  gac_atc :: bytes
  gac_issuer_application_data :: bytes
  gac_icc_dynamic_number :: "bytes option"
  gac_signed_dynamic_application_data :: "bytes option"

record tag_value =
  tv_tag :: bytes
  tv_value :: bytes

definition issuer_application_data :: "bytes \<Rightarrow> bytes krn_result" where
  "issuer_application_data v =
     (if length v > MAX_ISSUER_APPLICATION_DATA_LEN then Inl ParseError else Inr v)"

definition parse_format_1 :: "bytes \<Rightarrow> generate_ac_response krn_result" where
  "parse_format_1 v =
     (if \<not> (11 \<le> length v \<and> length v \<le> 11 + MAX_ISSUER_APPLICATION_DATA_LEN) then Inl ParseError
      else rbind (issuer_application_data (drop 11 v)) (\<lambda>iad.
        Inr \<lparr>gac_cid = \<lparr>cid_raw = v ! 0\<rparr>, gac_application_cryptogram = slice_of v 3 11,
             gac_atc = [v ! 1, v ! 2], gac_issuer_application_data = iad,
             gac_icc_dynamic_number = None, gac_signed_dynamic_application_data = None\<rparr>))"

definition reject_constructed_format_2_children :: "tlv list \<Rightarrow> unit krn_result" where
  "reject_constructed_format_2_children children =
     (if list_ex tlv_constructed children then Inl ParseError else Inr ())"

definition fixed :: "nat \<Rightarrow> tlv list \<Rightarrow> bytes \<Rightarrow> bytes krn_result" where
  "fixed n children tag =
     rbind (find_unique_direct children tag) (\<lambda>found.
     rbind (ok_or found MissingMandatoryTag) (\<lambda>v.
       if length v \<noteq> n then Inl ParseError else Inr v))"

definition optional_non_empty :: "tlv list \<Rightarrow> bytes \<Rightarrow> bytes option krn_result" where
  "optional_non_empty children tag =
     rbind (find_unique_direct children tag) (\<lambda>found.
       case found of
         Some v \<Rightarrow> if v = [] then Inl ParseError else Inr (Some v)
       | None \<Rightarrow> Inr None)"

definition optional_signed_dynamic_application_data :: "tlv list \<Rightarrow> bytes \<Rightarrow> bytes option krn_result" where
  "optional_signed_dynamic_application_data children tag =
     rbind (find_unique_direct children tag) (\<lambda>found.
       case found of
         Some v \<Rightarrow> if length v < MIN_ODA_SIGNATURE_BYTES then Inl InvalidProfile else Inr (Some v)
       | None \<Rightarrow> Inr None)"

definition parse_format_2 :: "tlv list \<Rightarrow> generate_ac_response krn_result" where
  "parse_format_2 children =
     rbind (reject_constructed_format_2_children children) (\<lambda>_.
     rbind (fixed 1 children [0x9f, 0x27]) (\<lambda>cid.
     rbind (fixed 8 children [0x9f, 0x26]) (\<lambda>application_cryptogram.
     rbind (fixed 2 children [0x9f, 0x36]) (\<lambda>atc.
     rbind (find_unique_direct children [0x9f, 0x10]) (\<lambda>iad_opt.
     rbind (case iad_opt of None \<Rightarrow> Inr [] | Some v \<Rightarrow> issuer_application_data v) (\<lambda>iad.
     rbind (optional_non_empty children [0x9f, 0x4c]) (\<lambda>icc_dynamic_number.
     rbind (optional_signed_dynamic_application_data children [0x9f, 0x4b]) (\<lambda>sdad.
       Inr \<lparr>gac_cid = \<lparr>cid_raw = cid ! 0\<rparr>, gac_application_cryptogram = application_cryptogram,
            gac_atc = atc, gac_issuer_application_data = iad,
            gac_icc_dynamic_number = icc_dynamic_number,
            gac_signed_dynamic_application_data = sdad\<rparr>))))))))"

definition parse_generate_ac_response :: "bytes \<Rightarrow> generate_ac_response krn_result" where
  "parse_generate_ac_response input =
     rbind (parse_many input) (\<lambda>tlvs.
       if length tlvs \<noteq> 1 then Inl MissingMandatoryTag
       else if tlv_tag (tlvs ! 0) = [0x80] then parse_format_1 (tlv_value (tlvs ! 0))
       else if tlv_tag (tlvs ! 0) = [0x77] then parse_format_2 (tlv_children (tlvs ! 0))
       else Inl MissingMandatoryTag)"

definition ONLINE_PACKAGE_TAGS :: "bytes list" where
  "ONLINE_PACKAGE_TAGS =
     [[0x9f, 0x37], [0x95], [0x9a], [0x9c], [0x9f, 0x02], [0x5f, 0x2a], [0x82], [0x9f, 0x1a],
      [0x9f, 0x33], [0x9f, 0x40], [0x9f, 0x34], [0x9f, 0x66], [0x5a], [0x57]]"

definition build_online_authorization_package :: "generate_ac_response \<Rightarrow> data_store \<Rightarrow> tag_value list" where
  "build_online_authorization_package response data =
     (let objects =
        [\<lparr>tv_tag = [0x9f, 0x26], tv_value = gac_application_cryptogram response\<rparr>,
         \<lparr>tv_tag = [0x9f, 0x27], tv_value = [cid_raw (gac_cid response)]\<rparr>,
         \<lparr>tv_tag = [0x9f, 0x36], tv_value = gac_atc response\<rparr>];
          objects = (if gac_issuer_application_data response \<noteq> []
            then objects @ [\<lparr>tv_tag = [0x9f, 0x10], tv_value = gac_issuer_application_data response\<rparr>]
            else objects)
      in foldl (\<lambda>objects tag. case ds_get data tag of
           Some v \<Rightarrow> objects @ [\<lparr>tv_tag = tag, tv_value = v\<rparr>]
         | None \<Rightarrow> objects) objects ONLINE_PACKAGE_TAGS)"

section \<open>The two formats\<close>

definition wf_gac :: "generate_ac_response \<Rightarrow> bool" where
  "wf_gac r \<longleftrightarrow> length (gac_application_cryptogram r) = 8 \<and> length (gac_atc r) = 2 \<and>
     length (gac_issuer_application_data r) \<le> 32 \<and> gac_icc_dynamic_number r \<noteq> Some [] \<and>
     (case gac_signed_dynamic_application_data r of None \<Rightarrow> True | Some s \<Rightarrow> 8 \<le> length s)"

lemma fixed_eq_Inr [krn_simps]:
  "fixed n cs tag = Inr v \<longleftrightarrow> find_unique_direct cs tag = Inr (Some v) \<and> length v = n"
  by (auto simp: fixed_def krn_simps split: if_splits)

lemma optional_non_empty_eq_Inr [krn_simps]:
  "optional_non_empty cs tag = Inr v \<longleftrightarrow> find_unique_direct cs tag = Inr v \<and> v \<noteq> Some []"
  by (cases "find_unique_direct cs tag") (auto simp: optional_non_empty_def split: option.splits)

lemma optional_sdad_eq_Inr [krn_simps]:
  "optional_signed_dynamic_application_data cs tag = Inr v \<longleftrightarrow>
     find_unique_direct cs tag = Inr v \<and> (case v of None \<Rightarrow> True | Some s \<Rightarrow> 8 \<le> length s)"
  by (cases "find_unique_direct cs tag")
     (auto simp: optional_signed_dynamic_application_data_def MIN_ODA_SIGNATURE_BYTES_def
        split: option.splits)

lemma parse_format_1_eq_Inr:
  "parse_format_1 v = Inr r \<longleftrightarrow> wf_gac r \<and> gac_icc_dynamic_number r = None \<and>
     gac_signed_dynamic_application_data r = None \<and>
     v = cid_raw (gac_cid r) # gac_atc r @ gac_application_cryptogram r @ gac_issuer_application_data r"
proof (cases "11 \<le> length v")
  case True
  then obtain a b c w where v: "v = a # b # c # w" and w: "8 \<le> length w"
    by (cases v; cases "tl v"; cases "tl (tl v)") auto
  have "parse_format_1 v = Inr r \<longleftrightarrow> length (drop 8 w) \<le> 32 \<and>
      r = \<lparr>gac_cid = \<lparr>cid_raw = a\<rparr>, gac_application_cryptogram = take 8 w, gac_atc = [b, c],
           gac_issuer_application_data = drop 8 w, gac_icc_dynamic_number = None,
           gac_signed_dynamic_application_data = None\<rparr>"
    using w by (auto simp: v parse_format_1_def issuer_application_data_def krn_simps slice_of_def
        MAX_ISSUER_APPLICATION_DATA_LEN_def)
  also have "\<dots> \<longleftrightarrow> wf_gac r \<and> gac_icc_dynamic_number r = None \<and>
     gac_signed_dynamic_application_data r = None \<and>
     v = cid_raw (gac_cid r) # gac_atc r @ gac_application_cryptogram r @ gac_issuer_application_data r"
    (is "?a \<longleftrightarrow> ?b")
  proof
    assume ?a
    with w show ?b by (simp add: wf_gac_def v)
  next
    assume b: ?b
    then obtain b' c' where "gac_atc r = [b', c']" by (auto simp: wf_gac_def length_Suc_conv numeral_2_eq_2)
    with b show ?a by (cases r; cases "gac_cid r") (auto simp: wf_gac_def v)
  qed
  finally show ?thesis .
next
  case False
  then show ?thesis by (auto simp: parse_format_1_def wf_gac_def)
qed

lemma iad_eq_Inr:
  "rbind (find_unique_direct cs tag) (\<lambda>iad_opt.
     case iad_opt of None \<Rightarrow> Inr [] | Some v \<Rightarrow> issuer_application_data v) = Inr iad \<longleftrightarrow>
   length iad \<le> 32 \<and> (find_unique_direct cs tag = Inr (Some iad) \<or>
     find_unique_direct cs tag = Inr None \<and> iad = [])"
  by (cases "find_unique_direct cs tag")
     (auto simp: issuer_application_data_def MAX_ISSUER_APPLICATION_DATA_LEN_def split: option.splits)

lemma rbind_assoc: "rbind m (\<lambda>a. rbind (f a) g) = rbind (rbind m f) g"
  by (cases m) simp_all

lemma length_1_singleton: "length v = Suc 0 \<longleftrightarrow> v = [v ! 0]"
  by (cases v) auto

lemma parse_format_2_eq_Inr:
  "parse_format_2 cs = Inr r \<longleftrightarrow> wf_gac r \<and> \<not> list_ex tlv_constructed cs \<and>
     find_unique_direct cs [0x9f, 0x27] = Inr (Some [cid_raw (gac_cid r)]) \<and>
     find_unique_direct cs [0x9f, 0x26] = Inr (Some (gac_application_cryptogram r)) \<and>
     find_unique_direct cs [0x9f, 0x36] = Inr (Some (gac_atc r)) \<and>
     (find_unique_direct cs [0x9f, 0x10] = Inr (Some (gac_issuer_application_data r)) \<or>
      find_unique_direct cs [0x9f, 0x10] = Inr None \<and> gac_issuer_application_data r = []) \<and>
     find_unique_direct cs [0x9f, 0x4c] = Inr (gac_icc_dynamic_number r) \<and>
     find_unique_direct cs [0x9f, 0x4b] = Inr (gac_signed_dynamic_application_data r)"
proof -
  have "parse_format_2 cs = Inr r \<longleftrightarrow> \<not> list_ex tlv_constructed cs \<and>
     (\<exists>c. fixed 1 cs [0x9f, 0x27] = Inr c \<and> cid_raw (gac_cid r) = c ! 0) \<and>
     fixed 8 cs [0x9f, 0x26] = Inr (gac_application_cryptogram r) \<and>
     fixed 2 cs [0x9f, 0x36] = Inr (gac_atc r) \<and>
     rbind (find_unique_direct cs [0x9f, 0x10]) (\<lambda>iad_opt.
       case iad_opt of None \<Rightarrow> Inr [] | Some v \<Rightarrow> issuer_application_data v)
       = Inr (gac_issuer_application_data r) \<and>
     optional_non_empty cs [0x9f, 0x4c] = Inr (gac_icc_dynamic_number r) \<and>
     optional_signed_dynamic_application_data cs [0x9f, 0x4b] = Inr (gac_signed_dynamic_application_data r)"
    (is "_ \<longleftrightarrow> ?m")
  proof
    assume "parse_format_2 cs = Inr r"
    then show ?m
      unfolding parse_format_2_def reject_constructed_format_2_children_def rbind_assoc
      by (auto simp only: rbind_eq_Inr if_split_eq1 sum.inject sum.distinct generate_ac_response.simps
          cid.simps split: if_splits) 
  next
    assume ?m
    then obtain c where "fixed 1 cs [0x9f, 0x27] = Inr c" "cid_raw (gac_cid r) = c ! 0" by blast
    with \<open>?m\<close> show "parse_format_2 cs = Inr r"
      unfolding parse_format_2_def reject_constructed_format_2_children_def rbind_assoc
      by (cases r; cases "gac_cid r") simp
  qed
  moreover have "(\<exists>c. fixed 1 cs [0x9f, 0x27] = Inr c \<and> cid_raw (gac_cid r) = c ! 0) \<longleftrightarrow>
      find_unique_direct cs [0x9f, 0x27] = Inr (Some [cid_raw (gac_cid r)])"
    by (auto simp: fixed_eq_Inr length_Suc_conv)
  ultimately show ?thesis
    unfolding wf_gac_def fixed_eq_Inr iad_eq_Inr optional_non_empty_eq_Inr optional_sdad_eq_Inr
    by blast
qed

section \<open>The online package\<close>

lemma package_loop:
  "foldl (\<lambda>objects tag. case ds_get data tag of
       Some v \<Rightarrow> objects @ [\<lparr>tv_tag = tag, tv_value = v\<rparr>] | None \<Rightarrow> objects) objects tags
   = objects @ List.map_filter (\<lambda>tag. map_option (\<lambda>v. \<lparr>tv_tag = tag, tv_value = v\<rparr>) (ds_get data tag)) tags"
  by (induction tags arbitrary: objects) (auto simp: map_filter_simps split: option.split)

lemma build_online_package_eq:
  "build_online_authorization_package r data =
     [\<lparr>tv_tag = [0x9f, 0x26], tv_value = gac_application_cryptogram r\<rparr>,
      \<lparr>tv_tag = [0x9f, 0x27], tv_value = [cid_raw (gac_cid r)]\<rparr>,
      \<lparr>tv_tag = [0x9f, 0x36], tv_value = gac_atc r\<rparr>]
     @ (if gac_issuer_application_data r \<noteq> []
        then [\<lparr>tv_tag = [0x9f, 0x10], tv_value = gac_issuer_application_data r\<rparr>] else [])
     @ List.map_filter (\<lambda>tag. map_option (\<lambda>v. \<lparr>tv_tag = tag, tv_value = v\<rparr>) (ds_get data tag))
         ONLINE_PACKAGE_TAGS"
  by (simp add: build_online_authorization_package_def package_loop)

lemma map_filter_tags:
  "map tv_tag (List.map_filter (\<lambda>tag. map_option (\<lambda>v. \<lparr>tv_tag = tag, tv_value = v\<rparr>) (m tag)) tags)
     = filter (\<lambda>tag. m tag \<noteq> None) tags"
  by (induction tags) (auto simp: map_filter_simps)

lemma ONLINE_PACKAGE_TAGS_facts:
  "distinct ([0x9f, 0x26] # [0x9f, 0x27] # [0x9f, 0x36] # [0x9f, 0x10] # ONLINE_PACKAGE_TAGS)"
  "list_all primitive_tag ([0x9f, 0x26] # [0x9f, 0x27] # [0x9f, 0x36] # [0x9f, 0x10] # ONLINE_PACKAGE_TAGS)"
  by code_simp+

lemma package_tags:
  "map tv_tag (build_online_authorization_package r data) =
     [[0x9f, 0x26], [0x9f, 0x27], [0x9f, 0x36]]
     @ (if gac_issuer_application_data r \<noteq> [] then [[0x9f, 0x10]] else [])
     @ filter (\<lambda>tag. ds_get data tag \<noteq> None) ONLINE_PACKAGE_TAGS"
  by (simp add: build_online_package_eq map_filter_tags)

lemma package_distinct: "distinct (map tv_tag (build_online_authorization_package r data))"
  using ONLINE_PACKAGE_TAGS_facts(1) by (auto simp: package_tags)

lemma map_of_map_filter:
  "map_of (map (\<lambda>o'. (tv_tag o', tv_value o'))
      (List.map_filter (\<lambda>tag. map_option (\<lambda>v. \<lparr>tv_tag = tag, tv_value = v\<rparr>) (m tag)) tags)) t
     = (if t \<in> set tags then m t else None)"
  by (induction tags) (auto simp: map_filter_simps split: option.split)

lemma package_primitive: "list_all primitive_tag (map tv_tag (build_online_authorization_package r data))"
  using ONLINE_PACKAGE_TAGS_facts(2) by (auto simp: package_tags list_all_iff)

text \<open>C27: A GENERATE AC answer is accepted exactly when it is one well-formed data object in one of the two
  formats, with an eight-byte cryptogram, a two-byte counter, at most 32 bytes of issuer
  application data, a nonempty dynamic number and a dynamic signature of at least eight bytes
  where present; the result carries exactly what was encoded.\<close>

theorem parse_generate_ac_response_iff:
  "parse_generate_ac_response input = Inr r \<longleftrightarrow>
     wf_gac r \<and> (\<exists>t. parse_many input = Inr [t] \<and>
       (tlv_tag t = [0x80] \<and> gac_icc_dynamic_number r = None \<and> gac_signed_dynamic_application_data r = None \<and>
          tlv_value t = cid_raw (gac_cid r) # gac_atc r @ gac_application_cryptogram r @
            gac_issuer_application_data r \<or>
        tlv_tag t = [0x77] \<and> \<not> list_ex tlv_constructed (tlv_children t) \<and>
          find_unique_direct (tlv_children t) [0x9f, 0x27] = Inr (Some [cid_raw (gac_cid r)]) \<and>
          find_unique_direct (tlv_children t) [0x9f, 0x26] = Inr (Some (gac_application_cryptogram r)) \<and>
          find_unique_direct (tlv_children t) [0x9f, 0x36] = Inr (Some (gac_atc r)) \<and>
          (find_unique_direct (tlv_children t) [0x9f, 0x10] = Inr (Some (gac_issuer_application_data r)) \<or>
           find_unique_direct (tlv_children t) [0x9f, 0x10] = Inr None \<and> gac_issuer_application_data r = []) \<and>
          find_unique_direct (tlv_children t) [0x9f, 0x4c] = Inr (gac_icc_dynamic_number r) \<and>
          find_unique_direct (tlv_children t) [0x9f, 0x4b] = Inr (gac_signed_dynamic_application_data r)))"
proof -
  have "parse_generate_ac_response input = Inr r \<longleftrightarrow> (\<exists>t. parse_many input = Inr [t] \<and>
      (tlv_tag t = [0x80] \<and> parse_format_1 (tlv_value t) = Inr r \<or>
       tlv_tag t = [0x77] \<and> parse_format_2 (tlv_children t) = Inr r))"
    (is "_ \<longleftrightarrow> ?r")
  proof
    assume "parse_generate_ac_response input = Inr r"
    then show ?r
      by (auto simp: parse_generate_ac_response_def krn_simps length_Suc_conv split: if_splits)
  next
    assume ?r
    then show "parse_generate_ac_response input = Inr r" by (auto simp: parse_generate_ac_response_def)
  qed
  then show ?thesis
    unfolding parse_format_1_eq_Inr parse_format_2_eq_Inr by blast
qed

text \<open>The online authorization package holds no tag twice and only primitive tags, and looking a tag up in
  it gives the card's answer for the cryptogram, its information data, the counter and the issuer
  application data, the stored value for the tags the issuer is sent, and nothing else.\<close>

theorem online_package_contents:
  "distinct (map tv_tag (build_online_authorization_package r data)) \<and>
   list_all primitive_tag (map tv_tag (build_online_authorization_package r data)) \<and>
   map_of (map (\<lambda>o'. (tv_tag o', tv_value o')) (build_online_authorization_package r data)) t =
     (if t = [0x9f, 0x26] then Some (gac_application_cryptogram r)
      else if t = [0x9f, 0x27] then Some [cid_raw (gac_cid r)]
      else if t = [0x9f, 0x36] then Some (gac_atc r)
      else if t = [0x9f, 0x10]
      then (if gac_issuer_application_data r = [] then None else Some (gac_issuer_application_data r))
      else if t \<in> set ONLINE_PACKAGE_TAGS then ds_get data t else None)"
proof -
  have n: "[0x9f, 0x10] \<notin> set ONLINE_PACKAGE_TAGS" using ONLINE_PACKAGE_TAGS_facts(1) by simp
  have "map_of (map (\<lambda>o'. (tv_tag o', tv_value o')) (build_online_authorization_package r data)) t =
     (if t = [0x9f, 0x26] then Some (gac_application_cryptogram r)
      else if t = [0x9f, 0x27] then Some [cid_raw (gac_cid r)]
      else if t = [0x9f, 0x36] then Some (gac_atc r)
      else if t = [0x9f, 0x10]
      then (if gac_issuer_application_data r = [] then None else Some (gac_issuer_application_data r))
      else if t \<in> set ONLINE_PACKAGE_TAGS then ds_get data t else None)"
    by (cases "gac_issuer_application_data r = []")
       (auto simp: build_online_package_eq map_of_map_filter map_add_def n)
  then show ?thesis using package_distinct package_primitive by blast
qed

end
