(* ===== verification/Emv_Oda.thy ===== *)
theory Emv_Oda
  imports Emv_Rsa Emv_Config Emv_Gac
begin

text \<open>
  Offline data authentication (\<open>src/src/oda.rs\<close>): the choice of a method, the choice of the
  certification authority key, the authentication data of the card's records, and the recovery
  and verification of the certificates and signatures that the RSA operation of \<open>Emv_Rsa\<close>
  opens.
\<close>

section \<open>Methods and outcomes\<close>

definition MIN_ODA_CERTIFICATE_BYTES :: nat where "MIN_ODA_CERTIFICATE_BYTES = 16"
definition MAX_ODA_REMAINDER_BYTES :: nat where "MAX_ODA_REMAINDER_BYTES = 248"
definition MAX_ODA_AUTHENTICATION_DATA_BYTES :: nat where "MAX_ODA_AUTHENTICATION_DATA_BYTES = 65535"
definition EMV_SHA1_HASH_ALGORITHM_INDICATOR :: byte where "EMV_SHA1_HASH_ALGORITHM_INDICATOR = 0x01"
definition EMV_RSA_PUBLIC_KEY_ALGORITHM_INDICATOR :: byte where "EMV_RSA_PUBLIC_KEY_ALGORITHM_INDICATOR = 0x01"
definition RECOVERED_CERTIFICATE_HEADER :: byte where "RECOVERED_CERTIFICATE_HEADER = 0x6a"
definition RECOVERED_CERTIFICATE_TRAILER :: byte where "RECOVERED_CERTIFICATE_TRAILER = 0xbc"
definition MIN_RECOVERED_CERTIFICATE_BYTES :: nat where "MIN_RECOVERED_CERTIFICATE_BYTES = 35"
definition RECOVERED_SIGNED_DATA_HEADER :: byte where "RECOVERED_SIGNED_DATA_HEADER = 0x6a"
definition RECOVERED_SIGNED_DATA_TRAILER :: byte where "RECOVERED_SIGNED_DATA_TRAILER = 0xbc"
definition RECOVERED_SIGNED_STATIC_DATA_FORMAT :: byte where "RECOVERED_SIGNED_STATIC_DATA_FORMAT = 0x03"
definition RECOVERED_SIGNED_DYNAMIC_DATA_FORMAT :: byte where "RECOVERED_SIGNED_DYNAMIC_DATA_FORMAT = 0x05"
definition RECOVERED_PADDING_BYTE :: byte where "RECOVERED_PADDING_BYTE = 0xbb"
definition MAX_STATIC_AUTH_TAG_LIST_TAGS :: nat where "MAX_STATIC_AUTH_TAG_LIST_TAGS = 16"

lemmas oda_constants =
  MIN_ODA_CERTIFICATE_BYTES_def MIN_ODA_SIGNATURE_BYTES_def MAX_ODA_REMAINDER_BYTES_def
  MAX_ODA_AUTHENTICATION_DATA_BYTES_def EMV_SHA1_HASH_ALGORITHM_INDICATOR_def
  EMV_RSA_PUBLIC_KEY_ALGORITHM_INDICATOR_def RECOVERED_CERTIFICATE_HEADER_def
  RECOVERED_CERTIFICATE_TRAILER_def MIN_RECOVERED_CERTIFICATE_BYTES_def
  RECOVERED_SIGNED_DATA_HEADER_def RECOVERED_SIGNED_DATA_TRAILER_def
  RECOVERED_SIGNED_STATIC_DATA_FORMAT_def RECOVERED_SIGNED_DYNAMIC_DATA_FORMAT_def
  RECOVERED_PADDING_BYTE_def MAX_STATIC_AUTH_TAG_LIST_TAGS_def SHA1_DIGEST_BYTES_def

datatype oda_method = Sda | Dda | Cda

record oda_selection_input =
  aip_sda_supported :: bool
  aip_dda_supported :: bool
  aip_cda_supported :: bool
  profile_sda_allowed :: bool
  profile_dda_allowed :: bool
  profile_cda_allowed :: bool
  terminal_supports_dynamic_authentication :: bool
  oda_input_required :: bool

datatype oda_selection = OdaNotRequired | NotPerformedRequired | Perform oda_method

datatype oda_failure =
  MissingCapk | IssuerCertificateRecovery | IccCertificateRecovery | StaticSignature |
  DynamicSignature | CdaSignature

datatype oda_outcome = OdaNotPerformed | OdaPassed oda_method | OdaFailed oda_method oda_failure

datatype capk_integrity = CapkUnverified | CapkVerified

definition selection_input_from_aip :: "arr2 \<Rightarrow> bool \<Rightarrow> bool \<Rightarrow> oda_selection_input" where
  "selection_input_from_aip aip cda_allowed dynamic =
     (let aip = \<lparr>aip_raw = aip\<rparr> in
      \<lparr>aip_sda_supported = sda_supported aip, aip_dda_supported = dda_supported aip,
       aip_cda_supported = cda_supported aip, profile_sda_allowed = True, profile_dda_allowed = True,
       profile_cda_allowed = cda_allowed, terminal_supports_dynamic_authentication = dynamic,
       oda_input_required = oda_required aip\<rparr>)"

definition select_oda_method :: "oda_selection_input \<Rightarrow> oda_selection" where
  "select_oda_method input =
     (if aip_cda_supported input \<and> profile_cda_allowed input \<and> terminal_supports_dynamic_authentication input
      then Perform Cda
      else if aip_dda_supported input \<and> profile_dda_allowed input \<and> terminal_supports_dynamic_authentication input
      then Perform Dda
      else if aip_sda_supported input \<and> profile_sda_allowed input then Perform Sda
      else if oda_input_required input then NotPerformedRequired
      else OdaNotRequired)"

definition apply_oda_outcome :: "tvr \<Rightarrow> tsi \<Rightarrow> oda_outcome \<Rightarrow> tvr \<times> tsi" where
  "apply_oda_outcome tvr tsi outcome = (case outcome of
     OdaNotPerformed \<Rightarrow> (tvr_set tvr B1_OFFLINE_DATA_AUTH_NOT_PERFORMED, tsi)
   | OdaPassed _ \<Rightarrow> (tvr, tsi_set tsi OFFLINE_DATA_AUTHENTICATION_PERFORMED)
   | OdaFailed m failure \<Rightarrow>
       let tsi = tsi_set tsi OFFLINE_DATA_AUTHENTICATION_PERFORMED;
           tvr = if failure = IssuerCertificateRecovery \<or> failure = IccCertificateRecovery
                 then tvr_set tvr B1_ICC_DATA_MISSING else tvr;
           tvr = (case m of Sda \<Rightarrow> tvr_set tvr B1_SDA_FAILED | Dda \<Rightarrow> tvr_set tvr B1_DDA_FAILED
                  | Cda \<Rightarrow> tvr_set tvr B1_CDA_FAILED)
       in (tvr, tsi))"

section \<open>Certification authority keys\<close>

definition oda_capk_checksum :: "capk \<Rightarrow> bytes" where
  "oda_capk_checksum c =
     capk_checksum_components (capk_rid c) (capk_key_index c) (capk_modulus c) (capk_exponent c)"

definition capk_checksum_is_valid :: "capk \<Rightarrow> bool" where
  "capk_checksum_is_valid c \<longleftrightarrow>
     (if length (capk_checksum_value c) \<noteq> SHA1_DIGEST_BYTES then False
      else capk_checksum_value c = oda_capk_checksum c)"

definition select_capk ::
    "profile_set \<Rightarrow> arr5 \<Rightarrow> byte \<Rightarrow> emv_date \<Rightarrow> capk_integrity \<Rightarrow> capk krn_result" where
  "select_capk profiles rid key_index evaluation_date integrity =
     (if integrity \<noteq> CapkVerified then Inl InvalidProfile
      else rbind (ok_or (Option.bind (List.find (\<lambda>scheme. sp_rid scheme = rid) (ps_schemes profiles))
             (\<lambda>scheme. List.find (\<lambda>c. capk_key_index c = key_index \<and> evaluation_date \<le> capk_expiry c)
               (sp_capks scheme))) MissingMandatoryTag) (\<lambda>c.
        if \<not> capk_checksum_is_valid c then Inl MissingMandatoryTag else Inr c))"

section \<open>Inputs from the card\<close>

record internal_authenticate_response =
  ia_signed_dynamic_application_data :: bytes
  ia_icc_dynamic_number :: "bytes option"

record public_key_input =
  pki_certificate :: bytes
  pki_remainder :: bytes
  pki_exponent :: bytes

record static_authentication_record =
  sar_sfi :: byte
  sar_record :: byte
  sar_body :: bytes

definition reject_constructed_internal_authenticate_children :: "tlv list \<Rightarrow> unit krn_result" where
  "reject_constructed_internal_authenticate_children children =
     (if list_ex tlv_constructed children then Inl ParseError else Inr ())"

definition parse_internal_authenticate_response :: "bytes \<Rightarrow> internal_authenticate_response krn_result" where
  "parse_internal_authenticate_response input =
     rbind (parse_many input) (\<lambda>tlvs.
       if length tlvs \<noteq> 1 \<or> tlv_tag (tlvs ! 0) \<noteq> [0x77] \<or> \<not> tlv_constructed (tlvs ! 0)
       then Inl MissingMandatoryTag
       else rbind (reject_constructed_internal_authenticate_children (tlv_children (tlvs ! 0))) (\<lambda>_.
         rbind (find_unique_direct (tlv_children (tlvs ! 0)) [0x9f, 0x4b]) (\<lambda>found.
         rbind (ok_or found MissingMandatoryTag) (\<lambda>signed.
         if length signed < MIN_ODA_SIGNATURE_BYTES then Inl InvalidProfile
         else rbind (find_unique_direct (tlv_children (tlvs ! 0)) [0x9f, 0x4c]) (\<lambda>found.
         rbind (case found of Some [] \<Rightarrow> Inl ParseError | Some v \<Rightarrow> Inr (Some v) | None \<Rightarrow> Inr None) (\<lambda>number.
           Inr \<lparr>ia_signed_dynamic_application_data = signed, ia_icc_dynamic_number = number\<rparr>))))))"

definition validate_public_key_inputs ::
    "bytes option \<Rightarrow> bytes option \<Rightarrow> bytes option \<Rightarrow> public_key_input krn_result" where
  "validate_public_key_inputs certificate remainder exponent =
     rbind (ok_or certificate MissingMandatoryTag) (\<lambda>certificate.
     if length certificate < MIN_ODA_CERTIFICATE_BYTES \<or> all_zero_or_ff certificate then Inl InvalidProfile
     else let remainder = case_option [] id remainder in
     if length remainder > MAX_ODA_REMAINDER_BYTES \<or> (remainder \<noteq> [] \<and> all_zero_or_ff remainder)
     then Inl InvalidProfile
     else rbind (ok_or exponent MissingMandatoryTag) (\<lambda>exponent.
       if exponent = [] \<or> length exponent > 3 \<or> all_zero_or_ff exponent then Inl InvalidProfile
       else Inr \<lparr>pki_certificate = certificate, pki_remainder = remainder, pki_exponent = exponent\<rparr>))"

definition validate_issuer_public_key_inputs :: "data_store \<Rightarrow> public_key_input krn_result" where
  "validate_issuer_public_key_inputs data =
     validate_public_key_inputs (ds_get data [0x90]) (ds_get data [0x92]) (ds_get data [0x9f, 0x32])"

definition validate_icc_public_key_inputs :: "data_store \<Rightarrow> public_key_input krn_result" where
  "validate_icc_public_key_inputs data =
     validate_public_key_inputs (ds_get data [0x9f, 0x46]) (ds_get data [0x9f, 0x48]) (ds_get data [0x9f, 0x47])"

section \<open>Static authentication data\<close>

definition static_authentication_record_bytes :: "static_authentication_record \<Rightarrow> bytes krn_result" where
  "static_authentication_record_bytes r =
     (if sar_sfi r \<le> 10 then
        rbind (parse_many (sar_body r)) (\<lambda>tlvs.
          if length tlvs \<noteq> 1 \<or> tlv_tag (tlvs ! 0) \<noteq> [0x70] \<or> \<not> tlv_constructed (tlvs ! 0)
          then Inl InvalidProfile
          else Inr (tlv_value (tlvs ! 0)))
      else Inr (sar_body r))"

definition append_authentication_data :: "bytes \<Rightarrow> bytes \<Rightarrow> bytes krn_result" where
  "append_authentication_data out v =
     rbind (ok_or (checked_add_usize (length out) (length v)) LengthOverflow) (\<lambda>next_len.
       if next_len > MAX_ODA_AUTHENTICATION_DATA_BYTES then Inl LengthOverflow else Inr (out @ v))"

definition parse_static_authentication_tag_list :: "bytes \<Rightarrow> bytes list krn_result" where
  "parse_static_authentication_tag_list input =
     parse_unique_primitive_tag_list input MAX_STATIC_AUTH_TAG_LIST_TAGS"

definition static_record_step :: "bytes \<Rightarrow> static_authentication_record \<Rightarrow> bytes krn_result" where
  "static_record_step out r =
     (if sar_sfi r = 0 \<or> sar_sfi r > 30 \<or> sar_record r = 0 \<or> sar_body r = [] then Inl InvalidArgument
      else rbind (static_authentication_record_bytes r) (append_authentication_data out))"

definition static_tag_step :: "data_store \<Rightarrow> bytes \<Rightarrow> bytes \<Rightarrow> bytes krn_result" where
  "static_tag_step data out tag =
     rbind (ok_or (ds_get data tag) MissingMandatoryTag) (append_authentication_data out)"

definition build_static_authentication_data ::
    "static_authentication_record list \<Rightarrow> data_store \<Rightarrow> bytes krn_result" where
  "build_static_authentication_data records data =
     (if records = [] then Inl MissingMandatoryTag
      else rbind (rfold static_record_step [] records) (\<lambda>out.
        case ds_get data [0x9f, 0x4a] of
          Some tag_list \<Rightarrow>
            rbind (parse_static_authentication_tag_list tag_list) (\<lambda>tags. rfold (static_tag_step data) out tags)
        | None \<Rightarrow> Inr out))"

section \<open>Reading a recovered block\<close>

text \<open>The readers take the block and a cursor and return what they read with the new cursor.\<close>

definition next_recovered_byte :: "bytes \<Rightarrow> nat \<Rightarrow> (byte \<times> nat) krn_result" where
  "next_recovered_byte recovered cursor =
     rbind (ok_or (get_at recovered cursor) ParseError) (\<lambda>v. Inr (v, cursor + 1))"

definition fixed_from_range :: "nat \<Rightarrow> bytes \<Rightarrow> nat \<Rightarrow> bytes krn_result" where
  "fixed_from_range n recovered start =
     rbind (ok_or (checked_add_usize start n) LengthOverflow) (\<lambda>stop.
       ok_or (get_range recovered start stop) ParseError)"

definition fixed_from_slice :: "nat \<Rightarrow> bytes \<Rightarrow> nat \<Rightarrow> (bytes \<times> nat) krn_result" where
  "fixed_from_slice n recovered cursor =
     rbind (ok_or (checked_add_usize cursor n) LengthOverflow) (\<lambda>stop.
     rbind (fixed_from_range n recovered cursor) (\<lambda>v. Inr (v, stop)))"

section \<open>Public key certificates\<close>

datatype recovered_certificate_kind = IssuerCertificate | IccCertificate

fun certificate_format :: "recovered_certificate_kind \<Rightarrow> byte" where
  "certificate_format IssuerCertificate = 0x02"
| "certificate_format IccCertificate = 0x04"

record recovered_public_key_certificate =
  rpk_kind :: recovered_certificate_kind
  rpk_identifier :: bytes
  rpk_expiration_date :: bytes
  rpk_serial_number :: bytes
  rpk_hash_algorithm_indicator :: byte
  rpk_public_key_algorithm_indicator :: byte
  rpk_public_key :: bytes
  rpk_exponent :: bytes
  rpk_hash_result :: bytes

definition parse_recovered_public_key_certificate ::
    "recovered_certificate_kind \<Rightarrow> bytes \<Rightarrow> bytes \<Rightarrow> bytes \<Rightarrow> recovered_public_key_certificate krn_result" where
  "parse_recovered_public_key_certificate kind recovered remainder exponent =
     (if length recovered < MIN_RECOVERED_CERTIFICATE_BYTES then Inl ParseError
      else if recovered ! 0 \<noteq> RECOVERED_CERTIFICATE_HEADER \<or> recovered ! 1 \<noteq> certificate_format kind \<or>
        last recovered \<noteq> RECOVERED_CERTIFICATE_TRAILER then Inl InvalidProfile
      else
        rbind (fixed_from_slice 10 recovered 2) (\<lambda>(identifier, cursor).
        rbind (fixed_from_slice 2 recovered cursor) (\<lambda>(expiration_date, cursor).
        rbind (fixed_from_slice 3 recovered cursor) (\<lambda>(serial_number, cursor).
        rbind (next_recovered_byte recovered cursor) (\<lambda>(hash_algorithm_indicator, cursor).
        rbind (next_recovered_byte recovered cursor) (\<lambda>(public_key_algorithm_indicator, cursor).
        rbind (next_recovered_byte recovered cursor) (\<lambda>(public_key_length, cursor).
        rbind (next_recovered_byte recovered cursor) (\<lambda>(exponent_length, cursor).
        if unat public_key_length = 0 \<or> unat exponent_length = 0 \<or> length exponent \<noteq> unat exponent_length
        then Inl InvalidProfile
        else rbind (ok_or (checked_sub_usize (length recovered) (SHA1_DIGEST_BYTES + 1)) ParseError) (\<lambda>fragment_end.
        if cursor \<ge> fragment_end then Inl ParseError
        else let fragment = slice_of recovered cursor fragment_end in
        if fragment = [] \<or> all_zero_or_ff fragment then Inl InvalidProfile
        else let public_key = fragment @ remainder in
        if length public_key \<noteq> unat public_key_length then Inl InvalidProfile
        else rbind (fixed_from_range SHA1_DIGEST_BYTES recovered fragment_end) (\<lambda>hash_result.
        if all_zero_or_ff hash_result then Inl InvalidProfile
        else Inr \<lparr>rpk_kind = kind, rpk_identifier = identifier, rpk_expiration_date = expiration_date,
          rpk_serial_number = serial_number, rpk_hash_algorithm_indicator = hash_algorithm_indicator,
          rpk_public_key_algorithm_indicator = public_key_algorithm_indicator, rpk_public_key = public_key,
          rpk_exponent = exponent, rpk_hash_result = hash_result\<rparr>))))))))))"

definition u8_try_from :: "nat \<Rightarrow> byte krn_result" where
  "u8_try_from n = (if n < 256 then Inr (word_of_nat n) else Inl LengthOverflow)"

definition recovered_public_key_certificate_hash_input ::
    "recovered_public_key_certificate \<Rightarrow> bytes \<Rightarrow> bytes krn_result" where
  "recovered_public_key_certificate_hash_input c authentication_data =
     rbind (u8_try_from (length (rpk_public_key c))) (\<lambda>public_key_len.
     rbind (u8_try_from (length (rpk_exponent c))) (\<lambda>exponent_len.
       Inr ([certificate_format (rpk_kind c)] @ rpk_identifier c @ rpk_expiration_date c @ rpk_serial_number c @
         [rpk_hash_algorithm_indicator c, rpk_public_key_algorithm_indicator c, public_key_len, exponent_len] @
         rpk_public_key c @ rpk_exponent c @ authentication_data)))"

definition recovered_public_key_certificate_hash ::
    "recovered_public_key_certificate \<Rightarrow> bytes \<Rightarrow> bytes krn_result" where
  "recovered_public_key_certificate_hash c authentication_data =
     (if rpk_hash_algorithm_indicator c \<noteq> EMV_SHA1_HASH_ALGORITHM_INDICATOR \<or>
         rpk_public_key_algorithm_indicator c \<noteq> EMV_RSA_PUBLIC_KEY_ALGORITHM_INDICATOR then Inl InvalidProfile
      else rbind (recovered_public_key_certificate_hash_input c authentication_data) (\<lambda>hash_input.
        Inr (sha1_finalize (sha1_update sha1_new hash_input))))"

definition recovered_public_key_certificate_hash_is_valid ::
    "recovered_public_key_certificate \<Rightarrow> bytes \<Rightarrow> bool krn_result" where
  "recovered_public_key_certificate_hash_is_valid c authentication_data =
     rbind (recovered_public_key_certificate_hash c authentication_data) (\<lambda>h. Inr (h = rpk_hash_result c))"

definition recover_and_verify_public_key_certificate ::
    "recovered_certificate_kind \<Rightarrow> bytes \<Rightarrow> bytes \<Rightarrow> bytes \<Rightarrow> bytes \<Rightarrow> bytes \<Rightarrow> bytes \<Rightarrow>
       recovered_public_key_certificate krn_result" where
  "recover_and_verify_public_key_certificate kind certificate_signature signing_modulus signing_exponent
       public_key_remainder public_key_exponent authentication_data =
     rbind (recover_rsa_public_block certificate_signature signing_modulus signing_exponent) (\<lambda>recovered.
     rbind (parse_recovered_public_key_certificate kind recovered public_key_remainder public_key_exponent) (\<lambda>c.
     rbind (recovered_public_key_certificate_hash_is_valid c authentication_data) (\<lambda>valid.
       if \<not> valid then Inl InvalidProfile else Inr c)))"

section \<open>Signed application data\<close>

datatype recovered_signed_data_kind = StaticApplicationData | DynamicApplicationData

fun signed_data_format :: "recovered_signed_data_kind \<Rightarrow> byte" where
  "signed_data_format StaticApplicationData = RECOVERED_SIGNED_STATIC_DATA_FORMAT"
| "signed_data_format DynamicApplicationData = RECOVERED_SIGNED_DYNAMIC_DATA_FORMAT"

record recovered_signed_application_data =
  rsd_kind :: recovered_signed_data_kind
  rsd_hash_algorithm_indicator :: byte
  rsd_data_authentication_code :: "bytes option"
  rsd_icc_dynamic_data :: "bytes option"
  rsd_padding :: bytes
  rsd_hash_result :: bytes

definition parse_signed_content ::
    "recovered_signed_data_kind \<Rightarrow> bytes \<Rightarrow> nat \<Rightarrow> nat \<Rightarrow> (bytes option \<times> bytes option \<times> bytes) krn_result" where
  "parse_signed_content kind recovered cursor hash_start = (case kind of
     StaticApplicationData \<Rightarrow>
       rbind (fixed_from_slice 2 recovered cursor) (\<lambda>(code, cursor).
       rbind (ok_or (get_range recovered cursor hash_start) ParseError) (\<lambda>padding.
         Inr (Some code, None, padding)))
   | DynamicApplicationData \<Rightarrow>
       rbind (next_recovered_byte recovered cursor) (\<lambda>(dynamic_data_length, cursor).
       if unat dynamic_data_length = 0 then Inl InvalidProfile
       else rbind (ok_or (checked_add_usize cursor (unat dynamic_data_length)) LengthOverflow) (\<lambda>dynamic_data_end.
       if dynamic_data_end > hash_start then Inl ParseError
       else let icc_dynamic_data = slice_of recovered cursor dynamic_data_end in
       rbind (ok_or (get_range recovered dynamic_data_end hash_start) ParseError) (\<lambda>padding.
         Inr (None, Some icc_dynamic_data, padding)))))"

definition parse_recovered_signed_application_data ::
    "recovered_signed_data_kind \<Rightarrow> bytes \<Rightarrow> recovered_signed_application_data krn_result" where
  "parse_recovered_signed_application_data kind recovered =
     (if length recovered < MIN_ODA_SIGNATURE_BYTES + SHA1_DIGEST_BYTES then Inl ParseError
      else if recovered ! 0 \<noteq> RECOVERED_SIGNED_DATA_HEADER \<or> recovered ! 1 \<noteq> signed_data_format kind \<or>
        last recovered \<noteq> RECOVERED_SIGNED_DATA_TRAILER then Inl InvalidProfile
      else
        rbind (next_recovered_byte recovered 2) (\<lambda>(hash_algorithm_indicator, cursor).
        rbind (ok_or (checked_sub_usize (length recovered) (SHA1_DIGEST_BYTES + 1)) ParseError) (\<lambda>hash_start.
        rbind (parse_signed_content kind recovered cursor hash_start) (\<lambda>(code, icc_dynamic_data, padding).
        if list_ex (\<lambda>b. b \<noteq> RECOVERED_PADDING_BYTE) padding then Inl InvalidProfile
        else rbind (fixed_from_range SHA1_DIGEST_BYTES recovered hash_start) (\<lambda>hash_result.
        if all_zero_or_ff hash_result then Inl InvalidProfile
        else Inr \<lparr>rsd_kind = kind, rsd_hash_algorithm_indicator = hash_algorithm_indicator,
          rsd_data_authentication_code = code, rsd_icc_dynamic_data = icc_dynamic_data,
          rsd_padding = padding, rsd_hash_result = hash_result\<rparr>)))))"

definition recovered_signed_application_data_hash_input ::
    "recovered_signed_application_data \<Rightarrow> bytes \<Rightarrow> bytes krn_result" where
  "recovered_signed_application_data_hash_input d authentication_data =
     rbind (case rsd_kind d of
         StaticApplicationData \<Rightarrow>
           rbind (ok_or (rsd_data_authentication_code d) InvalidProfile) (\<lambda>code.
             if rsd_icc_dynamic_data d \<noteq> None then Inl InvalidProfile else Inr code)
       | DynamicApplicationData \<Rightarrow>
           rbind (ok_or (rsd_icc_dynamic_data d) InvalidProfile) (\<lambda>dynamic_data.
           rbind (u8_try_from (length dynamic_data)) (\<lambda>dynamic_data_len.
             if rsd_data_authentication_code d \<noteq> None then Inl InvalidProfile
             else Inr (dynamic_data_len # dynamic_data)))) (\<lambda>content.
       Inr ([signed_data_format (rsd_kind d), rsd_hash_algorithm_indicator d] @ content @ rsd_padding d @
         authentication_data))"

definition recovered_signed_application_data_hash ::
    "recovered_signed_application_data \<Rightarrow> bytes \<Rightarrow> bytes krn_result" where
  "recovered_signed_application_data_hash d authentication_data =
     (if rsd_hash_algorithm_indicator d \<noteq> EMV_SHA1_HASH_ALGORITHM_INDICATOR then Inl InvalidProfile
      else if list_ex (\<lambda>b. b \<noteq> RECOVERED_PADDING_BYTE) (rsd_padding d) then Inl InvalidProfile
      else rbind (recovered_signed_application_data_hash_input d authentication_data) (\<lambda>hash_input.
        Inr (sha1_finalize (sha1_update sha1_new hash_input))))"

definition recovered_signed_application_data_hash_is_valid ::
    "recovered_signed_application_data \<Rightarrow> bytes \<Rightarrow> bool krn_result" where
  "recovered_signed_application_data_hash_is_valid d authentication_data =
     rbind (recovered_signed_application_data_hash d authentication_data) (\<lambda>h. Inr (h = rsd_hash_result d))"

definition recover_and_verify_signed_application_data ::
    "recovered_signed_data_kind \<Rightarrow> bytes \<Rightarrow> bytes \<Rightarrow> bytes \<Rightarrow> bytes \<Rightarrow>
       recovered_signed_application_data krn_result" where
  "recover_and_verify_signed_application_data kind signed_data_signature signing_modulus signing_exponent
       authentication_data =
     rbind (recover_rsa_public_block signed_data_signature signing_modulus signing_exponent) (\<lambda>recovered.
     rbind (parse_recovered_signed_application_data kind recovered) (\<lambda>d.
     rbind (recovered_signed_application_data_hash_is_valid d authentication_data) (\<lambda>valid.
       if \<not> valid then Inl InvalidProfile else Inr d)))"

definition verify_static_data_authentication ::
    "recovered_public_key_certificate \<Rightarrow> bytes \<Rightarrow> static_authentication_record list \<Rightarrow> data_store \<Rightarrow>
       recovered_signed_application_data krn_result" where
  "verify_static_data_authentication issuer_public_key signed_static_application_data records data =
     (if rpk_kind issuer_public_key \<noteq> IssuerCertificate then Inl InvalidProfile
      else rbind (build_static_authentication_data records data) (\<lambda>authentication_data.
        recover_and_verify_signed_application_data StaticApplicationData signed_static_application_data
          (rpk_public_key issuer_public_key) (rpk_exponent issuer_public_key) authentication_data))"

section \<open>Readers\<close>

lemma next_recovered_byte_iff:
  "next_recovered_byte r c = Inr (b, c') \<longleftrightarrow> c' = Suc c \<and> drop c r = b # drop (Suc c) r"
  by (auto simp: next_recovered_byte_def krn_simps Cons_nth_drop_Suc)
    (metis drop_all list.distinct(1) not_le_imp_less, metis hd_drop_conv_nth list.sel(1) drop_all list.distinct(1) not_le_imp_less)

lemma fixed_from_range_iff:
  "fixed_from_range n r c = Inr v \<longleftrightarrow>
     c + n < 2 ^ 64 \<and> c + n \<le> length r \<and> length v = n \<and> drop c r = v @ drop (c + n) r"
proof -
  have "v = slice_of r c (c + n) \<longleftrightarrow> length v = n \<and> drop c r = v @ drop (c + n) r" if "c + n \<le> length r"
    using that slice_append_drop [of c "c + n" r] by (auto simp: slice_of_def)
  then show ?thesis by (auto simp: fixed_from_range_def krn_simps)
qed

lemma fixed_from_slice_iff:
  "fixed_from_slice n r c = Inr (v, c') \<longleftrightarrow>
     c' = c + n \<and> c + n < 2 ^ 64 \<and> c + n \<le> length r \<and> length v = n \<and> drop c r = v @ drop (c + n) r"
  by (auto simp: fixed_from_slice_def fixed_from_range_iff krn_simps)

lemmas reader_simps = next_recovered_byte_iff fixed_from_range_iff fixed_from_slice_iff

definition certificate_block :: "recovered_public_key_certificate \<Rightarrow> bytes \<Rightarrow> bytes" where
  "certificate_block c fragment =
     [0x6a, certificate_format (rpk_kind c)] @ rpk_identifier c @ rpk_expiration_date c @ rpk_serial_number c @
     [rpk_hash_algorithm_indicator c, rpk_public_key_algorithm_indicator c,
      word_of_nat (length (rpk_public_key c)), word_of_nat (length (rpk_exponent c))] @
     fragment @ rpk_hash_result c @ [0xbc]"

definition wf_certificate :: "recovered_public_key_certificate \<Rightarrow> bool" where
  "wf_certificate c \<longleftrightarrow> length (rpk_identifier c) = 10 \<and> length (rpk_expiration_date c) = 2 \<and>
     length (rpk_serial_number c) = 3 \<and> length (rpk_hash_result c) = 20 \<and> \<not> all_zero_or_ff (rpk_hash_result c) \<and>
     0 < length (rpk_public_key c) \<and> length (rpk_public_key c) < 256 \<and>
     0 < length (rpk_exponent c) \<and> length (rpk_exponent c) < 256"

lemma block_parts:
  "2 \<le> length r \<Longrightarrow> r = r ! 0 # r ! 1 # drop 2 r" "r \<noteq> [] \<Longrightarrow> drop (length r - 1) r = [last r]"
  by (cases r; cases "tl r"; simp) (cases r rule: rev_cases; simp)

lemma parse_certificate_sound:
  assumes "parse_recovered_public_key_certificate kind r rem e = Inr c"
  shows "wf_certificate c \<and> rpk_kind c = kind \<and> rpk_exponent c = e \<and>
    (\<exists>fragment. rpk_public_key c = fragment @ rem \<and> \<not> all_zero_or_ff fragment \<and> r = certificate_block c fragment)"
proof -
  note m = assms [unfolded parse_recovered_public_key_certificate_def if_Inl_eq_Inr rbind_eq_Inr Let_def
      prod.case_eq_if]
  obtain ident expir serial hai pai pkl el h where p:
    "length ident = 10" "drop 2 r = ident @ drop 12 r"
    "length expir = 2" "drop 12 r = expir @ drop 14 r"
    "length serial = 3" "drop 14 r = serial @ drop 17 r"
    "drop 17 r = hai # drop 18 r" "drop 18 r = pai # drop 19 r"
    "drop 19 r = pkl # drop 20 r" "drop 20 r = el # drop 21 r"
    "0 < unat pkl" "0 < unat el" "length e = unat el" "\<not> length r - 21 \<le> 21"
    "\<not> all_zero_or_ff (slice_of r 21 (length r - 21))" "length r + length rem - 42 = unat pkl"
    "length h = 20" "drop (length r - 21) r = h @ drop (length r - Suc 0) r" "\<not> all_zero_or_ff h" and
    c: "\<lparr>rpk_kind = kind, rpk_identifier = ident, rpk_expiration_date = expir,
              rpk_serial_number = serial, rpk_hash_algorithm_indicator = hai,
              rpk_public_key_algorithm_indicator = pai,
              rpk_public_key = slice_of r 21 (length r - 21) @ rem, rpk_exponent = e, rpk_hash_result = h\<rparr> = c"
    using m
    apply (simp add: reader_simps krn_simps oda_constants cong: conj_cong)
    apply (elim conjE exE)
    apply (rule that)
    apply assumption+
    done
  have h: "35 \<le> length r" "r ! 0 = 0x6a" "r ! 1 = certificate_format kind" "last r = 0xbc"
    using m by (simp_all add: oda_constants)
  let ?f = "slice_of r 21 (length r - 21)"
  have len: "length (?f @ rem) = unat pkl" using p(14,16) by simp
  have "drop 21 r = ?f @ drop (length r - 21) r" using p(14) by (intro slice_append_drop [symmetric]) simp
  moreover have "drop (length r - 1) r = [0xbc]" using h(1,4) by (subst block_parts(2)) auto
  moreover have "r = 0x6a # certificate_format kind # drop 2 r" using block_parts(1) [of r] h(1-3) by simp
  ultimately have "r = certificate_block c ?f"
    using p(2,4,6-10,13,18) len by (simp add: certificate_block_def c [symmetric])
  with p(1,3,5,11-13,15,17,19) len show ?thesis by (auto simp: wf_certificate_def c [symmetric])
qed

lemma parse_certificate_complete:
  assumes "wf_certificate c" "rpk_public_key c = fragment @ rem" "\<not> all_zero_or_ff fragment"
  shows "parse_recovered_public_key_certificate (rpk_kind c) (certificate_block c fragment) rem (rpk_exponent c) = Inr c"
proof -
  have "fragment \<noteq> []" using assms(3) by (auto simp: all_zero_or_ff_def)
  moreover have "length fragment + length rem < 256" using assms(1,2) by (simp add: wf_certificate_def)
  moreover define pkl where "pkl = (word_of_nat (length (rpk_public_key c)) :: byte)"
  moreover define el where "el = (word_of_nat (length (rpk_exponent c)) :: byte)"
  moreover have "unat pkl = length fragment + length rem" "unat el = length (rpk_exponent c)"
    using assms(1,2) unfolding pkl_def el_def by (subst unat_of_nat_byte; simp add: wf_certificate_def)+
  moreover have "certificate_block c fragment = [0x6a, certificate_format (rpk_kind c)] @
      rpk_identifier c @ rpk_expiration_date c @ rpk_serial_number c @
      [rpk_hash_algorithm_indicator c, rpk_public_key_algorithm_indicator c, pkl, el] @
      fragment @ rpk_hash_result c @ [0xbc]"
    by (simp only: certificate_block_def pkl_def el_def)
  moreover have "drop (21 + n) xs = drop n (drop 21 xs)" for n and xs :: bytes by (simp add: add.commute)
  ultimately show ?thesis using assms
    by (simp add: recovered_public_key_certificate.equality parse_recovered_public_key_certificate_def wf_certificate_def fixed_from_slice_def
        fixed_from_range_def next_recovered_byte_def get_range_def slice_of_def get_at_def checked_add_usize_def
        checked_sub_usize_def oda_constants nth_append del: drop_drop)
qed

lemma parse_certificate_iff:
  "parse_recovered_public_key_certificate kind r rem e = Inr c \<longleftrightarrow>
     wf_certificate c \<and> rpk_kind c = kind \<and> rpk_exponent c = e \<and>
     (\<exists>fragment. rpk_public_key c = fragment @ rem \<and> \<not> all_zero_or_ff fragment \<and> r = certificate_block c fragment)"
  using parse_certificate_sound parse_certificate_complete by blast

text \<open>What the hash of a certificate covers.\<close>

definition certificate_content :: "recovered_public_key_certificate \<Rightarrow> bytes" where
  "certificate_content c =
     [certificate_format (rpk_kind c)] @ rpk_identifier c @ rpk_expiration_date c @ rpk_serial_number c @
     [rpk_hash_algorithm_indicator c, rpk_public_key_algorithm_indicator c,
      word_of_nat (length (rpk_public_key c)), word_of_nat (length (rpk_exponent c))] @
     rpk_public_key c @ rpk_exponent c"

lemma sha1_of: "sha1_finalize (sha1_update sha1_new m) = fips_sha1 m"
  using sha1.fin_foldl [of "[m]"] by simp

lemma certificate_hash_is_valid_iff:
  "wf_certificate c \<Longrightarrow> recovered_public_key_certificate_hash_is_valid c auth = Inr True \<longleftrightarrow>
     rpk_hash_algorithm_indicator c = 1 \<and> rpk_public_key_algorithm_indicator c = 1 \<and>
     rpk_hash_result c = fips_sha1 (certificate_content c @ auth)"
  by (auto simp: wf_certificate_def recovered_public_key_certificate_hash_is_valid_def
      recovered_public_key_certificate_hash_def recovered_public_key_certificate_hash_input_def u8_try_from_def
      oda_constants sha1_of certificate_content_def krn_simps)

section \<open>The layout of signed application data\<close>

definition signed_content :: "recovered_signed_application_data \<Rightarrow> bytes" where
  "signed_content d = (case rsd_kind d of
     StaticApplicationData \<Rightarrow> the (rsd_data_authentication_code d)
   | DynamicApplicationData \<Rightarrow> word_of_nat (length (the (rsd_icc_dynamic_data d))) # the (rsd_icc_dynamic_data d))"

definition signed_block :: "recovered_signed_application_data \<Rightarrow> bytes" where
  "signed_block d =
     [0x6a, signed_data_format (rsd_kind d), rsd_hash_algorithm_indicator d] @ signed_content d @ rsd_padding d @
     rsd_hash_result d @ [0xbc]"

definition wf_signed_data :: "recovered_signed_application_data \<Rightarrow> bool" where
  "wf_signed_data d \<longleftrightarrow>
     (case rsd_kind d of
        StaticApplicationData \<Rightarrow> rsd_icc_dynamic_data d = None \<and>
          (case rsd_data_authentication_code d of Some code \<Rightarrow> length code = 2 | None \<Rightarrow> False)
      | DynamicApplicationData \<Rightarrow> rsd_data_authentication_code d = None \<and>
          (case rsd_icc_dynamic_data d of Some v \<Rightarrow> v \<noteq> [] \<and> length v < 256 | None \<Rightarrow> False)) \<and>
     list_all (\<lambda>b. b = 0xbb) (rsd_padding d) \<and>
     length (rsd_hash_result d) = 20 \<and> \<not> all_zero_or_ff (rsd_hash_result d)"

lemma get_range_drop:
  assumes "c \<le> length r" "e \<le> length r"
  shows "get_range r c e = Some p \<longleftrightarrow> drop c r = p @ drop e r"
proof (cases "c \<le> e")
  case True
  with assms slice_append_drop [of c e r] show ?thesis by auto
next
  case False
  with assms have "length (drop c r) < length (drop e r)" by simp
  then have "drop c r \<noteq> p @ drop e r" by (metis length_append not_add_less2)
  with False show ?thesis by simp
qed

lemma parse_signed_static_iff:
  assumes "4 \<le> hash_start" "hash_start < length r"
  shows "parse_signed_content StaticApplicationData r 3 hash_start = Inr (code, icc, padding) \<longleftrightarrow>
     icc = None \<and> (\<exists>c. code = Some c \<and> length c = 2 \<and> drop 3 r = c @ padding @ drop hash_start r)"
proof -
  have "5 \<le> length r" using assms by simp
  then have "parse_signed_content StaticApplicationData r 3 hash_start = Inr (code, icc, padding) \<longleftrightarrow>
     icc = None \<and> (\<exists>c. code = Some c \<and> length c = 2 \<and> drop 3 r = c @ drop 5 r \<and> drop 5 r = padding @ drop hash_start r)"
    using assms by (auto simp: parse_signed_content_def reader_simps krn_simps get_range_drop
        simp del: get_range_eq_Some)
  moreover have "drop 5 r = padding @ drop hash_start r"
    if "length c = 2" "drop 3 r = c @ padding @ drop hash_start r" for c
    using arg_cong [OF that(2), of "drop 2"] that(1) by simp
  ultimately show ?thesis by metis
qed

lemma parse_signed_dynamic_iff:
  assumes "4 \<le> hash_start" "hash_start < length r"
  shows "parse_signed_content DynamicApplicationData r 3 hash_start = Inr (code, icc, padding) \<longleftrightarrow>
     code = None \<and> (\<exists>v. icc = Some v \<and> v \<noteq> [] \<and> length v < 256 \<and>
       drop 3 r = word_of_nat (length v) # v @ padding @ drop hash_start r)" (is "?l \<longleftrightarrow> ?r")
proof
  assume ?l
  then obtain b where b: "drop 3 r = b # drop 4 r" "unat b \<noteq> 0" "4 + unat b \<le> hash_start" "code = None"
    "icc = Some (slice_of r 4 (4 + unat b))" "get_range r (4 + unat b) hash_start = Some padding"
    unfolding parse_signed_content_def rbind_eq_Inr if_Inl_eq_Inr
    by (auto simp: reader_simps krn_simps if_Inl_eq_Inr Let_def simp del: get_range_eq_Some)
  let ?v = "slice_of r 4 (4 + unat b)"
  have len: "length ?v = unat b" using b(3) assms by simp
  moreover have "drop 4 r = ?v @ drop (4 + unat b) r" using b(3) by (intro slice_append_drop [symmetric]) simp
  moreover have "drop (4 + unat b) r = padding @ drop hash_start r"
    using b(3,6) assms by (subst get_range_drop [symmetric]) simp_all
  ultimately have "drop 3 r = word_of_nat (length ?v) # ?v @ padding @ drop hash_start r"
    using b(1) by simp
  moreover have "length ?v < 256" "?v \<noteq> []" using len b(2) by auto
  ultimately show ?r using b(4,5) by blast
next
  assume ?r
  then obtain v where v: "code = None" "icc = Some v" "v \<noteq> []" "length v < 256"
    "drop 3 r = word_of_nat (length v) # v @ padding @ drop hash_start r" by blast
  define b where "b = (word_of_nat (length v) :: byte)"
  have b: "unat b = length v" using v(4) by (simp add: b_def unat_of_nat_byte)
  have d4: "drop 4 r = v @ padding @ drop hash_start r" using arg_cong [OF v(5), of "drop 1"] by simp
  have dv: "drop (4 + length v) r = padding @ drop hash_start r"
    using arg_cong [OF d4, of "drop (length v)"] by (simp add: add.commute)
  have "length r - 4 = length v + length padding + (length r - hash_start)" using arg_cong [OF d4, of length] by simp
  then have le: "4 + length v \<le> hash_start" using assms by linarith
  have "slice_of r 4 (4 + length v) = v" using d4 by (simp add: slice_of_def)
  moreover have "drop 3 r = b # drop 4 r" using v(5) d4 by (simp add: b_def)
  moreover have "get_range r (4 + length v) hash_start = Some padding"
    using le dv assms by (subst get_range_drop) simp_all
  ultimately show ?l using v(1-4) b le
    by (simp add: parse_signed_content_def reader_simps krn_simps checked_add_usize_def
        del: get_range_eq_Some)
qed

lemma parse_signed_content_iff:
  assumes "4 \<le> hash_start" "hash_start < length r"
  shows "parse_signed_content kind r 3 hash_start = Inr (code, icc, padding) \<and>
       list_all (\<lambda>b. b = 0xbb) padding \<and> length h = 20 \<and> \<not> all_zero_or_ff h \<and> drop hash_start r = h @ [0xbc] \<longleftrightarrow>
     (let d = \<lparr>rsd_kind = kind, rsd_hash_algorithm_indicator = hai, rsd_data_authentication_code = code,
           rsd_icc_dynamic_data = icc, rsd_padding = padding, rsd_hash_result = h\<rparr> in
      wf_signed_data d \<and> drop hash_start r = h @ [0xbc] \<and> drop 3 r = signed_content d @ padding @ h @ [0xbc])"
  using assms
  by (cases kind) (auto simp: parse_signed_static_iff parse_signed_dynamic_iff wf_signed_data_def
      signed_content_def split: option.splits)

lemma list_ex_padding: "list_ex (\<lambda>b. b \<noteq> 0xbb) padding \<longleftrightarrow> \<not> list_all (\<lambda>b. b = 0xbb) (padding :: bytes)"
  by (simp add: list_ex_iff list_all_iff)

lemma parse_signed_sound:
  assumes "parse_recovered_signed_application_data kind r = Inr d"
  shows "wf_signed_data d \<and> 28 \<le> length r \<and> rsd_kind d = kind \<and> r = signed_block d"
proof -
  note m = assms [unfolded parse_recovered_signed_application_data_def if_Inl_eq_Inr rbind_eq_Inr prod.case_eq_if]
  let ?hs = "length r - 21"
  from m have h: "28 \<le> length r" "r ! 0 = 0x6a" "r ! 1 = signed_data_format kind" "last r = 0xbc"
    by (simp_all add: oda_constants)
  obtain hai code icc padding h where p: "drop 2 r = hai # drop 3 r"
    "parse_signed_content kind r 3 ?hs = Inr (code, icc, padding)" "list_all (\<lambda>b. b = 0xbb) padding"
    "length h = 20" "drop ?hs r = h @ drop (length r - 1) r" "\<not> all_zero_or_ff h" and
    d: "\<lparr>rsd_kind = kind, rsd_hash_algorithm_indicator = hai, rsd_data_authentication_code = code,
           rsd_icc_dynamic_data = icc, rsd_padding = padding, rsd_hash_result = h\<rparr> = d"
    using m
    apply (simp add: reader_simps krn_simps oda_constants list_ex_padding cong: conj_cong)
    apply (elim conjE exE)
    apply (rule that)
    apply (assumption | simp)+
    done
  have l: "drop (length r - 1) r = [0xbc]" using h(1,4) by (subst block_parts(2)) auto
  have "4 \<le> ?hs" "?hs < length r" using h(1) by simp_all
  from parse_signed_content_iff [OF this, of kind code icc padding h hai] p l
  have "wf_signed_data d \<and> drop 3 r = signed_content d @ padding @ h @ [0xbc]" by (simp add: d)
  moreover have "r = 0x6a # signed_data_format kind # drop 2 r" using block_parts(1) [of r] h(1-3) by simp
  ultimately show ?thesis using p(1) h(1) by (auto simp: signed_block_def d [symmetric])
qed

lemma parse_signed_complete:
  assumes wf: "wf_signed_data d" and len: "28 \<le> length (signed_block d)" "length (signed_block d) \<le> 2 ^ 64"
  shows "parse_recovered_signed_application_data (rsd_kind d) (signed_block d) = Inr d"
proof -
  define r where "r = signed_block d"
  define hs where "hs = length r - 21"
  have hl: "length (rsd_hash_result d) = 20" using wf by (simp add: wf_signed_data_def)
  have c: "2 \<le> length (signed_content d)"
    using wf by (auto simp: wf_signed_data_def signed_content_def Suc_le_eq split: recovered_signed_data_kind.splits option.splits)
  have hs: "hs = 3 + length (signed_content d) + length (rsd_padding d)" using hl by (simp add: hs_def r_def signed_block_def)
  have lr: "length r = hs + 21" using hl by (simp add: hs r_def signed_block_def)
  have dh: "drop hs r = rsd_hash_result d @ [0xbc]"
  proof -
    define p where "p = [0x6a, signed_data_format (rsd_kind d), rsd_hash_algorithm_indicator d] @ signed_content d @ rsd_padding d"
    have "r = p @ rsd_hash_result d @ [0xbc]" "hs = length p" by (simp_all add: hs p_def r_def signed_block_def)
    then show ?thesis by simp
  qed
  have "4 \<le> hs" "hs < length r" using c lr by (simp_all add: hs)
  note b = this
  have rec: "\<lparr>rsd_kind = rsd_kind d, rsd_hash_algorithm_indicator = rsd_hash_algorithm_indicator d,
      rsd_data_authentication_code = rsd_data_authentication_code d, rsd_icc_dynamic_data = rsd_icc_dynamic_data d,
      rsd_padding = rsd_padding d, rsd_hash_result = rsd_hash_result d\<rparr> = d" by simp
  have "drop 3 r = signed_content d @ rsd_padding d @ rsd_hash_result d @ [0xbc]"
    by (simp add: r_def signed_block_def)
  with wf dh have content: "parse_signed_content (rsd_kind d) r 3 hs =
      Inr (rsd_data_authentication_code d, rsd_icc_dynamic_data d, rsd_padding d)"
    using parse_signed_content_iff [OF b, of "rsd_kind d" "rsd_data_authentication_code d" "rsd_icc_dynamic_data d"
        "rsd_padding d" "rsd_hash_result d" "rsd_hash_algorithm_indicator d"]
    unfolding Let_def rec by blast
  have "next_recovered_byte r 2 = Inr (rsd_hash_algorithm_indicator d, 3)"
    by (simp add: reader_simps r_def signed_block_def)
  moreover have "drop (hs + 20) r = drop 20 (drop hs r)" by (simp add: add.commute)
  then have "drop (hs + 20) r = [0xbc]" using hl by (simp add: dh)
  then have "fixed_from_range 20 r hs = Inr (rsd_hash_result d)"
    using dh hl lr len by (simp add: reader_simps r_def)
  moreover have "r ! 0 = 0x6a" "r ! 1 = signed_data_format (rsd_kind d)" "last r = 0xbc"
    by (simp_all add: r_def signed_block_def)
  ultimately have "parse_recovered_signed_application_data (rsd_kind d) r = Inr d"
    using content wf lr len(1) [folded r_def] unfolding parse_recovered_signed_application_data_def oda_constants
    by (simp add: list_ex_padding checked_sub_usize_def wf_signed_data_def)
  then show ?thesis by (simp add: r_def)
qed

lemma parse_signed_iff:
  "length r \<le> 2 ^ 64 \<Longrightarrow> parse_recovered_signed_application_data kind r = Inr d \<longleftrightarrow>
     wf_signed_data d \<and> 28 \<le> length r \<and> rsd_kind d = kind \<and> r = signed_block d"
  using parse_signed_sound parse_signed_complete by blast

lemma signed_hash_is_valid_iff:
  "wf_signed_data d \<Longrightarrow> recovered_signed_application_data_hash_is_valid d auth = Inr True \<longleftrightarrow>
     rsd_hash_algorithm_indicator d = 1 \<and>
     rsd_hash_result d = fips_sha1 ([signed_data_format (rsd_kind d), rsd_hash_algorithm_indicator d] @
       signed_content d @ rsd_padding d @ auth)"
  by (auto simp: wf_signed_data_def signed_content_def recovered_signed_application_data_hash_is_valid_def
      recovered_signed_application_data_hash_def recovered_signed_application_data_hash_input_def u8_try_from_def
      oda_constants list_ex_padding sha1_of split: recovered_signed_data_kind.splits option.splits)

section \<open>What verification accepts\<close>

text \<open>The value the RSA operation recovers.\<close>

definition opens_to :: "bytes \<Rightarrow> bytes \<Rightarrow> bytes \<Rightarrow> bytes \<Rightarrow> bool" where
  "opens_to s n e block \<longleftrightarrow> rsa_exponent_ok e \<and> rsa_operands_ok s n \<and>
     length block = length n \<and> be_value block = be_value s ^ be_value e mod be_value n"

lemma recover_rsa_opens: "recover_rsa_public_block s n e = Inr block \<longleftrightarrow> opens_to s n e block"
proof -
  have "be_value s ^ be_value e mod be_value n < 256 ^ length n" if "rsa_operands_ok s n"
  proof -
    have "be_value s ^ be_value e mod be_value n < be_value n" using that by (simp add: rsa_operands_ok_def)
    with be_value_less [of n] show ?thesis by simp
  qed
  then show ?thesis using be_value_eq_iff [of block "length n" "be_value s ^ be_value e mod be_value n"]
    by (auto simp: recover_rsa_eq opens_to_def)
qed

lemma opens_to_length: "opens_to s n e block \<Longrightarrow> length block \<le> 2 ^ 64"
  by (simp add: opens_to_def rsa_operands_ok_def)

section \<open>What authentication data is built\<close>

definition record_contribution :: "static_authentication_record \<Rightarrow> bytes \<Rightarrow> bool" where
  "record_contribution r v \<longleftrightarrow>
     sar_sfi r \<noteq> 0 \<and> sar_sfi r \<le> 30 \<and> sar_record r \<noteq> 0 \<and> sar_body r \<noteq> [] \<and>
     (if sar_sfi r \<le> 10 then \<exists>cs. parse_many (sar_body r) = Inr [Tlv [0x70] v True cs] else v = sar_body r)"

lemma append_authentication_data_iff:
  "append_authentication_data out v = Inr res \<longleftrightarrow> res = out @ v \<and> length res \<le> 65535"
  by (auto simp: append_authentication_data_def krn_simps oda_constants)

lemma append_fold_iff:
  assumes "length out \<le> 65535"
  shows "rfold (\<lambda>out x. rbind (g x) (append_authentication_data out)) out xs = Inr res \<longleftrightarrow>
     (\<exists>vs. list_all2 (\<lambda>x v. g x = Inr v) xs vs \<and> res = out @ concat vs \<and> length res \<le> 65535)"
  using assms
proof (induction xs arbitrary: out)
  case (Cons x xs)
  show ?case
  proof
    assume "rfold (\<lambda>out x. rbind (g x) (append_authentication_data out)) out (x # xs) = Inr res"
    then obtain v where v: "g x = Inr v" "length (out @ v) \<le> 65535"
      "rfold (\<lambda>out x. rbind (g x) (append_authentication_data out)) (out @ v) xs = Inr res"
      by (auto simp: krn_simps append_authentication_data_iff)
    with Cons.IH [OF v(2)] obtain vs where "list_all2 (\<lambda>x v. g x = Inr v) xs vs" "res = (out @ v) @ concat vs"
      "length res \<le> 65535" by blast
    with v(1) show "\<exists>vs. list_all2 (\<lambda>x v. g x = Inr v) (x # xs) vs \<and> res = out @ concat vs \<and> length res \<le> 65535"
      by (intro exI [of _ "v # vs"]) simp
  next
    assume "\<exists>vs. list_all2 (\<lambda>x v. g x = Inr v) (x # xs) vs \<and> res = out @ concat vs \<and> length res \<le> 65535"
    then obtain v vs where v: "g x = Inr v" "list_all2 (\<lambda>x v. g x = Inr v) xs vs" "res = (out @ v) @ concat vs"
      "length res \<le> 65535" by (auto simp: list_all2_Cons1)
    then have l: "length (out @ v) \<le> 65535" by simp
    then have "append_authentication_data out v = Inr (out @ v)" by (simp add: append_authentication_data_iff)
    moreover have "rfold (\<lambda>out x. rbind (g x) (append_authentication_data out)) (out @ v) xs = Inr res"
      using Cons.IH [OF l] v by blast
    ultimately show "rfold (\<lambda>out x. rbind (g x) (append_authentication_data out)) out (x # xs) = Inr res"
      using v(1) by simp
  qed
qed auto

definition record_value :: "static_authentication_record \<Rightarrow> bytes krn_result" where
  "record_value r =
     (if sar_sfi r = 0 \<or> sar_sfi r > 30 \<or> sar_record r = 0 \<or> sar_body r = [] then Inl InvalidArgument
      else static_authentication_record_bytes r)"

lemma static_record_step_eq: "static_record_step out r = rbind (record_value r) (append_authentication_data out)"
  by (simp add: static_record_step_def record_value_def)

lemma record_value_iff: "record_value r = Inr v \<longleftrightarrow> record_contribution r v"
proof -
  have "static_authentication_record_bytes r = Inr v \<longleftrightarrow> (\<exists>cs. parse_many (sar_body r) = Inr [Tlv [0x70] v True cs])"
    if "sar_sfi r \<le> 10"
  proof -
    have "(\<exists>tlvs. parse_many (sar_body r) = Inr tlvs \<and>
        \<not> (length tlvs \<noteq> 1 \<or> tlv_tag (tlvs ! 0) \<noteq> [0x70] \<or> \<not> tlv_constructed (tlvs ! 0)) \<and> tlv_value (tlvs ! 0) = v)
      \<longleftrightarrow> (\<exists>cs. parse_many (sar_body r) = Inr [Tlv [0x70] v True cs])" (is "?l \<longleftrightarrow> ?r")
    proof
      assume ?l
      then obtain t where "parse_many (sar_body r) = Inr [t]" "tlv_tag t = [0x70]" "tlv_constructed t" "tlv_value t = v"
        by (auto simp: length_Suc_conv)
      then show ?r by (cases t) auto
    qed auto
    then show ?thesis using that
      by (simp add: static_authentication_record_bytes_def rbind_eq_Inr if_Inl_eq_Inr)
  qed
  then show ?thesis
    by (auto simp: record_value_def record_contribution_def if_Inl_eq_Inr not_less static_authentication_record_bytes_def)
qed

definition listed_values :: "data_store \<Rightarrow> bytes list \<Rightarrow> bool" where
  "listed_values data vs \<longleftrightarrow>
     (case ds_get data [0x9f, 0x4a] of
        None \<Rightarrow> vs = []
      | Some tag_list \<Rightarrow> \<exists>tags. tags \<noteq> [] \<and> length tags \<le> 16 \<and> distinct tags \<and> list_all primitive_tag tags \<and>
          tag_list = concat tags \<and> map (ds_get data) tags = map Some vs)"

definition authentication_data_of :: "static_authentication_record list \<Rightarrow> data_store \<Rightarrow> bytes \<Rightarrow> bool" where
  "authentication_data_of records data out \<longleftrightarrow>
     records \<noteq> [] \<and> (\<exists>vs ws. list_all2 record_contribution records vs \<and> listed_values data ws \<and>
       out = concat vs @ concat ws \<and> length out \<le> 65535)"

lemma build_static_iff:
  "build_static_authentication_data records data = Inr out \<longleftrightarrow>
     records \<noteq> [] \<and> (\<exists>vs ws. list_all2 record_contribution records vs \<and> listed_values data ws \<and>
       out = concat vs @ concat ws \<and> length out \<le> 65535)"
proof -
  have records: "rfold static_record_step [] records = Inr a \<longleftrightarrow>
      (\<exists>vs. list_all2 record_contribution records vs \<and> a = concat vs \<and> length a \<le> 65535)" for a
    using append_fold_iff [of "[]" record_value records a]
    by (simp add: static_record_step_eq [abs_def] record_value_iff)
  have tags: "rfold (static_tag_step data) a tags = Inr b \<longleftrightarrow>
      (\<exists>ws. map (ds_get data) tags = map Some ws \<and> b = a @ concat ws \<and> length b \<le> 65535)"
    if "length a \<le> 65535" for a b tags
    using append_fold_iff [OF that, of "\<lambda>tag. ok_or (ds_get data tag) MissingMandatoryTag" tags b]
    by (simp add: static_tag_step_def [abs_def] ok_or_eq_Inr list.rel_eq [symmetric] list.rel_map)
  show ?thesis
  proof (cases "ds_get data [0x9f, 0x4a]")
    case None
    then show ?thesis
      by (auto simp: build_static_authentication_data_def rbind_eq_Inr records listed_values_def)
  next
    case (Some tl)
    have listed: "listed_values data ws \<longleftrightarrow>
        (\<exists>tags. parse_static_authentication_tag_list tl = Inr tags \<and> map (ds_get data) tags = map Some ws)" for ws
      by (auto simp: listed_values_def Some parse_static_authentication_tag_list_def
          parse_unique_primitive_tag_list_iff oda_constants)
    have "build_static_authentication_data records data = Inr out \<longleftrightarrow>
        records \<noteq> [] \<and> (\<exists>a. rfold static_record_step [] records = Inr a \<and>
          (\<exists>tags. parse_static_authentication_tag_list tl = Inr tags \<and> rfold (static_tag_step data) a tags = Inr out))"
      by (simp add: build_static_authentication_data_def rbind_eq_Inr if_Inl_eq_Inr Some)
    also have "\<dots> \<longleftrightarrow> records \<noteq> [] \<and> (\<exists>vs ws. list_all2 record_contribution records vs \<and> listed_values data ws \<and>
       out = concat vs @ concat ws \<and> length out \<le> 65535)" (is "?l \<longleftrightarrow> ?r")
    proof
      assume ?l
      then obtain a ts where ne: "records \<noteq> []" and a: "rfold static_record_step [] records = Inr a" and
        ts: "parse_static_authentication_tag_list tl = Inr ts" "rfold (static_tag_step data) a ts = Inr out" by blast
      from a obtain vs where vs: "list_all2 record_contribution records vs" "a = concat vs" "length a \<le> 65535"
        unfolding records by (elim exE conjE)
      from ts(2) obtain ws where "map (ds_get data) ts = map Some ws" "out = a @ concat ws" "length out \<le> 65535"
        unfolding tags [OF vs(3)] by (elim exE conjE)
      with vs(2) have ws: "map (ds_get data) ts = map Some ws" "out = concat vs @ concat ws" "length out \<le> 65535"
        by simp_all
      show ?r unfolding listed by (intro conjI exI) (rule ne vs(1) ts(1) ws)+
    next
      assume ?r
      then obtain vs ws ts where ne: "records \<noteq> []" and vs: "list_all2 record_contribution records vs" and
        ts: "parse_static_authentication_tag_list tl = Inr ts" "map (ds_get data) ts = map Some ws" and
        out: "out = concat vs @ concat ws" "length out \<le> 65535" unfolding listed by (elim exE conjE)
      from out have len: "length (concat vs) \<le> 65535" by simp
      with vs have "rfold static_record_step [] records = Inr (concat vs)" unfolding records by (intro conjI exI) (assumption | rule refl)+
      moreover have "rfold (static_tag_step data) (concat vs) ts = Inr out"
        unfolding tags [OF len] using ts(2) out by (intro conjI exI) assumption+
      ultimately show ?l using ne ts(1) by (intro conjI exI) assumption+
    qed
    finally show ?thesis .
  qed
qed

section \<open>The decisions\<close>

lemma find_split:
  "List.find P xs = Some x \<longleftrightarrow> (\<exists>pre post. xs = pre @ x # post \<and> P x \<and> list_all (\<lambda>y. \<not> P y) pre)"
proof (induction xs)
  case (Cons y xs)
  show ?case
  proof (cases "P y")
    case True
    have "List.find P (y # xs) = Some x \<longleftrightarrow> x = y" using True by auto
    moreover have "(\<exists>pre post. y # xs = pre @ x # post \<and> P x \<and> list_all (\<lambda>y. \<not> P y) pre) \<longleftrightarrow> x = y"
      using True by (fastforce simp: Cons_eq_append_conv)
    ultimately show ?thesis by simp
  next
    case False
    then show ?thesis by (simp add: Cons.IH Cons_eq_append_conv) (metis list.pred_inject(2))
  qed
qed simp

lemma find_distinct:
  "distinct (map f xs) \<Longrightarrow> x \<in> set xs \<Longrightarrow> P x \<Longrightarrow> List.find (\<lambda>y. f y = f x \<and> P y) xs = Some x"
  by (induction xs) (auto simp: image_iff)

lemma validated_exponent_ok:
  "validate_capk_public_key_components modulus exponent = Inr () \<Longrightarrow> rsa_exponent_ok exponent"
proof -
  assume v: "validate_capk_public_key_components modulus exponent = Inr ()"
  then have e: "exponent \<noteq> []" "length exponent \<le> 3" "\<not> all_zero_or_ff exponent"
    by (auto simp: validate_capk_public_key_components_def MAX_CAPK_RSA_EXPONENT_BYTES_def is_dummy_bytes_def
        all_zero_or_ff_def if_Inl_eq_Inr)
  with v have "parse_rsa_public_exponent exponent \<noteq> Inl InvalidProfile"
    by (auto simp: validate_capk_public_key_components_def parse_rsa_public_exponent_def if_Inl_eq_Inr Let_def)
  with parse_rsa_public_exponent_eq [of exponent] show ?thesis by (auto split: sum.splits)
qed

lemma capk_checksum_is_valid_iff:
  "capk_checksum_is_valid c \<longleftrightarrow>
     capk_checksum_value c = fips_sha1 (list5 (capk_rid c) @ [capk_key_index c] @ capk_modulus c @ capk_exponent c)"
  by (auto simp: capk_checksum_is_valid_def oda_capk_checksum_def capk_checksum_components_eq SHA1_DIGEST_BYTES_def)

text \<open>A certification authority key is selected exactly when the profiles' integrity was verified
  and, in the first scheme with the identifier, the first key with the index that has not expired
  on the day carries the SHA-1 of its identifier, index, modulus and exponent: an expired or
  altered key is never used.\<close>

theorem select_capk_iff:
  "select_capk profiles rid key_index day integrity = Inr c \<longleftrightarrow>
     integrity = CapkVerified \<and>
     (\<exists>before scheme after older newer.
        ps_schemes profiles = before @ scheme # after \<and> sp_rid scheme = rid \<and>
        list_all (\<lambda>s. sp_rid s \<noteq> rid) before \<and>
        sp_capks scheme = older @ c # newer \<and> capk_key_index c = key_index \<and> day \<le> capk_expiry c \<and>
        list_all (\<lambda>k. \<not> (capk_key_index k = key_index \<and> day \<le> capk_expiry k)) older) \<and>
     capk_checksum_value c = fips_sha1 (list5 (capk_rid c) @ [capk_key_index c] @ capk_modulus c @ capk_exponent c)"
  by (simp add: select_capk_def if_Inl_eq_Inr rbind_eq_Inr ok_or_eq_Inr bind_eq_Some_conv find_split
      capk_checksum_is_valid_iff) blast

text \<open>A method can be used when the card announces it, the profile allows it and, for the
  dynamic methods, the terminal supports them.\<close>

fun oda_usable :: "oda_selection_input \<Rightarrow> oda_method \<Rightarrow> bool" where
  "oda_usable i Cda \<longleftrightarrow> aip_cda_supported i \<and> profile_cda_allowed i \<and> terminal_supports_dynamic_authentication i"
| "oda_usable i Dda \<longleftrightarrow> aip_dda_supported i \<and> profile_dda_allowed i \<and> terminal_supports_dynamic_authentication i"
| "oda_usable i Sda \<longleftrightarrow> aip_sda_supported i \<and> profile_sda_allowed i"

text \<open>The method performed is the first usable one of combined, dynamic and static
  authentication; with none usable the transaction goes on without authentication, marked as not
  performed when it was required.  From an interchange profile, no authentication is required
  exactly when the card announces none of the three.\<close>

theorem select_oda_method_prefers:
  "select_oda_method input =
     (case List.find (oda_usable input) [Cda, Dda, Sda] of
        Some m \<Rightarrow> Perform m
      | None \<Rightarrow> if oda_input_required input then NotPerformedRequired else OdaNotRequired) \<and>
   (select_oda_method (selection_input_from_aip aip cda_allowed dynamic) = OdaNotRequired \<longleftrightarrow>
      \<not> sda_supported \<lparr>aip_raw = aip\<rparr> \<and> \<not> dda_supported \<lparr>aip_raw = aip\<rparr> \<and> \<not> cda_supported \<lparr>aip_raw = aip\<rparr>)"
  by (auto simp: select_oda_method_def selection_input_from_aip_def oda_required_def Let_def)

text \<open>From cleared registers, the outcome of offline data authentication can be read back: the
  TVR says not performed, or which method failed, and that certificate data was missing exactly
  when a certificate could not be recovered; the TSI says performed exactly when it was.\<close>

theorem oda_outcome_in_registers:
  "case apply_oda_outcome tvr_cleared tsi_cleared outcome of (tvr, tsi) \<Rightarrow>
     (tvr_is_set tvr B1_OFFLINE_DATA_AUTH_NOT_PERFORMED \<longleftrightarrow> outcome = OdaNotPerformed) \<and>
     (tsi_is_set tsi OFFLINE_DATA_AUTHENTICATION_PERFORMED \<longleftrightarrow> outcome \<noteq> OdaNotPerformed) \<and>
     (tvr_is_set tvr B1_SDA_FAILED \<longleftrightarrow> (\<exists>f. outcome = OdaFailed Sda f)) \<and>
     (tvr_is_set tvr B1_DDA_FAILED \<longleftrightarrow> (\<exists>f. outcome = OdaFailed Dda f)) \<and>
     (tvr_is_set tvr B1_CDA_FAILED \<longleftrightarrow> (\<exists>f. outcome = OdaFailed Cda f)) \<and>
     (tvr_is_set tvr B1_ICC_DATA_MISSING \<longleftrightarrow>
        (\<exists>m. outcome = OdaFailed m IssuerCertificateRecovery \<or> outcome = OdaFailed m IccCertificateRecovery))"
proof -
  have "tvr_bytes tvr_cleared = replicate 5 0" "tsi_bytes tsi_cleared = replicate 2 0"
    by (simp_all add: tvr_bytes_def tvr_cleared_def tsi_bytes_def tsi_cleared_def numeral_eq_Suc)
  then have "\<not> tvr_is_set tvr_cleared (i, m)" "\<not> tsi_is_set tsi_cleared (i, m)" for i m
    by (auto simp: tvr.is_set_iff tsi.is_set_iff)
  note clear = this
  show ?thesis
  proof (cases outcome)
    case (OdaFailed m f)
    with clear show ?thesis by (cases m) (auto simp: apply_oda_outcome_def Let_def status_simps)
  qed (use clear in \<open>auto simp: apply_oda_outcome_def status_simps\<close>)
qed

text \<open>C14: A public key certificate is accepted exactly when the RSA operation opens its signature to
  a block of the certificate's layout (header, format, identifier, expiry, serial number,
  algorithm indicators, lengths, the leading part of the key, hash, trailer) that the given
  remainder completes to a key of the stated length, both algorithms are the supported ones, and
  the hash is the SHA-1 of the certificate's content with the authentication data.\<close>

theorem certificate_accepted_iff:
  "recover_and_verify_public_key_certificate kind signature modulus exponent remainder key_exponent auth = Inr c \<longleftrightarrow>
     wf_certificate c \<and> rpk_kind c = kind \<and> rpk_exponent c = key_exponent \<and>
     (\<exists>fragment. rpk_public_key c = fragment @ remainder \<and> \<not> all_zero_or_ff fragment \<and>
        opens_to signature modulus exponent (certificate_block c fragment)) \<and>
     rpk_hash_algorithm_indicator c = 1 \<and> rpk_public_key_algorithm_indicator c = 1 \<and>
     rpk_hash_result c = fips_sha1 (certificate_content c @ auth)"
proof -
  have "recover_and_verify_public_key_certificate kind signature modulus exponent remainder key_exponent auth = Inr c \<longleftrightarrow>
      (\<exists>block. recover_rsa_public_block signature modulus exponent = Inr block \<and>
         parse_recovered_public_key_certificate kind block remainder key_exponent = Inr c \<and>
         recovered_public_key_certificate_hash_is_valid c auth = Inr True)"
    by (auto simp: recover_and_verify_public_key_certificate_def rbind_eq_Inr if_Inl_eq_Inr)
  then show ?thesis
    by (auto simp: recover_rsa_opens parse_certificate_iff certificate_hash_is_valid_iff)
qed

text \<open>C15: Static data authentication succeeds exactly when the key is an issuer's, its RSA operation
  opens the card's signature to a block of the signed data's layout, and the hash in the block is
  the SHA-1 of the block's content followed by the authentication data: the records in order (the
  template's content for the files 1 to 10, the whole record otherwise) and the data objects the
  static data authentication tag list names, at most 65535 bytes.\<close>

theorem static_data_authentication_iff:
  "verify_static_data_authentication key signature records data = Inr d \<longleftrightarrow>
     rpk_kind key = IssuerCertificate \<and>
     (\<exists>auth. authentication_data_of records data auth \<and>
        rsd_hash_result d = fips_sha1 ([0x03, 1] @ signed_content d @ rsd_padding d @ auth)) \<and>
     wf_signed_data d \<and> rsd_kind d = StaticApplicationData \<and> rsd_hash_algorithm_indicator d = 1 \<and>
     28 \<le> length (signed_block d) \<and> opens_to signature (rpk_public_key key) (rpk_exponent key) (signed_block d)"
proof -
  have "verify_static_data_authentication key signature records data = Inr d \<longleftrightarrow>
      rpk_kind key = IssuerCertificate \<and>
      (\<exists>auth block. build_static_authentication_data records data = Inr auth \<and>
         opens_to signature (rpk_public_key key) (rpk_exponent key) block \<and>
         parse_recovered_signed_application_data StaticApplicationData block = Inr d \<and>
         recovered_signed_application_data_hash_is_valid d auth = Inr True)"
    by (auto simp: verify_static_data_authentication_def recover_and_verify_signed_application_data_def
        rbind_eq_Inr if_Inl_eq_Inr recover_rsa_opens)
  also have "\<dots> \<longleftrightarrow> rpk_kind key = IssuerCertificate \<and>
      (\<exists>auth. build_static_authentication_data records data = Inr auth \<and>
         recovered_signed_application_data_hash_is_valid d auth = Inr True) \<and>
      wf_signed_data d \<and> 28 \<le> length (signed_block d) \<and> rsd_kind d = StaticApplicationData \<and>
      opens_to signature (rpk_public_key key) (rpk_exponent key) (signed_block d)"
  proof -
    have "opens_to s n e block \<and> parse_recovered_signed_application_data StaticApplicationData block = Inr d \<longleftrightarrow>
        wf_signed_data d \<and> 28 \<le> length (signed_block d) \<and> rsd_kind d = StaticApplicationData \<and>
        opens_to s n e (signed_block d) \<and> block = signed_block d" for s n e block
      using parse_signed_iff [OF opens_to_length, of s n e block StaticApplicationData d] by metis
    then show ?thesis by metis
  qed
  finally show ?thesis
    by (auto simp: build_static_iff [folded authentication_data_of_def] signed_hash_is_valid_iff oda_constants)
qed

end
