(* ===== verification/Emv_Apdu.thy ===== *)
theory Emv_Apdu
  imports Emv_Dol Emv_Card
begin

text \<open>
  Command APDUs (\<open>src/src/apdu.rs\<close>): the short-form encoding and the constructors of the
  commands a transaction sends.
\<close>

unbundle bit_operations_syntax

definition CONTACT_PSE :: bytes where "CONTACT_PSE = ascii ''1PAY.SYS.DDF01''"
definition CONTACTLESS_PPSE :: bytes where "CONTACTLESS_PPSE = ascii ''2PAY.SYS.DDF01''"
definition MIN_AID_LEN :: nat where "MIN_AID_LEN = 5"
definition MAX_AID_LEN :: nat where "MAX_AID_LEN = 16"
definition MAX_SHORT_APDU_DATA_LEN :: nat where "MAX_SHORT_APDU_DATA_LEN = 255"
definition MAX_GPO_PDOL_VALUE_LEN :: nat where
  "MAX_GPO_PDOL_VALUE_LEN = MAX_SHORT_APDU_DATA_LEN - 3"
definition MIN_ISSUER_AUTHENTICATION_DATA_LEN :: nat where "MIN_ISSUER_AUTHENTICATION_DATA_LEN = 8"
definition MAX_ISSUER_AUTHENTICATION_DATA_LEN :: nat where "MAX_ISSUER_AUTHENTICATION_DATA_LEN = 16"

datatype interface = Contact | Contactless

record command_apdu =
  apdu_cla :: byte
  apdu_ins :: byte
  apdu_p1 :: byte
  apdu_p2 :: byte
  apdu_data :: bytes
  apdu_le :: "byte option"

definition apdu_encode :: "command_apdu \<Rightarrow> bytes krn_result" where
  "apdu_encode c =
     (if length (apdu_data c) > MAX_SHORT_APDU_DATA_LEN then Inl LengthOverflow
      else Inr ([apdu_cla c, apdu_ins c, apdu_p1 c, apdu_p2 c]
        @ (if apdu_data c \<noteq> [] then word_of_nat (length (apdu_data c)) # apdu_data c else [])
        @ (case apdu_le c of Some le \<Rightarrow> [le] | None \<Rightarrow> [])))"

datatype cryptogram_request = ReqAac | ReqTc | ReqArqc

fun cryptogram_request_p1 :: "cryptogram_request \<Rightarrow> byte" where
  "cryptogram_request_p1 ReqAac = 0x00"
| "cryptogram_request_p1 ReqTc = 0x40"
| "cryptogram_request_p1 ReqArqc = 0x80"

datatype cda_request_control = NotRequested | InCdolData | P1LowBits byte

definition select_by_name :: "bytes \<Rightarrow> byte \<Rightarrow> command_apdu" where
  "select_by_name name p2 =
     \<lparr>apdu_cla = 0x00, apdu_ins = 0xa4, apdu_p1 = 0x04, apdu_p2 = p2, apdu_data = name,
      apdu_le = Some 0x00\<rparr>"

definition select_environment :: "interface \<Rightarrow> command_apdu" where
  "select_environment iface =
     (let data = (case iface of Contact \<Rightarrow> CONTACT_PSE | Contactless \<Rightarrow> CONTACTLESS_PPSE)
      in select_by_name data 0x00)"

definition select_aid :: "bytes \<Rightarrow> byte \<Rightarrow> command_apdu krn_result" where
  "select_aid aid p2 =
     (if \<not> (MIN_AID_LEN \<le> length aid \<and> length aid \<le> MAX_AID_LEN) \<or> \<not> (p2 = 0x00 \<or> p2 = 0x02)
      then Inl InvalidArgument else Inr (select_by_name aid p2))"

definition append_ber_length :: "bytes \<Rightarrow> nat \<Rightarrow> bytes krn_result" where
  "append_ber_length out len =
     (if len \<le> 0x7f then Inr (out @ [word_of_nat len])
      else if len \<le> 0xff then Inr (out @ [0x81, word_of_nat len])
      else Inl LengthOverflow)"

definition get_processing_options :: "dol_entry list \<Rightarrow> data_store \<Rightarrow> command_apdu krn_result" where
  "get_processing_options pdol data =
     rbind (build_dol_with_policy pdol data ZeroPadMissingAndShort) (\<lambda>pdol_values.
       rbind (append_ber_length [0x83] (length pdol_values)) (\<lambda>template.
         Inr \<lparr>apdu_cla = 0x80, apdu_ins = 0xa8, apdu_p1 = 0x00, apdu_p2 = 0x00,
              apdu_data = template @ pdol_values, apdu_le = Some 0x00\<rparr>))"

definition read_record :: "byte \<Rightarrow> byte \<Rightarrow> command_apdu krn_result" where
  "read_record rec sfi =
     (if rec = 0 \<or> sfi = 0 \<or> sfi > 30 then Inl InvalidArgument
      else Inr \<lparr>apdu_cla = 0x00, apdu_ins = 0xb2, apdu_p1 = rec, apdu_p2 = push_bit 3 sfi OR 0x04,
                apdu_data = [], apdu_le = Some 0x00\<rparr>)"

definition internal_authenticate :: "bytes \<Rightarrow> command_apdu krn_result" where
  "internal_authenticate ddol_values =
     (if length ddol_values > MAX_SHORT_APDU_DATA_LEN then Inl LengthOverflow
      else Inr \<lparr>apdu_cla = 0x00, apdu_ins = 0x88, apdu_p1 = 0x00, apdu_p2 = 0x00,
                apdu_data = ddol_values, apdu_le = Some 0x00\<rparr>)"

definition internal_authenticate_from_ddol ::
    "dol_entry list \<Rightarrow> data_store \<Rightarrow> command_apdu krn_result" where
  "internal_authenticate_from_ddol ddol data =
     rbind (build_dol_with_policy ddol data ZeroPadMissingAndShort) internal_authenticate"

definition external_authenticate :: "bytes \<Rightarrow> command_apdu krn_result" where
  "external_authenticate iad =
     (if length iad > MAX_SHORT_APDU_DATA_LEN then Inl LengthOverflow
      else if \<not> (MIN_ISSUER_AUTHENTICATION_DATA_LEN \<le> length iad \<and>
                length iad \<le> MAX_ISSUER_AUTHENTICATION_DATA_LEN) then Inl InvalidArgument
      else Inr \<lparr>apdu_cla = 0x00, apdu_ins = 0x82, apdu_p1 = 0x00, apdu_p2 = 0x00,
                apdu_data = iad, apdu_le = None\<rparr>)"

definition get_response :: "byte \<Rightarrow> command_apdu" where
  "get_response len =
     \<lparr>apdu_cla = 0x00, apdu_ins = 0xc0, apdu_p1 = 0x00, apdu_p2 = 0x00, apdu_data = [],
      apdu_le = Some len\<rparr>"

definition generate_ac ::
    "cryptogram_request \<Rightarrow> bytes \<Rightarrow> cda_request_control \<Rightarrow> command_apdu krn_result" where
  "generate_ac request cdol_values cda_control =
     (if length cdol_values > MAX_SHORT_APDU_DATA_LEN then Inl LengthOverflow
      else rbind
        (case cda_control of
           NotRequested \<Rightarrow> Inr (cryptogram_request_p1 request)
         | InCdolData \<Rightarrow> Inr (cryptogram_request_p1 request)
         | P1LowBits bits \<Rightarrow>
             if bits AND 0xc0 \<noteq> 0 then Inl InvalidProfile
             else Inr (cryptogram_request_p1 request OR bits))
        (\<lambda>p1. Inr \<lparr>apdu_cla = 0x80, apdu_ins = 0xae, apdu_p1 = p1, apdu_p2 = 0x00,
                   apdu_data = cdol_values, apdu_le = Some 0x00\<rparr>))"

section \<open>The four cases of a short command\<close>

text \<open>
  Reading a short command back by the four cases of ISO 7816-3: header alone, header and Le,
  header and data with its Lc, and all three.
\<close>

definition decode_apdu :: "bytes \<Rightarrow> command_apdu option" where
  "decode_apdu bs =
     (case bs of
        cla # ins # p1 # p2 # rest \<Rightarrow>
          (let c = (\<lambda>d le. Some \<lparr>apdu_cla = cla, apdu_ins = ins, apdu_p1 = p1, apdu_p2 = p2,
                                 apdu_data = d, apdu_le = le\<rparr>)
           in case rest of
                [] \<Rightarrow> c [] None
              | [le] \<Rightarrow> c [] (Some le)
              | lc # body \<Rightarrow>
                  if lc = 0 then None
                  else if length body = unat lc then c body None
                  else if length body = unat lc + 1 then c (butlast body) (Some (last body))
                  else None)
      | _ \<Rightarrow> None)"

lemma apdu_encode_eq_Inl: "apdu_encode c = Inl e \<longleftrightarrow> length (apdu_data c) > 255 \<and> e = LengthOverflow"
  by (auto simp: apdu_encode_def MAX_SHORT_APDU_DATA_LEN_def)

lemma decode_apdu_encode: "apdu_encode c = Inr bs \<Longrightarrow> decode_apdu bs = Some c"
proof -
  assume "apdu_encode c = Inr bs"
  then have l: "length (apdu_data c) \<le> 255" and bs: "bs = [apdu_cla c, apdu_ins c, apdu_p1 c, apdu_p2 c]
        @ (if apdu_data c \<noteq> [] then word_of_nat (length (apdu_data c)) # apdu_data c else [])
        @ (case apdu_le c of Some le \<Rightarrow> [le] | None \<Rightarrow> [])"
    by (auto simp: apdu_encode_def MAX_SHORT_APDU_DATA_LEN_def split: if_splits)
  show ?thesis
  proof (cases "apdu_data c")
    case Nil
    then show ?thesis by (cases c; cases "apdu_le c") (simp_all add: bs decode_apdu_def)
  next
    case (Cons d ds)
    have "unat (word_of_nat (Suc (length ds)) :: byte) = Suc (length ds)"
      using l Cons by (intro unat_of_nat_byte) simp
    moreover from this have "word_of_nat (Suc (length ds)) \<noteq> (0 :: byte)" by auto
    ultimately show ?thesis using Cons
      by (cases c; cases "apdu_le c")
         (simp_all add: bs decode_apdu_def Let_def butlast_append del: of_nat_Suc)
  qed
qed

lemma append_ber_length_eq:
  "append_ber_length out n = (if n \<le> 255 then Inr (out @ canonical_length n) else Inl LengthOverflow)"
  by (simp add: append_ber_length_def canonical_length_def)

lemma get_processing_options_eq_Inr:
  "get_processing_options pdol data = Inr c \<longleftrightarrow>
     (\<exists>v. build_dol_with_policy pdol data ZeroPadMissingAndShort = Inr v \<and>
       c = \<lparr>apdu_cla = 0x80, apdu_ins = 0xa8, apdu_p1 = 0x00, apdu_p2 = 0x00,
            apdu_data = 0x83 # canonical_length (length v) @ v, apdu_le = Some 0x00\<rparr>)"
proof -
  have "length v \<le> 255" if "build_dol_with_policy pdol data ZeroPadMissingAndShort = Inr v" for v
    using build_dol_length [OF that] by simp
  then show ?thesis
    by (auto simp: get_processing_options_def krn_simps append_ber_length_eq split: if_splits)
qed

lemma gpo_data_length: "length v \<le> 252 \<Longrightarrow> length (0x83 # canonical_length (length v) @ v) \<le> 255"
  by (auto simp: canonical_length_def)

lemma p1_or_low: "bits AND 0xc0 = 0 \<Longrightarrow> (cryptogram_request_p1 request OR bits) AND 0xc0 = cryptogram_request_p1 request"
  by (cases request) (simp_all add: bit.conj_disj_distrib2)

lemma decode_apdu_Some: "decode_apdu bs = Some c \<Longrightarrow> apdu_encode c = Inr bs"
proof -
  assume d: "decode_apdu bs = Some c"
  then obtain cla ins p1 p2 rest where bs: "bs = cla # ins # p1 # p2 # rest"
    by (auto simp: decode_apdu_def split: list.splits)
  consider "rest = []" | le where "rest = [le]" | lc b body where "rest = lc # b # body"
    by (cases rest rule: remdups_adj.cases) auto
  then show ?thesis
  proof cases
    case 3
    have "lc \<noteq> 0 \<Longrightarrow> 0 < unat lc" by (simp add: unat_gt_0)
    with 3 d bs have lc: "length (apdu_data c) = unat lc" "apdu_data c \<noteq> []"
      "apdu_data c @ (case apdu_le c of Some le \<Rightarrow> [le] | None \<Rightarrow> []) = b # body"
      "[apdu_cla c, apdu_ins c, apdu_p1 c, apdu_p2 c] = [cla, ins, p1, p2]"
      by (auto simp: decode_apdu_def Let_def append_butlast_last_id split: if_splits)
    have "unat lc \<le> 255" using unat_byte_less [of lc] by linarith
    with lc 3 bs show ?thesis
      by (simp add: apdu_encode_def MAX_SHORT_APDU_DATA_LEN_def)
  qed (use d bs in \<open>auto simp: decode_apdu_def apdu_encode_def MAX_SHORT_APDU_DATA_LEN_def\<close>)
qed

lemma byte_top2_eq_iff:
  "x = y \<longleftrightarrow> x AND 0xc0 = y AND 0xc0 \<and> x AND 0x3f = y AND (0x3f :: byte)"
proof -
  have "x = (x AND 0xc0) OR (x AND 0x3f)" for x :: byte
  proof -
    have "(x AND 0xc0) OR (x AND 0x3f) = x AND (0xc0 OR 0x3f)"
      by (simp only: bit.conj_disj_distrib)
    also have "(0xc0 OR 0x3f :: byte) = - 1" by simp
    finally show ?thesis by (simp only: bit.conj_one_right)
  qed
  then show ?thesis by metis
qed

lemma p1_low: "(cryptogram_request_p1 request OR bits) AND 0x3f = bits AND 0x3f"
  by (cases request) (simp_all add: bit.conj_disj_distrib2)

text \<open>The short-form encoding of a command is exactly its reading under the four cases of ISO 7816-3:
  a command with at most 255 data bytes encodes to the one byte string that reads back as it.\<close>

theorem apdu_encode_iff: "apdu_encode c = Inr bs \<longleftrightarrow> decode_apdu bs = Some c"
  using decode_apdu_encode decode_apdu_Some by blast

text \<open>A GET PROCESSING OPTIONS command that is built encodes within the short form, and its data is
  one primitive command template (tag 83) whose value the TLV parser returns: the fields the PDOL
  asks for, in order, each of the requested length.\<close>

theorem gpo_command_template:
  assumes "get_processing_options pdol data = Inr c"
  shows "parse_many (apdu_data c) = Inr [Tlv [0x83] (concat (map (dol_field data) pdol)) False []] \<and>
    (\<exists>bs. apdu_encode c = Inr bs \<and> length bs \<le> 261) \<and>
    length (concat (map (dol_field data) pdol)) = sum_list (map dol_length pdol)"
proof -
  from assms obtain v where v: "build_dol_with_policy pdol data ZeroPadMissingAndShort = Inr v"
    and c: "c = \<lparr>apdu_cla = 0x80, apdu_ins = 0xa8, apdu_p1 = 0x00, apdu_p2 = 0x00,
            apdu_data = 0x83 # canonical_length (length v) @ v, apdu_le = Some 0x00\<rparr>"
    by (auto simp: get_processing_options_eq_Inr)
  from v have vc: "v = concat (map (dol_field data) pdol)"
    by (simp add: build_dol_with_policy_eq split: if_splits)
  have l: "length v \<le> 252" "length v = sum_list (map dol_length pdol)"
    using build_dol_length [OF v] by auto
  have "parse_many ([0x83] @ canonical_length (length v) @ v) = Inr [Tlv [0x83] v False []]"
    using l by (intro parse_many_single) (simp_all add: constructed_tag_def)
  moreover have "length (apdu_data c) \<le> 255" using gpo_data_length [OF l(1)] by (simp add: c)
  moreover from this have "\<exists>bs. apdu_encode c = Inr bs \<and> length bs \<le> 261"
    by (auto simp: apdu_encode_def MAX_SHORT_APDU_DATA_LEN_def split: option.splits)
  ultimately show ?thesis using l by (simp add: c vc)
qed

lemma gpo_command_template_witness:
  "\<exists>c. get_processing_options [\<lparr>dol_tag = [0x9f, 0x66], dol_length = 4\<rparr>] ds_new = Inr c \<and>
     parse_many (apdu_data c) = Inr [Tlv [0x83] [0, 0, 0, 0] False []]"
proof -
  let ?p = "[\<lparr>dol_tag = [0x9f, 0x66 :: byte], dol_length = 4\<rparr>]"
  have "\<exists>c. get_processing_options ?p ds_new = Inr c"
    by (auto simp: get_processing_options_eq_Inr build_dol_with_policy_eq)
  then obtain c where c: "get_processing_options ?p ds_new = Inr c" by blast
  from gpo_command_template [OF c] c show ?thesis
    by (auto simp: dol_field_def numeral_eq_Suc)
qed

text \<open>GENERATE AC carries the requested cryptogram in the top two bits of P1 whatever CDA control
  is asked for, with the CDA bits below them, and is refused exactly for too much data or CDA bits
  that would overwrite the request.\<close>

theorem generate_ac_iff:
  "generate_ac request cdol control = Inr c \<longleftrightarrow>
     length cdol \<le> 255 \<and>
     (case control of P1LowBits bits \<Rightarrow> bits AND 0xc0 = 0 | _ \<Rightarrow> True) \<and>
     apdu_p1 c AND 0xc0 = cryptogram_request_p1 request \<and>
     apdu_p1 c AND 0x3f = (case control of P1LowBits bits \<Rightarrow> bits AND 0x3f | _ \<Rightarrow> 0) \<and>
     apdu_cla c = 0x80 \<and> apdu_ins c = 0xae \<and> apdu_p2 c = 0x00 \<and> apdu_data c = cdol \<and>
     apdu_le c = Some 0x00"
proof -
  have none: "p1 = cryptogram_request_p1 request \<longleftrightarrow>
      p1 AND 0xc0 = cryptogram_request_p1 request \<and> p1 AND 0x3f = 0" for p1
    by (subst byte_top2_eq_iff) (cases request; simp)
  have low: "p1 = cryptogram_request_p1 request OR bits \<longleftrightarrow>
      p1 AND 0xc0 = cryptogram_request_p1 request \<and> p1 AND 0x3f = bits AND 0x3f"
    if "bits AND 0xc0 = 0" for p1 bits
    by (subst byte_top2_eq_iff) (simp only: p1_or_low [OF that] p1_low)
  show ?thesis
  proof (cases control)
    case (P1LowBits bits)
    show ?thesis
    proof (cases "bits AND 0xc0 = 0")
      case True
      then show ?thesis using low [OF True, of "apdu_p1 c"] P1LowBits
        by (cases c) (auto simp: generate_ac_def MAX_SHORT_APDU_DATA_LEN_def)
    qed (simp add: generate_ac_def P1LowBits)
  qed (use none [of "apdu_p1 c"] in \<open>cases c; auto simp: generate_ac_def MAX_SHORT_APDU_DATA_LEN_def\<close>)+
qed

end
