(* ===== verification/Emv_Selection.thy ===== *)
theory Emv_Selection
  imports Emv_Config Emv_Apdu "HOL-Library.List_Lexorder" "HOL-Library.Product_Lexorder" "HOL-Library.Multiset"
begin

text \<open>
  Application selection (\<open>src/src/selection.rs\<close>): the candidates a card offers, the profiles they
  match, and the order in which the kernel tries them.
\<close>

definition MAX_CANDIDATE_AIDS :: nat where "MAX_CANDIDATE_AIDS = 32"

record selection_candidate =
  sc_aid :: bytes
  sc_select_aid :: bytes
  sc_scheme_index :: nat
  sc_aid_index :: nat
  sc_priority :: byte
  sc_partial_selection :: bool

section \<open>What the card offers\<close>

definition push_unique_aid :: "bytes list \<Rightarrow> bytes \<Rightarrow> bytes list krn_result" where
  "push_unique_aid out aid =
     (if \<not> (MIN_AID_LEN \<le> length aid \<and> length aid \<le> MAX_AID_LEN) then Inl InvalidProfile
      else if length out \<ge> MAX_CANDIDATE_AIDS then Inl LengthOverflow
      else if list_ex (\<lambda>stored. stored = aid) out then Inl ParseError
      else Inr (out @ [aid]))"

definition directory_entry_step :: "bytes list \<Rightarrow> tlv \<Rightarrow> bytes list krn_result" where
  "directory_entry_step candidates entry =
     (if tlv_tag entry \<noteq> [0x61] \<or> \<not> tlv_constructed entry then Inr candidates
      else rbind (find_unique_direct (tlv_children entry) [0x4f]) (\<lambda>found.
           rbind (ok_or found MissingMandatoryTag) (\<lambda>aid. push_unique_aid candidates aid)))"

definition proprietary_child_step :: "bytes list \<Rightarrow> tlv \<Rightarrow> bytes list krn_result" where
  "proprietary_child_step candidates child =
     (if tlv_tag child \<noteq> [0xbf, 0x0c] \<or> \<not> tlv_constructed child then Inr candidates
      else rfold directory_entry_step candidates (tlv_children child))"

definition fci_child_step :: "bytes list \<Rightarrow> tlv \<Rightarrow> bytes list krn_result" where
  "fci_child_step candidates child =
     (if tlv_tag child \<noteq> [0xa5] \<or> \<not> tlv_constructed child then Inr candidates
      else rfold proprietary_child_step candidates (tlv_children child))"

definition parse_fci_candidate_aids :: "bytes \<Rightarrow> bytes list krn_result" where
  "parse_fci_candidate_aids fci =
     rbind (parse_many fci) (\<lambda>parsed.
       if length parsed \<noteq> 1 \<or> tlv_tag (parsed ! 0) \<noteq> [0x6f] \<or> \<not> tlv_constructed (parsed ! 0)
       then Inl MissingMandatoryTag
       else rfold fci_child_step [] (tlv_children (parsed ! 0)))"

definition selected_adf_name :: "bytes \<Rightarrow> bytes krn_result" where
  "selected_adf_name fci =
     rbind (parse_many fci) (\<lambda>parsed.
       if length parsed \<noteq> 1 \<or> tlv_tag (parsed ! 0) \<noteq> [0x6f] \<or> \<not> tlv_constructed (parsed ! 0)
       then Inl MissingMandatoryTag
       else rbind (find_unique_direct (tlv_children (parsed ! 0)) [0x84]) (\<lambda>found.
            rbind (ok_or found MissingMandatoryTag) (\<lambda>adf_name.
              if \<not> (MIN_AID_LEN \<le> length adf_name \<and> length adf_name \<le> MAX_AID_LEN)
              then Inl InvalidProfile else Inr adf_name)))"

definition aid_matches :: "bytes \<Rightarrow> bytes \<Rightarrow> bool \<Rightarrow> bool" where
  "aid_matches card_aid terminal partial_selection \<longleftrightarrow>
     card_aid = terminal \<or> partial_selection \<and> starts_with card_aid terminal"

definition validate_selected_adf_name :: "bytes \<Rightarrow> selection_candidate \<Rightarrow> unit krn_result" where
  "validate_selected_adf_name selected_fci candidate =
     rbind (selected_adf_name selected_fci) (\<lambda>selected_name.
       if selected_name \<noteq> sc_select_aid candidate then Inl NoCommonAid
       else if \<not> aid_matches selected_name (sc_aid candidate) (sc_partial_selection candidate)
       then Inl NoCommonAid
       else Inr ())"

section \<open>Candidates\<close>

fun interface_name :: "interface \<Rightarrow> string" where
  "interface_name Contact = ''contact''"
| "interface_name Contactless = ''contactless''"

definition candidate_key :: "selection_candidate \<Rightarrow> byte \<times> bytes \<times> bytes \<times> nat \<times> nat" where
  "candidate_key c = (sc_priority c, sc_aid c, sc_select_aid c, sc_scheme_index c, sc_aid_index c)"

definition sort_candidates :: "selection_candidate list \<Rightarrow> selection_candidate list" where
  "sort_candidates cs = sort_key candidate_key cs"

definition push_candidate ::
    "selection_candidate list \<Rightarrow> selection_candidate \<Rightarrow> selection_candidate list krn_result" where
  "push_candidate out c = (if length out \<ge> MAX_CANDIDATE_AIDS then Inl LengthOverflow else Inr (out @ [c]))"

definition candidate_of :: "nat \<Rightarrow> nat \<Rightarrow> aid_profile \<Rightarrow> bytes \<Rightarrow> selection_candidate" where
  "candidate_of scheme_index aid_index a select_name =
     \<lparr>sc_aid = ap_aid a, sc_select_aid = select_name, sc_scheme_index = scheme_index,
      sc_aid_index = aid_index, sc_priority = ap_priority a, sc_partial_selection = ap_partial_selection a\<rparr>"

definition direct_aid_step ::
    "interface \<Rightarrow> nat \<Rightarrow> selection_candidate list \<Rightarrow> nat \<times> aid_profile \<Rightarrow> selection_candidate list krn_result" where
  "direct_aid_step iface scheme_index out = (\<lambda>(aid_index, a).
     if list_ex (\<lambda>item. item = interface_name iface) (ap_interfaces a)
     then push_candidate out (candidate_of scheme_index aid_index a (ap_aid a))
     else Inr out)"

definition finish_candidates :: "selection_candidate list \<Rightarrow> selection_candidate list krn_result" where
  "finish_candidates out = (let out = sort_candidates out in if out = [] then Inl NoCommonAid else Inr out)"

definition direct_profile_candidates :: "profile_set \<Rightarrow> interface \<Rightarrow> selection_candidate list krn_result" where
  "direct_profile_candidates profiles iface =
     rbind (rfold (\<lambda>out (scheme_index, scheme).
              rfold (direct_aid_step iface scheme_index) out (enumerate 0 (sp_aids scheme)))
            [] (enumerate 0 (ps_schemes profiles)))
       finish_candidates"

definition reject_duplicate_card_candidates :: "bytes list \<Rightarrow> unit krn_result" where
  "reject_duplicate_card_candidates card_candidates =
     (if has_earlier id card_candidates then Inl ParseError else Inr ())"

definition match_aid_step ::
    "interface \<Rightarrow> bytes list \<Rightarrow> nat \<Rightarrow> selection_candidate list \<Rightarrow> nat \<times> aid_profile
     \<Rightarrow> selection_candidate list krn_result" where
  "match_aid_step iface card_candidates scheme_index out = (\<lambda>(aid_index, a).
     if \<not> list_ex (\<lambda>item. item = interface_name iface) (ap_interfaces a) then Inr out
     else rfold (\<lambda>out card_aid. push_candidate out (candidate_of scheme_index aid_index a card_aid)) out
       (filter (\<lambda>c. aid_matches c (ap_aid a) (ap_partial_selection a)) card_candidates))"

definition match_profile_candidates ::
    "profile_set \<Rightarrow> interface \<Rightarrow> bytes list \<Rightarrow> selection_candidate list krn_result" where
  "match_profile_candidates profiles iface card_candidates =
     (if length card_candidates > MAX_CANDIDATE_AIDS then Inl LengthOverflow
      else rbind (reject_duplicate_card_candidates card_candidates) (\<lambda>_.
        rbind (rfold (\<lambda>out (scheme_index, scheme).
                 rfold (match_aid_step iface card_candidates scheme_index) out (enumerate 0 (sp_aids scheme)))
               [] (enumerate 0 (ps_schemes profiles)))
          finish_candidates))"

section \<open>The candidates, in order\<close>

text \<open>Every pair of a profile on the interface and a card name it matches.\<close>

definition on_interface :: "interface \<Rightarrow> aid_profile \<Rightarrow> bool" where
  "on_interface iface a \<longleftrightarrow> interface_name iface \<in> set (ap_interfaces a)"

definition names_for :: "(aid_profile \<Rightarrow> bytes list) \<Rightarrow> interface \<Rightarrow> nat \<Rightarrow> nat \<times> aid_profile \<Rightarrow> selection_candidate list" where
  "names_for names iface si = (\<lambda>(ai, a). if on_interface iface a then map (candidate_of si ai a) (names a) else [])"

definition all_candidates :: "(aid_profile \<Rightarrow> bytes list) \<Rightarrow> interface \<Rightarrow> profile_set \<Rightarrow> selection_candidate list" where
  "all_candidates names iface profiles =
     concat (map (\<lambda>(si, sch). concat (map (names_for names iface si) (enumerate 0 (sp_aids sch))))
       (enumerate 0 (ps_schemes profiles)))"

definition candidate_set :: "(aid_profile \<Rightarrow> bytes list) \<Rightarrow> interface \<Rightarrow> profile_set \<Rightarrow> selection_candidate set" where
  "candidate_set names iface profiles =
     {candidate_of si ai a n | si ai a n. si < length (ps_schemes profiles) \<and>
        ai < length (sp_aids (ps_schemes profiles ! si)) \<and> a = sp_aids (ps_schemes profiles ! si) ! ai \<and>
        on_interface iface a \<and> n \<in> set (names a)}"

lemma push_candidates_eq:
  "rfold push_candidate out cs =
     (if cs = [] \<or> length out + length cs \<le> 32 then Inr (out @ cs) else Inl LengthOverflow)"
  by (induction cs arbitrary: out) (auto simp: push_candidate_def MAX_CANDIDATE_AIDS_def)

lemma collect_candidates_eq:
  "rfold (\<lambda>out (si, sch). rfold (\<lambda>out x. rfold push_candidate out (names_for names iface si x)) out
       (enumerate 0 (sp_aids sch))) [] (enumerate 0 (ps_schemes profiles)) =
     (if length (all_candidates names iface profiles) \<le> 32 then Inr (all_candidates names iface profiles)
      else Inl LengthOverflow)"
proof -
  have "rfold (\<lambda>out (si, sch). rfold (\<lambda>out x. rfold push_candidate out (names_for names iface si x)) out
       (enumerate 0 (sp_aids sch))) [] (enumerate 0 (ps_schemes profiles)) =
     rfold push_candidate [] (all_candidates names iface profiles)"
    unfolding all_candidates_def rfold_concat [symmetric]
    by (rule arg_cong [of _ _ "\<lambda>f. rfold f [] _"]) (auto simp: fun_eq_iff rfold_concat)
  then show ?thesis by (auto simp: push_candidates_eq)
qed

lemma set_enumerate_0: "set (enumerate 0 xs) = (\<lambda>i. (i, xs ! i)) ` {..<length xs}"
  by (auto simp: in_set_enumerate_eq image_iff)

lemma set_names_for:
  "c \<in> set (names_for names iface si (ai, a)) \<longleftrightarrow>
     on_interface iface a \<and> (\<exists>n\<in>set (names a). c = candidate_of si ai a n)"
  by (auto simp: names_for_def)

lemma set_all_candidates: "set (all_candidates names iface profiles) = candidate_set names iface profiles"
proof -
  have "c \<in> set (all_candidates names iface profiles) \<longleftrightarrow>
      (\<exists>si<length (ps_schemes profiles). \<exists>ai<length (sp_aids (ps_schemes profiles ! si)).
         on_interface iface (sp_aids (ps_schemes profiles ! si) ! ai) \<and>
         (\<exists>n\<in>set (names (sp_aids (ps_schemes profiles ! si) ! ai)).
            c = candidate_of si ai (sp_aids (ps_schemes profiles ! si) ! ai) n))" for c
    by (simp add: all_candidates_def set_enumerate_0 set_names_for Bex_def lessThan_def)
  then show ?thesis unfolding candidate_set_def by blast
qed

lemma distinct_concat_tagged:
  "distinct (map t xs) \<Longrightarrow> (\<And>x. x \<in> set xs \<Longrightarrow> distinct (g x)) \<Longrightarrow>
     (\<And>x z. x \<in> set xs \<Longrightarrow> z \<in> set (g x) \<Longrightarrow> tag z = t x) \<Longrightarrow> distinct (concat (map g xs))"
proof (induction xs)
  case (Cons x xs)
  have "tag z = t x" if "z \<in> set (g x)" for z using Cons.prems(3) that by simp
  moreover have "tag z \<in> t ` set xs" if "z \<in> set (concat (map g xs))" for z
    using Cons.prems(3) that by fastforce
  ultimately show ?case using Cons by fastforce
qed simp

lemma distinct_all_candidates:
  assumes "\<And>a. distinct (names a)"
  shows "distinct (all_candidates names iface profiles)"
  unfolding all_candidates_def
proof (rule distinct_concat_tagged [where t = fst and tag = sc_scheme_index])
  fix x assume "x \<in> set (enumerate 0 (ps_schemes profiles))"
  show "distinct ((\<lambda>(si, sch). concat (map (names_for names iface si) (enumerate 0 (sp_aids sch)))) x)"
  proof (cases x)
    case (Pair si sch)
    have "inj_on (candidate_of si ai a) A" for ai a A by (simp add: inj_on_def candidate_of_def)
    with assms have "distinct (names_for names iface si y)" for y
      by (cases y) (simp add: names_for_def distinct_map)
    then have "distinct (concat (map (names_for names iface si) (enumerate 0 (sp_aids sch))))"
      by (intro distinct_concat_tagged [where t = fst and tag = sc_aid_index])
        (auto simp: names_for_def candidate_of_def split: if_splits)
    with Pair show ?thesis by simp
  qed
qed (auto simp: names_for_def candidate_of_def split: if_splits)

lemma candidate_key_inj: "inj_on candidate_key (candidate_set names iface profiles)"
  by (auto simp: inj_on_def candidate_set_def candidate_key_def candidate_of_def)

lemma finish_candidates_iff:
  assumes "\<And>a. distinct (names a)"
  shows "(length (all_candidates names iface profiles) \<le> 32 \<and>
      finish_candidates (all_candidates names iface profiles) = Inr out) \<longleftrightarrow>
    out \<noteq> [] \<and> length out \<le> 32 \<and> distinct out \<and> sorted (map candidate_key out) \<and>
    set out = candidate_set names iface profiles"
proof -
  let ?m = "all_candidates names iface profiles"
  have m: "distinct ?m" "set ?m = candidate_set names iface profiles"
    using assms by (simp_all add: distinct_all_candidates set_all_candidates)
  have sorted_iff: "sort_key candidate_key ?m = out \<longleftrightarrow>
      distinct out \<and> sorted (map candidate_key out) \<and> set out = candidate_set names iface profiles"
  proof
    assume "sort_key candidate_key ?m = out"
    then have "out = sort_key candidate_key ?m" by simp
    with m show "distinct out \<and> sorted (map candidate_key out) \<and> set out = candidate_set names iface profiles"
      by simp
  next
    assume r: "distinct out \<and> sorted (map candidate_key out) \<and> set out = candidate_set names iface profiles"
    then have "mset ?m = mset out" using m by (simp add: set_eq_iff_mset_eq_distinct [symmetric])
    moreover have "inj_on candidate_key (set ?m)" using m candidate_key_inj by simp
    ultimately show "sort_key candidate_key ?m = out" using r by (intro sort_key_inj_key_eq) simp_all
  qed
  have "length out = length ?m" if "sort_key candidate_key ?m = out" using that by (metis length_sort)
  then show ?thesis
    unfolding finish_candidates_def sort_candidates_def Let_def if_Inl_eq_Inr
    unfolding sum.inject by (metis sorted_iff)
qed

section \<open>What selection promises\<close>

lemma match_steps:
  "rfold (\<lambda>out (si, sch). rfold (match_aid_step iface cards si) out (enumerate 0 (sp_aids sch))) [] schemes =
   rfold (\<lambda>out (si, sch). rfold (\<lambda>out x. rfold push_candidate out
     (names_for (\<lambda>a. filter (\<lambda>c. aid_matches c (ap_aid a) (ap_partial_selection a)) cards) iface si x)) out
       (enumerate 0 (sp_aids sch))) [] schemes"
proof -
  have "match_aid_step iface cards si = (\<lambda>out x. rfold push_candidate out
     (names_for (\<lambda>a. filter (\<lambda>c. aid_matches c (ap_aid a) (ap_partial_selection a)) cards) iface si x))"
    for si
    by (intro ext) (auto simp: match_aid_step_def names_for_def on_interface_def rfold_map list_ex_iff)
  then show ?thesis by (simp only:)
qed

lemma direct_steps:
  "rfold (\<lambda>out (si, sch). rfold (direct_aid_step iface si) out (enumerate 0 (sp_aids sch))) [] schemes =
   rfold (\<lambda>out (si, sch). rfold (\<lambda>out x. rfold push_candidate out
     (names_for (\<lambda>a. [ap_aid a]) iface si x)) out (enumerate 0 (sp_aids sch))) [] schemes"
proof -
  have "direct_aid_step iface si =
      (\<lambda>out x. rfold push_candidate out (names_for (\<lambda>a. [ap_aid a]) iface si x))" for si
    by (intro ext) (auto simp: direct_aid_step_def names_for_def on_interface_def list_ex_iff rbind_def
        split: sum.split)
  then show ?thesis by (simp only:)
qed

lemma candidates_iff:
  assumes "\<And>a. distinct (names a)"
  shows "rbind (if length (all_candidates names iface profiles) \<le> 32
           then Inr (all_candidates names iface profiles) else Inl LengthOverflow) finish_candidates = Inr out \<longleftrightarrow>
    out \<noteq> [] \<and> length out \<le> 32 \<and> distinct out \<and> sorted (map candidate_key out) \<and>
    set out = candidate_set names iface profiles"
  using finish_candidates_iff [of names iface profiles out] assms by auto

text \<open>C39: Matching the card's names against the profiles succeeds exactly when at most 32 distinct names are
  offered and the result is a non-empty list of at most 32 candidates: each pair of a profile on the
  interface and a name it matches, once, in the order of priority, then profile name, then card
  name, then position in the configuration.\<close>

theorem match_profile_candidates_iff:
  "match_profile_candidates profiles iface cards = Inr out \<longleftrightarrow>
     length cards \<le> 32 \<and> distinct cards \<and> out \<noteq> [] \<and> length out \<le> 32 \<and> distinct out \<and>
     sorted (map candidate_key out) \<and>
     set out = candidate_set
       (\<lambda>a. filter (\<lambda>c. aid_matches c (ap_aid a) (ap_partial_selection a)) cards) iface profiles"
proof (cases "distinct cards")
  case True
  then have "distinct (filter P cards)" for P by simp
  with True show ?thesis
    unfolding match_profile_candidates_def match_steps collect_candidates_eq
    by (simp add: reject_duplicate_card_candidates_def MAX_CANDIDATE_AIDS_def candidates_iff not_less)
qed (simp add: match_profile_candidates_def reject_duplicate_card_candidates_def)

lemma direct_profile_candidates_eq_Inr:
  "direct_profile_candidates profiles iface = Inr out \<longleftrightarrow>
     out \<noteq> [] \<and> length out \<le> 32 \<and> distinct out \<and> sorted (map candidate_key out) \<and>
     set out = candidate_set (\<lambda>a. [ap_aid a]) iface profiles"
  unfolding direct_profile_candidates_def direct_steps collect_candidates_eq
  by (rule candidates_iff) simp

text \<open>The entries of the FCI's directory, and the names they carry.\<close>

definition children_tagged :: "bytes \<Rightarrow> tlv \<Rightarrow> tlv list" where
  "children_tagged tag t = filter (\<lambda>c. tlv_tag c = tag \<and> tlv_constructed c) (tlv_children t)"

definition directory_entries :: "tlv \<Rightarrow> tlv list" where
  "directory_entries t =
     concat (map (children_tagged [0x61]) (concat (map (children_tagged [0xbf, 0x0c]) (children_tagged [0xa5] t))))"

lemma rfold_filter: "rfold (\<lambda>s x. if P x then f s x else Inr s) s xs = rfold f s (filter P xs)"
  by (induction xs arbitrary: s) simp_all

lemma rfold_skip:
  assumes "\<And>s x. g s x = (if \<not> P x then Inr s else f s x)"
  shows "rfold g s xs = rfold f s (filter P xs)"
proof -
  have "g = (\<lambda>s x. if P x then f s x else Inr s)" by (intro ext) (simp add: assms)
  then show ?thesis by (simp add: rfold_filter)
qed

lemma concat_map_concat: "concat (map f (concat (map g xs))) = concat (map (\<lambda>x. concat (map f (g x))) xs)"
  by (induction xs) simp_all

definition entry_step :: "bytes list \<Rightarrow> tlv \<Rightarrow> bytes list krn_result" where
  "entry_step candidates entry =
     rbind (find_unique_direct (tlv_children entry) [0x4f]) (\<lambda>found.
       rbind (ok_or found MissingMandatoryTag) (\<lambda>aid. push_unique_aid candidates aid))"

lemma fci_steps:
  "rfold fci_child_step out (tlv_children t) = rfold entry_step out (directory_entries t)"
proof -
  have e: "rfold directory_entry_step out (tlv_children p) = rfold entry_step out (children_tagged [0x61] p)" for out p
    unfolding children_tagged_def by (rule rfold_skip) (auto simp: directory_entry_step_def entry_step_def)
  have p: "rfold proprietary_child_step out (tlv_children c) =
      rfold entry_step out (concat (map (children_tagged [0x61]) (children_tagged [0xbf, 0x0c] c)))" for out c
    unfolding rfold_concat [symmetric] unfolding children_tagged_def [of "[0xbf, 0x0c]"]
    by (rule rfold_skip) (auto simp: proprietary_child_step_def e)
  show ?thesis
    unfolding directory_entries_def concat_map_concat
    unfolding rfold_concat [symmetric] unfolding children_tagged_def [of "[0xa5]"]
    by (rule rfold_skip) (auto simp: fci_child_step_def p rfold_concat)
qed

lemma entry_steps_iff:
  "distinct out \<Longrightarrow> length out \<le> 32 \<Longrightarrow> rfold entry_step out es = Inr aids \<longleftrightarrow>
     (\<exists>new. aids = out @ new \<and> map (\<lambda>e. find_unique_direct (tlv_children e) [0x4f]) es = map (\<lambda>a. Inr (Some a)) new \<and>
        distinct aids \<and> length aids \<le> 32 \<and> list_all (\<lambda>a. 5 \<le> length a \<and> length a \<le> 16) new)"
proof (induction es arbitrary: out)
  case (Cons e es)
  have push: "entry_step out e = Inr s \<longleftrightarrow> (\<exists>a. s = out @ [a] \<and>
      find_unique_direct (tlv_children e) [0x4f] = Inr (Some a) \<and> 5 \<le> length a \<and> length a \<le> 16 \<and>
      length out < 32 \<and> a \<notin> set out)" for s
    by (auto simp: entry_step_def krn_simps push_unique_aid_def MIN_AID_LEN_def MAX_AID_LEN_def
        MAX_CANDIDATE_AIDS_def list_ex_iff if_Inl_eq_Inr)
  have ih: "rfold entry_step (out @ [a]) es = Inr aids \<longleftrightarrow> (\<exists>new. aids = out @ a # new \<and>
      map (\<lambda>e. find_unique_direct (tlv_children e) [0x4f]) es = map (\<lambda>a. Inr (Some a)) new \<and>
      distinct aids \<and> length aids \<le> 32 \<and> list_all (\<lambda>a. 5 \<le> length a \<and> length a \<le> 16) new)"
    if "a \<notin> set out" "length out < 32" for a
    using Cons.IH [of "out @ [a]"] Cons.prems that by simp
  show ?case (is "?l \<longleftrightarrow> ?r")
  proof
    assume ?l
    then obtain a where a: "find_unique_direct (tlv_children e) [0x4f] = Inr (Some a)"
      "5 \<le> length a" "length a \<le> 16" "length out < 32" "a \<notin> set out" "rfold entry_step (out @ [a]) es = Inr aids"
      by (auto simp: krn_simps push)
    with ih [of a] obtain new where "aids = out @ a # new"
      "map (\<lambda>e. find_unique_direct (tlv_children e) [0x4f]) es = map (\<lambda>a. Inr (Some a)) new"
      "distinct aids" "length aids \<le> 32" "list_all (\<lambda>a. 5 \<le> length a \<and> length a \<le> 16) new" by blast
    with a show ?r by (intro exI [of _ "a # new"]) simp
  next
    assume ?r
    then obtain a new where n: "find_unique_direct (tlv_children e) [0x4f] = Inr (Some a)"
      "aids = out @ a # new" "distinct aids" "length aids \<le> 32" "5 \<le> length a" "length a \<le> 16"
      "map (\<lambda>e. find_unique_direct (tlv_children e) [0x4f]) es = map (\<lambda>a. Inr (Some a)) new"
      "list_all (\<lambda>a. 5 \<le> length a \<and> length a \<le> 16) new" by (auto simp: Cons_eq_map_conv)
    then have "a \<notin> set out" "length out < 32" by simp_all
    moreover from this n ih [of a] have "rfold entry_step (out @ [a]) es = Inr aids" by blast
    ultimately show ?l using n by (auto simp: krn_simps push)
  qed
qed auto

lemma parse_fci_candidate_aids_eq_Inr:
  "parse_fci_candidate_aids fci = Inr aids \<longleftrightarrow>
     (\<exists>t. parse_many fci = Inr [t] \<and> tlv_tag t = [0x6f] \<and> tlv_constructed t \<and>
        map (\<lambda>e. find_unique_direct (tlv_children e) [0x4f]) (directory_entries t) = map (\<lambda>a. Inr (Some a)) aids \<and>
        distinct aids \<and> length aids \<le> 32 \<and> list_all (\<lambda>a. 5 \<le> length a \<and> length a \<le> 16) aids)"
proof -
  have "parse_fci_candidate_aids fci = Inr aids \<longleftrightarrow>
     (\<exists>t. parse_many fci = Inr [t] \<and> tlv_tag t = [0x6f] \<and> tlv_constructed t \<and>
        rfold fci_child_step [] (tlv_children t) = Inr aids)"
    by (auto simp: parse_fci_candidate_aids_def krn_simps if_Inl_eq_Inr length_Suc_conv)
  then show ?thesis by (simp add: fci_steps entry_steps_iff)
qed

text \<open>The names a card offers are read exactly from one FCI template: the AID of every directory entry
  of its proprietary template's issuer data, in order, each present once in its entry, five to
  sixteen bytes long, no name twice and at most 32 of them.\<close>

theorem parse_fci_candidate_aids_iff:
  "parse_fci_candidate_aids fci = Inr aids \<longleftrightarrow>
     (\<exists>t. parse_many fci = Inr [t] \<and> tlv_tag t = [0x6f] \<and> tlv_constructed t \<and>
        map (\<lambda>e. find_unique_direct (tlv_children e) [0x4f]) (directory_entries t) = map (\<lambda>a. Inr (Some a)) aids \<and>
        distinct aids \<and> length aids \<le> 32 \<and> list_all (\<lambda>a. 5 \<le> length a \<and> length a \<le> 16) aids)"
  by (rule parse_fci_candidate_aids_eq_Inr)

lemma candidate_of_match:
  assumes "match_profile_candidates profiles iface cards = Inr out" and "c \<in> set out"
  shows "sc_select_aid c \<in> set cards \<and> aid_matches (sc_select_aid c) (sc_aid c) (sc_partial_selection c)"
proof -
  let ?names = "\<lambda>a. filter (\<lambda>c. aid_matches c (ap_aid a) (ap_partial_selection a)) cards"
  have "has_earlier id cards = False"
    using assms(1) by (cases "has_earlier id cards")
      (auto simp: match_profile_candidates_def reject_duplicate_card_candidates_def split: if_splits)
  then have d: "distinct (?names a)" for a by simp
  have "rbind (if length (all_candidates ?names iface profiles) \<le> 32
      then Inr (all_candidates ?names iface profiles) else Inl LengthOverflow) finish_candidates = Inr out"
    using assms(1) unfolding match_profile_candidates_def match_steps collect_candidates_eq
    by (auto simp: if_Inl_eq_Inr rbind_eq_Inr [of "reject_duplicate_card_candidates cards"])
  with candidates_iff [of ?names, OF d] have "set out = candidate_set ?names iface profiles" by blast
  with assms(2) show ?thesis by (auto simp: candidate_set_def candidate_of_def)
qed

text \<open>Every candidate found by matching the names of a directory can be sent as a SELECT command, and
  the card's answer is then accepted exactly when it names the ADF that was selected: the second
  comparison, with the profile's own AID, never rejects it.\<close>

theorem candidates_can_be_selected:
  "case parse_fci_candidate_aids fci of Inl _ \<Rightarrow> True | Inr cards \<Rightarrow>
     (case match_profile_candidates profiles iface cards of Inl _ \<Rightarrow> True | Inr out \<Rightarrow>
        list_all (\<lambda>c. select_aid (sc_select_aid c) 0x00 = Inr (select_by_name (sc_select_aid c) 0x00) \<and>
          (validate_selected_adf_name answer c = Inr () \<longleftrightarrow>
             selected_adf_name answer = Inr (sc_select_aid c))) out)"
proof (cases "parse_fci_candidate_aids fci")
  case (Inr cards)
  then have len: "list_all (\<lambda>a. 5 \<le> length a \<and> length a \<le> 16) cards"
    by (auto simp: parse_fci_candidate_aids_eq_Inr)
  have "select_aid (sc_select_aid c) 0x00 = Inr (select_by_name (sc_select_aid c) 0x00) \<and>
      (validate_selected_adf_name answer c = Inr () \<longleftrightarrow> selected_adf_name answer = Inr (sc_select_aid c))"
    if "match_profile_candidates profiles iface cards = Inr out" "c \<in> set out" for out c
    using candidate_of_match [OF that] len
    by (auto simp: list_all_iff select_aid_def MIN_AID_LEN_def MAX_AID_LEN_def
        validate_selected_adf_name_def krn_simps if_Inl_eq_Inr)
  with Inr show ?thesis by (auto simp: list_all_iff split: sum.split)
qed simp

end
