(* ===== verification/Emv_Json.thy ===== *)
theory Emv_Json
  imports Emv_Error
begin

text \<open>
  The JSON reader of the configuration (the second half of \<open>src/src/config.rs\<close>): values, the
  recursive-descent parser with its depth and node limits, and the grammar it recognises.  The
  parser's state is what is left of the input (the source keeps the input and an offset) and the
  number of nodes seen.  A string of the source is a list of characters below 256: the parser
  makes one character of each byte it reads.
\<close>

section \<open>Values\<close>

definition MAX_JSON_DEPTH :: nat where "MAX_JSON_DEPTH = 24"
definition MAX_JSON_NODES :: nat where "MAX_JSON_NODES = 4096"

datatype json_value =
  JsonObject "(string \<times> json_value) list"
| JsonArray "json_value list"
| JsonString string
| JsonNumber u64
| JsonBool bool
| JsonNull

fun as_object :: "json_value \<Rightarrow> (string \<times> json_value) list krn_result" where
  "as_object (JsonObject object) = Inr object"
| "as_object _ = Inl ParseError"

fun as_array :: "json_value \<Rightarrow> json_value list krn_result" where
  "as_array (JsonArray array) = Inr array"
| "as_array _ = Inl ParseError"

fun as_string :: "json_value \<Rightarrow> string krn_result" where
  "as_string (JsonString s) = Inr s"
| "as_string _ = Inl ParseError"

fun as_string_opt :: "json_value \<Rightarrow> string option" where
  "as_string_opt (JsonString s) = Some s"
| "as_string_opt _ = None"

fun as_u64 :: "json_value \<Rightarrow> u64 krn_result" where
  "as_u64 (JsonNumber n) = Inr n"
| "as_u64 _ = Inl ParseError"

fun as_bool :: "json_value \<Rightarrow> bool krn_result" where
  "as_bool (JsonBool b) = Inr b"
| "as_bool _ = Inl ParseError"

section \<open>Tokens\<close>

definition json_ws :: "byte \<Rightarrow> bool" where
  "json_ws b \<longleftrightarrow> b = 0x20 \<or> b = 0x0a \<or> b = 0x0d \<or> b = 0x09"

definition skip_ws :: "bytes \<Rightarrow> bytes" where
  "skip_ws bs = dropWhile json_ws bs"

fun consume_if :: "byte \<Rightarrow> bytes \<Rightarrow> bool \<times> bytes" where
  "consume_if expected (b # bs) = (if b = expected then (True, bs) else (False, b # bs))"
| "consume_if expected [] = (False, [])"

fun expect_byte :: "byte \<Rightarrow> bytes \<Rightarrow> bytes krn_result" where
  "expect_byte expected (b # bs) = (if b = expected then Inr bs else Inl ParseError)"
| "expect_byte expected [] = Inl ParseError"

definition expect_literal :: "bytes \<Rightarrow> bytes \<Rightarrow> bytes krn_result" where
  "expect_literal literal bs =
     (if take (length literal) bs = literal then Inr (drop (length literal) bs) else Inl ParseError)"

definition byte_char :: "byte \<Rightarrow> char" where
  "byte_char b = char_of (unat b)"

definition json_escape :: "byte \<Rightarrow> char option" where
  "json_escape b =
     (if b = 0x22 then Some (CHR 0x22) else if b = 0x5c then Some (CHR 0x5c)
      else if b = 0x2f then Some (CHR 0x2f) else if b = 0x62 then Some (CHR 0x08)
      else if b = 0x66 then Some (CHR 0x0c) else if b = 0x6e then Some (CHR 0x0a)
      else if b = 0x72 then Some (CHR 0x0d) else if b = 0x74 then Some (CHR 0x09) else None)"

fun string_loop :: "bytes \<Rightarrow> string \<Rightarrow> (string \<times> bytes) krn_result" where
  "string_loop [] out = Inl ParseError"
| "string_loop (b # bs) out =
     (if b = 0x22 then Inr (out, bs)
      else if b = 0x5c then
        (case bs of [] \<Rightarrow> Inl ParseError
         | escaped # bs \<Rightarrow>
             (case json_escape escaped of Some c \<Rightarrow> string_loop bs (out @ [c]) | None \<Rightarrow> Inl ParseError))
      else if b \<le> 0x1f then Inl ParseError
      else string_loop bs (out @ [byte_char b]))"

definition parse_string :: "bytes \<Rightarrow> (string \<times> bytes) krn_result" where
  "parse_string bs = rbind (expect_byte 0x22 bs) (\<lambda>bs. string_loop bs [])"

definition json_digit :: "byte \<Rightarrow> bool" where
  "json_digit b \<longleftrightarrow> 0x30 \<le> b \<and> b \<le> 0x39"

definition digits_value :: "bytes \<Rightarrow> nat" where
  "digits_value ds = foldl (\<lambda>v d. 10 * v + (unat d - 0x30)) 0 ds"

definition parse_number :: "bytes \<Rightarrow> (u64 \<times> bytes) krn_result" where
  "parse_number bs =
     (let digits = takeWhile json_digit bs in
      if length digits > 1 \<and> hd digits = 0x30 then Inl ParseError
      else if digits = [] \<or> digits_value digits \<ge> 2 ^ 64 then Inl ParseError
      else Inr (word_of_nat (digits_value digits), dropWhile json_digit bs))"

section \<open>The parser\<close>

lemma skip_ws_length: "length (skip_ws bs) \<le> length bs"
  by (simp add: skip_ws_def length_dropWhile_le)

lemma expect_byte_eq: "expect_byte e bs = Inr r \<longleftrightarrow> bs = e # r"
  by (cases "(e, bs)" rule: expect_byte.cases) auto

lemma consume_if_True: "consume_if e bs = (True, r) \<longleftrightarrow> bs = e # r"
  by (cases "(e, bs)" rule: consume_if.cases) auto

lemma consume_if_False: "consume_if e bs = (False, r) \<longleftrightarrow> r = bs \<and> (\<forall>t. bs \<noteq> e # t)"
  by (cases "(e, bs)" rule: consume_if.cases) auto

lemma string_loop_length: "string_loop bs out = Inr (s, r) \<Longrightarrow> length r < length bs"
proof (induction bs out rule: string_loop.induct)
  case (2 b bs out)
  consider "b = 0x22" | "b \<noteq> 0x22" "b = 0x5c" | "b \<noteq> 0x22" "b \<noteq> 0x5c" by blast
  then show ?case
  proof cases
    case 2
    with "2.prems" obtain e rest c where e: "bs = e # rest" "json_escape e = Some c" "string_loop rest (out @ [c]) = Inr (s, r)"
      by (auto split: list.splits option.splits)
    from "2.IH"(1) [OF 2 e] e(1) show ?thesis by simp
  next
    case 3
    with "2.prems" have "\<not> b \<le> 0x1f" "string_loop bs (out @ [byte_char b]) = Inr (s, r)" by (simp_all split: if_splits)
    with "2.IH"(2) 3 show ?thesis by fastforce
  qed (use "2.prems" in simp)
qed simp

lemma parse_string_length: "parse_string bs = Inr (s, r) \<Longrightarrow> length r < length bs"
  by (auto simp: parse_string_def krn_simps expect_byte_eq dest: string_loop_length)

lemma expect_literal_length:
  "expect_literal lit bs = Inr r \<Longrightarrow> lit \<noteq> [] \<Longrightarrow> length r < length bs"
  by (cases bs) (auto simp: expect_literal_def split: if_splits)

lemma parse_number_length: "parse_number bs = Inr (n, r) \<Longrightarrow> length r < length bs"
proof -
  assume "parse_number bs = Inr (n, r)"
  then have "takeWhile json_digit bs \<noteq> []" "r = dropWhile json_digit bs"
    by (auto simp: parse_number_def Let_def split: if_splits)
  moreover have "length bs = length (takeWhile json_digit bs) + length (dropWhile json_digit bs)"
    by (metis length_append takeWhile_dropWhile_id)
  ultimately show ?thesis by simp
qed

lemma consume_if_length: "fst (consume_if e bs) \<Longrightarrow> length (snd (consume_if e bs)) < length bs"
  by (cases "(e, bs)" rule: consume_if.cases) (auto split: if_splits)

lemma skip_ws_Cons_length: "skip_ws bs = b # rest \<Longrightarrow> length rest < length bs"
  using skip_ws_length [of bs] by simp

lemma consume_if_fst: "fst (consume_if e bs) \<Longrightarrow> \<exists>r. bs = e # r"
  by (cases "(e, bs)" rule: consume_if.cases) (auto split: if_splits)

lemma skip_ws_inside: "skip_ws bs = b # rest \<Longrightarrow> length (skip_ws rest) < length bs"
  using skip_ws_Cons_length [of bs b rest] skip_ws_length [of rest] by simp

lemma skip_expect_length: "expect_byte e (skip_ws bs) = Inr r \<Longrightarrow> length r < length bs"
  using skip_ws_length [of bs] by (simp add: expect_byte_eq)

lemma skip_string_length: "parse_string (skip_ws bs) = Inr (s, r) \<Longrightarrow> length r < length bs"
  using skip_ws_length [of bs] by (auto dest: parse_string_length)

function parse_value :: "nat \<Rightarrow> bytes \<Rightarrow> nat \<Rightarrow> (json_value \<times> bytes \<times> nat) krn_result"
  and parse_members :: "nat \<Rightarrow> bytes \<Rightarrow> nat \<Rightarrow> (string \<times> json_value) list \<Rightarrow> (json_value \<times> bytes \<times> nat) krn_result"
  and parse_elements :: "nat \<Rightarrow> bytes \<Rightarrow> nat \<Rightarrow> json_value list \<Rightarrow> (json_value \<times> bytes \<times> nat) krn_result"
where
  "parse_value depth bs nodes =
     (if depth > MAX_JSON_DEPTH \<or> nodes \<ge> MAX_JSON_NODES then Inl LengthOverflow
      else let nodes = nodes + 1 in
        case skip_ws bs of
          [] \<Rightarrow> Inl ParseError
        | b # rest \<Rightarrow>
            if b = 0x7b then
              (let inside = skip_ws rest in
               if fst (consume_if 0x7d inside) then Inr (JsonObject [], snd (consume_if 0x7d inside), nodes)
               else parse_members (depth + 1) inside nodes [])
            else if b = 0x5b then
              (let inside = skip_ws rest in
               if fst (consume_if 0x5d inside) then Inr (JsonArray [], snd (consume_if 0x5d inside), nodes)
               else parse_elements (depth + 1) inside nodes [])
            else if b = 0x22 then rbind (parse_string (b # rest)) (\<lambda>(s, r). Inr (JsonString s, r, nodes))
            else if b = 0x74 then rbind (expect_literal (ascii ''true'') (b # rest)) (\<lambda>r. Inr (JsonBool True, r, nodes))
            else if b = 0x66 then rbind (expect_literal (ascii ''false'') (b # rest)) (\<lambda>r. Inr (JsonBool False, r, nodes))
            else if b = 0x6e then rbind (expect_literal (ascii ''null'') (b # rest)) (\<lambda>r. Inr (JsonNull, r, nodes))
            else if json_digit b then rbind (parse_number (b # rest)) (\<lambda>(n, r). Inr (JsonNumber n, r, nodes))
            else Inl ParseError)"
| "parse_members depth bs nodes object =
     rbind (parse_string (skip_ws bs)) (\<lambda>(key, bs1).
     rbind (expect_byte 0x3a (skip_ws bs1)) (\<lambda>bs2.
     rbind (parse_value depth bs2 nodes) (\<lambda>(v, bs3, nodes).
     if key \<in> fst ` set object then Inl InvalidProfile
     else let object = object @ [(key, v)]; bs4 = skip_ws bs3 in
       if fst (consume_if 0x7d bs4) then Inr (JsonObject object, snd (consume_if 0x7d bs4), nodes)
       else rbind (expect_byte 0x2c bs4) (\<lambda>bs5. parse_members depth bs5 nodes object))))"
| "parse_elements depth bs nodes array =
     rbind (parse_value depth bs nodes) (\<lambda>(v, bs1, nodes).
     let array = array @ [v]; bs2 = skip_ws bs1 in
     if fst (consume_if 0x5d bs2) then Inr (JsonArray array, snd (consume_if 0x5d bs2), nodes)
     else rbind (expect_byte 0x2c bs2) (\<lambda>bs3. parse_elements depth bs3 nodes array))"
  by pat_completeness auto

termination
proof -
  have shorter:
    "parse_value_parse_members_parse_elements_dom (Inl (d, bs, n)) \<Longrightarrow>
       (\<And>v r k. parse_value d bs n = Inr (v, r, k) \<Longrightarrow> length r < length bs)"
    "parse_value_parse_members_parse_elements_dom (Inr (Inl (d', bs', n', ms))) \<Longrightarrow>
       (\<And>v r k. parse_members d' bs' n' ms = Inr (v, r, k) \<Longrightarrow> length r < length bs')"
    "parse_value_parse_members_parse_elements_dom (Inr (Inr (d'', bs'', n'', vs))) \<Longrightarrow>
       (\<And>v r k. parse_elements d'' bs'' n'' vs = Inr (v, r, k) \<Longrightarrow> length r < length bs'')"
    for d bs n d' bs' n' ms d'' bs'' n'' vs
  proof (induction d bs n and d' bs' n' ms and d'' bs'' n'' vs rule: parse_value_parse_members_parse_elements.pinduct)
    case (1 depth bs nodes)
    from "1.prems" obtain b rest where ok: "\<not> (MAX_JSON_DEPTH < depth \<or> MAX_JSON_NODES \<le> nodes)"
      and sk: "skip_ws bs = b # rest"
      by (auto simp: parse_value.psimps [OF "1.hyps"] split: if_splits list.splits)
    have l: "length rest < length bs" "length (skip_ws rest) \<le> length rest"
      using skip_ws_Cons_length [OF sk] skip_ws_length [of rest] by simp_all
    show ?case
    proof (cases "b = 0x7b")
      case True
      with "1.prems" ok sk "1.IH"(1) [OF ok refl sk True refl] show ?thesis
        using consume_if_length [of "0x7d" "skip_ws rest"] l
        by (fastforce simp: parse_value.psimps [OF "1.hyps"] Let_def split: if_splits)
    next
      case nob: False
      show ?thesis
      proof (cases "b = 0x5b")
        case True
        with "1.prems" ok sk "1.IH"(2) [OF ok refl sk nob True refl] show ?thesis
          using consume_if_length [of "0x5d" "skip_ws rest"] l
          by (fastforce simp: parse_value.psimps [OF "1.hyps"] Let_def split: if_splits)
      next
        case False
        with "1.prems" ok sk nob have "length r < length (b # rest)"
          by (auto simp: parse_value.psimps [OF "1.hyps"] krn_simps Let_def ascii_def
              dest!: parse_string_length expect_literal_length parse_number_length split: if_splits)
        then show ?thesis using l by simp
      qed
    qed
  next
    case (2 depth bs nodes object)
    from "2.prems" obtain key bs1 bs2 x bs3 nodes' where p: "parse_string (skip_ws bs) = Inr (key, bs1)"
      "expect_byte 0x3a (skip_ws bs1) = Inr bs2" "parse_value depth bs2 nodes = Inr (x, bs3, nodes')"
      "key \<notin> fst ` set object"
      by (auto simp: parse_members.psimps [OF "2.hyps"] rbind_eq_Inr split: if_splits)
    have l: "length bs3 < length bs"
      using parse_string_length [OF p(1)] p(2) "2.IH"(1) [OF p(1) refl p(2,3)]
        skip_ws_length [of bs] skip_ws_length [of bs1] by (simp add: expect_byte_eq)
    show ?case
    proof (cases "fst (consume_if 0x7d (skip_ws bs3))")
      case True
      with "2.prems" p have "r = snd (consume_if 0x7d (skip_ws bs3))"
        by (simp add: parse_members.psimps [OF "2.hyps"] Let_def)
      with consume_if_length [OF True] skip_ws_length [of bs3] l show ?thesis by simp
    next
      case False
      with "2.prems" p obtain bs5 where e: "expect_byte 0x2c (skip_ws bs3) = Inr bs5"
        "parse_members depth bs5 nodes' (object @ [(key, x)]) = Inr (v, r, k)"
        by (auto simp: parse_members.psimps [OF "2.hyps"] Let_def rbind_eq_Inr)
      from "2.IH"(2) [OF p(1) refl p(2,3) refl refl p(4) refl refl False e] e(1) skip_ws_length [of bs3] l
      show ?thesis by (simp add: expect_byte_eq)
    qed
  next
    case (3 depth bs nodes array)
    from "3.prems" obtain x bs1 nodes' where p: "parse_value depth bs nodes = Inr (x, bs1, nodes')"
      by (auto simp: parse_elements.psimps [OF "3.hyps"] rbind_eq_Inr)
    have l: "length bs1 < length bs" using "3.IH"(1) [OF p] .
    show ?case
    proof (cases "fst (consume_if 0x5d (skip_ws bs1))")
      case True
      with "3.prems" p have "r = snd (consume_if 0x5d (skip_ws bs1))"
        by (simp add: parse_elements.psimps [OF "3.hyps"] Let_def)
      with consume_if_length [OF True] skip_ws_length [of bs1] l show ?thesis by simp
    next
      case False
      with "3.prems" p obtain bs3 where e: "expect_byte 0x2c (skip_ws bs1) = Inr bs3"
        "parse_elements depth bs3 nodes' (array @ [x]) = Inr (v, r, k)"
        by (auto simp: parse_elements.psimps [OF "3.hyps"] Let_def rbind_eq_Inr)
      from "3.IH"(2) [OF p refl refl refl refl False e] e(1) skip_ws_length [of bs1] l
      show ?thesis by (simp add: expect_byte_eq)
    qed
  qed
  show ?thesis
  proof (relation "measure (\<lambda>x. case x of Inl (d, bs, n) \<Rightarrow> 2 * length bs
      | Inr (Inl (d, bs, n, ms)) \<Rightarrow> 2 * length bs | Inr (Inr (d, bs, n, vs)) \<Rightarrow> 2 * length bs + 1)", goal_cases)
    case (2 depth bs nodes x b rest inside)
    then show ?case using skip_ws_inside [of bs b rest] by simp
  next
    case (3 depth bs nodes x b rest inside)
    then show ?case using skip_ws_inside [of bs b rest] by simp
  next
    case (4 depth bs nodes object a key bs1 bs2)
    then show ?case using skip_string_length [of bs key bs1] skip_expect_length [of "0x3a" bs1 bs2] by simp
  next
    case (5 depth bs nodes object a key bs1 bs2 b v y bs3 nodes' object' bs4 bs5)
    then show ?case using skip_string_length [of bs key bs1] skip_expect_length [of "0x3a" bs1 bs2]
        skip_expect_length [of "0x2c" bs3 bs5] shorter(1) [of depth bs2 nodes v bs3 nodes'] by simp
  next
    case (7 depth bs nodes array a v y bs1 nodes' array' bs2 bs3)
    then show ?case using skip_expect_length [of "0x2c" bs1 bs3] shorter(1) [of depth bs nodes v bs1 nodes'] by simp
  qed simp_all
qed

declare parse_value.simps [simp del] parse_members.simps [simp del] parse_elements.simps [simp del]

definition json_parse :: "bytes \<Rightarrow> json_value krn_result" where
  "json_parse input =
     rbind (parse_value 0 input 0) (\<lambda>(v, rest, nodes). if skip_ws rest \<noteq> [] then Inl ParseError else Inr v)"

section \<open>The grammar\<close>

inductive string_body :: "string \<Rightarrow> bytes \<Rightarrow> bool" where
  body_end: "string_body [] []"
| body_raw: "b \<noteq> 0x22 \<Longrightarrow> b \<noteq> 0x5c \<Longrightarrow> \<not> b \<le> 0x1f \<Longrightarrow> string_body s t \<Longrightarrow> string_body (byte_char b # s) (b # t)"
| body_escape: "json_escape e = Some c \<Longrightarrow> string_body s t \<Longrightarrow> string_body (c # s) (0x5c # e # t)"

definition number_text :: "u64 \<Rightarrow> bytes \<Rightarrow> bool" where
  "number_text n ds \<longleftrightarrow> ds \<noteq> [] \<and> list_all json_digit ds \<and> \<not> (length ds > 1 \<and> hd ds = 0x30) \<and>
     digits_value ds < 2 ^ 64 \<and> n = word_of_nat (digits_value ds)"

definition ws_text :: "bytes \<Rightarrow> bool" where
  "ws_text w \<longleftrightarrow> list_all json_ws w"

text \<open>
  The texts of a value (white space may come before it), of the members of an object up to its
  closing brace, and of the elements of an array up to its closing bracket.
\<close>

inductive json_text :: "json_value \<Rightarrow> bytes \<Rightarrow> bool"
  and members_text :: "(string \<times> json_value) list \<Rightarrow> bytes \<Rightarrow> bool"
  and elements_text :: "json_value list \<Rightarrow> bytes \<Rightarrow> bool"
where
  text_no_members: "ws_text w \<Longrightarrow> ws_text w' \<Longrightarrow> json_text (JsonObject []) (w @ [0x7b] @ w' @ [0x7d])"
| text_object: "ws_text w \<Longrightarrow> members_text ms t \<Longrightarrow> json_text (JsonObject ms) (w @ [0x7b] @ t)"
| text_no_elements: "ws_text w \<Longrightarrow> ws_text w' \<Longrightarrow> json_text (JsonArray []) (w @ [0x5b] @ w' @ [0x5d])"
| text_array: "ws_text w \<Longrightarrow> elements_text vs t \<Longrightarrow> json_text (JsonArray vs) (w @ [0x5b] @ t)"
| text_string: "ws_text w \<Longrightarrow> string_body s t \<Longrightarrow> json_text (JsonString s) (w @ [0x22] @ t @ [0x22])"
| text_number: "ws_text w \<Longrightarrow> number_text n t \<Longrightarrow> json_text (JsonNumber n) (w @ t)"
| text_true: "ws_text w \<Longrightarrow> json_text (JsonBool True) (w @ ascii ''true'')"
| text_false: "ws_text w \<Longrightarrow> json_text (JsonBool False) (w @ ascii ''false'')"
| text_null: "ws_text w \<Longrightarrow> json_text JsonNull (w @ ascii ''null'')"
| last_member: "ws_text w \<Longrightarrow> string_body k kt \<Longrightarrow> ws_text w' \<Longrightarrow> json_text v vt \<Longrightarrow> ws_text w'' \<Longrightarrow>
    members_text [(k, v)] (w @ [0x22] @ kt @ [0x22] @ w' @ [0x3a] @ vt @ w'' @ [0x7d])"
| next_member: "ws_text w \<Longrightarrow> string_body k kt \<Longrightarrow> ws_text w' \<Longrightarrow> json_text v vt \<Longrightarrow> ws_text w'' \<Longrightarrow>
    members_text ms t \<Longrightarrow> k \<notin> fst ` set ms \<Longrightarrow>
    members_text ((k, v) # ms) (w @ [0x22] @ kt @ [0x22] @ w' @ [0x3a] @ vt @ w'' @ [0x2c] @ t)"
| last_element: "json_text v vt \<Longrightarrow> ws_text w \<Longrightarrow> elements_text [v] (vt @ w @ [0x5d])"
| next_element: "json_text v vt \<Longrightarrow> ws_text w \<Longrightarrow> elements_text vs t \<Longrightarrow>
    elements_text (v # vs) (vt @ w @ [0x2c] @ t)"

text \<open>The nodes of a value, and that no value lies deeper than the limit.\<close>

fun json_nodes :: "json_value \<Rightarrow> nat" where
  "json_nodes (JsonObject ms) = Suc (sum_list (map (\<lambda>(k, v). json_nodes v) ms))"
| "json_nodes (JsonArray vs) = Suc (sum_list (map json_nodes vs))"
| "json_nodes _ = 1"

fun fits :: "nat \<Rightarrow> json_value \<Rightarrow> bool" where
  "fits d (JsonObject ms) \<longleftrightarrow> d \<le> MAX_JSON_DEPTH \<and> list_all (\<lambda>(k, v). fits (d + 1) v) ms"
| "fits d (JsonArray vs) \<longleftrightarrow> d \<le> MAX_JSON_DEPTH \<and> list_all (fits (d + 1)) vs"
| "fits d _ \<longleftrightarrow> d \<le> MAX_JSON_DEPTH"

section \<open>What the token readers accept\<close>

lemma string_loop_sound: "string_loop bs out = Inr (s, r) \<Longrightarrow> \<exists>s' t. s = out @ s' \<and> bs = t @ 0x22 # r \<and> string_body s' t"
proof (induction bs out rule: string_loop.induct)
  case (2 b bs out)
  consider "b = 0x22" | "b \<noteq> 0x22" "b = 0x5c" | "b \<noteq> 0x22" "b \<noteq> 0x5c" by blast
  then show ?case
  proof cases
    case 1
    with "2.prems" have "s = out @ []" "b # bs = [] @ 0x22 # r" by simp_all
    then show ?thesis using body_end by blast
  next
    case 2
    with "2.prems" obtain e rest c where e: "bs = e # rest" "json_escape e = Some c" "string_loop rest (out @ [c]) = Inr (s, r)"
      by (auto split: list.splits option.splits)
    from "2.IH"(1) [OF 2 e] obtain s' t where "s = out @ (c # s')" "rest = t @ 0x22 # r" "string_body s' t" by auto
    with body_escape [OF e(2)] e(1) 2 have "s = out @ (c # s')" "b # bs = (0x5c # e # t) @ 0x22 # r"
      "string_body (c # s') (0x5c # e # t)" by simp_all
    then show ?thesis by blast
  next
    case 3
    with "2.prems" have r: "\<not> b \<le> 0x1f" "string_loop bs (out @ [byte_char b]) = Inr (s, r)" by (simp_all split: if_splits)
    from "2.IH"(2) [OF 3 r] obtain s' t where "s = out @ (byte_char b # s')" "bs = t @ 0x22 # r" "string_body s' t" by auto
    with body_raw [OF 3 r(1)] have "s = out @ (byte_char b # s')" "b # bs = (b # t) @ 0x22 # r"
      "string_body (byte_char b # s') (b # t)" by simp_all
    then show ?thesis by blast
  qed
qed simp

lemma string_loop_complete: "string_body s t \<Longrightarrow> string_loop (t @ 0x22 # r) out = Inr (out @ s, r)"
  by (induction s t arbitrary: out rule: string_body.induct) simp_all

lemma parse_string_iff:
  "parse_string bs = Inr (s, r) \<longleftrightarrow> (\<exists>t. bs = 0x22 # t @ 0x22 # r \<and> string_body s t)"
  using string_loop_sound [of _ "[]" s r] string_loop_complete [of s _ r "[]"]
  by (fastforce simp: parse_string_def krn_simps expect_byte_eq)

definition starts_with_digit :: "bytes \<Rightarrow> bool" where
  "starts_with_digit bs \<longleftrightarrow> (case bs of [] \<Rightarrow> False | b # _ \<Rightarrow> json_digit b)"

lemma parse_number_iff:
  "parse_number bs = Inr (n, r) \<longleftrightarrow> (\<exists>ds. bs = ds @ r \<and> number_text n ds \<and> \<not> starts_with_digit r)"
proof -
  have split: "takeWhile json_digit bs = ds \<and> dropWhile json_digit bs = r \<longleftrightarrow>
      bs = ds @ r \<and> list_all json_digit ds \<and> \<not> starts_with_digit r" for ds
  proof
    assume "takeWhile json_digit bs = ds \<and> dropWhile json_digit bs = r"
    then have d: "ds = takeWhile json_digit bs" "r = dropWhile json_digit bs" by simp_all
    show "bs = ds @ r \<and> list_all json_digit ds \<and> \<not> starts_with_digit r"
      unfolding d by (auto simp: list_all_iff starts_with_digit_def dest: set_takeWhileD split: list.splits)
        (metis dropWhile_eq_Cons_conv)
  next
    assume "bs = ds @ r \<and> list_all json_digit ds \<and> \<not> starts_with_digit r"
    then show "takeWhile json_digit bs = ds \<and> dropWhile json_digit bs = r"
      by (cases r) (auto simp: list_all_iff starts_with_digit_def takeWhile_append dropWhile_append3 takeWhile_eq_all_conv)
  qed
  have "parse_number bs = Inr (n, r) \<longleftrightarrow> (\<exists>ds. (takeWhile json_digit bs = ds \<and> dropWhile json_digit bs = r) \<and>
      ds \<noteq> [] \<and> \<not> (length ds > 1 \<and> hd ds = 0x30) \<and> digits_value ds < 2 ^ 64 \<and> n = word_of_nat (digits_value ds))"
    by (auto simp: parse_number_def Let_def)
  then show ?thesis unfolding split number_text_def by blast
qed

lemma skip_ws_split: "\<exists>w. bs = w @ skip_ws bs \<and> ws_text w"
  by (rule exI [of _ "takeWhile json_ws bs"]) (auto simp: skip_ws_def ws_text_def list_all_iff dest: set_takeWhileD)

lemma skip_ws_text: "ws_text w \<Longrightarrow> skip_ws (w @ bs) = skip_ws bs"
  by (simp add: skip_ws_def ws_text_def list_all_iff dropWhile_append2)

lemma skip_ws_token: "\<not> json_ws b \<Longrightarrow> skip_ws (b # bs) = b # bs"
  by (simp add: skip_ws_def)

lemma skip_ws_skip: "skip_ws (skip_ws bs) = skip_ws bs"
  by (simp add: skip_ws_def dropWhile_idem)

section \<open>What the parser accepts\<close>

lemma expect_literal_iff: "expect_literal lit bs = Inr r \<longleftrightarrow> bs = lit @ r"
  by (auto simp: expect_literal_def) (metis append_take_drop_id)

lemma parse_value_skip: "parse_value d (skip_ws bs) n = parse_value d bs n"
  by (simp add: parse_value.simps [of d "skip_ws bs"] parse_value.simps [of d bs] skip_ws_skip)

lemma parse_elements_skip: "parse_elements d (skip_ws bs) n vs = parse_elements d bs n vs"
  by (simp add: parse_elements.simps [of d "skip_ws bs"] parse_elements.simps [of d bs] parse_value_skip)

lemma parse_members_skip: "parse_members d (skip_ws bs) n ms = parse_members d bs n ms"
  by (simp add: parse_members.simps [of d "skip_ws bs"] parse_members.simps [of d bs] skip_ws_skip)

definition members_ok :: "nat \<Rightarrow> (string \<times> json_value) list \<Rightarrow> bool" where
  "members_ok d ms \<longleftrightarrow> list_all (\<lambda>(k, v). fits d v) ms"

definition members_nodes :: "(string \<times> json_value) list \<Rightarrow> nat" where
  "members_nodes ms = sum_list (map (\<lambda>(k, v). json_nodes v) ms)"

lemma ws_text_append: "ws_text w \<Longrightarrow> ws_text w' \<Longrightarrow> ws_text (w @ w')"
  by (simp add: ws_text_def)

lemma json_text_ws: "ws_text w \<Longrightarrow> json_text v t \<Longrightarrow> json_text v (w @ t)"
  by (erule json_text.cases) (metis json_text_members_text_elements_text.intros(1-9) ws_text_append append_assoc)+

lemma members_text_ws: "ws_text w \<Longrightarrow> members_text ms t \<Longrightarrow> members_text ms (w @ t)"
  by (erule members_text.cases) (metis last_member next_member ws_text_append append_assoc)+

lemma elements_text_ws: "ws_text w \<Longrightarrow> elements_text vs t \<Longrightarrow> elements_text vs (w @ t)"
  by (erule elements_text.cases) (metis last_element next_element json_text_ws append_assoc)+

lemma parse_sound:
  "parse_value d bs n = Inr (v, r, k) \<Longrightarrow>
     \<exists>t. bs = t @ r \<and> json_text v t \<and> fits d v \<and> k = n + json_nodes v \<and> k \<le> MAX_JSON_NODES"
  "parse_members d' bs' n' ob = Inr (v', r', k') \<Longrightarrow>
     \<exists>t ms. v' = JsonObject (ob @ ms) \<and> bs' = t @ r' \<and> members_text ms t \<and> list_all (\<lambda>m. fst m \<notin> fst ` set ob) ms \<and>
       members_ok d' ms \<and> k' = n' + members_nodes ms \<and> k' \<le> MAX_JSON_NODES"
  "parse_elements d'' bs'' n'' ar = Inr (v'', r'', k'') \<Longrightarrow>
     \<exists>t vs. v'' = JsonArray (ar @ vs) \<and> bs'' = t @ r'' \<and> elements_text vs t \<and>
       list_all (fits d'') vs \<and> k'' = n'' + sum_list (map json_nodes vs) \<and> k'' \<le> MAX_JSON_NODES"
proof (induction d bs n and d' bs' n' ob and d'' bs'' n'' ar arbitrary: v r k and v' r' k' and v'' r'' k''
    rule: parse_value_parse_members_parse_elements.induct)
  case (1 depth bs nodes)
  from "1.prems" obtain b rest where ok: "\<not> (depth > MAX_JSON_DEPTH \<or> nodes \<ge> MAX_JSON_NODES)"
    and sk: "skip_ws bs = b # rest"
    by (auto simp: parse_value.simps [of depth bs] split: if_splits list.splits)
  from skip_ws_split [of bs] sk obtain w where w: "bs = w @ b # rest" "ws_text w" by auto
  obtain w' where w': "rest = w' @ skip_ws rest" "ws_text w'" using skip_ws_split by blast
  note unf = "1.prems" [unfolded parse_value.simps [of depth bs nodes] if_not_P [OF ok] Let_def sk list.case]
  have ok': "depth \<le> MAX_JSON_DEPTH" "nodes < MAX_JSON_NODES" using ok by simp_all
  show ?case
  proof (cases "b = 0x7b")
    case ob: True
    show ?thesis
    proof (cases "fst (consume_if 0x7d (skip_ws rest))")
      case True
      from consume_if_fst [OF True] obtain r0 where "skip_ws rest = 0x7d # r0" by blast
      with unf ob have "v = JsonObject []" "k = nodes + 1" "bs = (w @ [0x7b] @ w' @ [0x7d]) @ r"
        using w w' by simp_all
      with text_no_members [OF w(2) w'(2)] ok' show ?thesis by (intro exI [of _ "w @ [0x7b] @ w' @ [0x7d]"]) simp
    next
      case False
      with unf ob have "parse_members (depth + 1) (skip_ws rest) (nodes + 1) [] = Inr (v, r, k)" by simp
      from "1.IH"(1) [OF ok refl sk ob refl False this] obtain t ms where m:
        "v = JsonObject ms" "skip_ws rest = t @ r" "members_text ms t" "members_ok (depth + 1) ms"
        "k = nodes + 1 + members_nodes ms" "k \<le> MAX_JSON_NODES" by auto
      from text_object [OF w(2) members_text_ws [OF w'(2) m(3)]]
      have "json_text v (w @ [0x7b] @ w' @ t)" by (simp add: m(1))
      moreover have "bs = (w @ [0x7b] @ w' @ t) @ r" using w w' m(2) ob by simp
      ultimately show ?thesis using m ok'
        by (intro exI [of _ "w @ [0x7b] @ w' @ t"]) (simp add: members_ok_def members_nodes_def)
    qed
  next
    case nob: False
    show ?thesis
    proof (cases "b = 0x5b")
      case ar: True
      show ?thesis
      proof (cases "fst (consume_if 0x5d (skip_ws rest))")
        case True
        from consume_if_fst [OF True] obtain r0 where "skip_ws rest = 0x5d # r0" by blast
        with unf ar have "v = JsonArray []" "k = nodes + 1" "bs = (w @ [0x5b] @ w' @ [0x5d]) @ r"
          using w w' by simp_all
        with text_no_elements [OF w(2) w'(2)] ok' show ?thesis by (intro exI [of _ "w @ [0x5b] @ w' @ [0x5d]"]) simp
      next
        case False
        with unf ar have "parse_elements (depth + 1) (skip_ws rest) (nodes + 1) [] = Inr (v, r, k)" by simp
        from "1.IH"(2) [OF ok refl sk nob ar refl False this] obtain t vs where m:
          "v = JsonArray vs" "skip_ws rest = t @ r" "elements_text vs t" "list_all (fits (depth + 1)) vs"
          "k = nodes + 1 + sum_list (map json_nodes vs)" "k \<le> MAX_JSON_NODES" by auto
        from text_array [OF w(2) elements_text_ws [OF w'(2) m(3)]]
        have "json_text v (w @ [0x5b] @ w' @ t)" by (simp add: m(1))
        moreover have "bs = (w @ [0x5b] @ w' @ t) @ r" using w w' m(2) ar by simp
        ultimately show ?thesis using m ok'
          by (intro exI [of _ "w @ [0x5b] @ w' @ t"]) simp
      qed
    next
      case False
      have "\<exists>t. b # rest = t @ r \<and> json_text v (w @ t) \<and> fits depth v \<and> json_nodes v = 1 \<and> k = nodes + 1"
      proof -
        consider "b = 0x22" | "b \<noteq> 0x22" "b = 0x74" | "b \<noteq> 0x22" "b = 0x66" | "b \<noteq> 0x22" "b = 0x6e" |
          "b \<noteq> 0x22" "b \<noteq> 0x74" "b \<noteq> 0x66" "b \<noteq> 0x6e" by blast
        then show ?thesis
        proof cases
          case 1
          with unf obtain s where s: "v = JsonString s" "k = nodes + 1" "parse_string (b # rest) = Inr (s, r)"
            by (auto simp: krn_simps)
          then obtain t where "b # rest = ([0x22] @ t @ [0x22]) @ r" "string_body s t" by (auto simp: parse_string_iff)
          with s text_string [OF w(2), of s t] ok' show ?thesis by auto
        next
          case 2
          with unf have "v = JsonBool True" "k = nodes + 1" "b # rest = ascii ''true'' @ r"
            by (auto simp: krn_simps expect_literal_iff)
          with text_true [OF w(2)] ok' show ?thesis by auto
        next
          case 3
          with unf have "v = JsonBool False" "k = nodes + 1" "b # rest = ascii ''false'' @ r"
            by (auto simp: krn_simps expect_literal_iff)
          with text_false [OF w(2)] ok' show ?thesis by auto
        next
          case 4
          with unf have "v = JsonNull" "k = nodes + 1" "b # rest = ascii ''null'' @ r"
            by (auto simp: krn_simps expect_literal_iff)
          with text_null [OF w(2)] ok' show ?thesis by auto
        next
          case 5
          with unf nob False obtain m where m: "v = JsonNumber m" "k = nodes + 1" "parse_number (b # rest) = Inr (m, r)"
            by (auto simp: krn_simps split: if_splits)
          then obtain t where "b # rest = t @ r" "number_text m t" by (auto simp: parse_number_iff)
          with m text_number [OF w(2), of m t] ok' show ?thesis by auto
        qed
      qed
      then obtain t where "b # rest = t @ r" "json_text v (w @ t)" "fits depth v" "json_nodes v = 1" "k = nodes + 1" by blast
      with w(1) ok' show ?thesis by (intro exI [of _ "w @ t"]) simp
    qed
  qed
next
  case (2 depth bs nodes object)
  from "2.prems" obtain key bs1 bs2 x bs3 nodes' where p: "parse_string (skip_ws bs) = Inr (key, bs1)"
    "expect_byte 0x3a (skip_ws bs1) = Inr bs2" "parse_value depth bs2 nodes = Inr (x, bs3, nodes')"
    "key \<notin> fst ` set object"
    by (auto simp: parse_members.simps [of depth bs] rbind_eq_Inr split: if_splits)
  from "2.IH"(1) [OF p(1) refl p(2,3)] obtain vt where x: "bs2 = vt @ bs3" "json_text x vt" "fits depth x"
    "nodes' = nodes + json_nodes x" "nodes' \<le> MAX_JSON_NODES" by blast
  obtain w w' w'' where ws: "bs = w @ skip_ws bs" "ws_text w" "bs1 = w' @ skip_ws bs1" "ws_text w'"
    "bs3 = w'' @ skip_ws bs3" "ws_text w''" using skip_ws_split by metis
  obtain kt where key: "skip_ws bs = 0x22 # kt @ 0x22 # bs1" "string_body key kt" using p(1) by (auto simp: parse_string_iff)
  have eq: "bs = (w @ [0x22] @ kt @ [0x22] @ w' @ [0x3a] @ vt @ w'') @ skip_ws bs3"
    using ws(1,3,5) key(1) p(2) x(1) by (metis append.assoc append_Cons append_Nil expect_byte_eq)
  show ?case
  proof (cases "fst (consume_if 0x7d (skip_ws bs3))")
    case True
    from consume_if_fst [OF True] obtain r0 where r0: "skip_ws bs3 = 0x7d # r0" by blast
    moreover from "2.prems" p r0 have "v' = JsonObject (object @ [(key, x)])" "k' = nodes'" "r' = r0"
      by (simp_all add: parse_members.simps [of depth bs] Let_def)
    ultimately show ?thesis
      using last_member [OF ws(2) key(2) ws(4) x(2) ws(6)] eq p(4) x(3-5)
      by (intro exI [of _ "w @ [0x22] @ kt @ [0x22] @ w' @ [0x3a] @ vt @ w'' @ [0x7d]"] exI [of _ "[(key, x)]"])
        (simp add: members_ok_def members_nodes_def)
  next
    case False
    with "2.prems" p obtain bs5 where e: "expect_byte 0x2c (skip_ws bs3) = Inr bs5"
      "parse_members depth bs5 nodes' (object @ [(key, x)]) = Inr (v', r', k')"
      by (auto simp: parse_members.simps [of depth bs] Let_def rbind_eq_Inr)
    from "2.IH"(2) [OF p(1) refl p(2,3) refl refl p(4) refl refl False e] obtain t ms where
      m: "v' = JsonObject (object @ (key, x) # ms)" "bs5 = t @ r'" "members_text ms t"
      "list_all (\<lambda>m. fst m \<notin> fst ` set (object @ [(key, x)])) ms" "members_ok depth ms"
      "k' = nodes' + members_nodes ms" "k' \<le> MAX_JSON_NODES" by auto
    have "key \<notin> fst ` set ms" using m(4) by (auto simp: list_all_iff)
    with next_member [OF ws(2) key(2) ws(4) x(2) ws(6) m(3)]
    have "members_text ((key, x) # ms) (w @ [0x22] @ kt @ [0x22] @ w' @ [0x3a] @ vt @ w'' @ [0x2c] @ t)" by blast
    moreover have "bs = (w @ [0x22] @ kt @ [0x22] @ w' @ [0x3a] @ vt @ w'' @ [0x2c] @ t) @ r'"
      using eq e(1) m(2) by (simp add: expect_byte_eq)
    moreover have "list_all (\<lambda>m. fst m \<notin> fst ` set object) ((key, x) # ms)"
      using m(4) p(4) by (auto simp: list_all_iff)
    ultimately show ?thesis using m x(3,4)
      by (intro exI [of _ "w @ [0x22] @ kt @ [0x22] @ w' @ [0x3a] @ vt @ w'' @ [0x2c] @ t"] exI [of _ "(key, x) # ms"])
        (simp add: members_ok_def members_nodes_def)
  qed
next
  case (3 depth bs nodes array)
  from "3.prems" obtain x bs1 nodes' where p: "parse_value depth bs nodes = Inr (x, bs1, nodes')"
    by (auto simp: parse_elements.simps [of depth bs] rbind_eq_Inr)
  from "3.IH"(1) [OF p] obtain vt where x: "bs = vt @ bs1" "json_text x vt" "fits depth x"
    "nodes' = nodes + json_nodes x" "nodes' \<le> MAX_JSON_NODES" by blast
  obtain w where w: "bs1 = w @ skip_ws bs1" "ws_text w" using skip_ws_split by blast
  have eq: "bs = (vt @ w) @ skip_ws bs1" using x(1) w(1) by simp
  show ?case
  proof (cases "fst (consume_if 0x5d (skip_ws bs1))")
    case True
    from consume_if_fst [OF True] obtain r0 where r0: "skip_ws bs1 = 0x5d # r0" by blast
    moreover from "3.prems" p r0 have "v'' = JsonArray (array @ [x])" "k'' = nodes'" "r'' = r0"
      by (simp_all add: parse_elements.simps [of depth bs] Let_def)
    ultimately show ?thesis using last_element [OF x(2) w(2)] eq x(3-5)
      by (intro exI [of _ "vt @ w @ [0x5d]"] exI [of _ "[x]"]) simp
  next
    case False
    with "3.prems" p obtain bs3 where e: "expect_byte 0x2c (skip_ws bs1) = Inr bs3"
      "parse_elements depth bs3 nodes' (array @ [x]) = Inr (v'', r'', k'')"
      by (auto simp: parse_elements.simps [of depth bs] Let_def rbind_eq_Inr)
    from "3.IH"(2) [OF p refl refl refl refl False e] obtain t vs where
      m: "v'' = JsonArray (array @ x # vs)" "bs3 = t @ r''" "elements_text vs t" "list_all (fits depth) vs"
      "k'' = nodes' + sum_list (map json_nodes vs)" "k'' \<le> MAX_JSON_NODES" by auto
    have "bs = (vt @ w @ [0x2c] @ t) @ r''" using eq e(1) m(2) by (simp add: expect_byte_eq)
    with next_element [OF x(2) w(2) m(3)] m x(3,4) show ?thesis
      by (intro exI [of _ "vt @ w @ [0x2c] @ t"] exI [of _ "x # vs"]) simp
  qed
qed

lemma value_start_tokens:
  "parse_value d (0x7d # bs) n \<noteq> Inr x" "parse_value d (0x5d # bs) n \<noteq> Inr x"
  "parse_members d (0x7d # bs) n ob \<noteq> Inr x" "parse_elements d (0x5d # bs) n vs \<noteq> Inr x"
proof -
  have e: "parse_value d (0x5d # bs) n \<noteq> Inr x" for x
    by (simp add: parse_value.simps [of d "_ # bs"] skip_ws_def json_ws_def json_digit_def)
  then show "parse_value d (0x5d # bs) n \<noteq> Inr x" .
  show "parse_value d (0x7d # bs) n \<noteq> Inr x"
    by (simp add: parse_value.simps [of d "_ # bs"] skip_ws_def json_ws_def json_digit_def)
  show "parse_members d (0x7d # bs) n ob \<noteq> Inr x"
    by (simp add: parse_members.simps [of d "_ # bs"] skip_ws_def json_ws_def parse_string_def)
  show "parse_elements d (0x5d # bs) n vs \<noteq> Inr x"
    using e by (auto simp: parse_elements.simps [of d "_ # bs"] krn_simps)
qed

lemma no_closing_brace:
  "parse_members d bs n ob = Inr x \<Longrightarrow> \<not> fst (consume_if 0x7d (skip_ws bs))"
  using consume_if_fst [of "0x7d" "skip_ws bs"] value_start_tokens(3) parse_members_skip [of d bs n ob] by metis

lemma no_closing_bracket:
  "parse_elements d bs n vs = Inr x \<Longrightarrow> \<not> fst (consume_if 0x5d (skip_ws bs))"
  using consume_if_fst [of "0x5d" "skip_ws bs"] value_start_tokens(4) parse_elements_skip [of d bs n vs] by metis

lemma follow_digit: "ws_text w \<Longrightarrow> \<not> json_digit b \<Longrightarrow> \<not> starts_with_digit (w @ b # bs)"
  by (cases w) (auto simp: starts_with_digit_def ws_text_def json_ws_def json_digit_def)

lemma follow_tokens:
  "ws_text w \<Longrightarrow> \<not> starts_with_digit (w @ 0x7d # bs)" "ws_text w \<Longrightarrow> \<not> starts_with_digit (w @ 0x5d # bs)"
  "ws_text w \<Longrightarrow> \<not> starts_with_digit (w @ 0x2c # bs)"
  by (rule follow_digit; simp add: json_digit_def)+

lemma number_starts: "number_text n t \<Longrightarrow> \<exists>b r. t = b # r \<and> json_digit b"
  by (cases t) (auto simp: number_text_def)

lemma token_not_ws: "json_digit b \<Longrightarrow> \<not> json_ws b"
  by (auto simp: json_digit_def json_ws_def)

lemma parse_complete:
  "json_text v t \<Longrightarrow> (\<And>d n rest. fits d v \<Longrightarrow> n + json_nodes v \<le> MAX_JSON_NODES \<Longrightarrow> \<not> starts_with_digit rest \<Longrightarrow>
     parse_value d (t @ rest) n = Inr (v, rest, n + json_nodes v))"
  "members_text ms tm \<Longrightarrow> (\<And>d n ob rest. members_ok d ms \<Longrightarrow> n + members_nodes ms \<le> MAX_JSON_NODES \<Longrightarrow>
     list_all (\<lambda>m. fst m \<notin> fst ` set ob) ms \<Longrightarrow>
     parse_members d (tm @ rest) n ob = Inr (JsonObject (ob @ ms), rest, n + members_nodes ms))"
  "elements_text vs te \<Longrightarrow> (\<And>d n ar rest. list_all (fits d) vs \<Longrightarrow> n + sum_list (map json_nodes vs) \<le> MAX_JSON_NODES \<Longrightarrow>
     parse_elements d (te @ rest) n ar = Inr (JsonArray (ar @ vs), rest, n + sum_list (map json_nodes vs)))"
proof (induction v t and ms tm and vs te rule: json_text_members_text_elements_text.inducts)
  case (text_no_members w w')
  then show ?case
    by (simp add: parse_value.simps [of d "w @ _"] skip_ws_text skip_ws_token json_ws_def not_le Suc_le_eq)
next
  case (text_object w ms t)
  have "parse_members (d + 1) (t @ rest) (n + 1) [] = Inr (JsonObject ms, rest, n + 1 + members_nodes ms)"
    using text_object.IH [of "d + 1" "n + 1" "[]" rest] text_object.prems
    by (simp add: members_ok_def members_nodes_def list.pred_True)
  with no_closing_brace [OF this] text_object show ?case
    by (simp add: parse_value.simps [of d "w @ _"] skip_ws_text skip_ws_token json_ws_def not_le Suc_le_eq
        parse_members_skip members_nodes_def)
next
  case (text_no_elements w w')
  then show ?case
    by (simp add: parse_value.simps [of d "w @ _"] skip_ws_text skip_ws_token json_ws_def not_le Suc_le_eq)
next
  case (text_array w vs t)
  have "parse_elements (d + 1) (t @ rest) (n + 1) [] = Inr (JsonArray vs, rest, n + 1 + sum_list (map json_nodes vs))"
    using text_array.IH [of "d + 1" "n + 1" rest "[]"] text_array.prems by simp
  with no_closing_bracket [OF this] text_array show ?case
    by (simp add: parse_value.simps [of d "w @ _"] skip_ws_text skip_ws_token json_ws_def not_le Suc_le_eq
        parse_elements_skip)
next
  case (text_string w s t)
  then have "parse_string (0x22 # t @ 0x22 # rest) = Inr (s, rest)" by (auto simp: parse_string_iff)
  with text_string show ?case
    by (simp add: parse_value.simps [of d "w @ _"] skip_ws_text skip_ws_token json_ws_def not_le Suc_le_eq)
next
  case (text_number w m t)
  then have p: "parse_number (t @ rest) = Inr (m, rest)" by (auto simp: parse_number_iff)
  from number_starts [OF text_number(2)] obtain b r where b: "t = b # r" "json_digit b" by blast
  then have "skip_ws (w @ t @ rest) = b # r @ rest" "b \<noteq> 0x7b" "b \<noteq> 0x5b" "b \<noteq> 0x22" "b \<noteq> 0x74" "b \<noteq> 0x66" "b \<noteq> 0x6e"
    using text_number(1) token_not_ws by (auto simp: skip_ws_text skip_ws_token json_digit_def)
  with p b text_number show ?case by (simp add: parse_value.simps [of d "w @ _"] not_le Suc_le_eq)
next
  case (text_true w)
  then show ?case
    by (simp add: parse_value.simps [of d "w @ _"] skip_ws_text skip_ws_token json_ws_def not_le Suc_le_eq
        ascii_def expect_literal_def)
next
  case (text_false w)
  then show ?case
    by (simp add: parse_value.simps [of d "w @ _"] skip_ws_text skip_ws_token json_ws_def not_le Suc_le_eq
        ascii_def expect_literal_def)
next
  case (text_null w)
  then show ?case
    by (simp add: parse_value.simps [of d "w @ _"] skip_ws_text skip_ws_token json_ws_def not_le Suc_le_eq
        ascii_def expect_literal_def)
next
  case (last_member w k kt w' v vt w'')
  have "parse_string (0x22 # kt @ 0x22 # w' @ 0x3a # vt @ w'' @ 0x7d # rest) = Inr (k, w' @ 0x3a # vt @ w'' @ 0x7d # rest)"
    using last_member(2) by (auto simp: parse_string_iff)
  moreover have "parse_value d (vt @ w'' @ 0x7d # rest) n = Inr (v, w'' @ 0x7d # rest, n + json_nodes v)"
    using last_member by (intro last_member.IH) (simp_all add: members_ok_def members_nodes_def follow_tokens)
  ultimately show ?case using last_member
    by (simp add: parse_members.simps [of d "w @ _"] skip_ws_text skip_ws_token json_ws_def members_nodes_def)
next
  case (next_member w k kt w' v vt w'' ms t)
  have "parse_string (0x22 # kt @ 0x22 # w' @ 0x3a # vt @ w'' @ 0x2c # t @ rest) =
      Inr (k, w' @ 0x3a # vt @ w'' @ 0x2c # t @ rest)"
    using next_member(2) by (auto simp: parse_string_iff)
  moreover have "parse_value d (vt @ w'' @ 0x2c # t @ rest) n = Inr (v, w'' @ 0x2c # t @ rest, n + json_nodes v)"
    using next_member by (intro next_member.IH(1)) (simp_all add: members_ok_def members_nodes_def follow_tokens)
  moreover have "parse_members d (t @ rest) (n + json_nodes v) (ob @ [(k, v)]) =
      Inr (JsonObject ((ob @ [(k, v)]) @ ms), rest, n + json_nodes v + members_nodes ms)"
    using next_member by (intro next_member.IH(2)) (auto simp: members_ok_def members_nodes_def list_all_iff)
  ultimately show ?case using next_member
    by (simp add: parse_members.simps [of d "w @ _"] skip_ws_text skip_ws_token json_ws_def members_nodes_def)
next
  case (last_element v vt w)
  have "parse_value d (vt @ w @ 0x5d # rest) n = Inr (v, w @ 0x5d # rest, n + json_nodes v)"
    using last_element by (intro last_element.IH) (simp_all add: follow_tokens)
  then show ?case using last_element
    by (simp add: parse_elements.simps [of d "vt @ _"] skip_ws_text skip_ws_token json_ws_def)
next
  case (next_element v vt w vs t)
  have "parse_value d (vt @ w @ 0x2c # t @ rest) n = Inr (v, w @ 0x2c # t @ rest, n + json_nodes v)"
    using next_element by (intro next_element.IH(1)) (simp_all add: follow_tokens)
  moreover have "parse_elements d (t @ rest) (n + json_nodes v) (ar @ [v]) =
      Inr (JsonArray ((ar @ [v]) @ vs), rest, n + json_nodes v + sum_list (map json_nodes vs))"
    using next_element by (intro next_element.IH(2)) auto
  ultimately show ?case using next_element
    by (simp add: parse_elements.simps [of d "vt @ _"] skip_ws_text skip_ws_token json_ws_def)
qed

lemma json_parse_eq_Inr:
  "json_parse input = Inr v \<longleftrightarrow>
     (\<exists>t w. input = t @ w \<and> json_text v t \<and> ws_text w \<and> fits 0 v \<and> json_nodes v \<le> MAX_JSON_NODES)"
proof
  assume "json_parse input = Inr v"
  then obtain r k where p: "parse_value 0 input 0 = Inr (v, r, k)" "skip_ws r = []"
    by (auto simp: json_parse_def krn_simps split: if_splits)
  from parse_sound(1) [OF p(1)] skip_ws_split [of r] p(2)
  show "\<exists>t w. input = t @ w \<and> json_text v t \<and> ws_text w \<and> fits 0 v \<and> json_nodes v \<le> MAX_JSON_NODES" by auto
next
  assume "\<exists>t w. input = t @ w \<and> json_text v t \<and> ws_text w \<and> fits 0 v \<and> json_nodes v \<le> MAX_JSON_NODES"
  then obtain t w where t: "input = t @ w" "json_text v t" "ws_text w" "fits 0 v" "json_nodes v \<le> MAX_JSON_NODES" by blast
  have "\<not> starts_with_digit w" using t(3) by (cases w) (auto simp: starts_with_digit_def ws_text_def json_ws_def json_digit_def)
  with parse_complete(1) [OF t(2), of 0 0 w] t have "parse_value 0 input 0 = Inr (v, w, json_nodes v)" by simp
  moreover have "skip_ws w = []" using t(3) skip_ws_text [of w "[]"] by (simp add: skip_ws_def)
  ultimately show "json_parse input = Inr v" by (simp add: json_parse_def)
qed

text \<open>C17: The JSON parser accepts exactly the texts of its grammar (with white space after the value),
  with no object repeating a key, numbers without leading zeros below \<open>2 ^ 64\<close>, no value nested
  deeper than 24 and at most 4096 values, and returns the value the text denotes.\<close>

theorem json_parse_iff:
  "json_parse input = Inr v \<longleftrightarrow>
     (\<exists>t w. input = t @ w \<and> json_text v t \<and> ws_text w \<and> fits 0 v \<and> json_nodes v \<le> MAX_JSON_NODES)"
  by (rule json_parse_eq_Inr)

end
