(* ===== verification/Emv_Profiles.thy ===== *)
theory Emv_Profiles
  imports Emv_Config Emv_Json Emv_Dol
begin

text \<open>
  Loading a profile set from its signed JSON text (\<open>load_profile_set\<close> and the functions it calls
  in \<open>src/src/config.rs\<close>), and what a loaded profile set is guaranteed to satisfy.
\<close>

unbundle bit_operations_syntax

type_synonym json_object = "(string \<times> json_value) list"

definition CAPK_CHECKSUM_ALGORITHM :: string where
  "CAPK_CHECKSUM_ALGORITHM = ''sha1(rid || key_index || modulus || exponent)''"
definition CAPK_CHECKSUM_SCOPE :: "string list" where
  "CAPK_CHECKSUM_SCOPE = [''rid'', ''key_index'', ''modulus_hex'', ''exponent_hex'']"
definition PROFILE_SCHEMA_VERSION :: string where "PROFILE_SCHEMA_VERSION = ''1.0''"
definition PROFILE_STATUS_FIXTURE_PENDING :: string where
  "PROFILE_STATUS_FIXTURE_PENDING = ''certification_format_fixture_pending_lab_signature''"
definition PROFILE_STATUS_LAB_SIGNED :: string where
  "PROFILE_STATUS_LAB_SIGNED = ''lab_signed_certification_profile''"
definition CAPK_STATUS_FIXTURE_PENDING :: string where
  "CAPK_STATUS_FIXTURE_PENDING = ''deterministic_public_fixture_values_must_be_replaced_by_lab_signed_capks''"
definition CAPK_STATUS_LAB_SIGNED :: string where "CAPK_STATUS_LAB_SIGNED = ''lab_signed_capks''"
definition PROFILE_MATERIAL_STATUSES :: "string list" where
  "PROFILE_MATERIAL_STATUSES = [PROFILE_STATUS_FIXTURE_PENDING, PROFILE_STATUS_LAB_SIGNED]"
definition CAPK_MATERIAL_STATUSES :: "string list" where
  "CAPK_MATERIAL_STATUSES = [CAPK_STATUS_FIXTURE_PENDING, CAPK_STATUS_LAB_SIGNED]"

section \<open>Texts\<close>

definition to_ascii_uppercase :: "char \<Rightarrow> char" where
  "to_ascii_uppercase c = (let n = of_char c :: nat in if 97 \<le> n \<and> n \<le> 122 then char_of (n - 32) else c)"

fun str_contains :: "string \<Rightarrow> string \<Rightarrow> bool" where
  "str_contains [] needle \<longleftrightarrow> needle = []"
| "str_contains (c # s) needle \<longleftrightarrow> starts_with (c # s) needle \<or> str_contains s needle"

definition reject_placeholder :: "string \<Rightarrow> unit krn_result" where
  "reject_placeholder v =
     (let upper = map to_ascii_uppercase v in
      if str_contains upper ''...'' \<or> str_contains upper ''PLACEHOLDER'' \<or> str_contains upper ''EXAMPLE_NOT'' \<or>
         str_contains upper ''DUMMY'' \<or> str_contains upper ''TEST_ONLY'' then Inl InvalidProfile else Inr ())"

text \<open>White space among the first 256 code points.\<close>

definition white_space :: "char \<Rightarrow> bool" where
  "white_space c \<longleftrightarrow> (let n = of_char c :: nat in 9 \<le> n \<and> n \<le> 13 \<or> n = 32 \<or> n = 0x85 \<or> n = 0xa0)"

definition trim_text :: "string \<Rightarrow> string" where
  "trim_text = trim_by white_space"

definition reject_untrimmed_or_blank :: "string \<Rightarrow> unit krn_result" where
  "reject_untrimmed_or_blank v =
     (let trimmed = trim_text v in
      if trimmed = [] \<or> length trimmed \<noteq> length v then Inl InvalidProfile else Inr ())"

section \<open>Fields\<close>

definition json_get :: "json_object \<Rightarrow> string \<Rightarrow> json_value option" where
  "json_get object key = map_of object key"

definition reject_unknown_fields :: "json_object \<Rightarrow> string list \<Rightarrow> unit krn_result" where
  "reject_unknown_fields object allowed =
     (if list_ex (\<lambda>(key, _). \<not> list_ex (\<lambda>k. k = key) allowed) object then Inl InvalidProfile else Inr ())"

definition required_field :: "json_object \<Rightarrow> string \<Rightarrow> json_value krn_result" where
  "required_field object key = ok_or (json_get object key) InvalidProfile"

definition required_string :: "json_object \<Rightarrow> string \<Rightarrow> string krn_result" where
  "required_string object key = rbind (required_field object key) as_string"

definition required_allowed_string :: "json_object \<Rightarrow> string \<Rightarrow> string list \<Rightarrow> string krn_result" where
  "required_allowed_string object key allowed =
     rbind (required_string object key) (\<lambda>v.
       if list_ex (\<lambda>a. a = v) allowed then Inr v else Inl InvalidProfile)"

definition string_set_item :: "json_value \<Rightarrow> string krn_result" where
  "string_set_item item =
     rbind (as_string item) (\<lambda>v.
     rbind (reject_placeholder v) (\<lambda>_.
       let v = trim_text v in if v = [] then Inl InvalidProfile else Inr v))"

definition required_string_set :: "json_object \<Rightarrow> string \<Rightarrow> bool \<Rightarrow> string list krn_result" where
  "required_string_set object key must_be_non_empty =
     rbind (required_field object key) (\<lambda>v.
     rbind (as_array v) (\<lambda>items.
     rbind (rmapM string_set_item items) (\<lambda>vs.
       if must_be_non_empty \<and> vs = [] then Inl InvalidProfile
       else if has_earlier id vs then Inl InvalidProfile
       else Inr vs)))"

definition required_u64 :: "json_object \<Rightarrow> string \<Rightarrow> u64 krn_result" where
  "required_u64 object key = rbind (required_field object key) as_u64"

definition optional_u16 :: "json_object \<Rightarrow> string \<Rightarrow> u16 option krn_result" where
  "optional_u16 object key = (case json_get object key of
     None \<Rightarrow> Inr None
   | Some v \<Rightarrow> rbind (as_u64 v) (\<lambda>v. if v > 65535 then Inl InvalidProfile else Inr (Some (ucast v))))"

definition required_bool :: "json_object \<Rightarrow> string \<Rightarrow> bool krn_result" where
  "required_bool object key = rbind (required_field object key) as_bool"

definition parse_hex_field :: "json_object \<Rightarrow> string \<Rightarrow> bytes krn_result" where
  "parse_hex_field object key =
     rbind (required_string object key) (\<lambda>v. rbind (reject_placeholder v) (\<lambda>_. decode_hex v))"

definition hex_byte_item :: "json_value \<Rightarrow> byte krn_result" where
  "hex_byte_item item =
     rbind (as_string item) (\<lambda>s. rbind (decode_hex s) (\<lambda>bs.
       if length bs = 1 then Inr (bs ! 0) else Inl InvalidProfile))"

definition optional_hex_byte_array :: "json_object \<Rightarrow> string \<Rightarrow> bytes krn_result" where
  "optional_hex_byte_array object key = (case json_get object key of
     None \<Rightarrow> Inr []
   | Some v \<Rightarrow> rbind (as_array v) (\<lambda>items. rbind (rmapM hex_byte_item items) (\<lambda>vs.
       rbind (reject_duplicate_bytes vs) (\<lambda>_. Inr vs))))"

definition parse_arr5_field :: "json_object \<Rightarrow> string \<Rightarrow> arr5 krn_result" where
  "parse_arr5_field object key = rbind (parse_hex_field object key) (\<lambda>v. to_arr5 v InvalidProfile)"

definition optional_retrieved_date :: "json_object \<Rightarrow> emv_date option krn_result" where
  "optional_retrieved_date object = (case json_get object ''retrieved'' of
     None \<Rightarrow> Inr None
   | Some v \<Rightarrow> rbind (as_string v) (\<lambda>retrieved.
       rbind (reject_placeholder retrieved) (\<lambda>_.
         if trim_text retrieved = [] then Inl InvalidProfile
         else rmap Some (parse_iso_date retrieved))))"

section \<open>The profile set's own fields\<close>

definition validate_profile_schema_version :: "json_object \<Rightarrow> build_mode \<Rightarrow> unit krn_result" where
  "validate_profile_schema_version object mode = (case json_get object ''schema_version'' of
     None \<Rightarrow> (if mode = ModeTest then Inr () else Inl InvalidProfile)
   | Some v \<Rightarrow> rbind (as_string v) (\<lambda>s. if s = PROFILE_SCHEMA_VERSION then Inr () else Inl InvalidProfile))"

definition parse_profile_class :: "json_object \<Rightarrow> build_mode \<Rightarrow> profile_class krn_result" where
  "parse_profile_class object mode = (case json_get object ''profile_class'' of
     None \<Rightarrow> (if mode = ModeTest then Inr ClassExampleOnly else Inl InvalidProfile)
   | Some v \<Rightarrow> rbind (as_string v) (\<lambda>s.
       if s = ''CERTIFICATION'' then Inr ClassCertification
       else if s = ''EXAMPLE_ONLY'' then (if mode = ModeTest then Inr ClassExampleOnly else Inl InvalidProfile)
       else Inl InvalidProfile))"

definition check_certification_source ::
    "string \<Rightarrow> string \<Rightarrow> string \<Rightarrow> emv_date option \<Rightarrow> string \<Rightarrow> emv_date \<Rightarrow> unit krn_result" where
  "check_certification_source owner document version retrieved verification evaluation_date =
     rbind (reject_placeholder owner) (\<lambda>_. rbind (reject_placeholder document) (\<lambda>_.
     rbind (reject_placeholder version) (\<lambda>_. rbind (reject_placeholder verification) (\<lambda>_.
     rbind (reject_untrimmed_or_blank owner) (\<lambda>_. rbind (reject_untrimmed_or_blank document) (\<lambda>_.
     rbind (reject_untrimmed_or_blank version) (\<lambda>_.
       case retrieved of None \<Rightarrow> Inl InvalidProfile
       | Some retrieved \<Rightarrow>
           if retrieved > evaluation_date then Inl InvalidProfile
           else if verification \<noteq> ''external_signature_required'' then Inl InvalidProfile
           else Inr ())))))))"

definition parse_source_object :: "json_object \<Rightarrow> profile_class \<Rightarrow> emv_date \<Rightarrow> profile_source krn_result" where
  "parse_source_object source class evaluation_date =
     rbind (reject_unknown_fields source
       [''owner'', ''document'', ''version'', ''retrieved'', ''verification'']) (\<lambda>_.
     rbind (required_string source ''owner'') (\<lambda>owner.
     rbind (required_string source ''document'') (\<lambda>document.
     rbind (required_string source ''version'') (\<lambda>version.
     rbind (optional_retrieved_date source) (\<lambda>retrieved.
     rbind (required_string source ''verification'') (\<lambda>verification.
     rbind (if class = ClassCertification
            then check_certification_source owner document version retrieved verification evaluation_date
            else Inr ()) (\<lambda>_.
       Inr \<lparr>source_owner = owner, source_document = document, source_version = version,
            source_retrieved = retrieved, source_verification = verification\<rparr>)))))))"

definition test_source :: "string \<Rightarrow> profile_source" where
  "test_source owner = \<lparr>source_owner = owner, source_document = ''inline_test_fixture'',
     source_version = ''0'', source_retrieved = None, source_verification = ''test_only''\<rparr>"

definition parse_profile_source ::
    "json_object \<Rightarrow> profile_class \<Rightarrow> build_mode \<Rightarrow> emv_date \<Rightarrow> profile_source krn_result" where
  "parse_profile_source object class mode evaluation_date = (case json_get object ''profile_source'' of
     None \<Rightarrow> (if mode = ModeTest \<and> class = ClassExampleOnly then Inr (test_source ''unspecified_test_profile'')
              else Inl InvalidProfile)
   | Some v \<Rightarrow> rbind (as_object v) (\<lambda>source. parse_source_object source class evaluation_date))"

text \<open>The certification scope is represented by its only field, the bundled scheme profiles.\<close>

definition parse_certification_scope ::
    "json_value option \<Rightarrow> profile_class \<Rightarrow> build_mode \<Rightarrow> string list option krn_result" where
  "parse_certification_scope v class mode = (case v of
     None \<Rightarrow> (case class of ClassCertification \<Rightarrow> Inl InvalidProfile | ClassExampleOnly \<Rightarrow> Inr None)
   | Some v \<Rightarrow>
       rbind (as_object v) (\<lambda>scope.
       rbind (reject_unknown_fields scope
         [''bundled_scheme_profiles'', ''lab_supplied_scheme_profiles_required'', ''contactless_kernel_profile'',
          ''profile_material_status'', ''capk_material_status'', ''production_profile_bundle_required'']) (\<lambda>_.
       if class = ClassExampleOnly then Inr None
       else
         rbind (required_string_set scope ''bundled_scheme_profiles'' True) (\<lambda>bundled.
         rbind (required_string_set scope ''lab_supplied_scheme_profiles_required'' False) (\<lambda>lab_required.
         if list_ex (\<lambda>b. list_ex (\<lambda>l. l = b) lab_required) bundled then Inl InvalidProfile
         else
           rbind (required_string scope ''contactless_kernel_profile'') (\<lambda>contactless_profile.
           rbind (reject_placeholder contactless_profile) (\<lambda>_.
           if trim_text contactless_profile = [] then Inl InvalidProfile
           else
             rbind (required_allowed_string scope ''profile_material_status'' PROFILE_MATERIAL_STATUSES) (\<lambda>profile_status.
             rbind (required_allowed_string scope ''capk_material_status'' CAPK_MATERIAL_STATUSES) (\<lambda>capk_status.
             if mode = ModeProduction \<and> (profile_status \<noteq> PROFILE_STATUS_LAB_SIGNED \<or> capk_status \<noteq> CAPK_STATUS_LAB_SIGNED)
             then Inl InvalidProfile
             else rbind (required_bool scope ''production_profile_bundle_required'') (\<lambda>required.
               if \<not> required then Inl InvalidProfile else Inr (Some bundled)))))))))))"

definition validate_certification_scope_scheme_profiles ::
    "string list option \<Rightarrow> scheme_profile list \<Rightarrow> unit krn_result" where
  "validate_certification_scope_scheme_profiles scope schemes = (case scope of
     None \<Rightarrow> Inr ()
   | Some bundled \<Rightarrow>
       if length bundled \<noteq> length schemes then Inl InvalidProfile
       else if list_ex (\<lambda>s. \<not> list_ex (\<lambda>b. b = sp_scheme_name s) bundled) schemes \<or>
               list_ex (\<lambda>b. \<not> list_ex (\<lambda>s. sp_scheme_name s = b) schemes) bundled
       then Inl InvalidProfile else Inr ())"

section \<open>Application profiles\<close>

definition parse_terminal_action :: "string \<Rightarrow> terminal_action krn_result" where
  "parse_terminal_action inp =
     (if inp = ''AAC'' then Inr ActionAac else if inp = ''TC'' then Inr ActionTc
      else if inp = ''ARQC'' then Inr ActionArqc else Inl InvalidProfile)"

definition parse_relay_resistance_failure_outcome :: "string \<Rightarrow> relay_resistance_failure_outcome krn_result" where
  "parse_relay_resistance_failure_outcome inp =
     (if inp = ''try_again'' then Inr RelayTryAgain
      else if inp = ''alternate_interface'' then Inr RelayAlternateInterface
      else if inp = ''terminate'' then Inr RelayTerminate else Inl InvalidProfile)"

definition strip_prefix :: "string \<Rightarrow> string \<Rightarrow> string option" where
  "strip_prefix s p = (if starts_with s p then Some (drop (length p) s) else None)"

text \<open>The length of a text in bytes of UTF-8; its characters are those below 256.\<close>

definition utf8_len :: "string \<Rightarrow> nat" where
  "utf8_len s = sum_list (map (\<lambda>c. if (of_char c :: nat) < 0x80 then 1 else 2) s)"

definition parse_cda_request_encoding :: "string \<Rightarrow> cda_request_encoding krn_result" where
  "parse_cda_request_encoding inp =
     (if inp = ''CDOL1_bit'' then Inr EncodeInCdolData
      else case strip_prefix inp ''P1_low_bits_0x'' of
        None \<Rightarrow> Inl InvalidProfile
      | Some hex \<Rightarrow>
          if utf8_len hex \<noteq> 2 then Inl InvalidProfile
          else rbind (decode_hex hex) (\<lambda>bs.
               rbind (ok_or (get_at bs 0) InvalidProfile) (\<lambda>bits.
               if bits = 0 \<or> bits AND 0xc0 \<noteq> 0 then Inl InvalidProfile else Inr (EncodeP1LowBits bits))))"

definition parse_cda_authentication_data :: "string \<Rightarrow> cda_authentication_data krn_result" where
  "parse_cda_authentication_data inp =
     (if inp = ''application_cryptogram'' then Inr CdaApplicationCryptogram
      else if inp = ''application_cryptogram_9f4c'' then Inr CdaApplicationCryptogramAndIccDynamicNumber
      else Inl InvalidProfile)"

definition floor_limit_item :: "json_value \<Rightarrow> transaction_type_floor_limit krn_result" where
  "floor_limit_item item =
     rbind (as_object item) (\<lambda>entry.
     rbind (reject_unknown_fields entry [''transaction_type'', ''floor_limit'']) (\<lambda>_.
     rbind (parse_hex_field entry ''transaction_type'') (\<lambda>transaction_type.
     if length transaction_type \<noteq> 1 then Inl InvalidProfile
     else rbind (required_u64 entry ''floor_limit'') (\<lambda>limit.
       Inr \<lparr>tfl_transaction_type = transaction_type ! 0, tfl_floor_limit = limit\<rparr>))))"

definition parse_transaction_type_floor_limits :: "json_object \<Rightarrow> transaction_type_floor_limit list krn_result" where
  "parse_transaction_type_floor_limits object = (case json_get object ''transaction_type_floor_limits'' of
     None \<Rightarrow> Inr []
   | Some v \<Rightarrow> rbind (as_array v) (\<lambda>items. rbind (rmapM floor_limit_item items) (\<lambda>vs.
       rbind (ok_or (trm_profile_with_limits 0 vs 0 None None) InvalidProfile) (\<lambda>_. Inr vs))))"

definition parse_default_cdol1 :: "json_object \<Rightarrow> bytes option krn_result" where
  "parse_default_cdol1 object = (case json_get object ''default_cdol1'' of
     None \<Rightarrow> Inr None
   | Some v \<Rightarrow> rbind (as_string v) (\<lambda>cdol. rbind (reject_placeholder cdol) (\<lambda>_.
       rbind (decode_hex cdol) (\<lambda>bs. rbind (parse_dol bs) (\<lambda>_. Inr (Some bs))))))"

definition parse_relay_resistance_profile :: "json_object \<Rightarrow> relay_resistance_profile option krn_result" where
  "parse_relay_resistance_profile object = (case json_get object ''relay_resistance'' of
     None \<Rightarrow> Inr None
   | Some v \<Rightarrow>
       rbind (as_object v) (\<lambda>relay.
       rbind (reject_unknown_fields relay
         [''required'', ''command_apdu_hex'', ''max_round_trip_ms'', ''success_response_hex'', ''failure_outcome'']) (\<lambda>_.
       rbind (required_bool relay ''required'') (\<lambda>required.
       if \<not> required then Inr None
       else rbind (required_u64 relay ''max_round_trip_ms'') (\<lambda>max_round_trip_ms.
         if max_round_trip_ms > 65535 then Inl InvalidProfile
         else rbind (parse_hex_field relay ''command_apdu_hex'') (\<lambda>command.
              rbind (parse_hex_field relay ''success_response_hex'') (\<lambda>success.
              rbind (required_string relay ''failure_outcome'') (\<lambda>failure.
              rbind (parse_relay_resistance_failure_outcome failure) (\<lambda>failure.
                rmap Some (relay_resistance_profile_new command (ucast max_round_trip_ms) success failure))))))))))"

definition parse_interfaces :: "json_object \<Rightarrow> string list krn_result" where
  "parse_interfaces object =
     rbind (required_field object ''interfaces'') (\<lambda>v.
     rbind (as_array v) (\<lambda>items.
     rbind (rmapM as_string items) (\<lambda>interfaces.
       if interfaces = [] \<or> list_ex (\<lambda>i. i \<noteq> ''contact'' \<and> i \<noteq> ''contactless'') interfaces then Inl InvalidProfile
       else if has_earlier id interfaces then Inl InvalidProfile
       else Inr interfaces)))"

definition parse_action_codes :: "json_object \<Rightarrow> string \<Rightarrow> action_codes krn_result" where
  "parse_action_codes object prefix =
     rbind (parse_arr5_field object (prefix @ ''_online'')) (\<lambda>online.
     rbind (parse_arr5_field object (prefix @ ''_denial'')) (\<lambda>denial.
     rbind (parse_arr5_field object (prefix @ ''_default'')) (\<lambda>default.
       Inr \<lparr>ac_denial = denial, ac_online = online, ac_default = default\<rparr>)))"

definition AID_FIELDS :: "string list" where
  "AID_FIELDS = [''aid'', ''priority'', ''partial_selection'', ''interfaces'', ''tac_online'', ''tac_denial'',
     ''tac_default'', ''iac_online'', ''iac_denial'', ''iac_default'', ''floor_limit'',
     ''transaction_type_floor_limits'', ''cvm_limit_contact'', ''random_selection_percent'',
     ''lower_consecutive_offline_limit'', ''upper_consecutive_offline_limit'', ''contactless_transaction_limit'',
     ''contactless_cvm_limit'', ''cdcvm_supported'', ''cda_supported'', ''cda_request_encoding'',
     ''cda_authentication_data'', ''default_cdol1'', ''critical_issuer_script_ins'', ''relay_resistance'']"

definition parse_aid :: "json_value \<Rightarrow> aid_profile krn_result" where
  "parse_aid v =
     rbind (as_object v) (\<lambda>object.
     rbind (reject_unknown_fields object AID_FIELDS) (\<lambda>_.
     rbind (parse_hex_field object ''aid'') (\<lambda>aid.
     if \<not> (5 \<le> length aid \<and> length aid \<le> 16) then Inl InvalidProfile
     else
     rbind (reject_dummy_bytes aid) (\<lambda>_.
     rbind (required_u64 object ''priority'') (\<lambda>priority.
     if priority > 255 then Inl InvalidProfile
     else
     rbind (parse_interfaces object) (\<lambda>interfaces.
     rbind (required_u64 object ''random_selection_percent'') (\<lambda>percent.
     if percent > 100 then Inl InvalidProfile
     else
     rbind (optional_u16 object ''lower_consecutive_offline_limit'') (\<lambda>lower.
     rbind (optional_u16 object ''upper_consecutive_offline_limit'') (\<lambda>upper.
     if (case (lower, upper) of (Some l, Some u) \<Rightarrow> l > u | _ \<Rightarrow> False) then Inl InvalidProfile
     else
     rbind (required_u64 object ''contactless_transaction_limit'') (\<lambda>transaction_limit.
     rbind (required_u64 object ''contactless_cvm_limit'') (\<lambda>cvm_limit.
     if transaction_limit \<noteq> 0 \<and> cvm_limit > transaction_limit then Inl InvalidProfile
     else
     rbind (required_bool object ''cda_supported'') (\<lambda>cda.
     rbind (opt_traverse parse_cda_request_encoding
              (Option.bind (json_get object ''cda_request_encoding'') as_string_opt)) (\<lambda>encoding.
     rbind (rmap (case_option CdaApplicationCryptogram id) (opt_traverse parse_cda_authentication_data
              (Option.bind (json_get object ''cda_authentication_data'') as_string_opt))) (\<lambda>cda_data.
     if cda \<noteq> (encoding \<noteq> None) then Inl InvalidProfile
     else if \<not> cda \<and> cda_data \<noteq> CdaApplicationCryptogram then Inl InvalidProfile
     else
     rbind (required_bool object ''partial_selection'') (\<lambda>partial.
     rbind (parse_action_codes object ''tac'') (\<lambda>tac.
     rbind (parse_action_codes object ''iac'') (\<lambda>iac.
     rbind (required_u64 object ''floor_limit'') (\<lambda>floor.
     rbind (parse_transaction_type_floor_limits object) (\<lambda>type_limits.
     rbind (required_u64 object ''cvm_limit_contact'') (\<lambda>contact_cvm_limit.
     rbind (required_bool object ''cdcvm_supported'') (\<lambda>cdcvm.
     rbind (parse_default_cdol1 object) (\<lambda>cdol1.
     rbind (optional_hex_byte_array object ''critical_issuer_script_ins'') (\<lambda>script_ins.
     rbind (parse_relay_resistance_profile object) (\<lambda>relay.
       Inr \<lparr>ap_aid = aid, ap_priority = ucast priority, ap_partial_selection = partial,
         ap_interfaces = interfaces, ap_action_codes = tac, ap_issuer_action_codes = iac,
         ap_floor_limit = floor, ap_transaction_type_floor_limits = type_limits,
         ap_cvm_limit_contact = contact_cvm_limit, ap_random_selection_percent = ucast percent,
         ap_lower_consecutive_offline_limit = lower, ap_upper_consecutive_offline_limit = upper,
         ap_contactless_transaction_limit = transaction_limit, ap_contactless_cvm_limit = cvm_limit,
         ap_cdcvm_supported = cdcvm, ap_cda_supported = cda, ap_cda_request_encoding = encoding,
         ap_cda_authentication_data = cda_data, ap_default_cdol1 = cdol1,
         ap_critical_issuer_script_ins = script_ins, ap_relay_resistance = relay\<rparr>))))))))))))))))))))))))"

section \<open>Keys and schemes\<close>

definition validate_capk_checksum_metadata :: "json_object \<Rightarrow> unit krn_result" where
  "validate_capk_checksum_metadata object =
     rbind (required_string object ''checksum_algorithm'') (\<lambda>algorithm.
     if algorithm \<noteq> CAPK_CHECKSUM_ALGORITHM then Inl InvalidProfile
     else
     rbind (required_field object ''checksum_scope'') (\<lambda>v.
     rbind (as_array v) (\<lambda>scope.
     if length scope \<noteq> length CAPK_CHECKSUM_SCOPE then Inl InvalidProfile
     else rfold (\<lambda>_ (actual, expected). rbind (as_string actual) (\<lambda>s.
            if s \<noteq> expected then Inl InvalidProfile else Inr ())) () (zip scope CAPK_CHECKSUM_SCOPE))))"

definition parse_capk :: "json_value \<Rightarrow> arr5 \<Rightarrow> emv_date \<Rightarrow> profile_class \<Rightarrow> build_mode \<Rightarrow> capk krn_result" where
  "parse_capk v rid evaluation_date class mode =
     rbind (as_object v) (\<lambda>object.
     rbind (reject_unknown_fields object [''key_index'', ''modulus_hex'', ''exponent_hex'', ''expiry'',
       ''checksum_hex'', ''checksum_algorithm'', ''checksum_scope'', ''source'']) (\<lambda>_.
     rbind (required_u64 object ''key_index'') (\<lambda>key_index.
     if key_index > 255 then Inl InvalidProfile
     else
     rbind (parse_hex_field object ''modulus_hex'') (\<lambda>modulus.
     rbind (parse_hex_field object ''exponent_hex'') (\<lambda>exponent.
     rbind (parse_hex_field object ''checksum_hex'') (\<lambda>checksum.
     if length checksum < 16 then Inl InvalidProfile
     else
     rbind (validate_capk_public_key_components modulus exponent) (\<lambda>_.
     rbind (reject_dummy_bytes checksum) (\<lambda>_.
     rbind (if class = ClassCertification then
              rbind (validate_capk_checksum_metadata object) (\<lambda>_.
                if length checksum \<noteq> SHA1_DIGEST_BYTES \<or>
                   checksum \<noteq> capk_checksum_components rid (ucast key_index) modulus exponent
                then Inl InvalidProfile else Inr ())
            else Inr ()) (\<lambda>_.
     rbind (required_string object ''expiry'') (\<lambda>expiry.
     rbind (parse_iso_date expiry) (\<lambda>expiry.
     if expiry < evaluation_date then Inl InvalidProfile
     else
     rbind (case json_get object ''source'' of
              Some s \<Rightarrow> rbind (as_object s) (\<lambda>source. parse_source_object source class evaluation_date)
            | None \<Rightarrow> if mode = ModeTest \<and> class = ClassExampleOnly then Inr (test_source ''unspecified_test_capk'')
                else Inl InvalidProfile) (\<lambda>source.
       Inr \<lparr>capk_rid = rid, capk_key_index = ucast key_index, capk_modulus = modulus,
         capk_exponent = exponent, capk_expiry = expiry, capk_checksum_value = checksum,
         capk_source = source\<rparr>))))))))))))"

definition parse_contact_kernel_type :: "json_object \<Rightarrow> string option krn_result" where
  "parse_contact_kernel_type object = (case json_get object ''contact_kernel_type'' of
     None \<Rightarrow> Inr None
   | Some v \<Rightarrow> rbind (as_string v) (\<lambda>t. rbind (reject_placeholder t) (\<lambda>_.
       if trim_text t = [] \<or> t = ''c8_contactless'' then Inl InvalidProfile else Inr (Some t))))"

definition validate_scheme_interface_kernel_mapping ::
    "string \<Rightarrow> string option \<Rightarrow> aid_profile list \<Rightarrow> profile_class \<Rightarrow> build_mode \<Rightarrow> unit krn_result" where
  "validate_scheme_interface_kernel_mapping kernel_type contact_kernel_type aids class mode =
     (if mode = ModeTest \<and> class = ClassExampleOnly then Inr ()
      else rbind (reject_placeholder kernel_type) (\<lambda>_.
        if trim_text kernel_type = [] then Inl InvalidProfile
        else if list_ex (\<lambda>a. list_ex (\<lambda>i. i = ''contactless'') (ap_interfaces a)) aids \<and> kernel_type \<noteq> ''c8_contactless''
        then Inl InvalidProfile
        else if list_ex (\<lambda>a. list_ex (\<lambda>i. i = ''contact'') (ap_interfaces a)) aids \<and> contact_kernel_type = None
        then Inl InvalidProfile
        else Inr ()))"

definition parse_scheme :: "json_value \<Rightarrow> emv_date \<Rightarrow> profile_class \<Rightarrow> build_mode \<Rightarrow> scheme_profile krn_result" where
  "parse_scheme v evaluation_date class mode =
     rbind (as_object v) (\<lambda>object.
     rbind (reject_unknown_fields object [''scheme_name'', ''rid'', ''kernel_type'', ''contact_kernel_type'',
       ''taa_fallback_when_offline_unable_online'', ''taa_no_match_default_when_online_capable'',
       ''taa_no_match_default_when_offline_only'', ''aids'', ''capks'']) (\<lambda>_.
     rbind (required_string object ''scheme_name'') (\<lambda>scheme_name.
     rbind (reject_placeholder scheme_name) (\<lambda>_.
     if trim_text scheme_name = [] then Inl InvalidProfile
     else
     rbind (parse_arr5_field object ''rid'') (\<lambda>rid.
     rbind (reject_dummy_bytes (list5 rid)) (\<lambda>_.
     rbind (required_string object ''kernel_type'') (\<lambda>kernel_type.
     rbind (parse_contact_kernel_type object) (\<lambda>contact_kernel_type.
     rbind (required_string object ''taa_fallback_when_offline_unable_online'') (\<lambda>taa_fallback.
     rbind (required_string object ''taa_no_match_default_when_online_capable'') (\<lambda>taa_online.
     rbind (required_string object ''taa_no_match_default_when_offline_only'') (\<lambda>taa_offline.
     rbind (parse_terminal_action taa_fallback) (\<lambda>fallback_action.
     rbind (parse_terminal_action taa_online) (\<lambda>online_action.
     rbind (parse_terminal_action taa_offline) (\<lambda>offline_action.
     rbind (taa_profile_new fallback_action online_action offline_action) (\<lambda>taa.
     rbind (required_field object ''aids'') (\<lambda>aids_value.
     rbind (as_array aids_value) (\<lambda>aids_array.
     if aids_array = [] then Inl InvalidProfile
     else
     rbind (rmapM parse_aid aids_array) (\<lambda>aids.
     rbind (reject_aids_outside_scheme_rid rid aids) (\<lambda>_.
     rbind (reject_duplicate_aids aids) (\<lambda>_.
     rbind (validate_scheme_interface_kernel_mapping kernel_type contact_kernel_type aids class mode) (\<lambda>_.
     rbind (required_field object ''capks'') (\<lambda>capks_value.
     rbind (as_array capks_value) (\<lambda>capks_array.
     if capks_array = [] then Inl InvalidProfile
     else
     rbind (rmapM (\<lambda>c. parse_capk c rid evaluation_date class mode) capks_array) (\<lambda>capks.
     rbind (reject_duplicate_capk_identities capks) (\<lambda>_.
       Inr \<lparr>sp_scheme_name = scheme_name, sp_rid = rid, sp_kernel_type = kernel_type,
         sp_contact_kernel_type = contact_kernel_type, sp_taa = taa, sp_aids = aids,
         sp_capks = capks\<rparr>)))))))))))))))))))))))))"

section \<open>Loading\<close>

definition load_profile_set :: "bytes \<Rightarrow> config_load_policy \<Rightarrow> profile_set krn_result" where
  "load_profile_set json policy =
     (if (policy_mode policy = ModeCertification \<or> policy_mode policy = ModeProduction) \<and>
         policy_signature_status policy \<noteq> SignatureVerified then Inl InvalidProfile
      else if policy_candidate_version policy \<le> policy_installed_version policy then Inl InvalidProfile
      else
      rbind (json_parse json) (\<lambda>root.
      rbind (as_object root) (\<lambda>object.
      rbind (reject_unknown_fields object [''schema_version'', ''profile_class'', ''profile_source'',
        ''certification_scope'', ''scheme_profiles'']) (\<lambda>_.
      rbind (validate_profile_schema_version object (policy_mode policy)) (\<lambda>_.
      rbind (parse_profile_class object (policy_mode policy)) (\<lambda>class.
      rbind (parse_certification_scope (json_get object ''certification_scope'') class (policy_mode policy)) (\<lambda>scope.
      rbind (parse_profile_source object class (policy_mode policy) (policy_evaluation_date policy)) (\<lambda>source.
      rbind (required_field object ''scheme_profiles'') (\<lambda>schemes_value.
      rbind (as_array schemes_value) (\<lambda>schemes_array.
      if schemes_array = [] then Inl InvalidProfile
      else
      rbind (rmapM (\<lambda>s. parse_scheme s (policy_evaluation_date policy) class (policy_mode policy)) schemes_array) (\<lambda>schemes.
      rbind (reject_duplicate_scheme_rids schemes) (\<lambda>_.
      rbind (validate_certification_scope_scheme_profiles scope schemes) (\<lambda>_.
        Inr \<lparr>ps_version = policy_candidate_version policy, ps_profile_class = class,
          ps_profile_source = source, ps_schemes = schemes\<rparr>)))))))))))))"

section \<open>What a loaded profile set satisfies\<close>

definition wf_aid_profile :: "aid_profile \<Rightarrow> bool" where
  "wf_aid_profile a \<longleftrightarrow>
     5 \<le> length (ap_aid a) \<and> length (ap_aid a) \<le> 16 \<and> \<not> is_dummy_bytes (ap_aid a) \<and>
     ap_interfaces a \<noteq> [] \<and> distinct (ap_interfaces a) \<and>
     list_all (\<lambda>i. i = ''contact'' \<or> i = ''contactless'') (ap_interfaces a) \<and>
     aid_trm_profile a \<noteq> None \<and>
     (ap_contactless_transaction_limit a = 0 \<or> ap_contactless_cvm_limit a \<le> ap_contactless_transaction_limit a) \<and>
     (ap_cda_supported a \<longleftrightarrow> ap_cda_request_encoding a \<noteq> None) \<and>
     (ap_cda_supported a \<or> ap_cda_authentication_data a = CdaApplicationCryptogram) \<and>
     (case ap_default_cdol1 a of None \<Rightarrow> True | Some d \<Rightarrow> \<exists>es. parse_dol d = Inr es) \<and>
     distinct (ap_critical_issuer_script_ins a)"

definition wf_capk :: "arr5 \<Rightarrow> emv_date \<Rightarrow> profile_class \<Rightarrow> capk \<Rightarrow> bool" where
  "wf_capk rid day class c \<longleftrightarrow>
     capk_rid c = rid \<and> day \<le> capk_expiry c \<and>
     validate_capk_public_key_components (capk_modulus c) (capk_exponent c) = Inr () \<and>
     (class = ClassCertification \<longrightarrow>
        capk_checksum_value c = fips_sha1 (list5 (capk_rid c) @ [capk_key_index c] @ capk_modulus c @ capk_exponent c))"

definition wf_scheme :: "emv_date \<Rightarrow> profile_class \<Rightarrow> build_mode \<Rightarrow> scheme_profile \<Rightarrow> bool" where
  "wf_scheme day class mode s \<longleftrightarrow>
     sp_aids s \<noteq> [] \<and> list_all wf_aid_profile (sp_aids s) \<and>
     list_all (\<lambda>a. take 5 (ap_aid a) = list5 (sp_rid s)) (sp_aids s) \<and> distinct (map ap_aid (sp_aids s)) \<and>
     sp_capks s \<noteq> [] \<and> list_all (wf_capk (sp_rid s) day class) (sp_capks s) \<and>
     distinct (map capk_key_index (sp_capks s)) \<and> wf_taa_profile (sp_taa s) \<and>
     (mode = ModeTest \<and> class = ClassExampleOnly \<or>
      list_all (\<lambda>a. (''contactless'' \<in> set (ap_interfaces a) \<longrightarrow> sp_kernel_type s = ''c8_contactless'') \<and>
         (''contact'' \<in> set (ap_interfaces a) \<longrightarrow> sp_contact_kernel_type s \<noteq> None)) (sp_aids s))"

definition wf_profile_set :: "config_load_policy \<Rightarrow> profile_set \<Rightarrow> bool" where
  "wf_profile_set policy ps \<longleftrightarrow>
     ps_version ps = policy_candidate_version policy \<and> policy_installed_version policy < ps_version ps \<and>
     (policy_mode policy = ModeTest \<or>
        policy_signature_status policy = SignatureVerified \<and> ps_profile_class ps = ClassCertification) \<and>
     ps_schemes ps \<noteq> [] \<and> distinct (map sp_rid (ps_schemes ps)) \<and>
     list_all (wf_scheme (policy_evaluation_date policy) (ps_profile_class ps) (policy_mode policy)) (ps_schemes ps)"

lemma parse_transaction_type_floor_limits_ok:
  "parse_transaction_type_floor_limits object = Inr vs \<Longrightarrow> trm_profile_with_limits 0 vs 0 None None \<noteq> None"
  by (cases "json_get object ''transaction_type_floor_limits''")
    (auto simp: parse_transaction_type_floor_limits_def krn_simps, simp add: trm_profile_with_limits_def)

lemma parse_interfaces_ok:
  "parse_interfaces object = Inr is \<Longrightarrow>
     is \<noteq> [] \<and> distinct is \<and> list_all (\<lambda>i. i = ''contact'' \<or> i = ''contactless'') is"
  by (auto simp: parse_interfaces_def krn_simps list_ex_iff list_all_iff if_Inl_eq_Inr)

lemma parse_default_cdol1_ok:
  "parse_default_cdol1 object = Inr cdol \<Longrightarrow> case cdol of None \<Rightarrow> True | Some d \<Rightarrow> \<exists>es. parse_dol d = Inr es"
  by (auto simp: parse_default_cdol1_def krn_simps split: option.splits)

lemma optional_hex_byte_array_distinct: "optional_hex_byte_array object key = Inr vs \<Longrightarrow> distinct vs"
  by (auto simp: optional_hex_byte_array_def reject_duplicate_bytes_def krn_simps if_Inl_eq_Inr split: option.splits)

lemma trm_limits_ok:
  "trm_profile_with_limits 0 vs 0 None None \<noteq> None \<Longrightarrow> \<not> percent > 100 \<Longrightarrow>
     \<not> (case (lower, upper) of (Some l, Some u) \<Rightarrow> l > u | _ \<Rightarrow> False) \<Longrightarrow>
     \<forall>fl. trm_profile_with_limits fl vs percent lower upper \<noteq> None"
  by (auto simp: trm_profile_with_limits_def split: if_splits option.splits)

lemma ucast_byte_le: "\<not> (n :: u64) > 100 \<Longrightarrow> \<not> (ucast n :: byte) > 100"
proof -
  assume "\<not> n > 100"
  then have "unat n \<le> 100" by (simp add: word_less_nat_alt not_less)
  then have "unat (ucast n :: byte) = unat n" by (simp add: unsigned_ucast_eq take_bit_nat_eq_self)
  with \<open>unat n \<le> 100\<close> show ?thesis by (simp add: word_less_nat_alt)
qed

lemma parse_aid_wf: "parse_aid v = Inr a \<Longrightarrow> wf_aid_profile a"
  unfolding parse_aid_def rbind_eq_Inr if_Inl_eq_Inr
  apply (elim exE conjE)
  apply (frule parse_interfaces_ok, frule parse_default_cdol1_ok, frule optional_hex_byte_array_distinct,
      frule parse_transaction_type_floor_limits_ok, frule ucast_byte_le)
  apply (frule (2) trm_limits_ok)
  apply (drule sum.inject(2) [THEN iffD1], hypsubst)
  apply (simp add: wf_aid_profile_def aid_trm_profile_def reject_dummy_bytes_def not_less split: if_splits)
  done

lemma parse_capk_wf: "parse_capk v rid day class mode = Inr c \<Longrightarrow> wf_capk rid day class c"
  unfolding parse_capk_def rbind_eq_Inr if_Inl_eq_Inr
  apply (elim exE conjE)
  apply (drule sum.inject(2) [THEN iffD1], hypsubst)
  apply (simp add: wf_capk_def not_less)
  apply (auto simp: krn_simps if_Inl_eq_Inr capk_checksum_components_eq)
  done

lemma rmapM_all:
  "rmapM f xs = Inr ys \<Longrightarrow> (\<And>x y. f x = Inr y \<Longrightarrow> P y) \<Longrightarrow> list_all P ys \<and> length ys = length xs"
  by (induction xs arbitrary: ys) (auto simp: krn_simps)

lemma parse_aids_wf: "rmapM parse_aid xs = Inr ys \<Longrightarrow> list_all wf_aid_profile ys \<and> length ys = length xs"
  by (rule rmapM_all [OF _ parse_aid_wf])

lemma parse_capks_wf:
  "rmapM (\<lambda>c. parse_capk c rid day class mode) xs = Inr ys \<Longrightarrow>
     list_all (wf_capk rid day class) ys \<and> length ys = length xs"
  by (rule rmapM_all [OF _ parse_capk_wf])

lemma distinct_key_indices:
  "distinct (map (\<lambda>c. (capk_rid c, capk_key_index c)) cs) \<Longrightarrow> list_all (\<lambda>c. capk_rid c = rid) cs \<Longrightarrow>
     distinct (map capk_key_index cs)"
  by (induction cs) (force simp: list_all_iff)+

lemma kernel_mapping_ok:
  "validate_scheme_interface_kernel_mapping kt contact aids class mode = Inr u \<Longrightarrow>
     mode = ModeTest \<and> class = ClassExampleOnly \<or>
     list_all (\<lambda>a. (''contactless'' \<in> set (ap_interfaces a) \<longrightarrow> kt = ''c8_contactless'') \<and>
       (''contact'' \<in> set (ap_interfaces a) \<longrightarrow> contact \<noteq> None)) aids"
  unfolding validate_scheme_interface_kernel_mapping_def
  by (cases "mode = ModeTest \<and> class = ClassExampleOnly")
    (auto simp: krn_simps if_Inl_eq_Inr list_ex_iff list_all_iff)

lemma parse_scheme_wf: "parse_scheme v day class mode = Inr s \<Longrightarrow> wf_scheme day class mode s"
  unfolding parse_scheme_def rbind_eq_Inr if_Inl_eq_Inr
  apply (elim exE conjE)
  apply (drule parse_aids_wf, drule parse_capks_wf, frule kernel_mapping_ok, drule taa_profile_new_wf)
  apply (drule sum.inject(2) [THEN iffD1], hypsubst)
  apply (simp add: wf_scheme_def)
  apply (auto simp: reject_aids_outside_scheme_rid_def reject_duplicate_aids_def reject_duplicate_capk_identities_def
      starts_with_def list_ex_iff list_all_iff if_Inl_eq_Inr)
  apply (erule distinct_key_indices, force simp: list_all_iff wf_capk_def)+
  done

lemma parse_schemes_wf:
  "rmapM (\<lambda>s. parse_scheme s day class mode) xs = Inr ys \<Longrightarrow>
     list_all (wf_scheme day class mode) ys \<and> length ys = length xs"
  by (rule rmapM_all [OF _ parse_scheme_wf])

lemma parse_profile_class_mode:
  "parse_profile_class object mode = Inr class \<Longrightarrow> mode = ModeTest \<or> class = ClassCertification"
  by (auto simp: parse_profile_class_def krn_simps split: option.splits if_splits)

lemma load_profile_set_wf: "load_profile_set json policy = Inr ps \<Longrightarrow> wf_profile_set policy ps"
  unfolding load_profile_set_def rbind_eq_Inr if_Inl_eq_Inr
  apply (elim exE conjE)
  apply (drule parse_schemes_wf, drule parse_profile_class_mode)
  apply (drule sum.inject(2) [THEN iffD1], hypsubst)
  apply (cases "policy_mode policy")
  apply (auto simp: wf_profile_set_def reject_duplicate_scheme_rids_def if_Inl_eq_Inr not_le)
  done

text \<open>C18: A profile set that loads is newer than the installed one, and outside test mode its
  signature was verified and it is a certification profile; its schemes have distinct
  identifiers, each with at least one application of its own identifier, no two alike, whose
  limits, interfaces and cryptogram settings are consistent and give a valid risk management
  profile, and with at least one key, no two with the same index, none expired on the day of
  loading, which in a certification profile carry their SHA-1 checksum.\<close>

theorem loaded_profile_set_is_wellformed:
  "case load_profile_set json policy of Inl _ \<Rightarrow> True | Inr ps \<Rightarrow> wf_profile_set policy ps"
  using load_profile_set_wf [of json policy] by (simp split: sum.split)

end
