(* ===== verification/Emv_Sw.thy ===== *)
theory Emv_Sw
  imports Emv_State
begin

text \<open>
  Classification of a status word in the context of the command it answers
  (\<open>src/src/sw.rs\<close>): what the transaction does next.
\<close>

unbundle bit_operations_syntax

record status_word =
  sw1 :: byte
  sw2 :: byte

datatype apdu_context =
    SelectPse | SelectAid | CtxGpo | ReadRecord | Verify | GenerateAc
  | InternalAuthenticate | ExternalAuthenticate | IssuerScript (script_critical: bool)

datatype status_action =
    Success
  | GetResponse byte
  | RetryWithLe byte
  | FallbackToDirectAid
  | TryNextAid
  | EndOfRecords
  | ContinueWithTvr status_bit
  | PinFailed byte
  | ContinueAfterScriptWarning
  | ContinueAfterNonCriticalScriptFailure
  | Fail kernel_error

definition sw_is_success :: "status_word \<Rightarrow> bool" where
  "sw_is_success sw \<longleftrightarrow> sw1 sw = 0x90 \<and> sw2 sw = 0x00"

text \<open>The match on the context; its arms are tried in the order of the source.\<close>

fun classify_failure :: "apdu_context \<Rightarrow> byte \<Rightarrow> byte \<Rightarrow> status_action" where
  "classify_failure SelectPse a b =
     (if a = 0x6a \<and> b = 0x82 \<or> a = 0x62 \<and> b = 0x83 then FallbackToDirectAid else Fail NoCommonAid)"
| "classify_failure SelectAid a b = TryNextAid"
| "classify_failure CtxGpo a b = Fail MissingMandatoryTag"
| "classify_failure ReadRecord a b =
     (if a = 0x6a \<and> b = 0x83 then EndOfRecords else ContinueWithTvr B1_ICC_DATA_MISSING)"
| "classify_failure Verify a b =
     (if a = 0x63 \<and> b AND 0xf0 = 0xc0 then PinFailed (b AND 0x0f) else Fail InvalidArgument)"
| "classify_failure GenerateAc a b = Fail CardRemoved"
| "classify_failure InternalAuthenticate a b = Fail InvalidProfile"
| "classify_failure ExternalAuthenticate a b = ContinueWithTvr B5_ISSUER_AUTHENTICATION_FAILED"
| "classify_failure (IssuerScript critical) a b =
     (if a = 0x62 \<or> a = 0x63 then ContinueAfterScriptWarning
      else if \<not> critical \<and> (a = 0x6a \<or> a = 0x69) then ContinueAfterNonCriticalScriptFailure
      else if critical then Fail ScriptFailed
      else ContinueAfterNonCriticalScriptFailure)"

definition classify :: "apdu_context \<Rightarrow> status_word \<Rightarrow> status_action" where
  "classify ctx sw =
     (if sw_is_success sw then Success
      else if sw1 sw = 0x61 then GetResponse (sw2 sw)
      else if sw1 sw = 0x6c then RetryWithLe (sw2 sw)
      else classify_failure ctx (sw1 sw) (sw2 sw))"

lemma classify_Success_iff: "classify ctx sw = Success \<longleftrightarrow> sw_is_success sw"
  by (cases ctx) (auto simp: classify_def)

lemma classify_GetResponse_iff:
  "classify ctx sw = GetResponse n \<longleftrightarrow> sw1 sw = 0x61 \<and> n = sw2 sw"
  by (cases ctx) (auto simp: classify_def sw_is_success_def)

lemma classify_RetryWithLe_iff:
  "classify ctx sw = RetryWithLe n \<longleftrightarrow> sw1 sw = 0x6c \<and> n = sw2 sw"
  by (cases ctx) (auto simp: classify_def sw_is_success_def)

text \<open>The error a context fails with, for the contexts that can fail.\<close>

fun context_error :: "apdu_context \<Rightarrow> kernel_error option" where
  "context_error SelectPse = Some NoCommonAid"
| "context_error CtxGpo = Some MissingMandatoryTag"
| "context_error Verify = Some InvalidArgument"
| "context_error GenerateAc = Some CardRemoved"
| "context_error InternalAuthenticate = Some InvalidProfile"
| "context_error (IssuerScript critical) = (if critical then Some ScriptFailed else None)"
| "context_error _ = None"

lemma classify_Fail_error: "classify ctx sw = Fail e \<Longrightarrow> context_error ctx = Some e"
  by (cases ctx) (auto simp: classify_def split: if_splits)

lemma classify_exceptions:
  assumes "classify ctx sw = a" and "a \<noteq> Success" and "\<forall>e. a \<noteq> Fail e"
    and "\<forall>n. a \<noteq> GetResponse n \<and> a \<noteq> RetryWithLe n"
  shows "(ctx = SelectPse \<longrightarrow> a = FallbackToDirectAid \<and>
             (sw1 sw, sw2 sw) \<in> {(0x6a, 0x82), (0x62, 0x83)}) \<and>
         (ctx = Verify \<longrightarrow> a = PinFailed (sw2 sw AND 0x0f) \<and> sw1 sw = 0x63 \<and> sw2 sw AND 0xf0 = 0xc0) \<and>
         (\<forall>c. ctx = IssuerScript c \<longrightarrow>
             a = (if sw1 sw = 0x62 \<or> sw1 sw = 0x63 then ContinueAfterScriptWarning
                  else ContinueAfterNonCriticalScriptFailure)) \<and>
         ctx \<notin> {CtxGpo, GenerateAc, InternalAuthenticate}"
  using assms by (cases ctx) (auto simp: classify_def split: if_splits)

text \<open>A status word is classified as failure exactly when it is neither success nor a request for
  a further exchange and its context tolerates no such answer; the error is the one of the context.
  In particular selecting an AID, reading a record, EXTERNAL AUTHENTICATE and a non-critical
  script command never fail the transaction.\<close>

theorem classify_fail_iff:
  "classify ctx sw = Fail e \<longleftrightarrow>
     context_error ctx = Some e \<and> \<not> sw_is_success sw \<and> sw1 sw \<noteq> 0x61 \<and> sw1 sw \<noteq> 0x6c \<and>
     \<not> (ctx = SelectPse \<and> (sw1 sw, sw2 sw) \<in> {(0x6a, 0x82), (0x62, 0x83)}) \<and>
     \<not> (ctx = Verify \<and> sw1 sw = 0x63 \<and> sw2 sw AND 0xf0 = 0xc0) \<and>
     \<not> (script_critical ctx \<and> ctx = IssuerScript True \<and> sw1 sw \<in> {0x62, 0x63})"
  by (cases ctx) (auto simp: classify_def split: if_splits)

end
