(* ===== verification/Emv_Cvm.thy ===== *)
theory Emv_Cvm
  imports Emv_Sw
begin

text \<open>
  Cardholder verification (\<open>src/src/cvm.rs\<close>): the CVM list of the card, the choice of a method
  from it, and the outcome of an offline PIN verification.
\<close>

unbundle bit_operations_syntax

definition MAX_CVM_RULES :: nat where "MAX_CVM_RULES = 64"
definition CVM_LIST_AMOUNT_BYTES :: nat where "CVM_LIST_AMOUNT_BYTES = 8"
definition CVM_RULE_BYTES :: nat where "CVM_RULE_BYTES = 2"

section \<open>Methods, rules and lists\<close>

datatype ped_pin_handle = PedPinHandle u64

definition ped_pin_handle_new :: "u64 \<Rightarrow> ped_pin_handle krn_result" where
  "ped_pin_handle_new raw = (if raw = 0 then Inl InvalidArgument else Inr (PedPinHandle raw))"

datatype cvm_method =
    OfflinePlaintextPin | OnlinePin | OfflinePlaintextPinAndSignature | OfflineEncipheredPin
  | OfflineEncipheredPinAndSignature | Signature | FailCvmProcessing | NoCvmRequired
  | SchemeSpecific byte | Unknown byte

definition cvm_method_from_code :: "byte \<Rightarrow> cvm_method" where
  "cvm_method_from_code code =
     (let c = code AND 0x3f in
      if c = 0x01 then OfflinePlaintextPin
      else if c = 0x02 then OnlinePin
      else if c = 0x03 then OfflinePlaintextPinAndSignature
      else if c = 0x04 then OfflineEncipheredPin
      else if c = 0x05 then OfflineEncipheredPinAndSignature
      else if c = 0x06 then Signature
      else if c = 0x1e then FailCvmProcessing
      else if c = 0x1f then NoCvmRequired
      else if 0x20 \<le> c \<and> c \<le> 0x3f then SchemeSpecific c
      else Unknown c)"

fun requires_offline_pin :: "cvm_method \<Rightarrow> bool" where
  "requires_offline_pin OfflinePlaintextPin = True"
| "requires_offline_pin OfflinePlaintextPinAndSignature = True"
| "requires_offline_pin OfflineEncipheredPin = True"
| "requires_offline_pin OfflineEncipheredPinAndSignature = True"
| "requires_offline_pin _ = False"

fun requires_signature :: "cvm_method \<Rightarrow> bool" where
  "requires_signature OfflinePlaintextPinAndSignature = True"
| "requires_signature OfflineEncipheredPinAndSignature = True"
| "requires_signature Signature = True"
| "requires_signature _ = False"

record cvm_rule =
  rule_raw_code :: byte
  rule_method :: cvm_method
  rule_condition_code :: byte

definition continue_on_failure :: "cvm_rule \<Rightarrow> bool" where
  "continue_on_failure rule \<longleftrightarrow> rule_raw_code rule AND 0x40 \<noteq> 0"

record cvm_list =
  amount_x :: u32
  amount_y :: u32
  cvm_rules :: "cvm_rule list"

definition parse_cvm_list :: "bytes \<Rightarrow> cvm_list krn_result" where
  "parse_cvm_list input =
     (if length input < CVM_LIST_AMOUNT_BYTES \<or>
         (length input - CVM_LIST_AMOUNT_BYTES) mod CVM_RULE_BYTES \<noteq> 0 then Inl ParseError
      else if (length input - CVM_LIST_AMOUNT_BYTES) div CVM_RULE_BYTES > MAX_CVM_RULES
      then Inl LengthOverflow
      else Inr
        \<lparr>amount_x = word_of_nat (be_value [input ! 0, input ! 1, input ! 2, input ! 3]),
         amount_y = word_of_nat (be_value [input ! 4, input ! 5, input ! 6, input ! 7]),
         cvm_rules = map (\<lambda>pair.
           \<lparr>rule_raw_code = pair ! 0, rule_method = cvm_method_from_code (pair ! 0),
            rule_condition_code = pair ! 1\<rparr>) (chunks_exact 2 (drop 8 input))\<rparr>)"

section \<open>CVM results\<close>

datatype cvm_result_status = ResUnknown | ResFailed | ResSuccessful | ResOther byte

definition cvm_result_status_from_code :: "byte \<Rightarrow> cvm_result_status" where
  "cvm_result_status_from_code code =
     (if code = 0x00 then ResUnknown else if code = 0x01 then ResFailed
      else if code = 0x02 then ResSuccessful else ResOther code)"

fun cvm_result_status_code :: "cvm_result_status \<Rightarrow> byte" where
  "cvm_result_status_code ResUnknown = 0x00"
| "cvm_result_status_code ResFailed = 0x01"
| "cvm_result_status_code ResSuccessful = 0x02"
| "cvm_result_status_code (ResOther code) = code"

record cvm_results =
  cvmr_raw :: arr3

definition cvm_results_parse :: "bytes \<Rightarrow> cvm_results krn_result" where
  "cvm_results_parse raw = rmap (\<lambda>r. \<lparr>cvmr_raw = r\<rparr>) (to_arr3 raw ParseError)"

definition cvmr_method :: "cvm_results \<Rightarrow> cvm_method" where
  "cvmr_method r = cvm_method_from_code (list3 (cvmr_raw r) ! 0)"

definition cvmr_condition_code :: "cvm_results \<Rightarrow> byte" where
  "cvmr_condition_code r = list3 (cvmr_raw r) ! 1"

definition cvmr_result :: "cvm_results \<Rightarrow> cvm_result_status" where
  "cvmr_result r = cvm_result_status_from_code (list3 (cvmr_raw r) ! 2)"

definition cvm_results_of :: "cvm_rule \<Rightarrow> byte \<Rightarrow> arr3" where
  "cvm_results_of rule res = A3 (rule_raw_code rule AND 0x3f) (rule_condition_code rule) res"

section \<open>Selecting a method\<close>

datatype cvm_interface = CvmContact | CvmContactless
datatype cvm_transaction_type = NonCash | UnattendedCash | ManualCash | PurchaseWithCashback

record cvm_context =
  cc_amount_authorized :: u64
  transaction_currency_matches_application :: bool
  cc_transaction_type :: cvm_transaction_type
  cc_interface :: cvm_interface
  offline_pin_supported :: bool
  online_pin_supported :: bool
  signature_supported :: bool
  cdcvm_performed :: bool

datatype cvm_action =
    ActNoCvm | ActOnlinePin | ActSignature
  | ActOfflinePlaintextPin ped_pin_handle | ActOfflineEncipheredPin ped_pin_handle
  | ActOfflinePlaintextPinAndSignature ped_pin_handle
  | ActOfflineEncipheredPinAndSignature ped_pin_handle | ActCdcvm

record cvm_pin_handles =
  offline_plaintext :: "ped_pin_handle option"
  offline_enciphered :: "ped_pin_handle option"

datatype cvm_outcome =
    Selected (sel_action: cvm_action) (sel_results: arr3) (sel_tvr_bit: "status_bit option")
  | Failed (fail_results: arr3) (fail_tvr_bit: status_bit)

fun action_for_method :: "cvm_method \<Rightarrow> cvm_context \<Rightarrow> cvm_pin_handles \<Rightarrow> cvm_action option" where
  "action_for_method NoCvmRequired ctx h = Some ActNoCvm"
| "action_for_method OnlinePin ctx h = (if online_pin_supported ctx then Some ActOnlinePin else None)"
| "action_for_method Signature ctx h = (if signature_supported ctx then Some ActSignature else None)"
| "action_for_method OfflinePlaintextPin ctx h =
     (if offline_pin_supported ctx then map_option ActOfflinePlaintextPin (offline_plaintext h) else None)"
| "action_for_method OfflineEncipheredPin ctx h =
     (if offline_pin_supported ctx then map_option ActOfflineEncipheredPin (offline_enciphered h) else None)"
| "action_for_method OfflinePlaintextPinAndSignature ctx h =
     (if offline_pin_supported ctx \<and> signature_supported ctx
      then map_option ActOfflinePlaintextPinAndSignature (offline_plaintext h) else None)"
| "action_for_method OfflineEncipheredPinAndSignature ctx h =
     (if offline_pin_supported ctx \<and> signature_supported ctx
      then map_option ActOfflineEncipheredPinAndSignature (offline_enciphered h) else None)"
| "action_for_method (SchemeSpecific c) ctx h =
     (if cc_interface ctx = CvmContactless \<and> cdcvm_performed ctx then Some ActCdcvm else None)"
| "action_for_method FailCvmProcessing ctx h = None"
| "action_for_method (Unknown c) ctx h = None"

definition pin_cvm_unavailable_bit :: "bool \<Rightarrow> ped_pin_handle option \<Rightarrow> status_bit option" where
  "pin_cvm_unavailable_bit supported handle =
     (if \<not> supported then Some B3_PIN_PAD_NOT_PRESENT_OR_NOT_WORKING
      else if handle = None then Some B3_PIN_NOT_ENTERED
      else None)"

fun cvm_unavailable_bit :: "cvm_method \<Rightarrow> cvm_context \<Rightarrow> cvm_pin_handles \<Rightarrow> status_bit option" where
  "cvm_unavailable_bit (Unknown c) ctx h = Some B3_UNRECOGNIZED_CVM"
| "cvm_unavailable_bit OnlinePin ctx h =
     (if \<not> online_pin_supported ctx then Some B3_PIN_PAD_NOT_PRESENT_OR_NOT_WORKING else None)"
| "cvm_unavailable_bit OfflinePlaintextPin ctx h =
     pin_cvm_unavailable_bit (offline_pin_supported ctx) (offline_plaintext h)"
| "cvm_unavailable_bit OfflinePlaintextPinAndSignature ctx h =
     pin_cvm_unavailable_bit (offline_pin_supported ctx) (offline_plaintext h)"
| "cvm_unavailable_bit OfflineEncipheredPin ctx h =
     pin_cvm_unavailable_bit (offline_pin_supported ctx) (offline_enciphered h)"
| "cvm_unavailable_bit OfflineEncipheredPinAndSignature ctx h =
     pin_cvm_unavailable_bit (offline_pin_supported ctx) (offline_enciphered h)"
| "cvm_unavailable_bit _ ctx h = None"

fun terminal_supports_method :: "cvm_method \<Rightarrow> cvm_context \<Rightarrow> bool" where
  "terminal_supports_method OfflinePlaintextPin ctx = offline_pin_supported ctx"
| "terminal_supports_method OfflinePlaintextPinAndSignature ctx = offline_pin_supported ctx"
| "terminal_supports_method OfflineEncipheredPin ctx = offline_pin_supported ctx"
| "terminal_supports_method OfflineEncipheredPinAndSignature ctx = offline_pin_supported ctx"
| "terminal_supports_method OnlinePin ctx = online_pin_supported ctx"
| "terminal_supports_method Signature ctx = signature_supported ctx"
| "terminal_supports_method NoCvmRequired ctx = True"
| "terminal_supports_method FailCvmProcessing ctx = True"
| "terminal_supports_method (SchemeSpecific c) ctx = (cc_interface ctx = CvmContactless)"
| "terminal_supports_method (Unknown c) ctx = False"

definition condition_matches :: "cvm_rule \<Rightarrow> cvm_list \<Rightarrow> cvm_context \<Rightarrow> bool" where
  "condition_matches rule l ctx =
     (let c = rule_condition_code rule; amount = cc_amount_authorized ctx;
          same = transaction_currency_matches_application ctx in
      if c = 0x00 then True
      else if c = 0x01 then cc_transaction_type ctx = UnattendedCash
      else if c = 0x02 then cc_transaction_type ctx = NonCash
      else if c = 0x03 then terminal_supports_method (rule_method rule) ctx
      else if c = 0x04 then cc_transaction_type ctx = ManualCash
      else if c = 0x05 then cc_transaction_type ctx = PurchaseWithCashback
      else if c = 0x06 then same \<and> amount < ucast (amount_x l)
      else if c = 0x07 then same \<and> amount > ucast (amount_x l)
      else if c = 0x08 then same \<and> amount < ucast (amount_y l)
      else if c = 0x09 then same \<and> amount > ucast (amount_y l)
      else False)"

definition cvm_failed ::
    "cvm_rule \<Rightarrow> cvm_context \<Rightarrow> cvm_pin_handles \<Rightarrow> status_bit option \<Rightarrow> cvm_outcome" where
  "cvm_failed rule ctx h observed_tvr_bit =
     Failed (cvm_results_of rule 0x01)
       (case observed_tvr_bit of
          Some b \<Rightarrow> b
        | None \<Rightarrow> (case cvm_unavailable_bit (rule_method rule) ctx h of
            Some b \<Rightarrow> b
          | None \<Rightarrow> B3_CARDHOLDER_VERIFICATION_NOT_SUCCESSFUL))"

text \<open>The loop over the rules, with the last bit observed so far.\<close>

fun cvm_evaluate_rules ::
    "cvm_list \<Rightarrow> cvm_context \<Rightarrow> cvm_pin_handles \<Rightarrow> status_bit option \<Rightarrow> cvm_rule list \<Rightarrow> cvm_outcome" where
  "cvm_evaluate_rules l ctx h selected_tvr_bit [] =
     Failed (A3 0x3f 0x00 0x01) B3_CARDHOLDER_VERIFICATION_NOT_SUCCESSFUL"
| "cvm_evaluate_rules l ctx h selected_tvr_bit (rule # rules) =
     (if \<not> condition_matches rule l ctx then cvm_evaluate_rules l ctx h selected_tvr_bit rules
      else case action_for_method (rule_method rule) ctx h of
        None \<Rightarrow>
          (let selected_tvr_bit = (case cvm_unavailable_bit (rule_method rule) ctx h of
             Some b \<Rightarrow> Some b | None \<Rightarrow> selected_tvr_bit)
           in if continue_on_failure rule then cvm_evaluate_rules l ctx h selected_tvr_bit rules
              else cvm_failed rule ctx h selected_tvr_bit)
      | Some action \<Rightarrow> Selected action (cvm_results_of rule 0x02) selected_tvr_bit)"

definition cvm_evaluate :: "cvm_list \<Rightarrow> cvm_context \<Rightarrow> cvm_pin_handles \<Rightarrow> cvm_outcome" where
  "cvm_evaluate l ctx h = cvm_evaluate_rules l ctx h None (cvm_rules l)"

section \<open>Offline PIN verification\<close>

record offline_pin_verify_outcome =
  opv_results :: arr3
  opv_tries_remaining :: "byte option"
  opv_tvr_bit :: "status_bit option"

definition apply_offline_pin_verify_status ::
    "cvm_rule \<Rightarrow> status_word \<Rightarrow> offline_pin_verify_outcome krn_result" where
  "apply_offline_pin_verify_status rule sw =
     (if \<not> requires_offline_pin (rule_method rule) then Inl InvalidArgument
      else case classify Verify sw of
        Success \<Rightarrow> Inr \<lparr>opv_results = cvm_results_of rule 0x02, opv_tries_remaining = None,
                       opv_tvr_bit = None\<rparr>
      | PinFailed tries \<Rightarrow> Inr \<lparr>opv_results = cvm_results_of rule 0x01,
                       opv_tries_remaining = Some tries,
                       opv_tvr_bit = Some (if tries = 0 then B3_PIN_TRY_LIMIT_EXCEEDED
                                           else B3_CARDHOLDER_VERIFICATION_NOT_SUCCESSFUL)\<rparr>
      | Fail e \<Rightarrow> Inl e
      | _ \<Rightarrow> Inl InvalidArgument)"

section \<open>What the parser accepts\<close>

definition encode_cvm_list :: "cvm_list \<Rightarrow> bytes" where
  "encode_cvm_list l =
     be_bytes 4 (unat (amount_x l)) @ be_bytes 4 (unat (amount_y l)) @
     concat (map (\<lambda>r. [rule_raw_code r, rule_condition_code r]) (cvm_rules l))"

definition wf_cvm_list :: "cvm_list \<Rightarrow> bool" where
  "wf_cvm_list l \<longleftrightarrow> length (cvm_rules l) \<le> 64 \<and>
     list_all (\<lambda>r. rule_method r = cvm_method_from_code (rule_raw_code r)) (cvm_rules l)"

abbreviation rule_of_pair :: "bytes \<Rightarrow> cvm_rule" where
  "rule_of_pair pair \<equiv> \<lparr>rule_raw_code = pair ! 0, rule_method = cvm_method_from_code (pair ! 0),
     rule_condition_code = pair ! 1\<rparr>"

lemma cvm_rules_iff:
  "2 dvd length bs \<Longrightarrow>
   map rule_of_pair (chunks_exact 2 bs) = rs \<longleftrightarrow>
     list_all (\<lambda>r. rule_method r = cvm_method_from_code (rule_raw_code r)) rs \<and>
     bs = concat (map (\<lambda>r. [rule_raw_code r, rule_condition_code r]) rs)"
proof (intro iffI conjI; (elim conjE)?)
  assume d: "2 dvd length bs" and m: "map rule_of_pair (chunks_exact 2 bs) = rs"
  then show "list_all (\<lambda>r. rule_method r = cvm_method_from_code (rule_raw_code r)) rs"
    by (auto simp: list_all_iff)
  have p: "[pair ! 0, pair ! Suc 0] = pair" if "pair \<in> set (chunks_exact 2 bs)" for pair
    using chunks_exact_lengths [OF that] by (auto simp: length_Suc_conv numeral_2_eq_2)
  have "map (\<lambda>r. [rule_raw_code r, rule_condition_code r]) rs = map (\<lambda>pair. pair) (chunks_exact 2 bs)"
    unfolding m [symmetric] map_map using p by (intro map_cong) simp_all
  then show "bs = concat (map (\<lambda>r. [rule_raw_code r, rule_condition_code r]) rs)"
    using concat_chunks_exact [OF _ d] by simp
next
  assume l: "list_all (\<lambda>r. rule_method r = cvm_method_from_code (rule_raw_code r)) rs"
    and bs: "bs = concat (map (\<lambda>r. [rule_raw_code r, rule_condition_code r]) rs)"
  have "chunks_exact 2 bs = map (\<lambda>r. [rule_raw_code r, rule_condition_code r]) rs"
    unfolding bs by (rule chunks_exact_concat) auto
  with l show "map rule_of_pair (chunks_exact 2 bs) = rs"
    by (auto simp: list_all_iff intro!: map_idI)
qed

lemma parse_cvm_list_eq_Inr:
  "parse_cvm_list input = Inr l \<longleftrightarrow> wf_cvm_list l \<and> input = encode_cvm_list l"
proof -
  have len: "length (concat (map (\<lambda>r. [rule_raw_code r, rule_condition_code r]) rs)) = 2 * length rs" for rs
    by (induction rs) simp_all
  show ?thesis
  proof (cases "8 \<le> length input \<and> 2 dvd length input - 8")
    case True
    then obtain xs where xs: "input = take 4 input @ take 4 (drop 4 input) @ xs" "xs = drop 8 input"
      by (metis append_take_drop_id drop_drop numeral_Bit0)
    define a b where ab: "a = take 4 input" "b = take 4 (drop 4 input)"
    have l4: "length a = 4" "length b = 4" using True by (auto simp: ab min_def)
    have i: "input = a @ b @ xs" using xs by (simp add: ab)
    obtain a0 a1 a2 a3 b0 b1 b2 b3 where "a = [a0, a1, a2, a3]" "b = [b0, b1, b2, b3]"
      using l4 by (auto simp: numeral_eq_Suc length_Suc_conv)
    then have n: "[input ! 0, input ! 1, input ! 2, input ! 3] = a"
      "[input ! 4, input ! 5, input ! 6, input ! 7] = b"
      by (simp_all add: i numeral_eq_Suc)
    have d: "2 dvd length xs" using True by (simp only: xs(2) length_drop)
    have "input = encode_cvm_list l \<longleftrightarrow> a = be_bytes 4 (unat (amount_x l)) \<and>
        b = be_bytes 4 (unat (amount_y l)) \<and>
        xs = concat (map (\<lambda>r. [rule_raw_code r, rule_condition_code r]) (cvm_rules l))"
      by (simp add: i encode_cvm_list_def append_eq_append_conv l4)
    then have e: "input = encode_cvm_list l \<longleftrightarrow> word_of_nat (be_value a) = amount_x l \<and>
        word_of_nat (be_value b) = amount_y l \<and>
        xs = concat (map (\<lambda>r. [rule_raw_code r, rule_condition_code r]) (cvm_rules l))"
      by (simp add: u32_from_be_bytes_iff l4)
    have "parse_cvm_list input = (if length xs div 2 > 64 then Inl LengthOverflow else
        Inr \<lparr>amount_x = word_of_nat (be_value a), amount_y = word_of_nat (be_value b),
             cvm_rules = map rule_of_pair (chunks_exact 2 xs)\<rparr>)"
      using True unfolding parse_cvm_list_def n xs(2)
      by (auto simp: CVM_LIST_AMOUNT_BYTES_def CVM_RULE_BYTES_def MAX_CVM_RULES_def)
    then have "parse_cvm_list input = Inr l \<longleftrightarrow> length xs div 2 \<le> 64 \<and>
        word_of_nat (be_value a) = amount_x l \<and> word_of_nat (be_value b) = amount_y l \<and>
        map rule_of_pair (chunks_exact 2 xs) = cvm_rules l"
      by (cases l) auto
    also have "\<dots> \<longleftrightarrow> wf_cvm_list l \<and> input = encode_cvm_list l"
      unfolding e cvm_rules_iff [OF d] by (auto simp: wf_cvm_list_def len)
    finally show ?thesis .
  next
    case False
    then have "parse_cvm_list input = Inl ParseError"
      by (auto simp: parse_cvm_list_def CVM_LIST_AMOUNT_BYTES_def CVM_RULE_BYTES_def dvd_eq_mod_eq_0)
    moreover have "input \<noteq> encode_cvm_list l"
      using False by (auto simp: encode_cvm_list_def len)
    ultimately show ?thesis by simp
  qed
qed

section \<open>The decisive rule\<close>

text \<open>
  A rule is passed over when its condition does not hold, or when no action is available for it
  and it lets the list go on; the first other rule decides.  The bit reported with it is the
  last one observed on the way.
\<close>

definition passed_over :: "cvm_list \<Rightarrow> cvm_context \<Rightarrow> cvm_pin_handles \<Rightarrow> cvm_rule \<Rightarrow> bool" where
  "passed_over l ctx h rule \<longleftrightarrow> \<not> condition_matches rule l ctx \<or>
     action_for_method (rule_method rule) ctx h = None \<and> continue_on_failure rule"

definition observed_bits :: "cvm_list \<Rightarrow> cvm_context \<Rightarrow> cvm_pin_handles \<Rightarrow> cvm_rule list \<Rightarrow> status_bit list" where
  "observed_bits l ctx h rules =
     List.map_filter (\<lambda>r. cvm_unavailable_bit (rule_method r) ctx h)
       (filter (\<lambda>r. condition_matches r l ctx) rules)"

definition last_opt :: "'a list \<Rightarrow> 'a option" where
  "last_opt xs = (if xs = [] then None else Some (last xs))"

lemma last_opt_append: "last_opt (xs @ ys) = (case last_opt ys of Some y \<Rightarrow> Some y | None \<Rightarrow> last_opt xs)"
  by (auto simp: last_opt_def)

definition cvm_decision ::
    "cvm_list \<Rightarrow> cvm_context \<Rightarrow> cvm_pin_handles \<Rightarrow> status_bit list \<Rightarrow> cvm_rule list \<Rightarrow> cvm_outcome" where
  "cvm_decision l ctx h seen rest =
     (case rest of
        [] \<Rightarrow> Failed (A3 0x3f 0x00 0x01) B3_CARDHOLDER_VERIFICATION_NOT_SUCCESSFUL
      | rule # _ \<Rightarrow>
          (case action_for_method (rule_method rule) ctx h of
             Some action \<Rightarrow> Selected action (cvm_results_of rule 0x02) (last_opt seen)
           | None \<Rightarrow> Failed (cvm_results_of rule 0x01)
               (case last_opt (seen @ observed_bits l ctx h [rule]) of
                  Some b \<Rightarrow> b | None \<Rightarrow> B3_CARDHOLDER_VERIFICATION_NOT_SUCCESSFUL)))"

lemma cvm_evaluate_rules_eq:
  "cvm_evaluate_rules l ctx h (last_opt bits) rules =
     cvm_decision l ctx h (bits @ observed_bits l ctx h (takeWhile (passed_over l ctx h) rules))
       (dropWhile (passed_over l ctx h) rules)"
proof (induction rules arbitrary: bits)
  case (Cons rule rules)
  have ob: "observed_bits l ctx h (rule # rs) =
      (if condition_matches rule l ctx
       then (case cvm_unavailable_bit (rule_method rule) ctx h of None \<Rightarrow> [] | Some b \<Rightarrow> [b]) else [])
      @ observed_bits l ctx h rs" for rs
    by (auto simp: observed_bits_def map_filter_simps split: option.splits)
  have lo: "(case b of Some b \<Rightarrow> Some b | None \<Rightarrow> last_opt bits) =
      last_opt (bits @ (case b of None \<Rightarrow> [] | Some b \<Rightarrow> [b]))" for b :: "status_bit option"
    by (cases b) (simp_all add: last_opt_def)
  show ?case
  proof (cases "condition_matches rule l ctx")
    case False
    then have "passed_over l ctx h rule" by (simp add: passed_over_def)
    with False show ?thesis using Cons.IH [of bits] by (simp add: ob)
  next
    case True
    show ?thesis
    proof (cases "action_for_method (rule_method rule) ctx h")
      case (Some a)
      then have "\<not> passed_over l ctx h rule" using True by (simp add: passed_over_def)
      with Some True show ?thesis by (simp add: cvm_decision_def observed_bits_def map_filter_simps)
    next
      case None
      let ?b = "cvm_unavailable_bit (rule_method rule) ctx h"
      show ?thesis
      proof (cases "continue_on_failure rule")
        case c: True
        have "passed_over l ctx h rule" using c None by (simp add: passed_over_def)
        with True None c Cons.IH [of "bits @ (case ?b of None \<Rightarrow> [] | Some b \<Rightarrow> [b])"] show ?thesis
          by (simp add: ob lo)
      next
        case c: False
        have "\<not> passed_over l ctx h rule" using c None True by (simp add: passed_over_def)
        moreover have "observed_bits l ctx h [] = []" by (simp add: observed_bits_def map_filter_simps)
        ultimately show ?thesis using True None c
          by (cases ?b) (simp_all add: cvm_decision_def ob cvm_failed_def last_opt_def)
      qed
    qed
  qed
qed (simp add: cvm_decision_def)

lemma cvm_evaluate_eq:
  "cvm_evaluate l ctx h =
     cvm_decision l ctx h (observed_bits l ctx h (takeWhile (passed_over l ctx h) (cvm_rules l)))
       (dropWhile (passed_over l ctx h) (cvm_rules l))"
  using cvm_evaluate_rules_eq [of l ctx h "[]" "cvm_rules l"]
  by (simp add: cvm_evaluate_def last_opt_def [of "[]"])

text \<open>What an action needs of the terminal and of the cardholder.\<close>

fun cvm_action_available :: "cvm_action \<Rightarrow> cvm_context \<Rightarrow> cvm_pin_handles \<Rightarrow> bool" where
  "cvm_action_available ActNoCvm ctx h = True"
| "cvm_action_available ActOnlinePin ctx h = online_pin_supported ctx"
| "cvm_action_available ActSignature ctx h = signature_supported ctx"
| "cvm_action_available (ActOfflinePlaintextPin p) ctx h =
     (offline_pin_supported ctx \<and> offline_plaintext h = Some p)"
| "cvm_action_available (ActOfflineEncipheredPin p) ctx h =
     (offline_pin_supported ctx \<and> offline_enciphered h = Some p)"
| "cvm_action_available (ActOfflinePlaintextPinAndSignature p) ctx h =
     (offline_pin_supported ctx \<and> signature_supported ctx \<and> offline_plaintext h = Some p)"
| "cvm_action_available (ActOfflineEncipheredPinAndSignature p) ctx h =
     (offline_pin_supported ctx \<and> signature_supported ctx \<and> offline_enciphered h = Some p)"
| "cvm_action_available ActCdcvm ctx h = (cc_interface ctx = CvmContactless \<and> cdcvm_performed ctx)"

lemma action_for_method_available:
  "action_for_method m ctx h = Some a \<Longrightarrow> cvm_action_available a ctx h"
  by (cases m) (auto split: if_splits)

lemma dropWhile_decompose:
  "dropWhile P xs = y # ys \<Longrightarrow> xs = takeWhile P xs @ y # ys \<and> \<not> P y \<and> list_all P (takeWhile P xs)"
proof -
  assume d: "dropWhile P xs = y # ys"
  have "\<not> P y" using d by (metis hd_dropWhile list.distinct(1) list.sel(1))
  with d show ?thesis by (metis list_all_iff set_takeWhileD takeWhile_dropWhile_id)
qed

text \<open>A CVM list parses exactly when it is the encoding of two amounts and at most 64 rules, each rule
  carrying the method of its code.\<close>

theorem parse_cvm_list_iff:
  "parse_cvm_list input = Inr l \<longleftrightarrow> wf_cvm_list l \<and> input = encode_cvm_list l"
  by (rule parse_cvm_list_eq_Inr)

text \<open>C24: Cardholder verification is decided by the first rule of the list that is not passed over (its
  condition does not hold, or it has no available action and lets the list go on): its action is
  selected, or, with none, verification fails; the reported TVR bit is the last one observed on
  the way; a list with no such rule fails with the code for no CVM.\<close>

theorem cvm_decisive_rule:
  "cvm_evaluate l ctx h =
     cvm_decision l ctx h (observed_bits l ctx h (takeWhile (passed_over l ctx h) (cvm_rules l)))
       (dropWhile (passed_over l ctx h) (cvm_rules l))"
  by (rule cvm_evaluate_eq)

text \<open>A selected cardholder verification comes from a rule of the list whose condition holds and is one
  the terminal supports, with the PIN handle the caller supplied where it needs one; the result
  says successful for that rule's code.\<close>

theorem cvm_selected_available:
  assumes "cvm_evaluate l ctx h = Selected action results bit_opt"
  shows "cvm_action_available action ctx h \<and>
    (\<exists>rule\<in>set (cvm_rules l). condition_matches rule l ctx \<and>
       action_for_method (rule_method rule) ctx h = Some action \<and>
       results = A3 (rule_raw_code rule AND 0x3f) (rule_condition_code rule) 0x02)"
proof -
  from assms obtain rule rest where d: "dropWhile (passed_over l ctx h) (cvm_rules l) = rule # rest"
    and a: "action_for_method (rule_method rule) ctx h = Some action" "results = cvm_results_of rule 0x02"
    by (auto simp: cvm_evaluate_eq cvm_decision_def split: list.splits option.splits)
  from dropWhile_decompose [OF d] have "rule \<in> set (cvm_rules l)" "condition_matches rule l ctx"
    by (metis in_set_conv_decomp, simp add: passed_over_def)
  with a show ?thesis by (auto simp: cvm_results_of_def dest: action_for_method_available)
qed

lemma cvm_selected_available_witness:
  "cvm_action_available ActOnlinePin
     \<lparr>cc_amount_authorized = 1000, transaction_currency_matches_application = True,
      cc_transaction_type = NonCash, cc_interface = CvmContact, offline_pin_supported = False,
      online_pin_supported = True, signature_supported = False, cdcvm_performed = False\<rparr>
     \<lparr>offline_plaintext = None, offline_enciphered = None\<rparr>"
proof -
  let ?r = "\<lambda>raw m c. \<lparr>rule_raw_code = raw, rule_method = m, rule_condition_code = c\<rparr>"
  let ?l = "\<lparr>amount_x = 0, amount_y = 0,
    cvm_rules = [?r 0x41 OfflinePlaintextPin 0x00, ?r 0x02 OnlinePin 0x00]\<rparr>"
  let ?c = "\<lparr>cc_amount_authorized = 1000, transaction_currency_matches_application = True,
      cc_transaction_type = NonCash, cc_interface = CvmContact, offline_pin_supported = False,
      online_pin_supported = True, signature_supported = False, cdcvm_performed = False\<rparr>"
  have "cvm_evaluate ?l ?c \<lparr>offline_plaintext = None, offline_enciphered = None\<rparr>
      = Selected ActOnlinePin (A3 2 0 2) (Some B3_PIN_PAD_NOT_PRESENT_OR_NOT_WORKING)"
    by (simp add: cvm_evaluate_def condition_matches_def continue_on_failure_def cvm_results_of_def
        pin_cvm_unavailable_bit_def)
  from cvm_selected_available [OF this] show ?thesis by blast
qed

end
