(* ===== verification/Emv_Terminal.thy ===== *)
theory Emv_Terminal
  imports Emv_C8
begin

text \<open>
  Terminal data (\<open>src/src/terminal.rs\<close>): the terminal type, the additional terminal capabilities
  and the terminal capabilities with their named bits.
\<close>

unbundle bit_operations_syntax

section \<open>Terminal type\<close>

datatype terminal_operator = Attended | Unattended

fun terminal_operator_label :: "terminal_operator \<Rightarrow> string" where
  "terminal_operator_label Attended = ''attended''"
| "terminal_operator_label Unattended = ''unattended''"

datatype terminal_location = FinancialInstitution | Merchant | Cardholder

fun terminal_location_label :: "terminal_location \<Rightarrow> string" where
  "terminal_location_label FinancialInstitution = ''financial-institution''"
| "terminal_location_label Merchant = ''merchant''"
| "terminal_location_label Cardholder = ''cardholder''"

record terminal_type =
  tt_raw :: byte
  tt_operator :: terminal_operator
  tt_location :: terminal_location
  tt_online_capable :: bool

definition terminal_type_parse :: "byte \<Rightarrow> terminal_type krn_result" where
  "terminal_type_parse raw =
     rbind
       (if raw \<in> {0x11, 0x12} then Inr (Attended, FinancialInstitution, True)
        else if raw = 0x13 then Inr (Attended, FinancialInstitution, False)
        else if raw \<in> {0x14, 0x15} then Inr (Unattended, FinancialInstitution, True)
        else if raw = 0x16 then Inr (Unattended, FinancialInstitution, False)
        else if raw \<in> {0x21, 0x22} then Inr (Attended, Merchant, True)
        else if raw = 0x23 then Inr (Attended, Merchant, False)
        else if raw \<in> {0x24, 0x25} then Inr (Unattended, Merchant, True)
        else if raw = 0x26 then Inr (Unattended, Merchant, False)
        else if raw \<in> {0x34, 0x35} then Inr (Unattended, Cardholder, True)
        else if raw = 0x36 then Inr (Unattended, Cardholder, False)
        else Inl InvalidArgument) (\<lambda>(opr, loc, online).
     Inr \<lparr>tt_raw = raw, tt_operator = opr, tt_location = loc, tt_online_capable = online\<rparr>)"

definition terminal_type_online_capable :: "byte \<Rightarrow> bool krn_result" where
  "terminal_type_online_capable raw = rmap tt_online_capable (terminal_type_parse raw)"

section \<open>Capabilities\<close>

record additional_terminal_capabilities =
  atc_raw :: arr5

definition atc_parse :: "bytes \<Rightarrow> additional_terminal_capabilities krn_result" where
  "atc_parse raw = rmap (\<lambda>raw. \<lparr>atc_raw = raw\<rparr>) (to_arr5 raw ParseError)"

definition atc_bit_is_set :: "additional_terminal_capabilities \<Rightarrow> nat \<Rightarrow> byte \<Rightarrow> bool" where
  "atc_bit_is_set c byte_index m \<longleftrightarrow> (case get_at (list5 (atc_raw c)) byte_index of Some b \<Rightarrow> b AND m \<noteq> 0 | None \<Rightarrow> False)"

definition atc_set_bit_count :: "additional_terminal_capabilities \<Rightarrow> nat" where
  "atc_set_bit_count c = sum_list (map count_ones (list5 (atc_raw c)))"

record terminal_capability_bit =
  tcb_byte_index :: nat
  tcb_mask :: byte
  tcb_name :: string

definition tcb_new :: "nat \<Rightarrow> byte \<Rightarrow> string \<Rightarrow> terminal_capability_bit" where
  "tcb_new byte_index m name = \<lparr>tcb_byte_index = byte_index, tcb_mask = m, tcb_name = name\<rparr>"

definition TERMINAL_CAPABILITY_ALLOWED_MASKS :: bytes where
  "TERMINAL_CAPABILITY_ALLOWED_MASKS = [0xe0, 0xf8, 0xe8]"

definition TERMINAL_CAPABILITY_BITS :: "terminal_capability_bit list" where
  "TERMINAL_CAPABILITY_BITS =
     [tcb_new 0 0x80 ''manual-key-entry'',
      tcb_new 0 0x40 ''magnetic-stripe'',
      tcb_new 0 0x20 ''icc-with-contacts'',
      tcb_new 1 0x80 ''plaintext-pin-for-icc-verification'',
      tcb_new 1 0x40 ''enciphered-pin-for-online-verification'',
      tcb_new 1 0x20 ''signature-paper'',
      tcb_new 1 0x10 ''enciphered-pin-for-offline-verification'',
      tcb_new 1 0x08 ''no-cvm-required'',
      tcb_new 2 0x80 ''sda-supported'',
      tcb_new 2 0x40 ''dda-supported'',
      tcb_new 2 0x20 ''card-capture-supported'',
      tcb_new 2 0x08 ''cda-supported'']"

record terminal_capabilities =
  tc_raw :: arr3

definition terminal_capabilities_parse :: "bytes \<Rightarrow> terminal_capabilities krn_result" where
  "terminal_capabilities_parse raw = rmap (\<lambda>raw. \<lparr>tc_raw = raw\<rparr>) (to_arr3 raw ParseError)"

definition tc_has_rfu_bits :: "terminal_capabilities \<Rightarrow> bool" where
  "tc_has_rfu_bits c \<longleftrightarrow>
     list_ex (\<lambda>(b, allowed). b AND NOT allowed \<noteq> 0) (zip (list3 (tc_raw c)) TERMINAL_CAPABILITY_ALLOWED_MASKS)"

definition tc_bit_is_set :: "terminal_capabilities \<Rightarrow> terminal_capability_bit \<Rightarrow> bool" where
  "tc_bit_is_set c b \<longleftrightarrow>
     (case get_at (list3 (tc_raw c)) (tcb_byte_index b) of Some v \<Rightarrow> v AND tcb_mask b \<noteq> 0 | None \<Rightarrow> False)"

definition manual_key_entry :: "terminal_capabilities \<Rightarrow> bool" where
  "manual_key_entry c \<longleftrightarrow> tc_bit_is_set c (TERMINAL_CAPABILITY_BITS ! 0)"
definition magnetic_stripe :: "terminal_capabilities \<Rightarrow> bool" where
  "magnetic_stripe c \<longleftrightarrow> tc_bit_is_set c (TERMINAL_CAPABILITY_BITS ! 1)"
definition icc_with_contacts :: "terminal_capabilities \<Rightarrow> bool" where
  "icc_with_contacts c \<longleftrightarrow> tc_bit_is_set c (TERMINAL_CAPABILITY_BITS ! 2)"
definition plaintext_pin_for_icc_verification :: "terminal_capabilities \<Rightarrow> bool" where
  "plaintext_pin_for_icc_verification c \<longleftrightarrow> tc_bit_is_set c (TERMINAL_CAPABILITY_BITS ! 3)"
definition enciphered_pin_for_online_verification :: "terminal_capabilities \<Rightarrow> bool" where
  "enciphered_pin_for_online_verification c \<longleftrightarrow> tc_bit_is_set c (TERMINAL_CAPABILITY_BITS ! 4)"
definition signature_paper :: "terminal_capabilities \<Rightarrow> bool" where
  "signature_paper c \<longleftrightarrow> tc_bit_is_set c (TERMINAL_CAPABILITY_BITS ! 5)"
definition enciphered_pin_for_offline_verification :: "terminal_capabilities \<Rightarrow> bool" where
  "enciphered_pin_for_offline_verification c \<longleftrightarrow> tc_bit_is_set c (TERMINAL_CAPABILITY_BITS ! 6)"
definition no_cvm_required :: "terminal_capabilities \<Rightarrow> bool" where
  "no_cvm_required c \<longleftrightarrow> tc_bit_is_set c (TERMINAL_CAPABILITY_BITS ! 7)"
definition tc_sda_supported :: "terminal_capabilities \<Rightarrow> bool" where
  "tc_sda_supported c \<longleftrightarrow> tc_bit_is_set c (TERMINAL_CAPABILITY_BITS ! 8)"
definition tc_dda_supported :: "terminal_capabilities \<Rightarrow> bool" where
  "tc_dda_supported c \<longleftrightarrow> tc_bit_is_set c (TERMINAL_CAPABILITY_BITS ! 9)"
definition card_capture_supported :: "terminal_capabilities \<Rightarrow> bool" where
  "card_capture_supported c \<longleftrightarrow> tc_bit_is_set c (TERMINAL_CAPABILITY_BITS ! 10)"
definition tc_cda_supported :: "terminal_capabilities \<Rightarrow> bool" where
  "tc_cda_supported c \<longleftrightarrow> tc_bit_is_set c (TERMINAL_CAPABILITY_BITS ! 11)"

lemmas capability_defs =
  manual_key_entry_def magnetic_stripe_def icc_with_contacts_def plaintext_pin_for_icc_verification_def
  enciphered_pin_for_online_verification_def signature_paper_def enciphered_pin_for_offline_verification_def
  no_cvm_required_def tc_sda_supported_def tc_dda_supported_def card_capture_supported_def tc_cda_supported_def

section \<open>Properties\<close>

text \<open>The bytes that a list of flags with their masks stands for.\<close>

definition flag_byte :: "(bool \<times> byte) list \<Rightarrow> byte" where
  "flag_byte fs = foldr (\<lambda>(f, m) b. if f then m OR b else b) fs 0"

text \<open>Terminal capabilities without reserved bits are exactly their twelve named flags: the bytes
  can be rebuilt from the flags, so no two capability values with the same flags differ.\<close>

theorem capabilities_are_their_flags:
  "\<not> tc_has_rfu_bits c \<longleftrightarrow>
     list3 (tc_raw c) =
       [flag_byte [(manual_key_entry c, 0x80), (magnetic_stripe c, 0x40), (icc_with_contacts c, 0x20)],
        flag_byte [(plaintext_pin_for_icc_verification c, 0x80), (enciphered_pin_for_online_verification c, 0x40),
          (signature_paper c, 0x20), (enciphered_pin_for_offline_verification c, 0x10), (no_cvm_required c, 0x08)],
        flag_byte [(tc_sda_supported c, 0x80), (tc_dda_supported c, 0x40), (card_capture_supported c, 0x20),
          (tc_cda_supported c, 0x08)]]"
proof -
  have "\<forall>n\<in>set [0..<256]. let b = word_of_nat n :: byte in
      (b AND NOT 0xe0 = 0 \<longleftrightarrow> b = flag_byte [(b AND 0x80 \<noteq> 0, 0x80), (b AND 0x40 \<noteq> 0, 0x40), (b AND 0x20 \<noteq> 0, 0x20)]) \<and>
      (b AND NOT 0xf8 = 0 \<longleftrightarrow> b = flag_byte [(b AND 0x80 \<noteq> 0, 0x80), (b AND 0x40 \<noteq> 0, 0x40), (b AND 0x20 \<noteq> 0, 0x20),
          (b AND 0x10 \<noteq> 0, 0x10), (b AND 0x08 \<noteq> 0, 0x08)]) \<and>
      (b AND NOT 0xe8 = 0 \<longleftrightarrow> b = flag_byte [(b AND 0x80 \<noteq> 0, 0x80), (b AND 0x40 \<noteq> 0, 0x40), (b AND 0x20 \<noteq> 0, 0x20),
          (b AND 0x08 \<noteq> 0, 0x08)])"
    by code_simp
  from byte_exhaust [OF this] have byte: "let b = v in
      (b AND NOT 0xe0 = 0 \<longleftrightarrow> b = flag_byte [(b AND 0x80 \<noteq> 0, 0x80), (b AND 0x40 \<noteq> 0, 0x40), (b AND 0x20 \<noteq> 0, 0x20)]) \<and>
      (b AND NOT 0xf8 = 0 \<longleftrightarrow> b = flag_byte [(b AND 0x80 \<noteq> 0, 0x80), (b AND 0x40 \<noteq> 0, 0x40), (b AND 0x20 \<noteq> 0, 0x20),
          (b AND 0x10 \<noteq> 0, 0x10), (b AND 0x08 \<noteq> 0, 0x08)]) \<and>
      (b AND NOT 0xe8 = 0 \<longleftrightarrow> b = flag_byte [(b AND 0x80 \<noteq> 0, 0x80), (b AND 0x40 \<noteq> 0, 0x40), (b AND 0x20 \<noteq> 0, 0x20),
          (b AND 0x08 \<noteq> 0, 0x08)])" for v :: byte .
  obtain x y z where raw: "tc_raw c = A3 x y z" by (cases "tc_raw c")
  show ?thesis
    using byte [of x] byte [of y] byte [of z]
    by (simp add: tc_has_rfu_bits_def raw TERMINAL_CAPABILITY_ALLOWED_MASKS_def capability_defs
        TERMINAL_CAPABILITY_BITS_def tc_bit_is_set_def get_at_def tcb_new_def Let_def)
      blast
qed

end
