(* ===== verification/Emv_Transaction.thy ===== *)
theory Emv_Transaction
  imports Emv_Error
begin

text \<open>
  Transaction parameters (\<open>src/src/transaction.rs\<close>): the currency exponent and what the
  transaction type means for the service and the cardholder verification.
\<close>

datatype currency_exponent = CurrencyExponent byte

definition currency_exponent_from_value :: "byte \<Rightarrow> currency_exponent krn_result" where
  "currency_exponent_from_value v = (if v \<le> 9 then Inr (CurrencyExponent v) else Inl InvalidArgument)"

fun one_byte :: "bytes \<Rightarrow> byte krn_result" where
  "one_byte [v] = Inr v"
| "one_byte _ = Inl ParseError"

definition currency_exponent_parse :: "bytes \<Rightarrow> currency_exponent krn_result" where
  "currency_exponent_parse raw = rbind (one_byte raw) currency_exponent_from_value"

datatype runtime_service = GoodsOrServices | ServiceCash | ServiceCashback

fun runtime_service_label :: "runtime_service \<Rightarrow> string" where
  "runtime_service_label GoodsOrServices = ''goods-or-services''"
| "runtime_service_label ServiceCash = ''cash''"
| "runtime_service_label ServiceCashback = ''cashback''"

datatype cvm_transaction_class =
  ClassNonCash | ClassUnattendedCash | ClassManualCash | ClassPurchaseWithCashback

fun cvm_transaction_class_label :: "cvm_transaction_class \<Rightarrow> string" where
  "cvm_transaction_class_label ClassNonCash = ''non-cash''"
| "cvm_transaction_class_label ClassUnattendedCash = ''unattended-cash''"
| "cvm_transaction_class_label ClassManualCash = ''manual-cash''"
| "cvm_transaction_class_label ClassPurchaseWithCashback = ''purchase-with-cashback''"

datatype transaction_type = TransactionType byte

fun transaction_type_raw :: "transaction_type \<Rightarrow> byte" where
  "transaction_type_raw (TransactionType v) = v"

definition transaction_type_parse :: "bytes \<Rightarrow> transaction_type krn_result" where
  "transaction_type_parse raw = rmap TransactionType (one_byte raw)"

definition runtime_service_of :: "transaction_type \<Rightarrow> runtime_service" where
  "runtime_service_of t =
     (let v = transaction_type_raw t in
      if v = 0x01 then ServiceCash
      else if v = 0x09 \<or> v = 0x17 then ServiceCashback
      else GoodsOrServices)"

definition cvm_transaction_class_of :: "transaction_type \<Rightarrow> bool \<Rightarrow> cvm_transaction_class" where
  "cvm_transaction_class_of t terminal_type_is_atm =
     (let v = transaction_type_raw t in
      if terminal_type_is_atm then ClassUnattendedCash
      else if v = 0x01 then ClassManualCash
      else if v = 0x09 \<or> v = 0x17 then ClassPurchaseWithCashback
      else ClassNonCash)"

definition mapping_authority :: "transaction_type \<Rightarrow> string" where
  "mapping_authority t =
     (if transaction_type_raw t \<in> {0x00, 0x01, 0x09, 0x17}
      then ''runtime-cvm-trm-service-mapping'' else ''profile-defined-or-unmapped'')"

lemma transaction_type_parse_iff:
  "transaction_type_parse raw = Inr t \<longleftrightarrow> raw = [transaction_type_raw t]"
  by (cases t; cases raw rule: one_byte.cases) (auto simp: transaction_type_parse_def)

text \<open>Away from an ATM, the verification class and the service of a type agree.\<close>

lemma class_matches_service:
  "cvm_transaction_class_of t False =
     (case runtime_service_of t of
        ServiceCash \<Rightarrow> ClassManualCash
      | ServiceCashback \<Rightarrow> ClassPurchaseWithCashback
      | GoodsOrServices \<Rightarrow> ClassNonCash)"
  by (simp add: cvm_transaction_class_of_def runtime_service_of_def Let_def)

end
