(* ===== verification/Emv_Issuer.thy ===== *)
theory Emv_Issuer
  imports Emv_Tlv Emv_State
begin

text \<open>
  The issuer's answer to an online authorization (\<open>src/src/issuer.rs\<close>): its data objects, the
  issuer scripts with their limits, and what executing a script leaves in the TVR and TSI.
\<close>

definition MAX_SCRIPT_COMMANDS :: nat where "MAX_SCRIPT_COMMANDS = 32"
definition MAX_SCRIPT_COMMAND_LEN :: nat where "MAX_SCRIPT_COMMAND_LEN = 261"
definition ISSUER_SCRIPT_IDENTIFIER_LEN :: nat where "ISSUER_SCRIPT_IDENTIFIER_LEN = 4"
definition ISSUER_AUTHENTICATION_DATA_MIN_LEN :: nat where "ISSUER_AUTHENTICATION_DATA_MIN_LEN = 8"
definition ISSUER_AUTHENTICATION_DATA_MAX_LEN :: nat where "ISSUER_AUTHENTICATION_DATA_MAX_LEN = 16"
definition AUTHORIZATION_CODE_LEN :: nat where "AUTHORIZATION_CODE_LEN = 6"

datatype script_phase = BeforeFinalGenerateAc | AfterFinalGenerateAc

record issuer_script =
  script_phase :: script_phase
  script_identifier :: "bytes option"
  script_commands :: "bytes list"

record host_response =
  hr_authorization_response_code :: bytes
  hr_authorization_code :: "bytes option"
  hr_issuer_authentication_data :: "bytes option"
  hr_scripts :: "issuer_script list"

record script_command_result =
  scr_sw1 :: byte
  scr_sw2 :: byte

record script_execution_summary =
  ses_tvr :: tvr
  ses_tsi :: tsi
  ses_results :: "script_command_result list"

text \<open>\<open>is_ascii_alphanumeric\<close> on a byte.\<close>

definition is_ascii_alphanumeric :: "byte \<Rightarrow> bool" where
  "is_ascii_alphanumeric b \<longleftrightarrow>
     0x30 \<le> b \<and> b \<le> 0x39 \<or> 0x41 \<le> b \<and> b \<le> 0x5a \<or> 0x61 \<le> b \<and> b \<le> 0x7a"

definition authorization_text_is_valid :: "bytes \<Rightarrow> bool" where
  "authorization_text_is_valid v = list_all (\<lambda>byte. is_ascii_alphanumeric byte \<or> byte = 0x20) v"

definition parse_authorization_response_code :: "bytes \<Rightarrow> bytes krn_result" where
  "parse_authorization_response_code v =
     (if length v \<noteq> 2 then Inl ParseError
      else if \<not> authorization_text_is_valid v then Inl ParseError
      else Inr [v ! 0, v ! 1])"

definition parse_authorization_code :: "bytes \<Rightarrow> bytes krn_result" where
  "parse_authorization_code v =
     (if length v \<noteq> AUTHORIZATION_CODE_LEN \<or> \<not> authorization_text_is_valid v then Inl ParseError
      else Inr v)"

definition validate_script_command_apdu :: "bytes \<Rightarrow> unit krn_result" where
  "validate_script_command_apdu command =
     (if length command < 4 then Inl ParseError
      else if length command \<le> 5 then Inr ()
      else let lc = unat (command ! 4) in
        if lc = 0 then Inl ParseError
        else rbind (ok_or (checked_add_usize 5 lc) LengthOverflow) (\<lambda>data_end.
          if length command = data_end \<or> length command = data_end + 1 then Inr () else Inl ParseError))"

text \<open>One turn of the loop over the children of a script template.\<close>

definition script_step ::
    "bytes option \<times> bytes list \<Rightarrow> tlv \<Rightarrow> (bytes option \<times> bytes list) krn_result" where
  "script_step s item = (case s of (identifier, commands) \<Rightarrow>
     if tlv_tag item = [0x9f, 0x18]
     then (if identifier \<noteq> None \<or> length (tlv_value item) \<noteq> ISSUER_SCRIPT_IDENTIFIER_LEN then Inl ParseError
           else Inr (Some (tlv_value item), commands))
     else if tlv_tag item = [0x86]
     then (if tlv_value item = [] then Inl ParseError
           else if length (tlv_value item) > MAX_SCRIPT_COMMAND_LEN then Inl LengthOverflow
           else rbind (validate_script_command_apdu (tlv_value item)) (\<lambda>_.
             if length commands \<ge> MAX_SCRIPT_COMMANDS then Inl LengthOverflow
             else Inr (identifier, commands @ [tlv_value item])))
     else Inl ParseError)"

definition parse_script_template :: "tlv \<Rightarrow> script_phase \<Rightarrow> issuer_script krn_result" where
  "parse_script_template template phase =
     rbind (rfold script_step (None, []) (tlv_children template)) (\<lambda>(identifier, commands).
       if commands = [] then Inl ParseError
       else Inr \<lparr>script_phase = phase, script_identifier = identifier, script_commands = commands\<rparr>)"

definition script_phase_of_tag :: "bytes \<Rightarrow> script_phase option" where
  "script_phase_of_tag tag =
     (if tag = [0x71] then Some BeforeFinalGenerateAc
      else if tag = [0x72] then Some AfterFinalGenerateAc else None)"

definition collect_script_step ::
    "nat \<times> issuer_script list \<Rightarrow> tlv \<Rightarrow> (nat \<times> issuer_script list) krn_result" where
  "collect_script_step s item = (case s of (total_commands, scripts) \<Rightarrow>
     case script_phase_of_tag (tlv_tag item) of
       None \<Rightarrow> Inr (total_commands, scripts)
     | Some phase \<Rightarrow>
         rbind (parse_script_template item phase) (\<lambda>script.
         rbind (ok_or (checked_add_usize total_commands (length (script_commands script))) LengthOverflow)
           (\<lambda>total_commands.
             if total_commands > MAX_SCRIPT_COMMANDS then Inl LengthOverflow
             else Inr (total_commands, scripts @ [script]))))"

definition collect_scripts :: "tlv list \<Rightarrow> issuer_script list krn_result" where
  "collect_scripts tlvs = rmap snd (rfold collect_script_step (0, []) tlvs)"

definition HOST_RESPONSE_TAGS :: "bytes list" where
  "HOST_RESPONSE_TAGS = [[0x8a], [0x89], [0x91], [0x71], [0x72]]"

fun reject_nested_response_object :: "tlv \<Rightarrow> unit krn_result" where
  "reject_nested_response_object (Tlv tag v c children) =
     (if tag \<in> set HOST_RESPONSE_TAGS then Inl ParseError
      else foldr (\<lambda>item rest. rbind item (\<lambda>_. rest)) (map reject_nested_response_object children) (Inr ()))"

text \<open>The loop over a list of objects, stopping at the first error.\<close>

definition reject_nested_response_objects :: "tlv list \<Rightarrow> unit krn_result" where
  "reject_nested_response_objects tlvs =
     foldr (\<lambda>item rest. rbind (reject_nested_response_object item) (\<lambda>_. rest)) tlvs (Inr ())"

definition reject_unsupported_host_response_objects :: "tlv list \<Rightarrow> unit krn_result" where
  "reject_unsupported_host_response_objects tlvs =
     rfold (\<lambda>_ item.
       if tlv_tag item \<notin> set HOST_RESPONSE_TAGS then Inl ParseError
       else reject_nested_response_objects (tlv_children item)) () tlvs"

definition parse_issuer_authentication_data :: "bytes \<Rightarrow> bytes krn_result" where
  "parse_issuer_authentication_data v =
     (if ISSUER_AUTHENTICATION_DATA_MIN_LEN \<le> length v \<and> length v \<le> ISSUER_AUTHENTICATION_DATA_MAX_LEN
      then Inr v else Inl ParseError)"

definition parse_host_response :: "bytes \<Rightarrow> host_response krn_result" where
  "parse_host_response input =
     rbind (parse_many input) (\<lambda>tlvs.
     rbind (reject_unsupported_host_response_objects tlvs) (\<lambda>_.
     rbind (find_unique_direct tlvs [0x8a]) (\<lambda>arc_opt.
     rbind (opt_traverse parse_authorization_response_code arc_opt) (\<lambda>authorization_response_code.
     rbind (find_unique_direct tlvs [0x89]) (\<lambda>code_opt.
     rbind (opt_traverse parse_authorization_code code_opt) (\<lambda>authorization_code.
     rbind (find_unique_direct tlvs [0x91]) (\<lambda>iad_opt.
     rbind (opt_traverse parse_issuer_authentication_data iad_opt) (\<lambda>issuer_authentication_data.
     rbind (collect_scripts tlvs) (\<lambda>scripts.
     rbind (ok_or authorization_response_code MissingMandatoryTag) (\<lambda>authorization_response_code.
       Inr \<lparr>hr_authorization_response_code = authorization_response_code,
            hr_authorization_code = authorization_code,
            hr_issuer_authentication_data = issuer_authentication_data,
            hr_scripts = scripts\<rparr>))))))))))"

definition apply_script_results ::
    "script_phase \<Rightarrow> script_command_result list \<Rightarrow> tvr \<Rightarrow> tsi \<Rightarrow> script_execution_summary" where
  "apply_script_results phase results t i =
     (let i = (if results \<noteq> [] then tsi_set i SCRIPT_PROCESSING_PERFORMED else i);
          t = (if list_ex (\<lambda>result. scr_sw1 result \<noteq> 0x90 \<or> scr_sw2 result \<noteq> 0x00) results
               then (case phase of
                   BeforeFinalGenerateAc \<Rightarrow> tvr_set t B5_SCRIPT_PROCESSING_FAILED_BEFORE_FINAL_GAC
                 | AfterFinalGenerateAc \<Rightarrow> tvr_set t B5_SCRIPT_PROCESSING_FAILED_AFTER_FINAL_GAC)
               else t)
      in \<lparr>ses_tvr = t, ses_tsi = i, ses_results = results\<rparr>)"

section \<open>What a response may hold\<close>

text \<open>The shapes of a script command: a header, with Le, or with its data and perhaps Le.\<close>

definition script_command_ok :: "bytes \<Rightarrow> bool" where
  "script_command_ok c \<longleftrightarrow> length c \<le> 261 \<and>
     (length c = 4 \<or> length c = 5 \<or>
      5 < length c \<and> 0 < unat (c ! 4) \<and> (length c = 5 + unat (c ! 4) \<or> length c = 6 + unat (c ! 4)))"

lemma validate_script_command_iff:
  "validate_script_command_apdu c = Inr () \<longleftrightarrow>
     length c = 4 \<or> length c = 5 \<or>
      5 < length c \<and> 0 < unat (c ! 4) \<and> (length c = 5 + unat (c ! 4) \<or> length c = 6 + unat (c ! 4))"
proof -
  have "5 + unat (c ! 4) < 2 ^ 64" using unat_byte_less [of "c ! 4"] by (simp del: unat_byte_less)
  then have "ok_or (checked_add_usize 5 (unat (c ! 4))) LengthOverflow = Inr (5 + unat (c ! 4))"
    by (simp add: checked_add_usize_def)
  then show ?thesis by (auto simp: validate_script_command_apdu_def Let_def)
qed

definition script_ok :: "issuer_script \<Rightarrow> bool" where
  "script_ok s \<longleftrightarrow> script_commands s \<noteq> [] \<and> list_all script_command_ok (script_commands s) \<and>
     (case script_identifier s of None \<Rightarrow> True | Some i \<Rightarrow> length i = 4)"

text \<open>The script a template stands for: its single identifier and its commands in order.\<close>

definition script_of_template :: "tlv \<Rightarrow> script_phase \<Rightarrow> issuer_script \<Rightarrow> bool" where
  "script_of_template template phase s \<longleftrightarrow>
     script_phase s = phase \<and>
     script_commands s = map tlv_value (filter (\<lambda>t. tlv_tag t = [0x86]) (tlv_children template)) \<and>
     map tlv_value (filter (\<lambda>t. tlv_tag t = [0x9f, 0x18]) (tlv_children template)) =
       (case script_identifier s of None \<Rightarrow> [] | Some i \<Rightarrow> [i]) \<and>
     list_all (\<lambda>t. tlv_tag t = [0x86] \<or> tlv_tag t = [0x9f, 0x18]) (tlv_children template)"

lemma script_loop_iff:
  "length cmds \<le> 32 \<Longrightarrow>
   rfold script_step (ident, cmds) items = Inr (ident', cmds') \<longleftrightarrow>
     (\<exists>new. cmds' = cmds @ new \<and> new = map tlv_value (filter (\<lambda>t. tlv_tag t = [0x86]) items) \<and>
        list_all script_command_ok new \<and> length cmds' \<le> 32 \<and>
        list_all (\<lambda>t. tlv_tag t = [0x86] \<or> tlv_tag t = [0x9f, 0x18]) items \<and>
        (case ident of
           Some i \<Rightarrow> ident' = Some i \<and> filter (\<lambda>t. tlv_tag t = [0x9f, 0x18]) items = []
         | None \<Rightarrow> map tlv_value (filter (\<lambda>t. tlv_tag t = [0x9f, 0x18]) items) =
              (case ident' of None \<Rightarrow> [] | Some i \<Rightarrow> [i]) \<and>
              (case ident' of None \<Rightarrow> True | Some i \<Rightarrow> length i = 4)))"
proof (induction items arbitrary: ident cmds)
  case Nil
  then show ?case by (auto split: option.splits)
next
  case (Cons t ts)
  consider (id) "tlv_tag t = [0x9f, 0x18]" | (cmd) "tlv_tag t = [0x86]"
    | (other) "tlv_tag t \<noteq> [0x9f, 0x18]" "tlv_tag t \<noteq> [0x86]" by blast
  then show ?case
  proof cases
    case id
    show ?thesis
    proof (cases "ident = None \<and> length (tlv_value t) = 4")
      case True
      with id Cons.IH [of cmds "Some (tlv_value t)"] Cons.prems show ?thesis
        by (auto simp: script_step_def ISSUER_SCRIPT_IDENTIFIER_LEN_def split: option.splits)
    next
      case False
      with id show ?thesis
        by (auto simp: script_step_def ISSUER_SCRIPT_IDENTIFIER_LEN_def split: option.splits)
    qed
  next
    case cmd
    let ?v = "tlv_value t"
    show ?thesis
    proof (cases "script_command_ok ?v \<and> length cmds < 32")
      case True
      then have "?v \<noteq> []" "length ?v \<le> 261" "validate_script_command_apdu ?v = Inr ()"
        by (auto simp: script_command_ok_def validate_script_command_iff)
      then have "script_step (ident, cmds) t = Inr (ident, cmds @ [?v])"
        using cmd True by (simp add: script_step_def MAX_SCRIPT_COMMAND_LEN_def MAX_SCRIPT_COMMANDS_def)
      with cmd True Cons.IH [of "cmds @ [?v]" ident] show ?thesis by (cases ident) auto
    next
      case False
      have "\<exists>e. script_step (ident, cmds) t = Inl e"
      proof (cases "validate_script_command_apdu ?v")
        case (Inr u)
        then have "script_command_ok ?v \<or> length ?v > 261"
          using validate_script_command_iff [of ?v] by (auto simp: script_command_ok_def)
        with False cmd Inr show ?thesis
          by (auto simp: script_step_def MAX_SCRIPT_COMMAND_LEN_def MAX_SCRIPT_COMMANDS_def)
      qed (use cmd in \<open>auto simp: script_step_def\<close>)
      with cmd False show ?thesis by (auto simp: script_command_ok_def)
    qed
  next
    case other
    then show ?thesis by (auto simp: script_step_def)
  qed
qed

lemma parse_script_template_iff:
  "parse_script_template t phase = Inr s \<longleftrightarrow>
     script_of_template t phase s \<and> script_ok s \<and> length (script_commands s) \<le> 32"
proof -
  have "parse_script_template t phase = Inr s \<longleftrightarrow>
      rfold script_step (None, []) (tlv_children t) = Inr (script_identifier s, script_commands s) \<and>
      script_commands s \<noteq> [] \<and> script_phase s = phase"
    by (cases s) (auto simp: parse_script_template_def krn_simps split: if_splits)
  then show ?thesis
    by (auto simp: script_loop_iff script_of_template_def script_ok_def)
qed

definition script_templates :: "tlv list \<Rightarrow> tlv list" where
  "script_templates tlvs = filter (\<lambda>t. script_phase_of_tag (tlv_tag t) \<noteq> None) tlvs"

definition total_commands :: "issuer_script list \<Rightarrow> nat" where
  "total_commands ss = sum_list (map (\<lambda>s. length (script_commands s)) ss)"

abbreviation parses_to :: "tlv \<Rightarrow> issuer_script \<Rightarrow> bool" where
  "parses_to t s \<equiv> parse_script_template t (the (script_phase_of_tag (tlv_tag t))) = Inr s"

lemma collect_scripts_loop:
  "n \<le> 32 \<Longrightarrow>
   rfold collect_script_step (n, acc) tlvs = Inr (n', out) \<longleftrightarrow>
     (\<exists>new. out = acc @ new \<and> list_all2 parses_to (script_templates tlvs) new \<and>
        n' = n + total_commands new \<and> n' \<le> 32)"
proof (induction tlvs arbitrary: n acc)
  case Nil
  then show ?case by (auto simp: script_templates_def total_commands_def)
next
  case (Cons t ts)
  show ?case
  proof (cases "script_phase_of_tag (tlv_tag t)")
    case None
    with Cons show ?thesis by (simp add: collect_script_step_def script_templates_def)
  next
    case (Some phase)
    have tmpl: "script_templates (t # ts) = t # script_templates ts" using Some by (simp add: script_templates_def)
    show ?thesis
    proof (cases "parse_script_template t phase")
      case (Inl e)
      with Some show ?thesis by (auto simp: collect_script_step_def tmpl list_all2_Cons1)
    next
      case (Inr s)
      let ?k = "n + length (script_commands s)"
      have "length (script_commands s) \<le> 32" using Inr by (simp add: parse_script_template_iff)
      then have st: "collect_script_step (n, acc) t = (if ?k > 32 then Inl LengthOverflow else Inr (?k, acc @ [s]))"
        using Some Inr Cons.prems
        by (simp add: collect_script_step_def checked_add_usize_def MAX_SCRIPT_COMMANDS_def)
      show ?thesis
      proof (cases "?k \<le> 32")
        case True
        with st Some Inr Cons.IH [OF True, of "acc @ [s]"] show ?thesis
          by (auto simp: tmpl list_all2_Cons1 total_commands_def)
      next
        case False
        with st Some Inr show ?thesis by (auto simp: tmpl list_all2_Cons1 total_commands_def)
      qed
    qed
  qed
qed

lemma collect_scripts_iff:
  "collect_scripts tlvs = Inr ss \<longleftrightarrow>
     list_all2 parses_to (script_templates tlvs) ss \<and> total_commands ss \<le> 32"
  by (auto simp: collect_scripts_def krn_simps collect_scripts_loop)

lemma foldr_reject:
  "foldr (\<lambda>item rest. rbind (f item) (\<lambda>_. rest)) xs (Inr ()) = Inr () \<longleftrightarrow> (\<forall>x\<in>set xs. f x = Inr ())"
  by (induction xs) (auto simp: krn_simps)

lemma reject_nested_object_iff:
  "reject_nested_response_object t = Inr () \<longleftrightarrow> (\<forall>f\<in>set (tlv_walk t). flat_tag f \<notin> set HOST_RESPONSE_TAGS)"
proof (induction t)
  case (Tlv tag v c cs)
  then have "(\<forall>x\<in>set (map reject_nested_response_object cs). x = Inr ()) \<longleftrightarrow>
      (\<forall>f\<in>set (concat (map tlv_walk cs)). flat_tag f \<notin> set HOST_RESPONSE_TAGS)" by auto
  then show ?case
    using foldr_reject [of "\<lambda>x. x" "map reject_nested_response_object cs"] by (auto simp: comp_def)
qed

lemma reject_unsupported_iff:
  "reject_unsupported_host_response_objects tlvs = Inr () \<longleftrightarrow>
     (\<forall>t\<in>set tlvs. tlv_tag t \<in> set HOST_RESPONSE_TAGS \<and>
        (\<forall>f\<in>set (tlv_flatten (tlv_children t)). flat_tag f \<notin> set HOST_RESPONSE_TAGS))"
proof -
  have n: "reject_nested_response_objects cs = Inr () \<longleftrightarrow>
      (\<forall>f\<in>set (tlv_flatten cs). flat_tag f \<notin> set HOST_RESPONSE_TAGS)" for cs
    by (auto simp: reject_nested_response_objects_def foldr_reject reject_nested_object_iff tlv_flatten_def)
  show ?thesis
    unfolding reject_unsupported_host_response_objects_def
  proof (induction tlvs)
    case (Cons t ts)
    show ?case
    proof (cases "tlv_tag t \<in> set HOST_RESPONSE_TAGS")
      case True
      with Cons n [of "tlv_children t"] show ?thesis
        by (cases "reject_nested_response_objects (tlv_children t)") auto
    qed simp
  qed simp
qed

definition host_response_ok :: "host_response \<Rightarrow> bool" where
  "host_response_ok r \<longleftrightarrow>
     length (hr_authorization_response_code r) = 2 \<and>
     authorization_text_is_valid (hr_authorization_response_code r) \<and>
     (case hr_authorization_code r of None \<Rightarrow> True
      | Some c \<Rightarrow> length c = 6 \<and> authorization_text_is_valid c) \<and>
     (case hr_issuer_authentication_data r of None \<Rightarrow> True | Some d \<Rightarrow> 8 \<le> length d \<and> length d \<le> 16) \<and>
     list_all script_ok (hr_scripts r) \<and> total_commands (hr_scripts r) \<le> 32"

lemma opt_traverse_eq_Inr:
  "opt_traverse f x = Inr y \<longleftrightarrow>
     (case x of None \<Rightarrow> y = None | Some a \<Rightarrow> (\<exists>b. f a = Inr b \<and> y = Some b))"
  by (cases x) (auto simp: krn_simps)

lemma arc_eq_Inr: "parse_authorization_response_code v = Inr w \<longleftrightarrow>
    w = v \<and> length v = 2 \<and> authorization_text_is_valid v"
  by (auto simp: parse_authorization_response_code_def length_Suc_conv numeral_2_eq_2)

lemma code_eq_Inr: "parse_authorization_code v = Inr w \<longleftrightarrow>
    w = v \<and> length v = 6 \<and> authorization_text_is_valid v"
  by (auto simp: parse_authorization_code_def AUTHORIZATION_CODE_LEN_def)

lemma issuer_auth_eq_Inr: "parse_issuer_authentication_data v = Inr w \<longleftrightarrow> w = v \<and> 8 \<le> length v \<and> length v \<le> 16"
  by (auto simp: parse_issuer_authentication_data_def ISSUER_AUTHENTICATION_DATA_MIN_LEN_def
      ISSUER_AUTHENTICATION_DATA_MAX_LEN_def)

lemma parse_host_response_steps:
  "parse_host_response input = Inr r \<longleftrightarrow>
     (\<exists>tlvs arc_opt code_opt iad_opt. parse_many input = Inr tlvs \<and>
        reject_unsupported_host_response_objects tlvs = Inr () \<and>
        find_unique_direct tlvs [0x8a] = Inr arc_opt \<and>
        opt_traverse parse_authorization_response_code arc_opt = Inr (Some (hr_authorization_response_code r)) \<and>
        find_unique_direct tlvs [0x89] = Inr code_opt \<and>
        opt_traverse parse_authorization_code code_opt = Inr (hr_authorization_code r) \<and>
        find_unique_direct tlvs [0x91] = Inr iad_opt \<and>
        opt_traverse parse_issuer_authentication_data iad_opt = Inr (hr_issuer_authentication_data r) \<and>
        collect_scripts tlvs = Inr (hr_scripts r))"
  (is "_ \<longleftrightarrow> ?r")
proof
  assume "parse_host_response input = Inr r"
  then show ?r
    unfolding parse_host_response_def rbind_eq_Inr ok_or_eq_Inr by force
next
  assume ?r
  then show "parse_host_response input = Inr r"
    by (cases r) (auto simp: parse_host_response_def)
qed

text \<open>C35: A host response is accepted exactly when its objects are of the five known kinds with none of them
  nested in another, it holds one valid authorization response code and at most one valid
  authorization code and one issuer authentication data of 8 to 16 bytes, and every script
  template holds only well-formed commands, at least one, and at most one four-byte identifier,
  at most 32 commands in all; the result carries exactly these values and the scripts in order,
  with the phase their template names.\<close>

theorem parse_host_response_iff:
  "parse_host_response input = Inr r \<longleftrightarrow> host_response_ok r \<and>
     (\<exists>tlvs. parse_many input = Inr tlvs \<and>
        list_all (\<lambda>t. tlv_tag t \<in> set HOST_RESPONSE_TAGS \<and>
          list_all (\<lambda>f. flat_tag f \<notin> set HOST_RESPONSE_TAGS) (tlv_flatten (tlv_children t))) tlvs \<and>
        find_unique_direct tlvs [0x8a] = Inr (Some (hr_authorization_response_code r)) \<and>
        find_unique_direct tlvs [0x89] = Inr (hr_authorization_code r) \<and>
        find_unique_direct tlvs [0x91] = Inr (hr_issuer_authentication_data r) \<and>
        list_all2 (\<lambda>t s. script_of_template t (the (script_phase_of_tag (tlv_tag t))) s)
          (script_templates tlvs) (hr_scripts r))"
proof -
  have opt: "(\<exists>x. m = Inr x \<and> opt_traverse f x = Inr y) \<longleftrightarrow>
      m = Inr y \<and> (case y of None \<Rightarrow> True | Some v \<Rightarrow> f v = Inr v)"
    if "\<And>v w. f v = Inr w \<Longrightarrow> w = v" for f :: "bytes \<Rightarrow> bytes krn_result" and m y
    using that by (cases m; cases y) (auto simp: opt_traverse_eq_Inr split: option.splits)
  have total: "length (script_commands s) \<le> 32" if "s \<in> set ss" "total_commands ss \<le> 32" for s ss
    using member_le_sum_list [of "length (script_commands s)" "map (\<lambda>s. length (script_commands s)) ss"] that
    by (auto simp: total_commands_def)
  have scripts: "list_all2 parses_to ts ss \<and> total_commands ss \<le> 32 \<longleftrightarrow>
      list_all2 (\<lambda>t s. script_of_template t (the (script_phase_of_tag (tlv_tag t))) s) ts ss \<and>
      list_all script_ok ss \<and> total_commands ss \<le> 32" for ts ss
    using total [OF nth_mem] by (auto simp: parse_script_template_iff list_all2_conv_all_nth list_all_length)
  have steps: "parse_host_response input = Inr r \<longleftrightarrow> (\<exists>tlvs. parse_many input = Inr tlvs \<and>
      reject_unsupported_host_response_objects tlvs = Inr () \<and>
      (\<exists>x. find_unique_direct tlvs [0x8a] = Inr x \<and>
        opt_traverse parse_authorization_response_code x = Inr (Some (hr_authorization_response_code r))) \<and>
      (\<exists>x. find_unique_direct tlvs [0x89] = Inr x \<and>
        opt_traverse parse_authorization_code x = Inr (hr_authorization_code r)) \<and>
      (\<exists>x. find_unique_direct tlvs [0x91] = Inr x \<and>
        opt_traverse parse_issuer_authentication_data x = Inr (hr_issuer_authentication_data r)) \<and>
      collect_scripts tlvs = Inr (hr_scripts r))"
    unfolding parse_host_response_steps by blast
  have arc: "(\<exists>x. m = Inr x \<and> opt_traverse parse_authorization_response_code x = Inr (Some v)) \<longleftrightarrow>
      m = Inr (Some v) \<and> length v = 2 \<and> authorization_text_is_valid v" for m v
    by (subst opt) (simp_all add: arc_eq_Inr)
  have code: "(\<exists>x. m = Inr x \<and> opt_traverse parse_authorization_code x = Inr y) \<longleftrightarrow> m = Inr y \<and>
      (case y of None \<Rightarrow> True | Some v \<Rightarrow> length v = 6 \<and> authorization_text_is_valid v)" for m y
    by (subst opt) (auto simp: code_eq_Inr split: option.splits)
  have iad: "(\<exists>x. m = Inr x \<and> opt_traverse parse_issuer_authentication_data x = Inr y) \<longleftrightarrow> m = Inr y \<and>
      (case y of None \<Rightarrow> True | Some v \<Rightarrow> 8 \<le> length v \<and> length v \<le> 16)" for m y
    by (subst opt) (auto simp: issuer_auth_eq_Inr split: option.splits)
  show ?thesis
    unfolding steps arc code iad collect_scripts_iff scripts reject_unsupported_iff host_response_ok_def
      list_all_iff [symmetric]
    by blast
qed

text \<open>Executing issuer scripts records in the TSI that scripts were processed exactly when there was a
  command, and sets the failure bit of the phase exactly when some command was not answered with
  9000; no other bit changes.\<close>

theorem apply_script_results_bits:
  "let out = apply_script_results phase results t i;
       failed = list_ex (\<lambda>r. (scr_sw1 r, scr_sw2 r) \<noteq> (0x90, 0x00)) results;
       failure_bit = (case phase of BeforeFinalGenerateAc \<Rightarrow> B5_SCRIPT_PROCESSING_FAILED_BEFORE_FINAL_GAC
                      | AfterFinalGenerateAc \<Rightarrow> B5_SCRIPT_PROCESSING_FAILED_AFTER_FINAL_GAC)
   in ses_results out = results \<and>
      (tvr_is_set (ses_tvr out) b \<longleftrightarrow>
         tvr_is_set t b \<or> failed \<and> bit_hits TVR_ALLOWED_MASKS failure_bit b) \<and>
      (tsi_is_set (ses_tsi out) b \<longleftrightarrow>
         tsi_is_set i b \<or> results \<noteq> [] \<and> bit_hits TSI_ALLOWED_MASKS SCRIPT_PROCESSING_PERFORMED b)"
  by (cases phase) (auto simp: apply_script_results_def Let_def tvr.is_set_set tsi.is_set_set)

end
