(* ===== verification/Emv_Afl.thy ===== *)
theory Emv_Afl
  imports Emv_Apdu
begin

text \<open>
  The application file locator (\<open>src/src/afl.rs\<close>): which records the card asks the terminal to
  read, in which order, and which of them are signed.
\<close>

unbundle bit_operations_syntax

definition MAX_AFL_BYTES :: nat where "MAX_AFL_BYTES = 252"
definition MAX_AFL_ENTRIES :: nat where "MAX_AFL_ENTRIES = MAX_AFL_BYTES div 4"
definition MAX_RECORD_LOCATORS :: nat where "MAX_RECORD_LOCATORS = 256"

record afl_entry =
  afl_sfi :: byte
  first_record :: byte
  last_record :: byte
  offline_auth_record_count :: byte

definition record_count :: "afl_entry \<Rightarrow> byte" where
  "record_count e = last_record e - first_record e + 1"

record record_locator =
  loc_sfi :: byte
  loc_record :: byte
  contributes_to_offline_auth :: bool

text \<open>The body of the loop over the four-byte chunks.\<close>

definition parse_afl_chunk :: "bytes \<Rightarrow> afl_entry krn_result" where
  "parse_afl_chunk chunk =
     (let sfi = drop_bit 3 (chunk ! 0); fr = chunk ! 1; lr = chunk ! 2; count = chunk ! 3 in
      if chunk ! 0 AND 0x07 \<noteq> 0 \<or> sfi = 0 \<or> sfi > 30 \<or> fr = 0 \<or> lr < fr then Inl ParseError
      else if count > lr - fr + 1 then Inl ParseError
      else Inr \<lparr>afl_sfi = sfi, first_record = fr, last_record = lr,
                offline_auth_record_count = count\<rparr>)"

definition parse_afl :: "bytes \<Rightarrow> afl_entry list krn_result" where
  "parse_afl input =
     (if input = [] \<or> length input mod 4 \<noteq> 0 then Inl ParseError
      else if length input div 4 > MAX_AFL_ENTRIES then Inl LengthOverflow
      else rmapM parse_afl_chunk (chunks_exact 4 input))"

definition plan_record :: "afl_entry \<Rightarrow> record_locator list \<Rightarrow> byte \<Rightarrow> record_locator list krn_result" where
  "plan_record e out index =
     (if length out \<ge> MAX_RECORD_LOCATORS then Inl LengthOverflow
      else let rec = first_record e + index in
        if list_ex (\<lambda>l. loc_sfi l = afl_sfi e \<and> loc_record l = rec) out then Inl ParseError
        else Inr (out @ [\<lparr>loc_sfi = afl_sfi e, loc_record = rec,
                          contributes_to_offline_auth = (index < offline_auth_record_count e)\<rparr>]))"

definition record_plan :: "afl_entry list \<Rightarrow> record_locator list krn_result" where
  "record_plan entries =
     rfold (\<lambda>out e. rfold (plan_record e) out (map word_of_nat [0..<unat (record_count e)])) [] entries"

definition read_record_commands :: "afl_entry list \<Rightarrow> command_apdu list krn_result" where
  "read_record_commands entries =
     rbind (record_plan entries) (rmapM (\<lambda>l. read_record (loc_record l) (loc_sfi l)))"

section \<open>Parsing\<close>

definition encode_afl_entry :: "afl_entry \<Rightarrow> bytes" where
  "encode_afl_entry e =
     [push_bit 3 (afl_sfi e), first_record e, last_record e, offline_auth_record_count e]"

definition wf_afl_entry :: "afl_entry \<Rightarrow> bool" where
  "wf_afl_entry e \<longleftrightarrow> 0 < afl_sfi e \<and> afl_sfi e \<le> 30 \<and> 0 < first_record e \<and>
     first_record e \<le> last_record e \<and>
     unat (offline_auth_record_count e) \<le> unat (last_record e) + 1 - unat (first_record e)"

lemma sfi_byte: "(b :: byte) AND 0x07 = 0 \<and> drop_bit 3 b = sfi \<longleftrightarrow> sfi < 32 \<and> b = push_bit 3 sfi"
proof -
  have "\<forall>n\<in>set [0..<256]. (\<lambda>b. b AND 0x07 = 0 \<longrightarrow> drop_bit 3 b < 32 \<and> b = push_bit 3 (drop_bit 3 b))
      (word_of_nat n :: byte)" by code_simp
  from byte_exhaust [OF this, of b]
  have a: "b AND 0x07 = 0 \<longrightarrow> drop_bit 3 b < 32 \<and> b = push_bit 3 (drop_bit 3 b)" .
  have "\<forall>n\<in>set [0..<256]. (\<lambda>s. s < 32 \<longrightarrow> push_bit 3 s AND 0x07 = 0 \<and> drop_bit 3 (push_bit 3 s) = s)
      (word_of_nat n :: byte)" by code_simp
  from byte_exhaust [OF this, of sfi]
  have b: "sfi < 32 \<longrightarrow> push_bit 3 sfi AND 0x07 = 0 \<and> drop_bit 3 (push_bit 3 sfi) = sfi" .
  from a b show ?thesis by auto
qed

lemma unat_record_count:
  "fr \<le> lr \<Longrightarrow> 0 < fr \<Longrightarrow> unat (lr - fr + 1 :: byte) = unat lr + 1 - unat fr"
proof -
  assume a: "fr \<le> lr" "0 < fr"
  then have s: "unat (lr - fr) = unat lr - unat fr" by (simp add: unat_sub)
  have "unat lr - unat fr + 1 < 256"
    using a unat_byte_less [of lr] by (simp add: word_less_nat_alt del: unat_byte_less)
  then show ?thesis using a s by (simp add: unat_word_ariths word_le_nat_alt)
qed

lemma parse_afl_chunk_iff:
  "length chunk = 4 \<Longrightarrow>
     parse_afl_chunk chunk = Inr e \<longleftrightarrow> wf_afl_entry e \<and> chunk = encode_afl_entry e"
proof -
  assume "length chunk = 4"
  then obtain b fr lr count where chunk: "chunk = [b, fr, lr, count]"
    by (auto simp: numeral_eq_Suc length_Suc_conv)
  have le: "sfi \<le> 30 \<Longrightarrow> sfi < 32" for sfi :: byte by (simp add: word_le_nat_alt word_less_nat_alt)
  have i: "chunk ! 2 = lr" "chunk ! 3 = count" by (simp_all add: chunk numeral_eq_Suc)
  have "fr \<le> lr \<Longrightarrow> fr \<noteq> 0 \<Longrightarrow>
      count \<le> lr - fr + 1 \<longleftrightarrow> unat count \<le> unat lr + 1 - unat fr"
    by (simp only: word_le_nat_alt unat_record_count word_gt_0)
  then show ?thesis
    using le [of "afl_sfi e"] sfi_byte [of b "drop_bit 3 b"] sfi_byte [of b "afl_sfi e"]
    by (cases e) (auto simp: parse_afl_chunk_def Let_def i chunk wf_afl_entry_def encode_afl_entry_def
        not_less not_le word_gt_0 simp del: unat_byte_less)
qed

lemma length_encode_afl_entry [simp]: "length (encode_afl_entry e) = 4"
  by (simp add: encode_afl_entry_def)

lemma parse_afl_eq_Inr:
  "parse_afl input = Inr es \<longleftrightarrow>
     es \<noteq> [] \<and> length es \<le> 63 \<and> list_all wf_afl_entry es \<and> input = concat (map encode_afl_entry es)"
proof -
  let ?R = "\<lambda>chunk e. parse_afl_chunk chunk = Inr e"
  have enc: "rmapM parse_afl_chunk (map encode_afl_entry es) = Inr es \<longleftrightarrow> list_all wf_afl_entry es" for es
    by (simp add: rmapM_eq_Inr_list_all2 list_all2_map1 list_all2_same list_all_iff parse_afl_chunk_iff)
  have len: "length (concat (map encode_afl_entry es)) = 4 * length es" for es
    by (induction es) simp_all
  have chunks: "chunks_exact 4 (concat (map encode_afl_entry es)) = map encode_afl_entry es" for es
    by (rule chunks_exact_concat) auto
  show ?thesis
  proof
    assume p: "parse_afl input = Inr es"
    then have m: "rmapM parse_afl_chunk (chunks_exact 4 input) = Inr es"
      and i: "input \<noteq> []" "4 dvd length input" "length input div 4 \<le> 63"
      by (auto simp: parse_afl_def MAX_AFL_ENTRIES_def MAX_AFL_BYTES_def split: if_splits)
    from m have "chunks_exact 4 input = map encode_afl_entry es"
      by (auto simp: rmapM_eq_Inr_list_all2 list_all2_conv_all_nth parse_afl_chunk_iff
          chunks_exact_lengths [OF nth_mem] intro!: nth_equalityI)
    moreover have "concat (chunks_exact 4 input) = input" using i by (simp add: concat_chunks_exact)
    ultimately have "input = concat (map encode_afl_entry es)" by simp
    with m i show "es \<noteq> [] \<and> length es \<le> 63 \<and> list_all wf_afl_entry es \<and>
        input = concat (map encode_afl_entry es)"
      by (auto simp: chunks enc len)
  next
    assume "es \<noteq> [] \<and> length es \<le> 63 \<and> list_all wf_afl_entry es \<and>
        input = concat (map encode_afl_entry es)"
    then show "parse_afl input = Inr es"
      by (auto simp: parse_afl_def chunks enc len MAX_AFL_ENTRIES_def MAX_AFL_BYTES_def
          simp del: concat_eq_Nil_conv dest: arg_cong [of _ _ length])
  qed
qed

section \<open>The order in which records are read\<close>

definition locator_of :: "afl_entry \<Rightarrow> byte \<Rightarrow> record_locator" where
  "locator_of e index =
     \<lparr>loc_sfi = afl_sfi e, loc_record = first_record e + index,
      contributes_to_offline_auth = (index < offline_auth_record_count e)\<rparr>"

definition entry_locators :: "afl_entry \<Rightarrow> record_locator list" where
  "entry_locators e = map (\<lambda>k. locator_of e (word_of_nat k)) [0..<unat (record_count e)]"

definition locator_key :: "record_locator \<Rightarrow> byte \<times> byte" where
  "locator_key l = (loc_sfi l, loc_record l)"

definition add_locator :: "record_locator list \<Rightarrow> record_locator \<Rightarrow> record_locator list krn_result" where
  "add_locator out l =
     (if length out \<ge> 256 then Inl LengthOverflow
      else if locator_key l \<in> set (map locator_key out) then Inl ParseError
      else Inr (out @ [l]))"

lemma plan_record_eq: "plan_record e out index = add_locator out (locator_of e index)"
proof -
  have "list_ex (\<lambda>l. loc_sfi l = sfi \<and> loc_record l = r) out \<longleftrightarrow> (sfi, r) \<in> set (map locator_key out)"
    for sfi r by (auto simp: list_ex_iff locator_key_def image_iff)
  then show ?thesis
    by (simp add: plan_record_def add_locator_def locator_of_def Let_def MAX_RECORD_LOCATORS_def)
       (simp add: locator_key_def)
qed

lemma record_plan_eq: "record_plan es = rfold add_locator [] (concat (map entry_locators es))"
proof -
  have "rfold (plan_record e) out (map word_of_nat ks)
      = rfold add_locator out (map (\<lambda>k. locator_of e (word_of_nat k)) ks)" for e out ks
    by (simp add: rfold_map plan_record_eq)
  then show ?thesis by (simp only: record_plan_def rfold_concat [symmetric] entry_locators_def)
qed

lemma add_locators_iff:
  "distinct (map locator_key out) \<Longrightarrow> length out \<le> 256 \<Longrightarrow>
     rfold add_locator out ls = Inr plan \<longleftrightarrow>
     plan = out @ ls \<and> distinct (map locator_key plan) \<and> length plan \<le> 256"
proof (induction ls arbitrary: out)
  case (Cons l ls)
  show ?case
  proof (cases "length out \<ge> 256 \<or> locator_key l \<in> set (map locator_key out)")
    case False
    with Cons.prems have "distinct (map locator_key (out @ [l]))" "length (out @ [l]) \<le> 256" by auto
    from Cons.IH [OF this] False show ?thesis by (simp add: add_locator_def)
  qed (use Cons.prems in \<open>auto simp: add_locator_def\<close>)
qed auto

lemma record_plan_eq_Inr:
  "record_plan es = Inr plan \<longleftrightarrow>
     plan = concat (map entry_locators es) \<and> distinct (map locator_key plan) \<and> length plan \<le> 256"
  by (auto simp: record_plan_eq add_locators_iff)

text \<open>The locators of a well-formed entry are its records, and its first ones are the signed ones.\<close>

lemma set_entry_locators:
  assumes "wf_afl_entry e" and "l \<in> set (entry_locators e)"
  shows "loc_sfi l = afl_sfi e \<and> first_record e \<le> loc_record l \<and> loc_record l \<le> last_record e"
proof -
  from assms have c: "unat (record_count e) = unat (last_record e) + 1 - unat (first_record e)"
    by (simp add: wf_afl_entry_def record_count_def unat_record_count)
  from assms(2) obtain k where k: "k < unat (record_count e)" "l = locator_of e (word_of_nat k)"
    by (auto simp: entry_locators_def)
  have le: "unat (first_record e) \<le> unat (last_record e)" using assms(1) by (simp add: wf_afl_entry_def word_le_nat_alt)
  with k(1) c unat_byte_less [of "last_record e"] have s: "unat (first_record e) + k \<le> unat (last_record e)" "k < 256"
    by linarith+
  then have "unat (first_record e + word_of_nat k) = unat (first_record e) + k"
    using unat_byte_less [of "last_record e"]
    by (simp add: unat_word_ariths unat_of_nat_byte del: unat_byte_less)
  with k s show ?thesis by (simp add: locator_of_def word_le_nat_alt)
qed

lemma count_signed_locators:
  assumes "wf_afl_entry e"
  shows "length (filter contributes_to_offline_auth (entry_locators e)) =
    unat (offline_auth_record_count e)"
proof -
  let ?n = "unat (record_count e)" and ?m = "unat (offline_auth_record_count e)"
  have n: "?m \<le> ?n" "?n \<le> 256" using assms unat_byte_less [of "record_count e"]
    by (auto simp: wf_afl_entry_def record_count_def unat_record_count simp del: unat_byte_less)
  have "filter (\<lambda>k. contributes_to_offline_auth (locator_of e (word_of_nat k))) [0..<?n]
      = filter (\<lambda>k. k < ?m) [0..<?n]"
    using n by (intro filter_cong) (auto simp: locator_of_def word_less_nat_alt unat_of_nat_byte)
  moreover have "filter (\<lambda>k. k < ?m) [0..<?n] = [0..<?m]"
  proof -
    have "[0..<?n] = [0..<?m] @ [?m..<?n]" using n(1) upt_add_eq_append [of 0 ?m "?n - ?m"] by simp
    then show ?thesis by (simp add: filter_empty_conv)
  qed
  ultimately show ?thesis by (simp add: entry_locators_def filter_map comp_def)
qed

text \<open>The locator parser accepts exactly the concatenations of one to 63 well-formed entries: SFI 1
  to 30 with the low bits clear, a nonempty record range starting at 1 or later, and no more
  signed records than the range has.\<close>

theorem parse_afl_iff:
  "parse_afl input = Inr es \<longleftrightarrow>
     es \<noteq> [] \<and> length es \<le> 63 \<and> list_all wf_afl_entry es \<and> input = concat (map encode_afl_entry es)"
  by (rule parse_afl_eq_Inr)

text \<open>C34: The read plan of a parsed locator lists the records of every entry in order, no record twice
  and at most 256, marks as signed as many as the locator says, and every READ RECORD command of
  it can be built: it names the record in P1 and the file in the upper five bits of P2.\<close>

theorem read_record_plan:
  assumes "parse_afl input = Inr es" and "record_plan es = Inr plan"
  shows "plan = concat (map entry_locators es) \<and> distinct (map locator_key plan) \<and> length plan \<le> 256 \<and>
    length (filter contributes_to_offline_auth plan) =
      sum_list (map (\<lambda>e. unat (offline_auth_record_count e)) es) \<and>
    read_record_commands es = Inr (map (\<lambda>l.
      \<lparr>apdu_cla = 0x00, apdu_ins = 0xb2, apdu_p1 = loc_record l, apdu_p2 = push_bit 3 (loc_sfi l) OR 0x04,
       apdu_data = [], apdu_le = Some 0x00\<rparr>) plan)"
proof -
  from assms have wf: "list_all wf_afl_entry es" by (simp add: parse_afl_eq_Inr)
  from assms have plan: "plan = concat (map entry_locators es)" by (simp add: record_plan_eq_Inr)
  have "length (filter contributes_to_offline_auth (concat (map entry_locators es))) =
      sum_list (map (\<lambda>e. unat (offline_auth_record_count e)) es)"
    using wf by (induction es) (simp_all add: count_signed_locators)
  moreover have "read_record_commands es = Inr (map (\<lambda>l.
      \<lparr>apdu_cla = 0x00, apdu_ins = 0xb2, apdu_p1 = loc_record l, apdu_p2 = push_bit 3 (loc_sfi l) OR 0x04,
       apdu_data = [], apdu_le = Some 0x00\<rparr>) plan)"
  proof (simp add: read_record_commands_def assms(2), rule rmapM_total)
    fix l assume "l \<in> set plan"
    then obtain e where "e \<in> set es" "l \<in> set (entry_locators e)" by (auto simp: plan)
    with wf set_entry_locators [of e l] have "wf_afl_entry e" "loc_sfi l = afl_sfi e"
      "first_record e \<le> loc_record l" by (auto simp: list_all_iff)
    then have "loc_record l \<noteq> 0" "loc_sfi l \<noteq> 0" "\<not> loc_sfi l > 30"
      by (auto simp: wf_afl_entry_def)
    then show "read_record (loc_record l) (loc_sfi l) = Inr
      \<lparr>apdu_cla = 0x00, apdu_ins = 0xb2, apdu_p1 = loc_record l, apdu_p2 = push_bit 3 (loc_sfi l) OR 0x04,
       apdu_data = [], apdu_le = Some 0x00\<rparr>"
      by (simp add: read_record_def)
  qed
  moreover have "distinct (map locator_key plan) \<and> length plan \<le> 256"
    using assms(2) unfolding record_plan_eq_Inr by blast
  ultimately show ?thesis by (simp add: plan)
qed

lemma read_record_plan_witness:
  "read_record_commands [\<lparr>afl_sfi = 1, first_record = 1, last_record = 2, offline_auth_record_count = 1\<rparr>] =
     Inr [\<lparr>apdu_cla = 0x00, apdu_ins = 0xb2, apdu_p1 = 1, apdu_p2 = 0x0c, apdu_data = [], apdu_le = Some 0x00\<rparr>,
          \<lparr>apdu_cla = 0x00, apdu_ins = 0xb2, apdu_p1 = 2, apdu_p2 = 0x0c, apdu_data = [], apdu_le = Some 0x00\<rparr>]"
proof -
  let ?es = "[\<lparr>afl_sfi = 1, first_record = 1, last_record = 2, offline_auth_record_count = 1\<rparr>]"
  have p: "parse_afl [0x08, 1, 2, 1] = Inr ?es" by code_simp
  have r: "record_plan ?es = Inr [\<lparr>loc_sfi = 1, loc_record = 1, contributes_to_offline_auth = True\<rparr>,
      \<lparr>loc_sfi = 1, loc_record = 2, contributes_to_offline_auth = False\<rparr>]"
    by code_simp
  from read_record_plan [OF p r] show ?thesis by simp
qed

end
