(* ===== verification/Emv_Gpo.thy ===== *)
theory Emv_Gpo
  imports Emv_Afl
begin

text \<open>
  GET PROCESSING OPTIONS (\<open>src/src/gpo.rs\<close>): the PDOL found in the application's FCI, and the
  two response formats, a constructed template 77 of data objects or a primitive template 80
  holding the profile followed by the locator.
\<close>

datatype gpo_response_format = Template77 | Template80

record gpo_response =
  gpo_format :: gpo_response_format
  gpo_aip :: arr2
  gpo_afl :: "afl_entry list"

text \<open>One turn of the loop over the FCI template's children.\<close>

definition pdol_step :: "bytes option \<Rightarrow> tlv \<Rightarrow> bytes option krn_result" where
  "pdol_step found_pdol child =
     (if tlv_tag child \<noteq> [0xa5] \<or> \<not> tlv_constructed child then Inr found_pdol
      else rbind (find_unique_direct (tlv_children child) [0x9f, 0x38]) (\<lambda>pdol.
        case pdol of
          None \<Rightarrow> Inr found_pdol
        | Some pdol \<Rightarrow> if found_pdol \<noteq> None then Inl ParseError else Inr (Some pdol)))"

definition parse_pdol_from_fci :: "bytes \<Rightarrow> dol_entry list krn_result" where
  "parse_pdol_from_fci fci =
     rbind (parse_many fci) (\<lambda>parsed.
       if length parsed \<noteq> 1 \<or> tlv_tag (parsed ! 0) \<noteq> [0x6f] \<or> \<not> tlv_constructed (parsed ! 0)
       then Inl MissingMandatoryTag
       else rbind (rfold pdol_step None (tlv_children (parsed ! 0))) (\<lambda>found.
         case found of Some pdol \<Rightarrow> parse_dol pdol | None \<Rightarrow> Inr []))"

definition fixed_aip :: "bytes \<Rightarrow> arr2 krn_result" where
  "fixed_aip v = rmap aip_raw (aip_parse v)"

definition reject_constructed_template_77_children :: "tlv list \<Rightarrow> unit krn_result" where
  "reject_constructed_template_77_children children =
     (if list_ex tlv_constructed children then Inl ParseError else Inr ())"

definition parse_template_77 :: "tlv list \<Rightarrow> gpo_response krn_result" where
  "parse_template_77 children =
     rbind (reject_constructed_template_77_children children) (\<lambda>_.
       rbind (find_unique_direct children [0x82]) (\<lambda>aip_opt.
       rbind (ok_or aip_opt MissingMandatoryTag) (\<lambda>aip_value.
       rbind (fixed_aip aip_value) (\<lambda>aip.
       rbind (find_unique_direct children [0x94]) (\<lambda>afl_opt.
       rbind (ok_or afl_opt MissingMandatoryTag) (\<lambda>afl_value.
       rbind (parse_afl afl_value) (\<lambda>afl.
         Inr \<lparr>gpo_format = Template77, gpo_aip = aip, gpo_afl = afl\<rparr>)))))))"

definition parse_template_80 :: "bytes \<Rightarrow> gpo_response krn_result" where
  "parse_template_80 v =
     (if length v \<le> 2 then Inl MissingMandatoryTag
      else rbind (fixed_aip (take 2 v)) (\<lambda>aip.
        rbind (parse_afl (drop 2 v)) (\<lambda>afl.
          Inr \<lparr>gpo_format = Template80, gpo_aip = aip, gpo_afl = afl\<rparr>)))"

definition parse_gpo_response :: "bytes \<Rightarrow> gpo_response krn_result" where
  "parse_gpo_response body =
     rbind (parse_many body) (\<lambda>parsed.
       if length parsed \<noteq> 1 then Inl MissingMandatoryTag
       else if tlv_tag (parsed ! 0) = [0x77] then parse_template_77 (tlv_children (parsed ! 0))
       else if tlv_tag (parsed ! 0) = [0x80] then parse_template_80 (tlv_value (parsed ! 0))
       else Inl MissingMandatoryTag)"

lemma fixed_aip_eq_Inr [krn_simps]: "fixed_aip v = Inr aip \<longleftrightarrow> v = list2 aip"
  by (auto simp: fixed_aip_def krn_simps aip_parse_eq_Inr intro: exI [of _ "\<lparr>aip_raw = aip\<rparr>"])

text \<open>The body of a template-80 answer with a given profile and locator.\<close>

definition template_80_body :: "arr2 \<Rightarrow> afl_entry list \<Rightarrow> bytes" where
  "template_80_body aip afl =
     (let v = list2 aip @ concat (map encode_afl_entry afl) in 0x80 # canonical_length (length v) @ v)"

definition wf_afl :: "afl_entry list \<Rightarrow> bool" where
  "wf_afl afl \<longleftrightarrow> afl \<noteq> [] \<and> length afl \<le> 63 \<and> list_all wf_afl_entry afl"

lemma parse_template_80_eq_Inr:
  "parse_template_80 v = Inr r \<longleftrightarrow>
     gpo_format r = Template80 \<and> wf_afl (gpo_afl r) \<and>
     v = list2 (gpo_aip r) @ concat (map encode_afl_entry (gpo_afl r))"
proof -
  have l: "length (concat (map encode_afl_entry afl)) = 4 * length afl" for afl
    by (induction afl) simp_all
  have t: "take 2 v = list2 aip \<and> drop 2 v = w \<longleftrightarrow> v = list2 aip @ w" for aip w
    using append_eq_conv_conj [of "list2 aip" w v] by auto
  have "parse_template_80 v = Inr r \<longleftrightarrow> gpo_format r = Template80 \<and> 2 < length v \<and>
      take 2 v = list2 (gpo_aip r) \<and> parse_afl (drop 2 v) = Inr (gpo_afl r)"
    by (cases r) (auto simp: parse_template_80_def krn_simps)
  also have "\<dots> \<longleftrightarrow> gpo_format r = Template80 \<and> 2 < length v \<and> wf_afl (gpo_afl r) \<and>
      take 2 v = list2 (gpo_aip r) \<and> drop 2 v = concat (map encode_afl_entry (gpo_afl r))"
    by (auto simp: parse_afl_eq_Inr wf_afl_def)
  finally show ?thesis
    by (auto simp: t wf_afl_def l)
qed

lemma parse_template_77_eq_Inr:
  "parse_template_77 cs = Inr r \<longleftrightarrow>
     gpo_format r = Template77 \<and> \<not> list_ex tlv_constructed cs \<and> wf_afl (gpo_afl r) \<and>
     find_unique_direct cs [0x82] = Inr (Some (list2 (gpo_aip r))) \<and>
     find_unique_direct cs [0x94] = Inr (Some (concat (map encode_afl_entry (gpo_afl r))))"
  by (cases r) (auto simp: parse_template_77_def reject_constructed_template_77_children_def krn_simps
      parse_afl_eq_Inr wf_afl_def split: if_splits)

lemma length_1_conv: "length xs = 1 \<longleftrightarrow> (\<exists>x. xs = [x])"
  by (auto simp: length_Suc_conv)

text \<open>A GPO answer is accepted exactly when it is one well-formed data object in one of the two formats: a
  template 77 whose children are all primitive and hold one profile (tag 82) and one locator
  (tag 94), or a template 80 holding the profile followed by the locator; the result carries
  exactly the profile and the entries that were encoded, and the locator is well formed.\<close>

theorem parse_gpo_response_iff:
  "parse_gpo_response body = Inr r \<longleftrightarrow>
     (\<exists>t. wf_forest 0 [t] \<and> forest_nodes [t] \<le> 512 \<and> body = encode_forest [t] \<and>
        wf_afl (gpo_afl r) \<and>
        (case gpo_format r of
           Template77 \<Rightarrow>
             tlv_tag t = [0x77] \<and> \<not> list_ex tlv_constructed (tlv_children t) \<and>
             find_unique_direct (tlv_children t) [0x82] = Inr (Some (list2 (gpo_aip r))) \<and>
             find_unique_direct (tlv_children t) [0x94] =
               Inr (Some (concat (map encode_afl_entry (gpo_afl r))))
         | Template80 \<Rightarrow>
             tlv_tag t = [0x80] \<and>
             tlv_value t = list2 (gpo_aip r) @ concat (map encode_afl_entry (gpo_afl r))))"
  (is "_ \<longleftrightarrow> ?r")
proof
  assume "parse_gpo_response body = Inr r"
  then obtain t where t: "parse_many body = Inr [t]" and
    "tlv_tag t = [0x77] \<and> parse_template_77 (tlv_children t) = Inr r \<or>
     tlv_tag t = [0x80] \<and> parse_template_80 (tlv_value t) = Inr r"
    by (auto simp: parse_gpo_response_def krn_simps length_1_conv [unfolded One_nat_def] split: if_splits)
  then show ?r
    by (intro exI [of _ t]) (auto simp: parse_many_eq_Inr parse_template_77_eq_Inr parse_template_80_eq_Inr)
next
  assume ?r
  then obtain t where t: "parse_many body = Inr [t]" and
    "tlv_tag t = [0x77] \<and> parse_template_77 (tlv_children t) = Inr r \<or>
     tlv_tag t = [0x80] \<and> parse_template_80 (tlv_value t) = Inr r"
    by (cases "gpo_format r") (auto simp: parse_many_eq_Inr parse_template_77_eq_Inr parse_template_80_eq_Inr)
  then show "parse_gpo_response body = Inr r"
    by (auto simp: parse_gpo_response_def)
qed

end
