(* ===== verification/Emv_Fsm.thy ===== *)
theory Emv_Fsm
  imports Emv_Error "HOL-Library.Sublist"
begin

text \<open>
  The transaction state machine (\<open>src/src/fsm.rs\<close>): its states, events and actions, the transition
  table, runs from the idle state, and the validation of the state machine annex, a CSV table
  that documents the transitions.
\<close>

section \<open>States, events and actions\<close>

datatype fsm_state =
  S0 | S1 | S2 | S2AidList | S2SelectAid | S3 | S4 | S4Next | S5 | S5Cda | S6 | S7 | S7Retry | S8
  | S9 | S10 | S11 | S12 | S13 | S13Script | S14 | S15 | S15Script | S16 | Se

fun fsm_state_code :: "fsm_state \<Rightarrow> nat" where
  "fsm_state_code S0 = 0"
| "fsm_state_code S1 = 1"
| "fsm_state_code S2 = 2"
| "fsm_state_code S2AidList = 3"
| "fsm_state_code S2SelectAid = 4"
| "fsm_state_code S3 = 5"
| "fsm_state_code S4 = 6"
| "fsm_state_code S4Next = 7"
| "fsm_state_code S5 = 8"
| "fsm_state_code S5Cda = 9"
| "fsm_state_code S6 = 10"
| "fsm_state_code S7 = 11"
| "fsm_state_code S7Retry = 12"
| "fsm_state_code S8 = 13"
| "fsm_state_code S9 = 14"
| "fsm_state_code S10 = 15"
| "fsm_state_code S11 = 16"
| "fsm_state_code S12 = 17"
| "fsm_state_code S13 = 18"
| "fsm_state_code S13Script = 19"
| "fsm_state_code S14 = 20"
| "fsm_state_code S15 = 21"
| "fsm_state_code S16 = 22"
| "fsm_state_code S15Script = 23"
| "fsm_state_code Se = 255"

datatype fsm_event =
  EvSetTransactionParams | EvCardDetected | EvCardDetectionTimeout | EvPseSelected | EvPseNotFound
  | EvCandidateAidAvailable | EvNoCandidateLeft | EvAidSelected | EvAidNotSupported
  | EvGpoTemplate77 | EvGpoTemplate80 | EvGpoFailed | EvRecordRead | EvEndOfRecords
  | EvRecordReadFailed | EvMoreAflEntries | EvAflComplete | EvOdaSuccess | EvOdaFailure
  | EvRestrictionsEvaluated | EvCvmSuccess | EvCvmRetryPossible | EvCvmFailureNoRetry
  | EvCvmRetryAvailable | EvCvmRetryExceeded | EvTrmEvaluated | EvTaaArqc | EvTaaTc | EvTaaAac
  | EvGacArqc | EvGacTc | EvGacAac | EvGacCda | EvGacFailed | EvCdaSuccess | EvCdaFailure
  | EvHostArpc | EvHostApprovalNoArpc | EvHostTimeout | EvIssuerAuthenticationSuccess
  | EvIssuerAuthenticationFailure | EvGac2Tc | EvGac2Aac | EvGac2Failed | EvScriptAvailable
  | EvNoMoreScripts | EvScriptSuccess | EvScriptNonCriticalFailure | EvScriptCriticalFailure
  | EvFinalGenerateAcSkipped | EvFinalOutcomeComplete | EvErrorReset | EvCardRemoved
  | EvApduTimeout | EvCallbackFailure

datatype fsm_action =
  DoStoreTransactionParams | DoStartSelection | DoRetryDetection | DoBuildCandidateList
  | DoSelectNextAid | DoSetNoCommonAid | DoBuildGpo | DoReadRecords | DoStartOda
  | DoSetIccDataMissing | DoContinueAfl | DoRecordOdaResult | DoEvaluateRestrictions
  | DoEvaluateCvm | DoRetryCvm | DoEvaluateTrm | DoRunTaa | DoRequestFirstGenerateAc
  | DoBuildHostRequest | DoOfflineApprove | DoOfflineDecline | DoVerifyCda | DoProcessArpc
  | DoProcessIssuerScripts | DoRequestFinalGenerateAc | DoProcessPostFinalIssuerScripts
  | DoFinalOutcome | DoReset | DoError

record transition =
  tr_from :: fsm_state
  tr_event :: fsm_event
  tr_to :: fsm_state
  tr_action :: fsm_action
  tr_error :: kernel_error

text \<open>The arms of the match that name a state, in the order of the source.\<close>

definition TRANSITIONS :: "((fsm_state \<times> fsm_event) \<times> fsm_state \<times> fsm_action \<times> kernel_error) list" where
  "TRANSITIONS =
     [((S0, EvSetTransactionParams), S1, DoStoreTransactionParams, Ok),
      ((S1, EvCardDetected), S2, DoStartSelection, Ok),
      ((S1, EvCardDetectionTimeout), S1, DoRetryDetection, Ok),
      ((S2, EvPseSelected), S2AidList, DoBuildCandidateList, Ok),
      ((S2, EvPseNotFound), S2AidList, DoBuildCandidateList, Ok),
      ((S2AidList, EvCandidateAidAvailable), S2SelectAid, DoSelectNextAid, Ok),
      ((S2AidList, EvNoCandidateLeft), Se, DoSetNoCommonAid, NoCommonAid),
      ((S2SelectAid, EvAidSelected), S3, DoBuildGpo, Ok),
      ((S2SelectAid, EvAidNotSupported), S2AidList, DoBuildCandidateList, Ok),
      ((S3, EvGpoTemplate77), S4, DoReadRecords, Ok),
      ((S3, EvGpoTemplate80), S5, DoStartOda, Ok),
      ((S3, EvGpoFailed), Se, DoError, MissingMandatoryTag),
      ((S4, EvRecordRead), S4Next, DoContinueAfl, Ok),
      ((S4, EvEndOfRecords), S5, DoStartOda, Ok),
      ((S4, EvRecordReadFailed), S5, DoSetIccDataMissing, Ok),
      ((S4Next, EvMoreAflEntries), S4, DoReadRecords, Ok),
      ((S4Next, EvAflComplete), S5, DoStartOda, Ok),
      ((S5, EvOdaSuccess), S6, DoRecordOdaResult, Ok),
      ((S5, EvOdaFailure), S6, DoRecordOdaResult, Ok),
      ((S6, EvRestrictionsEvaluated), S7, DoEvaluateCvm, Ok),
      ((S7, EvCvmSuccess), S8, DoEvaluateTrm, Ok),
      ((S7, EvCvmFailureNoRetry), S8, DoEvaluateTrm, Ok),
      ((S7, EvCvmRetryPossible), S7Retry, DoRetryCvm, Ok),
      ((S7Retry, EvCvmRetryAvailable), S7, DoEvaluateCvm, Ok),
      ((S7Retry, EvCvmRetryExceeded), S8, DoEvaluateTrm, Ok),
      ((S8, EvTrmEvaluated), S9, DoRunTaa, Ok),
      ((S9, EvTaaArqc), S10, DoRequestFirstGenerateAc, Ok),
      ((S9, EvTaaTc), S16, DoOfflineApprove, Ok),
      ((S9, EvTaaAac), S16, DoOfflineDecline, Ok),
      ((S10, EvGacArqc), S11, DoBuildHostRequest, Ok),
      ((S10, EvGacTc), S16, DoOfflineApprove, Ok),
      ((S10, EvGacAac), S16, DoOfflineDecline, Ok),
      ((S10, EvGacCda), S5Cda, DoVerifyCda, Ok),
      ((S10, EvCdaFailure), S9, DoRunTaa, Ok),
      ((S10, EvGacFailed), Se, DoError, CardRemoved),
      ((S5Cda, EvCdaSuccess), S6, DoRecordOdaResult, Ok),
      ((S5Cda, EvCdaFailure), S6, DoRecordOdaResult, Ok),
      ((S11, EvHostArpc), S12, DoProcessArpc, Ok),
      ((S11, EvHostApprovalNoArpc), S13, DoProcessIssuerScripts, Ok),
      ((S11, EvHostTimeout), Se, DoError, HostTimeout),
      ((S12, EvIssuerAuthenticationSuccess), S13, DoProcessIssuerScripts, Ok),
      ((S12, EvIssuerAuthenticationFailure), S13, DoProcessIssuerScripts, Ok),
      ((S13, EvScriptAvailable), S13Script, DoProcessIssuerScripts, Ok),
      ((S13, EvNoMoreScripts), S14, DoRequestFinalGenerateAc, Ok),
      ((S14, EvGac2Tc), S15, DoProcessPostFinalIssuerScripts, Ok),
      ((S14, EvGac2Aac), S15, DoProcessPostFinalIssuerScripts, Ok),
      ((S14, EvFinalGenerateAcSkipped), S15, DoProcessPostFinalIssuerScripts, Ok),
      ((S14, EvGac2Failed), Se, DoError, CardRemoved),
      ((S13Script, EvScriptSuccess), S13, DoProcessIssuerScripts, Ok),
      ((S13Script, EvScriptNonCriticalFailure), S13, DoProcessIssuerScripts, Ok),
      ((S13Script, EvScriptCriticalFailure), Se, DoError, ScriptFailed),
      ((S15, EvScriptAvailable), S15Script, DoProcessPostFinalIssuerScripts, Ok),
      ((S15, EvNoMoreScripts), S16, DoFinalOutcome, Ok),
      ((S15Script, EvScriptSuccess), S15, DoProcessPostFinalIssuerScripts, Ok),
      ((S15Script, EvScriptNonCriticalFailure), S15, DoProcessPostFinalIssuerScripts, Ok),
      ((S15Script, EvScriptCriticalFailure), Se, DoError, ScriptFailed),
      ((S16, EvFinalOutcomeComplete), S0, DoReset, Ok),
      ((Se, EvErrorReset), S0, DoReset, Ok)]"

text \<open>The arms that hold in every state.\<close>

definition transition_any :: "fsm_event \<Rightarrow> (fsm_state \<times> fsm_action \<times> kernel_error) krn_result" where
  "transition_any event =
     (if event = EvCardRemoved \<or> event = EvApduTimeout then Inr (Se, DoError, CardRemoved)
      else if event = EvCallbackFailure then Inr (Se, DoError, InternalError)
      else Inl InvalidArgument)"

definition transition :: "fsm_state \<Rightarrow> fsm_event \<Rightarrow> transition krn_result" where
  "transition state event =
     rmap (\<lambda>(to_state, action, err).
         \<lparr>tr_from = state, tr_event = event, tr_to = to_state, tr_action = action, tr_error = err\<rparr>)
       (case map_of TRANSITIONS (state, event) of
          Some r \<Rightarrow> Inr r
        | None \<Rightarrow> transition_any event)"

record transaction_fsm =
  fsm_state :: fsm_state

definition fsm_new :: transaction_fsm where
  "fsm_new = \<lparr>fsm_state = S0\<rparr>"

text \<open>\<open>apply\<close> moves the machine; an event that is not allowed leaves it where it is.\<close>

definition fsm_apply :: "transaction_fsm \<Rightarrow> fsm_event \<Rightarrow> transition krn_result \<times> transaction_fsm" where
  "fsm_apply m event =
     (case transition (fsm_state m) event of
        Inl e \<Rightarrow> (Inl e, m)
      | Inr t \<Rightarrow> (Inr t, m\<lparr>fsm_state := tr_to t\<rparr>))"

section \<open>The annex\<close>

text \<open>
  The CSV text is a string of ASCII characters; \<open>trim\<close> then removes ASCII white space.
  \<open>lines\<close> ends a line at a line feed, with an optional carriage return before it.
\<close>

definition strip_cr :: "string \<Rightarrow> string" where
  "strip_cr l = (if l \<noteq> [] \<and> last l = CHR 0x0D then butlast l else l)"

fun lines_loop :: "string \<Rightarrow> string \<Rightarrow> string list" where
  "lines_loop cur [] = (if cur = [] then [] else [cur])"
| "lines_loop cur (c # cs) =
     (if c = CHR 0x0A then strip_cr cur # lines_loop [] cs else lines_loop (cur @ [c]) cs)"

definition csv_lines :: "string \<Rightarrow> string list" where
  "csv_lines s = lines_loop [] s"

definition ascii_whitespace :: "char \<Rightarrow> bool" where
  "ascii_whitespace c \<longleftrightarrow> c \<in> {CHR 0x20, CHR 0x09, CHR 0x0A, CHR 0x0B, CHR 0x0C, CHR 0x0D}"

definition str_trim :: "string \<Rightarrow> string" where
  "str_trim = trim_by ascii_whitespace"

definition trim_csv_field :: "string \<Rightarrow> string" where
  "trim_csv_field field = trim_by (\<lambda>c. c = CHR 0x22) (str_trim field)"

text \<open>The loop over the bytes of a row, with its output, the start of the field and the quote flag.\<close>

definition split_csv_step ::
    "string \<Rightarrow> string list \<times> nat \<times> bool \<Rightarrow> nat \<times> char \<Rightarrow> string list \<times> nat \<times> bool" where
  "split_csv_step row s ib = (case (s, ib) of ((out, start, in_quotes), (idx, byte)) \<Rightarrow>
     if byte = CHR 0x22 then (out, start, \<not> in_quotes)
     else if byte = CHR 0x2C \<and> \<not> in_quotes
     then (out @ [trim_csv_field (slice_of row start idx)], idx + 1, in_quotes)
     else (out, start, in_quotes))"

definition split_csv_record :: "string \<Rightarrow> string list krn_result" where
  "split_csv_record row =
     (case foldl (split_csv_step row) ([], 0, False) (enumerate 0 row) of (out, start, in_quotes) \<Rightarrow>
        if in_quotes then Inl ParseError else Inr (out @ [trim_csv_field (drop start row)]))"

definition EVENT_NAMES :: "(string \<times> fsm_event) list" where
  "EVENT_NAMES =
     [(''krn_set_transaction_params()'', EvSetTransactionParams),
      (''card_detected()'', EvCardDetected),
      (''card_detected() timeout'', EvCardDetectionTimeout),
      (''SELECT PSE returns 9000 with FCI'', EvPseSelected),
      (''SELECT PSE returns 6A82'', EvPseNotFound),
      (''candidate AID available'', EvCandidateAidAvailable),
      (''no candidate left'', EvNoCandidateLeft),
      (''SELECT returns 9000'', EvAidSelected),
      (''SELECT returns 6A82'', EvAidNotSupported),
      (''GPO returns 9000 with 77 template'', EvGpoTemplate77),
      (''GPO returns 9000 with 80 template'', EvGpoTemplate80),
      (''GPO fails (SW != 9000)'', EvGpoFailed),
      (''READ RECORD returns 9000'', EvRecordRead),
      (''READ RECORD returns 6A83'', EvEndOfRecords),
      (''READ RECORD fails (other SW)'', EvRecordReadFailed),
      (''more AFL entries'', EvMoreAflEntries),
      (''AFL complete'', EvAflComplete),
      (''ODA success'', EvOdaSuccess),
      (''ODA failure (SDA/DDA/CDA)'', EvOdaFailure),
      (''Processing restrictions ok'', EvRestrictionsEvaluated),
      (''Processing restrictions failed'', EvRestrictionsEvaluated),
      (''CVM success'', EvCvmSuccess),
      (''CVM failure (retry possible)'', EvCvmRetryPossible),
      (''CVM failure (no retry)'', EvCvmFailureNoRetry),
      (''retry count < max'', EvCvmRetryAvailable),
      (''retry count exceeded'', EvCvmRetryExceeded),
      (''TRM ok'', EvTrmEvaluated),
      (''TRM force online (floor limit/random)'', EvTrmEvaluated),
      (''TAA decision = ARQC'', EvTaaArqc),
      (''TAA decision = TC'', EvTaaTc),
      (''TAA decision = AAC'', EvTaaAac),
      (''GENERATE AC returns 9000 with ARQC'', EvGacArqc),
      (''GENERATE AC returns 9000 with TC'', EvGacTc),
      (''GENERATE AC returns 9000 with AAC'', EvGacAac),
      (''GENERATE AC returns 9000 with CDA response'', EvGacCda),
      (''GENERATE AC fails (SW != 9000)'', EvGacFailed),
      (''CDA verification success'', EvCdaSuccess),
      (''CDA verification failure'', EvCdaFailure),
      (''host_response received with tag 91 issuer authentication data'', EvHostArpc),
      (''host_response received without tag 91 issuer authentication data'', EvHostApprovalNoArpc),
      (''host_response timeout'', EvHostTimeout),
      (''EXTERNAL AUTHENTICATE returns 9000'', EvIssuerAuthenticationSuccess),
      (''EXTERNAL AUTHENTICATE fails'', EvIssuerAuthenticationFailure),
      (''issuer script available'', EvScriptAvailable),
      (''no more scripts'', EvNoMoreScripts),
      (''no more post-final scripts'', EvNoMoreScripts),
      (''script APDU returns 9000'', EvScriptSuccess),
      (''script APDU returns 62xx/63xx warning or non-critical 6xxx'', EvScriptNonCriticalFailure),
      (''script APDU returns 63xx or 6xxx'', EvScriptNonCriticalFailure),
      (''critical script failure (scheme rule)'', EvScriptCriticalFailure),
      (''GENERATE AC second returns 9000 with TC'', EvGac2Tc),
      (''GENERATE AC second returns 9000 with AAC'', EvGac2Aac),
      (''second GENERATE AC skipped'', EvFinalGenerateAcSkipped),
      (''GENERATE AC second fails'', EvGac2Failed),
      (''final outcome complete'', EvFinalOutcomeComplete),
      (''any'', EvErrorReset)]"

definition parse_event :: "string \<Rightarrow> fsm_event krn_result" where
  "parse_event v = ok_or (map_of EVENT_NAMES v) ParseError"

definition STATE_NAMES :: "(string \<times> fsm_state) list" where
  "STATE_NAMES =
     [(''S0'', S0), (''S1'', S1), (''S2'', S2), (''S2_AID_LIST'', S2AidList),
      (''S2_SELECT_AID'', S2SelectAid), (''S3'', S3), (''S4'', S4), (''S4_NEXT'', S4Next),
      (''S5'', S5), (''S5_CDA'', S5Cda), (''S6'', S6), (''S7'', S7),
      (''S7_RETRY'', S7Retry), (''S8'', S8), (''S9'', S9), (''S10'', S10),
      (''S11'', S11), (''S12'', S12), (''S13'', S13), (''S13_SCRIPT'', S13Script),
      (''S14'', S14), (''S15'', S15), (''S15_SCRIPT'', S15Script), (''S16'', S16),
      (''SE'', Se)]"

definition parse_state :: "string \<Rightarrow> fsm_state krn_result" where
  "parse_state v = ok_or (map_of STATE_NAMES v) ParseError"

definition ERROR_NAMES :: "(string \<times> kernel_error) list" where
  "ERROR_NAMES =
     [(''KRN_OK'', Ok),
      (''KRN_ERR_NO_COMMON_AID'', NoCommonAid),
      (''KRN_ERR_MISSING_MANDATORY_TAG'', MissingMandatoryTag),
      (''KRN_ERR_CARD_REMOVED'', CardRemoved),
      (''KRN_ERR_HOST_TIMEOUT'', HostTimeout),
      (''KRN_ERR_SCRIPT_FAILED'', ScriptFailed)]"

definition parse_error_code :: "string \<Rightarrow> kernel_error krn_result" where
  "parse_error_code v = ok_or (map_of ERROR_NAMES v) ParseError"

text \<open>The action names with a guard come before the plain ones they shadow.\<close>

definition ACTION_NAMES :: "(string \<times> fsm_action) list" where
  "ACTION_NAMES =
     [(''Store amount/currency'', DoStoreTransactionParams),
      (''Start PSE/PPSE selection'', DoStartSelection),
      (''Retry detection'', DoRetryDetection),
      (''Parse FCI, build candidate list'', DoBuildCandidateList),
      (''Use direct AID list'', DoBuildCandidateList),
      (''Try next candidate'', DoBuildCandidateList),
      (''SELECT next AID'', DoSelectNextAid),
      (''Set error'', DoError),
      (''Build PDOL send GPO'', DoBuildGpo),
      (''Parse AIP/AFL, start reading'', DoReadRecords),
      (''Read next record'', DoReadRecords),
      (''Use default records'', DoStartOda),
      (''All records processed'', DoStartOda),
      (''Start ODA'', DoStartOda),
      (''Store record, continue AFL loop'', DoContinueAfl),
      (''Set TVR_ICC_DATA_MISSING, continue'', DoSetIccDataMissing),
      (''Continue processing restrictions'', DoRecordOdaResult),
      (''Set TVR_CDA_FAILED'', DoRecordOdaResult),
      (''Proceed to CVM'', DoEvaluateCvm),
      (''Set TVR bits, continue'', DoEvaluateCvm),
      (''Retry CVM'', DoEvaluateCvm),
      (''Proceed to TRM'', DoEvaluateTrm),
      (''Set CVM failure bits'', DoEvaluateTrm),
      (''Increment retry counter'', DoRetryCvm),
      (''Proceed to TAA'', DoRunTaa),
      (''Set corresponding TVR bits'', DoRunTaa),
      (''Request ARQC'', DoRequestFirstGenerateAc),
      (''Offline approve'', DoOfflineApprove),
      (''Offline decline'', DoOfflineDecline),
      (''Build host request'', DoBuildHostRequest),
      (''Verify CDA signature'', DoVerifyCda),
      (''Process issuer authentication'', DoProcessArpc),
      (''Skip issuer authentication, go to scripts'', DoProcessIssuerScripts),
      (''Set issuer-authentication TSI'', DoProcessIssuerScripts),
      (''Set issuer-authentication TSI and TVR failure bit'', DoProcessIssuerScripts),
      (''Execute next script'', DoProcessIssuerScripts),
      (''Continue to next script'', DoProcessIssuerScripts),
      (''Log script failure, continue (non-critical)'', DoProcessIssuerScripts),
      (''Issue second GENERATE AC'', DoRequestFinalGenerateAc),
      (''Process post-final issuer scripts before online approve'', DoProcessPostFinalIssuerScripts),
      (''Process post-final issuer scripts before online decline'', DoProcessPostFinalIssuerScripts),
      (''Process post-final issuer scripts without card-generated final cryptogram'', DoProcessPostFinalIssuerScripts),
      (''Execute next post-final script'', DoProcessPostFinalIssuerScripts),
      (''Continue to next post-final script'', DoProcessPostFinalIssuerScripts),
      (''Log post-final script failure, continue (non-critical)'', DoProcessPostFinalIssuerScripts),
      (''Final outcome'', DoFinalOutcome),
      (''Reset kernel'', DoReset),
      (''Reset after error'', DoReset)]"

definition parse_action :: "fsm_state \<Rightarrow> fsm_event \<Rightarrow> string \<Rightarrow> fsm_action krn_result" where
  "parse_action from_state event v =
     (if v = ''Set error'' \<and> from_state = S2AidList \<and> event = EvNoCandidateLeft
      then Inr DoSetNoCommonAid
      else if (v = ''Clear ODA failure bits, set TSI'' \<or> v = ''Set corresponding TVR bits'') \<and> from_state = S5
      then Inr DoRecordOdaResult
      else ok_or (map_of ACTION_NAMES v) ParseError)"

definition ANNEX_HEADER :: "string list" where
  "ANNEX_HEADER = [''Current State'', ''Event'', ''Guard'', ''Next State'', ''Action'', ''Error Code'']"

text \<open>The body of the loop over the rows, for a row that is not blank.\<close>

definition check_annex_row :: "string \<Rightarrow> unit krn_result" where
  "check_annex_row row =
     rbind (split_csv_record row) (\<lambda>fields.
       if length fields \<noteq> 6 then Inl ParseError
       else if list_ex (\<lambda>field. field = []) fields then Inl ParseError
       else
         rbind (parse_state (fields ! 0)) (\<lambda>from_state.
         rbind (parse_event (fields ! 1)) (\<lambda>event.
         rbind (parse_state (fields ! 3)) (\<lambda>to_state.
         rbind (parse_action from_state event (fields ! 4)) (\<lambda>action.
         rbind (parse_error_code (fields ! 5)) (\<lambda>err.
         rbind (or_err ParseError (transition from_state event)) (\<lambda>expected.
           if tr_to expected \<noteq> to_state \<or> tr_action expected \<noteq> action \<or> tr_error expected \<noteq> err
           then Inl ParseError else Inr ())))))))"

definition validate_state_machine_annex :: "string \<Rightarrow> nat krn_result" where
  "validate_state_machine_annex csv =
     (case csv_lines csv of
        [] \<Rightarrow> Inl ParseError
      | header # rows \<Rightarrow>
          rbind (split_csv_record header) (\<lambda>fields.
            if fields \<noteq> ANNEX_HEADER then Inl ParseError
            else rbind (rfold (\<lambda>count row.
                if str_trim row = [] then Inr count
                else rbind (check_annex_row row) (\<lambda>_. Inr (count + 1))) 0 rows)
              (\<lambda>count. if count = 0 then Inl ParseError else Inr count)))"

section \<open>Single transitions\<close>

lemma TRANSITIONS_distinct: "distinct (map fst TRANSITIONS)"
  by (simp add: TRANSITIONS_def)

lemma transition_eq_Inr:
  "transition s e = Inr t \<longleftrightarrow> tr_from t = s \<and> tr_event t = e \<and>
     (((s, e), tr_to t, tr_action t, tr_error t) \<in> set TRANSITIONS \<or>
      map_of TRANSITIONS (s, e) = None \<and> transition_any e = Inr (tr_to t, tr_action t, tr_error t))"
proof (cases "map_of TRANSITIONS (s, e)")
  case None
  then have "((s, e), r) \<notin> set TRANSITIONS" for r by (force simp: map_of_eq_None_iff)
  with None show ?thesis by (cases t) (auto simp: transition_def krn_simps)
next
  case (Some r)
  then have "((s, e), r') \<in> set TRANSITIONS \<longleftrightarrow> r' = r" for r'
    using eq_key_imp_eq_value [OF TRANSITIONS_distinct] map_of_SomeD [OF Some] by blast
  with Some show ?thesis by (cases r; cases t) (auto simp: transition_def krn_simps)
qed

text \<open>A fact about every transition is a fact about every row and about the arms for any state.\<close>

lemma transition_rows:
  assumes "transition s e = Inr t"
    and "list_all (\<lambda>((s, e), to_state, action, err). P s e to_state action err) TRANSITIONS"
    and "\<And>s. P s EvCardRemoved Se DoError CardRemoved" "\<And>s. P s EvApduTimeout Se DoError CardRemoved"
    and "\<And>s. P s EvCallbackFailure Se DoError InternalError"
  shows "P s e (tr_to t) (tr_action t) (tr_error t)"
  using assms
  by (auto simp: transition_eq_Inr list_all_iff transition_any_def split: if_splits)

lemma any_state_row:
  "e \<in> {EvCardRemoved, EvApduTimeout, EvCallbackFailure} \<Longrightarrow> map_of TRANSITIONS (s, e) = None"
proof -
  have "list_all (\<lambda>((s, e), r). e \<notin> {EvCardRemoved, EvApduTimeout, EvCallbackFailure}) TRANSITIONS"
    by (simp add: TRANSITIONS_def)
  then show "e \<in> {EvCardRemoved, EvApduTimeout, EvCallbackFailure} \<Longrightarrow> map_of TRANSITIONS (s, e) = None"
    by (auto simp: list_all_iff map_of_eq_None_iff)
qed

section \<open>Runs\<close>

text \<open>A run of the machine from idle is the list of its transitions.\<close>

inductive fsm_run :: "transition list \<Rightarrow> fsm_state \<Rightarrow> bool" where
  idle: "fsm_run [] S0"
| step: "fsm_run ts s \<Longrightarrow> transition s e = Inr t \<Longrightarrow> fsm_run (ts @ [t]) (tr_to t)"

inductive_cases fsm_run_snocE: "fsm_run (ts @ [t]) s"

text \<open>The states visited since the machine was last idle.\<close>

definition this_attempt :: "transition list \<Rightarrow> fsm_state list" where
  "this_attempt ts = S0 # rev (takeWhile (\<lambda>s. s \<noteq> S0) (rev (map tr_to ts)))"

text \<open>The states every attempt that reaches a state has passed through, in order.\<close>

fun passed :: "fsm_state \<Rightarrow> fsm_state list" where
  "passed S0 = [S0]"
| "passed S1 = [S0, S1]"
| "passed S2 = [S0, S1, S2]"
| "passed S2AidList = [S0, S1, S2, S2AidList]"
| "passed S2SelectAid = [S0, S1, S2, S2AidList, S2SelectAid]"
| "passed S3 = [S0, S1, S2, S2AidList, S2SelectAid, S3]"
| "passed S4 = [S0, S1, S2, S2AidList, S2SelectAid, S3, S4]"
| "passed S4Next = [S0, S1, S2, S2AidList, S2SelectAid, S3, S4, S4Next]"
| "passed S5 = [S0, S1, S2, S2AidList, S2SelectAid, S3, S5]"
| "passed S6 = [S0, S1, S2, S2AidList, S2SelectAid, S3, S5, S6]"
| "passed S7 = [S0, S1, S2, S2AidList, S2SelectAid, S3, S5, S6, S7]"
| "passed S7Retry = [S0, S1, S2, S2AidList, S2SelectAid, S3, S5, S6, S7, S7Retry]"
| "passed S8 = [S0, S1, S2, S2AidList, S2SelectAid, S3, S5, S6, S7, S8]"
| "passed S9 = [S0, S1, S2, S2AidList, S2SelectAid, S3, S5, S6, S7, S8, S9]"
| "passed S10 = [S0, S1, S2, S2AidList, S2SelectAid, S3, S5, S6, S7, S8, S9, S10]"
| "passed S5Cda = [S0, S1, S2, S2AidList, S2SelectAid, S3, S5, S6, S7, S8, S9, S10, S5Cda]"
| "passed S11 = [S0, S1, S2, S2AidList, S2SelectAid, S3, S5, S6, S7, S8, S9, S10, S11]"
| "passed S12 = [S0, S1, S2, S2AidList, S2SelectAid, S3, S5, S6, S7, S8, S9, S10, S11, S12]"
| "passed S13 = [S0, S1, S2, S2AidList, S2SelectAid, S3, S5, S6, S7, S8, S9, S10, S11, S13]"
| "passed S13Script = [S0, S1, S2, S2AidList, S2SelectAid, S3, S5, S6, S7, S8, S9, S10, S11, S13, S13Script]"
| "passed S14 = [S0, S1, S2, S2AidList, S2SelectAid, S3, S5, S6, S7, S8, S9, S10, S11, S13, S14]"
| "passed S15 = [S0, S1, S2, S2AidList, S2SelectAid, S3, S5, S6, S7, S8, S9, S10, S11, S13, S14, S15]"
| "passed S15Script =
     [S0, S1, S2, S2AidList, S2SelectAid, S3, S5, S6, S7, S8, S9, S10, S11, S13, S14, S15, S15Script]"
| "passed S16 = [S0, S1, S2, S2AidList, S2SelectAid, S3, S5, S6, S7, S8, S9, S16]"
| "passed Se = [S0, Se]"

lemma passed_S0: "subseq [S0] (passed s)"
  by (cases s) simp_all

lemma passed_rows:
  "list_all (\<lambda>((s, e), s', a, err). s' = S0 \<or> passed s' = butlast (passed s') @ [s'] \<and>
     subseq (butlast (passed s')) (passed s)) TRANSITIONS"
  by (simp add: TRANSITIONS_def)

lemma passed_step:
  assumes "transition s e = Inr t" and "tr_to t \<noteq> S0"
  shows "passed (tr_to t) = butlast (passed (tr_to t)) @ [tr_to t] \<and>
    subseq (butlast (passed (tr_to t))) (passed s)"
proof -
  have "tr_to t = S0 \<or> passed (tr_to t) = butlast (passed (tr_to t)) @ [tr_to t] \<and>
     subseq (butlast (passed (tr_to t))) (passed s)"
    by (rule transition_rows [OF assms(1) passed_rows]) (simp_all add: passed_S0)
  with assms(2) show ?thesis by blast
qed

lemma this_attempt_snoc:
  "this_attempt (ts @ [t]) = (if tr_to t = S0 then [S0] else this_attempt ts @ [tr_to t])"
  by (simp add: this_attempt_def)

lemma run_passed: "fsm_run ts s \<Longrightarrow> subseq (passed s) (this_attempt ts)"
proof (induction rule: fsm_run.induct)
  case idle
  then show ?case by (simp add: this_attempt_def)
next
  case (step ts s e t)
  show ?case
  proof (cases "tr_to t = S0")
    case True
    then show ?thesis by (simp add: this_attempt_snoc)
  next
    case False
    from passed_step [OF step.hyps(2) False]
    have p: "passed (tr_to t) = butlast (passed (tr_to t)) @ [tr_to t]"
      and q: "subseq (butlast (passed (tr_to t))) (passed s)" by simp_all
    have "subseq (butlast (passed (tr_to t)) @ [tr_to t]) (this_attempt ts @ [tr_to t])"
      using subseq_order.trans [OF q step.IH] by (intro list_emb_append_mono) simp_all
    with p False show ?thesis by (simp add: this_attempt_snoc)
  qed
qed

lemma run_last: "fsm_run (ts @ [t]) s \<Longrightarrow> s = tr_to t \<and> fsm_run ts (tr_from t) \<and> transition (tr_from t) (tr_event t) = Inr t"
  by (erule fsm_run_snocE) (auto simp: transition_eq_Inr)

lemma final_outcome_row:
  "transition s e = Inr t \<Longrightarrow> tr_action t = DoFinalOutcome \<Longrightarrow> s = S15"
proof -
  assume t: "transition s e = Inr t" and a: "tr_action t = DoFinalOutcome"
  have "list_all (\<lambda>((s, e), s', a, err). a = DoFinalOutcome \<longrightarrow> s = S15) TRANSITIONS"
    by (simp add: TRANSITIONS_def)
  from transition_rows [OF t this] a show "s = S15" by simp
qed

lemma error_rows:
  "transition s e = Inr t \<Longrightarrow> (tr_to t = Se \<longleftrightarrow> tr_error t \<noteq> Ok) \<and> (tr_action t = DoReset \<longleftrightarrow> tr_to t = S0)"
proof -
  assume t: "transition s e = Inr t"
  have "list_all (\<lambda>((s, e), s', a, err). (s' = Se \<longleftrightarrow> err \<noteq> Ok) \<and> (a = DoReset \<longleftrightarrow> s' = S0)) TRANSITIONS"
    by (simp add: TRANSITIONS_def)
  from transition_rows [OF t this] show ?thesis by simp
qed

text \<open>Following the straight path to the end of a transaction, and the number of steps to it.\<close>

fun onward :: "fsm_state \<Rightarrow> fsm_event" where
  "onward S0 = EvSetTransactionParams"
| "onward S1 = EvCardDetected"
| "onward S2 = EvPseSelected"
| "onward S2AidList = EvCandidateAidAvailable"
| "onward S2SelectAid = EvAidSelected"
| "onward S3 = EvGpoTemplate77"
| "onward S4 = EvEndOfRecords"
| "onward S4Next = EvAflComplete"
| "onward S5 = EvOdaSuccess"
| "onward S5Cda = EvCdaSuccess"
| "onward S6 = EvRestrictionsEvaluated"
| "onward S7 = EvCvmSuccess"
| "onward S7Retry = EvCvmRetryExceeded"
| "onward S8 = EvTrmEvaluated"
| "onward S9 = EvTaaArqc"
| "onward S10 = EvGacArqc"
| "onward S11 = EvHostArpc"
| "onward S12 = EvIssuerAuthenticationSuccess"
| "onward S13 = EvNoMoreScripts"
| "onward S13Script = EvScriptSuccess"
| "onward S14 = EvGac2Tc"
| "onward S15 = EvNoMoreScripts"
| "onward S15Script = EvScriptSuccess"
| "onward S16 = EvFinalOutcomeComplete"
| "onward Se = EvErrorReset"



lemma onward_row:
  "transition s (onward s) = Inr \<lparr>tr_from = s, tr_event = onward s,
     tr_to = fst (the (map_of TRANSITIONS (s, onward s))),
     tr_action = fst (snd (the (map_of TRANSITIONS (s, onward s)))), tr_error = Ok\<rparr>"
  by (cases s) (simp_all add: transition_def TRANSITIONS_def)

text \<open>C10: In every run of the state machine from idle, an attempt that is in some state has passed, in this
  order, through every phase that must come before it: parameters, card detection, application
  selection, GPO, data authentication, restrictions, cardholder verification, risk management
  and action analysis; in particular an offline outcome never skips one of them, and the final
  outcome after an online authorization comes only after GENERATE AC, the host response, issuer
  scripts and the final GENERATE AC phase.\<close>

theorem phases_in_order:
  assumes "fsm_run (ts @ [t]) s"
  shows "subseq (passed s) (this_attempt (ts @ [t])) \<and>
    (tr_action t = DoFinalOutcome \<longrightarrow>
       subseq [S0, S1, S2, S2AidList, S2SelectAid, S3, S5, S6, S7, S8, S9, S10, S11, S13, S14, S15, S16]
         (this_attempt (ts @ [t])))"
proof (intro conjI impI)
  show "subseq (passed s) (this_attempt (ts @ [t]))" using assms by (rule run_passed)
  assume a: "tr_action t = DoFinalOutcome"
  from run_last [OF assms] have r: "fsm_run ts (tr_from t)" and t: "transition (tr_from t) (tr_event t) = Inr t"
    by simp_all
  from final_outcome_row [OF t a] have from_S15: "tr_from t = S15" .
  have "list_all (\<lambda>((s, e), s', a, err). a = DoFinalOutcome \<longrightarrow> s' = S16) TRANSITIONS"
    by (simp add: TRANSITIONS_def)
  from transition_rows [OF t this] a have "tr_to t = S16" by simp
  moreover have "subseq (passed S15 @ [S16]) (this_attempt ts @ [S16])"
    using run_passed [OF r] from_S15 by (intro list_emb_append_mono) simp_all
  ultimately show "subseq [S0, S1, S2, S2AidList, S2SelectAid, S3, S5, S6, S7, S8, S9, S10, S11, S13, S14, S15, S16]
         (this_attempt (ts @ [t]))"
    by (simp add: this_attempt_snoc)
qed

lemma phases_in_order_witness:
  "subseq [S0, S1] (this_attempt [\<lparr>tr_from = S0, tr_event = EvSetTransactionParams, tr_to = S1,
     tr_action = DoStoreTransactionParams, tr_error = Ok\<rparr>])"
proof -
  let ?t = "\<lparr>tr_from = S0, tr_event = EvSetTransactionParams, tr_to = S1,
     tr_action = DoStoreTransactionParams, tr_error = Ok\<rparr>"
  have "transition S0 EvSetTransactionParams = Inr ?t"
    using onward_row [of S0] by (simp add: TRANSITIONS_def)
  from fsm_run.step [OF fsm_run.idle this] have "fsm_run ([] @ [?t]) S1" by simp
  from phases_in_order [OF this] show ?thesis by simp
qed




text \<open>A transition enters the error state exactly when it carries an error, resets exactly when it goes
  back to idle, and an event that is refused leaves the machine where it is; losing the card or
  a failing callback is an error in every state, and out of the error state leads only the reset.\<close>

theorem fsm_error_handling:
  "(case fsm_apply m e of
      (Inr t, m') \<Rightarrow> fsm_state m' = tr_to t \<and> tr_from t = fsm_state m \<and> (tr_to t = Se \<longleftrightarrow> tr_error t \<noteq> Ok) \<and>
        (tr_action t = DoReset \<longleftrightarrow> tr_to t = S0) \<and> (if fsm_state m = Se then tr_to t \<in> {S0, Se} else True)
    | (Inl err, m') \<Rightarrow> m' = m \<and> err = InvalidArgument \<and> e \<notin> {EvCardRemoved, EvApduTimeout, EvCallbackFailure})"
proof (cases "transition (fsm_state m) e")
  case (Inl err)
  then show ?thesis
    by (auto simp: fsm_apply_def transition_def any_state_row krn_simps transition_any_def
        split: option.splits if_splits)
next
  case (Inr t)
  have "list_all (\<lambda>((s, e), s', a, err). s = Se \<longrightarrow> s' \<in> {S0, Se}) TRANSITIONS"
    by (simp add: TRANSITIONS_def)
  from transition_rows [OF Inr this] have se: "fsm_state m = Se \<longrightarrow> tr_to t \<in> {S0, Se}" by simp
  have "tr_from t = fsm_state m" using Inr by (simp add: transition_eq_Inr)
  with Inr error_rows [OF Inr] se show ?thesis
    by (simp add: fsm_apply_def)
qed

section \<open>What an accepted annex says\<close>

definition annex_row_agrees :: "string \<Rightarrow> bool" where
  "annex_row_agrees row \<longleftrightarrow>
     (\<exists>from_text event_text guard to_text action_text error_text t.
        split_csv_record row = Inr [from_text, event_text, guard, to_text, action_text, error_text] \<and>
        guard \<noteq> [] \<and> parse_state from_text = Inr (tr_from t) \<and> parse_event event_text = Inr (tr_event t) \<and>
        parse_state to_text = Inr (tr_to t) \<and>
        parse_action (tr_from t) (tr_event t) action_text = Inr (tr_action t) \<and>
        parse_error_code error_text = Inr (tr_error t) \<and> transition (tr_from t) (tr_event t) = Inr t)"

lemma names_not_empty:
  "parse_state [] = Inl ParseError" "parse_event [] = Inl ParseError"
  "parse_error_code [] = Inl ParseError" "parse_action s e [] = Inl ParseError"
  by (simp_all add: parse_state_def parse_event_def parse_error_code_def parse_action_def
      STATE_NAMES_def EVENT_NAMES_def ERROR_NAMES_def ACTION_NAMES_def)

lemma length_6_conv: "length xs = 6 \<longleftrightarrow> (\<exists>a b c d e f. xs = [a, b, c, d, e, f])"
  by (auto simp: length_Suc_conv eval_nat_numeral)

lemma check_annex_row_iff: "check_annex_row row = Inr () \<longleftrightarrow> annex_row_agrees row"
proof
  assume r: "check_annex_row row = Inr ()"
  then obtain fields where sp: "split_csv_record row = Inr fields" and "length fields = 6"
    by (auto simp: check_annex_row_def krn_simps split: if_splits)
  then obtain a b c d e f where "fields = [a, b, c, d, e, f]" by (auto simp: length_6_conv)
  with r sp obtain s ev s' act err t where
    "split_csv_record row = Inr [a, b, c, d, e, f]" "c \<noteq> []" "parse_state a = Inr s" "parse_event b = Inr ev"
    "parse_state d = Inr s'" "parse_action s ev e = Inr act" "parse_error_code f = Inr err"
    "transition s ev = Inr t" "tr_to t = s'" "tr_action t = act" "tr_error t = err"
    by (auto simp: check_annex_row_def krn_simps or_err_eq_Inr eval_nat_numeral split: if_splits)
  moreover from this have "tr_from t = s" "tr_event t = ev" by (simp_all add: transition_eq_Inr)
  ultimately show "annex_row_agrees row" unfolding annex_row_agrees_def by blast
next
  assume "annex_row_agrees row"
  then obtain a b c d e f t where r: "split_csv_record row = Inr [a, b, c, d, e, f]"
    "c \<noteq> []" "parse_state a = Inr (tr_from t)" "parse_event b = Inr (tr_event t)"
    "parse_state d = Inr (tr_to t)" "parse_action (tr_from t) (tr_event t) e = Inr (tr_action t)"
    "parse_error_code f = Inr (tr_error t)" "transition (tr_from t) (tr_event t) = Inr t"
    unfolding annex_row_agrees_def by blast
  moreover from r have "a \<noteq> []" "b \<noteq> []" "d \<noteq> []" "e \<noteq> []" "f \<noteq> []"
    using names_not_empty by auto
  ultimately show "check_annex_row row = Inr ()"
    by (simp add: check_annex_row_def eval_nat_numeral)
qed

lemma annex_loop:
  "rfold (\<lambda>count row. if str_trim row = [] then Inr count
      else rbind (check_annex_row row) (\<lambda>_. Inr (count + 1))) n rows = Inr k \<longleftrightarrow>
   list_all annex_row_agrees (filter (\<lambda>row. str_trim row \<noteq> []) rows) \<and>
   k = n + length (filter (\<lambda>row. str_trim row \<noteq> []) rows)"
proof (induction rows arbitrary: n)
  case (Cons row rows)
  show ?case
  proof (cases "check_annex_row row")
    case (Inl e)
    then have "\<not> annex_row_agrees row" using check_annex_row_iff [of row] by simp
    with Inl Cons.IH [of n] show ?thesis by simp
  next
    case (Inr u)
    then have "annex_row_agrees row" using check_annex_row_iff [of row] by simp
    with Inr Cons.IH [of n] Cons.IH [of "n + 1"] show ?thesis by auto
  qed
qed auto

text \<open>The annex is accepted exactly when its first line is the header and it has at least one row that is
  not blank, each of them naming a state, an event, the next state, the action and the error of a
  transition of the machine; the result counts those rows.\<close>

theorem annex_agrees_with_machine:
  "validate_state_machine_annex csv = Inr n \<longleftrightarrow>
     (\<exists>header rows. csv_lines csv = header # rows \<and> split_csv_record header = Inr ANNEX_HEADER \<and>
        list_all annex_row_agrees (filter (\<lambda>row. str_trim row \<noteq> []) rows) \<and>
        n = length (filter (\<lambda>row. str_trim row \<noteq> []) rows) \<and> 0 < n)"
proof (cases "csv_lines csv")
  case (Cons header rows)
  have "validate_state_machine_annex csv = Inr n \<longleftrightarrow> split_csv_record header = Inr ANNEX_HEADER \<and>
      rfold (\<lambda>count row. if str_trim row = [] then Inr count
        else rbind (check_annex_row row) (\<lambda>_. Inr (count + 1))) 0 rows = Inr n \<and> 0 < n"
    by (auto simp: validate_state_machine_annex_def Cons krn_simps split: if_splits)
  with Cons show ?thesis by (simp only: annex_loop) auto
qed (simp add: validate_state_machine_annex_def)

end
