(* ===== verification/Emv_Numeric.thy ===== *)
theory Emv_Numeric
  imports Emv_Error
begin

text \<open>
  Numeric (BCD) fields (\<open>src/src/numeric.rs\<close>): a \<open>u64\<close> written as a fixed number of bytes with
  two decimal digits each, and read back.
\<close>

unbundle bit_operations_syntax

text \<open>One turn of the loop, which fills the digits from the last one.\<close>

definition bcd_step :: "bytes \<times> u64 \<Rightarrow> nat \<Rightarrow> bytes \<times> u64" where
  "bcd_step s index = (case s of (out, remaining) \<Rightarrow>
     let digit = (word_of_nat (unat (remaining mod 10)) :: byte);
         byte = index div 2
     in (out[byte := out ! byte OR (if index mod 2 = 0 then push_bit 4 digit else digit)],
         remaining div 10))"

definition encode_numeric_bcd_fixed :: "u64 \<Rightarrow> nat \<Rightarrow> bytes krn_result" where
  "encode_numeric_bcd_fixed v n =
     rbind (ok_or (checked_mul_usize n 2) LengthOverflow) (\<lambda>digits.
       rbind (ok_or (checked_pow_u64 10 (digits mod 2 ^ 32)) LengthOverflow) (\<lambda>max_value.
         if v \<ge> max_value then Inl InvalidArgument
         else Inr (fst (foldl bcd_step (replicate n 0, v) (rev [0..<digits])))))"

definition bcd_digits :: "bytes \<Rightarrow> bytes krn_result" where
  "bcd_digits bs =
     (let digits = concat (map (\<lambda>byte. [drop_bit 4 byte, byte AND 0x0f]) bs)
      in if list_all (\<lambda>digit. digit \<le> 9) digits then Inr digits else Inl ParseError)"

definition decode_numeric_bcd_fixed :: "bytes \<Rightarrow> u64 krn_result" where
  "decode_numeric_bcd_fixed bs =
     rbind (bcd_digits bs) (\<lambda>digits.
       rfold (\<lambda>v digit.
         ok_or (Option.bind (checked_mul_u64 v 10)
           (\<lambda>v. checked_add_u64 v (word_of_nat (unat digit)))) LengthOverflow) 0 digits)"

section \<open>Reference: decimal digits\<close>

fun bcd_bytes :: "nat \<Rightarrow> nat \<Rightarrow> bytes" where
  "bcd_bytes 0 v = []"
| "bcd_bytes (Suc n) v = bcd_bytes n (v div 100) @ [word_of_nat (16 * (v div 10 mod 10) + v mod 10)]"

definition bcd_value :: "bytes \<Rightarrow> nat" where
  "bcd_value bs = foldl (\<lambda>v b. 100 * v + 10 * (unat b div 16) + unat b mod 16) 0 bs"

definition bcd_ok :: "byte \<Rightarrow> bool" where
  "bcd_ok b \<longleftrightarrow> unat b div 16 \<le> 9 \<and> unat b mod 16 \<le> 9"

lemma length_bcd_bytes [simp]: "length (bcd_bytes n v) = n"
  by (induction n arbitrary: v) simp_all

lemma nibbles_or: "d < 10 \<Longrightarrow> e < 10 \<Longrightarrow>
    (word_of_nat d :: byte) OR push_bit 4 (word_of_nat e) = word_of_nat (16 * e + d)"
proof -
  assume d: "d < (10 :: nat)" and e: "e < (10 :: nat)"
  have "\<forall>d\<in>set [0..<10]. \<forall>e\<in>set [0..<10].
      (word_of_nat d :: byte) OR push_bit 4 (word_of_nat e) = word_of_nat (16 * e + d)"
    by code_simp
  with d e show ?thesis by simp
qed

lemma bcd_loop:
  "foldl bcd_step (replicate n 0 @ rest, v) (rev [0..<2 * n]) =
     (bcd_bytes n (unat v) @ rest, v div 10 ^ (2 * n))" if "10 ^ (2 * n) < (2 :: nat) ^ 64"
  using that
proof (induction n arbitrary: v rest)
  case (Suc n)
  have small: "10 ^ (2 * n) < (2 :: nat) ^ 64"
    using Suc.prems by (rule le_less_trans [rotated]) simp
  let ?r = "replicate n (0 :: byte)"
  let ?d = "unat v mod 10" and ?e = "unat v div 10 mod 10"
  have r: "rev [0..<2 * Suc n] = (2 * n + 1) # (2 * n) # rev [0..<2 * n]" by simp
  have e: "unat (v div 10 mod 10) = ?e" and d: "unat (v mod 10) = ?d"
    by (simp_all add: unat_mod unat_div)
  have c: "(ucast (v div 10 mod 10) :: byte) = word_of_nat ?e"
    by (simp only: e [symmetric] of_nat_unat)
  have n: "(word_of_nat ?d :: byte) OR push_bit 4 (word_of_nat ?e) = 16 * word_of_nat ?e + word_of_nat ?d"
    by (subst nibbles_or) simp_all
  have s1: "bcd_step (replicate (Suc n) 0 @ rest, v) (2 * n + 1)
      = (?r @ word_of_nat ?d # rest, v div 10)"
    by (simp add: bcd_step_def d [symmetric] list_update_append nth_append replicate_append_same [symmetric])
  have s2: "bcd_step (?r @ word_of_nat ?d # rest, v div 10) (2 * n)
      = (?r @ word_of_nat (16 * ?e + ?d) # rest, v div 10 div 10)"
    by (simp add: bcd_step_def c n list_update_append nth_append)
  have v: "unat (v div 10 div 10) = unat v div 100" by (simp add: unat_div div_mult2_eq [symmetric])
  have "v div 10 div 10 div 10 ^ (2 * n) = v div 10 ^ (2 * Suc n)"
  proof (rule word_unat_eq_iff [THEN iffD2])
    have u: "unat (10 ^ k :: u64) = 10 ^ k" if "10 ^ k < (2 :: nat) ^ 64" for k
      using unat_pow_u64 [of 10 k] that by simp
    show "unat (v div 10 div 10 div 10 ^ (2 * n)) = unat (v div 10 ^ (2 * Suc n))"
      unfolding unat_div v u [OF small] u [OF Suc.prems]
      by (simp add: div_mult2_eq [symmetric])
  qed
  then show ?case
    using Suc.IH [OF small, of "word_of_nat (16 * ?e + ?d) # rest" "v div 10 div 10"]
    by (simp only: r foldl_Cons s1 s2 v) (simp add: div_mult2_eq [symmetric])
qed simp

lemma u64_pow_limit: "10 ^ k < (2 :: nat) ^ 64 \<longleftrightarrow> k \<le> 19"
proof
  assume a: "10 ^ k < (2 :: nat) ^ 64"
  show "k \<le> 19"
  proof (rule ccontr)
    assume "\<not> k \<le> 19"
    then have "(10 :: nat) ^ 20 \<le> 10 ^ k" by (intro power_increasing) simp_all
    with a show False by simp
  qed
next
  assume "k \<le> 19"
  then have "(10 :: nat) ^ k \<le> 10 ^ 19" by (intro power_increasing) simp_all
  then show "10 ^ k < (2 :: nat) ^ 64" by simp
qed

lemma encode_numeric_eq:
  assumes n: "n < 2 ^ 31"
  shows "encode_numeric_bcd_fixed v n =
    (if n > 9 then Inl LengthOverflow
     else if unat v \<ge> 10 ^ (2 * n) then Inl InvalidArgument
     else Inr (bcd_bytes n (unat v)))"
proof -
  have m: "checked_mul_usize n 2 = Some (2 * n)" "2 * n mod 4294967296 = 2 * n" using n by simp_all
  show ?thesis
  proof (cases "n \<le> 9")
    case True
    then have small: "10 ^ (2 * n) < (2 :: nat) ^ 64" by (simp only: u64_pow_limit)
    then have u: "unat (10 ^ (2 * n) :: u64) = 10 ^ (2 * n)"
      using unat_pow_u64 [of 10 "2 * n"] by simp
    from small have p: "checked_pow_u64 10 (2 * n) = Some (10 ^ (2 * n))"
      by (simp add: checked_pow_u64_def)
    show ?thesis using True bcd_loop [OF small, of "[]" v]
      by (simp add: encode_numeric_bcd_fixed_def m p word_le_nat_alt u)
  next
    case False
    then have "\<not> 10 ^ (2 * n) < (2 :: nat) ^ 64" by (simp only: u64_pow_limit)
    then have "checked_pow_u64 10 (2 * n) = None"
      by (simp add: checked_pow_u64_def)
    with False show ?thesis by (simp add: encode_numeric_bcd_fixed_def m)
  qed
qed

section \<open>Reading the digits back\<close>

lemma bcd_digits_eq:
  "bcd_digits bs =
     (if list_all bcd_ok bs then Inr (concat (map (\<lambda>byte. [drop_bit 4 byte, byte AND 0x0f]) bs))
      else Inl ParseError)"
proof -
  have "list_all (\<lambda>digit. digit \<le> 9) [drop_bit 4 b, b AND 0x0f] \<longleftrightarrow> bcd_ok b" for b :: byte
    by (simp add: word_le_nat_alt byte_simps bcd_ok_def)
  then have "list_all (\<lambda>digit. digit \<le> 9) (concat (map (\<lambda>byte. [drop_bit 4 byte, byte AND 0x0f]) bs))
      \<longleftrightarrow> list_all bcd_ok bs"
    by (induction bs) auto
  then show ?thesis by (simp add: bcd_digits_def Let_def)
qed

definition decode_step :: "u64 \<Rightarrow> byte \<Rightarrow> u64 krn_result" where
  "decode_step v digit =
     ok_or (Option.bind (checked_mul_u64 v 10) (\<lambda>v. checked_add_u64 v (word_of_nat (unat digit))))
       LengthOverflow"

lemma decode_step_eq:
  "m < 2 ^ 64 \<Longrightarrow> decode_step (word_of_nat m) d =
     (if 10 * m + unat d < 2 ^ 64 then Inr (word_of_nat (10 * m + unat d)) else Inl LengthOverflow)"
proof -
  assume m: "m < 2 ^ 64"
  have d: "unat (word_of_nat (unat d) :: u64) = unat d"
    using unat_byte_less [of d] by (intro unat_of_nat_u64) (simp del: unat_byte_less)
  show ?thesis
  proof (cases "10 * m < 2 ^ 64")
    case True
    have "unat (word_of_nat m * 10 :: u64) = unat (word_of_nat (10 * m) :: u64)"
      by (simp add: mult.commute)
    then have "unat (word_of_nat m * 10 :: u64) = 10 * m" using unat_of_nat_u64 [OF True] by simp
    with True m show ?thesis
      by (simp add: decode_step_def checked_mul_u64_def checked_add_u64_def unat_of_nat_u64 d
          mult.commute del: of_nat_unat)
  next
    case False
    with m show ?thesis
      by (simp add: decode_step_def checked_mul_u64_def unat_of_nat_u64 mult.commute)
  qed
qed

lemma decode_loop:
  "m < 2 ^ 64 \<Longrightarrow>
   rfold decode_step (word_of_nat m) (concat (map (\<lambda>byte. [drop_bit 4 byte, byte AND 0x0f]) bs)) =
     (let r = foldl (\<lambda>v b. 100 * v + 10 * (unat b div 16) + unat b mod 16) m bs
      in if r < 2 ^ 64 then Inr (word_of_nat r) else Inl LengthOverflow)"
proof (induction bs arbitrary: m)
  case (Cons b bs)
  let ?f = "\<lambda>v b. 100 * v + 10 * (unat b div 16) + unat (b :: byte) mod 16"
  let ?m1 = "10 * m + unat b div 16" and ?m2 = "?f m b"
  have mono: "x \<le> foldl ?f x bs" for x
  proof (induction bs arbitrary: x)
    case (Cons c cs)
    have "x \<le> ?f x c" by simp
    also have "\<dots> \<le> foldl ?f (?f x c) cs" by (rule Cons.IH)
    finally show ?case by simp
  qed simp
  have d: "unat (drop_bit 4 b) = unat b div 16" "unat (b AND 15) = unat b mod 16"
    by (simp_all add: byte_simps)
  show ?case
  proof (cases "?m2 < 2 ^ 64")
    case True
    have m1: "?m1 < 2 ^ 64" using True by linarith
    have e: "10 * ?m1 + unat b mod 16 = ?m2" by simp
    have "rfold decode_step (word_of_nat m) (concat (map (\<lambda>byte. [drop_bit 4 byte, byte AND 0x0f]) (b # bs)))
      = rfold decode_step (word_of_nat ?m2) (concat (map (\<lambda>byte. [drop_bit 4 byte, byte AND 0x0f]) bs))"
      using True m1 e
      by (simp only: list.map concat.simps append.simps rfold.simps decode_step_eq [OF Cons.prems] d
          if_True rbind_Inr decode_step_eq [OF m1])
    with Cons.IH [OF True] show ?thesis by (simp only: foldl_Cons)
  next
    case False
    then have "\<not> foldl ?f ?m2 bs < 2 ^ 64" using mono [of ?m2] by linarith
    moreover have "rfold decode_step (word_of_nat m) (concat (map (\<lambda>byte. [drop_bit 4 byte, byte AND 0x0f]) (b # bs))) = Inl LengthOverflow"
    proof (cases "?m1 < 2 ^ 64")
      case True
      have e: "10 * ?m1 + unat b mod 16 = ?m2" by simp
      show ?thesis using True False e
        by (simp only: list.map concat.simps append.simps rfold.simps decode_step_eq [OF Cons.prems] d
            if_True if_False rbind_Inr rbind_Inl decode_step_eq [OF True])
    qed (simp only: list.map concat.simps append.simps rfold.simps decode_step_eq [OF Cons.prems] d
            if_False rbind_Inl)
    ultimately show ?thesis by (simp only: foldl_Cons Let_def if_False)
  qed
qed (simp add: Let_def)

lemma decode_numeric_eq:
  "decode_numeric_bcd_fixed bs =
     (if \<not> list_all bcd_ok bs then Inl ParseError
      else if bcd_value bs < 2 ^ 64 then Inr (word_of_nat (bcd_value bs)) else Inl LengthOverflow)"
  using decode_loop [of 0 bs]
  by (simp add: decode_numeric_bcd_fixed_def bcd_digits_eq bcd_value_def decode_step_def [abs_def]
      Let_def del: of_nat_unat)

lemma bcd_value_snoc: "bcd_value (bs @ [b]) = 100 * bcd_value bs + 10 * (unat b div 16) + unat b mod 16"
  by (simp add: bcd_value_def)

lemma bcd_value_Nil [simp]: "bcd_value [] = 0"
  by (simp add: bcd_value_def)

lemma bcd_value_less: "list_all bcd_ok bs \<Longrightarrow> bcd_value bs < 100 ^ length bs"
  by (induction bs rule: rev_induct) (auto simp: bcd_value_snoc bcd_ok_def)

lemma unat_bcd_pair: "unat (word_of_nat (16 * (v div 10 mod 10) + v mod 10) :: byte) = 16 * (v div 10 mod 10) + v mod 10"
proof (rule unat_of_nat_byte)
  have "v div 10 mod 10 < 10" "v mod 10 < 10" by simp_all
  then show "16 * (v div 10 mod 10) + v mod 10 < 256" by linarith
qed

lemma bcd_bytes_ok: "list_all bcd_ok (bcd_bytes n v)"
proof (induction n arbitrary: v)
  case (Suc n)
  have "(16 * (v div 10 mod 10) + v mod 10) mod 16 = v mod 10" "(16 * (v div 10 mod 10) + v mod 10) div 16 = v div 10 mod 10"
    using less_le_trans [OF pos_mod_bound] by simp_all
  moreover have "v mod 10 \<le> 9" "v div 10 mod 10 \<le> 9" using pos_mod_bound by simp_all
  ultimately have "bcd_ok (word_of_nat (16 * (v div 10 mod 10) + v mod 10))"
    by (simp only: bcd_ok_def unat_bcd_pair)
  with Suc show ?case by simp
qed simp

lemma bcd_value_bytes: "bcd_value (bcd_bytes n v) = v mod 100 ^ n"
proof (induction n arbitrary: v)
  case (Suc n)
  have "v mod 100 ^ Suc n = 100 * (v div 100 mod 100 ^ n) + v mod 100"
    by (simp add: mod_mult2_eq)
  moreover have "v mod 100 = 10 * (v div 10 mod 10) + v mod 10"
    using mod_mult2_eq [of v 10 10] by simp
  ultimately show ?case
    by (simp add: bcd_value_snoc Suc unat_bcd_pair del: of_nat_add of_nat_mult)
qed simp

lemma bcd_bytes_value: "list_all bcd_ok bs \<Longrightarrow> bcd_bytes (length bs) (bcd_value bs) = bs"
proof (induction bs rule: rev_induct)
  case (snoc b bs)
  let ?h = "unat b div 16" and ?l = "unat b mod 16"
  have b: "?h \<le> 9" "?l \<le> 9" using snoc.prems by (simp_all add: bcd_ok_def)
  have v: "(100 * w + 10 * ?h + ?l) div 100 = w" "(100 * w + 10 * ?h + ?l) div 10 mod 10 = ?h"
    "(100 * w + 10 * ?h + ?l) mod 10 = ?l" for w
  proof -
    show "(100 * w + 10 * ?h + ?l) div 100 = w" using b by (intro div_nat_eqI) simp_all
    have "(100 * w + 10 * ?h + ?l) div 10 = 10 * w + ?h" using b by (intro div_nat_eqI) simp_all
    then show "(100 * w + 10 * ?h + ?l) div 10 mod 10 = ?h" using b by simp
    have "(100 * w + 10 * ?h + ?l) mod 10 = (?l + 10 * (10 * w + ?h)) mod 10"
      by (simp add: algebra_simps)
    also have "\<dots> = ?l mod 10" by (rule mod_mult_self2)
    finally show "(100 * w + 10 * ?h + ?l) mod 10 = ?l" using b by simp
  qed
  have "(word_of_nat (16 * ?h + ?l) :: byte) = word_of_nat (unat b)"
    by (simp only: mult_div_mod_eq)
  with snoc v show ?case by (simp only: bcd_value_snoc bcd_bytes.simps length_append_singleton) simp
qed simp

text \<open>Writing a number as fixed-width BCD succeeds exactly when the width is at most nine bytes (the
  largest whose power of ten a \<open>u64\<close> holds) and the number has at most two digits per byte; the
  field is then the one of that length which decodes to the number, and no other is.\<close>

theorem encode_decode_numeric:
  assumes "n < 2 ^ 31"
  shows "encode_numeric_bcd_fixed v n = Inr out \<longleftrightarrow>
    n \<le> 9 \<and> unat v < 10 ^ (2 * n) \<and> length out = n \<and> decode_numeric_bcd_fixed out = Inr v"
proof -
  have h: "100 ^ n < (2 :: nat) ^ 64 \<and> 100 ^ n = (10 :: nat) ^ (2 * n)" if "n \<le> 9"
    using that u64_pow_limit [of "2 * n"] by (simp add: power_mult)
  show ?thesis
  proof (intro iffI conjI; (elim conjE)?)
    assume e: "encode_numeric_bcd_fixed v n = Inr out"
    then show n: "n \<le> 9" and v: "unat v < 10 ^ (2 * n)" and l: "length out = n"
      by (auto simp: encode_numeric_eq [OF assms] split: if_splits)
    from e h [OF n] v unsigned_less [of v] show "decode_numeric_bcd_fixed out = Inr v"
      by (auto simp: encode_numeric_eq [OF assms] decode_numeric_eq bcd_bytes_ok bcd_value_bytes split: if_splits)
  next
    assume n: "n \<le> 9" and v: "unat v < 10 ^ (2 * n)" and l: "length out = n"
      and d: "decode_numeric_bcd_fixed out = Inr v"
    then have ok: "list_all bcd_ok out" and w: "v = word_of_nat (bcd_value out)"
      by (auto simp: decode_numeric_eq split: if_splits)
    have "unat v = bcd_value out"
      using d ok unat_of_nat_u64 [of "bcd_value out"] w by (auto simp: decode_numeric_eq split: if_splits)
    then show "encode_numeric_bcd_fixed v n = Inr out"
      using n v l bcd_bytes_value [OF ok] by (simp add: encode_numeric_eq [OF assms])
  qed
qed

lemma encode_decode_numeric_witness:
  "encode_numeric_bcd_fixed 12345 3 = Inr [0x01, 0x23, 0x45] \<and>
     decode_numeric_bcd_fixed [0x01, 0x23, 0x45] = Inr 12345"
proof -
  have "decode_numeric_bcd_fixed [0x01, 0x23, 0x45] = Inr 12345"
    by (simp add: decode_numeric_eq bcd_ok_def bcd_value_def)
  then show ?thesis using encode_decode_numeric [of 3 12345 "[0x01, 0x23, 0x45]"] by simp
qed

end
