(* ===== verification/Emv_Record.thy ===== *)
theory Emv_Record
  imports Emv_Dol
begin

text \<open>
  Record bodies (\<open>src/src/record.rs\<close>): the template 70 of a READ RECORD answer, the tags a card
  may not supply, the track 2 and PAN formats with their consistency check, and the merge of a
  record into the data store.
\<close>

unbundle bit_operations_syntax

definition TERMINAL_OR_KERNEL_RECORD_TAGS :: "bytes list" where
  "TERMINAL_OR_KERNEL_RECORD_TAGS =
     [[0x5f, 0x2a], [0x5f, 0x36], [0x95], [0x9a], [0x9b], [0x9c], [0x9f, 0x02], [0x9f, 0x03],
      [0x9f, 0x15], [0x9f, 0x1a], [0x9f, 0x1e], [0x9f, 0x33], [0x9f, 0x34], [0x9f, 0x35],
      [0x9f, 0x37], [0x9f, 0x40], [0x9f, 0x4e], [0x9f, 0x66]]"

definition HOST_OR_ISSUER_RESPONSE_RECORD_TAGS :: "bytes list" where
  "HOST_OR_ISSUER_RESPONSE_RECORD_TAGS = [[0x89], [0x8a], [0x86], [0x91], [0x9f, 0x18]]"

definition GENERATE_AC_OR_DYNAMIC_AUTH_RECORD_TAGS :: "bytes list" where
  "GENERATE_AC_OR_DYNAMIC_AUTH_RECORD_TAGS =
     [[0x9f, 0x26], [0x9f, 0x27], [0x9f, 0x36], [0x9f, 0x4b], [0x9f, 0x4c]]"

definition is_non_card_record_tag :: "bytes \<Rightarrow> bool" where
  "is_non_card_record_tag tag \<longleftrightarrow>
     tag \<in> set TERMINAL_OR_KERNEL_RECORD_TAGS \<or> tag \<in> set HOST_OR_ISSUER_RESPONSE_RECORD_TAGS \<or>
     tag \<in> set GENERATE_AC_OR_DYNAMIC_AUTH_RECORD_TAGS"

section \<open>PAN and track 2\<close>

definition nibbles_of :: "byte \<Rightarrow> bytes" where
  "nibbles_of byte = [drop_bit 4 byte, byte AND 0x0f]"

definition validate_pan_length :: "bytes \<Rightarrow> unit krn_result" where
  "validate_pan_length digits =
     (if digits = [] \<or> length digits > 19 then Inl ParseError else Inr ())"

definition pan_step :: "nat \<Rightarrow> nat \<Rightarrow> bytes \<Rightarrow> nat \<times> byte \<Rightarrow> bytes krn_result" where
  "pan_step len byte_idx digits = (\<lambda>(nibble_idx, nibble).
     let is_final_nibble = (byte_idx + 1 = len \<and> nibble_idx = 1) in
     if nibble \<le> 9 then Inr (digits @ [nibble])
     else if nibble = 0x0f \<and> is_final_nibble then Inr digits
     else Inl ParseError)"

definition pan_digits_from_5a :: "bytes \<Rightarrow> bytes krn_result" where
  "pan_digits_from_5a v =
     (if v = [] then Inl ParseError
      else rbind
        (rfold (\<lambda>digits (byte_idx, byte).
           rfold (pan_step (length v) byte_idx) digits (enumerate 0 (nibbles_of byte)))
           [] (enumerate 0 v))
        (\<lambda>digits. rbind (validate_pan_length digits) (\<lambda>_. Inr digits)))"

record track2_summary =
  pan_digit_count :: nat
  post_separator_digit_count :: nat
  discretionary_digit_count :: nat
  padded :: bool

record parsed_track2 =
  t2_pan_digits :: bytes
  t2_summary :: track2_summary

text \<open>The variables of the track 2 loop and one turn of it.\<close>

record track2_state =
  ts_pan_digits :: bytes
  ts_saw_separator :: bool
  ts_post_separator_digits :: nat
  ts_saw_padding :: bool

definition track2_step :: "track2_state \<Rightarrow> byte \<Rightarrow> track2_state krn_result" where
  "track2_step s nibble =
     (if ts_saw_padding s then (if nibble \<noteq> 0x0f then Inl ParseError else Inr s)
      else if nibble \<le> 9 \<and> ts_saw_separator s
      then Inr (s\<lparr>ts_post_separator_digits := ts_post_separator_digits s + 1\<rparr>)
      else if nibble \<le> 9 then Inr (s\<lparr>ts_pan_digits := ts_pan_digits s @ [nibble]\<rparr>)
      else if nibble = 0x0d \<and> \<not> ts_saw_separator s \<and> ts_pan_digits s \<noteq> []
      then Inr (s\<lparr>ts_saw_separator := True\<rparr>)
      else if nibble = 0x0f \<and> ts_saw_separator s then Inr (s\<lparr>ts_saw_padding := True\<rparr>)
      else Inl ParseError)"

definition track2_start :: track2_state where
  "track2_start = \<lparr>ts_pan_digits = [], ts_saw_separator = False, ts_post_separator_digits = 0,
     ts_saw_padding = False\<rparr>"

definition parse_track2_equivalent_data :: "bytes \<Rightarrow> parsed_track2 krn_result" where
  "parse_track2_equivalent_data v =
     (if v = [] then Inl ParseError
      else rbind (rfold (\<lambda>s byte. rfold track2_step s (nibbles_of byte)) track2_start v) (\<lambda>s.
        if \<not> ts_saw_separator s \<or> ts_post_separator_digits s < 7 then Inl ParseError
        else rbind (validate_pan_length (ts_pan_digits s)) (\<lambda>_.
          Inr \<lparr>t2_pan_digits = ts_pan_digits s,
               t2_summary = \<lparr>pan_digit_count = length (ts_pan_digits s),
                 post_separator_digit_count = ts_post_separator_digits s,
                 discretionary_digit_count = ts_post_separator_digits s - 7,
                 padded = ts_saw_padding s\<rparr>\<rparr>)))"

definition summarize_track2_equivalent_data :: "bytes \<Rightarrow> track2_summary krn_result" where
  "summarize_track2_equivalent_data v = rmap t2_summary (parse_track2_equivalent_data v)"

definition pan_digits_from_track2 :: "bytes \<Rightarrow> bytes krn_result" where
  "pan_digits_from_track2 v = rmap t2_pan_digits (parse_track2_equivalent_data v)"

section \<open>Merging a record\<close>

definition record_or_store_value :: "(bytes \<times> bytes) list \<Rightarrow> data_store \<Rightarrow> bytes \<Rightarrow> bytes option" where
  "record_or_store_value entries data tag =
     (case map_option snd (List.find (\<lambda>(entry_tag, _). entry_tag = tag) entries) of
        Some v \<Rightarrow> Some v
      | None \<Rightarrow> ds_get data tag)"

definition validate_cardholder_data_consistency ::
    "(bytes \<times> bytes) list \<Rightarrow> data_store \<Rightarrow> unit krn_result" where
  "validate_cardholder_data_consistency entries data =
     (let pan = record_or_store_value entries data [0x5a];
          track2 = record_or_store_value entries data [0x57]
      in rbind (opt_traverse pan_digits_from_5a pan) (\<lambda>pan_digits.
         rbind (opt_traverse pan_digits_from_track2 track2) (\<lambda>track2_pan_digits.
           case (pan_digits, track2_pan_digits) of
             (Some pd, Some td) \<Rightarrow> if pd \<noteq> td then Inl ParseError else Inr ()
           | _ \<Rightarrow> Inr ())))"

definition reject_conflicting_record_values ::
    "(bytes \<times> bytes) list \<Rightarrow> data_store \<Rightarrow> unit krn_result" where
  "reject_conflicting_record_values entries data =
     rfold (\<lambda>_ (tag, record_value).
       if (case ds_get data tag of None \<Rightarrow> False | Some stored \<Rightarrow> stored \<noteq> record_value)
       then Inl ParseError else Inr ()) () entries"

definition collect_record_entry ::
    "(bytes \<times> bytes) list \<Rightarrow> tlv \<Rightarrow> (bytes \<times> bytes) list krn_result" where
  "collect_record_entry entries item =
     (if tlv_constructed item then Inl ParseError
      else if is_non_card_record_tag (tlv_tag item) then Inl ParseError
      else if list_ex (\<lambda>(stored_tag, _). stored_tag = tlv_tag item) entries then Inl ParseError
      else Inr (entries @ [(tlv_tag item, tlv_value item)]))"

text \<open>
  The final loop of puts into the caller's store: on an error the values put so far stay, so
  the store is part of the result either way.
\<close>

fun put_entries :: "(bytes \<times> bytes) list \<Rightarrow> data_store \<Rightarrow> unit krn_result \<times> data_store" where
  "put_entries [] data = (Inr (), data)"
| "put_entries ((tag, v) # es) data =
     (case ds_put data tag v of
        Inl e \<Rightarrow> (Inl e, data)
      | Inr data' \<Rightarrow> put_entries es data')"

definition check_record_body :: "bytes \<Rightarrow> data_store \<Rightarrow> (bytes \<times> bytes) list krn_result" where
  "check_record_body body data =
     rbind (parse_many body) (\<lambda>parsed.
       if length parsed \<noteq> 1 \<or> tlv_tag (parsed ! 0) \<noteq> [0x70] \<or> \<not> tlv_constructed (parsed ! 0)
       then Inl MissingMandatoryTag
       else rbind (rfold collect_record_entry [] (tlv_children (parsed ! 0))) (\<lambda>entries.
         if entries = [] then Inl MissingMandatoryTag
         else rbind (reject_conflicting_record_values entries data) (\<lambda>_.
           rbind (validate_cardholder_data_consistency entries data) (\<lambda>_. Inr entries))))"

definition parse_read_record_body :: "bytes \<Rightarrow> data_store \<Rightarrow> nat krn_result \<times> data_store" where
  "parse_read_record_body body data =
     (case check_record_body body data of
        Inl e \<Rightarrow> (Inl e, data)
      | Inr entries \<Rightarrow>
          (case put_entries entries data of
             (Inl e, data') \<Rightarrow> (Inl e, data')
           | (Inr _, data') \<Rightarrow> (Inr (length entries), data')))"

section \<open>What the formats accept\<close>

definition nibbles :: "bytes \<Rightarrow> bytes" where
  "nibbles bs = concat (map nibbles_of bs)"

definition digits_only :: "bytes \<Rightarrow> bool" where
  "digits_only ds \<longleftrightarrow> list_all (\<lambda>d. d \<le> 9) ds"

lemma nibbles_Nil [simp]: "nibbles [] = []"
  and nibbles_Cons: "nibbles (b # bs) = drop_bit 4 b # (b AND 0x0f) # nibbles bs"
  by (simp_all add: nibbles_def nibbles_of_def)

lemma pan_bytes_loop:
  "i + length bs = len \<Longrightarrow>
   rfold (\<lambda>digits (byte_idx, byte).
      rfold (pan_step len byte_idx) digits (enumerate 0 (nibbles_of byte))) acc (enumerate i bs) = Inr ds \<longleftrightarrow>
   (\<exists>new pad. ds = acc @ new \<and> digits_only new \<and> nibbles bs = new @ pad \<and> (pad = [] \<or> pad = [0x0f]))"
proof (induction bs arbitrary: i acc)
  case Nil
  then show ?case by (auto simp: nibbles_def digits_only_def)
next
  case (Cons b bs)
  let ?h = "drop_bit 4 b" and ?l = "b AND 0x0f"
  let ?f = "\<lambda>digits (byte_idx, byte).
      rfold (pan_step len byte_idx) digits (enumerate 0 (nibbles_of byte))"
  have f: "?f acc (i, b) = (if ?h \<le> 9 \<and> ?l \<le> 9 then Inr (acc @ [?h, ?l])
      else if ?h \<le> 9 \<and> ?l = 0x0f \<and> bs = [] then Inr (acc @ [?h]) else Inl ParseError)"
    using Cons.prems by (auto simp: nibbles_of_def pan_step_def Let_def)
  have n: "nibbles (b # bs) = ?h # ?l # nibbles bs" by (simp add: nibbles_def nibbles_of_def)
  have step: "rfold ?f acc (enumerate i (b # bs)) = rbind (?f acc (i, b)) (\<lambda>d. rfold ?f d (enumerate (Suc i) bs))"
    by simp
  show ?case (is "_ \<longleftrightarrow> ?r")
  proof (cases "?h \<le> 9 \<and> ?l \<le> 9")
    case True
    have "Suc i + length bs = len" using Cons.prems by simp
    note ih = Cons.IH [OF this, of "acc @ [?h, ?l]"]
    have "rfold ?f acc (enumerate i (b # bs)) = Inr ds \<longleftrightarrow>
        rfold ?f (acc @ [?h, ?l]) (enumerate (Suc i) bs) = Inr ds"
    proof -
      have "?f acc (i, b) = Inr (acc @ [?h, ?l])" by (simp only: f) (use True in simp)
      then show ?thesis by (simp only: step rbind_Inr)
    qed
    also have "\<dots> \<longleftrightarrow> ?r"
    proof
      assume "rfold ?f (acc @ [?h, ?l]) (enumerate (Suc i) bs) = Inr ds"
      with ih obtain new pad where "ds = acc @ ?h # ?l # new" "digits_only new"
        "nibbles bs = new @ pad" "pad = [] \<or> pad = [0x0f]" by auto
      with True show ?r
        by (intro exI [of _ "?h # ?l # new"] exI [of _ pad]) (simp add: n digits_only_def)
    next
      assume ?r
      then obtain new pad where r: "ds = acc @ new" "digits_only new" "?h # ?l # nibbles bs = new @ pad"
        "pad = [] \<or> pad = [0x0f]" by (auto simp: n)
      then obtain new' where "new = ?h # ?l # new'"
        using True by (cases new; cases "tl new") auto
      with r ih show "rfold ?f (acc @ [?h, ?l]) (enumerate (Suc i) bs) = Inr ds"
        by (auto simp: digits_only_def)
    qed
    finally show ?thesis .
  next
    case False
    show ?thesis
    proof (cases "?h \<le> 9 \<and> ?l = 0x0f \<and> bs = []")
      case True
      have "?f acc (i, b) = Inr (acc @ [?h])" by (simp only: f) (use True in simp)
      then have "rfold ?f acc (enumerate i (b # bs)) = Inr (acc @ [?h])"
        using True by (simp only: step rbind_Inr enumerate_simps rfold.simps)
      moreover have "?r \<longleftrightarrow> ds = acc @ [?h]"
      proof
        assume ?r
        then obtain new pad where "ds = acc @ new" "digits_only new" "[?h, 0x0f] = new @ pad"
          "pad = [] \<or> pad = [0x0f]" using True by (auto simp: nibbles_Cons)
        then show "ds = acc @ [?h]" by (auto simp: digits_only_def Cons_eq_append_conv)
      next
        assume "ds = acc @ [?h]"
        with True show ?r
          by (intro exI [of _ "[?h]"] exI [of _ "[0x0f]"]) (simp add: nibbles_Cons digits_only_def)
      qed
      ultimately show ?thesis by auto
    next
      case False2: False
      have "\<not> ?r"
      proof
        assume ?r
        then obtain new pad where r: "digits_only new" "?h # ?l # nibbles bs = new @ pad"
          "pad = [] \<or> pad = [0x0f]" by (auto simp: n)
        moreover have "length (nibbles bs) \<noteq> 0 \<or> bs = []" by (auto simp: nibbles_def nibbles_of_def)
        ultimately show False using False False2
          by (auto simp: digits_only_def Cons_eq_append_conv append_eq_Cons_conv)
      qed
      moreover have "?f acc (i, b) = Inl ParseError" by (simp only: f) (use False False2 in auto)
      then have "rfold ?f acc (enumerate i (b # bs)) = Inl ParseError" by (simp only: step rbind_Inl)
      ultimately show ?thesis by simp
    qed
  qed
qed

lemma pan_digits_from_5a_iff:
  "pan_digits_from_5a v = Inr ds \<longleftrightarrow>
     digits_only ds \<and> 1 \<le> length ds \<and> length ds \<le> 19 \<and> (nibbles v = ds \<or> nibbles v = ds @ [0x0f])"
proof -
  have "v = [] \<Longrightarrow> nibbles v = []" by (simp add: nibbles_def)
  then show ?thesis
    using pan_bytes_loop [of 0 v "length v" "[]"]
    by (cases ds) (auto simp: pan_digits_from_5a_def krn_simps validate_pan_length_def split: if_splits)
qed

lemma track2_padding:
  "ts_saw_padding s \<Longrightarrow>
     rfold track2_step s ns = Inr s' \<longleftrightarrow> s' = s \<and> ns = replicate (length ns) 0x0f"
  by (induction ns) (auto simp: track2_step_def)

lemma track2_after_separator:
  "ts_saw_separator s \<Longrightarrow> \<not> ts_saw_padding s \<Longrightarrow>
     rfold track2_step s ns = Inr s' \<longleftrightarrow>
     (\<exists>ds k. ns = ds @ replicate k 0x0f \<and> digits_only ds \<and>
        s' = s\<lparr>ts_post_separator_digits := ts_post_separator_digits s + length ds,
               ts_saw_padding := (0 < k)\<rparr>)"
proof (induction ns arbitrary: s)
  case Nil
  then show ?case by (cases s) (auto simp: digits_only_def)
next
  case (Cons n ns)
  consider "n \<le> 9" | "n = 0x0f" | "\<not> n \<le> 9" "n \<noteq> 0x0f" by blast
  then show ?case (is "_ \<longleftrightarrow> ?r")
  proof cases
    case 1
    let ?s = "s\<lparr>ts_post_separator_digits := ts_post_separator_digits s + 1\<rparr>"
    have st: "track2_step s n = Inr ?s" using 1 Cons.prems by (simp add: track2_step_def)
    have ih: "rfold track2_step ?s ns = Inr s' \<longleftrightarrow> (\<exists>ds k. ns = ds @ replicate k 0x0f \<and> digits_only ds \<and>
        s' = s\<lparr>ts_post_separator_digits := ts_post_separator_digits s + 1 + length ds,
               ts_saw_padding := (0 < k)\<rparr>)"
      using Cons.IH [of ?s] Cons.prems by (cases s) simp
    show ?thesis
    proof
      assume "rfold track2_step s (n # ns) = Inr s'"
      with st ih obtain ds k where "ns = ds @ replicate k 0x0f" "digits_only ds"
        "s' = s\<lparr>ts_post_separator_digits := ts_post_separator_digits s + 1 + length ds,
               ts_saw_padding := (0 < k)\<rparr>" by auto
      with 1 show ?r by (intro exI [of _ "n # ds"] exI [of _ k]) (simp add: digits_only_def)
    next
      assume ?r
      then obtain ds k where r: "n # ns = ds @ replicate k 0x0f" "digits_only ds"
        "s' = s\<lparr>ts_post_separator_digits := ts_post_separator_digits s + length ds,
               ts_saw_padding := (0 < k)\<rparr>" by blast
      with 1 obtain ds' where "ds = n # ds'" by (cases ds; cases k) auto
      with r have "\<exists>ds k. ns = ds @ replicate k 0x0f \<and> digits_only ds \<and>
        s' = s\<lparr>ts_post_separator_digits := ts_post_separator_digits s + 1 + length ds,
               ts_saw_padding := (0 < k)\<rparr>"
        by (intro exI [of _ ds'] exI [of _ k]) (simp add: digits_only_def)
      with st ih show "rfold track2_step s (n # ns) = Inr s'" by simp
    qed
  next
    case 2
    let ?s = "s\<lparr>ts_saw_padding := True\<rparr>"
    have st: "track2_step s n = Inr ?s" using 2 Cons.prems by (simp add: track2_step_def)
    have "rfold track2_step s (n # ns) = Inr s' \<longleftrightarrow> s' = ?s \<and> ns = replicate (length ns) 0x0f"
      using st track2_padding [of ?s ns s'] by simp
    also have "\<dots> \<longleftrightarrow> ?r"
    proof
      assume "s' = ?s \<and> ns = replicate (length ns) 0x0f"
      then show ?r using 2
        by (intro exI [of _ "[]"] exI [of _ "Suc (length ns)"]) (auto simp: digits_only_def)
    next
      assume ?r
      then obtain ds k where r: "n # ns = ds @ replicate k 0x0f" "digits_only ds"
        "s' = s\<lparr>ts_post_separator_digits := ts_post_separator_digits s + length ds,
               ts_saw_padding := (0 < k)\<rparr>" by blast
      with 2 have "ds = []" by (cases ds) (auto simp: digits_only_def)
      with r obtain m where "k = Suc m" "ns = replicate m 0x0f" by (cases k) auto
      with r \<open>ds = []\<close> show "s' = ?s \<and> ns = replicate (length ns) 0x0f" by (cases s) simp
    qed
    finally show ?thesis .
  next
    case 3
    then have "track2_step s n = Inl ParseError" using Cons.prems by (simp add: track2_step_def)
    moreover have "\<not> ?r"
    proof
      assume ?r
      then obtain ds k where "n # ns = ds @ replicate k 0x0f" "digits_only ds" by blast
      with 3 show False by (cases ds; cases k) (auto simp: digits_only_def)
    qed
    ultimately show ?thesis by simp
  qed
qed

lemma track2_before_separator:
  "\<not> ts_saw_separator s \<Longrightarrow> \<not> ts_saw_padding s \<Longrightarrow>
     rfold track2_step s ns = Inr s' \<and> ts_saw_separator s' \<longleftrightarrow>
     (\<exists>ds rest. ns = ds @ 0x0d # rest \<and> digits_only ds \<and> ts_pan_digits s @ ds \<noteq> [] \<and>
        rfold track2_step (s\<lparr>ts_pan_digits := ts_pan_digits s @ ds, ts_saw_separator := True\<rparr>) rest = Inr s' \<and>
        ts_saw_separator s')"
proof (induction ns arbitrary: s)
  case (Cons n ns)
  consider "n \<le> 9" | "n = 0x0d" | "\<not> n \<le> 9" "n \<noteq> 0x0d" by blast
  then show ?case (is "_ \<longleftrightarrow> ?r")
  proof cases
    case 1
    let ?s = "s\<lparr>ts_pan_digits := ts_pan_digits s @ [n]\<rparr>"
    have st: "track2_step s n = Inr ?s" using 1 Cons.prems by (simp add: track2_step_def)
    have "rfold track2_step s (n # ns) = Inr s' \<and> ts_saw_separator s' \<longleftrightarrow>
        (\<exists>ds rest. ns = ds @ 0x0d # rest \<and> digits_only ds \<and>
        rfold track2_step (s\<lparr>ts_pan_digits := ts_pan_digits s @ n # ds, ts_saw_separator := True\<rparr>) rest = Inr s' \<and>
        ts_saw_separator s')"
      using Cons.IH [of ?s] Cons.prems by (simp add: st)
    also have "\<dots> \<longleftrightarrow> ?r"
    proof
      assume "\<exists>ds rest. ns = ds @ 0x0d # rest \<and> digits_only ds \<and>
        rfold track2_step (s\<lparr>ts_pan_digits := ts_pan_digits s @ n # ds, ts_saw_separator := True\<rparr>) rest = Inr s' \<and>
        ts_saw_separator s'"
      then obtain ds rest where "ns = ds @ 0x0d # rest" "digits_only ds"
        "rfold track2_step (s\<lparr>ts_pan_digits := ts_pan_digits s @ n # ds, ts_saw_separator := True\<rparr>) rest = Inr s'"
        "ts_saw_separator s'" by blast
      with 1 show ?r by (intro exI [of _ "n # ds"] exI [of _ rest]) (simp add: digits_only_def)
    next
      assume ?r
      then obtain ds rest where r: "n # ns = ds @ 0x0d # rest" "digits_only ds"
        "rfold track2_step (s\<lparr>ts_pan_digits := ts_pan_digits s @ ds, ts_saw_separator := True\<rparr>) rest = Inr s'"
        "ts_saw_separator s'" by blast
      with 1 obtain ds' where "ds = n # ds'" by (cases ds) auto
      with r show "\<exists>ds rest. ns = ds @ 0x0d # rest \<and> digits_only ds \<and>
        rfold track2_step (s\<lparr>ts_pan_digits := ts_pan_digits s @ n # ds, ts_saw_separator := True\<rparr>) rest = Inr s' \<and>
        ts_saw_separator s'"
        by (intro exI [of _ ds'] exI [of _ rest]) (simp add: digits_only_def)
    qed
    finally show ?thesis .
  next
    case 2
    have r: "?r \<longleftrightarrow> ts_pan_digits s \<noteq> [] \<and>
        rfold track2_step (s\<lparr>ts_saw_separator := True\<rparr>) ns = Inr s' \<and> ts_saw_separator s'"
    proof
      assume ?r
      then obtain ds rest where r: "n # ns = ds @ 0x0d # rest" "digits_only ds" "ts_pan_digits s @ ds \<noteq> []"
        "rfold track2_step (s\<lparr>ts_pan_digits := ts_pan_digits s @ ds, ts_saw_separator := True\<rparr>) rest = Inr s'"
        "ts_saw_separator s'" by blast
      with 2 have "ds = []" by (cases ds) (auto simp: digits_only_def)
      with r show "ts_pan_digits s \<noteq> [] \<and>
        rfold track2_step (s\<lparr>ts_saw_separator := True\<rparr>) ns = Inr s' \<and> ts_saw_separator s'" by simp
    next
      assume "ts_pan_digits s \<noteq> [] \<and>
        rfold track2_step (s\<lparr>ts_saw_separator := True\<rparr>) ns = Inr s' \<and> ts_saw_separator s'"
      with 2 show ?r by (intro exI [of _ "[]"] exI [of _ ns]) (simp add: digits_only_def)
    qed
    have "track2_step s n = (if ts_pan_digits s \<noteq> [] then Inr (s\<lparr>ts_saw_separator := True\<rparr>) else Inl ParseError)"
      using Cons.prems 2 by (simp add: track2_step_def)
    then show ?thesis unfolding r by auto
  next
    case 3
    then have "track2_step s n = Inl ParseError" using Cons.prems by (simp add: track2_step_def)
    moreover have "\<not> ?r"
    proof
      assume ?r
      then obtain ds rest where "n # ns = ds @ 0x0d # rest" "digits_only ds" by blast
      with 3 show False by (cases ds) (auto simp: digits_only_def)
    qed
    ultimately show ?thesis by simp
  qed
qed auto

lemma parse_track2_eq_Inr:
  "parse_track2_equivalent_data v = Inr t \<longleftrightarrow>
     (\<exists>rest k. nibbles v = t2_pan_digits t @ 0x0d # rest @ replicate k 0x0f \<and>
        digits_only (t2_pan_digits t) \<and> digits_only rest \<and>
        1 \<le> length (t2_pan_digits t) \<and> length (t2_pan_digits t) \<le> 19 \<and> 7 \<le> length rest \<and>
        t2_summary t = \<lparr>pan_digit_count = length (t2_pan_digits t), post_separator_digit_count = length rest,
          discretionary_digit_count = length rest - 7, padded = (0 < k)\<rparr>)"
  (is "_ \<longleftrightarrow> ?r")
proof -
  have flat: "rfold (\<lambda>s byte. rfold track2_step s (nibbles_of byte)) track2_start v
      = rfold track2_step track2_start (nibbles v)"
    by (simp add: rfold_concat nibbles_def)
  have loop: "rfold track2_step track2_start (nibbles v) = Inr s \<and> ts_saw_separator s \<longleftrightarrow>
      (\<exists>ds rest k. nibbles v = ds @ 0x0d # rest @ replicate k 0x0f \<and> digits_only ds \<and> ds \<noteq> [] \<and>
         digits_only rest \<and> s = \<lparr>ts_pan_digits = ds, ts_saw_separator = True,
           ts_post_separator_digits = length rest, ts_saw_padding = (0 < k)\<rparr>)" for s
    by (subst track2_before_separator)
       (auto simp: track2_start_def track2_after_separator, blast+)
  have "parse_track2_equivalent_data v = Inr t \<longleftrightarrow> v \<noteq> [] \<and>
      (\<exists>s. (rfold track2_step track2_start (nibbles v) = Inr s \<and> ts_saw_separator s) \<and>
         7 \<le> ts_post_separator_digits s \<and> ts_pan_digits s \<noteq> [] \<and> length (ts_pan_digits s) \<le> 19 \<and>
         t = \<lparr>t2_pan_digits = ts_pan_digits s,
               t2_summary = \<lparr>pan_digit_count = length (ts_pan_digits s),
                 post_separator_digit_count = ts_post_separator_digits s,
                 discretionary_digit_count = ts_post_separator_digits s - 7,
                 padded = ts_saw_padding s\<rparr>\<rparr>)" (is "_ \<longleftrightarrow> ?m")
    by (auto simp: parse_track2_equivalent_data_def flat krn_simps validate_pan_length_def split: if_splits)
  also have "?m \<longleftrightarrow> ?r"
  proof
    assume ?m
    then obtain s where s: "rfold track2_step track2_start (nibbles v) = Inr s \<and> ts_saw_separator s"
      "7 \<le> ts_post_separator_digits s" "length (ts_pan_digits s) \<le> 19"
      "t = \<lparr>t2_pan_digits = ts_pan_digits s,
               t2_summary = \<lparr>pan_digit_count = length (ts_pan_digits s),
                 post_separator_digit_count = ts_post_separator_digits s,
                 discretionary_digit_count = ts_post_separator_digits s - 7,
                 padded = ts_saw_padding s\<rparr>\<rparr>" by blast
    from s(1) obtain ds rest k where "nibbles v = ds @ 0x0d # rest @ replicate k 0x0f"
      "digits_only ds" "ds \<noteq> []" "digits_only rest" "s = \<lparr>ts_pan_digits = ds, ts_saw_separator = True,
           ts_post_separator_digits = length rest, ts_saw_padding = (0 < k)\<rparr>"
      unfolding loop by blast
    with s show ?r by (intro exI [of _ rest] exI [of _ k]) (simp add: Suc_le_eq)
  next
    assume ?r
    then obtain rest k where r: "nibbles v = t2_pan_digits t @ 0x0d # rest @ replicate k 0x0f"
      "digits_only (t2_pan_digits t)" "digits_only rest" "t2_pan_digits t \<noteq> []"
      "length (t2_pan_digits t) \<le> 19" "7 \<le> length rest"
      "t2_summary t = \<lparr>pan_digit_count = length (t2_pan_digits t), post_separator_digit_count = length rest,
          discretionary_digit_count = length rest - 7, padded = (0 < k)\<rparr>"
      by (auto simp: Suc_le_eq)
    define st where "st = \<lparr>ts_pan_digits = t2_pan_digits t, ts_saw_separator = True,
           ts_post_separator_digits = length rest, ts_saw_padding = (0 < k)\<rparr>"
    have "rfold track2_step track2_start (nibbles v) = Inr st \<and> ts_saw_separator st"
      using r by (intro loop [THEN iffD2] exI [of _ "t2_pan_digits t"] exI [of _ rest] exI [of _ k])
        (simp add: st_def)
    moreover from r have "v \<noteq> []" by auto
    ultimately show ?m using r
      by (intro conjI exI [of _ st]) (cases t; simp add: st_def)+
  qed
  finally show ?thesis .
qed

section \<open>What a merge does to the store\<close>

lemma collect_record_entries_iff:
  "distinct (map fst acc) \<Longrightarrow>
   rfold collect_record_entry acc items = Inr es \<longleftrightarrow>
     list_all (\<lambda>t. \<not> tlv_constructed t \<and> \<not> is_non_card_record_tag (tlv_tag t)) items \<and>
     es = acc @ map (\<lambda>t. (tlv_tag t, tlv_value t)) items \<and> distinct (map fst es)"
proof (induction items arbitrary: acc)
  case (Cons t ts)
  have ex: "list_ex (\<lambda>(stored_tag, _). stored_tag = tlv_tag t) acc \<longleftrightarrow> tlv_tag t \<in> fst ` set acc"
    by (force simp: list_ex_iff)
  show ?case
  proof (cases "\<not> tlv_constructed t \<and> \<not> is_non_card_record_tag (tlv_tag t) \<and> tlv_tag t \<notin> fst ` set acc")
    case True
    with Cons.prems have "distinct (map fst (acc @ [(tlv_tag t, tlv_value t)]))" by auto
    from Cons.IH [OF this] True show ?thesis by (simp add: collect_record_entry_def ex)
  next
    case False
    then have "collect_record_entry acc t = Inl ParseError" by (auto simp: collect_record_entry_def ex)
    with False show ?thesis by auto
  qed
qed auto

lemma reject_conflicting_iff:
  "reject_conflicting_record_values es data = Inr () \<longleftrightarrow>
     (\<forall>(tag, v)\<in>set es. ds_get data tag = None \<or> ds_get data tag = Some v)"
  unfolding reject_conflicting_record_values_def
proof (induction es)
  case (Cons e es)
  obtain tag v where e: "e = (tag, v)" by (cases e)
  show ?case by (cases "ds_get data tag") (auto simp: e Cons.IH)
qed simp

lemma record_or_store_value_eq:
  "record_or_store_value es data tag = (ds_get data ++ map_of es) tag"
proof -
  have "map_option snd (List.find (\<lambda>(entry_tag, _). entry_tag = tag) es) = map_of es tag"
    by (induction es) auto
  then show ?thesis by (simp add: record_or_store_value_def map_add_def)
qed

text \<open>Whenever both the PAN and the track 2 data are known, both parse and name the same PAN.\<close>

definition pan_consistent :: "(bytes \<Rightarrow> bytes option) \<Rightarrow> bool" where
  "pan_consistent m \<longleftrightarrow>
     (case (m [0x5a], m [0x57]) of
        (Some pan, Some t2) \<Rightarrow>
          \<exists>digits. pan_digits_from_5a pan = Inr digits \<and> pan_digits_from_track2 t2 = Inr digits
      | _ \<Rightarrow> True)"

lemma validate_cardholder_iff:
  "validate_cardholder_data_consistency es data = Inr () \<longleftrightarrow>
     (\<forall>v. (ds_get data ++ map_of es) [0x5a] = Some v \<longrightarrow> (\<exists>d. pan_digits_from_5a v = Inr d)) \<and>
     (\<forall>v. (ds_get data ++ map_of es) [0x57] = Some v \<longrightarrow> (\<exists>d. pan_digits_from_track2 v = Inr d)) \<and>
     pan_consistent (ds_get data ++ map_of es)"
proof -
  have "rbind (opt_traverse pan_digits_from_5a p) (\<lambda>a. rbind (opt_traverse pan_digits_from_track2 t) (\<lambda>b.
          case (a, b) of (Some pd, Some td) \<Rightarrow> if pd \<noteq> td then Inl ParseError else Inr () | _ \<Rightarrow> Inr ())) = Inr () \<longleftrightarrow>
      (\<forall>v. p = Some v \<longrightarrow> (\<exists>d. pan_digits_from_5a v = Inr d)) \<and>
      (\<forall>v. t = Some v \<longrightarrow> (\<exists>d. pan_digits_from_track2 v = Inr d)) \<and>
      (case (p, t) of (Some pan, Some t2) \<Rightarrow>
          \<exists>digits. pan_digits_from_5a pan = Inr digits \<and> pan_digits_from_track2 t2 = Inr digits
        | _ \<Rightarrow> True)" for p t
    by (cases p; cases t) (auto simp: krn_simps split: if_splits)
  then show ?thesis
    by (simp only: validate_cardholder_data_consistency_def Let_def record_or_store_value_eq pan_consistent_def)
qed

lemma put_entries_prefix:
  "put_entries es data = (r, data') \<Longrightarrow> (\<exists>k. ds_get data' = ds_get data ++ map_of (rev (take k es)) \<and>
     (\<forall>u. r = Inr u \<longrightarrow> take k es = es)) \<and> (ds_inv data \<longrightarrow> ds_inv data')"
proof (induction es arbitrary: data)
  case (Cons e es)
  obtain tag v where e: "e = (tag, v)" by (cases e)
  show ?case
  proof (cases "ds_put data tag v")
    case (Inl err)
    with Cons.prems e show ?thesis by (auto intro: exI [of _ 0])
  next
    case (Inr d1)
    with Cons.prems e have "put_entries es d1 = (r, data')" by simp
    from Cons.IH [OF this] obtain k where k: "ds_get data' = ds_get d1 ++ map_of (rev (take k es))"
      "\<forall>u. r = Inr u \<longrightarrow> take k es = es" "ds_inv d1 \<longrightarrow> ds_inv data'" by blast
    have "ds_get d1 = ds_get data ++ map_of [e]" using ds_put_eq_Inr [OF Inr] by (simp add: e)
    then have "ds_get data' = ds_get data ++ map_of (rev (take (Suc k) (e # es)))"
      by (simp only: k(1) take_Suc_Cons rev.simps map_of_append map_add_assoc)
    with k ds_inv_put [OF _ Inr] show ?thesis by (intro conjI exI [of _ "Suc k"]) auto
  qed
qed (auto intro: exI [of _ 0])

text \<open>Puts of checked entries only ever extend the store, within what the whole record says.\<close>

lemma put_checked_entries:
  assumes p: "put_entries es data = (r, data')" and d: "distinct (map fst es)"
    and c: "reject_conflicting_record_values es data = Inr ()"
  shows "ds_get data \<subseteq>\<^sub>m ds_get data'" "ds_get data' \<subseteq>\<^sub>m ds_get data ++ map_of es"
    "\<forall>u. r = Inr u \<longrightarrow> ds_get data' = ds_get data ++ map_of es"
proof -
  from put_entries_prefix [OF p] obtain k where
    k: "ds_get data' = ds_get data ++ map_of (rev (take k es))" "\<forall>u. r = Inr u \<longrightarrow> take k es = es"
    by blast
  have "distinct (map fst (take k es))" using d by (simp add: take_map [symmetric] distinct_take)
  then have "map_of (rev (take k es)) = map_of (take k es)"
    by (subst map_of_inject_set) (simp_all add: rev_map [symmetric])
  then have m: "ds_get data' = ds_get data ++ map_of (take k es)" by (simp add: k(1))
  have es: "map_of es tag = Some v \<Longrightarrow> ds_get data tag = None \<or> ds_get data tag = Some v" for tag v
    using c by (auto simp: reject_conflicting_iff dest!: map_of_SomeD)
  have tk: "map_of (take k es) tag = Some v \<Longrightarrow> map_of es tag = Some v" for tag v
  proof -
    assume "map_of (take k es) tag = Some v"
    then have "(tag, v) \<in> set es" by (auto dest!: map_of_SomeD in_set_takeD)
    with d show "map_of es tag = Some v" by simp
  qed
  show "ds_get data \<subseteq>\<^sub>m ds_get data'"
    unfolding map_le_def m by (auto simp: map_add_def split: option.split dest!: tk es)
  show "ds_get data' \<subseteq>\<^sub>m ds_get data ++ map_of es"
    unfolding map_le_def m by (auto simp: map_add_def dest: tk es split: option.splits)
  show "\<forall>u. r = Inr u \<longrightarrow> ds_get data' = ds_get data ++ map_of es"
    using k(2) m by metis
qed

lemma check_record_body_iff:
  "check_record_body body data = Inr es \<longleftrightarrow>
     (\<exists>t. parse_many body = Inr [t] \<and> tlv_tag t = [0x70] \<and> tlv_constructed t \<and> es \<noteq> [] \<and>
        list_all (\<lambda>t. \<not> tlv_constructed t \<and> \<not> is_non_card_record_tag (tlv_tag t)) (tlv_children t) \<and>
        es = map (\<lambda>t. (tlv_tag t, tlv_value t)) (tlv_children t) \<and> distinct (map fst es) \<and>
        reject_conflicting_record_values es data = Inr () \<and>
        validate_cardholder_data_consistency es data = Inr ())"
proof -
  have one: "length ts = 1 \<longleftrightarrow> (\<exists>t. ts = [t])" for ts :: "tlv list" by (auto simp: length_Suc_conv)
  have "check_record_body body data = Inr es \<longleftrightarrow>
     (\<exists>t. parse_many body = Inr [t] \<and> tlv_tag t = [0x70] \<and> tlv_constructed t \<and> es \<noteq> [] \<and>
        rfold collect_record_entry [] (tlv_children t) = Inr es \<and>
        reject_conflicting_record_values es data = Inr () \<and>
        validate_cardholder_data_consistency es data = Inr ())"
    (is "_ \<longleftrightarrow> ?r")
  proof
    assume "check_record_body body data = Inr es"
    then show ?r
      by (auto simp: check_record_body_def krn_simps one [unfolded One_nat_def] split: if_splits)
  next
    assume ?r
    then show "check_record_body body data = Inr es" by (auto simp: check_record_body_def)
  qed
  then show ?thesis by (simp add: collect_record_entries_iff)
qed

lemma pan_consistent_mono: "pan_consistent m \<Longrightarrow> m' \<subseteq>\<^sub>m m \<Longrightarrow> pan_consistent m'"
proof -
  assume c: "pan_consistent m" and le: "m' \<subseteq>\<^sub>m m"
  have "m' t = Some v \<Longrightarrow> m t = Some v" for t v
    using le by (metis domI map_le_def)
  with c show ?thesis
    by (auto simp: pan_consistent_def split: option.splits)
qed

lemma parse_read_record_body_cases:
  assumes "parse_read_record_body body data = (r, data')"
  shows "(\<exists>e. r = Inl e) \<and> data' = data \<or>
    (\<exists>es u. check_record_body body data = Inr es \<and> put_entries es data = (u, data') \<and>
       r = rmap (\<lambda>_. length es) u)"
  using assms
  by (auto simp: parse_read_record_body_def split: sum.splits prod.splits)

lemma read_record_store:
  assumes p: "parse_read_record_body body data = (r, data')"
  shows "ds_get data \<subseteq>\<^sub>m ds_get data'" "ds_inv data \<Longrightarrow> ds_inv data'"
    "pan_consistent (ds_get data) \<Longrightarrow> pan_consistent (ds_get data')"
proof -
  from parse_read_record_body_cases [OF p] show "ds_get data \<subseteq>\<^sub>m ds_get data'"
    by (auto simp: check_record_body_iff dest: put_checked_entries(1))
  from parse_read_record_body_cases [OF p] show "ds_inv data \<Longrightarrow> ds_inv data'"
    by (auto dest: put_entries_prefix)
  assume "pan_consistent (ds_get data)"
  with parse_read_record_body_cases [OF p] show "pan_consistent (ds_get data')"
    by (auto simp: check_record_body_iff validate_cardholder_iff
        intro: pan_consistent_mono put_checked_entries(2))
qed

text \<open>Track 2 equivalent data is accepted exactly when its nibbles are a PAN of one to 19 digits, the
  separator, at least seven more digits, and then only filler; the summary counts the digits.
  A PAN field is accepted exactly when its nibbles are one to 19 digits and at most one final
  filler.\<close>

theorem track2_and_pan_formats:
  "(parse_track2_equivalent_data v = Inr t \<longleftrightarrow>
     (\<exists>rest k. nibbles v = t2_pan_digits t @ 0x0d # rest @ replicate k 0x0f \<and>
        digits_only (t2_pan_digits t) \<and> digits_only rest \<and>
        1 \<le> length (t2_pan_digits t) \<and> length (t2_pan_digits t) \<le> 19 \<and> 7 \<le> length rest \<and>
        t2_summary t = \<lparr>pan_digit_count = length (t2_pan_digits t), post_separator_digit_count = length rest,
          discretionary_digit_count = length rest - 7, padded = (0 < k)\<rparr>)) \<and>
   (pan_digits_from_5a w = Inr ds \<longleftrightarrow>
     digits_only ds \<and> 1 \<le> length ds \<and> length ds \<le> 19 \<and> (nibbles w = ds \<or> nibbles w = ds @ [0x0f]))"
  by (simp only: parse_track2_eq_Inr pan_digits_from_5a_iff)

text \<open>C33: Reading a record never changes or removes a value the store already has, keeps the store's
  limits, and never leaves a PAN and track 2 data that disagree, whether it succeeds, is refused
  or fails midway.  On success it adds exactly the children of the one template 70: primitive,
  with distinct tags, none of them reserved to the terminal, the issuer or GENERATE AC, and the
  cardholder data of the result is consistent.\<close>

theorem read_record_merge:
  assumes "parse_read_record_body body data = (r, data')"
  shows "ds_get data \<subseteq>\<^sub>m ds_get data' \<and> (ds_inv data \<longrightarrow> ds_inv data') \<and>
    (pan_consistent (ds_get data) \<longrightarrow> pan_consistent (ds_get data')) \<and>
    (\<forall>n. r = Inr n \<longrightarrow> (\<exists>t. parse_many body = Inr [t] \<and> tlv_tag t = [0x70] \<and>
       n = length (tlv_children t) \<and> 0 < n \<and> distinct (map tlv_tag (tlv_children t)) \<and>
       list_all (\<lambda>c. \<not> tlv_constructed c \<and> \<not> is_non_card_record_tag (tlv_tag c)) (tlv_children t) \<and>
       ds_get data' = ds_get data ++ map_of (map (\<lambda>c. (tlv_tag c, tlv_value c)) (tlv_children t)) \<and>
       pan_consistent (ds_get data')))"
proof (intro conjI allI impI)
  fix n assume "r = Inr n"
  with parse_read_record_body_cases [OF assms] obtain es u where
    "check_record_body body data = Inr es" "put_entries es data = (u, data')" "Inr n = rmap (\<lambda>_. length es) u"
    by auto
  then have es: "check_record_body body data = Inr es" "put_entries es data = (Inr (), data')" "n = length es"
    by (cases u; simp)+
  from es(1) obtain t where t: "parse_many body = Inr [t]" "tlv_tag t = [0x70]" "es \<noteq> []"
    "list_all (\<lambda>t. \<not> tlv_constructed t \<and> \<not> is_non_card_record_tag (tlv_tag t)) (tlv_children t)"
    "es = map (\<lambda>t. (tlv_tag t, tlv_value t)) (tlv_children t)" "distinct (map fst es)"
    and c: "reject_conflicting_record_values es data = Inr ()"
    "validate_cardholder_data_consistency es data = Inr ()"
    unfolding check_record_body_iff by blast
  have g: "ds_get data' = ds_get data ++ map_of es"
    using put_checked_entries(3) [OF es(2) t(6) c(1)] by simp
  with c(2) have "pan_consistent (ds_get data')" by (simp add: validate_cardholder_iff)
  with t g es(3) show "\<exists>t. parse_many body = Inr [t] \<and> tlv_tag t = [0x70] \<and>
       n = length (tlv_children t) \<and> 0 < n \<and> distinct (map tlv_tag (tlv_children t)) \<and>
       list_all (\<lambda>c. \<not> tlv_constructed c \<and> \<not> is_non_card_record_tag (tlv_tag c)) (tlv_children t) \<and>
       ds_get data' = ds_get data ++ map_of (map (\<lambda>c. (tlv_tag c, tlv_value c)) (tlv_children t)) \<and>
       pan_consistent (ds_get data')"
    by (intro exI [of _ t]) (simp add: comp_def)
qed (use read_record_store [OF assms] in auto)

lemma read_record_merge_witness:
  "ds_get (snd (parse_read_record_body [0x70, 0x05, 0x5f, 0x20, 0x02, 0x41, 0x42] ds_new)) [0x5f, 0x20]
     = Some [0x41, 0x42]"
proof -
  let ?b = "[0x70, 0x05, 0x5f, 0x20, 0x02, 0x41, 0x42] :: bytes"
  let ?t = "Tlv [0x70] [0x5f, 0x20, 0x02, 0x41, 0x42] True [Tlv [0x5f, 0x20] [0x41, 0x42] False []]"
  have p: "parse_many ?b = Inr [?t]"
    by (simp add: parse_many_eq_Inr wf_tlv_iff encode_forest_def encode_tlv_def canonical_length_def
        constructed_tag_def)
  have nt: "\<not> is_non_card_record_tag [0x5f, 0x20]" by code_simp
  have "check_record_body ?b ds_new = Inr [([0x5f, 0x20], [0x41, 0x42])]"
    by (simp add: check_record_body_iff p nt reject_conflicting_iff validate_cardholder_iff
        pan_consistent_def)
  moreover have "put_entries [([0x5f, 0x20], [0x41, 0x42])] ds_new
      = (Inr (), \<lparr>ds_entries = [([0x5f, 0x20], [0x41, 0x42])]\<rparr>)"
    by (simp add: ds_put_def ds_new_def validate_data_tag_iff [THEN iffD2] MAX_DATASTORE_VALUE_LEN_def
        MAX_DATASTORE_ENTRIES_def)
  ultimately have r: "parse_read_record_body ?b ds_new
      = (Inr 1, \<lparr>ds_entries = [([0x5f, 0x20], [0x41, 0x42])]\<rparr>)"
    by (simp add: parse_read_record_body_def)
  from read_record_merge [OF r] p show ?thesis by (auto simp: r)
qed

end
