(* ===== verification/Emv_Kernel.thy ===== *)
theory Emv_Kernel
  imports Emv_Oda Emv_Selection Emv_Profiles Emv_Cvm Emv_Trm Emv_Taa Emv_C8 Emv_Terminal Emv_Transaction
    Emv_Issuer Emv_Gpo Emv_Fsm Emv_Restrictions Emv_Numeric Emv_Record
begin

text \<open>
  The kernel context and its effects (the first part of \<open>src/src/ffi.rs\<close>, and the timeouts of
  \<open>cert_bundle.rs\<close> it holds): the context record, operations on it as functions that return a
  result and the changed context, the callbacks into the terminal, the exchange of commands with
  the card and its follow-up exchanges.

  The callbacks act on an environment outside the kernel (card, terminal, random source).  Its
  state is the type variable \<open>'w\<close>; the field \<open>kc_world\<close> of the context record carries it.
  A callback is a function of its arguments and that state, so it may answer differently each
  time and depend on everything that happened before.
\<close>

unbundle bit_operations_syntax

section \<open>Operations on a state that may fail\<close>

text \<open>
  A function of the source that takes \<open>&mut KrnContext\<close> and returns a \<open>Result\<close>: the changes made
  before an error stay.
\<close>

type_synonym ('s, 'a) krn = "'s \<Rightarrow> 'a krn_result \<times> 's"

definition kret :: "'a \<Rightarrow> ('s, 'a) krn" where
  "kret a = (\<lambda>s. (Inr a, s))"

definition kfail :: "kernel_error \<Rightarrow> ('s, 'a) krn" where
  "kfail e = (\<lambda>s. (Inl e, s))"

text \<open>A result computed without the state, one computed by reading it, and a change.\<close>

definition klift :: "'a krn_result \<Rightarrow> ('s, 'a) krn" where
  "klift r = (\<lambda>s. (r, s))"

definition kask :: "('s \<Rightarrow> 'a krn_result) \<Rightarrow> ('s, 'a) krn" where
  "kask f = (\<lambda>s. (f s, s))"

definition kmod :: "('s \<Rightarrow> 's) \<Rightarrow> ('s, unit) krn" where
  "kmod g = (\<lambda>s. (Inr (), g s))"

definition kbind :: "('s, 'a) krn \<Rightarrow> ('a \<Rightarrow> ('s, 'b) krn) \<Rightarrow> ('s, 'b) krn" where
  "kbind m f = (\<lambda>s. case m s of (Inl e, s') \<Rightarrow> (Inl e, s') | (Inr a, s') \<Rightarrow> f a s')"

named_theorems kexec \<open>what the operations do to a state\<close>

lemma kret_exec [kexec]: "kret a s = (Inr a, s)"
  and kfail_exec [kexec]: "kfail e s = (Inl e, s)"
  and klift_exec [kexec]: "klift r s = (r, s)"
  and kask_exec [kexec]: "kask f s = (f s, s)"
  and kmod_exec [kexec]: "kmod g s = (Inr (), g s)"
  by (simp_all add: kret_def kfail_def klift_def kask_def kmod_def)

lemma kbind_exec:
  "kbind m f s = (case m s of (Inl e, s') \<Rightarrow> (Inl e, s') | (Inr a, s') \<Rightarrow> f a s')"
  by (simp add: kbind_def)

lemma kbind_of_Inr [kexec]: "m s = (Inr a, s') \<Longrightarrow> kbind m f s = f a s'"
  by (simp add: kbind_def)

lemma kbind_of_Inl [kexec]: "m s = (Inl e, s') \<Longrightarrow> kbind m f s = (Inl e, s')"
  by (simp add: kbind_def)

lemma kbind_steps [kexec]:
  "kbind (kret a) f s = f a s"
  "kbind (kfail e) f s = (Inl e, s)"
  "kbind (kmod g) h s = h () (g s)"
  "kbind (klift (Inr a)) f s = f a s"
  "kbind (klift (Inl e)) f s = (Inl e, s)"
  by (simp_all add: kbind_def kexec)

lemma kbind_assoc: "kbind (kbind m f) g = kbind m (\<lambda>a. kbind (f a) g)"
  by (rule ext) (simp add: kbind_def split: prod.split sum.split)

lemma kbind_kret: "kbind m kret = m"
  by (rule ext) (simp add: kbind_def kret_def split: prod.split sum.split)

text \<open>Runs that return a value, step by step.\<close>

lemma kbind_Inr_iff: "kbind m f s = (Inr b, t) \<longleftrightarrow> (\<exists>a s'. m s = (Inr a, s') \<and> f a s' = (Inr b, t))"
  by (simp add: kbind_def split: prod.split sum.split)

lemma kbind_InrE:
  assumes "kbind m f s = (Inr b, t)"
  obtains a s' where "m s = (Inr a, s')" and "f a s' = (Inr b, t)"
  using assms by (auto simp: kbind_Inr_iff)

lemma kask_Inr_iff: "kask f s = (Inr a, t) \<longleftrightarrow> f s = Inr a \<and> t = s"
  and klift_Inr_iff: "klift r s = (Inr a, t) \<longleftrightarrow> r = Inr a \<and> t = s"
  and kmod_Inr_iff: "kmod g s = (Inr u, t) \<longleftrightarrow> t = g s"
  and kret_Inr_iff: "kret a s = (Inr b, t) \<longleftrightarrow> b = a \<and> t = s"
  and kfail_Inr_iff: "kfail e s = (Inr b, t) \<longleftrightarrow> False"
  by (auto simp: kexec)

lemmas krun_simps = kbind_Inr_iff kask_Inr_iff klift_Inr_iff kmod_Inr_iff kret_Inr_iff kfail_Inr_iff

lemma kbind_cong [fundef_cong]:
  "m s = m' s \<Longrightarrow> (\<And>a s'. m' s = (Inr a, s') \<Longrightarrow> f a s' = g a s') \<Longrightarrow> s = t \<Longrightarrow> kbind m f s = kbind m' g t"
  by (simp add: kbind_def split: prod.split sum.split)

section \<open>Weakest preconditions\<close>

text \<open>
  \<open>kwp m s Q E\<close>: started in \<open>s\<close>, \<open>m\<close> either returns a value and ends in a state with \<open>Q\<close>, or fails
  and ends in one with \<open>E\<close>.  There is one equation per construct, so that rewriting with
  \<open>kwp_simps\<close> turns a claim about a stage into one about the values it reads.
\<close>

definition kwp :: "('s, 'a) krn \<Rightarrow> 's \<Rightarrow> ('a \<Rightarrow> 's \<Rightarrow> bool) \<Rightarrow> (kernel_error \<Rightarrow> 's \<Rightarrow> bool) \<Rightarrow> bool" where
  "kwp m s Q E = (case m s of (Inr a, t) \<Rightarrow> Q a t | (Inl e, t) \<Rightarrow> E e t)"

abbreviation kpost :: "('s, 'a) krn \<Rightarrow> 's \<Rightarrow> ('a \<Rightarrow> 's \<Rightarrow> bool) \<Rightarrow> bool" where
  "kpost m s Q \<equiv> kwp m s Q (\<lambda>_ _. True)"

named_theorems kwp_simps \<open>weakest preconditions\<close>

lemma kwp_kret [kwp_simps]: "kwp (kret a) s Q E \<longleftrightarrow> Q a s"
  by (simp add: kwp_def kexec)

lemma kwp_kfail [kwp_simps]: "kwp (kfail e) s Q E \<longleftrightarrow> E e s"
  by (simp add: kwp_def kexec)

lemma kwp_kmod [kwp_simps]: "kwp (kmod g) s Q E \<longleftrightarrow> Q () (g s)"
  by (simp add: kwp_def kexec)

lemma kwp_klift [kwp_simps]:
  "kwp (klift r) s Q E \<longleftrightarrow> (\<forall>a. r = Inr a \<longrightarrow> Q a s) \<and> (\<forall>e. r = Inl e \<longrightarrow> E e s)"
  by (auto simp: kwp_def kexec split: sum.split)

lemma kwp_kask [kwp_simps]:
  "kwp (kask f) s Q E \<longleftrightarrow> (\<forall>a. f s = Inr a \<longrightarrow> Q a s) \<and> (\<forall>e. f s = Inl e \<longrightarrow> E e s)"
  by (auto simp: kwp_def kexec split: sum.split)

lemma kwp_kbind [kwp_simps]: "kwp (kbind m f) s Q E \<longleftrightarrow> kwp m s (\<lambda>a t. kwp (f a) t Q E) E"
  by (auto simp: kwp_def kbind_def split: prod.split sum.split)

lemma kwp_if [kwp_simps]: "kwp (if b then m else n) s Q E \<longleftrightarrow> (if b then kwp m s Q E else kwp n s Q E)"
  by simp

lemma kwp_option [kwp_simps]:
  "kwp (case v of None \<Rightarrow> m | Some x \<Rightarrow> f x) s Q E \<longleftrightarrow> (case v of None \<Rightarrow> kwp m s Q E | Some x \<Rightarrow> kwp (f x) s Q E)"
  by (cases v) simp_all

lemma kwp_prod [kwp_simps]:
  "kwp (case p of (x, y) \<Rightarrow> f x y) s Q E \<longleftrightarrow> (case p of (x, y) \<Rightarrow> kwp (f x y) s Q E)"
  by (cases p) simp

lemma kwp_sum [kwp_simps]:
  "kwp (case v of Inl x \<Rightarrow> f x | Inr y \<Rightarrow> g y) s Q E \<longleftrightarrow>
     (case v of Inl x \<Rightarrow> kwp (f x) s Q E | Inr y \<Rightarrow> kwp (g y) s Q E)"
  by (cases v) simp_all

lemma kwp_mono:
  "kwp m s Q E \<Longrightarrow> (\<And>a t. m s = (Inr a, t) \<Longrightarrow> Q a t \<Longrightarrow> Q' a t) \<Longrightarrow>
     (\<And>e t. m s = (Inl e, t) \<Longrightarrow> E e t \<Longrightarrow> E' e t) \<Longrightarrow> kwp m s Q' E'"
  by (auto simp: kwp_def split: prod.splits sum.splits)

lemma kwpI: "(\<And>a t. m s = (Inr a, t) \<Longrightarrow> Q a t) \<Longrightarrow> (\<And>e t. m s = (Inl e, t) \<Longrightarrow> E e t) \<Longrightarrow> kwp m s Q E"
  by (auto simp: kwp_def split: prod.splits sum.splits)

lemma kwp_Inr: "kwp m s Q E \<Longrightarrow> m s = (Inr a, t) \<Longrightarrow> Q a t"
  and kwp_Inl: "kwp m s Q E \<Longrightarrow> m s = (Inl e, t) \<Longrightarrow> E e t"
  by (simp_all add: kwp_def)

lemma kwp_conj: "kwp m s Q E \<Longrightarrow> kwp m s Q' E' \<Longrightarrow> kwp m s (\<lambda>a t. Q a t \<and> Q' a t) (\<lambda>e t. E e t \<and> E' e t)"
  by (auto simp: kwp_def split: prod.splits sum.splits)

section \<open>What every run keeps\<close>

text \<open>
  \<open>within R m\<close>: whatever \<open>m\<close> returns, an error included, the state it ends in is related by \<open>R\<close> to
  the one it started from.  For a preorder this is closed under sequencing; the locale states it
  once and the relations below (frames, registers that only grow, moves of the state machine)
  interpret it.
\<close>

definition within :: "('s \<Rightarrow> 's \<Rightarrow> bool) \<Rightarrow> ('s, 'a) krn \<Rightarrow> bool" where
  "within R m \<longleftrightarrow> (\<forall>s. R s (snd (m s)))"

lemma withinD: "within R m \<Longrightarrow> m s = (r, t) \<Longrightarrow> R s t"
  unfolding within_def by (metis snd_conv)

lemma withinI: "(\<And>s r t. m s = (r, t) \<Longrightarrow> R s t) \<Longrightarrow> within R m"
  unfolding within_def by (metis prod.collapse)

locale step_relation =
  fixes R :: "'s \<Rightarrow> 's \<Rightarrow> bool"
  assumes R_refl: "R s s"
    and R_trans: "R s t \<Longrightarrow> R t u \<Longrightarrow> R s u"
begin

lemma within_kret: "within R (kret a)" and within_kfail: "within R (kfail e)"
  and within_klift: "within R (klift r)" and within_kask: "within R (kask f)"
  by (simp_all add: within_def kexec R_refl)

lemma within_kmod: "(\<And>s. R s (g s)) \<Longrightarrow> within R (kmod g)"
  by (simp add: within_def kexec)

lemma within_kbind:
  assumes m: "within R m" and f: "\<And>a. within R (f a)"
  shows "within R (kbind m f)"
proof (rule withinI)
  fix s r t
  assume run: "kbind m f s = (r, t)"
  obtain q s' where q: "m s = (q, s')" by fastforce
  have s': "R s s'" by (rule withinD [OF m q])
  show "R s t"
  proof (cases q)
    case (Inl e)
    then show ?thesis using run q s' by (simp add: kbind_def)
  next
    case (Inr a)
    then have "f a s' = (r, t)" using run q by (simp add: kbind_def)
    from withinD [OF f this] show ?thesis using s' R_trans by blast
  qed
qed

lemma within_if: "(b \<Longrightarrow> within R m) \<Longrightarrow> (\<not> b \<Longrightarrow> within R n) \<Longrightarrow> within R (if b then m else n)"
  by simp

lemma within_option:
  "within R m \<Longrightarrow> (\<And>x. within R (f x)) \<Longrightarrow> within R (case v of None \<Rightarrow> m | Some x \<Rightarrow> f x)"
  by (cases v) simp_all

lemma within_prod: "(\<And>x y. within R (f x y)) \<Longrightarrow> within R (case p of (x, y) \<Rightarrow> f x y)"
  by (cases p) simp

lemmas within_rules = within_kbind within_kret within_kfail within_klift within_kask within_kmod
  within_option within_prod

end

section \<open>The context\<close>

definition KRN_ABI_VERSION :: nat where "KRN_ABI_VERSION = 2"
definition MAX_MERCHANT_NAME_LOCATION_LEN :: nat where "MAX_MERCHANT_NAME_LOCATION_LEN = 128"
definition MAX_APDU_RESPONSE_LEN :: nat where "MAX_APDU_RESPONSE_LEN = 258"
definition MAX_ONLINE_AUTH_DATA_LEN :: nat where "MAX_ONLINE_AUTH_DATA_LEN = 1024"
definition MAX_HOST_RESPONSE_LEN :: nat where "MAX_HOST_RESPONSE_LEN = 1024"
definition KRN_CALLBACK_TIMEOUT_MIN_MS :: int where "KRN_CALLBACK_TIMEOUT_MIN_MS = 1"
definition KRN_CALLBACK_TIMEOUT_MAX_MS :: int where "KRN_CALLBACK_TIMEOUT_MAX_MS = 60000"
definition KRN_PROFILE_SHA256_LEN :: nat where "KRN_PROFILE_SHA256_LEN = 32"
definition KRN_PIN_METHOD_OFFLINE_PLAINTEXT :: byte where "KRN_PIN_METHOD_OFFLINE_PLAINTEXT = 1"
definition KRN_PIN_METHOD_OFFLINE_ENCIPHERED :: byte where "KRN_PIN_METHOD_OFFLINE_ENCIPHERED = 2"
definition KRN_INTERFACE_CONTACT :: byte where "KRN_INTERFACE_CONTACT = 1"
definition KRN_INTERFACE_CONTACTLESS :: byte where "KRN_INTERFACE_CONTACTLESS = 2"
definition KRN_SCRIPT_PHASE_BEFORE_FINAL_GAC :: byte where "KRN_SCRIPT_PHASE_BEFORE_FINAL_GAC = 1"
definition KRN_SCRIPT_PHASE_AFTER_FINAL_GAC :: byte where "KRN_SCRIPT_PHASE_AFTER_FINAL_GAC = 2"
definition KRN_ISSUER_SCRIPT_IDENTIFIER_LEN :: nat where "KRN_ISSUER_SCRIPT_IDENTIFIER_LEN = 4"
definition MAX_APDU_FOLLOWUPS :: nat where "MAX_APDU_FOLLOWUPS = 4"

datatype krn_outcome =
    ApprovedOffline | DeclinedOffline | ApprovedOnline | DeclinedOnline | TryAgain
  | OutcomeAlternateInterface | SelectNext | Terminated | OutcomeError | OnlineRequired

fun outcome_code :: "krn_outcome \<Rightarrow> int" where
  "outcome_code ApprovedOffline = 0"
| "outcome_code DeclinedOffline = 1"
| "outcome_code ApprovedOnline = 2"
| "outcome_code DeclinedOnline = 3"
| "outcome_code TryAgain = 4"
| "outcome_code OutcomeAlternateInterface = 5"
| "outcome_code SelectNext = 6"
| "outcome_code Terminated = 7"
| "outcome_code OutcomeError = 8"
| "outcome_code OnlineRequired = 9"

record stored_txn_params =
  tp_amount_authorised_minor :: u64
  tp_amount_other_minor :: u64
  tp_currency_code :: u16
  tp_currency_exponent :: byte
  tp_terminal_country_code :: u16
  tp_transaction_type :: byte
  tp_terminal_type :: byte
  tp_merchant_category_code :: arr2
  tp_interface_preference :: byte
  tp_merchant_name_location :: bytes

record selected_application =
  sa_aid :: bytes
  sa_scheme_index :: nat
  sa_aid_index :: nat
  sa_aip :: "arr2 option"
  sa_afl :: "afl_entry list"

record runtime_cvm_capabilities =
  rcc_offline_pin_supported :: bool
  rcc_online_pin_supported :: bool
  rcc_signature_supported :: bool
  rcc_cdcvm_performed :: bool

definition cvm_capabilities_default :: runtime_cvm_capabilities where
  "cvm_capabilities_default =
     \<lparr>rcc_offline_pin_supported = False, rcc_online_pin_supported = False,
      rcc_signature_supported = False, rcc_cdcvm_performed = False\<rparr>"

definition cvm_pin_handles_none :: cvm_pin_handles where
  "cvm_pin_handles_none = \<lparr>offline_plaintext = None, offline_enciphered = None\<rparr>"

record captured_issuer_script_result =
  cis_phase :: script_phase
  cis_script_index :: u16
  cis_command_index :: u16
  cis_script_identifier :: "bytes option"
  cis_result :: script_command_result

record callback_timeout_profile =
  apdu_transport_timeout_ms :: int
  host_authorization_timeout_ms :: int
  pin_entry_timeout_ms :: int
  contactless_ui_timeout_ms :: int

definition callback_timeouts_defaults :: callback_timeout_profile where
  "callback_timeouts_defaults =
     \<lparr>apdu_transport_timeout_ms = 500, host_authorization_timeout_ms = 30000,
      pin_entry_timeout_ms = 30000, contactless_ui_timeout_ms = 5000\<rparr>"

text \<open>
  The callbacks of the terminal.  \<open>transmit_apdu\<close> is given the command, the timeout and the user
  data; it returns its status, the bytes it wrote to the start of the response buffer and the
  length it reported.  \<open>get_unpredictable_number\<close> is given the length of the buffer and the user
  data, and returns its status and the bytes it wrote.  The user data is an opaque pointer.
\<close>

record 'w runtime_callbacks =
  rt_transmit_apdu :: "bytes \<Rightarrow> int \<Rightarrow> nat \<Rightarrow> 'w \<Rightarrow> (int \<times> bytes \<times> nat) \<times> 'w"
  rt_get_unpredictable_number :: "nat \<Rightarrow> nat \<Rightarrow> 'w \<Rightarrow> (int \<times> bytes) \<times> 'w"
  rt_contactless_outcome :: "(krn_contactless_outcome \<Rightarrow> nat \<Rightarrow> 'w \<Rightarrow> 'w) option"
  rt_user_data :: nat

record 'w krn_context =
  kc_state :: kernel_state
  kc_fsm_state :: fsm_state
  kc_tvr :: tvr
  kc_tsi :: tsi
  kc_last_error :: kernel_error
  kc_busy :: bool
  kc_txn_params :: "stored_txn_params option"
  kc_profiles :: "profile_set option"
  kc_profile_sha256 :: "bytes option"
  kc_profile_evaluation_date :: "emv_date option"
  kc_certification_bundle_sha256 :: "bytes option"
  kc_certification_bundle_payload_sha256 :: "bytes option"
  kc_certification_bundle_rollback_counter :: u64
  kc_callback_timeouts :: callback_timeout_profile
  kc_selected_application :: "selected_application option"
  kc_selected_oda_method :: "oda_method option"
  kc_requested_cryptogram :: "cryptogram_request option"
  kc_first_gac_response :: "generate_ac_response option"
  kc_final_gac_response :: "generate_ac_response option"
  kc_final_outcome :: "krn_outcome option"
  kc_online_authorization_data :: "bytes option"
  kc_host_response :: "host_response option"
  kc_issuer_script_results :: "captured_issuer_script_result list"
  kc_card_data :: data_store
  kc_offline_auth_records :: "static_authentication_record list"
  kc_cvm_pin_handles :: cvm_pin_handles
  kc_cvm_capabilities :: runtime_cvm_capabilities
  kc_terminal_capabilities :: "terminal_capabilities option"
  kc_additional_terminal_capabilities :: "additional_terminal_capabilities option"
  kc_terminal_transaction_qualifiers :: "terminal_transaction_qualifiers option"
  kc_offline_counter :: "offline_counter option"
  kc_trm_random_sample_basis_points :: "u16 option"
  kc_last_unpredictable_number :: "bytes option"
  kc_runtime :: "'w runtime_callbacks option"
  kc_contactless_outcome_callback :: "(krn_contactless_outcome \<Rightarrow> nat \<Rightarrow> 'w \<Rightarrow> 'w) option"
  kc_contactless_outcome_user_data :: nat
  kc_world :: 'w

definition krn_context_empty :: "'w \<Rightarrow> 'w krn_context" where
  "krn_context_empty w =
     \<lparr>kc_state = K_Idle, kc_fsm_state = S0, kc_tvr = tvr_cleared, kc_tsi = tsi_cleared,
      kc_last_error = Ok, kc_busy = False, kc_txn_params = None, kc_profiles = None,
      kc_profile_sha256 = None, kc_profile_evaluation_date = None,
      kc_certification_bundle_sha256 = None, kc_certification_bundle_payload_sha256 = None,
      kc_certification_bundle_rollback_counter = 0, kc_callback_timeouts = callback_timeouts_defaults,
      kc_selected_application = None, kc_selected_oda_method = None, kc_requested_cryptogram = None,
      kc_first_gac_response = None, kc_final_gac_response = None, kc_final_outcome = None,
      kc_online_authorization_data = None, kc_host_response = None, kc_issuer_script_results = [],
      kc_card_data = ds_new, kc_offline_auth_records = [], kc_cvm_pin_handles = cvm_pin_handles_none,
      kc_cvm_capabilities = cvm_capabilities_default, kc_terminal_capabilities = None,
      kc_additional_terminal_capabilities = None, kc_terminal_transaction_qualifiers = None,
      kc_offline_counter = None, kc_trm_random_sample_basis_points = None,
      kc_last_unpredictable_number = None, kc_runtime = None, kc_contactless_outcome_callback = None,
      kc_contactless_outcome_user_data = 0, kc_world = w\<rparr>"

text \<open>The fields that a transaction builds up, cleared before the next one.\<close>

definition clear_transaction_artifacts :: "'w krn_context \<Rightarrow> 'w krn_context" where
  "clear_transaction_artifacts ctx =
     ctx\<lparr>kc_tvr := tvr_cleared, kc_tsi := tsi_cleared, kc_selected_application := None,
         kc_selected_oda_method := None, kc_requested_cryptogram := None,
         kc_first_gac_response := None, kc_final_gac_response := None, kc_final_outcome := None,
         kc_online_authorization_data := None, kc_host_response := None,
         kc_issuer_script_results := [], kc_card_data := ds_new, kc_offline_auth_records := [],
         kc_cvm_pin_handles := cvm_pin_handles_none, kc_cvm_capabilities := cvm_capabilities_default,
         kc_terminal_capabilities := None, kc_additional_terminal_capabilities := None,
         kc_terminal_transaction_qualifiers := None, kc_offline_counter := None,
         kc_trm_random_sample_basis_points := None\<rparr>"

definition krn_context_reset :: "'w krn_context \<Rightarrow> 'w krn_context" where
  "krn_context_reset ctx =
     (clear_transaction_artifacts ctx)
       \<lparr>kc_state := K_Idle, kc_fsm_state := S0, kc_last_error := Ok, kc_busy := False,
        kc_txn_params := None\<rparr>"

definition set_result :: "'w krn_context \<Rightarrow> 'a krn_result \<Rightarrow> int \<times> 'w krn_context" where
  "set_result ctx result = (case result of
       Inr _ \<Rightarrow> (error_code Ok, ctx\<lparr>kc_last_error := Ok\<rparr>)
     | Inl err \<Rightarrow> (error_code err, ctx\<lparr>kc_last_error := err\<rparr>))"

definition apdu_timeout :: "'w krn_context \<Rightarrow> int" where
  "apdu_timeout ctx = apdu_transport_timeout_ms (kc_callback_timeouts ctx)"

section \<open>Calling into the terminal\<close>

text \<open>A callback changes the environment and nothing else of the context.\<close>

definition kcall :: "('w \<Rightarrow> 'r \<times> 'w) \<Rightarrow> ('w krn_context, 'r) krn" where
  "kcall f = (\<lambda>ctx. case f (kc_world ctx) of (r, w) \<Rightarrow> (Inr r, ctx\<lparr>kc_world := w\<rparr>))"

text \<open>A zeroed buffer of \<open>n\<close> bytes after the callback wrote to its start.\<close>

definition callback_buffer :: "nat \<Rightarrow> bytes \<Rightarrow> bytes" where
  "callback_buffer n written = take n (written @ replicate n 0)"

lemma length_callback_buffer: "length (callback_buffer n written) = n"
  by (simp add: callback_buffer_def)

definition validate_callback_timeout :: "int \<Rightarrow> unit krn_result" where
  "validate_callback_timeout timeout_ms =
     (if KRN_CALLBACK_TIMEOUT_MIN_MS \<le> timeout_ms \<and> timeout_ms \<le> KRN_CALLBACK_TIMEOUT_MAX_MS
      then Inr () else Inl InvalidArgument)"

definition transmit_apdu :: "'w runtime_callbacks \<Rightarrow> bytes \<Rightarrow> int \<Rightarrow> ('w krn_context, bytes) krn" where
  "transmit_apdu runtime command timeout_ms =
     kbind (klift (validate_callback_timeout timeout_ms)) (\<lambda>_.
     kbind (kcall (rt_transmit_apdu runtime command timeout_ms (rt_user_data runtime)))
       (\<lambda>(status, written, response_len).
         if status \<noteq> error_code Ok
         then kfail (case error_from_code status of Some e \<Rightarrow> e | None \<Rightarrow> InternalError)
         else if response_len > MAX_APDU_RESPONSE_LEN then kfail LengthOverflow
         else kret (take response_len (callback_buffer MAX_APDU_RESPONSE_LEN written))))"

definition retry_apdu_with_le :: "bytes \<Rightarrow> byte \<Rightarrow> bytes krn_result" where
  "retry_apdu_with_le command le =
     (if length command < 4 then Inl InvalidArgument
      else if length command = 4 then Inr (command @ [le])
      else if length command = 5 then Inr (command[4 := le])
      else let lc = unat (command ! 4) in
        if length command = 5 + lc then Inr (command @ [le])
        else if length command = 6 + lc then Inr (butlast command @ [le])
        else Inl InvalidArgument)"

text \<open>The loop over the attempts, with the number that is left.\<close>

fun followup_loop ::
    "'w runtime_callbacks \<Rightarrow> int \<Rightarrow> apdu_context \<Rightarrow> nat \<Rightarrow> bytes \<Rightarrow> ('w krn_context, bytes) krn" where
  "followup_loop runtime timeout_ms c 0 current_command = kfail LengthOverflow"
| "followup_loop runtime timeout_ms c (Suc attempts) current_command =
     kbind (transmit_apdu runtime current_command timeout_ms) (\<lambda>response.
       if length response < 2 then kfail ParseError
       else let sw = \<lparr>sw1 = response ! (length response - 2), sw2 = response ! (length response - 1)\<rparr> in
         case classify c sw of
           GetResponse len \<Rightarrow>
             kbind (klift (apdu_encode (get_response len))) (followup_loop runtime timeout_ms c attempts)
         | RetryWithLe le \<Rightarrow>
             kbind (klift (retry_apdu_with_le current_command le)) (followup_loop runtime timeout_ms c attempts)
         | _ \<Rightarrow> kret response)"

definition transmit_apdu_with_followups ::
    "'w runtime_callbacks \<Rightarrow> bytes \<Rightarrow> int \<Rightarrow> apdu_context \<Rightarrow> ('w krn_context, bytes) krn" where
  "transmit_apdu_with_followups runtime command timeout_ms c =
     followup_loop runtime timeout_ms c (MAX_APDU_FOLLOWUPS + 1) command"

definition request_unpredictable_number ::
    "'w runtime_callbacks \<Rightarrow> bytes option \<Rightarrow> ('w krn_context, bytes) krn" where
  "request_unpredictable_number runtime previous =
     kbind (kcall (rt_get_unpredictable_number runtime 4 (rt_user_data runtime))) (\<lambda>(status, written).
       let number = callback_buffer 4 written in
       if status \<noteq> error_code Ok then kfail RngFailure
       else if list_all (\<lambda>b. b = 0) number \<or> list_all (\<lambda>b. b = 0xff) number \<or> previous = Some number
       then kfail RngFailure
       else kret number)"

definition emit_contactless_outcome_value :: "contactless_outcome \<Rightarrow> ('w krn_context, unit) krn" where
  "emit_contactless_outcome_value outcome =
     kbind (kask (\<lambda>ctx. ok_or (kc_contactless_outcome_callback ctx) InvalidArgument)) (\<lambda>callback.
       kmod (\<lambda>ctx. ctx\<lparr>kc_world := callback (as_ffi outcome) (kc_contactless_outcome_user_data ctx) (kc_world ctx)\<rparr>))"

text \<open>The rows of the table as equations.\<close>

lemma transition_eqs:
  "transition S0 EvSetTransactionParams = Inr \<lparr>tr_from = S0, tr_event = EvSetTransactionParams, tr_to = S1, tr_action = DoStoreTransactionParams, tr_error = Ok\<rparr>"
  "transition S1 EvCardDetected = Inr \<lparr>tr_from = S1, tr_event = EvCardDetected, tr_to = S2, tr_action = DoStartSelection, tr_error = Ok\<rparr>"
  "transition S1 EvCardDetectionTimeout = Inr \<lparr>tr_from = S1, tr_event = EvCardDetectionTimeout, tr_to = S1, tr_action = DoRetryDetection, tr_error = Ok\<rparr>"
  "transition S2 EvPseSelected = Inr \<lparr>tr_from = S2, tr_event = EvPseSelected, tr_to = S2AidList, tr_action = DoBuildCandidateList, tr_error = Ok\<rparr>"
  "transition S2 EvPseNotFound = Inr \<lparr>tr_from = S2, tr_event = EvPseNotFound, tr_to = S2AidList, tr_action = DoBuildCandidateList, tr_error = Ok\<rparr>"
  "transition S2AidList EvCandidateAidAvailable = Inr \<lparr>tr_from = S2AidList, tr_event = EvCandidateAidAvailable, tr_to = S2SelectAid, tr_action = DoSelectNextAid, tr_error = Ok\<rparr>"
  "transition S2AidList EvNoCandidateLeft = Inr \<lparr>tr_from = S2AidList, tr_event = EvNoCandidateLeft, tr_to = Se, tr_action = DoSetNoCommonAid, tr_error = NoCommonAid\<rparr>"
  "transition S2SelectAid EvAidSelected = Inr \<lparr>tr_from = S2SelectAid, tr_event = EvAidSelected, tr_to = S3, tr_action = DoBuildGpo, tr_error = Ok\<rparr>"
  "transition S2SelectAid EvAidNotSupported = Inr \<lparr>tr_from = S2SelectAid, tr_event = EvAidNotSupported, tr_to = S2AidList, tr_action = DoBuildCandidateList, tr_error = Ok\<rparr>"
  "transition S3 EvGpoTemplate77 = Inr \<lparr>tr_from = S3, tr_event = EvGpoTemplate77, tr_to = S4, tr_action = DoReadRecords, tr_error = Ok\<rparr>"
  "transition S3 EvGpoTemplate80 = Inr \<lparr>tr_from = S3, tr_event = EvGpoTemplate80, tr_to = S5, tr_action = DoStartOda, tr_error = Ok\<rparr>"
  "transition S3 EvGpoFailed = Inr \<lparr>tr_from = S3, tr_event = EvGpoFailed, tr_to = Se, tr_action = DoError, tr_error = MissingMandatoryTag\<rparr>"
  "transition S4 EvRecordRead = Inr \<lparr>tr_from = S4, tr_event = EvRecordRead, tr_to = S4Next, tr_action = DoContinueAfl, tr_error = Ok\<rparr>"
  "transition S4 EvEndOfRecords = Inr \<lparr>tr_from = S4, tr_event = EvEndOfRecords, tr_to = S5, tr_action = DoStartOda, tr_error = Ok\<rparr>"
  "transition S4 EvRecordReadFailed = Inr \<lparr>tr_from = S4, tr_event = EvRecordReadFailed, tr_to = S5, tr_action = DoSetIccDataMissing, tr_error = Ok\<rparr>"
  "transition S4Next EvMoreAflEntries = Inr \<lparr>tr_from = S4Next, tr_event = EvMoreAflEntries, tr_to = S4, tr_action = DoReadRecords, tr_error = Ok\<rparr>"
  "transition S4Next EvAflComplete = Inr \<lparr>tr_from = S4Next, tr_event = EvAflComplete, tr_to = S5, tr_action = DoStartOda, tr_error = Ok\<rparr>"
  "transition S5 EvOdaSuccess = Inr \<lparr>tr_from = S5, tr_event = EvOdaSuccess, tr_to = S6, tr_action = DoRecordOdaResult, tr_error = Ok\<rparr>"
  "transition S5 EvOdaFailure = Inr \<lparr>tr_from = S5, tr_event = EvOdaFailure, tr_to = S6, tr_action = DoRecordOdaResult, tr_error = Ok\<rparr>"
  "transition S6 EvRestrictionsEvaluated = Inr \<lparr>tr_from = S6, tr_event = EvRestrictionsEvaluated, tr_to = S7, tr_action = DoEvaluateCvm, tr_error = Ok\<rparr>"
  "transition S7 EvCvmSuccess = Inr \<lparr>tr_from = S7, tr_event = EvCvmSuccess, tr_to = S8, tr_action = DoEvaluateTrm, tr_error = Ok\<rparr>"
  "transition S7 EvCvmFailureNoRetry = Inr \<lparr>tr_from = S7, tr_event = EvCvmFailureNoRetry, tr_to = S8, tr_action = DoEvaluateTrm, tr_error = Ok\<rparr>"
  "transition S7 EvCvmRetryPossible = Inr \<lparr>tr_from = S7, tr_event = EvCvmRetryPossible, tr_to = S7Retry, tr_action = DoRetryCvm, tr_error = Ok\<rparr>"
  "transition S7Retry EvCvmRetryAvailable = Inr \<lparr>tr_from = S7Retry, tr_event = EvCvmRetryAvailable, tr_to = S7, tr_action = DoEvaluateCvm, tr_error = Ok\<rparr>"
  "transition S7Retry EvCvmRetryExceeded = Inr \<lparr>tr_from = S7Retry, tr_event = EvCvmRetryExceeded, tr_to = S8, tr_action = DoEvaluateTrm, tr_error = Ok\<rparr>"
  "transition S8 EvTrmEvaluated = Inr \<lparr>tr_from = S8, tr_event = EvTrmEvaluated, tr_to = S9, tr_action = DoRunTaa, tr_error = Ok\<rparr>"
  "transition S9 EvTaaArqc = Inr \<lparr>tr_from = S9, tr_event = EvTaaArqc, tr_to = S10, tr_action = DoRequestFirstGenerateAc, tr_error = Ok\<rparr>"
  "transition S9 EvTaaTc = Inr \<lparr>tr_from = S9, tr_event = EvTaaTc, tr_to = S16, tr_action = DoOfflineApprove, tr_error = Ok\<rparr>"
  "transition S9 EvTaaAac = Inr \<lparr>tr_from = S9, tr_event = EvTaaAac, tr_to = S16, tr_action = DoOfflineDecline, tr_error = Ok\<rparr>"
  "transition S10 EvGacArqc = Inr \<lparr>tr_from = S10, tr_event = EvGacArqc, tr_to = S11, tr_action = DoBuildHostRequest, tr_error = Ok\<rparr>"
  "transition S10 EvGacTc = Inr \<lparr>tr_from = S10, tr_event = EvGacTc, tr_to = S16, tr_action = DoOfflineApprove, tr_error = Ok\<rparr>"
  "transition S10 EvGacAac = Inr \<lparr>tr_from = S10, tr_event = EvGacAac, tr_to = S16, tr_action = DoOfflineDecline, tr_error = Ok\<rparr>"
  "transition S10 EvGacCda = Inr \<lparr>tr_from = S10, tr_event = EvGacCda, tr_to = S5Cda, tr_action = DoVerifyCda, tr_error = Ok\<rparr>"
  "transition S10 EvCdaFailure = Inr \<lparr>tr_from = S10, tr_event = EvCdaFailure, tr_to = S9, tr_action = DoRunTaa, tr_error = Ok\<rparr>"
  "transition S10 EvGacFailed = Inr \<lparr>tr_from = S10, tr_event = EvGacFailed, tr_to = Se, tr_action = DoError, tr_error = CardRemoved\<rparr>"
  "transition S5Cda EvCdaSuccess = Inr \<lparr>tr_from = S5Cda, tr_event = EvCdaSuccess, tr_to = S6, tr_action = DoRecordOdaResult, tr_error = Ok\<rparr>"
  "transition S5Cda EvCdaFailure = Inr \<lparr>tr_from = S5Cda, tr_event = EvCdaFailure, tr_to = S6, tr_action = DoRecordOdaResult, tr_error = Ok\<rparr>"
  "transition S11 EvHostArpc = Inr \<lparr>tr_from = S11, tr_event = EvHostArpc, tr_to = S12, tr_action = DoProcessArpc, tr_error = Ok\<rparr>"
  "transition S11 EvHostApprovalNoArpc = Inr \<lparr>tr_from = S11, tr_event = EvHostApprovalNoArpc, tr_to = S13, tr_action = DoProcessIssuerScripts, tr_error = Ok\<rparr>"
  "transition S11 EvHostTimeout = Inr \<lparr>tr_from = S11, tr_event = EvHostTimeout, tr_to = Se, tr_action = DoError, tr_error = HostTimeout\<rparr>"
  "transition S12 EvIssuerAuthenticationSuccess = Inr \<lparr>tr_from = S12, tr_event = EvIssuerAuthenticationSuccess, tr_to = S13, tr_action = DoProcessIssuerScripts, tr_error = Ok\<rparr>"
  "transition S12 EvIssuerAuthenticationFailure = Inr \<lparr>tr_from = S12, tr_event = EvIssuerAuthenticationFailure, tr_to = S13, tr_action = DoProcessIssuerScripts, tr_error = Ok\<rparr>"
  "transition S13 EvScriptAvailable = Inr \<lparr>tr_from = S13, tr_event = EvScriptAvailable, tr_to = S13Script, tr_action = DoProcessIssuerScripts, tr_error = Ok\<rparr>"
  "transition S13 EvNoMoreScripts = Inr \<lparr>tr_from = S13, tr_event = EvNoMoreScripts, tr_to = S14, tr_action = DoRequestFinalGenerateAc, tr_error = Ok\<rparr>"
  "transition S14 EvGac2Tc = Inr \<lparr>tr_from = S14, tr_event = EvGac2Tc, tr_to = S15, tr_action = DoProcessPostFinalIssuerScripts, tr_error = Ok\<rparr>"
  "transition S14 EvGac2Aac = Inr \<lparr>tr_from = S14, tr_event = EvGac2Aac, tr_to = S15, tr_action = DoProcessPostFinalIssuerScripts, tr_error = Ok\<rparr>"
  "transition S14 EvFinalGenerateAcSkipped = Inr \<lparr>tr_from = S14, tr_event = EvFinalGenerateAcSkipped, tr_to = S15, tr_action = DoProcessPostFinalIssuerScripts, tr_error = Ok\<rparr>"
  "transition S14 EvGac2Failed = Inr \<lparr>tr_from = S14, tr_event = EvGac2Failed, tr_to = Se, tr_action = DoError, tr_error = CardRemoved\<rparr>"
  "transition S13Script EvScriptSuccess = Inr \<lparr>tr_from = S13Script, tr_event = EvScriptSuccess, tr_to = S13, tr_action = DoProcessIssuerScripts, tr_error = Ok\<rparr>"
  "transition S13Script EvScriptNonCriticalFailure = Inr \<lparr>tr_from = S13Script, tr_event = EvScriptNonCriticalFailure, tr_to = S13, tr_action = DoProcessIssuerScripts, tr_error = Ok\<rparr>"
  "transition S13Script EvScriptCriticalFailure = Inr \<lparr>tr_from = S13Script, tr_event = EvScriptCriticalFailure, tr_to = Se, tr_action = DoError, tr_error = ScriptFailed\<rparr>"
  "transition S15 EvScriptAvailable = Inr \<lparr>tr_from = S15, tr_event = EvScriptAvailable, tr_to = S15Script, tr_action = DoProcessPostFinalIssuerScripts, tr_error = Ok\<rparr>"
  "transition S15 EvNoMoreScripts = Inr \<lparr>tr_from = S15, tr_event = EvNoMoreScripts, tr_to = S16, tr_action = DoFinalOutcome, tr_error = Ok\<rparr>"
  "transition S15Script EvScriptSuccess = Inr \<lparr>tr_from = S15Script, tr_event = EvScriptSuccess, tr_to = S15, tr_action = DoProcessPostFinalIssuerScripts, tr_error = Ok\<rparr>"
  "transition S15Script EvScriptNonCriticalFailure = Inr \<lparr>tr_from = S15Script, tr_event = EvScriptNonCriticalFailure, tr_to = S15, tr_action = DoProcessPostFinalIssuerScripts, tr_error = Ok\<rparr>"
  "transition S15Script EvScriptCriticalFailure = Inr \<lparr>tr_from = S15Script, tr_event = EvScriptCriticalFailure, tr_to = Se, tr_action = DoError, tr_error = ScriptFailed\<rparr>"
  "transition S16 EvFinalOutcomeComplete = Inr \<lparr>tr_from = S16, tr_event = EvFinalOutcomeComplete, tr_to = S0, tr_action = DoReset, tr_error = Ok\<rparr>"
  "transition Se EvErrorReset = Inr \<lparr>tr_from = Se, tr_event = EvErrorReset, tr_to = S0, tr_action = DoReset, tr_error = Ok\<rparr>"
  by (simp_all add: transition_def TRANSITIONS_def)

section \<open>Status words as decisions\<close>

definition apply_transition :: "fsm_event \<Rightarrow> ('w krn_context, unit) krn" where
  "apply_transition event =
     kbind (kask (\<lambda>ctx. transition (kc_fsm_state ctx) event)) (\<lambda>t.
       kmod (\<lambda>ctx. ctx\<lparr>kc_fsm_state := tr_to t\<rparr>))"

definition require_apdu_success :: "apdu_context \<Rightarrow> status_word \<Rightarrow> unit krn_result" where
  "require_apdu_success c sw = (case classify c sw of
     Success \<Rightarrow> Inr () | Fail e \<Rightarrow> Inl e | _ \<Rightarrow> Inl InternalError)"

definition ignore_result :: "('s, unit) krn \<Rightarrow> ('s, unit) krn" where
  "ignore_result m = (\<lambda>s. (Inr (), snd (m s)))"

definition require_generate_ac_success :: "status_word \<Rightarrow> fsm_event \<Rightarrow> ('w krn_context, unit) krn" where
  "require_generate_ac_success sw failure_event = (case require_apdu_success GenerateAc sw of
     Inr _ \<Rightarrow> kret ()
   | Inl e \<Rightarrow> if e = CardRemoved
              then kbind (ignore_result (apply_transition failure_event)) (\<lambda>_. kfail e)
              else kfail e)"

datatype read_record_status = RecordSuccess | RecordEndOfRecords | RecordContinueWithTvr status_bit

fun read_record_status_of :: "status_action \<Rightarrow> read_record_status krn_result" where
  "read_record_status_of Success = Inr RecordSuccess"
| "read_record_status_of EndOfRecords = Inr RecordEndOfRecords"
| "read_record_status_of (ContinueWithTvr b) = Inr (RecordContinueWithTvr b)"
| "read_record_status_of (Fail e) = Inl e"
| "read_record_status_of _ = Inl InternalError"

fun issuer_authentication_event_from_status :: "status_action \<Rightarrow> tvr \<Rightarrow> (fsm_event \<times> tvr) krn_result" where
  "issuer_authentication_event_from_status Success t = Inr (EvIssuerAuthenticationSuccess, t)"
| "issuer_authentication_event_from_status (ContinueWithTvr b) t = Inr (EvIssuerAuthenticationFailure, tvr_set t b)"
| "issuer_authentication_event_from_status (Fail e) t = Inl e"
| "issuer_authentication_event_from_status _ t = Inl InternalError"

datatype issuer_script_status = ScriptContinue | ScriptCriticalFailure

fun issuer_script_status_of :: "status_action \<Rightarrow> issuer_script_status krn_result" where
  "issuer_script_status_of Success = Inr ScriptContinue"
| "issuer_script_status_of ContinueAfterScriptWarning = Inr ScriptContinue"
| "issuer_script_status_of ContinueAfterNonCriticalScriptFailure = Inr ScriptContinue"
| "issuer_script_status_of (Fail e) = (if e = ScriptFailed then Inr ScriptCriticalFailure else Inl e)"
| "issuer_script_status_of _ = Inl InvalidArgument"

definition response_body_and_status :: "bytes \<Rightarrow> (bytes \<times> status_word) krn_result" where
  "response_body_and_status response =
     (if length response < 2 then Inl ParseError
      else let body_len = length response - 2 in
        Inr (take body_len response, \<lparr>sw1 = response ! body_len, sw2 = response ! (body_len + 1)\<rparr>))"

fun select_pse_event :: "status_action \<Rightarrow> fsm_event krn_result" where
  "select_pse_event Success = Inr EvPseSelected"
| "select_pse_event FallbackToDirectAid = Inr EvPseNotFound"
| "select_pse_event (Fail e) = Inl e"
| "select_pse_event _ = Inl NoCommonAid"

datatype select_aid_decision = AidIsSelected | AidTryNext

fun select_aid_decision_of :: "status_action \<Rightarrow> select_aid_decision krn_result" where
  "select_aid_decision_of Success = Inr AidIsSelected"
| "select_aid_decision_of TryNextAid = Inr AidTryNext"
| "select_aid_decision_of (Fail e) = Inl e"
| "select_aid_decision_of _ = Inl InvalidArgument"

section \<open>Frames\<close>

text \<open>What a call into the terminal may change: the environment.\<close>

definition only_world :: "'w krn_context \<Rightarrow> 'w krn_context \<Rightarrow> bool" where
  "only_world ctx ctx' \<longleftrightarrow> (\<exists>w. ctx' = ctx\<lparr>kc_world := w\<rparr>)"

interpretation ow: step_relation only_world
proof
  show "only_world s s" for s :: "'w krn_context"
    unfolding only_world_def by (rule exI [of _ "kc_world s"]) simp
  show "only_world s u" if "only_world s t" "only_world t u" for s t u :: "'w krn_context"
    using that by (auto simp: only_world_def)
qed

lemma only_world_kcall: "within only_world (kcall f)"
  by (auto simp: within_def kcall_def only_world_def split: prod.split)

lemma only_world_transmit: "within only_world (transmit_apdu runtime command timeout_ms)"
  unfolding transmit_apdu_def
  by (intro ow.within_rules ow.within_if only_world_kcall)

lemma only_world_followup_loop: "within only_world (followup_loop runtime timeout_ms c n command)"
proof (induction n arbitrary: command)
  case (Suc n)
  show ?case
    by (auto simp: Let_def intro!: ow.within_kbind only_world_transmit ow.within_kfail ow.within_klift
        ow.within_kret Suc split: status_action.split)
qed (simp add: ow.within_kfail)

lemma only_world_followups: "within only_world (transmit_apdu_with_followups runtime command timeout_ms c)"
  unfolding transmit_apdu_with_followups_def by (rule only_world_followup_loop)

lemma only_world_request: "within only_world (request_unpredictable_number runtime previous)"
  unfolding request_unpredictable_number_def Let_def
  by (intro ow.within_rules ow.within_if only_world_kcall)

lemma only_world_emit: "within only_world (emit_contactless_outcome_value outcome)"
  unfolding emit_contactless_outcome_value_def
  by (intro ow.within_rules) (auto simp: only_world_def)

text \<open>Any relation that ignores the environment holds across these calls.\<close>

lemma within_only_world:
  "within only_world m \<Longrightarrow> (\<And>s w. R s (s\<lparr>kc_world := w\<rparr>)) \<Longrightarrow> within R m"
  unfolding within_def only_world_def by metis

lemma only_worldE:
  assumes "within only_world m" and "m s = (r, t)"
  obtains w where "t = s\<lparr>kc_world := w\<rparr>"
  using withinD [OF assms] by (auto simp: only_world_def)

text \<open>The weakest precondition of an operation that changes the environment only.\<close>

lemma kwp_only_world:
  assumes "within only_world m"
  shows "kwp m s Q E \<longleftrightarrow>
     (\<forall>a w. m s = (Inr a, s\<lparr>kc_world := w\<rparr>) \<longrightarrow> Q a (s\<lparr>kc_world := w\<rparr>)) \<and>
     (\<forall>e w. m s = (Inl e, s\<lparr>kc_world := w\<rparr>) \<longrightarrow> E e (s\<lparr>kc_world := w\<rparr>))"
proof (cases "m s")
  case (Pair r t)
  from only_worldE [OF assms Pair] obtain w where "t = s\<lparr>kc_world := w\<rparr>" .
  with Pair show ?thesis by (cases r) (auto simp: kwp_def)
qed

lemmas kwp_calls [kwp_simps] =
  kwp_only_world [OF only_world_transmit] kwp_only_world [OF only_world_followups]
  kwp_only_world [OF only_world_request] kwp_only_world [OF only_world_emit]

lemma kwp_apply_transition [kwp_simps]:
  "kwp (apply_transition event) s Q E \<longleftrightarrow>
     (\<forall>tr. transition (kc_fsm_state s) event = Inr tr \<longrightarrow> Q () (s\<lparr>kc_fsm_state := tr_to tr\<rparr>)) \<and>
     (\<forall>e. transition (kc_fsm_state s) event = Inl e \<longrightarrow> E e s)"
  by (simp add: apply_transition_def kwp_simps)

section \<open>The exchange with the card\<close>

text \<open>The follow-up command an answer asks for.\<close>

definition status_of :: "bytes \<Rightarrow> status_word" where
  "status_of response = \<lparr>sw1 = response ! (length response - 2), sw2 = response ! (length response - 1)\<rparr>"

definition follow_up :: "apdu_context \<Rightarrow> bytes \<Rightarrow> bytes \<Rightarrow> bytes krn_result option" where
  "follow_up c command response = (case classify c (status_of response) of
     GetResponse len \<Rightarrow> Some (apdu_encode (get_response len))
   | RetryWithLe le \<Rightarrow> Some (retry_apdu_with_le command le)
   | _ \<Rightarrow> None)"

text \<open>Sending a list of commands one after the other.\<close>

fun run_commands :: "'w runtime_callbacks \<Rightarrow> int \<Rightarrow> bytes list \<Rightarrow> ('w krn_context, bytes list) krn" where
  "run_commands runtime timeout_ms [] = kret []"
| "run_commands runtime timeout_ms (command # commands) =
     kbind (transmit_apdu runtime command timeout_ms) (\<lambda>response.
     kbind (run_commands runtime timeout_ms commands) (\<lambda>responses. kret (response # responses)))"

text \<open>A log of exchanges in which each command is the follow-up the answer before it asks for, and
  the last answer asks for none.\<close>

fun follow_up_log :: "apdu_context \<Rightarrow> (bytes \<times> bytes) list \<Rightarrow> bool" where
  "follow_up_log c [] = False"
| "follow_up_log c [(command, response)] \<longleftrightarrow> 2 \<le> length response \<and> follow_up c command response = None"
| "follow_up_log c ((command, response) # (next_command, next_response) # rest) \<longleftrightarrow>
     2 \<le> length response \<and> follow_up c command response = Some (Inr next_command) \<and>
     follow_up_log c ((next_command, next_response) # rest)"

lemma followup_loop_step:
  "followup_loop runtime timeout_ms c (Suc n) command =
     kbind (transmit_apdu runtime command timeout_ms) (\<lambda>response.
       if length response < 2 then kfail ParseError
       else case follow_up c command response of
         Some next \<Rightarrow> kbind (klift next) (followup_loop runtime timeout_ms c n)
       | None \<Rightarrow> kret response)"
  by (auto simp: follow_up_def status_of_def Let_def intro!: arg_cong2 [where f = kbind] split: status_action.split)

lemma followup_loop_log:
  "followup_loop runtime timeout_ms c n command ctx = (Inr response, ctx') \<longleftrightarrow>
     (\<exists>log. follow_up_log c log \<and> length log \<le> n \<and> fst (hd log) = command \<and> snd (last log) = response \<and>
        run_commands runtime timeout_ms (map fst log) ctx = (Inr (map snd log), ctx'))"
proof (induction n arbitrary: command ctx)
  case 0
  then show ?case by (auto simp: kexec)
next
  case (Suc n)
  show ?case (is "?l \<longleftrightarrow> ?r")
  proof
    assume ?l
    then obtain r s where t: "transmit_apdu runtime command timeout_ms ctx = (Inr r, s)" and l: "2 \<le> length r"
      and rest: "(case follow_up c command r of
         Some next \<Rightarrow> kbind (klift next) (followup_loop runtime timeout_ms c n)
       | None \<Rightarrow> kret r) s = (Inr response, ctx')"
      unfolding followup_loop_step by (auto simp: krun_simps not_less split: if_splits)
    show ?r
    proof (cases "follow_up c command r")
      case None
      then show ?thesis using t l rest
        by (intro exI [of _ "[(command, r)]"]) (auto simp: kexec)
    next
      case (Some q)
      with rest obtain next_command where q: "q = Inr next_command"
        and lp: "followup_loop runtime timeout_ms c n next_command s = (Inr response, ctx')"
        by (auto simp: krun_simps)
      from lp obtain log where log: "follow_up_log c log" "length log \<le> n" "fst (hd log) = next_command"
          "snd (last log) = response" "run_commands runtime timeout_ms (map fst log) s = (Inr (map snd log), ctx')"
        unfolding Suc.IH by blast
      then obtain nr rest' where lg: "log = (next_command, nr) # rest'" by (cases log) auto
      show ?thesis using log t l Some q
        by (intro exI [of _ "(command, r) # log"]) (auto simp: lg kbind_of_Inr krun_simps kret_exec)
    qed
  next
    assume ?r
    then obtain log where log: "follow_up_log c log" "length log \<le> Suc n" "fst (hd log) = command"
        "snd (last log) = response" "run_commands runtime timeout_ms (map fst log) ctx = (Inr (map snd log), ctx')"
      by blast
    then obtain r rest where lg: "log = (command, r) # rest" by (cases log) auto
    from log(5) lg obtain s where t: "transmit_apdu runtime command timeout_ms ctx = (Inr r, s)"
      and rest: "run_commands runtime timeout_ms (map fst rest) s = (Inr (map snd rest), ctx')"
      by (auto simp: krun_simps)
    show ?l
    proof (cases rest)
      case Nil
      then show ?thesis unfolding followup_loop_step using log lg t rest by (auto simp: kbind_of_Inr kexec)
    next
      case (Cons x xs)
      then obtain next_command nr where x: "x = (next_command, nr)" by (cases x)
      have "followup_loop runtime timeout_ms c n next_command s = (Inr response, ctx')"
        unfolding Suc.IH using log lg Cons x rest by (intro exI [of _ rest]) simp
      then show ?thesis unfolding followup_loop_step using log lg Cons x t
        by (simp add: kbind_of_Inr kexec)
    qed
  qed
qed

lemma retry_encoded: "rbind (apdu_encode a) (\<lambda>bs. retry_apdu_with_le bs le) = apdu_encode (a\<lparr>apdu_le := Some le\<rparr>)"
proof (cases "length (apdu_data a) > MAX_SHORT_APDU_DATA_LEN")
  case True
  then show ?thesis by (simp add: apdu_encode_def)
next
  case False
  then have d: "length (apdu_data a) < 256" by (simp add: MAX_SHORT_APDU_DATA_LEN_def)
  have u: "unat (word_of_nat (length (apdu_data a)) :: byte) = length (apdu_data a)"
    using d by (simp add: unsigned_of_nat take_bit_nat_eq_self)
  show ?thesis using False d u
    by (cases "apdu_data a"; cases "apdu_le a")
      (auto simp: apdu_encode_def retry_apdu_with_le_def Let_def butlast_append)
qed

section \<open>Properties\<close>

text \<open>Asking a command again with another Le changes the command in its Le field only, and works
  for every command the kernel can encode.\<close>

theorem retry_changes_le_only:
  "rbind (apdu_encode a) (\<lambda>bs. retry_apdu_with_le bs le) = apdu_encode (a\<lparr>apdu_le := Some le\<rparr>)"
  by (rule retry_encoded)

text \<open>C8: An exchange with the card is a chain of at most five commands: the first is the given one,
  every further one is the GET RESPONSE or the repetition that the answer before it asked for,
  and the answer returned asks for nothing more.\<close>

theorem exchange_is_follow_up_chain:
  "transmit_apdu_with_followups runtime command timeout_ms c ctx = (Inr response, ctx') \<longleftrightarrow>
     (\<exists>log. follow_up_log c log \<and> length log \<le> 5 \<and> fst (hd log) = command \<and> snd (last log) = response \<and>
        run_commands runtime timeout_ms (map fst log) ctx = (Inr (map snd log), ctx'))"
  using followup_loop_log [of runtime timeout_ms c 5]
  by (simp add: transmit_apdu_with_followups_def MAX_APDU_FOLLOWUPS_def numeral_eq_Suc)

text \<open>An unpredictable number that the kernel accepts is four bytes, neither all zero nor all ones,
  and differs from the one of the transaction before.\<close>

theorem unpredictable_number_is_fresh:
  "case request_unpredictable_number runtime previous ctx of
     (Inl e, ctx') \<Rightarrow> e = RngFailure
   | (Inr number, ctx') \<Rightarrow> length number = 4 \<and> number \<noteq> [0, 0, 0, 0] \<and>
       number \<noteq> [0xff, 0xff, 0xff, 0xff] \<and> previous \<noteq> Some number"
  by (auto simp: request_unpredictable_number_def kbind_def kcall_def kexec Let_def length_callback_buffer
      split: prod.split)

end
