(* ===== verification/Emv_Stages.thy ===== *)
theory Emv_Stages
  imports Emv_Kernel
begin

text \<open>
  The stages of a transaction between GET PROCESSING OPTIONS and the first GENERATE AC
  (\<open>src/src/ffi.rs\<close>, lines 1911 to 3170): the terminal data, records, offline data authentication,
  processing restrictions, cardholder verification, contactless limits and relay resistance,
  terminal risk management, terminal action analysis, and the first cryptogram.
\<close>

unbundle bit_operations_syntax

section \<open>Encoding terminal data\<close>

record terminal_dol_inputs =
  tdi_terminal_capabilities :: "terminal_capabilities option"
  tdi_additional_terminal_capabilities :: "additional_terminal_capabilities option"
  tdi_terminal_transaction_qualifiers :: "terminal_transaction_qualifiers option"

definition decimal_bcd :: "byte \<Rightarrow> byte" where
  "decimal_bcd v = push_bit 4 (v div 10) OR (v mod 10)"

definition emv_date_bcd :: "emv_date \<Rightarrow> bytes" where
  "emv_date_bcd date = [decimal_bcd (date_year date), decimal_bcd (date_month date), decimal_bcd (date_day date)]"

text \<open>A sequence of \<open>data.put(..)?\<close>.\<close>

definition put_all :: "(bytes \<times> bytes) list \<Rightarrow> data_store \<Rightarrow> data_store krn_result" where
  "put_all entries data = rfold (\<lambda>ds (tag, v). ds_put ds tag v) data entries"

definition transaction_data_store ::
    "stored_txn_params \<Rightarrow> bytes \<Rightarrow> emv_date \<Rightarrow> tvr \<Rightarrow> tsi \<Rightarrow> terminal_dol_inputs \<Rightarrow> data_store krn_result" where
  "transaction_data_store params unpredictable_number transaction_date t i inputs =
     rbind (encode_numeric_bcd_fixed (tp_amount_authorised_minor params) 6) (\<lambda>amount_authorised.
     rbind (encode_numeric_bcd_fixed (tp_amount_other_minor params) 6) (\<lambda>amount_other.
     rbind (encode_numeric_bcd_fixed (ucast (tp_currency_code params)) 2) (\<lambda>transaction_currency.
     rbind (encode_numeric_bcd_fixed (ucast (tp_terminal_country_code params)) 2) (\<lambda>terminal_country.
       put_all
         ([([0x9f, 0x02], amount_authorised), ([0x9f, 0x03], amount_other), ([0x5f, 0x2a], transaction_currency),
           ([0x5f, 0x36], [tp_currency_exponent params]), ([0x9f, 0x1a], terminal_country),
           ([0x9c], [tp_transaction_type params]), ([0x9a], emv_date_bcd transaction_date)] @
          (case tdi_terminal_capabilities inputs of None \<Rightarrow> [] | Some c \<Rightarrow> [([0x9f, 0x33], list3 (tc_raw c))]) @
          (case tdi_additional_terminal_capabilities inputs of None \<Rightarrow> [] | Some c \<Rightarrow> [([0x9f, 0x40], list5 (atc_raw c))]) @
          (case tdi_terminal_transaction_qualifiers inputs of None \<Rightarrow> [] | Some q \<Rightarrow> [([0x9f, 0x66], ttq_raw q)]) @
          [([0x9f, 0x35], [tp_terminal_type params]), ([0x9f, 0x15], list2 (tp_merchant_category_code params))] @
          (if tp_merchant_name_location params \<noteq> [] then [([0x9f, 0x4e], tp_merchant_name_location params)] else []) @
          [([0x95], tvr_bytes t), ([0x9b], tsi_bytes i), ([0x9f, 0x37], unpredictable_number)])
         ds_new))))"

definition encoded_length_size :: "nat \<Rightarrow> nat" where
  "encoded_length_size len = (if len < 0x80 then 1 else if len \<le> 0xff then 2 else 3)"

definition encode_length :: "bytes \<Rightarrow> nat \<Rightarrow> bytes krn_result" where
  "encode_length out len =
     (if len < 0x80 then Inr (out @ [word_of_nat len])
      else if len \<le> 0xff then Inr (out @ [0x81, word_of_nat len])
      else if len \<le> 0xffff then Inr (out @ [0x82, word_of_nat (len div 256), word_of_nat len])
      else Inl LengthOverflow)"

definition append_tlv :: "bytes \<Rightarrow> bytes \<Rightarrow> bytes \<Rightarrow> bytes krn_result" where
  "append_tlv out tag v =
     (if tag = [] \<or> length tag > 4 \<or> length v > 0xffff then Inl LengthOverflow
      else rbind (ok_or (Option.bind (checked_add_usize (length tag) (encoded_length_size (length v)))
                  (\<lambda>len. checked_add_usize len (length v))) LengthOverflow) (\<lambda>additional_len.
        if min (length out + additional_len) (2 ^ 64 - 1) > MAX_ONLINE_AUTH_DATA_LEN then Inl LengthOverflow
        else rmap (\<lambda>out. out @ v) (encode_length (out @ tag) (length v))))"

definition encode_online_authorization_package :: "tag_value list \<Rightarrow> bytes krn_result" where
  "encode_online_authorization_package package =
     rfold (\<lambda>out obj. append_tlv out (tv_tag obj) (tv_value obj)) [] package"

section \<open>Reading the card's data\<close>

text \<open>The const generic of the source is the conversion to an array of that length.\<close>

definition required_fixed :: "(bytes \<Rightarrow> 'a krn_result) \<Rightarrow> data_store \<Rightarrow> bytes \<Rightarrow> 'a krn_result" where
  "required_fixed fixed_slice data tag = rbind (ok_or (ds_get data tag) MissingMandatoryTag) fixed_slice"

definition optional_fixed :: "(bytes \<Rightarrow> 'a krn_result) \<Rightarrow> data_store \<Rightarrow> bytes \<Rightarrow> 'a option krn_result" where
  "optional_fixed fixed_slice data tag = opt_traverse fixed_slice (ds_get data tag)"

definition fixed_slice2 :: "bytes \<Rightarrow> arr2 krn_result" where "fixed_slice2 v = to_arr2 v ParseError"
definition fixed_slice3 :: "bytes \<Rightarrow> arr3 krn_result" where "fixed_slice3 v = to_arr3 v ParseError"
definition fixed_slice5 :: "bytes \<Rightarrow> arr5 krn_result" where "fixed_slice5 v = to_arr5 v ParseError"

definition fixed_numeric_bcd2 :: "u64 \<Rightarrow> arr2 krn_result" where
  "fixed_numeric_bcd2 v = rbind (encode_numeric_bcd_fixed v 2) fixed_slice2"

definition card_application_version :: "data_store \<Rightarrow> arr2 option krn_result" where
  "card_application_version data =
     rbind (optional_fixed fixed_slice2 data [0x9f, 0x09]) (\<lambda>version. case version of
       Some v \<Rightarrow> Inr (Some v)
     | None \<Rightarrow> optional_fixed fixed_slice2 data [0x9f, 0x08])"

definition service_type_of :: "stored_txn_params \<Rightarrow> service_type" where
  "service_type_of params = (case runtime_service_of (TransactionType (tp_transaction_type params)) of
     ServiceCash \<Rightarrow> Cash | ServiceCashback \<Rightarrow> Cashback | GoodsOrServices \<Rightarrow> Goods)"

definition terminal_channel_of :: "stored_txn_params \<Rightarrow> terminal_channel" where
  "terminal_channel_of params =
     (if tp_terminal_type params = 0x14 \<or> tp_terminal_type params = 0x24 then Atm else OtherThanAtm)"

definition cvm_transaction_type_of :: "stored_txn_params \<Rightarrow> cvm_transaction_type" where
  "cvm_transaction_type_of params =
     (case cvm_transaction_class_of (TransactionType (tp_transaction_type params))
        (tp_terminal_type params = 0x14 \<or> tp_terminal_type params = 0x24) of
        ClassUnattendedCash \<Rightarrow> UnattendedCash | ClassManualCash \<Rightarrow> ManualCash
      | ClassPurchaseWithCashback \<Rightarrow> PurchaseWithCashback | ClassNonCash \<Rightarrow> NonCash)"

definition transaction_currency_matches ::
    "data_store \<Rightarrow> stored_txn_params \<Rightarrow> bool krn_result" where
  "transaction_currency_matches data params =
     rbind (optional_fixed fixed_slice2 data [0x9f, 0x42]) (\<lambda>currency. case currency of
       None \<Rightarrow> Inr True
     | Some application_currency \<Rightarrow>
         rbind (fixed_numeric_bcd2 (ucast (tp_currency_code params))) (\<lambda>terminal_currency.
           Inr (application_currency = terminal_currency)))"

definition issuer_action_codes :: "data_store \<Rightarrow> action_codes \<Rightarrow> action_codes krn_result" where
  "issuer_action_codes data profile_fallback =
     rbind (optional_fixed fixed_slice5 data [0x9f, 0x0e]) (\<lambda>denial.
     rbind (optional_fixed fixed_slice5 data [0x9f, 0x0f]) (\<lambda>online.
     rbind (optional_fixed fixed_slice5 data [0x9f, 0x0d]) (\<lambda>default_code.
       Inr \<lparr>ac_denial = case_option (ac_denial profile_fallback) id denial,
            ac_online = case_option (ac_online profile_fallback) id online,
            ac_default = case_option (ac_default profile_fallback) id default_code\<rparr>)))"

text \<open>The scheme and the AID profile of the selected application.\<close>

definition selected_scheme_and_aid ::
    "profile_set \<Rightarrow> selected_application \<Rightarrow> (scheme_profile \<times> aid_profile) krn_result" where
  "selected_scheme_and_aid profiles selected =
     rbind (ok_or (get_at (ps_schemes profiles) (sa_scheme_index selected)) InvalidProfile) (\<lambda>scheme.
     rbind (ok_or (get_at (sp_aids scheme) (sa_aid_index selected)) InvalidProfile) (\<lambda>aid.
       Inr (scheme, aid)))"

definition selected_aid_profile :: "'w krn_context \<Rightarrow> aid_profile krn_result" where
  "selected_aid_profile ctx =
     rbind (ok_or (kc_selected_application ctx) InvalidArgument) (\<lambda>selected.
     rbind (ok_or (kc_profiles ctx) InvalidProfile) (\<lambda>profiles.
     rmap snd (selected_scheme_and_aid profiles selected)))"

section \<open>Steps on the context\<close>

definition set_kernel_state :: "kernel_state \<Rightarrow> ('w krn_context, unit) krn" where
  "set_kernel_state k = kmod (\<lambda>ctx. ctx\<lparr>kc_state := k\<rparr>)"

definition put_card_data :: "bytes \<Rightarrow> bytes \<Rightarrow> ('w krn_context, unit) krn" where
  "put_card_data tag v =
     kbind (kask (\<lambda>ctx. ds_put (kc_card_data ctx) tag v)) (\<lambda>data. kmod (\<lambda>ctx. ctx\<lparr>kc_card_data := data\<rparr>))"

text \<open>\<open>ctx.card_data.put(&[0x95], ..)\<close> and \<open>put(&[0x9b], ..)\<close> with the registers as they are.\<close>

definition put_tvr :: "('w krn_context, unit) krn" where
  "put_tvr = kbind (kask (\<lambda>ctx. Inr (tvr_bytes (kc_tvr ctx)))) (put_card_data [0x95])"

definition put_tsi :: "('w krn_context, unit) krn" where
  "put_tsi = kbind (kask (\<lambda>ctx. Inr (tsi_bytes (kc_tsi ctx)))) (put_card_data [0x9b])"

definition set_tvr_bit :: "status_bit \<Rightarrow> ('w krn_context, unit) krn" where
  "set_tvr_bit b = kmod (\<lambda>ctx. ctx\<lparr>kc_tvr := tvr_set (kc_tvr ctx) b\<rparr>)"

definition set_tsi_bit :: "status_bit \<Rightarrow> ('w krn_context, unit) krn" where
  "set_tsi_bit b = kmod (\<lambda>ctx. ctx\<lparr>kc_tsi := tsi_set (kc_tsi ctx) b\<rparr>)"

text \<open>Sending a command with the timeout of the context and splitting the answer.\<close>

definition send_command ::
    "'w runtime_callbacks \<Rightarrow> bytes \<Rightarrow> apdu_context \<Rightarrow> ('w krn_context, bytes \<times> status_word) krn" where
  "send_command runtime command c =
     kbind (kask (\<lambda>ctx. Inr (apdu_timeout ctx))) (\<lambda>timeout_ms.
     kbind (transmit_apdu_with_followups runtime command timeout_ms c) (\<lambda>response.
       klift (response_body_and_status response)))"

section \<open>Reading the records\<close>

definition parse_record_into_card_data :: "bytes \<Rightarrow> ('w krn_context, nat) krn" where
  "parse_record_into_card_data body = (\<lambda>ctx. case parse_read_record_body body (kc_card_data ctx) of
     (r, data) \<Rightarrow> (r, ctx\<lparr>kc_card_data := data\<rparr>))"

definition remember_record :: "record_locator \<Rightarrow> bytes \<Rightarrow> ('w krn_context, unit) krn" where
  "remember_record locator body = kmod (\<lambda>ctx.
     if contributes_to_offline_auth locator
     then ctx\<lparr>kc_offline_auth_records := kc_offline_auth_records ctx @
            [\<lparr>sar_sfi = loc_sfi locator, sar_record = loc_record locator, sar_body = body\<rparr>]\<rparr>
     else ctx)"

fun read_records_loop :: "'w runtime_callbacks \<Rightarrow> record_locator list \<Rightarrow> ('w krn_context, unit) krn" where
  "read_records_loop runtime [] = set_kernel_state K_OfflineDataAuthentication"
| "read_records_loop runtime (locator # rest) =
     kbind (set_kernel_state K_ReadRecords) (\<lambda>_.
     kbind (klift (rbind (read_record (loc_record locator) (loc_sfi locator)) apdu_encode)) (\<lambda>command.
     kbind (send_command runtime command ReadRecord) (\<lambda>(body, sw).
     kbind (klift (read_record_status_of (classify ReadRecord sw))) (\<lambda>status. case status of
       RecordSuccess \<Rightarrow>
         kbind (parse_record_into_card_data body) (\<lambda>_.
         kbind (remember_record locator body) (\<lambda>_.
         kbind (apply_transition EvRecordRead) (\<lambda>_.
           if rest = [] then kbind (apply_transition EvAflComplete) (\<lambda>_. set_kernel_state K_OfflineDataAuthentication)
           else kbind (apply_transition EvMoreAflEntries) (\<lambda>_. read_records_loop runtime rest))))
     | RecordEndOfRecords \<Rightarrow>
         kbind (if contributes_to_offline_auth locator then set_tvr_bit B1_ICC_DATA_MISSING else kret ()) (\<lambda>_.
         kbind (apply_transition EvEndOfRecords) (\<lambda>_. set_kernel_state K_OfflineDataAuthentication))
     | RecordContinueWithTvr b \<Rightarrow>
         kbind (set_tvr_bit b) (\<lambda>_.
         kbind (apply_transition EvRecordReadFailed) (\<lambda>_. set_kernel_state K_OfflineDataAuthentication))))))"

definition read_application_records :: "'w runtime_callbacks \<Rightarrow> afl_entry list \<Rightarrow> ('w krn_context, unit) krn" where
  "read_application_records runtime afl =
     kbind (klift (record_plan afl)) (\<lambda>plan.
       if plan = []
       then kbind (apply_transition EvEndOfRecords) (\<lambda>_. set_kernel_state K_OfflineDataAuthentication)
       else read_records_loop runtime plan)"

section \<open>Offline data authentication\<close>

text \<open>Running an operation for its result, whatever it is (\<open>.is_err()\<close>, \<open>match .. { Err(_) => .. }\<close>).\<close>

definition kattempt :: "('s, 'a) krn \<Rightarrow> ('s, 'a krn_result) krn" where
  "kattempt m = (\<lambda>s. case m s of (r, s') \<Rightarrow> (Inr r, s'))"

definition recover_issuer_public_key ::
    "capk \<Rightarrow> data_store \<Rightarrow> oda_failure + recovered_public_key_certificate" where
  "recover_issuer_public_key c card_data =
     rbind (or_err IssuerCertificateRecovery (validate_issuer_public_key_inputs card_data)) (\<lambda>inputs.
       or_err IssuerCertificateRecovery
         (recover_and_verify_public_key_certificate IssuerCertificate (pki_certificate inputs) (capk_modulus c)
            (capk_exponent c) (pki_remainder inputs) (pki_exponent inputs) []))"

definition recover_icc_public_key ::
    "recovered_public_key_certificate \<Rightarrow> data_store \<Rightarrow> oda_failure + recovered_public_key_certificate" where
  "recover_icc_public_key issuer_public_key card_data =
     rbind (or_err IccCertificateRecovery (validate_icc_public_key_inputs card_data)) (\<lambda>inputs.
       or_err IccCertificateRecovery
         (recover_and_verify_public_key_certificate IccCertificate (pki_certificate inputs)
            (rpk_public_key issuer_public_key) (rpk_exponent issuer_public_key) (pki_remainder inputs)
            (pki_exponent inputs) []))"

definition perform_dynamic_data_authentication ::
    "'w runtime_callbacks \<Rightarrow> recovered_public_key_certificate \<Rightarrow> data_store \<Rightarrow> int \<Rightarrow> ('w krn_context, unit) krn" where
  "perform_dynamic_data_authentication runtime icc_public_key card_data timeout_ms =
     kbind (klift (case ds_get card_data [0x9f, 0x49] of
         Some v \<Rightarrow> parse_dol v | None \<Rightarrow> parse_dol [0x9f, 0x37, 0x04])) (\<lambda>ddol.
     kbind (klift (build_dol_with_policy ddol card_data ZeroPadMissingAndShort)) (\<lambda>ddol_values.
     kbind (klift (rbind (internal_authenticate ddol_values) apdu_encode)) (\<lambda>command.
     kbind (transmit_apdu_with_followups runtime command timeout_ms InternalAuthenticate) (\<lambda>response.
     kbind (klift (response_body_and_status response)) (\<lambda>(body, sw).
     kbind (klift (require_apdu_success InternalAuthenticate sw)) (\<lambda>_.
     kbind (klift (parse_internal_authenticate_response body)) (\<lambda>ia.
     klift (rmap (\<lambda>_. ()) (recover_and_verify_signed_application_data DynamicApplicationData
       (ia_signed_dynamic_application_data ia) (rpk_public_key icc_public_key) (rpk_exponent icc_public_key)
       ddol_values)))))))))"

record 'w oda_evaluation_context =
  oec_profiles :: profile_set
  oec_rid :: arr5
  oec_evaluation_date :: emv_date
  oec_card_data :: data_store
  oec_offline_auth_records :: "static_authentication_record list"
  oec_runtime :: "'w runtime_callbacks option"
  oec_apdu_timeout_ms :: int

text \<open>The outcome; every early return of the source is a value here.\<close>

definition oda_outcome_for_method ::
    "oda_method \<Rightarrow> 'w oda_evaluation_context \<Rightarrow> ('w krn_context, oda_outcome) krn" where
  "oda_outcome_for_method m ev =
     (case Option.bind (ds_get (oec_card_data ev) [0x8f]) (\<lambda>v. get_at v 0) of
        None \<Rightarrow> kret (OdaFailed m MissingCapk)
      | Some key_index \<Rightarrow>
     (case select_capk (oec_profiles ev) (oec_rid ev) key_index (oec_evaluation_date ev) CapkVerified of
        Inl _ \<Rightarrow> kret (OdaFailed m MissingCapk)
      | Inr c \<Rightarrow>
     (case recover_issuer_public_key c (oec_card_data ev) of
        Inl failure \<Rightarrow> kret (OdaFailed m failure)
      | Inr issuer_public_key \<Rightarrow>
     (case m of
        Sda \<Rightarrow>
          (case ds_get (oec_card_data ev) [0x93] of
             None \<Rightarrow> kret (OdaFailed m StaticSignature)
           | Some signed_static_application_data \<Rightarrow>
               (case verify_static_data_authentication issuer_public_key signed_static_application_data
                       (oec_offline_auth_records ev) (oec_card_data ev) of
                  Inl _ \<Rightarrow> kret (OdaFailed m StaticSignature)
                | Inr _ \<Rightarrow> kret (OdaPassed m)))
      | Dda \<Rightarrow>
          (case recover_icc_public_key issuer_public_key (oec_card_data ev) of
             Inl failure \<Rightarrow> kret (OdaFailed m failure)
           | Inr icc_public_key \<Rightarrow>
               (case oec_runtime ev of
                  None \<Rightarrow> kret (OdaFailed m DynamicSignature)
                | Some runtime \<Rightarrow>
                    kbind (kattempt (perform_dynamic_data_authentication runtime icc_public_key
                             (oec_card_data ev) (oec_apdu_timeout_ms ev))) (\<lambda>r. case r of
                      Inl _ \<Rightarrow> kret (OdaFailed m DynamicSignature)
                    | Inr _ \<Rightarrow> kret (OdaPassed m))))
      | Cda \<Rightarrow>
          (case recover_icc_public_key issuer_public_key (oec_card_data ev) of
             Inr _ \<Rightarrow> kret (OdaPassed m)
           | Inl failure \<Rightarrow> kret (OdaFailed m failure))))))"

fun oda_failed :: "oda_outcome \<Rightarrow> bool" where
  "oda_failed OdaNotPerformed = True"
| "oda_failed (OdaFailed m failure) = True"
| "oda_failed (OdaPassed m) = False"

definition run_offline_data_authentication ::
    "profile_set \<Rightarrow> 'w runtime_callbacks option \<Rightarrow> ('w krn_context, unit) krn" where
  "run_offline_data_authentication profiles runtime =
     kbind (kask (\<lambda>ctx. ok_or (kc_selected_application ctx) InvalidArgument)) (\<lambda>selected.
     kbind (klift (ok_or (sa_aip selected) MissingMandatoryTag)) (\<lambda>aip.
     kbind (kask (\<lambda>ctx. ok_or (kc_profile_evaluation_date ctx) InvalidProfile)) (\<lambda>evaluation_date.
     kbind (klift (selected_scheme_and_aid profiles selected)) (\<lambda>(scheme, aid).
     case select_oda_method (selection_input_from_aip aip (cda_allowed_by_profile aid) True) of
       OdaNotRequired \<Rightarrow>
         kbind (kmod (\<lambda>ctx. ctx\<lparr>kc_selected_oda_method := None\<rparr>)) (\<lambda>_.
         kbind (apply_transition EvOdaSuccess) (\<lambda>_. set_kernel_state K_ProcessingRestrictions))
     | selection \<Rightarrow>
         kbind (case selection of
             Perform m \<Rightarrow>
               kbind (kmod (\<lambda>ctx. ctx\<lparr>kc_selected_oda_method := Some m\<rparr>)) (\<lambda>_.
               kbind (kask (\<lambda>ctx. Inr \<lparr>oec_profiles = profiles, oec_rid = sp_rid scheme,
                   oec_evaluation_date = evaluation_date, oec_card_data = kc_card_data ctx,
                   oec_offline_auth_records = kc_offline_auth_records ctx, oec_runtime = runtime,
                   oec_apdu_timeout_ms = apdu_timeout ctx\<rparr>)) (oda_outcome_for_method m))
           | _ \<Rightarrow> kbind (kmod (\<lambda>ctx. ctx\<lparr>kc_selected_oda_method := None\<rparr>)) (\<lambda>_. kret OdaNotPerformed))
           (\<lambda>outcome.
             kbind (kmod (\<lambda>ctx. case apply_oda_outcome (kc_tvr ctx) (kc_tsi ctx) outcome of
                 (t, i) \<Rightarrow> ctx\<lparr>kc_tvr := t, kc_tsi := i\<rparr>)) (\<lambda>_.
             kbind (apply_transition (if oda_failed outcome then EvOdaFailure else EvOdaSuccess)) (\<lambda>_.
               set_kernel_state K_ProcessingRestrictions)))))))"

definition cda_authentication_data_for :: "aid_profile \<Rightarrow> generate_ac_response \<Rightarrow> bytes krn_result" where
  "cda_authentication_data_for aid response = (case ap_cda_authentication_data aid of
     CdaApplicationCryptogram \<Rightarrow> Inr (gac_application_cryptogram response)
   | CdaApplicationCryptogramAndIccDynamicNumber \<Rightarrow>
       rmap (\<lambda>number. gac_application_cryptogram response @ number)
         (ok_or (gac_icc_dynamic_number response) MissingMandatoryTag))"

fun oda_failure_to_kernel_error :: "oda_failure \<Rightarrow> kernel_error" where
  "oda_failure_to_kernel_error MissingCapk = MissingMandatoryTag"
| "oda_failure_to_kernel_error _ = InvalidProfile"

definition map_oda_failure :: "oda_failure + 'a \<Rightarrow> 'a krn_result" where
  "map_oda_failure r = (case r of Inl f \<Rightarrow> Inl (oda_failure_to_kernel_error f) | Inr a \<Rightarrow> Inr a)"

definition verify_combined_data_authentication ::
    "'w krn_context \<Rightarrow> generate_ac_response \<Rightarrow> unit krn_result" where
  "verify_combined_data_authentication ctx response =
     rbind (ok_or (kc_profiles ctx) InvalidProfile) (\<lambda>profiles.
     rbind (ok_or (kc_selected_application ctx) InvalidArgument) (\<lambda>selected.
     rbind (selected_scheme_and_aid profiles selected) (\<lambda>(scheme, aid).
     rbind (cda_authentication_data_for aid response) (\<lambda>authentication_data.
     rbind (ok_or (kc_profile_evaluation_date ctx) InvalidProfile) (\<lambda>evaluation_date.
     rbind (ok_or (Option.bind (ds_get (kc_card_data ctx) [0x8f]) (\<lambda>v. get_at v 0)) MissingMandatoryTag) (\<lambda>key_index.
     rbind (select_capk profiles (sp_rid scheme) key_index evaluation_date CapkVerified) (\<lambda>c.
     rbind (map_oda_failure (recover_issuer_public_key c (kc_card_data ctx))) (\<lambda>issuer_public_key.
     rbind (map_oda_failure (recover_icc_public_key issuer_public_key (kc_card_data ctx))) (\<lambda>icc_public_key.
     rbind (ok_or (gac_signed_dynamic_application_data response) MissingMandatoryTag) (\<lambda>signed.
       rmap (\<lambda>_. ()) (recover_and_verify_signed_application_data DynamicApplicationData signed
         (rpk_public_key icc_public_key) (rpk_exponent icc_public_key) authentication_data)))))))))))"

section \<open>Restrictions and cardholder verification\<close>

definition restriction_input_for ::
    "'w krn_context \<Rightarrow> stored_txn_params \<Rightarrow> restriction_input krn_result" where
  "restriction_input_for ctx params =
     rbind (ok_or (kc_profile_evaluation_date ctx) InvalidProfile) (\<lambda>transaction_date.
     rbind (rbind (required_fixed fixed_slice3 (kc_card_data ctx) [0x5f, 0x24]) date_from_bcd) (\<lambda>expiration.
     rbind (rbind (optional_fixed fixed_slice3 (kc_card_data ctx) [0x5f, 0x25]) (opt_traverse date_from_bcd)) (\<lambda>effective.
     rbind (required_fixed fixed_slice2 (kc_card_data ctx) [0x5f, 0x28]) (\<lambda>issuer_country.
     rbind (fixed_numeric_bcd2 (ucast (tp_terminal_country_code params))) (\<lambda>terminal_country.
     rbind (required_fixed fixed_slice2 (kc_card_data ctx) [0x9f, 0x07]) (\<lambda>auc.
     rbind (card_application_version (kc_card_data ctx)) (\<lambda>version.
       Inr \<lparr>ri_transaction_date = transaction_date, ri_application_expiration_date = expiration,
            ri_application_effective_date = effective, ri_card_application_version = version,
            ri_terminal_application_version = None, ri_auc = \<lparr>auc_bytes = auc\<rparr>,
            ri_region = (if issuer_country = terminal_country then Domestic else International),
            ri_service = service_type_of params, ri_terminal_channel = terminal_channel_of params,
            ri_new_card = False\<rparr>)))))))"

definition run_processing_restrictions :: "stored_txn_params \<Rightarrow> ('w krn_context, unit) krn" where
  "run_processing_restrictions params =
     kbind (kask (\<lambda>ctx. restriction_input_for ctx params)) (\<lambda>input.
     kbind (kmod (\<lambda>ctx. ctx\<lparr>kc_tvr := rr_tvr (restrictions_evaluate input (kc_tvr ctx))\<rparr>)) (\<lambda>_.
     kbind (apply_transition EvRestrictionsEvaluated) (\<lambda>_. set_kernel_state K_Cvm)))"

definition contactless_ctq_indicates_cdcvm :: "'w krn_context \<Rightarrow> aid_profile \<Rightarrow> bool \<Rightarrow> bool krn_result" where
  "contactless_ctq_indicates_cdcvm ctx aid contactless_interface =
     (if \<not> contactless_interface \<or> \<not> ap_cdcvm_supported aid then Inr False
      else case ds_get (kc_card_data ctx) [0x9f, 0x6c] of
        None \<Rightarrow> Inr False
      | Some ctq \<Rightarrow> if length ctq \<noteq> 2 then Inl ParseError else Inr (ctq ! 0 AND 0x10 \<noteq> 0))"

definition contactless_cvm_satisfied :: "'w krn_context \<Rightarrow> aid_profile \<Rightarrow> bool \<Rightarrow> bool krn_result" where
  "contactless_cvm_satisfied ctx aid contactless_interface =
     (let cvm_result_succeeded = (case ds_get (kc_card_data ctx) [0x9f, 0x34] of
          Some result \<Rightarrow> length result = 3 \<and> result ! 2 = 0x02 | None \<Rightarrow> False)
      in if cvm_result_succeeded then Inr True
         else contactless_ctq_indicates_cdcvm ctx aid contactless_interface)"

definition cvm_outcome_for :: "'w krn_context \<Rightarrow> stored_txn_params \<Rightarrow> cvm_outcome krn_result" where
  "cvm_outcome_for ctx params =
     rbind (rbind (ok_or (ds_get (kc_card_data ctx) [0x8e]) MissingMandatoryTag) parse_cvm_list) (\<lambda>cvm_list.
     let contactless = (tp_interface_preference params = 2);
         caps = kc_cvm_capabilities ctx; handles = kc_cvm_pin_handles ctx in
     rbind (if \<not> contactless then Inr False
            else if rcc_cdcvm_performed caps then Inr True
            else rbind (selected_aid_profile ctx) (\<lambda>aid. contactless_ctq_indicates_cdcvm ctx aid True)) (\<lambda>cdcvm.
     rbind (transaction_currency_matches (kc_card_data ctx) params) (\<lambda>matches.
       Inr (cvm_evaluate cvm_list
         \<lparr>cc_amount_authorized = tp_amount_authorised_minor params,
          transaction_currency_matches_application = matches,
          cc_transaction_type = cvm_transaction_type_of params,
          cc_interface = (if contactless then CvmContactless else CvmContact),
          offline_pin_supported = (rcc_offline_pin_supported caps \<or>
            offline_plaintext handles \<noteq> None \<or> offline_enciphered handles \<noteq> None),
          online_pin_supported = rcc_online_pin_supported caps,
          signature_supported = rcc_signature_supported caps,
          cdcvm_performed = cdcvm\<rparr> handles))))"

definition record_cvm_outcome :: "cvm_outcome \<Rightarrow> ('w krn_context, arr3 \<times> fsm_event) krn" where
  "record_cvm_outcome outcome = (case outcome of
     Selected action results tvr_bit \<Rightarrow>
       kbind (case tvr_bit of Some b \<Rightarrow> set_tvr_bit b | None \<Rightarrow> kret ()) (\<lambda>_.
       kbind (if action = ActOnlinePin then set_tvr_bit B3_ONLINE_PIN_ENTERED else kret ()) (\<lambda>_.
         kret (results, EvCvmSuccess)))
   | Failed results tvr_bit \<Rightarrow>
       kbind (set_tvr_bit tvr_bit) (\<lambda>_. kret (results, EvCvmFailureNoRetry)))"

definition run_cvm_processing :: "stored_txn_params \<Rightarrow> ('w krn_context, unit) krn" where
  "run_cvm_processing params =
     kbind (kask (\<lambda>ctx. cvm_outcome_for ctx params)) (\<lambda>outcome.
     kbind (record_cvm_outcome outcome) (\<lambda>(results, event).
     kbind (set_tsi_bit CARDHOLDER_VERIFICATION_PERFORMED) (\<lambda>_.
     kbind (put_card_data [0x9f, 0x34] (list3 results)) (\<lambda>_.
     kbind put_tvr (\<lambda>_.
     kbind put_tsi (\<lambda>_.
     kbind (apply_transition event) (\<lambda>_. set_kernel_state K_TerminalRiskManagement)))))))"

section \<open>Contactless limits and relay resistance\<close>

text \<open>A final outcome outside the state machine's table: the state is set directly.\<close>

definition finish_contactless :: "krn_outcome \<Rightarrow> ('w krn_context, krn_outcome option) krn" where
  "finish_contactless outcome =
     kbind (kmod (\<lambda>ctx. ctx\<lparr>kc_fsm_state := S16, kc_state := K_FinalOutcome,
       kc_final_outcome := Some outcome, kc_last_error := Ok\<rparr>)) (\<lambda>_. kret (Some outcome))"

fun krn_outcome_of_relay_failure :: "relay_resistance_failure_outcome \<Rightarrow> krn_outcome" where
  "krn_outcome_of_relay_failure RelayTryAgain = TryAgain"
| "krn_outcome_of_relay_failure RelayAlternateInterface = OutcomeAlternateInterface"
| "krn_outcome_of_relay_failure RelayTerminate = Terminated"

text \<open>
  \<open>clock\<close> reads the monotonic clock of the environment in nanoseconds (\<open>Instant::now\<close>).
\<close>

definition run_required_relay_resistance ::
    "('w \<Rightarrow> nat) \<Rightarrow> 'w runtime_callbacks \<Rightarrow> aid_profile \<Rightarrow> ('w krn_context, krn_outcome option) krn" where
  "run_required_relay_resistance clock runtime aid = (case ap_relay_resistance aid of
     None \<Rightarrow> kret None
   | Some profile \<Rightarrow>
       kbind (kask (\<lambda>ctx. Inr (clock (kc_world ctx)))) (\<lambda>started.
       kbind (transmit_apdu runtime (rrp_command_apdu profile) (uint (rrp_max_round_trip_ms profile))) (\<lambda>response.
       kbind (kask (\<lambda>ctx. Inr (word_of_nat (min ((clock (kc_world ctx) - started) div 1000000) 65535)))) (\<lambda>elapsed_ms.
       case evaluate_relay_resistance profile response elapsed_ms of
         RelayPassed \<Rightarrow> kret None
       | RelayFailed failure \<Rightarrow>
           kbind (klift (outcome_from_relay_resistance_failure failure)) (\<lambda>outcome_value.
           kbind (emit_contactless_outcome_value outcome_value) (\<lambda>_.
             finish_contactless (krn_outcome_of_relay_failure failure)))))))"

definition run_contactless_limit_processing ::
    "('w \<Rightarrow> nat) \<Rightarrow> 'w runtime_callbacks \<Rightarrow> profile_set \<Rightarrow> stored_txn_params \<Rightarrow>
       ('w krn_context, krn_outcome option) krn" where
  "run_contactless_limit_processing clock runtime profiles params =
     (if tp_interface_preference params \<noteq> KRN_INTERFACE_CONTACTLESS then kret None
      else
        kbind (kask (\<lambda>ctx. ok_or (kc_selected_application ctx) InvalidArgument)) (\<lambda>selected.
        kbind (klift (ok_or (get_at (ps_schemes profiles) (sa_scheme_index selected)) InvalidProfile)) (\<lambda>scheme.
        if sp_kernel_type scheme \<noteq> ''c8_contactless'' then kfail InvalidProfile
        else
        kbind (klift (ok_or (get_at (sp_aids scheme) (sa_aid_index selected)) InvalidProfile)) (\<lambda>aid.
        if \<not> list_ex (\<lambda>i. i = ''contactless'') (ap_interfaces aid) then kfail InvalidProfile
        else
        kbind (run_required_relay_resistance clock runtime aid) (\<lambda>outcome. case outcome of
          Some outcome \<Rightarrow> kret (Some outcome)
        | None \<Rightarrow>
        kbind (kask (\<lambda>ctx. contactless_cvm_satisfied ctx aid (tp_interface_preference params = 2))) (\<lambda>satisfied.
        let decision = evaluate_contactless_limits
              \<lparr>amount_authorised_minor = tp_amount_authorised_minor params,
               contactless_transaction_limit = ap_contactless_transaction_limit aid,
               contactless_cvm_limit = ap_contactless_cvm_limit aid,
               contactless_floor_limit = ap_floor_limit aid, cvm_satisfied = satisfied\<rparr>;
            emit = kbind (klift (outcome_from_limit_decision decision)) emit_contactless_outcome_value
        in case decision of
             LimitAllowed \<Rightarrow> kret None
           | LimitOnlineRequired \<Rightarrow> kbind emit (\<lambda>_. kret None)
           | LimitCvmRequired \<Rightarrow> kbind emit (\<lambda>_. finish_contactless TryAgain)
           | LimitAlternateInterface \<Rightarrow> kbind emit (\<lambda>_. finish_contactless OutcomeAlternateInterface)))))))"

definition validate_selected_kernel_mapping ::
    "'w krn_context \<Rightarrow> stored_txn_params \<Rightarrow> profile_set \<Rightarrow> unit krn_result" where
  "validate_selected_kernel_mapping ctx params profiles =
     rbind (ok_or (kc_selected_application ctx) InvalidArgument) (\<lambda>selected.
     rbind (selected_scheme_and_aid profiles selected) (\<lambda>(scheme, aid).
       if tp_interface_preference params = KRN_INTERFACE_CONTACT
       then if \<not> list_ex (\<lambda>i. i = ''contact'') (ap_interfaces aid) then Inl InvalidProfile
            else (case sp_contact_kernel_type scheme of
                Some contact_kernel_type \<Rightarrow>
                  if contact_kernel_type \<noteq> ''c8_contactless'' then Inr () else Inl InvalidProfile
              | None \<Rightarrow> Inl InvalidProfile)
       else if tp_interface_preference params = KRN_INTERFACE_CONTACTLESS
       then if sp_kernel_type scheme \<noteq> ''c8_contactless'' \<or>
                 \<not> list_ex (\<lambda>i. i = ''contactless'') (ap_interfaces aid) then Inl InvalidProfile
            else Inr ()
       else Inl InvalidArgument))"

definition is_final_outcome_state :: "'w krn_context \<Rightarrow> bool" where
  "is_final_outcome_state ctx \<longleftrightarrow>
     kc_state ctx = K_FinalOutcome \<and> (kc_fsm_state ctx = S14 \<or> kc_fsm_state ctx = S16)"

section \<open>Risk management and action analysis\<close>

definition run_terminal_risk_management ::
    "profile_set \<Rightarrow> stored_txn_params \<Rightarrow> ('w krn_context, unit) krn" where
  "run_terminal_risk_management profiles params =
     kbind (kask (\<lambda>ctx. ok_or (kc_selected_application ctx) InvalidArgument)) (\<lambda>selected.
     kbind (klift (ok_or (Option.bind (get_at (ps_schemes profiles) (sa_scheme_index selected))
         (\<lambda>scheme. get_at (sp_aids scheme) (sa_aid_index selected))) InvalidProfile)) (\<lambda>aid.
     kbind (klift (ok_or (aid_trm_profile aid) InvalidProfile)) (\<lambda>profile.
     kbind (kask (\<lambda>ctx. trm_evaluate
         \<lparr>trm_amount_authorized = tp_amount_authorised_minor params,
          trm_transaction_type = tp_transaction_type params, exception_file_match = False,
          merchant_forced_online = False, trm_offline_counter = kc_offline_counter ctx,
          random_sample_basis_points = kc_trm_random_sample_basis_points ctx,
          trm_input_profile = profile\<rparr> (kc_tvr ctx) (kc_tsi ctx))) (\<lambda>result.
     kbind (kmod (\<lambda>ctx. ctx\<lparr>kc_tvr := trm_tvr result, kc_tsi := trm_tsi result\<rparr>)) (\<lambda>_.
     kbind put_tvr (\<lambda>_.
     kbind put_tsi (\<lambda>_.
     kbind (apply_transition EvTrmEvaluated) (\<lambda>_. set_kernel_state K_TerminalActionAnalysis))))))))"

fun terminal_action_target :: "terminal_action \<Rightarrow> cryptogram_request \<times> fsm_event \<times> kernel_state" where
  "terminal_action_target ActionAac = (ReqAac, EvTaaAac, K_FinalOutcome)"
| "terminal_action_target ActionTc = (ReqTc, EvTaaTc, K_FinalOutcome)"
| "terminal_action_target ActionArqc = (ReqArqc, EvTaaArqc, K_FirstGenerateAc)"

definition taa_input_for :: "'w krn_context \<Rightarrow> profile_set \<Rightarrow> taa_input krn_result" where
  "taa_input_for ctx profiles =
     rbind (ok_or (kc_selected_application ctx) InvalidArgument) (\<lambda>selected.
     rbind (selected_scheme_and_aid profiles selected) (\<lambda>(scheme, aid).
     rbind (issuer_action_codes (kc_card_data ctx) (ap_issuer_action_codes aid)) (\<lambda>iac.
     rbind (opt_traverse (\<lambda>params. terminal_type_online_capable (tp_terminal_type params)) (kc_txn_params ctx)) (\<lambda>online.
       Inr \<lparr>taa_tvr = kc_tvr ctx, taa_tac = ap_action_codes aid, taa_iac = iac,
            terminal_online_capable = case_option True id online, taa_input_profile = sp_taa scheme\<rparr>))))"

definition run_terminal_action_analysis :: "profile_set \<Rightarrow> ('w krn_context, unit) krn" where
  "run_terminal_action_analysis profiles =
     kbind (kask (\<lambda>ctx. taa_input_for ctx profiles)) (\<lambda>input.
     case terminal_action_target (td_action (decide input)) of (request, event, state) \<Rightarrow>
     kbind (kmod (\<lambda>ctx. ctx\<lparr>kc_requested_cryptogram := Some request\<rparr>)) (\<lambda>_.
     kbind (apply_transition event) (\<lambda>_. set_kernel_state state)))"

section \<open>The first cryptogram\<close>

definition cdol1_definition_for_first_gac :: "'w krn_context \<Rightarrow> dol_entry list krn_result" where
  "cdol1_definition_for_first_gac ctx = (case ds_get (kc_card_data ctx) [0x8c] of
     Some card_cdol1 \<Rightarrow> parse_dol card_cdol1
   | None \<Rightarrow> rbind (selected_aid_profile ctx) (\<lambda>aid.
              rbind (ok_or (ap_default_cdol1 aid) MissingMandatoryTag) parse_dol))"

definition cda_request_control_for_first_gac :: "'w krn_context \<Rightarrow> cda_request_control krn_result" where
  "cda_request_control_for_first_gac ctx =
     (if kc_selected_oda_method ctx \<noteq> Some Cda then Inr NotRequested
      else rbind (selected_aid_profile ctx) (\<lambda>aid.
        rbind (ok_or (ap_cda_request_encoding aid) UnsupportedCdaRequest) (\<lambda>encoding.
          case encoding of EncodeInCdolData \<Rightarrow> Inr InCdolData | EncodeP1LowBits bits \<Rightarrow> Inr (P1LowBits bits))))"

text \<open>The part both cryptogram commands share: build the data, send, and require success.\<close>

definition request_cryptogram ::
    "'w runtime_callbacks \<Rightarrow> cryptogram_request \<Rightarrow> dol_entry list \<Rightarrow> ('w krn_context, cda_request_control) krn
     \<Rightarrow> fsm_event \<Rightarrow> ('w krn_context, generate_ac_response) krn" where
  "request_cryptogram runtime request cdol control failure_event =
     kbind (kask (\<lambda>ctx. build_dol_with_policy cdol (kc_card_data ctx) RequireExactValues)) (\<lambda>cdol_values.
     kbind control (\<lambda>cda_control.
     kbind (klift (rbind (generate_ac request cdol_values cda_control) apdu_encode)) (\<lambda>command.
     kbind (send_command runtime command GenerateAc) (\<lambda>(body, sw).
     kbind (require_generate_ac_success sw failure_event) (\<lambda>_.
       klift (parse_generate_ac_response body))))))"

definition store_gac_response :: "generate_ac_response \<Rightarrow> ('w krn_context, unit) krn" where
  "store_gac_response parsed =
     kbind (put_card_data [0x9f, 0x27] [cid_raw (gac_cid parsed)]) (\<lambda>_.
     kbind (put_card_data [0x9f, 0x26] (gac_application_cryptogram parsed)) (\<lambda>_.
     kbind (put_card_data [0x9f, 0x36] (gac_atc parsed)) (\<lambda>_.
     kbind (if gac_issuer_application_data parsed \<noteq> []
            then put_card_data [0x9f, 0x10] (gac_issuer_application_data parsed) else kret ()) (\<lambda>_.
       case gac_icc_dynamic_number parsed of
         Some number \<Rightarrow> put_card_data [0x9f, 0x4c] number
       | None \<Rightarrow> kret ()))))"

definition reroute_cda_failed_offline_cryptogram_through_taa :: "('w krn_context, unit) krn" where
  "reroute_cda_failed_offline_cryptogram_through_taa =
     kbind (kask (\<lambda>ctx. ok_or (kc_profiles ctx) InvalidProfile)) (\<lambda>profiles.
     kbind (apply_transition EvCdaFailure) (\<lambda>_.
     kbind (set_kernel_state K_TerminalActionAnalysis) (\<lambda>_.
     kbind (run_terminal_action_analysis profiles) (\<lambda>_.
       kask (\<lambda>ctx. if kc_requested_cryptogram ctx = Some ReqArqc then Inl InvalidArgument else Inr ())))))"

definition first_gac_target :: "cryptogram_type \<Rightarrow> (fsm_event \<times> kernel_state) krn_result" where
  "first_gac_target c = (case c of
     Arqc \<Rightarrow> Inr (EvGacArqc, K_OnlineAuthorization)
   | Tc \<Rightarrow> Inr (EvGacTc, K_FinalOutcome)
   | Aac \<Rightarrow> Inr (EvGacAac, K_FinalOutcome)
   | ApplicationAuthenticationReferral \<Rightarrow> Inl InvalidArgument)"

definition cda_verification_failed :: "'w krn_context \<Rightarrow> generate_ac_response \<Rightarrow> bool" where
  "cda_verification_failed ctx parsed \<longleftrightarrow>
     kc_selected_oda_method ctx = Some Cda \<and> isl (verify_combined_data_authentication ctx parsed)"

text \<open>From the stored answer on: verify it if it has to be, and follow it.\<close>

definition conclude_first_gac :: "generate_ac_response \<Rightarrow> ('w krn_context, unit) krn" where
  "conclude_first_gac parsed =
     kbind (kask (\<lambda>ctx. Inr (cda_verification_failed ctx parsed))) (\<lambda>failed.
     kbind (if failed
            then kbind (set_tvr_bit B1_CDA_FAILED) (\<lambda>_. put_tvr) else kret ()) (\<lambda>_.
     if failed \<and> cryptogram_type_of (gac_cid parsed) \<in> {Tc, Aac}
     then kbind (kmod (\<lambda>ctx. ctx\<lparr>kc_first_gac_response := Some parsed\<rparr>)) (\<lambda>_.
            reroute_cda_failed_offline_cryptogram_through_taa)
     else
       kbind (klift (first_gac_target (cryptogram_type_of (gac_cid parsed)))) (\<lambda>(event, state).
       kbind (if cryptogram_type_of (gac_cid parsed) = Arqc
              then kbind (kask (\<lambda>ctx. encode_online_authorization_package
                       (build_online_authorization_package parsed (kc_card_data ctx)))) (\<lambda>data.
                     kmod (\<lambda>ctx. ctx\<lparr>kc_online_authorization_data := Some data\<rparr>))
              else kmod (\<lambda>ctx. ctx\<lparr>kc_online_authorization_data := None\<rparr>)) (\<lambda>_.
       kbind (kmod (\<lambda>ctx. ctx\<lparr>kc_first_gac_response := Some parsed\<rparr>)) (\<lambda>_.
       kbind (apply_transition event) (\<lambda>_. set_kernel_state state))))))"

definition run_first_generate_ac :: "'w runtime_callbacks \<Rightarrow> ('w krn_context, unit) krn" where
  "run_first_generate_ac runtime =
     kbind (kask (\<lambda>ctx. ok_or (kc_requested_cryptogram ctx) InvalidArgument)) (\<lambda>request.
     kbind (kask cdol1_definition_for_first_gac) (\<lambda>cdol.
     kbind put_tvr (\<lambda>_.
     kbind put_tsi (\<lambda>_.
     kbind (request_cryptogram runtime request cdol (kask cda_request_control_for_first_gac) EvGacFailed) (\<lambda>parsed.
     kbind (store_gac_response parsed) (\<lambda>_.
     kbind (case gac_signed_dynamic_application_data parsed of
         Some sdad \<Rightarrow> put_card_data [0x9f, 0x4b] sdad | None \<Rightarrow> kret ()) (\<lambda>_.
       conclude_first_gac parsed)))))))"

definition finish_offline_outcome_from_taa :: "('w krn_context, krn_outcome) krn" where
  "finish_offline_outcome_from_taa =
     kbind (kask (\<lambda>ctx. rbind (ok_or (kc_requested_cryptogram ctx) InvalidArgument) (\<lambda>request. case request of
         ReqTc \<Rightarrow> Inr ApprovedOffline | ReqAac \<Rightarrow> Inr DeclinedOffline | ReqArqc \<Rightarrow> Inl InvalidArgument))) (\<lambda>outcome.
     kbind (kmod (\<lambda>ctx. ctx\<lparr>kc_final_outcome := Some outcome, kc_last_error := Ok\<rparr>)) (\<lambda>_. kret outcome))"

definition finish_offline_outcome_from_first_gac :: "('w krn_context, krn_outcome) krn" where
  "finish_offline_outcome_from_first_gac =
     kbind (kask (\<lambda>ctx. rbind (ok_or (kc_first_gac_response ctx) InvalidArgument) (\<lambda>response.
         case cryptogram_type_of (gac_cid response) of
           Tc \<Rightarrow> Inr ApprovedOffline | Aac \<Rightarrow> Inr DeclinedOffline | _ \<Rightarrow> Inl InvalidArgument))) (\<lambda>outcome.
     kbind (kmod (\<lambda>ctx. ctx\<lparr>kc_final_outcome := Some outcome, kc_last_error := Ok\<rparr>)) (\<lambda>_. kret outcome))"

definition first_gac_transaction_outcome :: "('w krn_context, krn_outcome) krn" where
  "first_gac_transaction_outcome =
     kbind (kask (\<lambda>ctx. Inr ctx)) (\<lambda>ctx.
       if kc_fsm_state ctx = S11
       then kbind (kmod (\<lambda>ctx. ctx\<lparr>kc_last_error := Ok\<rparr>)) (\<lambda>_. kret OnlineRequired)
       else if is_final_outcome_state ctx \<and> tvr_is_set (kc_tvr ctx) B1_CDA_FAILED
       then finish_offline_outcome_from_taa
       else if is_final_outcome_state ctx then finish_offline_outcome_from_first_gac
       else kfail InvalidArgument)"

section \<open>Weakest preconditions of the steps\<close>

lemma kwp_set_kernel_state [kwp_simps]: "kwp (set_kernel_state k) s Q E \<longleftrightarrow> Q () (s\<lparr>kc_state := k\<rparr>)"
  and kwp_set_tvr_bit [kwp_simps]: "kwp (set_tvr_bit b) s Q E \<longleftrightarrow> Q () (s\<lparr>kc_tvr := tvr_set (kc_tvr s) b\<rparr>)"
  and kwp_set_tsi_bit [kwp_simps]: "kwp (set_tsi_bit b) s Q E \<longleftrightarrow> Q () (s\<lparr>kc_tsi := tsi_set (kc_tsi s) b\<rparr>)"
  by (simp_all add: set_kernel_state_def set_tvr_bit_def set_tsi_bit_def kwp_simps)

lemma kwp_put_card_data [kwp_simps]:
  "kwp (put_card_data tag v) s Q E \<longleftrightarrow>
     (\<forall>ds. ds_put (kc_card_data s) tag v = Inr ds \<longrightarrow> Q () (s\<lparr>kc_card_data := ds\<rparr>)) \<and>
     (\<forall>e. ds_put (kc_card_data s) tag v = Inl e \<longrightarrow> E e s)"
  by (simp add: put_card_data_def kwp_simps)

lemma kwp_put_tvr [kwp_simps]:
  "kwp put_tvr s Q E \<longleftrightarrow> kwp (put_card_data [0x95] (tvr_bytes (kc_tvr s))) s Q E"
  and kwp_put_tsi [kwp_simps]:
  "kwp put_tsi s Q E \<longleftrightarrow> kwp (put_card_data [0x9b] (tsi_bytes (kc_tsi s))) s Q E"
  by (simp_all add: put_tvr_def put_tsi_def kwp_simps)

lemma only_world_send: "within only_world (send_command runtime command c)"
  unfolding send_command_def by (intro ow.within_rules only_world_followups)

lemmas kwp_send_command [kwp_simps] = kwp_only_world [OF only_world_send]

lemma kwp_remember_record [kwp_simps]:
  "kwp (remember_record locator body) s Q E \<longleftrightarrow>
     Q () (if contributes_to_offline_auth locator
           then s\<lparr>kc_offline_auth_records := kc_offline_auth_records s @
                  [\<lparr>sar_sfi = loc_sfi locator, sar_record = loc_record locator, sar_body = body\<rparr>]\<rparr> else s)"
  by (simp add: remember_record_def kwp_simps)

lemma kwp_parse_record [kwp_simps]:
  "kwp (parse_record_into_card_data body) s Q E \<longleftrightarrow>
     (case parse_read_record_body body (kc_card_data s) of
        (Inr n, data) \<Rightarrow> Q n (s\<lparr>kc_card_data := data\<rparr>)
      | (Inl e, data) \<Rightarrow> E e (s\<lparr>kc_card_data := data\<rparr>))"
  by (auto simp: kwp_def parse_record_into_card_data_def split: prod.split sum.split)

lemma kwp_kattempt [kwp_simps]:
  "kwp (kattempt m) s Q E \<longleftrightarrow> kwp m s (\<lambda>a. Q (Inr a)) (\<lambda>e. Q (Inl e))"
  by (auto simp: kwp_def kattempt_def split: prod.split sum.split)

lemma kwp_require_generate_ac_success [kwp_simps]:
  "kwp (require_generate_ac_success sw event) s Q E \<longleftrightarrow>
     (case require_apdu_success GenerateAc sw of
        Inr _ \<Rightarrow> Q () s
      | Inl e \<Rightarrow> E e (if e = CardRemoved then snd (apply_transition event s) else s))"
  by (auto simp: require_generate_ac_success_def kwp_def kexec ignore_result_def split: sum.split)

section \<open>Where a stage leaves the state machine\<close>

lemma read_records_loop_fsm:
  "kc_fsm_state s = S4 \<Longrightarrow> locators \<noteq> [] \<Longrightarrow> kpost (read_records_loop runtime locators) s (\<lambda>_ t. kc_fsm_state t = S5)"
proof (induction locators arbitrary: s)
  case (Cons locator rest)
  then show ?case
    by (auto simp: kwp_simps transition_eqs split: read_record_status.split prod.split sum.split)
qed simp

lemma read_application_records_fsm:
  "kc_fsm_state s = S4 \<Longrightarrow> kpost (read_application_records runtime afl) s (\<lambda>_ t. kc_fsm_state t = S5)"
  by (auto simp: read_application_records_def kwp_simps transition_eqs intro: read_records_loop_fsm)

lemma only_world_dda: "within only_world (perform_dynamic_data_authentication runtime key data timeout_ms)"
  unfolding perform_dynamic_data_authentication_def by (intro ow.within_rules only_world_followups)

lemma only_world_kattempt: "within only_world m \<Longrightarrow> within only_world (kattempt m)"
  unfolding within_def kattempt_def by (metis (no_types, lifting) case_prod_beta snd_conv)

lemma only_world_oda_outcome: "within only_world (oda_outcome_for_method m ev)"
  unfolding oda_outcome_for_method_def
  by (auto intro!: ow.within_rules only_world_kattempt only_world_dda split: option.split sum.split oda_method.split)

lemmas kwp_oda_outcome [kwp_simps] = kwp_only_world [OF only_world_oda_outcome]

lemma run_offline_data_authentication_fsm:
  "kc_fsm_state s = S5 \<Longrightarrow> kpost (run_offline_data_authentication profiles runtime) s (\<lambda>_ t. kc_fsm_state t = S6)"
  by (auto simp: run_offline_data_authentication_def kwp_simps transition_eqs split: oda_selection.split prod.split)

lemma run_processing_restrictions_fsm:
  "kc_fsm_state s = S6 \<Longrightarrow> kpost (run_processing_restrictions params) s (\<lambda>_ t. kc_fsm_state t = S7)"
  by (simp add: run_processing_restrictions_def kwp_simps transition_eqs)

lemma run_cvm_processing_fsm:
  "kc_fsm_state s = S7 \<Longrightarrow> kpost (run_cvm_processing params) s (\<lambda>_ t. kc_fsm_state t = S8)"
  by (simp add: run_cvm_processing_def record_cvm_outcome_def kwp_simps transition_eqs
      split: cvm_outcome.split option.split)

lemma run_contactless_limit_processing_fsm:
  "kpost (run_contactless_limit_processing clock runtime profiles params) s (\<lambda>o' t.
     case o' of None \<Rightarrow> kc_fsm_state t = kc_fsm_state s
     | Some outcome \<Rightarrow> kc_fsm_state t = S16 \<and> kc_state t = K_FinalOutcome \<and> kc_final_outcome t = Some outcome \<and>
         outcome \<in> {TryAgain, OutcomeAlternateInterface, Terminated})"
proof -
  have oc: "krn_outcome_of_relay_failure f \<in> {TryAgain, OutcomeAlternateInterface, Terminated}" for f
    by (cases f) simp_all
  have relay: "kpost (run_required_relay_resistance clock runtime aid) s (\<lambda>o' t.
     case o' of None \<Rightarrow> kc_fsm_state t = kc_fsm_state s
     | Some outcome \<Rightarrow> kc_fsm_state t = S16 \<and> kc_state t = K_FinalOutcome \<and> kc_final_outcome t = Some outcome \<and>
         outcome \<in> {TryAgain, OutcomeAlternateInterface, Terminated})" for aid and s :: "'a krn_context"
    using oc by (auto simp: run_required_relay_resistance_def finish_contactless_def kwp_simps
        split: option.split relay_resistance_decision.split)
  show ?thesis
    unfolding run_contactless_limit_processing_def
    by (auto simp: finish_contactless_def Let_def kwp_simps intro!: kwp_mono [OF relay]
        split: option.splits contactless_limit_decision.split)
qed

lemma run_terminal_risk_management_fsm:
  "kc_fsm_state s = S8 \<Longrightarrow> kpost (run_terminal_risk_management profiles params) s (\<lambda>_ t. kc_fsm_state t = S9)"
  by (simp add: run_terminal_risk_management_def kwp_simps transition_eqs)

lemma run_terminal_action_analysis_exact:
  "kc_fsm_state s = S9 \<Longrightarrow> kpost (run_terminal_action_analysis profiles) s (\<lambda>_ t.
     \<exists>input request event state. taa_input_for s profiles = Inr input \<and>
       terminal_action_target (td_action (decide input)) = (request, event, state) \<and>
       t = s\<lparr>kc_requested_cryptogram := Some request, kc_fsm_state := (if request = ReqArqc then S10 else S16),
             kc_state := state\<rparr>)"
proof -
  assume S9: "kc_fsm_state s = S9"
  have "kpost (case terminal_action_target action of (request, event, state) \<Rightarrow>
     kbind (kmod (\<lambda>ctx. ctx\<lparr>kc_requested_cryptogram := Some request\<rparr>)) (\<lambda>_.
     kbind (apply_transition event) (\<lambda>_. set_kernel_state state))) s (\<lambda>_ t.
       \<exists>request event state. terminal_action_target action = (request, event, state) \<and>
       t = s\<lparr>kc_requested_cryptogram := Some request, kc_fsm_state := (if request = ReqArqc then S10 else S16),
             kc_state := state\<rparr>)" for action
    using S9 by (cases action) (simp_all add: kwp_simps transition_eqs)
  then show ?thesis by (auto simp: run_terminal_action_analysis_def kwp_kbind kwp_kask intro: kwp_mono)
qed

section \<open>The first cryptogram and the decision that asked for it\<close>

lemma ds_put_other: "ds_put ds tag v = Inr ds' \<Longrightarrow> tag' \<noteq> tag \<Longrightarrow> ds_get ds' tag' = ds_get ds tag'"
  using ds_put_eq_Inr [of ds tag v ds'] by simp

text \<open>The tags that a cryptogram answer and the registers are stored under.\<close>

definition GAC_RESULT_TAGS :: "bytes list" where
  "GAC_RESULT_TAGS = [[0x95], [0x9b], [0x9f, 0x27], [0x9f, 0x26], [0x9f, 0x36], [0x9f, 0x10], [0x9f, 0x4c], [0x9f, 0x4b]]"

definition same_but_results :: "data_store \<Rightarrow> data_store \<Rightarrow> bool" where
  "same_but_results data data' \<longleftrightarrow> (\<forall>tag. tag \<notin> set GAC_RESULT_TAGS \<longrightarrow> ds_get data' tag = ds_get data tag)"

lemma same_but_results_refl: "same_but_results data data"
  by (simp add: same_but_results_def)

lemma same_but_results_put:
  "same_but_results data data' \<Longrightarrow> ds_put data' tag v = Inr data'' \<Longrightarrow> tag \<in> set GAC_RESULT_TAGS \<Longrightarrow>
     same_but_results data data''"
  unfolding same_but_results_def using ds_put_other by metis

text \<open>Storing an answer changes nothing else of the context.\<close>

definition only_results :: "'w krn_context \<Rightarrow> 'w krn_context \<Rightarrow> bool" where
  "only_results s t \<longleftrightarrow> (\<exists>data. t = s\<lparr>kc_card_data := data\<rparr> \<and> same_but_results (kc_card_data s) data)"

interpretation results: step_relation only_results
proof
  show "only_results s s" for s :: "'w krn_context"
    unfolding only_results_def by (intro exI [of _ "kc_card_data s"]) (simp add: same_but_results_refl)
  show "only_results s u" if "only_results s t" "only_results t u" for s t u :: "'w krn_context"
    using that by (auto simp: only_results_def same_but_results_def)
qed

lemma only_results_put: "tag \<in> set GAC_RESULT_TAGS \<Longrightarrow> within only_results (put_card_data tag v)"
proof (rule withinI)
  fix s t :: "'w krn_context" and r
  assume tag: "tag \<in> set GAC_RESULT_TAGS" and run: "put_card_data tag v s = (r, t)"
  show "only_results s t"
  proof (cases "ds_put (kc_card_data s) tag v")
    case (Inl e)
    then show ?thesis using run by (simp add: put_card_data_def kbind_def kexec results.R_refl)
  next
    case (Inr data)
    then have "t = s\<lparr>kc_card_data := data\<rparr>" using run by (simp add: put_card_data_def kbind_def kexec)
    then show ?thesis unfolding only_results_def
      using same_but_results_put [OF same_but_results_refl Inr tag] by blast
  qed
qed

lemma only_results_put_tvr: "within only_results put_tvr" and only_results_put_tsi: "within only_results put_tsi"
  unfolding put_tvr_def put_tsi_def
  by (auto intro!: results.within_rules only_results_put simp: GAC_RESULT_TAGS_def)

lemma only_results_store: "within only_results (store_gac_response parsed)"
  unfolding store_gac_response_def
  by (auto intro!: results.within_rules results.within_if only_results_put simp: GAC_RESULT_TAGS_def split: option.split)

lemma kwp_within: "within R m \<Longrightarrow> (\<And>a t. R s t \<Longrightarrow> Q a t) \<Longrightarrow> (\<And>e t. R s t \<Longrightarrow> E e t) \<Longrightarrow> kwp m s Q E"
  by (rule kwpI) (auto dest: withinD)

text \<open>Requesting a cryptogram changes the environment only, if it succeeds.\<close>

lemma kpost_request_cryptogram:
  "within only_world control \<Longrightarrow>
     kpost (request_cryptogram runtime request cdol control event) s (\<lambda>_ t. only_world s t)"
  unfolding request_cryptogram_def
  by (auto simp: kwp_simps kwp_only_world only_world_def split: sum.split prod.split)

text \<open>The decision to go online, and combined authentication as it stands.\<close>

definition asked_online :: "'w krn_context \<Rightarrow> profile_set \<Rightarrow> bool" where
  "asked_online s profiles \<longleftrightarrow> (\<exists>input. taa_input_for s profiles = Inr input \<and>
     wf_taa_profile (taa_input_profile input) \<and> td_action (decide input) = ActionArqc)"

definition cda_holds :: "'w krn_context \<Rightarrow> generate_ac_response \<Rightarrow> bool" where
  "cda_holds s response \<longleftrightarrow>
     (if kc_selected_oda_method s = Some Cda then verify_combined_data_authentication s response = Inr () else True)"

text \<open>Setting a bit never turns a request to go online into an approval.\<close>

lemma matched_tvr_set: "matched kind inp \<Longrightarrow> matched kind (inp\<lparr>taa_tvr := tvr_set (taa_tvr inp) b\<rparr>)"
proof -
  obtain j m where b: "b = (j, m)" by (cases b)
  have "bit (tvr_bytes t ! i) k \<Longrightarrow> bit (tvr_bytes (tvr_set t b) ! i) k" if "i < 5" for t i k
    using that by (auto simp: b tvr.bytes_set nth_list_update bit_or_iff tvr.length_bytes)
  then show "matched kind inp \<Longrightarrow> ?thesis" unfolding matched_def by fastforce
qed

lemma decide_after_bit:
  assumes "td_action (decide inp) = ActionArqc" and "wf_taa_profile (taa_input_profile inp)"
  shows "td_action (decide (inp\<lparr>taa_tvr := tvr_set (taa_tvr inp) b\<rparr>)) \<noteq> ActionTc"
  using assms matched_tvr_set [of ac_online inp b]
  by (auto simp: decide_action wf_taa_profile_def split: if_splits)

lemma taa_input_after_bit:
  assumes "taa_input_for s profiles = Inr input"
    and "kc_selected_application t = kc_selected_application s" and "kc_txn_params t = kc_txn_params s"
    and "kc_tvr t = tvr_set (kc_tvr s) b" and "same_but_results (kc_card_data s) (kc_card_data t)"
  shows "taa_input_for t profiles = Inr (input\<lparr>taa_tvr := tvr_set (taa_tvr input) b\<rparr>)"
proof -
  have "issuer_action_codes (kc_card_data t) f = issuer_action_codes (kc_card_data s) f" for f
    using assms(5) by (simp add: issuer_action_codes_def optional_fixed_def same_but_results_def GAC_RESULT_TAGS_def)
  then show ?thesis using assms(1-4) by (auto simp: taa_input_for_def krn_simps)
qed

text \<open>Up to the answer, the context changes in the environment and the stored results.\<close>

definition up_to_answer :: "'w krn_context \<Rightarrow> 'w krn_context \<Rightarrow> bool" where
  "up_to_answer s t \<longleftrightarrow> (\<exists>data w. t = s\<lparr>kc_card_data := data, kc_world := w\<rparr> \<and> same_but_results (kc_card_data s) data)"

lemma up_to_answer_refl: "up_to_answer s s"
  unfolding up_to_answer_def
  by (intro exI [of _ "kc_card_data s"] exI [of _ "kc_world s"]) (simp add: same_but_results_refl)

lemma up_to_answerI:
  "t = s\<lparr>kc_card_data := data, kc_world := w\<rparr> \<Longrightarrow> same_but_results (kc_card_data s) data \<Longrightarrow> up_to_answer s t"
  unfolding up_to_answer_def by blast

lemma up_to_answer_results: "up_to_answer s0 s \<Longrightarrow> only_results s t \<Longrightarrow> up_to_answer s0 t"
proof -
  assume "up_to_answer s0 s" and t: "only_results s t"
  then obtain data w where s: "s = s0\<lparr>kc_card_data := data, kc_world := w\<rparr>" "same_but_results (kc_card_data s0) data"
    by (auto simp: up_to_answer_def)
  with t obtain data' where "t = s0\<lparr>kc_world := w, kc_card_data := data'\<rparr>" "same_but_results data data'"
    by (auto simp: only_results_def)
  with s show ?thesis by (intro up_to_answerI [where w = w and data = data']) (simp_all add: same_but_results_def)
qed

lemma up_to_answer_world: "up_to_answer s0 s \<Longrightarrow> only_world s t \<Longrightarrow> up_to_answer s0 t"
proof -
  assume "up_to_answer s0 s" and t: "only_world s t"
  then obtain data w where s: "s = s0\<lparr>kc_card_data := data, kc_world := w\<rparr>" "same_but_results (kc_card_data s0) data"
    by (auto simp: up_to_answer_def)
  with t obtain w' where "t = s0\<lparr>kc_card_data := data, kc_world := w'\<rparr>" by (auto simp: only_world_def)
  with s show ?thesis by (intro up_to_answerI [where w = w' and data = data])
qed

lemma kpost_chain:
  "kpost m s (\<lambda>_ t. P t) \<Longrightarrow> (\<And>a t. P t \<Longrightarrow> kpost (f a) t Q) \<Longrightarrow> kpost (kbind m f) s Q"
  unfolding kwp_kbind by (erule kwp_mono) auto

lemma kpost_results: "within only_results m \<Longrightarrow> up_to_answer s0 s \<Longrightarrow> kpost m s (\<lambda>_ t. up_to_answer s0 t)"
  by (rule kwp_within [where R = only_results]) (auto intro: up_to_answer_results)

lemma kpost_reroute:
  assumes S10: "kc_fsm_state s = S10" and profiles: "kc_profiles s = Some profiles"
    and input: "taa_input_for s profiles = Inr input" and noTc: "td_action (decide input) \<noteq> ActionTc"
  shows "kpost reroute_cda_failed_offline_cryptogram_through_taa s (\<lambda>_ t.
    t = s\<lparr>kc_requested_cryptogram := Some ReqAac, kc_fsm_state := S16, kc_state := K_FinalOutcome\<rparr>)"
proof -
  let ?u = "s\<lparr>kc_fsm_state := S9, kc_state := K_TerminalActionAnalysis\<rparr>"
  have u: "taa_input_for ?u profiles = Inr input" using input by (simp add: taa_input_for_def)
  have "kpost (run_terminal_action_analysis profiles) ?u (\<lambda>_ t.
      if kc_requested_cryptogram t = Some ReqArqc then True
      else t = s\<lparr>kc_requested_cryptogram := Some ReqAac, kc_fsm_state := S16, kc_state := K_FinalOutcome\<rparr>)"
    by (rule kwp_mono [OF run_terminal_action_analysis_exact])
      (use noTc u in \<open>cases "td_action (decide input)"; auto\<close>)+
  then show ?thesis
    unfolding reroute_cda_failed_offline_cryptogram_through_taa_def
    by (simp add: kwp_kbind kwp_kask kwp_apply_transition kwp_set_kernel_state transition_eqs S10 profiles)
      (erule kwp_mono, auto)
qed

lemma cda_holds_iff: "cda_holds s parsed \<longleftrightarrow> \<not> cda_verification_failed s parsed"
  by (cases "verify_combined_data_authentication s parsed") (auto simp: cda_holds_def cda_verification_failed_def)

lemma kpost_conclude_first_gac:
  assumes up: "up_to_answer s0 s" and S10: "kc_fsm_state s0 = S10" and asked: "asked_online s0 profiles"
    and profiles: "kc_profiles s0 = Some profiles"
  shows "kpost (conclude_first_gac parsed) s (\<lambda>_ t. kc_first_gac_response t = Some parsed \<and>
    (kc_fsm_state t = S11 \<and> kc_state t = K_OnlineAuthorization \<and>
       cryptogram_type_of (gac_cid parsed) = Arqc \<and> kc_online_authorization_data t \<noteq> None \<or>
     kc_fsm_state t = S16 \<and> kc_state t = K_FinalOutcome \<and> cryptogram_type_of (gac_cid parsed) \<in> {Tc, Aac} \<and>
       (cda_holds t parsed \<and> kc_requested_cryptogram t = kc_requested_cryptogram s0 \<or>
         kc_requested_cryptogram t = Some ReqAac \<and> tvr_is_set (kc_tvr t) B1_CDA_FAILED)))"
    (is "kpost _ _ (\<lambda>_. ?Q)")
proof -
  from asked obtain input where input: "taa_input_for s0 profiles = Inr input"
    "wf_taa_profile (taa_input_profile input)" "td_action (decide input) = ActionArqc"
    by (auto simp: asked_online_def)
  from up obtain data w where s: "s = s0\<lparr>kc_card_data := data, kc_world := w\<rparr>"
    and data: "same_but_results (kc_card_data s0) data" by (auto simp: up_to_answer_def)
  have fail_bit: "tvr_is_set (tvr_set r B1_CDA_FAILED) B1_CDA_FAILED" for r by (simp add: status_simps)
  have cda: "cda_verification_failed (s\<lparr>kc_online_authorization_data := a, kc_first_gac_response := b, kc_fsm_state := c,
      kc_state := d\<rparr>) parsed = cda_verification_failed s parsed" for a b c d
    by (simp add: cda_verification_failed_def verify_combined_data_authentication_def)
  have failing: "kpost reroute_cda_failed_offline_cryptogram_through_taa u (\<lambda>_. ?Q)"
    if u: "u = s\<lparr>kc_tvr := tvr_set (kc_tvr s) B1_CDA_FAILED, kc_card_data := data', kc_first_gac_response := Some parsed\<rparr>"
      and data': "same_but_results data data'" and c: "cryptogram_type_of (gac_cid parsed) \<in> {Tc, Aac}" for u data'
  proof -
    have "taa_input_for u profiles = Inr (input\<lparr>taa_tvr := tvr_set (taa_tvr input) B1_CDA_FAILED\<rparr>)"
      by (rule taa_input_after_bit [OF input(1)]) (use data data' in \<open>simp_all add: u s same_but_results_def\<close>)
    then show ?thesis
      using decide_after_bit [OF input(3,2), of B1_CDA_FAILED] c S10 profiles
      by (intro kwp_mono [OF kpost_reroute]) (auto simp: u s fail_bit)
  qed
  show ?thesis
  proof (cases "cda_verification_failed s parsed")
    case True
    have "same_but_results data data'" if "ds_put data [0x95] v = Inr data'" for v data'
      by (rule same_but_results_put [OF same_but_results_refl that]) (simp add: GAC_RESULT_TAGS_def)
    with True failing S10 show ?thesis unfolding conclude_first_gac_def
      by (cases "cryptogram_type_of (gac_cid parsed)")
        (auto simp: kwp_simps s transition_eqs first_gac_target_def)
  next
    case False
    then show ?thesis using cda S10 unfolding conclude_first_gac_def
      by (cases "cryptogram_type_of (gac_cid parsed)")
        (auto simp: kwp_simps s transition_eqs first_gac_target_def cda_holds_iff)
  qed
qed

lemma kpost_first_generate_ac:
  assumes "kc_fsm_state s = S10" and "asked_online s profiles" and "kc_profiles s = Some profiles"
  shows "kpost (run_first_generate_ac runtime) s (\<lambda>_ t. \<exists>parsed. kc_first_gac_response t = Some parsed \<and>
    (kc_fsm_state t = S11 \<and> kc_state t = K_OnlineAuthorization \<and>
       cryptogram_type_of (gac_cid parsed) = Arqc \<and> kc_online_authorization_data t \<noteq> None \<or>
     kc_fsm_state t = S16 \<and> kc_state t = K_FinalOutcome \<and> cryptogram_type_of (gac_cid parsed) \<in> {Tc, Aac} \<and>
       (cda_holds t parsed \<and> kc_requested_cryptogram t = kc_requested_cryptogram s \<or>
         kc_requested_cryptogram t = Some ReqAac \<and> tvr_is_set (kc_tvr t) B1_CDA_FAILED)))"
  unfolding run_first_generate_ac_def
  apply (rule kpost_chain [of _ _ "up_to_answer s"], simp add: kwp_kask up_to_answer_refl)
  apply (rule kpost_chain [of _ _ "up_to_answer s"], simp add: kwp_kask)
  apply (rule kpost_chain [of _ _ "up_to_answer s"], rule kpost_results [OF only_results_put_tvr], assumption)
  apply (rule kpost_chain [of _ _ "up_to_answer s"], rule kpost_results [OF only_results_put_tsi], assumption)
  apply (rule kpost_chain [of _ _ "up_to_answer s"], rule kwp_mono [OF kpost_request_cryptogram])
     apply (rule ow.within_kask)
    apply (erule (1) up_to_answer_world)
   apply (rule TrueI)
  apply (rule kpost_chain [of _ _ "up_to_answer s"], rule kpost_results [OF only_results_store], assumption)
  apply (rule kpost_chain [of _ _ "up_to_answer s"], rule kpost_results)
    apply (simp add: results.within_kret only_results_put GAC_RESULT_TAGS_def split: option.split)
   apply assumption
  apply (rule kwp_mono [OF kpost_conclude_first_gac [OF _ assms]])
    apply assumption
   apply blast
  apply (rule TrueI)
  done

end
