(* ===== verification/Emv_Run.thy ===== *)
theory Emv_Run
  imports Emv_Stages
begin

text \<open>
  Running a transaction up to the first cryptogram (\<open>run_transaction\<close> of \<open>src/src/ffi.rs\<close>):
  selection of the environment and of an application, GET PROCESSING OPTIONS, and the loop that
  runs the stage the state machine is in until there is an outcome.
\<close>

unbundle bit_operations_syntax

section \<open>Selecting an application\<close>

fun state_after_gpo_transition :: "fsm_state \<Rightarrow> kernel_state" where
  "state_after_gpo_transition S4 = K_ReadRecords"
| "state_after_gpo_transition S5 = K_OfflineDataAuthentication"
| "state_after_gpo_transition _ = K_Error"

definition fail_transaction :: "kernel_error \<Rightarrow> 'w krn_context \<Rightarrow> krn_outcome \<times> 'w krn_context" where
  "fail_transaction err ctx = (OutcomeError, ctx\<lparr>kc_last_error := err, kc_state := K_Error, kc_fsm_state := Se\<rparr>)"

definition interface_of_preference :: "byte \<Rightarrow> interface krn_result" where
  "interface_of_preference preference =
     (if preference = KRN_INTERFACE_CONTACT then Inr Contact
      else if preference = KRN_INTERFACE_CONTACTLESS then Inr Contactless
      else Inl InvalidArgument)"

definition candidates_for :: "profile_set \<Rightarrow> interface \<Rightarrow> status_action \<Rightarrow> bytes \<Rightarrow> selection_candidate list krn_result" where
  "candidates_for profiles iface pse_status fci =
     (if pse_status = Success
      then rbind (parse_fci_candidate_aids fci) (\<lambda>aids.
             if aids = [] then direct_profile_candidates profiles iface
             else match_profile_candidates profiles iface aids)
      else direct_profile_candidates profiles iface)"

definition select_environment_and_list ::
    "profile_set \<Rightarrow> interface \<Rightarrow> 'w runtime_callbacks \<Rightarrow> ('w krn_context, selection_candidate list) krn" where
  "select_environment_and_list profiles iface runtime =
     kbind (apply_transition EvCardDetected) (\<lambda>_.
     kbind (set_kernel_state K_SelectEnvironment) (\<lambda>_.
     kbind (klift (apdu_encode (select_environment iface))) (\<lambda>command.
     kbind (send_command runtime command SelectPse) (\<lambda>(fci, sw).
     kbind (klift (select_pse_event (classify SelectPse sw))) (\<lambda>event.
     kbind (apply_transition event) (\<lambda>_.
     kbind (kmod (\<lambda>ctx. ctx\<lparr>kc_state := K_BuildCandidateList, kc_last_error := Ok\<rparr>)) (\<lambda>_.
       klift (candidates_for profiles iface (classify SelectPse sw) fci))))))))"

text \<open>The loop over the candidates; it ends with the first that the card selects.\<close>

fun select_application_loop ::
    "'w runtime_callbacks \<Rightarrow> selection_candidate list \<Rightarrow> ('w krn_context, (selection_candidate \<times> bytes) option) krn" where
  "select_application_loop runtime [] = kret None"
| "select_application_loop runtime (candidate # rest) =
     kbind (apply_transition EvCandidateAidAvailable) (\<lambda>_.
     kbind (klift (rbind (select_aid (sc_select_aid candidate) 0x00) apdu_encode)) (\<lambda>command.
     kbind (send_command runtime command SelectAid) (\<lambda>(fci, sw).
     kbind (klift (select_aid_decision_of (classify SelectAid sw))) (\<lambda>decision. case decision of
       AidIsSelected \<Rightarrow>
         kbind (klift (validate_selected_adf_name fci candidate)) (\<lambda>_.
         kbind (apply_transition EvAidSelected) (\<lambda>_.
         kbind (set_kernel_state K_Gpo) (\<lambda>_. kret (Some (candidate, fci)))))
     | AidTryNext \<Rightarrow>
         kbind (apply_transition EvAidNotSupported) (\<lambda>_. select_application_loop runtime rest)))))"

section \<open>Processing options\<close>

text \<open>The terminal's data for this transaction, with a fresh unpredictable number.\<close>

definition prepare_card_data ::
    "stored_txn_params \<Rightarrow> 'w runtime_callbacks \<Rightarrow> ('w krn_context, unit) krn" where
  "prepare_card_data params runtime =
     kbind (kask (\<lambda>ctx. ok_or (kc_profile_evaluation_date ctx) InvalidProfile)) (\<lambda>transaction_date.
     kbind (kask (\<lambda>ctx. Inr (kc_last_unpredictable_number ctx))) (\<lambda>previous.
     kbind (request_unpredictable_number runtime previous) (\<lambda>unpredictable_number.
     kbind (kmod (\<lambda>ctx. ctx\<lparr>kc_last_unpredictable_number := Some unpredictable_number\<rparr>)) (\<lambda>_.
     kbind (kask (\<lambda>ctx. transaction_data_store params unpredictable_number transaction_date
         (kc_tvr ctx) (kc_tsi ctx)
         \<lparr>tdi_terminal_capabilities = kc_terminal_capabilities ctx,
          tdi_additional_terminal_capabilities = kc_additional_terminal_capabilities ctx,
          tdi_terminal_transaction_qualifiers = kc_terminal_transaction_qualifiers ctx\<rparr>)) (\<lambda>data.
       kmod (\<lambda>ctx. ctx\<lparr>kc_card_data := data, kc_offline_auth_records := []\<rparr>))))))"

definition gpo_event :: "gpo_response_format \<Rightarrow> fsm_event" where
  "gpo_event f = (case f of Template77 \<Rightarrow> EvGpoTemplate77 | Template80 \<Rightarrow> EvGpoTemplate80)"

definition run_gpo ::
    "selection_candidate \<Rightarrow> bytes \<Rightarrow> stored_txn_params \<Rightarrow> 'w runtime_callbacks \<Rightarrow> ('w krn_context, afl_entry list) krn" where
  "run_gpo candidate fci params runtime =
     kbind (klift (parse_pdol_from_fci fci)) (\<lambda>pdol.
     kbind (prepare_card_data params runtime) (\<lambda>_.
     kbind (kask (\<lambda>ctx. rbind (get_processing_options pdol (kc_card_data ctx)) apdu_encode)) (\<lambda>command.
     kbind (send_command runtime command CtxGpo) (\<lambda>(body, sw).
     if \<not> sw_is_success sw then kfail MissingMandatoryTag
     else
     kbind (klift (parse_gpo_response body)) (\<lambda>parsed.
     kbind (put_card_data [0x82] (list2 (gpo_aip parsed))) (\<lambda>_.
     kbind (apply_transition (gpo_event (gpo_format parsed))) (\<lambda>_.
     kbind (kmod (\<lambda>ctx. ctx\<lparr>kc_state := state_after_gpo_transition (kc_fsm_state ctx),
         kc_selected_application := Some \<lparr>sa_aid = sc_select_aid candidate,
           sa_scheme_index = sc_scheme_index candidate, sa_aid_index = sc_aid_index candidate,
           sa_aip = Some (gpo_aip parsed), sa_afl = gpo_afl parsed\<rparr>\<rparr>)) (\<lambda>_.
       kret (gpo_afl parsed)))))))))"

section \<open>The loop over the stages\<close>

text \<open>How far the state machine still has to go; every turn of the loop gets closer.\<close>

fun stages_left :: "fsm_state \<Rightarrow> nat" where
  "stages_left S4 = 7"
| "stages_left S5 = 6"
| "stages_left S6 = 5"
| "stages_left S7 = 4"
| "stages_left S8 = 3"
| "stages_left S9 = 2"
| "stages_left S10 = 1"
| "stages_left _ = 0"

text \<open>One turn: the stage for the state, and the outcome if there is one.\<close>

definition run_stage ::
    "('w \<Rightarrow> nat) \<Rightarrow> 'w runtime_callbacks \<Rightarrow> profile_set \<Rightarrow> stored_txn_params \<Rightarrow> afl_entry list
     \<Rightarrow> fsm_state \<Rightarrow> ('w krn_context, krn_outcome option) krn" where
  "run_stage clock runtime profiles params afl state =
     (if state = S4 then kbind (read_application_records runtime afl) (\<lambda>_. kret None)
      else if state = S5 then kbind (run_offline_data_authentication profiles (Some runtime)) (\<lambda>_. kret None)
      else if state = S6 then kbind (run_processing_restrictions params) (\<lambda>_. kret None)
      else if state = S7 then
        kbind (run_cvm_processing params) (\<lambda>_. run_contactless_limit_processing clock runtime profiles params)
      else if state = S8 then kbind (run_terminal_risk_management profiles params) (\<lambda>_. kret None)
      else if state = S9 then
        kbind (run_terminal_action_analysis profiles) (\<lambda>_.
        kbind (kask (\<lambda>ctx. Inr (is_final_outcome_state ctx))) (\<lambda>final.
          if final then kbind finish_offline_outcome_from_taa (\<lambda>outcome. kret (Some outcome)) else kret None))
      else if state = S10 then
        kbind (run_first_generate_ac runtime) (\<lambda>_.
        kbind first_gac_transaction_outcome (\<lambda>outcome. kret (Some outcome)))
      else kfail InvalidArgument)"

text \<open>What a turn does, state by state.\<close>

lemma run_stage_eqs:
  "run_stage clock runtime profiles params afl S4 = kbind (read_application_records runtime afl) (\<lambda>_. kret None)"
  "run_stage clock runtime profiles params afl S5 =
     kbind (run_offline_data_authentication profiles (Some runtime)) (\<lambda>_. kret None)"
  "run_stage clock runtime profiles params afl S6 = kbind (run_processing_restrictions params) (\<lambda>_. kret None)"
  "run_stage clock runtime profiles params afl S7 =
     kbind (run_cvm_processing params) (\<lambda>_. run_contactless_limit_processing clock runtime profiles params)"
  "run_stage clock runtime profiles params afl S8 =
     kbind (run_terminal_risk_management profiles params) (\<lambda>_. kret None)"
  "run_stage clock runtime profiles params afl S9 =
     kbind (run_terminal_action_analysis profiles) (\<lambda>_.
     kbind (kask (\<lambda>ctx. Inr (is_final_outcome_state ctx))) (\<lambda>final.
       if final then kbind finish_offline_outcome_from_taa (\<lambda>outcome. kret (Some outcome)) else kret None))"
  "run_stage clock runtime profiles params afl S10 =
     kbind (run_first_generate_ac runtime) (\<lambda>_.
     kbind first_gac_transaction_outcome (\<lambda>outcome. kret (Some outcome)))"
  by (simp_all add: run_stage_def)

lemma run_stage_other:
  "stages_left state = 0 \<Longrightarrow> run_stage clock runtime profiles params afl state = kfail InvalidArgument"
  by (cases state) (simp_all add: run_stage_def)

lemma finish_from_taa_post:
  "kpost finish_offline_outcome_from_taa s (\<lambda>outcome t.
     t = s\<lparr>kc_final_outcome := Some outcome, kc_last_error := Ok\<rparr> \<and>
     (outcome = ApprovedOffline \<and> kc_requested_cryptogram s = Some ReqTc \<or>
      outcome = DeclinedOffline \<and> kc_requested_cryptogram s = Some ReqAac))"
proof (cases "kc_requested_cryptogram s")
  case (Some request)
  then show ?thesis by (cases request) (auto simp: finish_offline_outcome_from_taa_def kwp_simps krn_simps)
qed (simp add: finish_offline_outcome_from_taa_def kwp_simps krn_simps)

lemma run_stage_analysis:
  assumes S9: "kc_fsm_state s = S9"
  shows "kpost (run_stage clock runtime profiles params afl S9) s (\<lambda>o' t.
    \<exists>input request event state. taa_input_for s profiles = Inr input \<and>
      terminal_action_target (td_action (decide input)) = (request, event, state) \<and>
      (case o' of None \<Rightarrow> request = ReqArqc \<and>
         t = s\<lparr>kc_requested_cryptogram := Some request, kc_fsm_state := S10, kc_state := state\<rparr>
       | Some outcome \<Rightarrow>
         (outcome = ApprovedOffline \<and> request = ReqTc \<or> outcome = DeclinedOffline \<and> request = ReqAac) \<and>
         t = s\<lparr>kc_requested_cryptogram := Some request, kc_fsm_state := S16, kc_state := K_FinalOutcome,
               kc_final_outcome := Some outcome, kc_last_error := Ok\<rparr>))"
  unfolding run_stage_eqs
proof (rule kpost_chain [OF run_terminal_action_analysis_exact [OF S9]], elim exE conjE)
  fix t input request event state
  assume a: "taa_input_for s profiles = Inr input"
    "terminal_action_target (td_action (decide input)) = (request, event, state)"
    and t: "t = s\<lparr>kc_requested_cryptogram := Some request,
      kc_fsm_state := (if request = ReqArqc then S10 else S16), kc_state := state\<rparr>"
  show "kpost (kbind (kask (\<lambda>ctx. Inr (is_final_outcome_state ctx))) (\<lambda>final.
       if final then kbind finish_offline_outcome_from_taa (\<lambda>outcome. kret (Some outcome)) else kret None)) t (\<lambda>o' t.
    \<exists>input request event state. taa_input_for s profiles = Inr input \<and>
      terminal_action_target (td_action (decide input)) = (request, event, state) \<and>
      (case o' of None \<Rightarrow> request = ReqArqc \<and>
         t = s\<lparr>kc_requested_cryptogram := Some request, kc_fsm_state := S10, kc_state := state\<rparr>
       | Some outcome \<Rightarrow>
         (outcome = ApprovedOffline \<and> request = ReqTc \<or> outcome = DeclinedOffline \<and> request = ReqAac) \<and>
         t = s\<lparr>kc_requested_cryptogram := Some request, kc_fsm_state := S16, kc_state := K_FinalOutcome,
               kc_final_outcome := Some outcome, kc_last_error := Ok\<rparr>))"
  proof (cases "td_action (decide input)")
    case ActionArqc
    with a t show ?thesis by (auto simp: kwp_simps is_final_outcome_state_def)
  next
    case ActionTc
    with a t show ?thesis
      by (auto simp: kwp_kbind kwp_kask kwp_kret is_final_outcome_state_def intro!: kwp_mono [OF finish_from_taa_post])
  next
    case ActionAac
    with a t show ?thesis
      by (auto simp: kwp_kbind kwp_kask kwp_kret is_final_outcome_state_def intro!: kwp_mono [OF finish_from_taa_post])
  qed
qed

lemma run_stage_progress:
  assumes "run_stage clock runtime profiles params afl (kc_fsm_state s) s = (Inr None, t)"
  shows "stages_left (kc_fsm_state t) < stages_left (kc_fsm_state s) \<and> 0 < stages_left (kc_fsm_state t)"
proof -
  let ?P = "\<lambda>o' t. if o' = None then stages_left (kc_fsm_state t) < stages_left (kc_fsm_state s) \<and>
      0 < stages_left (kc_fsm_state t) else True"
  have "kpost (run_stage clock runtime profiles params afl (kc_fsm_state s)) s ?P"
  proof -
    consider "kc_fsm_state s = S4" | "kc_fsm_state s = S5" | "kc_fsm_state s = S6" | "kc_fsm_state s = S7"
      | "kc_fsm_state s = S8" | "kc_fsm_state s = S9" | "kc_fsm_state s = S10"
      | "stages_left (kc_fsm_state s) = 0" by (cases "kc_fsm_state s") simp_all
    then show ?thesis
    proof cases
      case 1
      show ?thesis using kwp_mono [OF read_application_records_fsm [OF 1]]
        by (simp add: run_stage_eqs kwp_kbind kwp_kret 1)
    next
      case 2
      show ?thesis using kwp_mono [OF run_offline_data_authentication_fsm [OF 2]]
        by (simp add: run_stage_eqs kwp_kbind kwp_kret 2)
    next
      case 3
      show ?thesis using kwp_mono [OF run_processing_restrictions_fsm [OF 3]]
        by (simp add: run_stage_eqs kwp_kbind kwp_kret 3)
    next
      case 4
      show ?thesis
        by (auto simp: run_stage_eqs kwp_kbind 4 intro!: kwp_mono [OF run_cvm_processing_fsm [OF 4]]
            kwp_mono [OF run_contactless_limit_processing_fsm])
    next
      case 5
      show ?thesis using kwp_mono [OF run_terminal_risk_management_fsm [OF 5]]
        by (simp add: run_stage_eqs kwp_kbind kwp_kret 5)
    next
      case 6
      show ?thesis unfolding 6
        by (rule kwp_mono [OF run_stage_analysis [OF 6]]) (auto split: option.splits)
    next
      case 7
      show ?thesis by (auto simp: run_stage_eqs 7 kwp_kbind kwp_kret intro!: kwpI)
    next
      case 8
      then show ?thesis by (simp add: run_stage_other kwp_kfail)
    qed
  qed
  from kwp_Inr [OF this assms] show ?thesis by simp
qed

function advance_transaction_after_gpo ::
    "('w \<Rightarrow> nat) \<Rightarrow> 'w runtime_callbacks \<Rightarrow> profile_set \<Rightarrow> stored_txn_params \<Rightarrow> afl_entry list
     \<Rightarrow> ('w krn_context, krn_outcome) krn" where
  "advance_transaction_after_gpo clock runtime profiles params afl ctx =
     (case run_stage clock runtime profiles params afl (kc_fsm_state ctx) ctx of
        (Inl e, ctx') \<Rightarrow> (Inl e, ctx')
      | (Inr (Some outcome), ctx') \<Rightarrow> (Inr outcome, ctx')
      | (Inr None, ctx') \<Rightarrow> advance_transaction_after_gpo clock runtime profiles params afl ctx')"
  by pat_completeness auto
termination
  by (relation "measure (\<lambda>(clock, runtime, profiles, params, afl, ctx). stages_left (kc_fsm_state ctx))")
    (auto dest: run_stage_progress [OF sym] run_stage_progress)

declare advance_transaction_after_gpo.simps [simp del]

section \<open>The transaction\<close>

definition run_transaction_inner :: "('w \<Rightarrow> nat) \<Rightarrow> ('w krn_context, krn_outcome) krn" where
  "run_transaction_inner clock =
     kbind (kask (\<lambda>ctx. ok_or (kc_txn_params ctx) InvalidArgument)) (\<lambda>params.
     kbind (kask (\<lambda>ctx. ok_or (kc_runtime ctx) InvalidArgument)) (\<lambda>runtime.
     kbind (kask (\<lambda>ctx. ok_or (kc_profiles ctx) InvalidProfile)) (\<lambda>profiles.
     kbind (klift (interface_of_preference (tp_interface_preference params))) (\<lambda>iface.
     kbind (select_environment_and_list profiles iface runtime) (\<lambda>candidates.
     kbind (select_application_loop runtime candidates) (\<lambda>selected.
     kbind (klift (ok_or selected NoCommonAid)) (\<lambda>(candidate, fci).
     kbind (run_gpo candidate fci params runtime) (\<lambda>afl.
     kbind (kask (\<lambda>ctx. validate_selected_kernel_mapping ctx params profiles)) (\<lambda>_.
       advance_transaction_after_gpo clock runtime profiles params afl)))))))))"

definition run_transaction :: "('w \<Rightarrow> nat) \<Rightarrow> 'w krn_context \<Rightarrow> krn_outcome \<times> 'w krn_context" where
  "run_transaction clock ctx = (case run_transaction_inner clock ctx of
     (Inr outcome, ctx') \<Rightarrow> (outcome, ctx')
   | (Inl err, ctx') \<Rightarrow> fail_transaction err ctx')"

section \<open>The loop ends\<close>

text \<open>The loop with a bound on the turns: \<open>None\<close> when the bound is used up.\<close>

fun advance_within ::
    "nat \<Rightarrow> ('w \<Rightarrow> nat) \<Rightarrow> 'w runtime_callbacks \<Rightarrow> profile_set \<Rightarrow> stored_txn_params \<Rightarrow> afl_entry list
     \<Rightarrow> 'w krn_context \<Rightarrow> (krn_outcome krn_result \<times> 'w krn_context) option" where
  "advance_within 0 clock runtime profiles params afl ctx = None"
| "advance_within (Suc turns) clock runtime profiles params afl ctx =
     (case run_stage clock runtime profiles params afl (kc_fsm_state ctx) ctx of
        (Inl e, ctx') \<Rightarrow> Some (Inl e, ctx')
      | (Inr (Some outcome), ctx') \<Rightarrow> Some (Inr outcome, ctx')
      | (Inr None, ctx') \<Rightarrow> advance_within turns clock runtime profiles params afl ctx')"

lemma advance_within_enough:
  "stages_left (kc_fsm_state ctx) \<le> Suc turns \<Longrightarrow>
     advance_within (Suc turns) clock runtime profiles params afl ctx =
       Some (advance_transaction_after_gpo clock runtime profiles params afl ctx)"
proof (induction turns arbitrary: ctx)
  case 0
  then show ?case
    using run_stage_progress [of clock runtime profiles params afl ctx]
    by (subst advance_transaction_after_gpo.simps) (fastforce split: prod.split sum.split option.split)
next
  case (Suc turns)
  show ?case
  proof (cases "\<exists>t. run_stage clock runtime profiles params afl (kc_fsm_state ctx) ctx = (Inr None, t)")
    case True
    then obtain t where t: "run_stage clock runtime profiles params afl (kc_fsm_state ctx) ctx = (Inr None, t)" ..
    with Suc.IH [of t] Suc.prems run_stage_progress [OF t] show ?thesis
      by (subst advance_transaction_after_gpo.simps, subst advance_within.simps) (simp del: advance_within.simps)
  next
    case False
    then show ?thesis
      by (subst advance_transaction_after_gpo.simps) (auto split: prod.split sum.split option.split)
  qed
qed

lemma stages_left_le: "stages_left state \<le> 7"
  by (cases state) simp_all

section \<open>What an outcome stands for\<close>

text \<open>What only the loading of profiles or of a certification bundle sets.\<close>

definition loaded_part :: "'w krn_context \<Rightarrow>
    profile_set option \<times> bytes option \<times> emv_date option \<times> bytes option \<times> bytes option \<times> u64 \<times> callback_timeout_profile" where
  [simp]: "loaded_part ctx =
     (kc_profiles ctx, kc_profile_sha256 ctx, kc_profile_evaluation_date ctx, kc_certification_bundle_sha256 ctx,
      kc_certification_bundle_payload_sha256 ctx, kc_certification_bundle_rollback_counter ctx, kc_callback_timeouts ctx)"

text \<open>What the stages before the first cryptogram leave alone.\<close>

definition same_session :: "'w krn_context \<Rightarrow> 'w krn_context \<Rightarrow> bool" where
  "same_session s t \<longleftrightarrow> loaded_part t = loaded_part s \<and> kc_busy t = kc_busy s \<and>
     kc_first_gac_response t = kc_first_gac_response s"

interpretation ss: step_relation same_session
  by unfold_locales (simp_all add: same_session_def)

lemma same_session_world: "within only_world m \<Longrightarrow> within same_session m"
  by (erule within_only_world) (simp add: same_session_def)

lemma same_session_transition: "within same_session (apply_transition event)"
  unfolding apply_transition_def by (intro ss.within_rules) (simp add: same_session_def)

lemma same_session_set_kernel_state: "within same_session (set_kernel_state k)"
  unfolding set_kernel_state_def by (intro ss.within_rules) (simp add: same_session_def)

lemma same_session_put_card_data: "within same_session (put_card_data tag v)"
  unfolding put_card_data_def by (intro ss.within_rules) (simp add: same_session_def)

lemma same_session_bits: "within same_session (set_tvr_bit b)" "within same_session (set_tsi_bit b')"
  unfolding set_tvr_bit_def set_tsi_bit_def by (intro ss.within_rules; simp add: same_session_def)+

lemma same_session_put: "within same_session put_tvr" "within same_session put_tsi"
  unfolding put_tvr_def put_tsi_def by (intro ss.within_rules same_session_put_card_data)+

lemmas same_session_steps = ss.within_rules same_session_transition same_session_set_kernel_state
  same_session_put_card_data same_session_bits same_session_put


lemma same_session_send: "within same_session (send_command runtime command c)"
  by (rule same_session_world [OF only_world_send])

lemma same_session_parse_record: "within same_session (parse_record_into_card_data body)"
  by (auto simp: within_def parse_record_into_card_data_def same_session_def split: prod.split)

lemma same_session_remember: "within same_session (remember_record locator body)"
  unfolding remember_record_def by (intro ss.within_rules) (simp add: same_session_def)

lemma same_session_read_records_loop: "within same_session (read_records_loop runtime locators)"
proof (induction locators)
  case (Cons locator rest)
  show ?case unfolding read_records_loop.simps
    by (auto intro!: same_session_steps ss.within_if same_session_send same_session_parse_record
        same_session_remember Cons split: read_record_status.split)
qed (simp add: same_session_set_kernel_state)

lemma same_session_read_records: "within same_session (read_application_records runtime afl)"
  unfolding read_application_records_def
  by (intro same_session_steps ss.within_if same_session_read_records_loop)

lemma same_session_oda: "within same_session (run_offline_data_authentication profiles runtime)"
  unfolding run_offline_data_authentication_def
  by (auto intro!: same_session_steps same_session_world [OF only_world_oda_outcome]
      simp: same_session_def split: oda_selection.split prod.split)

lemma same_session_restrictions: "within same_session (run_processing_restrictions params)"
  unfolding run_processing_restrictions_def by (intro same_session_steps) (simp add: same_session_def)

lemma same_session_cvm: "within same_session (run_cvm_processing params)"
  unfolding run_cvm_processing_def record_cvm_outcome_def
  by (auto intro!: same_session_steps ss.within_if split: cvm_outcome.split option.split)

lemma same_session_finish_contactless: "within same_session (finish_contactless outcome)"
  unfolding finish_contactless_def by (intro same_session_steps) (simp add: same_session_def)

lemma same_session_relay: "within same_session (run_required_relay_resistance clock runtime aid)"
  unfolding run_required_relay_resistance_def
  by (auto intro!: same_session_steps same_session_world [OF only_world_transmit]
      same_session_world [OF only_world_emit] same_session_finish_contactless
      split: option.split relay_resistance_decision.split)

lemma same_session_limits: "within same_session (run_contactless_limit_processing clock runtime profiles params)"
  unfolding run_contactless_limit_processing_def Let_def
  by (auto intro!: same_session_steps ss.within_if same_session_relay same_session_world [OF only_world_emit]
      same_session_finish_contactless split: option.split contactless_limit_decision.split)

lemma same_session_risk: "within same_session (run_terminal_risk_management profiles params)"
  unfolding run_terminal_risk_management_def by (intro same_session_steps) (simp add: same_session_def)

lemma same_session_select: "within same_session (select_environment_and_list profiles iface runtime)"
  unfolding select_environment_and_list_def
  by (intro same_session_steps same_session_send) (simp add: same_session_def)

lemma same_session_select_loop: "within same_session (select_application_loop runtime candidates)"
proof (induction candidates)
  case (Cons candidate rest)
  show ?case unfolding select_application_loop.simps
    by (auto intro!: same_session_steps same_session_send Cons split: select_aid_decision.split)
qed (simp add: ss.within_kret)

lemma same_session_prepare: "within same_session (prepare_card_data params runtime)"
  unfolding prepare_card_data_def
  by (intro same_session_steps same_session_world [OF only_world_request]) (simp_all add: same_session_def)

lemma same_session_gpo: "within same_session (run_gpo candidate fci params runtime)"
  unfolding run_gpo_def
  by (intro same_session_steps ss.within_if same_session_send same_session_prepare) (simp_all add: same_session_def)

text \<open>And the whole run: the profiles it was started with.\<close>

definition same_profiles :: "'w krn_context \<Rightarrow> 'w krn_context \<Rightarrow> bool" where
  "same_profiles s t \<longleftrightarrow> loaded_part t = loaded_part s \<and> kc_busy t = kc_busy s"

interpretation sp: step_relation same_profiles
  by unfold_locales (simp_all add: same_profiles_def)

lemma same_profiles_session: "within same_session m \<Longrightarrow> within same_profiles m"
  by (auto simp: within_def same_session_def same_profiles_def)

lemmas same_profiles_steps = sp.within_rules same_profiles_session [OF same_session_transition]
  same_profiles_session [OF same_session_set_kernel_state] same_profiles_session [OF same_session_put_card_data]
  same_profiles_session [OF same_session_bits(1)] same_profiles_session [OF same_session_bits(2)]
  same_profiles_session [OF same_session_put(1)] same_profiles_session [OF same_session_put(2)]

lemma same_profiles_analysis: "within same_profiles (run_terminal_action_analysis profiles)"
  unfolding run_terminal_action_analysis_def
  by (intro same_profiles_steps) (simp add: same_profiles_def)

lemma same_profiles_finish: "within same_profiles finish_offline_outcome_from_taa"
    "within same_profiles finish_offline_outcome_from_first_gac"
  unfolding finish_offline_outcome_from_taa_def finish_offline_outcome_from_first_gac_def
  by (intro same_profiles_steps; simp add: same_profiles_def)+

lemma same_profiles_outcome: "within same_profiles first_gac_transaction_outcome"
  unfolding first_gac_transaction_outcome_def
  by (intro same_profiles_steps sp.within_if same_profiles_finish) (simp add: same_profiles_def)

lemma same_profiles_ignore: "within same_profiles m \<Longrightarrow> within same_profiles (ignore_result m)"
  by (simp add: within_def ignore_result_def)

lemma same_profiles_gac_success: "within same_profiles (require_generate_ac_success sw event)"
  unfolding require_generate_ac_success_def
  by (auto intro!: same_profiles_steps sp.within_if same_profiles_ignore split: sum.split)

lemma same_profiles_request:
  "within only_world control \<Longrightarrow> within same_profiles (request_cryptogram runtime request cdol control event)"
  unfolding request_cryptogram_def
  by (intro same_profiles_steps same_profiles_gac_success same_profiles_session [OF same_session_send]
      same_profiles_session [OF same_session_world])

lemma same_profiles_reroute: "within same_profiles reroute_cda_failed_offline_cryptogram_through_taa"
  unfolding reroute_cda_failed_offline_cryptogram_through_taa_def
  by (intro same_profiles_steps same_profiles_analysis)

lemma same_profiles_conclude: "within same_profiles (conclude_first_gac parsed)"
  unfolding conclude_first_gac_def
  by (intro same_profiles_steps sp.within_if same_profiles_reroute; simp add: same_profiles_def)

lemma same_profiles_store: "within same_profiles (store_gac_response parsed)"
  unfolding store_gac_response_def by (intro same_profiles_steps sp.within_if)

lemma same_profiles_first_gac: "within same_profiles (run_first_generate_ac runtime)"
  unfolding run_first_generate_ac_def
  by (intro same_profiles_steps same_profiles_request same_profiles_store same_profiles_conclude ow.within_kask)

lemma same_profiles_stage: "within same_profiles (run_stage clock runtime profiles params afl state)"
  unfolding run_stage_def
  by (intro same_profiles_steps sp.within_if same_profiles_analysis same_profiles_finish same_profiles_first_gac
      same_profiles_outcome same_profiles_session same_session_read_records same_session_oda
      same_session_restrictions same_session_cvm same_session_limits same_session_risk)

lemma same_profiles_advance:
  "same_profiles s (snd (advance_transaction_after_gpo clock runtime profiles params afl s))"
proof (induction clock runtime profiles params afl s rule: advance_transaction_after_gpo.induct)
  case (1 clock runtime profiles params afl s)
  obtain r t where t: "run_stage clock runtime profiles params afl (kc_fsm_state s) s = (r, t)" by fastforce
  have st: "same_profiles s t" by (rule withinD [OF same_profiles_stage t])
  show ?case
  proof (cases "r = Inr None")
    case True
    with 1 [of r t None] t st show ?thesis
      by (subst advance_transaction_after_gpo.simps) (auto intro: sp.R_trans)
  next
    case False
    with t st show ?thesis
      by (subst advance_transaction_after_gpo.simps) (auto split: sum.split option.split)
  qed
qed

lemma same_profiles_inner: "within same_profiles (run_transaction_inner clock)"
  unfolding run_transaction_inner_def
  by (intro same_profiles_steps same_profiles_session [OF same_session_select]
      same_profiles_session [OF same_session_select_loop] same_profiles_session [OF same_session_gpo])
    (simp add: within_def same_profiles_advance)

lemma same_profiles_run: "same_profiles s (snd (run_transaction clock s))"
proof -
  obtain r t where t: "run_transaction_inner clock s = (r, t)" by fastforce
  then have "same_profiles s t" by (rule withinD [OF same_profiles_inner])
  then show ?thesis
    by (cases r) (simp_all add: run_transaction_def t fail_transaction_def same_profiles_def)
qed

text \<open>Only a context that waits for a card starts a run; every other ends in the error state at once.\<close>

lemma run_transaction_elsewhere:
  assumes "kc_fsm_state s \<noteq> S1"
  shows "\<exists>e. run_transaction clock s = fail_transaction e s"
proof -
  have "list_all (\<lambda>((s, e), to_state, action, err). e = EvCardDetected \<longrightarrow> s = S1) TRANSITIONS"
    by (simp add: TRANSITIONS_def)
  from transition_rows [OF _ this] have "\<exists>e. transition (kc_fsm_state s) EvCardDetected = Inl e"
    using assms by (cases "transition (kc_fsm_state s) EvCardDetected") (auto)
  then obtain e where e: "transition (kc_fsm_state s) EvCardDetected = Inl e" ..
  have "\<exists>e. run_transaction_inner clock s = (Inl e, s)"
    unfolding run_transaction_inner_def select_environment_and_list_def apply_transition_def
    by (auto simp: kbind_def kask_def klift_def e split: sum.split)
  then show ?thesis by (auto simp: run_transaction_def)
qed

text \<open>
  The evidence for an outcome, in the context it leaves.  An approval offline is either the
  decision of the terminal action analysis, or a transaction certificate of the card whose combined
  authentication, where that method was selected, verifies.
\<close>

fun outcome_supported :: "'w krn_context \<Rightarrow> krn_outcome \<Rightarrow> bool" where
  "outcome_supported ctx ApprovedOffline \<longleftrightarrow> is_final_outcome_state ctx \<and> kc_final_outcome ctx = Some ApprovedOffline \<and>
     (case kc_first_gac_response ctx of
        None \<Rightarrow> kc_requested_cryptogram ctx = Some ReqTc
      | Some response \<Rightarrow> cryptogram_type_of (gac_cid response) = Tc \<and> cda_holds ctx response)"
| "outcome_supported ctx DeclinedOffline \<longleftrightarrow> is_final_outcome_state ctx \<and> kc_final_outcome ctx = Some DeclinedOffline \<and>
     (case kc_first_gac_response ctx of
        None \<Rightarrow> kc_requested_cryptogram ctx = Some ReqAac
      | Some response \<Rightarrow> cryptogram_type_of (gac_cid response) = Aac \<or>
          kc_requested_cryptogram ctx = Some ReqAac \<and> tvr_is_set (kc_tvr ctx) B1_CDA_FAILED)"
| "outcome_supported ctx OnlineRequired \<longleftrightarrow> kc_fsm_state ctx = S11 \<and> kc_state ctx = K_OnlineAuthorization \<and>
     kc_online_authorization_data ctx \<noteq> None \<and>
     (case kc_first_gac_response ctx of
        None \<Rightarrow> False | Some response \<Rightarrow> cryptogram_type_of (gac_cid response) = Arqc)"
| "outcome_supported ctx outcome \<longleftrightarrow> outcome \<in> {TryAgain, OutcomeAlternateInterface, Terminated} \<and>
     is_final_outcome_state ctx \<and> kc_final_outcome ctx = Some outcome \<and> kc_first_gac_response ctx = None"

definition taa_profiles_wf :: "profile_set \<Rightarrow> bool" where
  "taa_profiles_wf profiles \<longleftrightarrow> list_all (\<lambda>scheme. wf_taa_profile (sp_taa scheme)) (ps_schemes profiles)"

text \<open>Every profile set that loads has them.\<close>

lemma loaded_taa_profiles_wf: "load_profile_set json policy = Inr profiles \<Longrightarrow> taa_profiles_wf profiles"
  by (drule load_profile_set_wf) (auto simp: wf_profile_set_def wf_scheme_def taa_profiles_wf_def list_all_iff)

lemma taa_input_wf:
  "taa_input_for s profiles = Inr input \<Longrightarrow> taa_profiles_wf profiles \<Longrightarrow> wf_taa_profile (taa_input_profile input)"
  by (auto simp: taa_input_for_def selected_scheme_and_aid_def taa_profiles_wf_def krn_simps list_all_iff
      get_at_def split: if_splits)

lemma first_gac_outcome_supported:
  assumes parsed: "kc_first_gac_response s = Some parsed"
    and ends: "kc_fsm_state s = S11 \<and> kc_state s = K_OnlineAuthorization \<and>
       cryptogram_type_of (gac_cid parsed) = Arqc \<and> kc_online_authorization_data s \<noteq> None \<or>
     kc_fsm_state s = S16 \<and> kc_state s = K_FinalOutcome \<and> cryptogram_type_of (gac_cid parsed) \<in> {Tc, Aac} \<and>
       (cda_holds s parsed \<and> kc_requested_cryptogram s = Some ReqArqc \<or>
        kc_requested_cryptogram s = Some ReqAac \<and> tvr_is_set (kc_tvr s) B1_CDA_FAILED)"
  shows "kpost first_gac_transaction_outcome s (\<lambda>outcome t. outcome_supported t outcome)"
proof -
  have cda: "cda_holds (s\<lparr>kc_final_outcome := a, kc_last_error := b\<rparr>) r = cda_holds s r" for a b r
    by (simp add: cda_holds_def verify_combined_data_authentication_def selected_aid_profile_def)
  show ?thesis
    unfolding first_gac_transaction_outcome_def
    using ends parsed
    by (cases "cryptogram_type_of (gac_cid parsed)")
      (auto simp: kwp_simps krn_simps is_final_outcome_state_def cda finish_offline_outcome_from_first_gac_def
        intro!: kwp_mono [OF finish_from_taa_post])
qed

text \<open>The context the loop needs, and keeps.\<close>

definition ready_to_advance :: "profile_set \<Rightarrow> 'w krn_context \<Rightarrow> bool" where
  "ready_to_advance profiles s \<longleftrightarrow> kc_profiles s = Some profiles \<and> kc_first_gac_response s = None \<and>
     (kc_fsm_state s = S10 \<longrightarrow> asked_online s profiles \<and> kc_requested_cryptogram s = Some ReqArqc)"

lemma ready_same_session:
  "ready_to_advance profiles s \<Longrightarrow> same_session s t \<Longrightarrow> kc_fsm_state t \<noteq> S10 \<Longrightarrow> ready_to_advance profiles t"
  by (simp add: ready_to_advance_def same_session_def)

lemma run_stage_supported:
  assumes ready: "ready_to_advance profiles s" and wf: "taa_profiles_wf profiles"
  shows "kpost (run_stage clock runtime profiles params afl (kc_fsm_state s)) s (\<lambda>o' t.
     case o' of None \<Rightarrow> ready_to_advance profiles t | Some outcome \<Rightarrow> outcome_supported t outcome)"
proof -
  have early: "kpost (kbind m (\<lambda>_. kret None)) s (\<lambda>o' t.
       case o' of None \<Rightarrow> ready_to_advance profiles t | Some outcome \<Rightarrow> outcome_supported t outcome)"
    if "within same_session m" "kpost m s (\<lambda>_ t. kc_fsm_state t \<noteq> S10)" for m :: "('a krn_context, 'b) krn"
    unfolding kwp_kbind kwp_kret
    by (rule kwp_mono [OF that(2)]) (use withinD [OF that(1)] ready_same_session [OF ready] in auto)
  consider "kc_fsm_state s = S4" | "kc_fsm_state s = S5" | "kc_fsm_state s = S6" | "kc_fsm_state s = S7"
    | "kc_fsm_state s = S8" | "kc_fsm_state s = S9" | "kc_fsm_state s = S10"
    | "stages_left (kc_fsm_state s) = 0" by (cases "kc_fsm_state s") simp_all
  then show ?thesis
  proof cases
    case 1
    show ?thesis unfolding 1 run_stage_eqs
      by (rule early [OF same_session_read_records]) (auto intro: kwp_mono [OF read_application_records_fsm [OF 1]])
  next
    case 2
    show ?thesis unfolding 2 run_stage_eqs
      by (rule early [OF same_session_oda]) (auto intro: kwp_mono [OF run_offline_data_authentication_fsm [OF 2]])
  next
    case 3
    show ?thesis unfolding 3 run_stage_eqs
      by (rule early [OF same_session_restrictions]) (auto intro: kwp_mono [OF run_processing_restrictions_fsm [OF 3]])
  next
    case 4
    have ss: "within same_session (kbind (run_cvm_processing params)
        (\<lambda>_. run_contactless_limit_processing clock runtime profiles params))"
      by (intro ss.within_kbind same_session_cvm same_session_limits)
    have post: "kpost (kbind (run_cvm_processing params) (\<lambda>_. run_contactless_limit_processing clock runtime profiles params)) s
        (\<lambda>o' t. case o' of None \<Rightarrow> kc_fsm_state t = S8
          | Some outcome \<Rightarrow> kc_fsm_state t = S16 \<and> kc_state t = K_FinalOutcome \<and> kc_final_outcome t = Some outcome \<and>
              outcome \<in> {TryAgain, OutcomeAlternateInterface, Terminated})"
      unfolding kwp_kbind
      by (auto intro!: kwp_mono [OF run_cvm_processing_fsm [OF 4]] kwp_mono [OF run_contactless_limit_processing_fsm]
          split: option.splits)
    show ?thesis unfolding 4 run_stage_eqs
      by (rule kwp_mono [OF post])
        (use withinD [OF ss] ready in \<open>auto simp: ready_to_advance_def same_session_def is_final_outcome_state_def
          split: option.splits\<close>)
  next
    case 5
    show ?thesis unfolding 5 run_stage_eqs
      by (rule early [OF same_session_risk]) (auto intro: kwp_mono [OF run_terminal_risk_management_fsm [OF 5]])
  next
    case 6
    show ?thesis unfolding 6
    proof (rule kwp_mono [OF run_stage_analysis [OF 6]], elim exE conjE)
      fix o' t input request event state
      assume a: "taa_input_for s profiles = Inr input"
        "terminal_action_target (td_action (decide input)) = (request, event, state)"
        and t: "case o' of None \<Rightarrow> request = ReqArqc \<and>
         t = s\<lparr>kc_requested_cryptogram := Some request, kc_fsm_state := S10, kc_state := state\<rparr>
       | Some outcome \<Rightarrow>
         (outcome = ApprovedOffline \<and> request = ReqTc \<or> outcome = DeclinedOffline \<and> request = ReqAac) \<and>
         t = s\<lparr>kc_requested_cryptogram := Some request, kc_fsm_state := S16, kc_state := K_FinalOutcome,
               kc_final_outcome := Some outcome, kc_last_error := Ok\<rparr>"
      have "taa_input_for (s\<lparr>kc_requested_cryptogram := Some ReqArqc, kc_fsm_state := S10, kc_state := state\<rparr>) profiles = Inr input"
        using a(1) by (simp add: taa_input_for_def)
      then show "case o' of None \<Rightarrow> ready_to_advance profiles t | Some outcome \<Rightarrow> outcome_supported t outcome"
        using a t ready taa_input_wf [OF a(1) wf]
        by (cases "td_action (decide input)")
          (auto simp: ready_to_advance_def asked_online_def is_final_outcome_state_def split: option.splits)
    qed simp
  next
    case 7
    with ready have asked: "asked_online s profiles" "kc_profiles s = Some profiles" "kc_requested_cryptogram s = Some ReqArqc"
      by (simp_all add: ready_to_advance_def)
    show ?thesis unfolding 7 run_stage_eqs
    proof (rule kpost_chain [OF kpost_first_generate_ac [OF 7 asked(1,2)]], elim exE conjE)
      fix t parsed
      assume "kc_first_gac_response t = Some parsed" and "kc_fsm_state t = S11 \<and> kc_state t = K_OnlineAuthorization \<and>
           cryptogram_type_of (gac_cid parsed) = Arqc \<and> kc_online_authorization_data t \<noteq> None \<or>
         kc_fsm_state t = S16 \<and> kc_state t = K_FinalOutcome \<and> cryptogram_type_of (gac_cid parsed) \<in> {Tc, Aac} \<and>
           (cda_holds t parsed \<and> kc_requested_cryptogram t = kc_requested_cryptogram s \<or>
            kc_requested_cryptogram t = Some ReqAac \<and> tvr_is_set (kc_tvr t) B1_CDA_FAILED)"
      then show "kpost (kbind first_gac_transaction_outcome (\<lambda>outcome. kret (Some outcome))) t (\<lambda>o' t.
          case o' of None \<Rightarrow> ready_to_advance profiles t | Some outcome \<Rightarrow> outcome_supported t outcome)"
        unfolding kwp_kbind kwp_kret option.case asked(3)
        by (rule first_gac_outcome_supported)
    qed
  next
    case 8
    then show ?thesis by (simp add: run_stage_other kwp_kfail)
  qed
qed

lemma advance_supported:
  "ready_to_advance profiles s \<Longrightarrow> taa_profiles_wf profiles \<Longrightarrow>
     kpost (advance_transaction_after_gpo clock runtime profiles params afl) s (\<lambda>outcome t. outcome_supported t outcome)"
proof (induction clock runtime profiles params afl s rule: advance_transaction_after_gpo.induct)
  case (1 clock runtime profiles params afl s)
  note step = run_stage_supported [OF 1(2,3), of clock runtime params afl]
  show ?case
  proof (cases "\<exists>t. run_stage clock runtime profiles params afl (kc_fsm_state s) s = (Inr None, t)")
    case True
    then obtain t where t: "run_stage clock runtime profiles params afl (kc_fsm_state s) s = (Inr None, t)" ..
    with 1(1) [of "Inr None" t None] kwp_Inr [OF step t] 1(3)
    show ?thesis by (simp add: kwp_def) (subst advance_transaction_after_gpo.simps, simp)
  next
    case False
    with step show ?thesis
      by (simp add: kwp_def) (subst advance_transaction_after_gpo.simps, auto split: prod.split sum.split option.split)
  qed
qed

lemma kpost_same_session:
  "within same_session m \<Longrightarrow> kpost m s (\<lambda>_ t. same_session s t)"
  by (rule kwp_within) auto

lemma run_gpo_post:
  "kpost (run_gpo candidate fci params runtime) s (\<lambda>_ t. same_session s t \<and> kc_fsm_state t \<noteq> S10)"
proof (rule kwp_conj [THEN kwp_mono])
  show "kpost (run_gpo candidate fci params runtime) s (\<lambda>_ t. same_session s t)"
    by (rule kpost_same_session [OF same_session_gpo])
  have "list_all (\<lambda>((s, e), to_state, action, err).
      e \<in> {EvGpoTemplate77, EvGpoTemplate80} \<longrightarrow> to_state \<noteq> S10) TRANSITIONS"
    by (simp add: TRANSITIONS_def)
  note row = transition_rows [OF _ this]
  have gpo: "transition st (gpo_event f) = Inr tr \<Longrightarrow> tr_to tr \<noteq> S10" for st f tr
    by (drule row) (cases f; simp add: gpo_event_def)+
  have prep: "kpost (prepare_card_data params runtime) u (\<lambda>_ t. True)" for u :: "'a krn_context"
    by (rule kwpI) simp_all
  show "kpost (run_gpo candidate fci params runtime) s (\<lambda>_ t. kc_fsm_state t \<noteq> S10)"
    unfolding run_gpo_def
    by (auto simp: kwp_simps gpo intro!: kwp_mono [OF prep])
qed auto

lemma run_transaction_inner_supported:
  assumes none: "kc_first_gac_response s = None" and profiles: "kc_profiles s = Some profiles"
    and wf: "taa_profiles_wf profiles"
  shows "kpost (run_transaction_inner clock) s (\<lambda>outcome t. outcome_supported t outcome)"
proof -
  have tail: "kpost (kbind (run_gpo candidate fci params runtime) (\<lambda>afl.
     kbind (kask (\<lambda>ctx. validate_selected_kernel_mapping ctx params profiles)) (\<lambda>_.
       advance_transaction_after_gpo clock runtime profiles params afl))) u (\<lambda>outcome t. outcome_supported t outcome)"
    if "same_session s u" for u candidate fci params runtime
    unfolding kwp_kbind kwp_kask
    by (rule kwp_mono [OF run_gpo_post])
      (use that none profiles wf in \<open>auto simp: ready_to_advance_def same_session_def intro!: advance_supported\<close>)
  show ?thesis
    unfolding run_transaction_inner_def
    apply (simp add: kwp_kbind kwp_kask kwp_klift profiles)
    apply (intro allI impI)
    apply (rule kwp_mono [OF kpost_same_session [OF same_session_select]])
     apply (rule kwp_mono [OF kpost_same_session [OF same_session_select_loop]])
      apply (auto simp: krn_simps kwp_kbind kwp_kask intro!: tail [unfolded kwp_kbind kwp_kask, simplified] elim: ss.R_trans)
    done
qed

section \<open>Properties\<close>

text \<open>C4: The loop over the stages ends: from every state of the machine seven turns are enough, so
  the run after the processing options always returns an outcome or an error.\<close>

theorem advance_ends_in_seven_turns:
  "advance_within 7 clock runtime profiles params afl ctx =
     Some (advance_transaction_after_gpo clock runtime profiles params afl ctx)"
  using advance_within_enough [of ctx 6] stages_left_le [of "kc_fsm_state ctx"]
  by (simp add: numeral_eq_Suc)

text \<open>What the outcome of a transaction stands for.  With a profile set whose defaults for the
  terminal action analysis are well formed, and no cryptogram left over, a run that does not end in
  an error state returns an outcome with its evidence: it approves offline only if the terminal
  action analysis decided so, or the card answered with a transaction certificate and its combined
  authentication, where selected, verifies; it asks for the host only with a request cryptogram
  and the data for the host; it never approves or declines online by itself.\<close>

theorem transaction_outcome_is_supported:
  assumes "kc_first_gac_response ctx = None" and "kc_profiles ctx = Some profiles" and "taa_profiles_wf profiles"
  shows "case run_transaction clock ctx of (outcome, ctx') \<Rightarrow>
    if outcome = OutcomeError then kc_fsm_state ctx' = Se \<and> kc_state ctx' = K_Error
    else outcome_supported ctx' outcome"
  using run_transaction_inner_supported [OF assms, of clock]
  by (auto simp: run_transaction_def kwp_def fail_transaction_def split: prod.splits sum.splits)

text \<open>A terminal and a card for which the property is used: a contact purchase at an online-capable
  terminal, and the answers of the card from SELECT to the first cryptogram.  The environment is the
  list of the answers that are left.\<close>

definition sample_aid :: aid_profile where
  "sample_aid = \<lparr>ap_aid = [0xa0, 0, 0, 0, 3, 0x10, 0x10], ap_priority = 1, ap_partial_selection = False,
     ap_interfaces = [''contact''],
     ap_action_codes = \<lparr>ac_denial = A5 0 0 0 0 0, ac_online = A5 0x80 0 0 0 0, ac_default = A5 0 0 0 0 0\<rparr>,
     ap_issuer_action_codes = action_codes_zeroed, ap_floor_limit = 10000, ap_transaction_type_floor_limits = [],
     ap_cvm_limit_contact = 0, ap_random_selection_percent = 0, ap_lower_consecutive_offline_limit = None,
     ap_upper_consecutive_offline_limit = None, ap_contactless_transaction_limit = 0, ap_contactless_cvm_limit = 0,
     ap_cdcvm_supported = False, ap_cda_supported = False, ap_cda_request_encoding = None,
     ap_cda_authentication_data = CdaApplicationCryptogram, ap_default_cdol1 = None,
     ap_critical_issuer_script_ins = [], ap_relay_resistance = None\<rparr>"

definition sample_profiles :: profile_set where
  "sample_profiles = \<lparr>ps_version = 1, ps_profile_class = ClassExampleOnly, ps_profile_source = \<lparr>source_owner = ''o'', source_document = ''d'', source_version = ''v'', source_retrieved = None, source_verification = ''x''\<rparr>,
     ps_schemes = [\<lparr>sp_scheme_name = ''demo'', sp_rid = A5 0xa0 0 0 0 3, sp_kernel_type = ''c8_contactless'',
        sp_contact_kernel_type = Some ''contact'', sp_taa = taa_profile_spec_defaults, sp_aids = [sample_aid], sp_capks = []\<rparr>]\<rparr>"

definition sample_runtime :: "bytes list runtime_callbacks" where
  "sample_runtime = \<lparr>rt_transmit_apdu = (\<lambda>command timeout_ms user answers. case answers of
       [] \<Rightarrow> ((error_code CardRemoved, [], 0), [])
     | answer # rest \<Rightarrow> ((error_code Ok, answer, length answer), rest)),
     rt_get_unpredictable_number = (\<lambda>n user answers. ((error_code Ok, [1, 2, 3, 4]), answers)),
     rt_contactless_outcome = None, rt_user_data = 0\<rparr>"

definition sample_params :: stored_txn_params where
  "sample_params = \<lparr>tp_amount_authorised_minor = 2500, tp_amount_other_minor = 0, tp_currency_code = 978,
     tp_currency_exponent = 2, tp_terminal_country_code = 280, tp_transaction_type = 0, tp_terminal_type = 0x22,
     tp_merchant_category_code = A2 0x59 0x99, tp_interface_preference = 1, tp_merchant_name_location = []\<rparr>"

definition sample_answers :: "bytes list" where
  "sample_answers =
    [[0x6a, 0x82],
     [0x6f, 0x0f, 0x84, 0x07, 0xa0, 0, 0, 0, 3, 0x10, 0x10, 0xa5, 0x04, 0x50, 0x02, 0x41, 0x42, 0x90, 0x00],
     [0x77, 0x0a, 0x82, 0x02, 0x00, 0x00, 0x94, 0x04, 0x08, 0x01, 0x01, 0x00, 0x90, 0x00],
     [0x70, 0x21, 0x5f, 0x24, 0x03, 0x30, 0x12, 0x31, 0x5f, 0x28, 0x02, 0x02, 0x80, 0x9f, 0x07, 0x02, 0xff, 0xff,
      0x8e, 0x0a, 0, 0, 0, 0, 0, 0, 0, 0, 0x1f, 0x00, 0x8c, 0x03, 0x9f, 0x02, 0x06, 0x90, 0x00],
     [0x80, 0x0b, 0x40, 0x00, 0x01, 1, 2, 3, 4, 5, 6, 7, 8, 0x90, 0x00]]"

definition sample_context :: "bytes list krn_context" where
  "sample_context = (krn_context_empty sample_answers)
     \<lparr>kc_fsm_state := S1, kc_txn_params := Some sample_params, kc_profiles := Some sample_profiles,
      kc_profile_evaluation_date := Some (EmvDate 26 1 2), kc_runtime := Some sample_runtime\<rparr>"

lemma transaction_outcome_is_supported_witness:
  "case run_transaction (\<lambda>_. 0) sample_context of (outcome, ctx') \<Rightarrow>
    if outcome = OutcomeError then kc_fsm_state ctx' = Se \<and> kc_state ctx' = K_Error
    else outcome_supported ctx' outcome"
  by (rule transaction_outcome_is_supported [of _ sample_profiles])
    (simp_all add: sample_context_def krn_context_empty_def sample_profiles_def taa_profiles_wf_def
      wf_taa_profile_def taa_profile_spec_defaults_def)

end
