(* ===== verification/Emv_Online.thy ===== *)
theory Emv_Online
  imports Emv_Run "HOL-Library.Sublist"
begin

text \<open>
  After the host answered (the second part of the transaction in \<open>src/src/ffi.rs\<close>): the host
  response, issuer authentication, the issuer scripts before and after the final cryptogram, and
  the final GENERATE AC.  Each operation is called by the terminal on its own and checks the state
  of the machine first.
\<close>

unbundle bit_operations_syntax

section \<open>The host response\<close>

fun state_after_host_response_fsm :: "fsm_state \<Rightarrow> kernel_state" where
  "state_after_host_response_fsm S12 = K_IssuerAuthentication"
| "state_after_host_response_fsm S13 = K_IssuerScripts"
| "state_after_host_response_fsm _ = K_Error"

definition require_fsm_state :: "fsm_state \<Rightarrow> ('w krn_context, unit) krn" where
  "require_fsm_state expected = kask (\<lambda>ctx. if kc_fsm_state ctx = expected then Inr () else Inl InvalidArgument)"

definition put_optional :: "bytes \<Rightarrow> bytes option \<Rightarrow> ('w krn_context, unit) krn" where
  "put_optional tag v = (case v of Some data \<Rightarrow> put_card_data tag data | None \<Rightarrow> kret ())"

definition apply_host_response :: "bytes \<Rightarrow> ('w krn_context, unit) krn" where
  "apply_host_response response_bytes =
     kbind (require_fsm_state S11) (\<lambda>_.
     kbind (klift (parse_host_response response_bytes)) (\<lambda>response.
     kbind (put_card_data [0x8a] (hr_authorization_response_code response)) (\<lambda>_.
     kbind (put_optional [0x89] (hr_authorization_code response)) (\<lambda>_.
     kbind (put_optional [0x91] (hr_issuer_authentication_data response)) (\<lambda>_.
     kbind (kmod (\<lambda>ctx. ctx\<lparr>kc_host_response := Some response\<rparr>)) (\<lambda>_.
     kbind (apply_transition (if hr_issuer_authentication_data response \<noteq> None
                              then EvHostArpc else EvHostApprovalNoArpc)) (\<lambda>_.
       kmod (\<lambda>ctx. ctx\<lparr>kc_state := state_after_host_response_fsm (kc_fsm_state ctx)\<rparr>))))))))"

section \<open>Issuer authentication\<close>

definition run_issuer_authentication :: "'w runtime_callbacks \<Rightarrow> ('w krn_context, unit) krn" where
  "run_issuer_authentication runtime =
     kbind (require_fsm_state S12) (\<lambda>_.
     kbind (kask (\<lambda>ctx. ok_or (Option.bind (kc_host_response ctx) hr_issuer_authentication_data) InvalidArgument)) (\<lambda>data.
     kbind (klift (rbind (external_authenticate data) apdu_encode)) (\<lambda>command.
     kbind (send_command runtime command ExternalAuthenticate) (\<lambda>(_, sw).
     kbind (set_tsi_bit ISSUER_AUTHENTICATION_PERFORMED) (\<lambda>_.
     kbind (kask (\<lambda>ctx. issuer_authentication_event_from_status (classify ExternalAuthenticate sw) (kc_tvr ctx))) (\<lambda>(event, t).
     kbind (kmod (\<lambda>ctx. ctx\<lparr>kc_tvr := t\<rparr>)) (\<lambda>_.
     kbind put_tvr (\<lambda>_.
     kbind put_tsi (\<lambda>_.
     kbind (apply_transition event) (\<lambda>_. set_kernel_state K_IssuerScripts))))))))))"

section \<open>Issuer scripts\<close>

fun state_after_script_phase :: "script_phase \<Rightarrow> kernel_state" where
  "state_after_script_phase BeforeFinalGenerateAc = K_SecondGenerateAc"
| "state_after_script_phase AfterFinalGenerateAc = K_FinalOutcome"

fun script_phase_code :: "script_phase \<Rightarrow> byte" where
  "script_phase_code BeforeFinalGenerateAc = KRN_SCRIPT_PHASE_BEFORE_FINAL_GAC"
| "script_phase_code AfterFinalGenerateAc = KRN_SCRIPT_PHASE_AFTER_FINAL_GAC"

fun script_phase_state :: "script_phase \<Rightarrow> fsm_state" where
  "script_phase_state BeforeFinalGenerateAc = S13"
| "script_phase_state AfterFinalGenerateAc = S15"

definition issuer_script_command_is_critical :: "'w krn_context \<Rightarrow> bytes \<Rightarrow> bool krn_result" where
  "issuer_script_command_is_critical ctx command =
     rbind (ok_or (get_at command 1) ParseError) (\<lambda>ins.
     rmap (\<lambda>aid. ins \<in> set (ap_critical_issuer_script_ins aid)) (selected_aid_profile ctx))"

definition issuer_script_identifier_array :: "bytes option \<Rightarrow> bytes option krn_result" where
  "issuer_script_identifier_array identifier = (case identifier of
     Some i \<Rightarrow> if length i \<noteq> KRN_ISSUER_SCRIPT_IDENTIFIER_LEN then Inl ParseError else Inr (Some i)
   | None \<Rightarrow> Inr None)"

definition u16_try_from :: "nat \<Rightarrow> u16 krn_result" where
  "u16_try_from n = (if n \<le> 65535 then Inr (word_of_nat n) else Inl LengthOverflow)"

text \<open>
  The loop over the commands of a script, from index \<open>n\<close> on: the results of the commands that were
  sent and whether a critical one failed, which ends the loop.
\<close>

fun run_script_commands ::
    "'w runtime_callbacks \<Rightarrow> script_phase \<Rightarrow> u16 \<Rightarrow> bytes option \<Rightarrow> nat \<Rightarrow> bytes list
     \<Rightarrow> ('w krn_context, script_command_result list \<times> bool) krn" where
  "run_script_commands runtime phase script_index identifier n [] = kret ([], False)"
| "run_script_commands runtime phase script_index identifier n (command # rest) =
     kbind (klift (u16_try_from n)) (\<lambda>command_index.
     kbind (kask (\<lambda>ctx. issuer_script_command_is_critical ctx command)) (\<lambda>critical.
     kbind (send_command runtime command (IssuerScript critical)) (\<lambda>(_, sw).
     kbind (kmod (\<lambda>ctx. ctx\<lparr>kc_issuer_script_results := kc_issuer_script_results ctx @
         [\<lparr>cis_phase = phase, cis_script_index = script_index, cis_command_index = command_index,
           cis_script_identifier = identifier, cis_result = \<lparr>scr_sw1 = sw1 sw, scr_sw2 = sw2 sw\<rparr>\<rparr>]\<rparr>)) (\<lambda>_.
     kbind (klift (issuer_script_status_of (classify (IssuerScript critical) sw))) (\<lambda>status. case status of
         ScriptContinue \<Rightarrow>
           kbind (run_script_commands runtime phase script_index identifier (Suc n) rest) (\<lambda>(results, failed).
             kret (\<lparr>scr_sw1 = sw1 sw, scr_sw2 = sw2 sw\<rparr> # results, failed))
       | ScriptCriticalFailure \<Rightarrow> kret ([\<lparr>scr_sw1 = sw1 sw, scr_sw2 = sw2 sw\<rparr>], True))))))"

definition store_script_summary :: "script_phase \<Rightarrow> script_command_result list \<Rightarrow> ('w krn_context, unit) krn" where
  "store_script_summary phase results =
     kbind (kmod (\<lambda>ctx. let summary = apply_script_results phase results (kc_tvr ctx) (kc_tsi ctx) in
       ctx\<lparr>kc_tvr := ses_tvr summary, kc_tsi := ses_tsi summary\<rparr>)) (\<lambda>_.
     kbind put_tvr (\<lambda>_. put_tsi))"

definition conclude_script :: "script_phase \<Rightarrow> script_command_result list \<Rightarrow> bool \<Rightarrow> ('w krn_context, unit) krn" where
  "conclude_script phase results failed =
     kbind (store_script_summary phase results) (\<lambda>_.
     if failed
     then kbind (apply_transition EvScriptCriticalFailure) (\<lambda>_.
          kbind (set_kernel_state K_Error) (\<lambda>_. kfail ScriptFailed))
     else apply_transition
       (if list_all (\<lambda>result. scr_sw1 result = 0x90 \<and> scr_sw2 result = 0x00) results
        then EvScriptSuccess else EvScriptNonCriticalFailure))"

text \<open>One script, with its position among the scripts of its phase.\<close>

definition run_one_script :: "'w runtime_callbacks \<Rightarrow> nat \<Rightarrow> issuer_script \<Rightarrow> ('w krn_context, unit) krn" where
  "run_one_script runtime n script =
     kbind (klift (u16_try_from n)) (\<lambda>script_index.
     kbind (klift (issuer_script_identifier_array (script_identifier script))) (\<lambda>identifier.
     kbind (apply_transition EvScriptAvailable) (\<lambda>_.
     kbind (run_script_commands runtime (script_phase script) script_index identifier 0 (script_commands script)) (\<lambda>(results, failed).
       conclude_script (script_phase script) results failed))))"

fun run_scripts_loop :: "'w runtime_callbacks \<Rightarrow> nat \<Rightarrow> issuer_script list \<Rightarrow> ('w krn_context, unit) krn" where
  "run_scripts_loop runtime n [] = kret ()"
| "run_scripts_loop runtime n (script # rest) =
     kbind (run_one_script runtime n script) (\<lambda>_. run_scripts_loop runtime (Suc n) rest)"

definition run_issuer_scripts_for_phase :: "'w runtime_callbacks \<Rightarrow> script_phase \<Rightarrow> ('w krn_context, unit) krn" where
  "run_issuer_scripts_for_phase runtime phase =
     kbind (require_fsm_state (script_phase_state phase)) (\<lambda>_.
     kbind (kask (\<lambda>ctx. ok_or (map_option (\<lambda>response. filter (\<lambda>s. script_phase s = phase) (hr_scripts response))
         (kc_host_response ctx)) InvalidArgument)) (\<lambda>scripts.
     kbind (run_scripts_loop runtime 0 scripts) (\<lambda>_.
     kbind (apply_transition EvNoMoreScripts) (\<lambda>_. set_kernel_state (state_after_script_phase phase)))))"

definition run_issuer_scripts :: "'w runtime_callbacks \<Rightarrow> ('w krn_context, unit) krn" where
  "run_issuer_scripts runtime = run_issuer_scripts_for_phase runtime BeforeFinalGenerateAc"

definition run_post_final_issuer_scripts :: "'w runtime_callbacks \<Rightarrow> ('w krn_context, unit) krn" where
  "run_post_final_issuer_scripts runtime = run_issuer_scripts_for_phase runtime AfterFinalGenerateAc"

section \<open>The final cryptogram\<close>

definition final_outcome_for_host_arc :: "bytes \<Rightarrow> krn_outcome" where
  "final_outcome_for_host_arc host_arc = (if host_arc = [0x30, 0x30] then ApprovedOnline else DeclinedOnline)"

definition final_gac_request :: "bytes \<Rightarrow> cryptogram_request" where
  "final_gac_request host_arc = (if host_arc = [0x30, 0x30] then ReqTc else ReqAac)"

text \<open>Following the card's answer.\<close>

definition conclude_final_gac :: "generate_ac_response \<Rightarrow> ('w krn_context, unit) krn" where
  "conclude_final_gac parsed =
     kbind (case cryptogram_type_of (gac_cid parsed) of
         Tc \<Rightarrow> kbind (kmod (\<lambda>ctx. ctx\<lparr>kc_final_outcome := Some ApprovedOnline\<rparr>)) (\<lambda>_. apply_transition EvGac2Tc)
       | Aac \<Rightarrow> kbind (kmod (\<lambda>ctx. ctx\<lparr>kc_final_outcome := Some DeclinedOnline\<rparr>)) (\<lambda>_. apply_transition EvGac2Aac)
       | _ \<Rightarrow> kbind (ignore_result (apply_transition EvGac2Failed)) (\<lambda>_. kfail InvalidArgument)) (\<lambda>_.
     kmod (\<lambda>ctx. ctx\<lparr>kc_final_gac_response := Some parsed, kc_state := K_PostFinalIssuerScripts\<rparr>))"

definition run_final_generate_ac :: "'w runtime_callbacks \<Rightarrow> ('w krn_context, unit) krn" where
  "run_final_generate_ac runtime =
     kbind (require_fsm_state S14) (\<lambda>_.
     kbind (kask (\<lambda>ctx. ok_or (map_option hr_authorization_response_code (kc_host_response ctx)) MissingMandatoryTag)) (\<lambda>host_arc.
     kbind (kask (\<lambda>ctx. Inr (ds_get (kc_card_data ctx) [0x8d]))) (\<lambda>cdol2. case cdol2 of
       None \<Rightarrow>
         kbind (apply_transition EvFinalGenerateAcSkipped) (\<lambda>_.
         kmod (\<lambda>ctx. ctx\<lparr>kc_final_outcome := Some (final_outcome_for_host_arc host_arc),
           kc_state := K_PostFinalIssuerScripts\<rparr>))
     | Some cdol2 \<Rightarrow>
         kbind put_tvr (\<lambda>_.
         kbind put_tsi (\<lambda>_.
         kbind (klift (parse_dol cdol2)) (\<lambda>cdol.
         kbind (request_cryptogram runtime (final_gac_request host_arc) cdol (kret NotRequested) EvGac2Failed) (\<lambda>parsed.
         kbind (store_gac_response parsed) (\<lambda>_.
           conclude_final_gac parsed))))))))"

section \<open>Steps of the online part\<close>

lemma kwp_require_fsm_state [kwp_simps]:
  "kwp (require_fsm_state expected) s Q E \<longleftrightarrow>
     (if kc_fsm_state s = expected then Q () s else E InvalidArgument s)"
  by (auto simp: require_fsm_state_def kwp_simps)

lemma kwp_put_optional [kwp_simps]:
  "kwp (put_optional tag v) s Q E \<longleftrightarrow>
     (case v of Some data \<Rightarrow> kwp (put_card_data tag data) s Q E | None \<Rightarrow> Q () s)"
  by (auto simp: put_optional_def kwp_simps split: option.split)

section \<open>The captured results of the scripts\<close>

text \<open>The commands of some scripts in order, each with the place its result is captured for.\<close>

type_synonym script_place = "script_phase \<times> u16 \<times> u16 \<times> bytes option"

fun planned_commands ::
    "script_phase \<Rightarrow> u16 \<Rightarrow> bytes option \<Rightarrow> nat \<Rightarrow> bytes list \<Rightarrow> (script_place \<times> bytes) list" where
  "planned_commands phase script_index identifier n [] = []"
| "planned_commands phase script_index identifier n (command # rest) =
     ((phase, script_index, word_of_nat n, identifier), command) #
     planned_commands phase script_index identifier (Suc n) rest"

fun script_plan :: "nat \<Rightarrow> issuer_script list \<Rightarrow> (script_place \<times> bytes) list" where
  "script_plan n [] = []"
| "script_plan n (script # rest) =
     planned_commands (script_phase script) (word_of_nat n) (script_identifier script) 0 (script_commands script) @
     script_plan (Suc n) rest"

text \<open>What is captured of the card's answer to a command.\<close>

definition captured_result :: "script_place \<Rightarrow> bytes \<Rightarrow> captured_issuer_script_result" where
  "captured_result place response = (case place of (phase, script_index, command_index, identifier) \<Rightarrow>
     \<lparr>cis_phase = phase, cis_script_index = script_index, cis_command_index = command_index,
      cis_script_identifier = identifier,
      cis_result = \<lparr>scr_sw1 = response ! (length response - 2), scr_sw2 = response ! (length response - 1)\<rparr>\<rparr>)"

text \<open>
  A log of commands and answers: each command was sent to the card, in the environment that the one
  before left, and the answer was the card's.  All answers let the script go on, the last one only
  where the log is that of a whole run.
\<close>

fun script_log :: "'w runtime_callbacks \<Rightarrow> bool \<Rightarrow> 'w krn_context \<Rightarrow> ((script_place \<times> bytes) \<times> bytes) list \<Rightarrow> 'w \<Rightarrow> 'w \<Rightarrow> bool" where
  "script_log runtime whole ctx [] w w' \<longleftrightarrow> w' = w"
| "script_log runtime whole ctx (((place, command), response) # rest) w w' \<longleftrightarrow>
     (\<exists>critical u. issuer_script_command_is_critical ctx command = Inr critical \<and>
        transmit_apdu_with_followups runtime command (apdu_timeout ctx) (IssuerScript critical) (ctx\<lparr>kc_world := w\<rparr>) =
          (Inr response, ctx\<lparr>kc_world := u\<rparr>) \<and>
        2 \<le> length response \<and>
        (if whole \<or> rest \<noteq> []
         then issuer_script_status_of (classify (IssuerScript critical) (status_of response)) = Inr ScriptContinue
         else True) \<and>
        script_log runtime whole ctx rest u w')"

text \<open>The exchange with the card depends on the environment alone.\<close>

definition reads_world :: "('w krn_context, 'a) krn \<Rightarrow> bool" where
  "reads_world m \<longleftrightarrow> (\<forall>s t. kc_world s = kc_world t \<longrightarrow>
     fst (m s) = fst (m t) \<and> kc_world (snd (m s)) = kc_world (snd (m t)))"

lemma reads_world_basic:
  "reads_world (kret a)" "reads_world (kfail e)" "reads_world (klift r)" "reads_world (kcall f)"
  by (auto simp: reads_world_def kexec kcall_def split: prod.split)

lemma reads_world_kbind:
  assumes m: "reads_world m" and f: "\<And>a. reads_world (f a)"
  shows "reads_world (kbind m f)"
  unfolding reads_world_def
proof (intro allI impI)
  fix s t :: "'a krn_context"
  assume w: "kc_world s = kc_world t"
  obtain r s' where s': "m s = (r, s')" by fastforce
  obtain q t' where t': "m t = (q, t')" by fastforce
  have "fst (m s) = fst (m t) \<and> kc_world (snd (m s)) = kc_world (snd (m t))"
    using m w unfolding reads_world_def by blast
  then have q: "q = r" "kc_world t' = kc_world s'" by (simp_all add: s' t')
  have "fst (f a s') = fst (f a t') \<and> kc_world (snd (f a s')) = kc_world (snd (f a t'))" for a
    using f [of a] q(2) [symmetric] unfolding reads_world_def by blast
  then show "fst (kbind m f s) = fst (kbind m f t) \<and> kc_world (snd (kbind m f s)) = kc_world (snd (kbind m f t))"
    by (cases r) (simp_all add: kbind_def s' t' q)
qed

lemma reads_world_transmit: "reads_world (transmit_apdu runtime command timeout_ms)"
  unfolding transmit_apdu_def
  by (intro reads_world_kbind reads_world_basic allI impI) (simp split: prod.split add: reads_world_basic)

lemma reads_world_followup_loop: "reads_world (followup_loop runtime timeout_ms c n command)"
proof (induction n arbitrary: command)
  case (Suc n)
  show ?case
    by (auto simp: Let_def intro!: reads_world_kbind reads_world_transmit reads_world_basic Suc
        split: status_action.split)
qed (simp add: reads_world_basic)

lemma exchange_in_world:
  assumes run: "transmit_apdu_with_followups runtime command timeout_ms c s = (r, s\<lparr>kc_world := u\<rparr>)"
    and w: "kc_world t = kc_world s"
  shows "transmit_apdu_with_followups runtime command timeout_ms c t = (r, t\<lparr>kc_world := u\<rparr>)"
proof -
  obtain q t' where t': "transmit_apdu_with_followups runtime command timeout_ms c t = (q, t')" by fastforce
  have "q = r \<and> kc_world t' = u"
    using reads_world_followup_loop [of runtime timeout_ms c "MAX_APDU_FOLLOWUPS + 1" command] run t' w
    unfolding reads_world_def transmit_apdu_with_followups_def by force
  moreover obtain v where "t' = t\<lparr>kc_world := v\<rparr>" by (rule only_worldE [OF only_world_followups t'])
  ultimately show ?thesis using t' by simp
qed

text \<open>What decides how the commands are sent, and the results captured since a state.\<close>

definition same_setting :: "'w krn_context \<Rightarrow> 'w krn_context \<Rightarrow> bool" where
  "same_setting s t \<longleftrightarrow> kc_callback_timeouts t = kc_callback_timeouts s \<and>
     kc_selected_application t = kc_selected_application s \<and> kc_profiles t = kc_profiles s"

lemma same_setting_reads:
  assumes "same_setting s t"
  shows "apdu_timeout t = apdu_timeout s"
    and "issuer_script_command_is_critical t command = issuer_script_command_is_critical s command"
  using assms
  by (simp_all add: same_setting_def apdu_timeout_def issuer_script_command_is_critical_def selected_aid_profile_def)

definition captured :: "'w runtime_callbacks \<Rightarrow> bool \<Rightarrow> 'w krn_context \<Rightarrow> 'w krn_context \<Rightarrow> (script_place \<times> bytes) list \<Rightarrow> bool" where
  "captured runtime whole s t plan \<longleftrightarrow> (\<exists>log w.
     kc_issuer_script_results t = kc_issuer_script_results s @ map (\<lambda>((place, _), response). captured_result place response) log \<and>
     script_log runtime whole s log (kc_world s) w \<and>
     (if whole then map fst log = plan \<and> w = kc_world t \<and> same_setting s t else prefix (map fst log) plan))"

lemma script_log_setting:
  assumes "same_setting s t"
  shows "script_log runtime whole s log w w' = script_log runtime whole t log w w'"
proof (induction log arbitrary: w)
  case (Cons entry log)
  obtain place command response where e: "entry = ((place, command), response)" by (cases entry) auto
  have "(transmit_apdu_with_followups runtime command timeout_ms c (s\<lparr>kc_world := w\<rparr>) = (r, s\<lparr>kc_world := u\<rparr>)) =
        (transmit_apdu_with_followups runtime command timeout_ms c (t\<lparr>kc_world := w\<rparr>) = (r, t\<lparr>kc_world := u\<rparr>))"
    for timeout_ms c r u
    using exchange_in_world [of runtime command timeout_ms c "s\<lparr>kc_world := w\<rparr>" r u "t\<lparr>kc_world := w\<rparr>"]
      exchange_in_world [of runtime command timeout_ms c "t\<lparr>kc_world := w\<rparr>" r u "s\<lparr>kc_world := w\<rparr>"] by auto
  then show ?case by (simp only: e script_log.simps Cons.IH same_setting_reads [OF assms])
qed simp

lemma script_log_append:
  "script_log runtime True s log w u \<Longrightarrow> script_log runtime whole s log' u w' \<Longrightarrow>
   script_log runtime whole s (log @ log') w w'"
proof (induction log arbitrary: w)
  case (Cons entry log)
  obtain place command response where e: "entry = ((place, command), response)" by (cases entry) auto
  from Cons.prems(1) obtain critical v where step:
      "issuer_script_command_is_critical s command = Inr critical"
      "transmit_apdu_with_followups runtime command (apdu_timeout s) (IssuerScript critical) (s\<lparr>kc_world := w\<rparr>) =
        (Inr response, s\<lparr>kc_world := v\<rparr>)" "2 \<le> length response"
      "issuer_script_status_of (classify (IssuerScript critical) (status_of response)) = Inr ScriptContinue"
    and log: "script_log runtime True s log v u"
    by (auto simp: e)
  show ?case unfolding e append_Cons script_log.simps
    by (intro exI [of _ critical] exI [of _ v]) (simp add: step Cons.IH [OF log Cons.prems(2)])
qed simp

lemma captured_refl: "captured runtime True s s []"
  by (simp add: captured_def same_setting_def)

lemma captured_trans:
  assumes "captured runtime True s t ps" and "captured runtime whole t u qs"
  shows "captured runtime whole s u (ps @ qs)"
proof -
  from assms(1) obtain log where log: "kc_issuer_script_results t = kc_issuer_script_results s @
        map (\<lambda>((place, _), response). captured_result place response) log"
      "script_log runtime True s log (kc_world s) (kc_world t)" "map fst log = ps" "same_setting s t"
    by (auto simp: captured_def)
  from assms(2) obtain log' w where log': "kc_issuer_script_results u = kc_issuer_script_results t @
        map (\<lambda>((place, _), response). captured_result place response) log'"
      "script_log runtime whole t log' (kc_world t) w"
      "if whole then map fst log' = qs \<and> w = kc_world u \<and> same_setting t u else prefix (map fst log') qs"
    unfolding captured_def by blast
  have "script_log runtime whole s (log @ log') (kc_world s) w"
    using script_log_append [OF log(2)] log'(2) script_log_setting [OF log(4)] by blast
  then show ?thesis using log log'
    unfolding captured_def by (intro exI [of _ "log @ log'"] exI [of _ w]) (auto simp: same_setting_def split: if_splits)
qed

lemma captured_more: "captured runtime False s t ps \<Longrightarrow> captured runtime False s t (ps @ qs)"
  unfolding captured_def by (auto intro: prefix_prefix)

lemma captured_none: "kc_issuer_script_results t = kc_issuer_script_results s \<Longrightarrow> captured runtime False s t plan"
  unfolding captured_def by (intro exI [of _ "[]"]) simp

lemma captured_first: "captured runtime True s t ps \<Longrightarrow> kc_issuer_script_results u = kc_issuer_script_results t \<Longrightarrow>
    captured runtime False s u (ps @ qs)"
  using captured_trans [of runtime s t ps False u qs] captured_none by blast

lemma captured_same:
  "captured runtime True s t ps \<Longrightarrow> kc_issuer_script_results u = kc_issuer_script_results t \<Longrightarrow>
   kc_world u = kc_world t \<Longrightarrow> same_setting t u \<Longrightarrow> captured runtime True s u ps"
  using captured_trans [of runtime s t ps True u "[]"] by (simp add: captured_def)

lemma captured_unchanged:
  "captured runtime False s t ps \<Longrightarrow> kc_issuer_script_results u = kc_issuer_script_results t \<Longrightarrow> captured runtime False s u ps"
  by (simp add: captured_def)

lemma captured_from:
  "kc_issuer_script_results s' = kc_issuer_script_results s \<Longrightarrow> kc_world s' = kc_world s \<Longrightarrow> same_setting s s' \<Longrightarrow>
   captured runtime whole s' t ps \<Longrightarrow> captured runtime whole s t ps"
  using captured_trans [of runtime s s' "[]" whole t ps] by (simp add: captured_def)

text \<open>One command: the answer, its status word and what is captured of it.\<close>

lemma send_command_answer:
  assumes "send_command runtime command c s = (Inr (body, sw), t)"
  obtains response where "transmit_apdu_with_followups runtime command (apdu_timeout s) c s = (Inr response, t)"
    "2 \<le> length response" "sw = status_of response"
  using assms
  by (auto simp: send_command_def krun_simps response_body_and_status_def status_of_def numeral_2_eq_2 Suc_diff_Suc
      not_less Let_def split: if_splits)

lemma captured_one:
  assumes c: "issuer_script_command_is_critical s command = Inr critical"
    and send: "send_command runtime command (IssuerScript critical) s = (Inr (body, sw), s\<lparr>kc_world := u\<rparr>)"
    and go_on: "whole \<Longrightarrow> issuer_script_status_of (classify (IssuerScript critical) sw) = Inr ScriptContinue"
  shows "captured runtime whole s (s\<lparr>kc_world := u, kc_issuer_script_results := kc_issuer_script_results s @
     [\<lparr>cis_phase = phase, cis_script_index = script_index, cis_command_index = command_index,
       cis_script_identifier = identifier, cis_result = \<lparr>scr_sw1 = sw1 sw, scr_sw2 = sw2 sw\<rparr>\<rparr>]\<rparr>)
     [((phase, script_index, command_index, identifier), command)]"
proof -
  from send_command_answer [OF send] obtain response
    where r: "transmit_apdu_with_followups runtime command (apdu_timeout s) (IssuerScript critical) s =
        (Inr response, s\<lparr>kc_world := u\<rparr>)" "2 \<le> length response" and sw: "sw = status_of response" .
  let ?log = "[(((phase, script_index, command_index, identifier), command), response)]"
  have "script_log runtime whole s ?log (kc_world s) u"
    using c r go_on by (auto simp: sw)
  then show ?thesis unfolding captured_def
    by (intro exI [of _ ?log] exI [of _ u]) (simp add: captured_result_def same_setting_def sw status_of_def)
qed

lemma run_script_commands_captured:
  "kwp (run_script_commands runtime phase script_index identifier n commands) s
     (\<lambda>(results, failed) t. kc_fsm_state t = kc_fsm_state s \<and> kc_host_response t = kc_host_response s \<and>
        captured runtime (\<not> failed) s t (planned_commands phase script_index identifier n commands))
     (\<lambda>e t. captured runtime False s t (planned_commands phase script_index identifier n commands))"
proof (induction commands arbitrary: s n)
  case Nil
  then show ?case by (simp add: kwp_simps captured_refl)
next
  case (Cons command rest)
  let ?item = "((phase, script_index, word_of_nat n :: u16, identifier), command)"
  let ?rest = "planned_commands phase script_index identifier (Suc n) rest"
  let ?Q = "\<lambda>(results :: script_command_result list, failed) t. kc_fsm_state t = kc_fsm_state s \<and>
      kc_host_response t = kc_host_response s \<and> captured runtime (\<not> failed) s t (?item # ?rest)"
  let ?E = "\<lambda>(e :: kernel_error) t. captured runtime False s t (?item # ?rest)"
  have tail: "kwp (kbind (run_script_commands runtime phase script_index identifier (Suc n) rest)
      (\<lambda>(results, failed). kret (r # results, failed))) u ?Q ?E"
    if u: "captured runtime True s u [?item]" "kc_fsm_state u = kc_fsm_state s" "kc_host_response u = kc_host_response s" for r u
    unfolding kwp_kbind
    by (rule kwp_mono [OF Cons.IH]) (use u captured_trans [OF u(1)] in \<open>auto simp: kwp_simps\<close>)
  have split: "planned_commands phase script_index identifier n (command # rest) = ?item # ?rest" by simp
  have early: "captured runtime False s t [?item] \<Longrightarrow> captured runtime False s t (?item # ?rest)" for t
    using captured_more [of runtime s t "[?item]" ?rest] by simp
  show ?case
    unfolding run_script_commands.simps split
    by (auto simp: kwp_kask kwp_klift kwp_kbind [of "klift x" for x] kwp_kbind [of "kask x" for x]
        kwp_kbind [of "send_command r c a" for r c a] kwp_kbind [of "kmod g" for g] kwp_kmod kwp_send_command
        kwp_kret u16_try_from_def captured_none
        intro!: tail captured_one early split: prod.splits if_splits issuer_script_status.splits)
qed

lemma identifier_array_same: "issuer_script_identifier_array i = Inr j \<Longrightarrow> j = i"
  by (auto simp: issuer_script_identifier_array_def split: option.splits if_splits)

fun script_running_state :: "script_phase \<Rightarrow> fsm_state" where
  "script_running_state BeforeFinalGenerateAc = S13Script"
| "script_running_state AfterFinalGenerateAc = S15Script"

lemma conclude_script_post:
  assumes "kc_fsm_state u = script_running_state phase"
  shows "kwp (conclude_script phase results failed) u
     (\<lambda>_ t. \<not> failed \<and> kc_fsm_state t = script_phase_state phase \<and> kc_host_response t = kc_host_response u \<and>
        kc_issuer_script_results t = kc_issuer_script_results u \<and> kc_world t = kc_world u \<and> same_setting u t)
     (\<lambda>_ t. kc_issuer_script_results t = kc_issuer_script_results u)"
  using assms
  by (cases phase; cases failed; cases "list_all (\<lambda>result. scr_sw1 result = 0x90 \<and> scr_sw2 result = 0x00) results")
    (simp_all add: conclude_script_def store_script_summary_def kwp_simps Let_def transition_eqs same_setting_def)

lemma script_available:
  "kwp (apply_transition EvScriptAvailable) s Q E \<longleftrightarrow>
     Q () (s\<lparr>kc_fsm_state := script_running_state phase\<rparr>)" if "kc_fsm_state s = script_phase_state phase"
  using that by (cases phase) (simp_all add: kwp_simps transition_eqs)

lemma run_one_script_captured:
  assumes state: "kc_fsm_state s = script_phase_state (script_phase script)"
  shows "kwp (run_one_script runtime n script) s
     (\<lambda>_ t. kc_fsm_state t = kc_fsm_state s \<and> kc_host_response t = kc_host_response s \<and>
        captured runtime True s t (script_plan n [script]))
     (\<lambda>e t. captured runtime False s t (script_plan n [script]))"
proof -
  let ?u = "s\<lparr>kc_fsm_state := script_running_state (script_phase script)\<rparr>"
  have base: "captured runtime whole ?u t ps \<Longrightarrow> captured runtime whole s t ps" for t ps whole
    by (rule captured_from) (simp_all add: same_setting_def)
  have tail: "kwp (conclude_script (script_phase script) results failed) t
     (\<lambda>_ t. kc_fsm_state t = kc_fsm_state s \<and> kc_host_response t = kc_host_response s \<and> captured runtime True s t ps)
     (\<lambda>e t. captured runtime False s t ps)"
    if "kc_fsm_state t = kc_fsm_state ?u" "kc_host_response t = kc_host_response ?u" "captured runtime (\<not> failed) ?u t ps"
    for t ps failed results
  proof (rule kwp_mono [OF conclude_script_post])
    show "kc_fsm_state t = script_running_state (script_phase script)" using that(1) by simp
  next
    fix e :: kernel_error and v :: "'a krn_context"
    assume "kc_issuer_script_results v = kc_issuer_script_results t"
    then show "captured runtime False s v ps"
      using base [OF that(3)] captured_unchanged captured_first [of runtime s t ps v "[]"] by (cases failed) auto
  next
    fix a :: unit and v :: "'a krn_context"
    assume "\<not> failed \<and> kc_fsm_state v = script_phase_state (script_phase script) \<and> kc_host_response v = kc_host_response t \<and>
      kc_issuer_script_results v = kc_issuer_script_results t \<and> kc_world v = kc_world t \<and> same_setting t v"
    then show "kc_fsm_state v = kc_fsm_state s \<and> kc_host_response v = kc_host_response s \<and> captured runtime True s v ps"
      using that(2) base [OF that(3)] captured_same [of runtime s t ps v] by (simp add: state)
  qed
  show ?thesis
    unfolding run_one_script_def
    by (auto simp: kwp_klift kwp_kbind u16_try_from_def captured_none script_available [OF state] kwp_prod
        dest!: identifier_array_same intro!: kwp_mono [OF run_script_commands_captured] tail base split: if_splits)
qed

lemma run_scripts_loop_captured:
  "list_all (\<lambda>script. script_phase script = phase) scripts \<Longrightarrow> kc_fsm_state s = script_phase_state phase \<Longrightarrow>
   kwp (run_scripts_loop runtime n scripts) s
     (\<lambda>_ t. kc_fsm_state t = kc_fsm_state s \<and> captured runtime True s t (script_plan n scripts))
     (\<lambda>e t. captured runtime False s t (script_plan n scripts))"
proof (induction scripts arbitrary: s n)
  case Nil
  then show ?case by (simp add: kwp_simps captured_refl)
next
  case (Cons script rest)
  have one: "script_plan n (script # rest) = script_plan n [script] @ script_plan (Suc n) rest"
    by simp
  show ?case unfolding run_scripts_loop.simps kwp_kbind one
    apply (rule kwp_mono [OF run_one_script_captured])
    subgoal using Cons.prems by simp
    subgoal for a t
      by (rule kwp_mono [OF Cons.IH]) (use Cons.prems in \<open>auto intro: captured_trans simp del: script_plan.simps\<close>)
    subgoal by (rule captured_more)
    done
qed

text \<open>The scripts of a phase, and the number of the phase in the state machine.\<close>

definition scripts_of :: "script_phase \<Rightarrow> host_response \<Rightarrow> issuer_script list" where
  "scripts_of phase response = filter (\<lambda>s. script_phase s = phase) (hr_scripts response)"

lemma run_issuer_scripts_for_phase_captured:
  "kwp (run_issuer_scripts_for_phase runtime phase) s
     (\<lambda>_ t. kc_fsm_state s = script_phase_state phase \<and> kc_state t = state_after_script_phase phase \<and>
        kc_fsm_state t = (case phase of BeforeFinalGenerateAc \<Rightarrow> S14 | AfterFinalGenerateAc \<Rightarrow> S16) \<and>
        (\<exists>response. kc_host_response s = Some response \<and> captured runtime True s t (script_plan 0 (scripts_of phase response))))
     (\<lambda>e t. case kc_host_response s of
        None \<Rightarrow> captured runtime False s t []
      | Some response \<Rightarrow> captured runtime False s t (script_plan 0 (scripts_of phase response)))"
proof -
  have finish: "kwp (kbind (apply_transition EvNoMoreScripts) (\<lambda>_. set_kernel_state (state_after_script_phase phase))) t
     (\<lambda>_ u. kc_state u = state_after_script_phase phase \<and>
        kc_fsm_state u = (case phase of BeforeFinalGenerateAc \<Rightarrow> S14 | AfterFinalGenerateAc \<Rightarrow> S16) \<and>
        kc_issuer_script_results u = kc_issuer_script_results t \<and> kc_world u = kc_world t \<and> same_setting t u) (\<lambda>_ _. False)"
    if "kc_fsm_state t = script_phase_state phase" for t :: "'a krn_context"
    using that by (cases phase) (simp_all add: kwp_simps transition_eqs same_setting_def)
  show ?thesis
    unfolding run_issuer_scripts_for_phase_def kwp_kbind [of "require_fsm_state a" for a] kwp_require_fsm_state
      kwp_kbind [of "kask f" for f] kwp_kask
  proof (split if_split, intro conjI impI allI)
    assume "kc_fsm_state s \<noteq> script_phase_state phase"
    show "case kc_host_response s of
        None \<Rightarrow> captured runtime False s s []
      | Some response \<Rightarrow> captured runtime False s s (script_plan 0 (scripts_of phase response))"
      by (auto simp: captured_none split: option.split)
  next
    fix e
    assume "ok_or (map_option (\<lambda>response. filter (\<lambda>s. script_phase s = phase) (hr_scripts response))
         (kc_host_response s)) InvalidArgument = Inl e"
    then show "case kc_host_response s of
        None \<Rightarrow> captured runtime False s s []
      | Some response \<Rightarrow> captured runtime False s s (script_plan 0 (scripts_of phase response))"
      by (auto simp: captured_none split: option.split)
  next
    fix scripts
    assume state: "kc_fsm_state s = script_phase_state phase"
      and "ok_or (map_option (\<lambda>response. filter (\<lambda>s. script_phase s = phase) (hr_scripts response))
         (kc_host_response s)) InvalidArgument = Inr scripts"
    then obtain response where r: "kc_host_response s = Some response" "scripts = scripts_of phase response"
      by (auto simp: krn_simps scripts_of_def)
    have "list_all (\<lambda>script. script_phase script = phase) scripts"
      by (simp add: r scripts_of_def list_all_iff)
    from run_scripts_loop_captured [OF this state]
    show "kwp (kbind (run_scripts_loop runtime 0 scripts) (\<lambda>_.
         kbind (apply_transition EvNoMoreScripts) (\<lambda>_. set_kernel_state (state_after_script_phase phase)))) s
       (\<lambda>_ t. kc_fsm_state s = script_phase_state phase \<and> kc_state t = state_after_script_phase phase \<and>
          kc_fsm_state t = (case phase of BeforeFinalGenerateAc \<Rightarrow> S14 | AfterFinalGenerateAc \<Rightarrow> S16) \<and>
          (\<exists>response. kc_host_response s = Some response \<and> captured runtime True s t (script_plan 0 (scripts_of phase response))))
       (\<lambda>e t. case kc_host_response s of
          None \<Rightarrow> captured runtime False s t []
        | Some response \<Rightarrow> captured runtime False s t (script_plan 0 (scripts_of phase response)))"
      unfolding kwp_kbind [of "run_scripts_loop a b c" for a b c]
      by (rule kwp_mono) (auto simp: r state intro!: kwp_mono [OF finish] intro: captured_same)
  qed
qed

section \<open>The final cryptogram decides\<close>

text \<open>Asking for a cryptogram and storing the answer leave the decisions alone.\<close>

definition same_decision :: "'w krn_context \<Rightarrow> 'w krn_context \<Rightarrow> bool" where
  "same_decision s t \<longleftrightarrow> kc_final_outcome t = kc_final_outcome s \<and> kc_final_gac_response t = kc_final_gac_response s"

interpretation sd: step_relation same_decision
  by unfold_locales (simp_all add: same_decision_def)

lemma same_decision_world: "within only_world m \<Longrightarrow> within same_decision m"
  by (erule within_only_world) (simp add: same_decision_def)

lemma same_decision_transition: "within same_decision (apply_transition event)"
  unfolding apply_transition_def by (intro sd.within_rules) (simp add: same_decision_def)

lemma same_decision_put_card_data: "within same_decision (put_card_data tag v)"
  unfolding put_card_data_def by (intro sd.within_rules) (simp add: same_decision_def)

lemma same_decision_ignore: "within same_decision m \<Longrightarrow> within same_decision (ignore_result m)"
  by (simp add: within_def ignore_result_def)

lemma same_decision_gac_success: "within same_decision (require_generate_ac_success sw event)"
  unfolding require_generate_ac_success_def
  by (auto intro!: sd.within_rules sd.within_if same_decision_ignore same_decision_transition split: sum.split)

lemma same_decision_request: "within same_decision (request_cryptogram runtime request cdol (kret control) event)"
  unfolding request_cryptogram_def
  by (intro sd.within_rules same_decision_world [OF only_world_send] same_decision_gac_success)

lemma same_decision_store: "within same_decision (store_gac_response parsed)"
  unfolding store_gac_response_def
  by (auto intro!: sd.within_rules sd.within_if same_decision_put_card_data split: option.split)

lemma kwp_same_decision:
  "within same_decision m \<Longrightarrow> kwp m s (\<lambda>_ t. same_decision s t) (\<lambda>_ t. same_decision s t)"
  by (rule kwp_within) auto

lemma only_results_fields:
  "only_results s t \<Longrightarrow> kc_fsm_state t = kc_fsm_state s \<and> kc_host_response t = kc_host_response s"
  and only_world_fields:
  "only_world s t \<Longrightarrow> kc_fsm_state t = kc_fsm_state s \<and> kc_host_response t = kc_host_response s"
  by (auto simp: only_results_def only_world_def)

lemma kwp_ignore_result: "kwp (ignore_result m) s Q E \<longleftrightarrow> Q () (snd (m s))"
  by (simp add: kwp_def ignore_result_def)

lemma conclude_final_gac_post:
  assumes "kc_fsm_state s = S14" and "same_decision s0 s"
  shows "kwp (conclude_final_gac parsed) s
    (\<lambda>_ t. kc_fsm_state t = S15 \<and> kc_state t = K_PostFinalIssuerScripts \<and> kc_final_gac_response t = Some parsed \<and>
      (cryptogram_type_of (gac_cid parsed) = Tc \<and> kc_final_outcome t = Some ApprovedOnline \<or>
       cryptogram_type_of (gac_cid parsed) = Aac \<and> kc_final_outcome t = Some DeclinedOnline))
    (\<lambda>_ t. same_decision s0 t)"
proof -
  obtain r u where u: "apply_transition EvGac2Failed s = (r, u)" by fastforce
  have "same_decision s0 (snd (apply_transition EvGac2Failed s))"
    using withinD [OF same_decision_transition u] sd.R_trans [OF assms(2)] by (simp add: u)
  then show ?thesis using assms
    by (cases "cryptogram_type_of (gac_cid parsed)")
      (auto simp: conclude_final_gac_def kwp_simps kwp_ignore_result transition_eqs)
qed

lemma run_final_generate_ac_post:
  "kwp (run_final_generate_ac runtime) s
    (\<lambda>_ t. kc_fsm_state s = S14 \<and> kc_fsm_state t = S15 \<and> kc_state t = K_PostFinalIssuerScripts \<and>
      (case ds_get (kc_card_data s) [0x8d] of
         None \<Rightarrow> kc_final_gac_response t = kc_final_gac_response s \<and>
           kc_final_outcome t = map_option (\<lambda>response. final_outcome_for_host_arc (hr_authorization_response_code response))
             (kc_host_response s)
       | Some cdol2 \<Rightarrow> \<exists>parsed. kc_final_gac_response t = Some parsed \<and>
           (cryptogram_type_of (gac_cid parsed) = Tc \<and> kc_final_outcome t = Some ApprovedOnline \<or>
            cryptogram_type_of (gac_cid parsed) = Aac \<and> kc_final_outcome t = Some DeclinedOnline)))
    (\<lambda>_ t. same_decision s t)"
proof (cases "kc_fsm_state s = S14 \<and> kc_host_response s \<noteq> None")
  case False
  then show ?thesis
    by (auto simp: run_final_generate_ac_def kwp_simps sd.R_refl)
next
  case True
  then obtain response where S14: "kc_fsm_state s = S14" and r: "kc_host_response s = Some response" by auto
  show ?thesis
  proof (cases "ds_get (kc_card_data s) [0x8d]")
    case None
    then show ?thesis using S14 r
      by (auto simp: run_final_generate_ac_def kwp_simps transition_eqs sd.R_refl)
  next
    case (Some cdol2)
    let ?P = "\<lambda>t. kc_fsm_state t = S14 \<and> same_decision s t"
    let ?Q = "\<lambda>(_ :: unit) t. kc_fsm_state t = S15 \<and> kc_state t = K_PostFinalIssuerScripts \<and>
       (\<exists>parsed. kc_final_gac_response t = Some parsed \<and>
           (cryptogram_type_of (gac_cid parsed) = Tc \<and> kc_final_outcome t = Some ApprovedOnline \<or>
            cryptogram_type_of (gac_cid parsed) = Aac \<and> kc_final_outcome t = Some DeclinedOnline))"
    have keep: "kwp m t (\<lambda>_. ?P) (\<lambda>_ t. same_decision s t)"
      if "within same_decision m" "kpost m t (\<lambda>_ u. kc_fsm_state u = kc_fsm_state t)" "?P t"
      for m :: "('a krn_context, 'b) krn" and t
      using kwp_conj [OF kwp_same_decision [OF that(1)] that(2)]
      by (rule kwp_mono) (use that(3) in \<open>auto intro: sd.R_trans\<close>)
    have results: "kpost m t (\<lambda>_ u. kc_fsm_state u = kc_fsm_state t)" if "within only_results m"
      for m :: "('a krn_context, 'b) krn" and t
      by (rule kwp_within [OF that]) (auto dest: only_results_fields)
    have step: "kwp (kbind m f) t ?Q (\<lambda>_ t. same_decision s t)"
      if "within same_decision m" "kpost m t (\<lambda>_ u. kc_fsm_state u = kc_fsm_state t)" "?P t"
        "\<And>a u. ?P u \<Longrightarrow> kwp (f a) u ?Q (\<lambda>_ t. same_decision s t)"
      for m :: "('a krn_context, 'b) krn" and f t
      unfolding kwp_kbind by (rule kwp_mono [OF keep [OF that(1-3)]]) (use that(4) in auto)
    note put = only_results_put_tvr only_results_put_tsi
    have put_keep: "within same_decision put_tvr" "within same_decision put_tsi"
      unfolding put_tvr_def put_tsi_def by (intro sd.within_rules same_decision_put_card_data)+
    have main: "kwp (kbind put_tvr (\<lambda>_. kbind put_tsi (\<lambda>_. kbind (klift (parse_dol cdol2)) (\<lambda>cdol.
         kbind (request_cryptogram runtime (final_gac_request host_arc) cdol (kret NotRequested) EvGac2Failed) (\<lambda>parsed.
         kbind (store_gac_response parsed) (\<lambda>_. conclude_final_gac parsed)))))) s ?Q (\<lambda>_ t. same_decision s t)" for host_arc
      apply (rule step [OF put_keep(1) results [OF put(1)]], simp add: S14 sd.R_refl)
      apply (rule step [OF put_keep(2) results [OF put(2)]], assumption)
      apply (rule step [OF sd.within_klift], simp add: kwp_klift, assumption)
      apply (rule step [OF same_decision_request])
        apply (rule kwp_mono [OF kpost_request_cryptogram [OF ow.within_kret]], drule only_world_fields, simp, simp, assumption)
      apply (rule step [OF same_decision_store results [OF only_results_store]], assumption)
      apply (rule kwp_mono [OF conclude_final_gac_post], auto)
      done
    show ?thesis using Some S14 r main
      by (simp add: run_final_generate_ac_def kwp_kbind [of "require_fsm_state a" for a] kwp_require_fsm_state
          kwp_kbind [of "kask f" for f] kwp_kask)
  qed
qed

section \<open>Properties\<close>

text \<open>C3: A run over the scripts of a phase sends their commands to the card in the host's order,
  each with its follow-up exchanges and in the environment that the one before left, and captures
  for each the status word of the card's answer, with the phase, the script, the index of the
  command and the identifier.  A run that succeeds sent every command, every answer let the scripts
  go on, no other command was sent, and the machine is ready for the final cryptogram, or done.  A
  run that fails captured the answers to the first commands, and all of these but the last let the
  scripts go on.\<close>

theorem scripts_captured_in_order:
  "case run_issuer_scripts_for_phase runtime phase ctx of (r, ctx') \<Rightarrow>
     \<exists>log w. kc_issuer_script_results ctx' = kc_issuer_script_results ctx @
          map (\<lambda>((place, command), response). captured_result place response) log \<and>
       (let plan = (case kc_host_response ctx of
              None \<Rightarrow> [] | Some response \<Rightarrow> script_plan 0 (scripts_of phase response))
        in case r of
             Inr _ \<Rightarrow> script_log runtime True ctx log (kc_world ctx) w \<and> w = kc_world ctx' \<and>
               map fst log = plan \<and>
               kc_fsm_state ctx' = (case phase of BeforeFinalGenerateAc \<Rightarrow> S14 | AfterFinalGenerateAc \<Rightarrow> S16)
           | Inl _ \<Rightarrow> script_log runtime False ctx log (kc_world ctx) w \<and> prefix (map fst log) plan)"
  using run_issuer_scripts_for_phase_captured [of runtime phase ctx]
  by (fastforce simp: kwp_def captured_def Let_def split: prod.splits sum.splits option.splits)

text \<open>C2: The final decision is the card's: when the card has a second list of data objects the outcome
  is approved exactly with a transaction certificate and declined exactly with a decline
  cryptogram; without the list it is the host's code that decides; and a run that fails decides
  nothing.\<close>

theorem final_cryptogram_decides:
  "case run_final_generate_ac runtime ctx of
     (Inl _, ctx') \<Rightarrow> kc_final_outcome ctx' = kc_final_outcome ctx \<and>
       kc_final_gac_response ctx' = kc_final_gac_response ctx
   | (Inr _, ctx') \<Rightarrow> kc_fsm_state ctx = S14 \<and> kc_fsm_state ctx' = S15 \<and>
       (case ds_get (kc_card_data ctx) [0x8d] of
          None \<Rightarrow> kc_final_outcome ctx' = map_option (\<lambda>response.
              if hr_authorization_response_code response = [0x30, 0x30] then ApprovedOnline else DeclinedOnline)
            (kc_host_response ctx)
        | Some _ \<Rightarrow> \<exists>parsed. kc_final_gac_response ctx' = Some parsed \<and>
            kc_final_outcome ctx' = (if cryptogram_type_of (gac_cid parsed) = Tc
              then Some ApprovedOnline else Some DeclinedOnline) \<and>
            cryptogram_type_of (gac_cid parsed) \<in> {Tc, Aac})"
  using run_final_generate_ac_post [of runtime ctx]
  by (auto simp: kwp_def same_decision_def final_outcome_for_host_arc_def split: prod.splits sum.splits option.splits)

end
