(* ===== verification/Emv_Writer.thy ===== *)
theory Emv_Writer
  imports Emv_Json
begin

text \<open>
  The JSON writers that the modules share in their own copies (here after \<open>src/src/provenance.rs\<close>), and
  why what they write is JSON.  A text is the bytes of its UTF-8 encoding; a byte of an ASCII text
  is a character.
\<close>

unbundle bit_operations_syntax

section \<open>Writing JSON\<close>

definition HEX_DIGITS :: bytes where "HEX_DIGITS = ascii ''0123456789abcdef''"

definition hex_byte :: "byte \<Rightarrow> bytes" where
  "hex_byte b = [HEX_DIGITS ! unat (drop_bit 4 b), HEX_DIGITS ! unat (b AND 0x0f)]"

definition to_hex :: "bytes \<Rightarrow> bytes" where
  "to_hex bs = concat (map hex_byte bs)"

definition json_escape_char :: "byte \<Rightarrow> bytes" where
  "json_escape_char b =
     (if b = 0x22 then [0x5c, 0x22] else if b = 0x5c then [0x5c, 0x5c] else if b = 0x0a then [0x5c, 0x6e]
      else if b = 0x0d then [0x5c, 0x72] else if b = 0x09 then [0x5c, 0x74]
      else if b < 0x20 \<or> b = 0x7f then [0x5c, 0x75, 0x30, 0x30] @ hex_byte b else [b])"

definition push_json_str :: "string \<Rightarrow> bytes \<Rightarrow> bytes" where
  "push_json_str key v = [0x22] @ ascii key @ [0x22, 0x3a, 0x22] @ concat (map json_escape_char v) @ [0x22]"

text \<open>\<open>{}\<close> of a number.\<close>

fun decimal :: "nat \<Rightarrow> bytes" where
  "decimal n = (if n < 10 then [word_of_nat (48 + n)] else decimal (n div 10) @ [word_of_nat (48 + n mod 10)])"

declare decimal.simps [simp del]

definition push_json_number :: "string \<Rightarrow> nat \<Rightarrow> bytes" where
  "push_json_number key n = [0x22] @ ascii key @ [0x22, 0x3a] @ decimal n"

text \<open>The elements of an array or the members of an object, with commas between.\<close>

definition join :: "bytes list \<Rightarrow> bytes" where
  "join texts = concat (map (\<lambda>(i, t). (if (i :: nat) > 0 then [0x2c] else []) @ t) (zip [0..<length texts] texts))"

section \<open>The written texts are JSON\<close>

lemma byte_char_of_char: "byte_char (of_char c) = c"
proof -
  have "of_char c = (word_of_nat (of_char c) :: byte)" by (simp add: of_nat_of_char)
  then show ?thesis by (simp add: byte_char_def unsigned_of_nat take_bit_nat_eq_self)
qed

definition key_char :: "char \<Rightarrow> bool" where
  "key_char c \<longleftrightarrow> (let b = of_char c :: byte in b \<noteq> 0x22 \<and> b \<noteq> 0x5c \<and> \<not> b \<le> 0x1f)"

lemma string_body_key: "list_all key_char k \<Longrightarrow> string_body k (ascii k)"
proof (induction k)
  case (Cons c k)
  then have "string_body (byte_char (of_char c) # k) (of_char c # ascii k)"
    by (intro body_raw) (auto simp: key_char_def Let_def)
  then show ?case by (simp add: byte_char_of_char ascii_def)
qed (simp add: ascii_def body_end)

text \<open>What the parser can read back: a control character without an escape of its own it cannot.\<close>

definition readable_char :: "byte \<Rightarrow> bool" where
  "readable_char b \<longleftrightarrow> 0x20 \<le> b \<and> b \<noteq> 0x7f \<or> b \<in> {0x09, 0x0a, 0x0d}"

lemma string_body_escaped:
  "list_all readable_char bs \<Longrightarrow> string_body (map byte_char bs) (concat (map json_escape_char bs))"
proof (induction bs)
  case (Cons b bs)
  then have b: "readable_char b" and IH: "string_body (map byte_char bs) (concat (map json_escape_char bs))" by simp_all
  show ?case
  proof (cases "b \<in> {0x22, 0x5c, 0x0a, 0x0d, 0x09}")
    case True
    have chars: "char_of (0x22 :: nat) = CHR 0x22" "char_of (0x5c :: nat) = CHR 0x5c" "char_of (0x0a :: nat) = CHR 0x0a"
      "char_of (0x0d :: nat) = CHR 0x0d" "char_of (0x09 :: nat) = CHR 0x09" by code_simp+
    with True obtain e where e: "json_escape_char b = [0x5c, e]" "json_escape e = Some (byte_char b)"
      by (auto simp: json_escape_char_def json_escape_def byte_char_def)
    from body_escape [OF e(2) IH] show ?thesis by (simp add: e(1))
  next
    case False
    with b have "json_escape_char b = [b]" "b \<noteq> 0x22" "b \<noteq> 0x5c" "\<not> b \<le> 0x1f"
      by (auto simp: json_escape_char_def readable_char_def not_less word_le_nat_alt word_less_nat_alt)
    with body_raw [OF this(2-4) IH] show ?thesis by simp
  qed
qed (simp add: body_end)

lemma digits_value_snoc: "digits_value (ds @ [d]) = 10 * digits_value ds + (unat d - 0x30)"
  by (simp add: digits_value_def)

lemma unat_decimal_digit: "n < 10 \<Longrightarrow> unat (word_of_nat (48 + n) :: byte) = 48 + n"
  by (simp only: unsigned_of_nat) (simp add: take_bit_nat_eq_self)

lemma json_digit_decimal: "n < 10 \<Longrightarrow> json_digit (word_of_nat (48 + n))"
  unfolding json_digit_def word_le_nat_alt by (simp only: unat_decimal_digit) simp

lemma decimal_digit_zero: "n < 10 \<Longrightarrow> word_of_nat (48 + n) = (0x30 :: byte) \<Longrightarrow> n = 0"
  using unat_decimal_digit [of n] by simp

lemma decimal_digits:
  "decimal n \<noteq> [] \<and> list_all json_digit (decimal n) \<and> digits_value (decimal n) = n \<and>
     (hd (decimal n) = 0x30 \<longrightarrow> n = 0)"
proof (induction n rule: less_induct)
  case (less n)
  show ?case
  proof (cases "n < 10")
    case True
    then have "decimal n = [word_of_nat (48 + n)]" by (simp add: decimal.simps [of n])
    moreover have "digits_value [word_of_nat (48 + n)] = n"
      unfolding digits_value_def foldl.simps unat_decimal_digit [OF True] by simp
    ultimately show ?thesis
      using json_digit_decimal [OF True] decimal_digit_zero [OF True] by (simp del: of_nat_add)
  next
    case False
    then have d: "decimal n = decimal (n div 10) @ [word_of_nat (48 + n mod 10)]" by (simp add: decimal.simps [of n])
    have "digits_value (decimal n) = n"
      unfolding d digits_value_snoc using less.IH [of "n div 10"] False by (subst unat_decimal_digit) simp_all
    with less.IH [of "n div 10"] False json_digit_decimal [of "n mod 10"] show ?thesis
      by (auto simp: d simp del: of_nat_add)
  qed
qed

lemma number_text_decimal: "n < 2 ^ 64 \<Longrightarrow> number_text (word_of_nat n) (decimal n)"
proof -
  assume n: "n < 2 ^ 64"
  have "\<not> (length (decimal n) > 1 \<and> hd (decimal n) = 0x30)"
    using decimal_digits [of n] by (auto simp: decimal.simps [of 0])
  with decimal_digits [of n] n show ?thesis unfolding number_text_def by metis
qed

text \<open>Values as they are written, and the members and elements they stand in.\<close>

lemma written_string: "list_all readable_char v \<Longrightarrow>
    json_text (JsonString (map byte_char v)) (0x22 # concat (map json_escape_char v) @ [0x22])"
  using text_string [of "[]", OF _ string_body_escaped] by (simp add: ws_text_def)

lemma written_number: "n < 2 ^ 64 \<Longrightarrow> json_text (JsonNumber (word_of_nat n)) (decimal n)"
  using text_number [of "[]", OF _ number_text_decimal] by (simp add: ws_text_def)

lemma written_member:
  "list_all key_char k \<Longrightarrow> json_text v vt \<Longrightarrow> members_text [(k, v)] (0x22 # ascii k @ [0x22, 0x3a] @ vt @ [0x7d])"
  "list_all key_char k \<Longrightarrow> json_text v vt \<Longrightarrow> members_text ms t \<Longrightarrow> k \<notin> fst ` set ms \<Longrightarrow>
     members_text ((k, v) # ms) (0x22 # ascii k @ [0x22, 0x3a] @ vt @ [0x2c] @ t)"
  using last_member [of "[]" k "ascii k" "[]" v vt "[]"] next_member [of "[]" k "ascii k" "[]" v vt "[]" ms t]
  by (simp_all add: ws_text_def string_body_key)

lemma join_Cons: "join (t # ts) = t @ concat (map (\<lambda>t. 0x2c # t) ts)"
proof -
  have "map (\<lambda>(i, t). (if (i :: nat) > 0 then [0x2c] else []) @ t) (zip [1..<Suc (length ts)] ts) = map (\<lambda>t. 0x2c # t) ts"
    by (rule nth_equalityI) (auto simp del: upt_Suc)
  then show ?thesis by (simp add: join_def upt_conv_Cons del: upt_Suc)
qed

lemma written_elements:
  "list_all2 json_text vs ts \<Longrightarrow> vs \<noteq> [] \<Longrightarrow> elements_text vs (join ts @ [0x5d])"
proof (induction vs ts rule: list_all2_induct)
  case (Cons v vs t ts)
  show ?case
  proof (cases vs)
    case Nil
    with Cons have "ts = []" by simp
    with Nil Cons.hyps last_element [of v t "[]"] show ?thesis by (simp add: join_Cons ws_text_def)
  next
    case (Cons v' vs')
    with \<open>list_all2 json_text vs ts\<close> obtain t' ts' where ts: "ts = t' # ts'" by (cases ts) auto
    have "elements_text vs (join ts @ [0x5d])" using Cons.IH Cons by simp
    from next_element [OF \<open>json_text v t\<close>, of "[]", OF _ this] show ?thesis
      by (simp add: join_Cons ts ws_text_def)
  qed
qed simp

lemma written_array:
  "list_all2 json_text vs ts \<Longrightarrow> vs \<noteq> [] \<Longrightarrow> json_text (JsonArray vs) (0x5b # join ts @ [0x5d])"
  using text_array [of "[]", OF _ written_elements] by (simp add: ws_text_def)

lemma written_object: "members_text ms t \<Longrightarrow> json_text (JsonObject ms) (0x7b # t)"
  using text_object [of "[]"] by (simp add: ws_text_def)

lemma readable_hex: "list_all readable_char (to_hex bs)"
proof -
  have all: "list_all readable_char HEX_DIGITS" "length HEX_DIGITS = 16" by code_simp+
  have lt: "unat (drop_bit 4 b) < 16" "unat (b AND 0x0f) < 16" for b :: byte
  proof -
    have "unat b < 256" by (rule order_less_le_trans [OF unsigned_less]) simp
    moreover have "unat (drop_bit 4 b) = unat b div 2 ^ 4" by (subst unat_drop_bit_eq) (rule drop_bit_eq_div)
    ultimately show "unat (drop_bit 4 b) < 16" by (simp add: div_less_iff_less_mult)
    have "b AND 0x0f \<le> 0x0f" by (rule word_and_le1)
    then show "unat (b AND 0x0f) < 16" by (simp add: word_le_nat_alt)
  qed
  have "list_all readable_char (hex_byte b)" for b
    using all(1) [unfolded list_all_length all(2)] lt [of b] by (simp add: hex_byte_def)
  then show ?thesis by (simp add: to_hex_def list_all_iff)
qed

section \<open>Objects by their members\<close>

definition json_ascii :: "bytes \<Rightarrow> json_value" where
  "json_ascii bs = JsonString (map byte_char bs)"

lemma json_ascii_ascii: "json_ascii (ascii s) = JsonString s"
  by (induction s) (simp_all add: json_ascii_def ascii_def byte_char_of_char)

text \<open>An object as the list of its members: key, value and the text of the value.\<close>

type_synonym written_members = "(string \<times> json_value \<times> bytes) list"

definition member_text :: "string \<times> json_value \<times> bytes \<Rightarrow> bytes" where
  "member_text = (\<lambda>(k, v, t). 0x22 # ascii k @ [0x22, 0x3a] @ t)"

definition object_text :: "written_members \<Rightarrow> bytes" where
  "object_text ms = 0x7b # join (map member_text ms) @ [0x7d]"

definition object_value :: "written_members \<Rightarrow> json_value" where
  "object_value ms = JsonObject (map (\<lambda>(k, v, t). (k, v)) ms)"

definition members_written :: "written_members \<Rightarrow> bool" where
  "members_written ms \<longleftrightarrow> ms \<noteq> [] \<and> list_all (\<lambda>(k, v, t). list_all key_char k \<and> json_text v t) ms \<and> distinct (map fst ms)"

lemma written_members:
  "members_written ms \<Longrightarrow> members_text (map (\<lambda>(k, v, t). (k, v)) ms) (join (map member_text ms) @ [0x7d])"
proof (induction ms)
  case (Cons m ms)
  obtain k v t where m: "m = (k, v, t)" by (cases m) auto
  show ?case
  proof (cases ms)
    case Nil
    with Cons.prems written_member(1) [of k v t] show ?thesis
      by (simp add: members_written_def m join_Cons member_text_def)
  next
    case (Cons m' ms')
    with Cons.prems Cons.IH have IH: "members_text (map (\<lambda>(k, v, t). (k, v)) ms) (join (map member_text ms) @ [0x7d])"
      by (simp add: members_written_def)
    have "k \<notin> fst ` set (map (\<lambda>(k, v, t). (k, v)) ms)"
      using Cons.prems by (force simp: members_written_def m)
    with Cons.prems written_member(2) [of k v t, OF _ _ IH] Cons show ?thesis
      by (simp add: members_written_def m join_Cons member_text_def)
  qed
qed (simp add: members_written_def)

lemma written_object_text: "members_written ms \<Longrightarrow> json_text (object_value ms) (object_text ms)"
  unfolding object_value_def object_text_def by (intro written_object written_members)

lemma written_any_array:
  "list_all2 json_text vs ts \<Longrightarrow> json_text (JsonArray vs) (0x5b # join ts @ [0x5d])"
  using written_array [of vs ts] text_no_elements [of "[]" "[]"]
  by (cases vs) (auto simp: ws_text_def join_def)

definition str_member :: "string \<Rightarrow> bytes \<Rightarrow> string \<times> json_value \<times> bytes" where
  "str_member k v = (k, json_ascii v, 0x22 # concat (map json_escape_char v) @ [0x22])"

definition number_member :: "string \<Rightarrow> nat \<Rightarrow> string \<times> json_value \<times> bytes" where
  "number_member k n = (k, JsonNumber (word_of_nat n), decimal n)"

lemma str_member_text: "member_text (str_member k v) = push_json_str k v"
  and number_member_text: "member_text (number_member k n) = push_json_number k n"
  by (simp_all add: member_text_def str_member_def number_member_def push_json_str_def push_json_number_def)

lemma written_member_values:
  "list_all readable_char v \<Longrightarrow> json_text (fst (snd (str_member k v))) (snd (snd (str_member k v)))"
  "n < 2 ^ 64 \<Longrightarrow> json_text (fst (snd (number_member k n))) (snd (snd (number_member k n)))"
  by (simp_all add: str_member_def number_member_def json_ascii_def written_string written_number)

lemma written_keys_of: "fst (str_member k v) = k" "fst (number_member k n) = k"
  by (simp_all add: str_member_def number_member_def)

text \<open>A member that is written: its key needs no escapes, and its text denotes its value.\<close>

definition member_written :: "string \<times> json_value \<times> bytes \<Rightarrow> bool" where
  "member_written m \<longleftrightarrow> list_all key_char (fst m) \<and> json_text (fst (snd m)) (snd (snd m))"

lemma members_writtenI: "ms \<noteq> [] \<Longrightarrow> list_all member_written ms \<Longrightarrow> distinct (map fst ms) \<Longrightarrow> members_written ms"
  by (auto simp: members_written_def member_written_def list_all_iff)

lemma str_member_written: "list_all key_char k \<Longrightarrow> list_all readable_char v \<Longrightarrow> member_written (str_member k v)"
  and number_member_written: "list_all key_char k \<Longrightarrow> n < 2 ^ 64 \<Longrightarrow> member_written (number_member k n)"
  by (simp_all add: member_written_def written_keys_of written_member_values)

end
