(* ===== verification/Emv_Provenance.thy ===== *)
theory Emv_Provenance
  imports Emv_Sha1 Emv_Error "HOL-Library.List_Lexorder" "HOL-Library.Char_ord"
begin

text \<open>
  SHA-256 and the build manifest (\<open>src/src/provenance.rs\<close>).  The hash is compared with FIPS 180-4:
  the same padded message as SHA-1, and the schedule and rounds of SHA-256.
\<close>

unbundle bit_operations_syntax

section \<open>The hash\<close>

datatype sha256_words = H8 u32 u32 u32 u32 u32 u32 u32 u32

definition SHA256_H0 :: sha256_words where
  "SHA256_H0 = H8 0x6a09e667 0xbb67ae85 0x3c6ef372 0xa54ff53a 0x510e527f 0x9b05688c 0x1f83d9ab 0x5be0cd19"

definition SHA256_K :: "u32 list" where
  "SHA256_K = concat
    [[0x428a2f98, 0x71374491, 0xb5c0fbcf, 0xe9b5dba5], [0x3956c25b, 0x59f111f1, 0x923f82a4, 0xab1c5ed5],
     [0xd807aa98, 0x12835b01, 0x243185be, 0x550c7dc3], [0x72be5d74, 0x80deb1fe, 0x9bdc06a7, 0xc19bf174],
     [0xe49b69c1, 0xefbe4786, 0x0fc19dc6, 0x240ca1cc], [0x2de92c6f, 0x4a7484aa, 0x5cb0a9dc, 0x76f988da],
     [0x983e5152, 0xa831c66d, 0xb00327c8, 0xbf597fc7], [0xc6e00bf3, 0xd5a79147, 0x06ca6351, 0x14292967],
     [0x27b70a85, 0x2e1b2138, 0x4d2c6dfc, 0x53380d13], [0x650a7354, 0x766a0abb, 0x81c2c92e, 0x92722c85],
     [0xa2bfe8a1, 0xa81a664b, 0xc24b8b70, 0xc76c51a3], [0xd192e819, 0xd6990624, 0xf40e3585, 0x106aa070],
     [0x19a4c116, 0x1e376c08, 0x2748774c, 0x34b0bcb5], [0x391c0cb3, 0x4ed8aa4a, 0x5b9cca4f, 0x682e6ff3],
     [0x748f82ee, 0x78a5636f, 0x84c87814, 0x8cc70208], [0x90befffa, 0xa4506ceb, 0xbef9a3f7, 0xc67178f2]]"

definition sha256_schedule_step :: "nat \<Rightarrow> u32 list \<Rightarrow> u32 list" where
  "sha256_schedule_step idx w =
     (let s0 = word_rotr 7 (w ! (idx - 15)) XOR word_rotr 18 (w ! (idx - 15)) XOR drop_bit 3 (w ! (idx - 15));
          s1 = word_rotr 17 (w ! (idx - 2)) XOR word_rotr 19 (w ! (idx - 2)) XOR drop_bit 10 (w ! (idx - 2))
      in w[idx := w ! (idx - 16) + s0 + w ! (idx - 7) + s1])"

definition sha256_schedule :: "bytes \<Rightarrow> u32 list" where
  "sha256_schedule chunk = fold sha256_schedule_step [16..<64]
     (map (\<lambda>word. word_of_nat (be_value word)) (chunks_exact 4 chunk) @ replicate 48 0)"

definition sha256_round :: "u32 list \<Rightarrow> nat \<Rightarrow> sha256_words \<Rightarrow> sha256_words" where
  "sha256_round w idx v = (case v of H8 a b c d e f g hh \<Rightarrow>
     let s1 = word_rotr 6 e XOR word_rotr 11 e XOR word_rotr 25 e;
         ch = (e AND f) XOR (NOT e AND g);
         temp1 = hh + s1 + ch + SHA256_K ! idx + w ! idx;
         s0 = word_rotr 2 a XOR word_rotr 13 a XOR word_rotr 22 a;
         maj = (a AND b) XOR (a AND c) XOR (b AND c);
         temp2 = s0 + maj
     in H8 (temp1 + temp2) a b c (d + temp1) e f g)"

fun sha256_add :: "sha256_words \<Rightarrow> sha256_words \<Rightarrow> sha256_words" where
  "sha256_add (H8 a b c d e f g h) (H8 a' b' c' d' e' f' g' h') =
     H8 (a + a') (b + b') (c + c') (d + d') (e + e') (f + f') (g + g') (h + h')"

definition sha256_compress :: "sha256_words \<Rightarrow> bytes \<Rightarrow> sha256_words" where
  "sha256_compress h chunk = (let w = sha256_schedule chunk in sha256_add h (fold (sha256_round w) [0..<64] h))"

fun sha256_words_to_bytes :: "sha256_words \<Rightarrow> bytes" where
  "sha256_words_to_bytes (H8 a b c d e f g h) =
     concat (map (\<lambda>w. be_bytes 4 (unat w)) [a, b, c, d, e, f, g, h])"

text \<open>The one or two blocks that hold the rest of the message, the end mark and the bit length.\<close>

definition sha256_final_blocks :: "bytes \<Rightarrow> u64 \<Rightarrow> bytes list" where
  "sha256_final_blocks remainder bit_len =
     (let block0 = (copy_into (replicate 64 0) 0 remainder)[length remainder := 0x80];
          bits = be_bytes 8 (unat bit_len)
      in if length remainder \<le> 55 then [copy_into block0 56 bits]
         else [block0, copy_into (replicate 64 0) 56 bits])"

definition sha256 :: "bytes \<Rightarrow> bytes" where
  "sha256 bs =
     (let bit_len = word_of_nat (length bs) * 8;
          h = foldl sha256_compress SHA256_H0 (chunks_exact 64 bs);
          remainder = drop (64 * (length bs div 64)) bs
      in sha256_words_to_bytes (foldl sha256_compress h (sha256_final_blocks remainder bit_len)))"

section \<open>The reference hash\<close>

definition fips_sigma0 :: "u32 \<Rightarrow> u32" where
  "fips_sigma0 x = word_rotr 7 x XOR word_rotr 18 x XOR drop_bit 3 x"
definition fips_sigma1 :: "u32 \<Rightarrow> u32" where
  "fips_sigma1 x = word_rotr 17 x XOR word_rotr 19 x XOR drop_bit 10 x"

function fips_w256 :: "bytes \<Rightarrow> nat \<Rightarrow> u32" where
  "fips_w256 block t =
     (if t < 16 then word_of_nat (be_value (slice_of block (4 * t) (4 * t + 4)))
      else fips_sigma1 (fips_w256 block (t - 2)) + fips_w256 block (t - 7) +
           fips_sigma0 (fips_w256 block (t - 15)) + fips_w256 block (t - 16))"
  by pat_completeness auto
termination by (relation "measure snd") auto

declare fips_w256.simps [simp del]

definition fips_ch :: "u32 \<Rightarrow> u32 \<Rightarrow> u32 \<Rightarrow> u32" where
  "fips_ch x y z = (x AND y) XOR (NOT x AND z)"
definition fips_maj :: "u32 \<Rightarrow> u32 \<Rightarrow> u32 \<Rightarrow> u32" where
  "fips_maj x y z = (x AND y) XOR (x AND z) XOR (y AND z)"

definition fips_round256 :: "bytes \<Rightarrow> nat \<Rightarrow> sha256_words \<Rightarrow> sha256_words" where
  "fips_round256 block t v = (case v of H8 a b c d e f g h \<Rightarrow>
     let t1 = h + (word_rotr 6 e XOR word_rotr 11 e XOR word_rotr 25 e) + fips_ch e f g + SHA256_K ! t + fips_w256 block t;
         t2 = (word_rotr 2 a XOR word_rotr 13 a XOR word_rotr 22 a) + fips_maj a b c
     in H8 (t1 + t2) a b c (d + t1) e f g)"

definition fips_compress256 :: "sha256_words \<Rightarrow> bytes \<Rightarrow> sha256_words" where
  "fips_compress256 h block = sha256_add h (fold (fips_round256 block) [0..<64] h)"

definition fips_sha256 :: "bytes \<Rightarrow> bytes" where
  "fips_sha256 m = sha256_words_to_bytes (foldl fips_compress256 SHA256_H0 (chunks_exact 64 (fips_pad m)))"

lemma sha256_schedule_prefix:
  assumes block: "length block = 64" and n: "16 \<le> n" "n \<le> 64"
  defines "start \<equiv> map (\<lambda>chunk. word_of_nat (be_value chunk)) (chunks_exact 4 block) @ replicate 48 0"
  shows "length (fold sha256_schedule_step [16..<n] start) = 64 \<and>
    (\<forall>i<n. fold sha256_schedule_step [16..<n] start ! i = fips_w256 block i)"
  using n
proof (induction n rule: dec_induct)
  case base
  show ?case using block
    by (auto simp: start_def length_chunks_exact nth_append nth_chunks_exact fips_w256.simps)
next
  case (step n)
  define ws where "ws = fold sha256_schedule_step [16..<n] start"
  from step have ws: "length ws = 64" "\<And>i. i < n \<Longrightarrow> ws ! i = fips_w256 block i"
    by (simp_all add: ws_def)
  have "fips_w256 block n = fips_sigma1 (ws ! (n - 2)) + ws ! (n - 7) + fips_sigma0 (ws ! (n - 15)) + ws ! (n - 16)"
    using step.hyps by (simp add: ws fips_w256.simps [of block n])
  with ws step show ?case
    by (auto simp: ws_def [symmetric] sha256_schedule_step_def nth_list_update less_Suc_eq Let_def
        fips_sigma0_def fips_sigma1_def algebra_simps)
qed

lemma sha256_compress_eq:
  assumes "length block = 64"
  shows "sha256_compress h block = fips_compress256 h block"
proof -
  have w: "sha256_schedule block ! i = fips_w256 block i" if "i < 64" for i
    using sha256_schedule_prefix [OF assms, of 64] that by (simp add: sha256_schedule_def)
  have "fold (sha256_round (sha256_schedule block)) [0..<64] h = fold (fips_round256 block) [0..<64] h"
    by (rule fold_cong) (auto simp: sha256_round_def fips_round256_def fips_ch_def fips_maj_def w Let_def fun_eq_iff
        simp del: upt_rec_numeral split: sha256_words.split)
  then show ?thesis by (simp add: sha256_compress_def fips_compress256_def Let_def)
qed

lemma sha256_final_blocks_eq:
  assumes "length rest < 64" and full: "64 dvd length full"
  shows "sha256_final_blocks rest (word_of_nat (length (full @ rest)) * 8) =
    chunks_exact 64 (drop (length full) (fips_pad (full @ rest)))"
proof -
  define bits where "bits = be_bytes 8 (8 * length (full @ rest))"
  have bits: "be_bytes 8 (unat ((word_of_nat (length (full @ rest)) :: u64) * 8)) = bits" and [simp]: "length bits = 8"
    by (simp_all only: be_bytes_bit_length bits_def length_be_bytes)
  have block: "(copy_into (replicate 64 0) 0 rest)[length rest := 0x80] = rest @ [0x80] @ replicate (63 - length rest) 0"
    using padding_in_buffer [of rest "rest @ replicate (64 - length rest) 0"] assms by simp
  have mod: "length (full @ rest) mod 64 = length rest" using assms by (auto elim!: dvdE)
  have pad: "drop (length full) (fips_pad (full @ rest)) = rest @ [0x80] @ replicate ((119 - length rest) mod 64) 0 @ bits"
    unfolding fips_pad_def mod bits_def [symmetric] by simp
  show ?thesis
  proof (cases "56 \<le> length rest")
    case True
    let ?b1 = "rest @ [0x80] @ replicate (63 - length rest) 0" and ?b2 = "replicate 56 0 @ bits"
    have "(119 - length rest) mod 64 = (63 - length rest) + 56" using True assms(1) by simp
    then have "drop (length full) (fips_pad (full @ rest)) = ?b1 @ ?b2"
      by (simp only: pad append_assoc replicate_add)
    moreover have "chunks_exact 64 (?b1 @ ?b2) = [?b1, ?b2]"
      using assms chunks_exact_append [of ?b1 64 ?b2] chunks_exact_append [of ?b2 64 "[]"] by simp
    ultimately show ?thesis using True bits
      by (simp add: sha256_final_blocks_def Let_def block) (simp add: copy_into_def)
  next
    case False
    let ?b = "rest @ [0x80] @ replicate (55 - length rest) 0 @ bits"
    have "(119 - length rest) mod 64 = 55 - length rest"
      using False mod_add_self1 [of 64 "55 - length rest"] by simp
    then have "drop (length full) (fips_pad (full @ rest)) = ?b" by (simp only: pad)
    moreover have "chunks_exact 64 ?b = [?b]"
      using False chunks_exact_append [of ?b 64 "[]"] by simp
    moreover have "copy_into (rest @ 0x80 # replicate (63 - length rest) 0) 56 bits = ?b"
      using False by (simp add: copy_into_def take_Cons' min_def)
    ultimately show ?thesis using False bits
      by (simp add: sha256_final_blocks_def Let_def block)
  qed
qed

lemma sha256_fips: "sha256 m = fips_sha256 m"
proof -
  obtain full rest where m: "m = full @ rest" "64 dvd length full" "length rest < 64" by (rule split_blocks)
  have div: "64 * (length m div 64) = length full" using m by (auto elim!: dvdE)
  have pad: "fips_pad m = full @ drop (length full) (fips_pad m)"
    by (simp add: fips_pad_def m(1))
  have first: "chunks_exact 64 m = chunks_exact 64 full"
    using m chunks_exact_append_dvd [of 64 full rest] by (simp add: chunks_exact.simps [of 64 rest])
  have "chunks_exact 64 (fips_pad m) = chunks_exact 64 full @ sha256_final_blocks rest (word_of_nat (length m) * 8)"
    using chunks_exact_append_dvd [of 64 full "drop (length full) (fips_pad m)"] m
      sha256_final_blocks_eq [OF m(3,2)] by (metis pad zero_less_numeral)
  moreover have "foldl sha256_compress h (chunks_exact 64 xs) = foldl fips_compress256 h (chunks_exact 64 xs)" for h xs
    using chunks_exact_lengths by (intro foldl_cong) (auto intro!: sha256_compress_eq)
  ultimately show ?thesis
    unfolding sha256_def fips_sha256_def Let_def div first
    by (metis append_eq_conv_conj foldl_append m(1))
qed

end
