(* ===== verification/Emv_Bundle.thy ===== *)
theory Emv_Bundle
  imports Emv_Writer Emv_Kernel Emv_Profiles Emv_Provenance
begin

text \<open>
  Certification bundles (\<open>src/src/cert_bundle.rs\<close>): their JSON, the checks on a bundle and its
  signature, and the making of a bundle with the trust anchor that admits it.  A text is the list
  of its characters below 256, all that the JSON parser makes; \<open>utf8\<close> is its encoding, and the
  lengths of the source are lengths of encodings.  Ed25519 is the parameter \<open>ed\<close>.
\<close>

unbundle bit_operations_syntax

section \<open>Data\<close>

definition CERTIFICATION_BUNDLE_SCHEMA_VERSION :: string where
  "CERTIFICATION_BUNDLE_SCHEMA_VERSION = ''hyperion-certification-bundle-1.0''"
definition CERTIFICATION_BUNDLE_SIGNATURE_ALGORITHM :: string where
  "CERTIFICATION_BUNDLE_SIGNATURE_ALGORITHM = ''hyperion-ed25519-sha256-v1''"
definition CERTIFICATION_BUNDLE_TEST_ALGORITHM :: string where
  "CERTIFICATION_BUNDLE_TEST_ALGORITHM = ''hyperion-sha256-test-attestation-v1''"
definition CERTIFICATION_BUNDLE_SIGNATURE_DOMAIN :: bytes where
  "CERTIFICATION_BUNDLE_SIGNATURE_DOMAIN = ascii ''Hyperion certification bundle Ed25519 signature v1''"
definition DEFAULT_FIXTURE_SIGNING_PRIVATE_KEY_HEX :: string where
  "DEFAULT_FIXTURE_SIGNING_PRIVATE_KEY_HEX = ''00112233445566778899aabbccddeeff00112233445566778899aabbccddeeff''"
definition MAX_CERTIFICATION_BUNDLE_BYTES :: nat where "MAX_CERTIFICATION_BUNDLE_BYTES = 4 * 1024 * 1024"
definition MAX_EMBEDDED_PROFILE_BYTES :: nat where "MAX_EMBEDDED_PROFILE_BYTES = 1024 * 1024"
definition MAX_BUNDLE_STRING_BYTES :: nat where "MAX_BUNDLE_STRING_BYTES = 4096"
definition MAX_BUNDLE_COLLECTION_ITEMS :: nat where "MAX_BUNDLE_COLLECTION_ITEMS = 128"

datatype bundle_class = BundleTesting | BundleCertification

fun bundle_class_as_str :: "bundle_class \<Rightarrow> string" where
  "bundle_class_as_str BundleTesting = ''TESTING''"
| "bundle_class_as_str BundleCertification = ''CERTIFICATION''"

record bundle_trust_anchor =
  bta_signer_id :: string
  bta_signing_key_fingerprint :: string
  bta_verification_public_key_hex :: string
  bta_allowed_payload_sha256 :: string
  bta_not_after :: "emv_date option"

record bundle_load_policy =
  blp_mode :: build_mode
  blp_installed_rollback_counter :: u64
  blp_evaluation_date :: emv_date
  blp_trust_anchors :: "bundle_trust_anchor list"

record submission_scope =
  ss_product_name :: string
  ss_product_version :: string
  ss_certification_target :: string
  ss_interfaces :: "string list"
  ss_authorities :: "string list"

record standards_target =
  stt_emv_contact_version :: string
  stt_emv_contactless_kernel :: string
  stt_bulletins_included :: "string list"
  stt_bulletins_excluded :: "string list"

record terminal_profile =
  tp_terminal_type :: string
  tp_device_model :: string
  tp_firmware_version :: string
  tp_l1_approval_reference :: string
  tp_pci_pts_reference :: string
  tp_supported_interfaces :: "string list"

record runtime_policy =
  rp_callback_timeouts :: callback_timeout_profile
  rp_offline_counter_persistence :: string
  rp_trace_masking_policy :: string

record kernel_profile_registration =
  kr_kernel_profile_id :: string
  kr_interface :: string
  kr_algorithm :: string
  kr_c8_package :: string
  kr_scheme_scope :: "string list"

record cvm_extension_rule =
  ce_rule_id :: string
  ce_scheme_scope :: "string list"
  ce_cvm_code_hex :: string
  ce_meaning :: string
  ce_tvr_on_failure_hex :: string
  ce_continue_on_failure :: bool

record certification_test_case =
  ctc_case_id :: string
  ctc_vector_class :: string
  ctc_expected_outcome :: string
  ctc_trace_requirement :: string

record artifact_hash_binding =
  ahb_artifact_id :: string
  ahb_artifact_kind :: string
  ahb_sha256_hex :: string
  ahb_binds_open_issues :: "string list"

record bundle_signature =
  bsig_algorithm :: string
  bsig_signer_id :: string
  bsig_signing_key_fingerprint :: string
  bsig_payload_sha256 :: string
  bsig_signature_hex :: string
  bsig_signature_artifact_sha256 :: string

record certification_bundle_payload =
  cbp_submission_scope :: submission_scope
  cbp_standards_target :: standards_target
  cbp_terminal_profile :: terminal_profile
  cbp_runtime_policy :: runtime_policy
  cbp_kernel_registry :: "kernel_profile_registration list"
  cbp_cvm_extensions :: "cvm_extension_rule list"
  cbp_test_plan :: "certification_test_case list"
  cbp_artifact_hashes :: "artifact_hash_binding list"
  cbp_scheme_profile_set_json :: string
  cbp_vector_bundle_json :: string

record certification_bundle =
  cb_schema_version :: string
  cb_bundle_id :: string
  cb_bundle_version :: u64
  cb_rollback_counter :: u64
  cb_bundle_class :: bundle_class
  cb_created :: emv_date
  cb_payload :: certification_bundle_payload
  cb_signature :: bundle_signature

record loaded_certification_bundle =
  lcb_bundle :: certification_bundle
  lcb_profile_set :: profile_set
  lcb_bundle_sha256 :: bytes
  lcb_payload_sha256 :: bytes
  lcb_scheme_profile_sha256 :: bytes
  lcb_vector_bundle_sha256 :: bytes
  lcb_verification_status :: string

text \<open>Ed25519: \<open>VerifyingKey::from_bytes\<close>, \<open>to_bytes\<close> and \<open>verify\<close>, and of the signing key with the
  given 32 bytes its \<open>verifying_key\<close> and \<open>sign\<close>.\<close>

record 'k ed25519 =
  ed_key_of_bytes :: "bytes \<Rightarrow> 'k option"
  ed_key_bytes :: "'k \<Rightarrow> bytes"
  ed_verify :: "'k \<Rightarrow> bytes \<Rightarrow> bytes \<Rightarrow> bool"
  ed_verifying_key :: "bytes \<Rightarrow> 'k"
  ed_sign :: "bytes \<Rightarrow> bytes \<Rightarrow> bytes"

section \<open>Texts\<close>

definition utf8_char :: "char \<Rightarrow> bytes" where
  "utf8_char c = (let n = of_char c :: nat in
     if n < 0x80 then [word_of_nat n] else [word_of_nat (0xc0 + n div 64), word_of_nat (0x80 + n mod 64)])"

definition utf8 :: "string \<Rightarrow> bytes" where
  "utf8 s = concat (map utf8_char s)"

definition is_control :: "char \<Rightarrow> bool" where
  "is_control c \<longleftrightarrow> (let n = of_char c :: nat in n < 0x20 \<or> 0x7f \<le> n \<and> n \<le> 0x9f)"

definition hex_text :: "bytes \<Rightarrow> string" where
  "hex_text bs = map byte_char (to_hex bs)"

definition validate_clean_string :: "string \<Rightarrow> unit krn_result" where
  "validate_clean_string v =
     (if v = [] \<or> length (utf8 v) > MAX_BUNDLE_STRING_BYTES \<or> length (utf8 (trim_text v)) \<noteq> length (utf8 v) \<or>
         list_ex is_control v then Inl InvalidProfile
      else let upper = map to_ascii_uppercase v in
        if str_contains upper ''PLACEHOLDER'' \<or> str_contains upper ''...'' \<or> str_contains upper ''DUMMY''
        then Inl InvalidProfile else Inr ())"

definition reject_blank :: "string \<Rightarrow> unit krn_result" where
  "reject_blank v = (if trim_text v = [] then Inl InvalidProfile else Inr ())"

definition identifier_byte :: "byte \<Rightarrow> bool" where
  "identifier_byte b \<longleftrightarrow> 0x61 \<le> b \<and> b \<le> 0x7a \<or> 0x41 \<le> b \<and> b \<le> 0x5a \<or> 0x30 \<le> b \<and> b \<le> 0x39 \<or>
     b \<in> {0x2e, 0x5f, 0x2d}"

definition validate_identifier :: "string \<Rightarrow> unit krn_result" where
  "validate_identifier v =
     rbind (validate_clean_string v) (\<lambda>_. if list_all identifier_byte (utf8 v) then Inr () else Inl InvalidProfile)"

definition validate_known_interface :: "string \<Rightarrow> unit krn_result" where
  "validate_known_interface v = (if v = ''contact'' \<or> v = ''contactless'' then Inr () else Inl InvalidProfile)"

definition validate_hex_len :: "string \<Rightarrow> nat \<Rightarrow> unit krn_result" where
  "validate_hex_len v expected_len =
     rbind (decode_hex v) (\<lambda>bs. if length bs = expected_len then Inr () else Inl InvalidProfile)"

definition validate_callback_timeouts :: "callback_timeout_profile \<Rightarrow> unit krn_result" where
  "validate_callback_timeouts t =
     (if list_ex (\<lambda>timeout. \<not> (1 \<le> timeout \<and> timeout \<le> 60000))
           [apdu_transport_timeout_ms t, host_authorization_timeout_ms t, pin_entry_timeout_ms t, contactless_ui_timeout_ms t]
      then Inl InvalidProfile else Inr ())"

definition reject_duplicates :: "string list \<Rightarrow> unit krn_result" where
  "reject_duplicates vs = (if has_earlier id vs then Inl InvalidProfile else Inr ())"

definition validate_non_empty_set :: "string list \<Rightarrow> unit krn_result" where
  "validate_non_empty_set vs = (if vs = [] then Inl InvalidProfile else reject_duplicates vs)"

definition bounded_len :: "nat \<Rightarrow> unit krn_result" where
  "bounded_len len = (if len > MAX_BUNDLE_COLLECTION_ITEMS then Inl LengthOverflow else Inr ())"

section \<open>Reading\<close>

definition required_object :: "json_object \<Rightarrow> string \<Rightarrow> json_object krn_result" where
  "required_object object key = rbind (required_field object key) as_object"

definition required_clean_string :: "json_object \<Rightarrow> string \<Rightarrow> string krn_result" where
  "required_clean_string object key =
     rbind (required_string object key) (\<lambda>v. rbind (validate_clean_string v) (\<lambda>_. Inr v))"

definition required_timeout :: "json_object \<Rightarrow> string \<Rightarrow> int krn_result" where
  "required_timeout object key =
     rbind (required_u64 object key) (\<lambda>v. if unat v > 2 ^ 31 - 1 then Inl InvalidProfile else Inr (uint v))"

definition clean_item :: "json_value \<Rightarrow> string krn_result" where
  "clean_item item = rbind (as_string item) (\<lambda>v. rbind (validate_clean_string v) (\<lambda>_. Inr v))"

definition required_string_array :: "json_object \<Rightarrow> string \<Rightarrow> string list krn_result" where
  "required_string_array object key =
     rbind (required_field object key) (\<lambda>v. rbind (as_array v) (\<lambda>items.
     rbind (bounded_len (length items)) (\<lambda>_.
       if items = [] then Inl InvalidProfile
       else rbind (rmapM clean_item items) (\<lambda>vs. rbind (validate_non_empty_set vs) (\<lambda>_. Inr vs)))))"

definition required_string_array_allow_empty :: "json_object \<Rightarrow> string \<Rightarrow> string list krn_result" where
  "required_string_array_allow_empty object key =
     rbind (required_field object key) (\<lambda>v. rbind (as_array v) (\<lambda>items.
     rbind (bounded_len (length items)) (\<lambda>_.
     rbind (rmapM clean_item items) (\<lambda>vs. rbind (reject_duplicates vs) (\<lambda>_. Inr vs)))))"

definition parse_array :: "json_object \<Rightarrow> string \<Rightarrow> (json_value \<Rightarrow> 'a krn_result) \<Rightarrow> 'a list krn_result" where
  "parse_array object key parser =
     rbind (required_field object key) (\<lambda>v. rbind (as_array v) (\<lambda>items.
     rbind (bounded_len (length items)) (\<lambda>_. rmapM parser items)))"

definition parse_bundle_class :: "string \<Rightarrow> bundle_class krn_result" where
  "parse_bundle_class inp =
     (if inp = ''TESTING'' then Inr BundleTesting
      else if inp = ''CERTIFICATION'' then Inr BundleCertification else Inl InvalidProfile)"

definition parse_submission_scope :: "json_object \<Rightarrow> submission_scope krn_result" where
  "parse_submission_scope object =
     rbind (reject_unknown_fields object
       [''product_name'', ''product_version'', ''certification_target'', ''interfaces'', ''authorities'']) (\<lambda>_.
     rbind (required_clean_string object ''product_name'') (\<lambda>name.
     rbind (required_clean_string object ''product_version'') (\<lambda>version.
     rbind (required_clean_string object ''certification_target'') (\<lambda>target.
     rbind (required_string_array object ''interfaces'') (\<lambda>interfaces.
     rbind (required_string_array object ''authorities'') (\<lambda>authorities.
       Inr \<lparr>ss_product_name = name, ss_product_version = version, ss_certification_target = target,
            ss_interfaces = interfaces, ss_authorities = authorities\<rparr>))))))"

definition parse_standards_target :: "json_object \<Rightarrow> standards_target krn_result" where
  "parse_standards_target object =
     rbind (reject_unknown_fields object
       [''emv_contact_version'', ''emv_contactless_kernel'', ''bulletins_included'', ''bulletins_excluded'']) (\<lambda>_.
     rbind (required_clean_string object ''emv_contact_version'') (\<lambda>version.
     rbind (required_clean_string object ''emv_contactless_kernel'') (\<lambda>ckernel.
     rbind (required_string_array object ''bulletins_included'') (\<lambda>included.
     rbind (required_string_array_allow_empty object ''bulletins_excluded'') (\<lambda>excluded.
       Inr \<lparr>stt_emv_contact_version = version, stt_emv_contactless_kernel = ckernel,
            stt_bulletins_included = included, stt_bulletins_excluded = excluded\<rparr>)))))"

definition parse_terminal_profile :: "json_object \<Rightarrow> terminal_profile krn_result" where
  "parse_terminal_profile object =
     rbind (reject_unknown_fields object [''terminal_type'', ''device_model'', ''firmware_version'',
       ''l1_approval_reference'', ''pci_pts_reference'', ''supported_interfaces'']) (\<lambda>_.
     rbind (required_clean_string object ''terminal_type'') (\<lambda>type.
     rbind (required_clean_string object ''device_model'') (\<lambda>model.
     rbind (required_clean_string object ''firmware_version'') (\<lambda>firmware.
     rbind (required_clean_string object ''l1_approval_reference'') (\<lambda>l1.
     rbind (required_clean_string object ''pci_pts_reference'') (\<lambda>pci.
     rbind (required_string_array object ''supported_interfaces'') (\<lambda>interfaces.
       Inr \<lparr>tp_terminal_type = type, tp_device_model = model, tp_firmware_version = firmware,
            tp_l1_approval_reference = l1, tp_pci_pts_reference = pci, tp_supported_interfaces = interfaces\<rparr>)))))))"

definition parse_callback_timeouts :: "json_object \<Rightarrow> callback_timeout_profile krn_result" where
  "parse_callback_timeouts object =
     rbind (reject_unknown_fields object [''apdu_transport_timeout_ms'', ''host_authorization_timeout_ms'',
       ''pin_entry_timeout_ms'', ''contactless_ui_timeout_ms'']) (\<lambda>_.
     rbind (required_timeout object ''apdu_transport_timeout_ms'') (\<lambda>apdu.
     rbind (required_timeout object ''host_authorization_timeout_ms'') (\<lambda>host.
     rbind (required_timeout object ''pin_entry_timeout_ms'') (\<lambda>pin.
     rbind (required_timeout object ''contactless_ui_timeout_ms'') (\<lambda>ui.
       let timeouts = \<lparr>apdu_transport_timeout_ms = apdu, host_authorization_timeout_ms = host,
                       pin_entry_timeout_ms = pin, contactless_ui_timeout_ms = ui\<rparr> in
       rbind (validate_callback_timeouts timeouts) (\<lambda>_. Inr timeouts))))))"

definition parse_runtime_policy :: "json_object \<Rightarrow> runtime_policy krn_result" where
  "parse_runtime_policy object =
     rbind (reject_unknown_fields object
       [''callback_timeouts'', ''offline_counter_persistence'', ''trace_masking_policy'']) (\<lambda>_.
     rbind (required_object object ''callback_timeouts'') (\<lambda>timeouts.
     rbind (parse_callback_timeouts timeouts) (\<lambda>timeouts.
     rbind (required_clean_string object ''offline_counter_persistence'') (\<lambda>persistence.
     rbind (required_clean_string object ''trace_masking_policy'') (\<lambda>masking.
       Inr \<lparr>rp_callback_timeouts = timeouts, rp_offline_counter_persistence = persistence,
            rp_trace_masking_policy = masking\<rparr>)))))"

definition parse_kernel_registration :: "json_value \<Rightarrow> kernel_profile_registration krn_result" where
  "parse_kernel_registration v =
     rbind (as_object v) (\<lambda>object.
     rbind (reject_unknown_fields object
       [''kernel_profile_id'', ''interface'', ''algorithm'', ''c8_package'', ''scheme_scope'']) (\<lambda>_.
     rbind (required_clean_string object ''kernel_profile_id'') (\<lambda>id.
     rbind (required_clean_string object ''interface'') (\<lambda>interface.
     rbind (required_clean_string object ''algorithm'') (\<lambda>algorithm.
     rbind (required_clean_string object ''c8_package'') (\<lambda>package.
     rbind (required_string_array object ''scheme_scope'') (\<lambda>scope.
       Inr \<lparr>kr_kernel_profile_id = id, kr_interface = interface, kr_algorithm = algorithm,
            kr_c8_package = package, kr_scheme_scope = scope\<rparr>)))))))"

definition parse_cvm_extension :: "json_value \<Rightarrow> cvm_extension_rule krn_result" where
  "parse_cvm_extension v =
     rbind (as_object v) (\<lambda>object.
     rbind (reject_unknown_fields object [''rule_id'', ''scheme_scope'', ''cvm_code_hex'', ''meaning'',
       ''tvr_on_failure_hex'', ''continue_on_failure'']) (\<lambda>_.
     rbind (required_clean_string object ''cvm_code_hex'') (\<lambda>code.
     rbind (validate_hex_len code 1) (\<lambda>_.
     rbind (required_clean_string object ''tvr_on_failure_hex'') (\<lambda>tvr.
     rbind (validate_hex_len tvr 5) (\<lambda>_.
     rbind (required_clean_string object ''rule_id'') (\<lambda>rule.
     rbind (required_string_array object ''scheme_scope'') (\<lambda>scope.
     rbind (required_clean_string object ''meaning'') (\<lambda>meaning.
     rbind (required_bool object ''continue_on_failure'') (\<lambda>continue.
       Inr \<lparr>ce_rule_id = rule, ce_scheme_scope = scope, ce_cvm_code_hex = code, ce_meaning = meaning,
            ce_tvr_on_failure_hex = tvr, ce_continue_on_failure = continue\<rparr>))))))))))"

definition parse_test_case :: "json_value \<Rightarrow> certification_test_case krn_result" where
  "parse_test_case v =
     rbind (as_object v) (\<lambda>object.
     rbind (reject_unknown_fields object
       [''case_id'', ''vector_class'', ''expected_outcome'', ''trace_requirement'']) (\<lambda>_.
     rbind (required_clean_string object ''case_id'') (\<lambda>id.
     rbind (validate_identifier id) (\<lambda>_.
     rbind (required_clean_string object ''vector_class'') (\<lambda>class.
     rbind (required_clean_string object ''expected_outcome'') (\<lambda>outcome.
     rbind (required_clean_string object ''trace_requirement'') (\<lambda>requirement.
       Inr \<lparr>ctc_case_id = id, ctc_vector_class = class, ctc_expected_outcome = outcome,
            ctc_trace_requirement = requirement\<rparr>)))))))"

definition parse_artifact_hash :: "json_value \<Rightarrow> artifact_hash_binding krn_result" where
  "parse_artifact_hash v =
     rbind (as_object v) (\<lambda>object.
     rbind (reject_unknown_fields object [''artifact_id'', ''artifact_kind'', ''sha256_hex'', ''binds_open_issues'']) (\<lambda>_.
     rbind (required_clean_string object ''sha256_hex'') (\<lambda>sha.
     rbind (validate_hex_len sha 32) (\<lambda>_.
     rbind (required_clean_string object ''artifact_id'') (\<lambda>id.
     rbind (required_clean_string object ''artifact_kind'') (\<lambda>kind.
     rbind (required_string_array object ''binds_open_issues'') (\<lambda>issues.
       Inr \<lparr>ahb_artifact_id = id, ahb_artifact_kind = kind, ahb_sha256_hex = sha, ahb_binds_open_issues = issues\<rparr>)))))))"

definition parse_signature :: "json_value \<Rightarrow> bundle_signature krn_result" where
  "parse_signature v =
     rbind (as_object v) (\<lambda>object.
     rbind (reject_unknown_fields object [''algorithm'', ''signer_id'', ''signing_key_fingerprint'',
       ''payload_sha256'', ''signature_hex'', ''signature_artifact_sha256'']) (\<lambda>_.
     rbind (required_clean_string object ''payload_sha256'') (\<lambda>payload.
     rbind (validate_hex_len payload 32) (\<lambda>_.
     rbind (required_clean_string object ''algorithm'') (\<lambda>algorithm.
     rbind (required_clean_string object ''signature_hex'') (\<lambda>signature.
     rbind (validate_hex_len signature (if algorithm = CERTIFICATION_BUNDLE_SIGNATURE_ALGORITHM then 64 else 32)) (\<lambda>_.
     rbind (required_clean_string object ''signature_artifact_sha256'') (\<lambda>artifact.
     rbind (validate_hex_len artifact 32) (\<lambda>_.
     rbind (required_clean_string object ''signer_id'') (\<lambda>signer.
     rbind (required_clean_string object ''signing_key_fingerprint'') (\<lambda>fingerprint.
       Inr \<lparr>bsig_algorithm = algorithm, bsig_signer_id = signer, bsig_signing_key_fingerprint = fingerprint,
            bsig_payload_sha256 = payload, bsig_signature_hex = signature,
            bsig_signature_artifact_sha256 = artifact\<rparr>)))))))))))"

definition parse_trust_anchor :: "json_value \<Rightarrow> bundle_trust_anchor krn_result" where
  "parse_trust_anchor v =
     rbind (as_object v) (\<lambda>object.
     rbind (reject_unknown_fields object [''signer_id'', ''signing_key_fingerprint'',
       ''verification_public_key_hex'', ''allowed_payload_sha256'', ''not_after'']) (\<lambda>_.
     rbind (required_clean_string object ''verification_public_key_hex'') (\<lambda>key.
     rbind (validate_hex_len key 32) (\<lambda>_.
     rbind (required_clean_string object ''allowed_payload_sha256'') (\<lambda>allowed.
     rbind (validate_hex_len allowed 32) (\<lambda>_.
     rbind (required_clean_string object ''signer_id'') (\<lambda>signer.
     rbind (required_clean_string object ''signing_key_fingerprint'') (\<lambda>fingerprint.
     rbind (case json_get object ''not_after'' of None \<Rightarrow> Inr None
            | Some v \<Rightarrow> rmap Some (rbind (as_string v) parse_iso_date)) (\<lambda>not_after.
       Inr \<lparr>bta_signer_id = signer, bta_signing_key_fingerprint = fingerprint,
            bta_verification_public_key_hex = key, bta_allowed_payload_sha256 = allowed,
            bta_not_after = not_after\<rparr>)))))))))"

definition check_registration :: "kernel_profile_registration \<Rightarrow> unit krn_result" where
  "check_registration entry =
     rbind (validate_identifier (kr_kernel_profile_id entry)) (\<lambda>_.
     rbind (validate_known_interface (kr_interface entry)) (\<lambda>_.
     rbind (reject_blank (kr_algorithm entry)) (\<lambda>_.
     rbind (reject_blank (kr_c8_package entry)) (\<lambda>_.
       validate_non_empty_set (kr_scheme_scope entry)))))"

definition check_artifact_hash :: "artifact_hash_binding \<Rightarrow> unit krn_result" where
  "check_artifact_hash a =
     rbind (validate_identifier (ahb_artifact_id a)) (\<lambda>_.
     rbind (validate_hex_len (ahb_sha256_hex a) 32) (\<lambda>_.
       validate_non_empty_set (ahb_binds_open_issues a)))"

definition validate_payload :: "certification_bundle_payload \<Rightarrow> unit krn_result" where
  "validate_payload p =
     rbind (validate_non_empty_set (ss_interfaces (cbp_submission_scope p))) (\<lambda>_.
     rbind (validate_non_empty_set (ss_authorities (cbp_submission_scope p))) (\<lambda>_.
     rbind (validate_non_empty_set (tp_supported_interfaces (cbp_terminal_profile p))) (\<lambda>_.
     rbind (validate_non_empty_set (stt_bulletins_included (cbp_standards_target p))) (\<lambda>_.
     rbind (bounded_len (length (cbp_kernel_registry p))) (\<lambda>_.
     rbind (bounded_len (length (cbp_cvm_extensions p))) (\<lambda>_.
     rbind (bounded_len (length (cbp_test_plan p))) (\<lambda>_.
     rbind (bounded_len (length (cbp_artifact_hashes p))) (\<lambda>_.
       if cbp_kernel_registry p = [] \<or> cbp_test_plan p = [] \<or> cbp_artifact_hashes p = [] then Inl InvalidProfile
       else if length (utf8 (cbp_scheme_profile_set_json p)) > MAX_EMBEDDED_PROFILE_BYTES \<or>
               length (utf8 (cbp_vector_bundle_json p)) > MAX_EMBEDDED_PROFILE_BYTES then Inl LengthOverflow
       else
     rbind (json_parse (utf8 (cbp_scheme_profile_set_json p))) (\<lambda>_.
     rbind (json_parse (utf8 (cbp_vector_bundle_json p))) (\<lambda>_.
     rbind (validate_callback_timeouts (rp_callback_timeouts (cbp_runtime_policy p))) (\<lambda>_.
       if list_ex (\<lambda>item. item = ''contactless'') (ss_interfaces (cbp_submission_scope p)) \<and>
          \<not> list_ex (\<lambda>entry. kr_interface entry = ''contactless'') (cbp_kernel_registry p) then Inl InvalidProfile
       else
     rbind (rmapM check_registration (cbp_kernel_registry p)) (\<lambda>_.
     rbind (rmapM check_artifact_hash (cbp_artifact_hashes p)) (\<lambda>_. Inr ())))))))))))))"

definition parse_payload :: "json_value \<Rightarrow> certification_bundle_payload krn_result" where
  "parse_payload v =
     rbind (as_object v) (\<lambda>object.
     rbind (reject_unknown_fields object [''submission_scope'', ''standards_target'', ''terminal_profile'',
       ''runtime_policy'', ''kernel_registry'', ''cvm_extensions'', ''test_plan'', ''artifact_hashes'',
       ''scheme_profile_set_json'', ''vector_bundle_json'']) (\<lambda>_.
     rbind (required_object object ''submission_scope'') (\<lambda>scope. rbind (parse_submission_scope scope) (\<lambda>scope.
     rbind (required_object object ''standards_target'') (\<lambda>target. rbind (parse_standards_target target) (\<lambda>target.
     rbind (required_object object ''terminal_profile'') (\<lambda>terminal. rbind (parse_terminal_profile terminal) (\<lambda>terminal.
     rbind (required_object object ''runtime_policy'') (\<lambda>runtime. rbind (parse_runtime_policy runtime) (\<lambda>runtime.
     rbind (parse_array object ''kernel_registry'' parse_kernel_registration) (\<lambda>registry.
     rbind (parse_array object ''cvm_extensions'' parse_cvm_extension) (\<lambda>extensions.
     rbind (parse_array object ''test_plan'' parse_test_case) (\<lambda>plan.
     rbind (parse_array object ''artifact_hashes'' parse_artifact_hash) (\<lambda>hashes.
     rbind (required_string object ''scheme_profile_set_json'') (\<lambda>profiles.
     rbind (required_string object ''vector_bundle_json'') (\<lambda>vectors.
       let payload = \<lparr>cbp_submission_scope = scope, cbp_standards_target = target, cbp_terminal_profile = terminal,
         cbp_runtime_policy = runtime, cbp_kernel_registry = registry, cbp_cvm_extensions = extensions,
         cbp_test_plan = plan, cbp_artifact_hashes = hashes, cbp_scheme_profile_set_json = profiles,
         cbp_vector_bundle_json = vectors\<rparr> in
       rbind (validate_payload payload) (\<lambda>_. Inr payload)))))))))))))))))"

definition parse_certification_bundle :: "bytes \<Rightarrow> certification_bundle krn_result" where
  "parse_certification_bundle input =
     rbind (json_parse input) (\<lambda>root. rbind (as_object root) (\<lambda>object.
     rbind (reject_unknown_fields object [''schema_version'', ''bundle_id'', ''bundle_version'', ''rollback_counter'',
       ''bundle_class'', ''created'', ''payload'', ''signature'']) (\<lambda>_.
     rbind (required_string object ''schema_version'') (\<lambda>schema_version.
     if schema_version \<noteq> CERTIFICATION_BUNDLE_SCHEMA_VERSION then Inl InvalidProfile
     else
     rbind (required_clean_string object ''bundle_id'') (\<lambda>bundle_id.
     rbind (validate_identifier bundle_id) (\<lambda>_.
     rbind (required_u64 object ''bundle_version'') (\<lambda>bundle_version.
     rbind (required_u64 object ''rollback_counter'') (\<lambda>rollback_counter.
     if bundle_version = 0 \<or> rollback_counter = 0 then Inl InvalidProfile
     else
     rbind (required_string object ''bundle_class'') (\<lambda>class. rbind (parse_bundle_class class) (\<lambda>class.
     rbind (required_string object ''created'') (\<lambda>created. rbind (parse_iso_date created) (\<lambda>created.
     rbind (required_field object ''payload'') (\<lambda>payload. rbind (parse_payload payload) (\<lambda>payload.
     rbind (required_field object ''signature'') (\<lambda>signature. rbind (parse_signature signature) (\<lambda>signature.
       Inr \<lparr>cb_schema_version = schema_version, cb_bundle_id = bundle_id, cb_bundle_version = bundle_version,
            cb_rollback_counter = rollback_counter, cb_bundle_class = class, cb_created = created,
            cb_payload = payload, cb_signature = signature\<rparr>))))))))))))))))"

definition parse_trust_anchors :: "bytes \<Rightarrow> bundle_trust_anchor list krn_result" where
  "parse_trust_anchors input =
     (if input = [] \<or> length input > MAX_CERTIFICATION_BUNDLE_BYTES then Inl LengthOverflow
      else
      rbind (json_parse input) (\<lambda>root. rbind (as_object root) (\<lambda>object.
      rbind (reject_unknown_fields object [''schema_version'', ''trust_anchors'']) (\<lambda>_.
      rbind (required_string object ''schema_version'') (\<lambda>version.
      if version \<noteq> ''hyperion-certification-trust-anchors-1.0'' then Inl InvalidProfile
      else
      rbind (required_field object ''trust_anchors'') (\<lambda>anchors. rbind (as_array anchors) (\<lambda>anchors.
      rbind (bounded_len (length anchors)) (\<lambda>_.
        if anchors = [] then Inl InvalidProfile else rmapM parse_trust_anchor anchors))))))))"

section \<open>Writing\<close>

definition escape_char :: "char \<Rightarrow> bytes" where
  "escape_char c =
     (if c = CHR 0x22 then [0x5c, 0x22] else if c = CHR 0x5c then [0x5c, 0x5c] else if c = CHR 0x0a then [0x5c, 0x6e]
      else if c = CHR 0x0d then [0x5c, 0x72] else if c = CHR 0x09 then [0x5c, 0x74]
      else if is_control c then [0x5c, 0x75, 0x30, 0x30] @ hex_byte (of_char c) else utf8_char c)"

definition push_json_escaped :: "string \<Rightarrow> bytes" where
  "push_json_escaped v = concat (map escape_char v)"

definition push_text :: "string \<Rightarrow> string \<Rightarrow> bytes" where
  "push_text key v = [0x22] @ ascii key @ [0x22, 0x3a, 0x22] @ push_json_escaped v @ [0x22]"

definition push_bool :: "string \<Rightarrow> bool \<Rightarrow> bytes" where
  "push_bool key v = [0x22] @ ascii key @ [0x22, 0x3a] @ ascii (if v then ''true'' else ''false'')"

definition push_json_array :: "string \<Rightarrow> string list \<Rightarrow> bytes" where
  "push_json_array key vs =
     [0x22] @ ascii key @ [0x22, 0x3a, 0x5b] @ join (map (\<lambda>v. [0x22] @ push_json_escaped v @ [0x22]) vs) @ [0x5d]"

text \<open>A member whose value is an object or an array of objects, already written.\<close>

definition push_member :: "string \<Rightarrow> bytes \<Rightarrow> bytes" where
  "push_member key t = [0x22] @ ascii key @ [0x22, 0x3a] @ t"

text \<open>\<open>{:02}\<close> of a byte, and \<open>as u64\<close> of an \<open>i32\<close>.\<close>

definition two_digits :: "byte \<Rightarrow> string" where
  "two_digits b = (if unat b < 10 then ''0'' else []) @ map byte_char (decimal (unat b))"

definition as_u64_of_i32 :: "int \<Rightarrow> nat" where
  "as_u64_of_i32 n = nat (n mod 2 ^ 64)"

definition format_date :: "emv_date \<Rightarrow> string" where
  "format_date d = ''20'' @ two_digits (date_year d) @ ''-'' @ two_digits (date_month d) @ ''-'' @ two_digits (date_day d)"

definition submission_scope_json :: "submission_scope \<Rightarrow> bytes" where
  "submission_scope_json v = [0x7b] @ push_text ''product_name'' (ss_product_name v) @ [0x2c] @
     push_text ''product_version'' (ss_product_version v) @ [0x2c] @
     push_text ''certification_target'' (ss_certification_target v) @ [0x2c] @
     push_json_array ''interfaces'' (ss_interfaces v) @ [0x2c] @
     push_json_array ''authorities'' (ss_authorities v) @ [0x7d]"

definition standards_target_json :: "standards_target \<Rightarrow> bytes" where
  "standards_target_json v = [0x7b] @ push_text ''emv_contact_version'' (stt_emv_contact_version v) @ [0x2c] @
     push_text ''emv_contactless_kernel'' (stt_emv_contactless_kernel v) @ [0x2c] @
     push_json_array ''bulletins_included'' (stt_bulletins_included v) @ [0x2c] @
     push_json_array ''bulletins_excluded'' (stt_bulletins_excluded v) @ [0x7d]"

definition terminal_profile_json :: "terminal_profile \<Rightarrow> bytes" where
  "terminal_profile_json v = [0x7b] @ push_text ''terminal_type'' (tp_terminal_type v) @ [0x2c] @
     push_text ''device_model'' (tp_device_model v) @ [0x2c] @
     push_text ''firmware_version'' (tp_firmware_version v) @ [0x2c] @
     push_text ''l1_approval_reference'' (tp_l1_approval_reference v) @ [0x2c] @
     push_text ''pci_pts_reference'' (tp_pci_pts_reference v) @ [0x2c] @
     push_json_array ''supported_interfaces'' (tp_supported_interfaces v) @ [0x7d]"

definition callback_timeouts_json :: "callback_timeout_profile \<Rightarrow> bytes" where
  "callback_timeouts_json t = [0x7b] @
     push_json_number ''apdu_transport_timeout_ms'' (as_u64_of_i32 (apdu_transport_timeout_ms t)) @ [0x2c] @
     push_json_number ''host_authorization_timeout_ms'' (as_u64_of_i32 (host_authorization_timeout_ms t)) @ [0x2c] @
     push_json_number ''pin_entry_timeout_ms'' (as_u64_of_i32 (pin_entry_timeout_ms t)) @ [0x2c] @
     push_json_number ''contactless_ui_timeout_ms'' (as_u64_of_i32 (contactless_ui_timeout_ms t)) @ [0x7d]"

definition runtime_policy_json :: "runtime_policy \<Rightarrow> bytes" where
  "runtime_policy_json v = [0x7b] @ push_member ''callback_timeouts'' (callback_timeouts_json (rp_callback_timeouts v)) @ [0x2c] @
     push_text ''offline_counter_persistence'' (rp_offline_counter_persistence v) @ [0x2c] @
     push_text ''trace_masking_policy'' (rp_trace_masking_policy v) @ [0x7d]"

definition kernel_registration_json :: "kernel_profile_registration \<Rightarrow> bytes" where
  "kernel_registration_json v = [0x7b] @ push_text ''kernel_profile_id'' (kr_kernel_profile_id v) @ [0x2c] @
     push_text ''interface'' (kr_interface v) @ [0x2c] @ push_text ''algorithm'' (kr_algorithm v) @ [0x2c] @
     push_text ''c8_package'' (kr_c8_package v) @ [0x2c] @ push_json_array ''scheme_scope'' (kr_scheme_scope v) @ [0x7d]"

definition cvm_extension_json :: "cvm_extension_rule \<Rightarrow> bytes" where
  "cvm_extension_json v = [0x7b] @ push_text ''rule_id'' (ce_rule_id v) @ [0x2c] @
     push_json_array ''scheme_scope'' (ce_scheme_scope v) @ [0x2c] @
     push_text ''cvm_code_hex'' (ce_cvm_code_hex v) @ [0x2c] @ push_text ''meaning'' (ce_meaning v) @ [0x2c] @
     push_text ''tvr_on_failure_hex'' (ce_tvr_on_failure_hex v) @ [0x2c] @
     push_bool ''continue_on_failure'' (ce_continue_on_failure v) @ [0x7d]"

definition test_case_json :: "certification_test_case \<Rightarrow> bytes" where
  "test_case_json v = [0x7b] @ push_text ''case_id'' (ctc_case_id v) @ [0x2c] @
     push_text ''vector_class'' (ctc_vector_class v) @ [0x2c] @
     push_text ''expected_outcome'' (ctc_expected_outcome v) @ [0x2c] @
     push_text ''trace_requirement'' (ctc_trace_requirement v) @ [0x7d]"

definition artifact_hash_json :: "artifact_hash_binding \<Rightarrow> bytes" where
  "artifact_hash_json v = [0x7b] @ push_text ''artifact_id'' (ahb_artifact_id v) @ [0x2c] @
     push_text ''artifact_kind'' (ahb_artifact_kind v) @ [0x2c] @ push_text ''sha256_hex'' (ahb_sha256_hex v) @ [0x2c] @
     push_json_array ''binds_open_issues'' (ahb_binds_open_issues v) @ [0x7d]"

definition signature_json :: "bundle_signature \<Rightarrow> bytes" where
  "signature_json v = [0x7b] @ push_text ''algorithm'' (bsig_algorithm v) @ [0x2c] @
     push_text ''signer_id'' (bsig_signer_id v) @ [0x2c] @
     push_text ''signing_key_fingerprint'' (bsig_signing_key_fingerprint v) @ [0x2c] @
     push_text ''payload_sha256'' (bsig_payload_sha256 v) @ [0x2c] @
     push_text ''signature_hex'' (bsig_signature_hex v) @ [0x2c] @
     push_text ''signature_artifact_sha256'' (bsig_signature_artifact_sha256 v) @ [0x7d]"

definition array_json :: "('a \<Rightarrow> bytes) \<Rightarrow> 'a list \<Rightarrow> bytes" where
  "array_json f vs = [0x5b] @ join (map f vs) @ [0x5d]"

definition payload_canonical_json :: "certification_bundle_payload \<Rightarrow> bytes" where
  "payload_canonical_json p = [0x7b] @
     push_member ''submission_scope'' (submission_scope_json (cbp_submission_scope p)) @ [0x2c] @
     push_member ''standards_target'' (standards_target_json (cbp_standards_target p)) @ [0x2c] @
     push_member ''terminal_profile'' (terminal_profile_json (cbp_terminal_profile p)) @ [0x2c] @
     push_member ''runtime_policy'' (runtime_policy_json (cbp_runtime_policy p)) @ [0x2c] @
     push_member ''kernel_registry'' (array_json kernel_registration_json (cbp_kernel_registry p)) @ [0x2c] @
     push_member ''cvm_extensions'' (array_json cvm_extension_json (cbp_cvm_extensions p)) @ [0x2c] @
     push_member ''test_plan'' (array_json test_case_json (cbp_test_plan p)) @ [0x2c] @
     push_member ''artifact_hashes'' (array_json artifact_hash_json (cbp_artifact_hashes p)) @ [0x2c] @
     push_text ''scheme_profile_set_json'' (cbp_scheme_profile_set_json p) @ [0x2c] @
     push_text ''vector_bundle_json'' (cbp_vector_bundle_json p) @ [0x7d]"

definition certification_bundle_json :: "certification_bundle \<Rightarrow> bytes" where
  "certification_bundle_json b = [0x7b] @ push_text ''schema_version'' (cb_schema_version b) @ [0x2c] @
     push_text ''bundle_id'' (cb_bundle_id b) @ [0x2c] @
     push_json_number ''bundle_version'' (unat (cb_bundle_version b)) @ [0x2c] @
     push_json_number ''rollback_counter'' (unat (cb_rollback_counter b)) @ [0x2c] @
     push_text ''bundle_class'' (bundle_class_as_str (cb_bundle_class b)) @ [0x2c] @
     push_text ''created'' (format_date (cb_created b)) @ [0x2c] @
     push_member ''payload'' (payload_canonical_json (cb_payload b)) @ [0x2c] @
     push_member ''signature'' (signature_json (cb_signature b)) @ [0x7d, 0x0a]"

definition trust_anchor_json :: "bundle_trust_anchor \<Rightarrow> bytes" where
  "trust_anchor_json a = [0x7b] @ push_text ''signer_id'' (bta_signer_id a) @ [0x2c] @
     push_text ''signing_key_fingerprint'' (bta_signing_key_fingerprint a) @ [0x2c] @
     push_text ''verification_public_key_hex'' (bta_verification_public_key_hex a) @ [0x2c] @
     push_text ''allowed_payload_sha256'' (bta_allowed_payload_sha256 a) @
     (case bta_not_after a of Some d \<Rightarrow> [0x2c] @ push_text ''not_after'' (format_date d) | None \<Rightarrow> []) @ [0x7d]"

definition trust_anchors_json :: "bundle_trust_anchor list \<Rightarrow> bytes" where
  "trust_anchors_json anchors = [0x7b] @
     push_text ''schema_version'' ''hyperion-certification-trust-anchors-1.0'' @ [0x2c] @
     push_member ''trust_anchors'' (array_json trust_anchor_json anchors) @ [0x7d, 0x0a]"

section \<open>Loading\<close>

definition verifying_key_from_hex :: "'k ed25519 \<Rightarrow> string \<Rightarrow> 'k krn_result" where
  "verifying_key_from_hex ed public_key_hex =
     rbind (decode_hex public_key_hex) (\<lambda>bs.
       if length bs \<noteq> 32 then Inl InvalidProfile else ok_or (ed_key_of_bytes ed bs) InvalidProfile)"

definition signature_from_hex :: "string \<Rightarrow> bytes krn_result" where
  "signature_from_hex signature_hex =
     rbind (decode_hex signature_hex) (\<lambda>bs. if length bs \<noteq> 64 then Inl InvalidProfile else Inr bs)"

definition bundle_signature_message :: "string \<Rightarrow> string \<Rightarrow> bytes \<Rightarrow> bytes" where
  "bundle_signature_message signer_id fingerprint payload_sha256 =
     CERTIFICATION_BUNDLE_SIGNATURE_DOMAIN @ [0] @ utf8 signer_id @ [0] @ utf8 fingerprint @ [0] @ payload_sha256"

definition anchor_of :: "bundle_signature \<Rightarrow> bundle_trust_anchor list \<Rightarrow> bundle_trust_anchor option" where
  "anchor_of sig anchors = List.find (\<lambda>a. bta_signer_id a = bsig_signer_id sig \<and>
     bta_signing_key_fingerprint a = bsig_signing_key_fingerprint sig) anchors"

definition verify_bundle_signature ::
    "'k ed25519 \<Rightarrow> certification_bundle \<Rightarrow> bytes \<Rightarrow> bundle_load_policy \<Rightarrow> string krn_result" where
  "verify_bundle_signature ed b payload_sha256 policy =
     (let sig = cb_signature b in
      if bsig_algorithm sig = CERTIFICATION_BUNDLE_TEST_ALGORITHM \<and> cb_bundle_class b = BundleTesting \<and>
         blp_mode policy = ModeTest
      then rbind (validate_hex_len (bsig_signature_hex sig) 32) (\<lambda>_. Inr ''testing-self-attested'')
      else if bsig_algorithm sig \<noteq> CERTIFICATION_BUNDLE_SIGNATURE_ALGORITHM then Inl InvalidProfile
      else rbind (ok_or (anchor_of sig (blp_trust_anchors policy)) InvalidProfile) (\<lambda>anchor.
        if (case bta_not_after anchor of Some not_after \<Rightarrow> not_after < blp_evaluation_date policy | None \<Rightarrow> False)
        then Inl InvalidProfile
        else if bta_allowed_payload_sha256 anchor \<noteq> hex_text payload_sha256 then Inl InvalidProfile
        else rbind (verifying_key_from_hex ed (bta_verification_public_key_hex anchor)) (\<lambda>verification_key.
          if hex_text (sha256 (ed_key_bytes ed verification_key)) \<noteq> bsig_signing_key_fingerprint sig
          then Inl InvalidProfile
          else rbind (signature_from_hex (bsig_signature_hex sig)) (\<lambda>signature.
            let message = bundle_signature_message (bsig_signer_id sig) (bsig_signing_key_fingerprint sig) payload_sha256 in
            if ed_verify ed verification_key message signature then Inr ''trust-anchor-verified''
            else Inl InvalidProfile))))"

definition validate_bundle_for_policy :: "certification_bundle \<Rightarrow> bundle_load_policy \<Rightarrow> unit krn_result" where
  "validate_bundle_for_policy b policy =
     (if cb_created b > blp_evaluation_date policy then Inl InvalidProfile
      else if cb_rollback_counter b \<le> blp_installed_rollback_counter policy then Inl InvalidProfile
      else case blp_mode policy of
        ModeTest \<Rightarrow> Inr ()
      | _ \<Rightarrow> if cb_bundle_class b \<noteq> BundleCertification then Inl InvalidProfile
             else if blp_trust_anchors policy = [] then Inl InvalidProfile else Inr ())"

definition load_certification_bundle ::
    "'k ed25519 \<Rightarrow> bytes \<Rightarrow> bundle_load_policy \<Rightarrow> loaded_certification_bundle krn_result" where
  "load_certification_bundle ed bundle_json policy =
     (if bundle_json = [] \<or> length bundle_json > MAX_CERTIFICATION_BUNDLE_BYTES then Inl LengthOverflow
      else
      rbind (parse_certification_bundle bundle_json) (\<lambda>b.
      rbind (validate_bundle_for_policy b policy) (\<lambda>_.
      let payload_sha256 = sha256 (payload_canonical_json (cb_payload b)) in
      if bsig_payload_sha256 (cb_signature b) \<noteq> hex_text payload_sha256 then Inl InvalidProfile
      else
      rbind (verify_bundle_signature ed b payload_sha256 policy) (\<lambda>verification_status.
      rbind (load_profile_set (utf8 (cbp_scheme_profile_set_json (cb_payload b)))
        \<lparr>policy_mode = (if cb_bundle_class b = BundleTesting then ModeTest else blp_mode policy),
         policy_signature_status =
           (if verification_status = ''testing-self-attested'' then SignatureNotPresent else SignatureVerified),
         policy_installed_version = blp_installed_rollback_counter policy,
         policy_candidate_version = cb_rollback_counter b,
         policy_evaluation_date = blp_evaluation_date policy\<rparr>) (\<lambda>profile_set.
        Inr \<lparr>lcb_bundle = b, lcb_profile_set = profile_set, lcb_bundle_sha256 = sha256 bundle_json,
             lcb_payload_sha256 = payload_sha256,
             lcb_scheme_profile_sha256 = sha256 (utf8 (cbp_scheme_profile_set_json (cb_payload b))),
             lcb_vector_bundle_sha256 = sha256 (utf8 (cbp_vector_bundle_json (cb_payload b))),
             lcb_verification_status = verification_status\<rparr>)))))"

section \<open>Making a bundle\<close>

record bundle_provisioning_input =
  bpi_bundle_id :: string
  bpi_bundle_version :: u64
  bpi_rollback_counter :: u64
  bpi_bundle_class :: bundle_class
  bpi_created :: emv_date
  bpi_product_name :: string
  bpi_product_version :: string
  bpi_certification_target :: string
  bpi_interfaces :: string
  bpi_authorities :: string
  bpi_emv_contact_version :: string
  bpi_emv_contactless_kernel :: string
  bpi_bulletins_included :: string
  bpi_bulletins_excluded :: string
  bpi_terminal_type :: string
  bpi_device_model :: string
  bpi_firmware_version :: string
  bpi_l1_approval_reference :: string
  bpi_pci_pts_reference :: string
  bpi_kernel_profile_id :: string
  bpi_kernel_interface :: string
  bpi_kernel_algorithm :: string
  bpi_c8_package :: string
  bpi_scheme_scope :: string
  bpi_vector_class :: string
  bpi_signer_id :: string
  bpi_signing_private_key_hex :: "string option"
  bpi_trust_not_after :: "emv_date option"
  bpi_callback_timeouts :: "callback_timeout_profile option"
  bpi_scheme_profile_set_json :: string
  bpi_vector_bundle_json :: string

text \<open>\<open>split(',')\<close>: one more item than there are commas.\<close>

fun split_comma :: "string \<Rightarrow> string list" where
  "split_comma [] = [[]]"
| "split_comma (c # s) =
     (if c = CHR 0x2c then [] # split_comma s
      else case split_comma s of [] \<Rightarrow> [[c]] | item # items \<Rightarrow> (c # item) # items)"

definition csv_items :: "string \<Rightarrow> string list" where
  "csv_items inp = filter (\<lambda>item. item \<noteq> []) (map trim_text (split_comma inp))"

definition split_csv :: "string \<Rightarrow> string list krn_result" where
  "split_csv inp = rbind (validate_non_empty_set (csv_items inp)) (\<lambda>_. Inr (csv_items inp))"

definition split_csv_allow_empty :: "string \<Rightarrow> string list krn_result" where
  "split_csv_allow_empty inp = rbind (reject_duplicates (csv_items inp)) (\<lambda>_. Inr (csv_items inp))"

definition signing_key_from_hex :: "string \<Rightarrow> bytes krn_result" where
  "signing_key_from_hex secret_hex =
     rbind (decode_hex secret_hex) (\<lambda>bs. if length bs \<noteq> 32 then Inl InvalidProfile else Inr bs)"

definition signature_ed25519_hex :: "'k ed25519 \<Rightarrow> bytes \<Rightarrow> string \<Rightarrow> string \<Rightarrow> bytes \<Rightarrow> string" where
  "signature_ed25519_hex ed signing_key signer_id fingerprint payload_sha256 =
     hex_text (ed_sign ed signing_key (bundle_signature_message signer_id fingerprint payload_sha256))"

definition provisioned_payload ::
    "bundle_provisioning_input \<Rightarrow> callback_timeout_profile \<Rightarrow> certification_bundle_payload krn_result" where
  "provisioned_payload inp callback_timeouts =
     rbind (split_csv (bpi_interfaces inp)) (\<lambda>interfaces.
     rbind (split_csv (bpi_authorities inp)) (\<lambda>authorities.
     rbind (split_csv (bpi_bulletins_included inp)) (\<lambda>included.
     rbind (split_csv_allow_empty (bpi_bulletins_excluded inp)) (\<lambda>excluded.
     rbind (split_csv (bpi_interfaces inp)) (\<lambda>supported.
     rbind (split_csv (bpi_scheme_scope inp)) (\<lambda>registry_scope.
     rbind (split_csv (bpi_scheme_scope inp)) (\<lambda>extension_scope.
       Inr \<lparr>cbp_submission_scope =
         \<lparr>ss_product_name = bpi_product_name inp, ss_product_version = bpi_product_version inp,
          ss_certification_target = bpi_certification_target inp, ss_interfaces = interfaces,
          ss_authorities = authorities\<rparr>,
        cbp_standards_target =
         \<lparr>stt_emv_contact_version = bpi_emv_contact_version inp,
          stt_emv_contactless_kernel = bpi_emv_contactless_kernel inp,
          stt_bulletins_included = included, stt_bulletins_excluded = excluded\<rparr>,
        cbp_terminal_profile =
         \<lparr>tp_terminal_type = bpi_terminal_type inp, tp_device_model = bpi_device_model inp,
          tp_firmware_version = bpi_firmware_version inp, tp_l1_approval_reference = bpi_l1_approval_reference inp,
          tp_pci_pts_reference = bpi_pci_pts_reference inp, tp_supported_interfaces = supported\<rparr>,
        cbp_runtime_policy =
         \<lparr>rp_callback_timeouts = callback_timeouts,
          rp_offline_counter_persistence = ''terminal-nonvolatile-counter-required'',
          rp_trace_masking_policy = ''mask-pan-track-equivalent-cryptogram-pin-and-sensitive-tlv''\<rparr>,
        cbp_kernel_registry =
         [\<lparr>kr_kernel_profile_id = bpi_kernel_profile_id inp, kr_interface = bpi_kernel_interface inp,
           kr_algorithm = bpi_kernel_algorithm inp, kr_c8_package = bpi_c8_package inp,
           kr_scheme_scope = registry_scope\<rparr>],
        cbp_cvm_extensions =
         [\<lparr>ce_rule_id = ''baseline-cvm-extension-data'', ce_scheme_scope = extension_scope,
           ce_cvm_code_hex = ''1E'', ce_meaning = ''signature-or-cdcvm-as-authority-profiled'',
           ce_tvr_on_failure_hex = ''0000000000'', ce_continue_on_failure = True\<rparr>],
        cbp_test_plan =
         [\<lparr>ctc_case_id = ''CERT-DATA-0001'', ctc_vector_class = bpi_vector_class inp,
           ctc_expected_outcome = ''bundle-loads-and-profile-validates'',
           ctc_trace_requirement = ''masked-apdu-trace-required-for-submission''\<rparr>],
        cbp_artifact_hashes =
         [\<lparr>ahb_artifact_id = ''scheme_profile_set_json'', ahb_artifact_kind = ''scheme-profile'',
           ahb_sha256_hex = hex_text (sha256 (utf8 (bpi_scheme_profile_set_json inp))),
           ahb_binds_open_issues = [''CERT-OPEN-002'', ''CERT-OPEN-003'']\<rparr>,
          \<lparr>ahb_artifact_id = ''vector_bundle_json'', ahb_artifact_kind = ''test-vectors'',
           ahb_sha256_hex = hex_text (sha256 (utf8 (bpi_vector_bundle_json inp))),
           ahb_binds_open_issues = [''CERT-OPEN-004'', ''CERT-OPEN-012'']\<rparr>],
        cbp_scheme_profile_set_json = bpi_scheme_profile_set_json inp,
        cbp_vector_bundle_json = bpi_vector_bundle_json inp\<rparr>)))))))"

definition signed_bundle ::
    "'k ed25519 \<Rightarrow> bundle_provisioning_input \<Rightarrow> certification_bundle_payload \<Rightarrow> bytes \<Rightarrow> certification_bundle" where
  "signed_bundle ed inp payload signing_key =
     (let payload_hash = sha256 (payload_canonical_json payload);
          fingerprint = hex_text (sha256 (ed_key_bytes ed (ed_verifying_key ed signing_key)));
          signature_hex = signature_ed25519_hex ed signing_key (bpi_signer_id inp) fingerprint payload_hash in
      \<lparr>cb_schema_version = CERTIFICATION_BUNDLE_SCHEMA_VERSION, cb_bundle_id = bpi_bundle_id inp,
       cb_bundle_version = bpi_bundle_version inp, cb_rollback_counter = bpi_rollback_counter inp,
       cb_bundle_class = bpi_bundle_class inp, cb_created = bpi_created inp, cb_payload = payload,
       cb_signature =
         \<lparr>bsig_algorithm = CERTIFICATION_BUNDLE_SIGNATURE_ALGORITHM, bsig_signer_id = bpi_signer_id inp,
          bsig_signing_key_fingerprint = fingerprint, bsig_payload_sha256 = hex_text payload_hash,
          bsig_signature_hex = signature_hex,
          bsig_signature_artifact_sha256 = hex_text (sha256 (utf8 signature_hex))\<rparr>\<rparr>)"

definition provisioned_anchor ::
    "'k ed25519 \<Rightarrow> bundle_provisioning_input \<Rightarrow> certification_bundle_payload \<Rightarrow> bytes \<Rightarrow> bundle_trust_anchor" where
  "provisioned_anchor ed inp payload signing_key =
     (let verification_public_key = ed_key_bytes ed (ed_verifying_key ed signing_key) in
      \<lparr>bta_signer_id = bpi_signer_id inp, bta_signing_key_fingerprint = hex_text (sha256 verification_public_key),
       bta_verification_public_key_hex = hex_text verification_public_key,
       bta_allowed_payload_sha256 = hex_text (sha256 (payload_canonical_json payload)),
       bta_not_after = bpi_trust_not_after inp\<rparr>)"

definition create_bundle_from_inputs :: "'k ed25519 \<Rightarrow> bundle_provisioning_input \<Rightarrow> (bytes \<times> bytes) krn_result" where
  "create_bundle_from_inputs ed inp =
     rbind (validate_identifier (bpi_bundle_id inp)) (\<lambda>_.
     let callback_timeouts = (case bpi_callback_timeouts inp of Some t \<Rightarrow> t | None \<Rightarrow> callback_timeouts_defaults) in
     rbind (validate_callback_timeouts callback_timeouts) (\<lambda>_.
     let secret = (case bpi_signing_private_key_hex inp of Some s \<Rightarrow> s | None \<Rightarrow> DEFAULT_FIXTURE_SIGNING_PRIVATE_KEY_HEX) in
     rbind (validate_hex_len secret 32) (\<lambda>_.
     rbind (provisioned_payload inp callback_timeouts) (\<lambda>payload.
     rbind (validate_payload payload) (\<lambda>_.
     rbind (signing_key_from_hex secret) (\<lambda>signing_key.
       Inr (certification_bundle_json (signed_bundle ed inp payload signing_key),
            trust_anchors_json [provisioned_anchor ed inp payload signing_key])))))))"

section \<open>What is accepted\<close>

text \<open>A bundle is current when it is not from the future, newer than what is installed, and of the
  certification class wherever that is asked for; it is attested by itself only in test mode.\<close>

definition bundle_current :: "bundle_load_policy \<Rightarrow> certification_bundle \<Rightarrow> bool" where
  "bundle_current policy b \<longleftrightarrow>
     cb_created b \<le> blp_evaluation_date policy \<and> blp_installed_rollback_counter policy < cb_rollback_counter b \<and>
     (blp_mode policy = ModeTest \<or> cb_bundle_class b = BundleCertification \<and> blp_trust_anchors policy \<noteq> [])"

definition self_attested :: "bundle_load_policy \<Rightarrow> certification_bundle \<Rightarrow> bool" where
  "self_attested policy b \<longleftrightarrow>
     blp_mode policy = ModeTest \<and> cb_bundle_class b = BundleTesting \<and>
     bsig_algorithm (cb_signature b) = CERTIFICATION_BUNDLE_TEST_ALGORITHM"

text \<open>The first trust anchor with the signer's name and fingerprint has not expired, allows this payload, and
  holds a key with that fingerprint under which the signature of the payload hash verifies.\<close>

definition signed_by_anchor :: "'k ed25519 \<Rightarrow> bundle_load_policy \<Rightarrow> certification_bundle \<Rightarrow> bytes \<Rightarrow> bool" where
  "signed_by_anchor ed policy b payload_sha256 \<longleftrightarrow>
     (\<exists>anchor key_bytes key signature.
        bsig_algorithm (cb_signature b) = CERTIFICATION_BUNDLE_SIGNATURE_ALGORITHM \<and>
        anchor_of (cb_signature b) (blp_trust_anchors policy) = Some anchor \<and>
        (case bta_not_after anchor of Some d \<Rightarrow> blp_evaluation_date policy \<le> d | None \<Rightarrow> True) \<and>
        bta_allowed_payload_sha256 anchor = hex_text payload_sha256 \<and>
        decode_hex (bta_verification_public_key_hex anchor) = Inr key_bytes \<and> length key_bytes = 32 \<and>
        ed_key_of_bytes ed key_bytes = Some key \<and>
        hex_text (sha256 (ed_key_bytes ed key)) = bsig_signing_key_fingerprint (cb_signature b) \<and>
        decode_hex (bsig_signature_hex (cb_signature b)) = Inr signature \<and> length signature = 64 \<and>
        ed_verify ed key (bundle_signature_message (bsig_signer_id (cb_signature b))
          (bsig_signing_key_fingerprint (cb_signature b)) payload_sha256) signature)"

lemma validate_bundle_for_policy_iff: "validate_bundle_for_policy b policy = Inr () \<longleftrightarrow> bundle_current policy b"
  by (cases "blp_mode policy") (auto simp: validate_bundle_for_policy_def bundle_current_def not_less not_le)

lemma validate_hex_len_iff: "validate_hex_len v n = Inr () \<longleftrightarrow> (\<exists>bs. decode_hex v = Inr bs \<and> length bs = n)"
  by (auto simp: validate_hex_len_def rbind_eq_Inr)

lemma verify_bundle_signature_iff:
  "verify_bundle_signature ed b payload_sha256 policy = Inr status \<longleftrightarrow>
     (if self_attested policy b
      then (\<exists>bs. decode_hex (bsig_signature_hex (cb_signature b)) = Inr bs \<and> length bs = 32) \<and>
           status = ''testing-self-attested''
      else signed_by_anchor ed policy b payload_sha256 \<and> status = ''trust-anchor-verified'')"
proof (cases "self_attested policy b")
  case True
  then show ?thesis
    by (auto simp: verify_bundle_signature_def self_attested_def Let_def rbind_eq_Inr validate_hex_len_iff)
next
  case False
  then have no: "(bsig_algorithm (cb_signature b) = CERTIFICATION_BUNDLE_TEST_ALGORITHM \<and> cb_bundle_class b = BundleTesting \<and>
      blp_mode policy = ModeTest) = False"
    by (auto simp: self_attested_def)
  have expired: "(case d of Some not_after \<Rightarrow> not_after < e | None \<Rightarrow> False) \<longleftrightarrow>
      \<not> (case d of Some not_after \<Rightarrow> e \<le> not_after | None \<Rightarrow> True)" for d and e :: emv_date
    by (cases d) (simp_all add: not_le)
  have ok: "(if P then Inr x else Inl e) = Inr y \<longleftrightarrow> P \<and> y = x" for P and x y :: 'z and e :: kernel_error
    by auto
  have "verify_bundle_signature ed b payload_sha256 policy = Inr status \<longleftrightarrow>
      signed_by_anchor ed policy b payload_sha256 \<and> status = ''trust-anchor-verified''"
    unfolding verify_bundle_signature_def Let_def signed_by_anchor_def
      verifying_key_from_hex_def signature_from_hex_def no if_False
    by (simp only: if_Inl_eq_Inr krn_simps conj_assoc not_not expired ok sum.inject) blast
  with False show ?thesis by simp
qed

lemma load_certification_bundle_eq_Inr:
  "load_certification_bundle ed json policy = Inr l \<longleftrightarrow>
     (let b = lcb_bundle l; payload_sha256 = sha256 (payload_canonical_json (cb_payload b)) in
      json \<noteq> [] \<and> length json \<le> MAX_CERTIFICATION_BUNDLE_BYTES \<and> parse_certification_bundle json = Inr b \<and>
      bundle_current policy b \<and> bsig_payload_sha256 (cb_signature b) = hex_text payload_sha256 \<and>
      verify_bundle_signature ed b payload_sha256 policy = Inr (lcb_verification_status l) \<and>
      load_profile_set (utf8 (cbp_scheme_profile_set_json (cb_payload b)))
        \<lparr>policy_mode = (if cb_bundle_class b = BundleTesting then ModeTest else blp_mode policy),
         policy_signature_status =
           (if lcb_verification_status l = ''testing-self-attested'' then SignatureNotPresent else SignatureVerified),
         policy_installed_version = blp_installed_rollback_counter policy,
         policy_candidate_version = cb_rollback_counter b,
         policy_evaluation_date = blp_evaluation_date policy\<rparr> = Inr (lcb_profile_set l) \<and>
      lcb_bundle_sha256 l = sha256 json \<and> lcb_payload_sha256 l = payload_sha256 \<and>
      lcb_scheme_profile_sha256 l = sha256 (utf8 (cbp_scheme_profile_set_json (cb_payload b))) \<and>
      lcb_vector_bundle_sha256 l = sha256 (utf8 (cbp_vector_bundle_json (cb_payload b))))"
proof -
  have unit: "(\<exists>u. validate_bundle_for_policy b policy = Inr u \<and> P u) \<longleftrightarrow> bundle_current policy b \<and> P ()" for b P
    using validate_bundle_for_policy_iff [of b policy] by auto
  show ?thesis
    unfolding load_certification_bundle_def Let_def
    by (cases l) (simp only: if_Inl_eq_Inr rbind_eq_Inr unit, safe, simp_all add: not_less)
qed

lemma bundle_accepted:
  "(\<exists>l. load_certification_bundle ed json policy = Inr l \<and> lcb_bundle l = b \<and> lcb_profile_set l = ps) \<longleftrightarrow>
     json \<noteq> [] \<and> length json \<le> MAX_CERTIFICATION_BUNDLE_BYTES \<and> parse_certification_bundle json = Inr b \<and>
     bundle_current policy b \<and>
     bsig_payload_sha256 (cb_signature b) = hex_text (sha256 (payload_canonical_json (cb_payload b))) \<and>
     (if self_attested policy b
      then \<exists>bs. decode_hex (bsig_signature_hex (cb_signature b)) = Inr bs \<and> length bs = 32
      else signed_by_anchor ed policy b (sha256 (payload_canonical_json (cb_payload b)))) \<and>
     load_profile_set (utf8 (cbp_scheme_profile_set_json (cb_payload b)))
       \<lparr>policy_mode = (if cb_bundle_class b = BundleTesting then ModeTest else blp_mode policy),
        policy_signature_status = (if self_attested policy b then SignatureNotPresent else SignatureVerified),
        policy_installed_version = blp_installed_rollback_counter policy,
        policy_candidate_version = cb_rollback_counter b,
        policy_evaluation_date = blp_evaluation_date policy\<rparr> = Inr ps"
proof -
  have status: "(if (if self_attested policy b then ''testing-self-attested'' else ''trust-anchor-verified'') =
      ''testing-self-attested'' then SignatureNotPresent else SignatureVerified) =
    (if self_attested policy b then SignatureNotPresent else SignatureVerified)" by simp
  show ?thesis (is "?loaded \<longleftrightarrow> ?accepted")
  proof
    assume ?loaded
    then show ?accepted
      unfolding load_certification_bundle_eq_Inr verify_bundle_signature_iff Let_def by (auto split: if_splits)
  next
    assume r: ?accepted
    let ?status = "if self_attested policy b then ''testing-self-attested'' else ''trust-anchor-verified''"
    let ?p = "sha256 (payload_canonical_json (cb_payload b))"
    let ?l = "\<lparr>lcb_bundle = b, lcb_profile_set = ps, lcb_bundle_sha256 = sha256 json, lcb_payload_sha256 = ?p,
      lcb_scheme_profile_sha256 = sha256 (utf8 (cbp_scheme_profile_set_json (cb_payload b))),
      lcb_vector_bundle_sha256 = sha256 (utf8 (cbp_vector_bundle_json (cb_payload b))),
      lcb_verification_status = ?status\<rparr>"
    from r have "load_certification_bundle ed json policy = Inr ?l"
      unfolding load_certification_bundle_eq_Inr verify_bundle_signature_iff Let_def
      by (auto split: if_splits)
    then show ?loaded by (intro exI [of _ ?l]) simp
  qed
qed

section \<open>Properties\<close>

text \<open>C20: A certification bundle is accepted exactly when it parses, is not from the future, has a higher
  rollback counter than the installed one and the class the mode asks for, its signed hash is that of its
  canonical payload, and its signature verifies under an unexpired trust anchor that allows this very
  payload and whose key has the fingerprint that was signed; only in test mode a bundle of the testing
  class may attest itself.  Its profile set is then loaded under the same date and counters.\<close>

theorem certification_bundle_accepted_iff:
  "(\<exists>l. load_certification_bundle ed json policy = Inr l \<and> lcb_bundle l = b \<and> lcb_profile_set l = ps) \<longleftrightarrow>
     json \<noteq> [] \<and> length json \<le> MAX_CERTIFICATION_BUNDLE_BYTES \<and> parse_certification_bundle json = Inr b \<and>
     bundle_current policy b \<and>
     bsig_payload_sha256 (cb_signature b) = hex_text (sha256 (payload_canonical_json (cb_payload b))) \<and>
     (if self_attested policy b
      then \<exists>bs. decode_hex (bsig_signature_hex (cb_signature b)) = Inr bs \<and> length bs = 32
      else signed_by_anchor ed policy b (sha256 (payload_canonical_json (cb_payload b)))) \<and>
     load_profile_set (utf8 (cbp_scheme_profile_set_json (cb_payload b)))
       \<lparr>policy_mode = (if cb_bundle_class b = BundleTesting then ModeTest else blp_mode policy),
        policy_signature_status = (if self_attested policy b then SignatureNotPresent else SignatureVerified),
        policy_installed_version = blp_installed_rollback_counter policy,
        policy_candidate_version = cb_rollback_counter b,
        policy_evaluation_date = blp_evaluation_date policy\<rparr> = Inr ps"
  by (rule bundle_accepted)

end
