(* ===== verification/Emv_Manifest.thy ===== *)
theory Emv_Manifest
  imports Emv_Provenance Emv_Writer "HOL-Library.Multiset"
begin

text \<open>
  The build manifest (\<open>src/src/provenance.rs\<close>): the digests of the artifacts by name, and their JSON.
  A text is the bytes of its UTF-8 encoding; the texts that are written as JSON are ASCII, so a byte
  is a character.
\<close>

section \<open>The manifest\<close>

definition MAX_PROVENANCE_ARTIFACTS :: nat where "MAX_PROVENANCE_ARTIFACTS = 128"
definition MAX_PROVENANCE_ARTIFACT_BYTES :: nat where "MAX_PROVENANCE_ARTIFACT_BYTES = 64 * 1024 * 1024"

record artifact =
  art_name :: bytes
  art_bytes :: bytes

record artifact_digest =
  ad_name :: bytes
  ad_len :: nat
  ad_sha256 :: bytes

record build_provenance =
  bp_kernel_name :: bytes
  bp_kernel_version :: bytes
  bp_abi_version :: u32
  bp_artifacts :: "artifact_digest list"

definition artifact_name_char :: "byte \<Rightarrow> bool" where
  "artifact_name_char b \<longleftrightarrow> 0x61 \<le> b \<and> b \<le> 0x7a \<or> 0x41 \<le> b \<and> b \<le> 0x5a \<or> 0x30 \<le> b \<and> b \<le> 0x39 \<or>
     b \<in> {0x2e, 0x5f, 0x2d, 0x2f}"

text \<open>\<open>split('/')\<close>: one more segment than there are slashes.\<close>

fun path_segments :: "bytes \<Rightarrow> bytes list" where
  "path_segments [] = [[]]"
| "path_segments (b # bs) =
     (if b = 0x2f then [] # path_segments bs
      else case path_segments bs of [] \<Rightarrow> [[b]] | s # ss \<Rightarrow> (b # s) # ss)"

definition validate_artifact :: "artifact \<Rightarrow> unit krn_result" where
  "validate_artifact a =
     (if art_name a = [] \<or> length (art_name a) > 256 \<or> art_bytes a = [] \<or>
         length (art_bytes a) > MAX_PROVENANCE_ARTIFACT_BYTES \<or>
         list_ex (\<lambda>b. \<not> artifact_name_char b) (art_name a) then Inl InvalidArgument
      else if take 1 (art_name a) = [0x2f] \<or>
         list_ex (\<lambda>s. s = [] \<or> s = [0x2e] \<or> s = [0x2e, 0x2e]) (path_segments (art_name a))
      then Inl InvalidArgument
      else Inr ())"

definition digest_of :: "artifact \<Rightarrow> artifact_digest" where
  "digest_of a = \<lparr>ad_name = art_name a, ad_len = length (art_bytes a), ad_sha256 = sha256 (art_bytes a)\<rparr>"

definition artifact_step :: "artifact \<Rightarrow> artifact_digest krn_result" where
  "artifact_step a = rbind (validate_artifact a) (\<lambda>_. Inr (digest_of a))"

fun adjacent_names_differ :: "artifact_digest list \<Rightarrow> bool" where
  "adjacent_names_differ (d # e # ds) \<longleftrightarrow> ad_name d \<noteq> ad_name e \<and> adjacent_names_differ (e # ds)"
| "adjacent_names_differ _ \<longleftrightarrow> True"

definition KERNEL_NAME :: bytes where "KERNEL_NAME = ascii ''hyperion-emv''"
definition KERNEL_VERSION :: bytes where "KERNEL_VERSION = ascii ''0.1.0''"

definition build_provenance_manifest :: "u32 \<Rightarrow> artifact list \<Rightarrow> build_provenance krn_result" where
  "build_provenance_manifest abi_version artifacts =
     (if artifacts = [] \<or> length artifacts > MAX_PROVENANCE_ARTIFACTS then Inl LengthOverflow
      else rbind (rmapM artifact_step artifacts) (\<lambda>digests.
        let digests = sort_key ad_name digests in
        if \<not> adjacent_names_differ digests then Inl InvalidArgument
        else Inr \<lparr>bp_kernel_name = KERNEL_NAME, bp_kernel_version = KERNEL_VERSION,
                  bp_abi_version = abi_version, bp_artifacts = digests\<rparr>))"

definition artifact_json :: "artifact_digest \<Rightarrow> bytes" where
  "artifact_json d = [0x7b] @ push_json_str ''name'' (ad_name d) @ [0x2c] @ push_json_number ''len'' (ad_len d) @
     [0x2c] @ push_json_str ''sha256'' (to_hex (ad_sha256 d)) @ [0x7d]"

definition provenance_json :: "build_provenance \<Rightarrow> bytes" where
  "provenance_json p = [0x7b] @ push_json_str ''type'' (ascii ''build-provenance'') @ [0x2c] @
     push_json_str ''kernel_name'' (bp_kernel_name p) @ [0x2c] @
     push_json_str ''kernel_version'' (bp_kernel_version p) @ [0x2c] @
     push_json_number ''abi_version'' (unat (bp_abi_version p)) @
     ascii '',\"artifacts\":['' @ join (map artifact_json (bp_artifacts p)) @ ascii '']}''"

section \<open>What a manifest holds\<close>

text \<open>A relative path of plain segments.\<close>

definition artifact_name_ok :: "bytes \<Rightarrow> bool" where
  "artifact_name_ok name \<longleftrightarrow> length name \<le> 256 \<and> list_all artifact_name_char name \<and>
     list_all (\<lambda>s. s \<notin> {[], [0x2e], [0x2e, 0x2e]}) (path_segments name)"

definition artifact_ok :: "artifact \<Rightarrow> bool" where
  "artifact_ok a \<longleftrightarrow> artifact_name_ok (art_name a) \<and> art_bytes a \<noteq> [] \<and>
     length (art_bytes a) \<le> MAX_PROVENANCE_ARTIFACT_BYTES"

lemma validate_artifact_iff: "validate_artifact a = Inr () \<longleftrightarrow> artifact_ok a"
proof -
  have "\<not> list_all (\<lambda>s. s \<notin> {[], [0x2e], [0x2e, 0x2e]}) (path_segments name)"
    if "name = [] \<or> take 1 name = [0x2f]" for name
    using that by (cases name) auto
  then show ?thesis
    by (auto simp: validate_artifact_def artifact_ok_def artifact_name_ok_def list_ex_iff list_all_iff split: if_splits)
qed

lemma adjacent_distinct: "sorted (map ad_name ds) \<Longrightarrow> adjacent_names_differ ds \<longleftrightarrow> distinct (map ad_name ds)"
proof (induction ds rule: adjacent_names_differ.induct)
  case (1 d e ds)
  then show ?case by auto
qed auto

lemma build_provenance_manifest_eq:
  "build_provenance_manifest abi_version artifacts = Inr p \<longleftrightarrow>
     artifacts \<noteq> [] \<and> length artifacts \<le> MAX_PROVENANCE_ARTIFACTS \<and> list_all artifact_ok artifacts \<and>
     distinct (map art_name artifacts) \<and>
     p = \<lparr>bp_kernel_name = KERNEL_NAME, bp_kernel_version = KERNEL_VERSION, bp_abi_version = abi_version,
          bp_artifacts = sort_key ad_name (map digest_of artifacts)\<rparr>"
proof -
  have step: "artifact_step a = Inr d \<longleftrightarrow> artifact_ok a \<and> d = digest_of a" for a d
    using validate_artifact_iff [of a] by (cases "validate_artifact a") (auto simp: artifact_step_def)
  have run: "rmapM artifact_step artifacts = Inr ds \<longleftrightarrow> list_all artifact_ok artifacts \<and> ds = map digest_of artifacts" for ds
    unfolding rmapM_eq_Inr_list_all2 step
    by (induction artifacts arbitrary: ds) (auto simp: list_all2_Cons1)
  have "distinct (map ad_name (sort_key ad_name (map digest_of artifacts))) \<longleftrightarrow> distinct (map art_name artifacts)"
  proof -
    have "mset (map ad_name (sort_key ad_name (map digest_of artifacts))) = mset (map art_name artifacts)"
      by (simp add: digest_of_def comp_def image_mset.compositionality)
    then show ?thesis by (rule mset_eq_imp_distinct_iff)
  qed
  moreover have "adjacent_names_differ (sort_key ad_name (map digest_of artifacts)) \<longleftrightarrow>
      distinct (map ad_name (sort_key ad_name (map digest_of artifacts)))"
    by (rule adjacent_distinct) simp
  ultimately show ?thesis
    unfolding build_provenance_manifest_def by (auto simp: rbind_eq_Inr run Let_def not_less)
qed

text \<open>The value that the JSON of a manifest denotes.\<close>

definition artifact_value :: "artifact_digest \<Rightarrow> json_value" where
  "artifact_value d = JsonObject [(''name'', json_ascii (ad_name d)), (''len'', JsonNumber (word_of_nat (ad_len d))),
     (''sha256'', json_ascii (to_hex (ad_sha256 d)))]"

definition provenance_value :: "build_provenance \<Rightarrow> json_value" where
  "provenance_value p = JsonObject
     [(''type'', JsonString ''build-provenance''), (''kernel_name'', json_ascii (bp_kernel_name p)),
      (''kernel_version'', json_ascii (bp_kernel_version p)),
      (''abi_version'', JsonNumber (ucast (bp_abi_version p))),
      (''artifacts'', JsonArray (map artifact_value (bp_artifacts p)))]"

lemma readable_name: "list_all artifact_name_char name \<Longrightarrow> list_all readable_char name"
proof -
  have "readable_char b" if "artifact_name_char b" for b
  proof -
    have "0x20 \<le> b \<and> b \<le> 0x7a"
      using that by (auto simp: artifact_name_char_def word_le_nat_alt)
    then show ?thesis by (auto simp: readable_char_def word_le_nat_alt)
  qed
  then show "list_all artifact_name_char name \<Longrightarrow> list_all readable_char name" by (auto simp: list_all_iff)
qed

definition digest_ok :: "artifact_digest \<Rightarrow> bool" where
  "digest_ok d \<longleftrightarrow> list_all readable_char (ad_name d) \<and> ad_len d < 2 ^ 64"

lemma keys: "list_all (list_all key_char)
    [''type'', ''kernel_name'', ''kernel_version'', ''abi_version'', ''artifacts'', ''name'', ''len'', ''sha256'']"
  by code_simp

lemma artifact_json_text: "digest_ok d \<Longrightarrow> json_text (artifact_value d) (artifact_json d)"
proof -
  assume d: "digest_ok d"
  let ?name = "0x22 # concat (map json_escape_char (ad_name d)) @ [0x22]"
  let ?hex = "0x22 # concat (map json_escape_char (to_hex (ad_sha256 d))) @ [0x22]"
  have v: "json_text (json_ascii (ad_name d)) ?name" "json_text (json_ascii (to_hex (ad_sha256 d))) ?hex"
    "json_text (JsonNumber (word_of_nat (ad_len d))) (decimal (ad_len d))"
    using d by (simp_all only: digest_ok_def json_ascii_def written_string readable_hex written_number)
  have k: "list_all key_char ''name''" "list_all key_char ''len''" "list_all key_char ''sha256''"
    using keys by simp_all
  note ms = written_member(2) [OF k(1) v(1) written_member(2) [OF k(2) v(3) written_member(1) [OF k(3) v(2)]]]
  show ?thesis
    using written_object [OF ms] by (simp add: artifact_value_def artifact_json_def push_json_str_def push_json_number_def)
qed

lemma provenance_json_text:
  assumes "list_all readable_char (bp_kernel_name p)" "list_all readable_char (bp_kernel_version p)"
    and "list_all digest_ok (bp_artifacts p)" and "bp_artifacts p \<noteq> []"
  shows "json_text (provenance_value p) (provenance_json p)"
proof -
  let ?s = "\<lambda>v. 0x22 # concat (map json_escape_char v) @ [0x22]"
  let ?arts = "0x5b # join (map artifact_json (bp_artifacts p)) @ [0x5d]"
  have type: "list_all readable_char (ascii ''build-provenance'')" "json_ascii (ascii ''build-provenance'') = JsonString ''build-provenance''"
    by code_simp+
  have "list_all2 json_text (map artifact_value (bp_artifacts p)) (map artifact_json (bp_artifacts p))"
    using assms(3) by (auto simp: list_all2_map1 list_all2_map2 list_all2_same list_all_iff artifact_json_text)
  note arts = written_array [OF this]
  have n: "unat (bp_abi_version p) < 2 ^ 64"
    by (rule order_less_le_trans [OF unsigned_less]) simp
  have v: "json_text (JsonString ''build-provenance'') (?s (ascii ''build-provenance''))"
    "json_text (json_ascii (bp_kernel_name p)) (?s (bp_kernel_name p))"
    "json_text (json_ascii (bp_kernel_version p)) (?s (bp_kernel_version p))"
    "json_text (JsonNumber (ucast (bp_abi_version p))) (decimal (unat (bp_abi_version p)))"
    "json_text (JsonArray (map artifact_value (bp_artifacts p))) ?arts"
    using written_string [OF type(1)] assms(1,2,4) type(2) arts written_number [OF n]
    by (simp_all add: json_ascii_def written_string)
  have k: "list_all key_char ''type''" "list_all key_char ''kernel_name''" "list_all key_char ''kernel_version''"
    "list_all key_char ''abi_version''" "list_all key_char ''artifacts''"
    using keys by simp_all
  note ms = written_member(2) [OF k(1) v(1) written_member(2) [OF k(2) v(2) written_member(2) [OF k(3) v(3)
    written_member(2) [OF k(4) v(4) written_member(1) [OF k(5) v(5)]]]]]
  have brackets: "ascii '',\"artifacts\":['' = 0x2c # 0x22 # ascii ''artifacts'' @ [0x22, 0x3a, 0x5b]"
    "ascii '']}'' = [0x5d, 0x7d]" by code_simp+
  show ?thesis
    using written_object [OF ms]
    by (simp add: provenance_value_def provenance_json_def push_json_str_def push_json_number_def brackets)
qed

lemma manifest_digests_ok:
  assumes "build_provenance_manifest abi_version artifacts = Inr p"
  shows "list_all digest_ok (bp_artifacts p)"
proof -
  have "digest_ok (digest_of a)" if "artifact_ok a" for a
    using that readable_name [of "art_name a"]
    by (simp add: artifact_ok_def artifact_name_ok_def digest_ok_def digest_of_def MAX_PROVENANCE_ARTIFACT_BYTES_def)
  then show ?thesis using assms
    by (auto simp: build_provenance_manifest_eq list_all_iff)
qed

section \<open>Properties\<close>

text \<open>C13: The SHA-256 of the kernel is that of FIPS 180-4 on every message, over one or two final blocks
  and with the rotating registers and the schedule computed in place.\<close>

theorem sha256_is_fips_180_4: "sha256 m = fips_sha256 m"
  by (rule sha256_fips)

text \<open>A manifest is built exactly from 1 to 128 non-empty artifacts of at most 64 MiB with different
  names, each a relative path of letters, digits and \<open>._-\<close> without empty, \<open>.\<close> or \<open>..\<close> segments; it
  lists the length and SHA-256 of every artifact, in the order of the names.\<close>

theorem build_provenance_manifest_iff:
  "build_provenance_manifest abi_version artifacts = Inr p \<longleftrightarrow>
     artifacts \<noteq> [] \<and> length artifacts \<le> 128 \<and> list_all artifact_ok artifacts \<and> distinct (map art_name artifacts) \<and>
     p = \<lparr>bp_kernel_name = KERNEL_NAME, bp_kernel_version = KERNEL_VERSION, bp_abi_version = abi_version,
          bp_artifacts = sort_key ad_name (map digest_of artifacts)\<rparr>"
  unfolding build_provenance_manifest_eq MAX_PROVENANCE_ARTIFACTS_def ..

text \<open>C29: The JSON of a manifest that was built reads back, with the kernel's own JSON parser, as the
  object it describes: its type, kernel name and version, interface version, and one object with
  name, length and digest per artifact.\<close>

theorem manifest_json_roundtrip:
  "case build_provenance_manifest abi_version artifacts of
     Inl _ \<Rightarrow> True
   | Inr p \<Rightarrow> json_parse (provenance_json p) = Inr (provenance_value p)"
proof (cases "build_provenance_manifest abi_version artifacts")
  case (Inr p)
  note ok = Inr [unfolded build_provenance_manifest_eq]
  have names: "list_all readable_char KERNEL_NAME" "list_all readable_char KERNEL_VERSION" by code_simp+
  have written: "json_text (provenance_value p) (provenance_json p)"
  proof (rule provenance_json_text [OF _ _ manifest_digests_ok [OF Inr]])
    have "length (bp_artifacts p) = length artifacts" using ok by simp
    then show "bp_artifacts p \<noteq> []" using ok by (metis length_0_conv)
  qed (use ok names in simp_all)
  have "fits 0 (provenance_value p)"
    by (simp add: provenance_value_def artifact_value_def json_ascii_def MAX_JSON_DEPTH_def list_all_iff)
  moreover have "json_nodes (provenance_value p) \<le> MAX_JSON_NODES"
  proof -
    have "json_nodes (artifact_value d) = 4" for d by (simp add: artifact_value_def json_ascii_def)
    then have "json_nodes (provenance_value p) = 6 + 4 * length (bp_artifacts p)"
      by (simp add: provenance_value_def json_ascii_def comp_def sum_list_triv)
    with ok show ?thesis by (simp add: MAX_JSON_NODES_def MAX_PROVENANCE_ARTIFACTS_def)
  qed
  ultimately have "json_parse (provenance_json p) = Inr (provenance_value p)"
    using written unfolding json_parse_eq_Inr by (intro exI [of _ "provenance_json p"] exI [of _ "[]"]) (simp add: ws_text_def)
  with Inr show ?thesis by simp
qed simp

end
