(* ===== verification/Emv_Trace.thy ===== *)
theory Emv_Trace
  imports Emv_Manifest Emv_Tlv Emv_Gac
begin

text \<open>
  Masked traces of the exchanges with the card, and their replay (\<open>src/src/trace.rs\<close>).  Texts are
  ASCII bytes, as in the manifest.  The Debug formatting of the types is left out.
\<close>

unbundle bit_operations_syntax

definition MAX_TRACE_FIELDS :: nat where "MAX_TRACE_FIELDS = 128"
definition MAX_REPLAY_STEPS :: nat where "MAX_REPLAY_STEPS = 256"
definition MAX_REPLAY_APDU_BYTES :: nat where "MAX_REPLAY_APDU_BYTES = 1024"

section \<open>The policy\<close>

datatype log_build_mode = LogProduction | LogCertification | LogDevelopment

datatype support_authorization = SupportDisabled | SupportVerified

record log_policy =
  lp_build_mode :: log_build_mode
  lp_support_authorization :: support_authorization
  lp_full_apdu :: bool
  lp_track2_debug_hash :: bool
  lp_transaction_cryptograms :: bool

definition policy_production :: log_policy where
  "policy_production = \<lparr>lp_build_mode = LogProduction, lp_support_authorization = SupportDisabled,
     lp_full_apdu = False, lp_track2_debug_hash = False, lp_transaction_cryptograms = False\<rparr>"

definition policy_certification_support :: log_policy where
  "policy_certification_support = \<lparr>lp_build_mode = LogCertification, lp_support_authorization = SupportVerified,
     lp_full_apdu = True, lp_track2_debug_hash = True, lp_transaction_cryptograms = False\<rparr>"

definition support_verified :: "log_policy \<Rightarrow> bool" where
  "support_verified p \<longleftrightarrow> lp_support_authorization p = SupportVerified"

definition allows_full_apdu :: "log_policy \<Rightarrow> bool" where
  "allows_full_apdu p \<longleftrightarrow> lp_full_apdu p \<and> support_verified p \<and> lp_build_mode p \<in> {LogCertification, LogDevelopment}"

definition allows_transaction_cryptograms :: "log_policy \<Rightarrow> bool" where
  "allows_transaction_cryptograms p \<longleftrightarrow>
     lp_transaction_cryptograms p \<and> support_verified p \<and> lp_build_mode p \<noteq> LogProduction"

definition allows_profile_defined_trace_data :: "log_policy \<Rightarrow> bool" where
  "allows_profile_defined_trace_data p \<longleftrightarrow> support_verified p \<and> lp_build_mode p \<noteq> LogProduction"

definition allows_track2_hash :: "log_policy \<Rightarrow> bool" where
  "allows_track2_hash p \<longleftrightarrow> lp_track2_debug_hash p \<and> support_verified p \<and> lp_build_mode p \<noteq> LogProduction"

section \<open>Masked values\<close>

datatype masked_value =
    MaskHex bytes
  | MaskPan bytes
  | MaskSuppressed string
  | MaskDebugHash nat u64

record masked_field =
  mf_tag :: bytes
  mf_value :: masked_value

definition pan_digits :: "bytes \<Rightarrow> bytes" where
  "pan_digits v = map (\<lambda>nibble. 0x30 + nibble) (filter (\<lambda>nibble. nibble \<le> 9) (concat (map (\<lambda>b. [drop_bit 4 b, b AND 0x0f]) v)))"

definition mask_pan_bcd :: "bytes \<Rightarrow> bytes" where
  "mask_pan_bcd v =
     (let digits = pan_digits v; keep = min (length digits) 4; masked_len = length digits - keep
      in replicate masked_len 0x2a @ drop masked_len digits)"

definition fnv1a64 :: "bytes \<Rightarrow> u64" where
  "fnv1a64 v = foldl (\<lambda>hash byte. (hash XOR ucast byte) * 0x100000001b3) 0xcbf29ce484222325 v"

definition mask_tlv_value :: "bytes \<Rightarrow> bytes \<Rightarrow> log_policy \<Rightarrow> masked_field" where
  "mask_tlv_value tag v policy =
     \<lparr>mf_tag = tag, mf_value =
       (if tag = [0x5a] then MaskPan (mask_pan_bcd v)
        else if tag = [0x57] then
          (if allows_track2_hash policy then MaskDebugHash (length v) (fnv1a64 v) else MaskSuppressed ''track2'')
        else if tag = [0x9f, 0x26] then
          (if allows_transaction_cryptograms policy then MaskHex (to_hex v) else MaskSuppressed ''transaction-cryptogram'')
        else if tag = [0x91] then MaskSuppressed ''issuer-authentication-data''
        else if tag = [0x9f, 0x10] then
          (if allows_profile_defined_trace_data policy then MaskHex (to_hex v) else MaskSuppressed ''issuer-application-data'')
        else if tag = [0x9f, 0x4b] then MaskSuppressed ''signed-dynamic-application-data''
        else if tag = [0x9f, 0x4c] then MaskSuppressed ''icc-dynamic-number''
        else if tag = [0x86] then MaskSuppressed ''issuer-script-command-data''
        else if tag = [0x9f, 0x18] then MaskSuppressed ''issuer-script-identifier''
        else if tag = [0x99] then MaskSuppressed ''pin-block''
        else MaskHex (to_hex v))\<rparr>"

definition mask_item :: "log_policy \<Rightarrow> flat_tlv \<Rightarrow> masked_field" where
  "mask_item policy item =
     (if flat_constructed item then \<lparr>mf_tag = flat_tag item, mf_value = MaskSuppressed ''constructed''\<rparr>
      else mask_tlv_value (flat_tag item) (flat_value item) policy)"

definition mask_tlv_stream :: "bytes \<Rightarrow> log_policy \<Rightarrow> masked_field list krn_result" where
  "mask_tlv_stream input policy =
     rbind (parse_many input) (\<lambda>parsed.
       let flat = tlv_flatten parsed in
       if length flat > MAX_TRACE_FIELDS then Inl LengthOverflow else Inr (map (mask_item policy) flat))"

section \<open>Traces\<close>

datatype apdu_trace_context = TraceGeneric | TraceGenerateAcResponse

datatype tlv_trace_context = TraceHostResponse

datatype apdu_direction = DirCommand | DirResponse

record apdu_trace =
  at_sequence :: u64
  at_direction :: apdu_direction
  at_context :: apdu_trace_context
  at_cla :: "byte option"
  at_ins :: "byte option"
  at_p1 :: "byte option"
  at_p2 :: "byte option"
  at_sw :: "(byte \<times> byte) option"
  at_data :: masked_value
  at_fields :: "masked_field list"

record tlv_stream_trace =
  tst_sequence :: u64
  tst_context :: tlv_trace_context
  tst_fields :: "masked_field list"

definition mask_tlv_stream_trace ::
    "u64 \<Rightarrow> tlv_trace_context \<Rightarrow> bytes \<Rightarrow> log_policy \<Rightarrow> tlv_stream_trace krn_result" where
  "mask_tlv_stream_trace sequence c input policy =
     rmap (\<lambda>fs. \<lparr>tst_sequence = sequence, tst_context = c, tst_fields = fs\<rparr>) (mask_tlv_stream input policy)"

definition validate_replay_apdu :: "bytes \<Rightarrow> unit krn_result" where
  "validate_replay_apdu bs = (if length bs > MAX_REPLAY_APDU_BYTES then Inl LengthOverflow else Inr ())"

definition validate_replay_command_apdu :: "bytes \<Rightarrow> unit krn_result" where
  "validate_replay_command_apdu command =
     rbind (validate_replay_apdu command) (\<lambda>_.
       if length command < 4 then Inl ParseError
       else if length command \<le> 5 then Inr ()
       else let lc = unat (command ! 4) in
         if lc = 0 then Inl ParseError
         else let data_end = 5 + lc in
           if length command < data_end \<or> length command > data_end + 1 then Inl ParseError else Inr ())"

definition apdu_command_data :: "bytes \<Rightarrow> bytes" where
  "apdu_command_data command =
     (if length command \<le> 5 then []
      else let data_end = min (5 + unat (command ! 4)) (length command) in drop 5 (take data_end command))"

definition is_pin_verify_with_data :: "bytes \<Rightarrow> bool" where
  "is_pin_verify_with_data command \<longleftrightarrow> get_at command 1 = Some 0x20 \<and> apdu_command_data command \<noteq> []"

definition mask_apdu_command :: "u64 \<Rightarrow> bytes \<Rightarrow> log_policy \<Rightarrow> apdu_trace krn_result" where
  "mask_apdu_command sequence command policy =
     rbind (validate_replay_command_apdu command) (\<lambda>_.
       let data = (if is_pin_verify_with_data command then MaskSuppressed ''pin-verify-data''
                   else if allows_full_apdu policy then MaskHex (to_hex (apdu_command_data command))
                   else MaskSuppressed ''full-apdu-disabled'')
       in Inr \<lparr>at_sequence = sequence, at_direction = DirCommand, at_context = TraceGeneric,
               at_cla = get_at command 0, at_ins = get_at command 1, at_p1 = get_at command 2, at_p2 = get_at command 3,
               at_sw = None, at_data = data, at_fields = []\<rparr>)"

definition push_gac_fields :: "generate_ac_response \<Rightarrow> log_policy \<Rightarrow> masked_field list" where
  "push_gac_fields response policy =
     [mask_tlv_value [0x9f, 0x27] [cid_raw (gac_cid response)] policy,
      mask_tlv_value [0x9f, 0x36] (gac_atc response) policy,
      mask_tlv_value [0x9f, 0x26] (gac_application_cryptogram response) policy] @
     (if gac_issuer_application_data response \<noteq> []
      then [mask_tlv_value [0x9f, 0x10] (gac_issuer_application_data response) policy] else []) @
     (case gac_icc_dynamic_number response of
        Some number \<Rightarrow> [mask_tlv_value [0x9f, 0x4c] number policy] | None \<Rightarrow> []) @
     (case gac_signed_dynamic_application_data response of
        Some sdad \<Rightarrow> [mask_tlv_value [0x9f, 0x4b] sdad policy] | None \<Rightarrow> [])"

definition mask_generate_ac_response :: "bytes \<Rightarrow> log_policy \<Rightarrow> masked_field list krn_result" where
  "mask_generate_ac_response response_data policy =
     rbind (parse_generate_ac_response response_data) (\<lambda>response. Inr (push_gac_fields response policy))"

definition mask_apdu_response ::
    "u64 \<Rightarrow> apdu_trace_context \<Rightarrow> bytes \<Rightarrow> byte \<times> byte \<Rightarrow> log_policy \<Rightarrow> apdu_trace krn_result" where
  "mask_apdu_response sequence c response_data sw policy =
     rbind (validate_replay_apdu response_data) (\<lambda>_.
     rbind (case c of
         TraceGeneric \<Rightarrow> if response_data = [] then Inr [] else mask_tlv_stream response_data policy
       | TraceGenerateAcResponse \<Rightarrow> mask_generate_ac_response response_data policy) (\<lambda>fs.
       Inr \<lparr>at_sequence = sequence, at_direction = DirResponse, at_context = c,
            at_cla = None, at_ins = None, at_p1 = None, at_p2 = None, at_sw = Some sw,
            at_data = MaskSuppressed (if fs = [] then ''unparsed-response'' else ''tag-masked''),
            at_fields = fs\<rparr>))"

section \<open>The JSON of a trace\<close>

fun direction_name :: "apdu_direction \<Rightarrow> string" where
  "direction_name DirCommand = ''command''"
| "direction_name DirResponse = ''response''"

fun context_name :: "apdu_trace_context \<Rightarrow> string" where
  "context_name TraceGeneric = ''generic''"
| "context_name TraceGenerateAcResponse = ''generate-ac-response''"

fun tlv_trace_context_name :: "tlv_trace_context \<Rightarrow> string" where
  "tlv_trace_context_name TraceHostResponse = ''host-response''"

fun log_build_mode_name :: "log_build_mode \<Rightarrow> string" where
  "log_build_mode_name LogProduction = ''production''"
| "log_build_mode_name LogCertification = ''certification''"
| "log_build_mode_name LogDevelopment = ''development''"

definition push_json_key :: "string \<Rightarrow> bytes" where
  "push_json_key key = [0x22] @ ascii key @ [0x22, 0x3a]"

definition push_json_hex_byte :: "string \<Rightarrow> byte \<Rightarrow> bytes" where
  "push_json_hex_byte key b = push_json_str key (to_hex [b])"

definition push_json_bool :: "string \<Rightarrow> bool \<Rightarrow> bytes" where
  "push_json_bool key b = push_json_key key @ (if b then ascii ''true'' else ascii ''false'')"

text \<open>\<open>{hash64:016x}\<close>: the eight bytes in hexadecimal, most significant first.\<close>

definition hex_u64 :: "u64 \<Rightarrow> bytes" where
  "hex_u64 n = to_hex (be_bytes 8 (unat n))"

fun push_masked_value :: "string \<Rightarrow> masked_value \<Rightarrow> bytes" where
  "push_masked_value key (MaskHex hex) = push_json_key key @ [0x7b] @ push_json_str ''type'' (ascii ''hex'') @ [0x2c] @
     push_json_str ''value'' hex @ [0x7d]"
| "push_masked_value key (MaskPan masked) = push_json_key key @ [0x7b] @ push_json_str ''type'' (ascii ''pan'') @ [0x2c] @
     push_json_str ''value'' masked @ [0x7d]"
| "push_masked_value key (MaskSuppressed reason) = push_json_key key @ [0x7b] @
     push_json_str ''type'' (ascii ''suppressed'') @ [0x2c] @ push_json_str ''reason'' (ascii reason) @ [0x7d]"
| "push_masked_value key (MaskDebugHash len hash64) = push_json_key key @ [0x7b] @
     push_json_str ''type'' (ascii ''debug-hash'') @ [0x2c] @ push_json_number ''len'' len @ [0x2c] @
     push_json_str ''hash64'' (hex_u64 hash64) @ [0x7d]"

definition field_json :: "masked_field \<Rightarrow> bytes" where
  "field_json f = [0x7b] @ push_json_str ''tag'' (to_hex (mf_tag f)) @ [0x2c] @ push_masked_value ''value'' (mf_value f) @ [0x7d]"

definition push_fields_json :: "string \<Rightarrow> masked_field list \<Rightarrow> bytes" where
  "push_fields_json key fs = push_json_key key @ [0x5b] @ join (map field_json fs) @ [0x5d]"

text \<open>A member that is only there when its value is.\<close>

definition optional_member :: "('a \<Rightarrow> bytes) \<Rightarrow> 'a option \<Rightarrow> bytes" where
  "optional_member f v = (case v of Some x \<Rightarrow> [0x2c] @ f x | None \<Rightarrow> [])"

definition apdu_trace_json :: "apdu_trace \<Rightarrow> bytes" where
  "apdu_trace_json t = [0x7b] @ push_json_number ''sequence'' (unat (at_sequence t)) @ [0x2c] @
     push_json_str ''direction'' (ascii (direction_name (at_direction t))) @ [0x2c] @
     push_json_str ''context'' (ascii (context_name (at_context t))) @
     optional_member (push_json_hex_byte ''cla'') (at_cla t) @ optional_member (push_json_hex_byte ''ins'') (at_ins t) @
     optional_member (push_json_hex_byte ''p1'') (at_p1 t) @ optional_member (push_json_hex_byte ''p2'') (at_p2 t) @
     optional_member (\<lambda>(sw1, sw2). push_json_str ''sw'' (to_hex [sw1, sw2])) (at_sw t) @ [0x2c] @
     push_masked_value ''data'' (at_data t) @ [0x2c] @ push_fields_json ''fields'' (at_fields t) @ [0x7d]"

definition tlv_stream_trace_json :: "tlv_stream_trace \<Rightarrow> bytes" where
  "tlv_stream_trace_json t = [0x7b] @ push_json_str ''type'' (ascii ''tlv-stream'') @ [0x2c] @
     push_json_number ''sequence'' (unat (tst_sequence t)) @ [0x2c] @
     push_json_str ''context'' (ascii (tlv_trace_context_name (tst_context t))) @ [0x2c] @
     push_fields_json ''fields'' (tst_fields t) @ [0x7d]"

section \<open>Replay\<close>

record replay_exchange =
  rx_command :: bytes
  rx_response_data :: bytes
  rx_sw :: "byte \<times> byte"
  rx_context :: apdu_trace_context

definition replay_exchange_new ::
    "bytes \<Rightarrow> bytes \<Rightarrow> byte \<times> byte \<Rightarrow> apdu_trace_context \<Rightarrow> replay_exchange krn_result" where
  "replay_exchange_new command response_data sw c =
     rbind (validate_replay_command_apdu command) (\<lambda>_.
     rbind (validate_replay_apdu response_data) (\<lambda>_.
       if is_pin_verify_with_data command then Inl InvalidArgument
       else Inr \<lparr>rx_command = command, rx_response_data = response_data, rx_sw = sw, rx_context = c\<rparr>))"

record trace_identity =
  ti_kernel_name :: bytes
  ti_kernel_version :: bytes
  ti_abi_version :: u32
  ti_profile_version :: u64
  ti_profile_sha256 :: "bytes option"

definition trace_identity_current :: "u32 \<Rightarrow> u64 \<Rightarrow> trace_identity" where
  "trace_identity_current abi_version profile_version = \<lparr>ti_kernel_name = KERNEL_NAME, ti_kernel_version = KERNEL_VERSION,
     ti_abi_version = abi_version, ti_profile_version = profile_version, ti_profile_sha256 = None\<rparr>"

definition trace_identity_with_profile_sha256 :: "u32 \<Rightarrow> u64 \<Rightarrow> bytes \<Rightarrow> trace_identity" where
  "trace_identity_with_profile_sha256 abi_version profile_version digest =
     (trace_identity_current abi_version profile_version)\<lparr>ti_profile_sha256 := Some digest\<rparr>"

definition trace_identity_json :: "trace_identity \<Rightarrow> log_policy \<Rightarrow> bytes" where
  "trace_identity_json identity policy = [0x7b] @ push_json_str ''type'' (ascii ''trace-identity'') @ [0x2c] @
     push_json_str ''kernel_name'' (ti_kernel_name identity) @ [0x2c] @
     push_json_str ''kernel_version'' (ti_kernel_version identity) @ [0x2c] @
     push_json_number ''abi_version'' (unat (ti_abi_version identity)) @ [0x2c] @
     push_json_number ''profile_version'' (unat (ti_profile_version identity)) @
     optional_member (\<lambda>digest. push_json_str ''profile_sha256'' (to_hex digest)) (ti_profile_sha256 identity) @ [0x2c] @
     push_json_str ''log_build_mode'' (ascii (log_build_mode_name (lp_build_mode policy))) @ [0x2c] @
     push_json_bool ''support_authorization_verified'' (support_verified policy) @ [0x7d]"

record replay_script =
  rs_steps :: "replay_exchange list"
  rs_cursor :: nat

definition replay_script_new :: "replay_exchange list \<Rightarrow> replay_script krn_result" where
  "replay_script_new steps =
     (if length steps > MAX_REPLAY_STEPS then Inl LengthOverflow else Inr \<lparr>rs_steps = steps, rs_cursor = 0\<rparr>)"

definition replay_reset :: "replay_script \<Rightarrow> replay_script" where
  "replay_reset script = script\<lparr>rs_cursor := 0\<rparr>"

definition replay_remaining :: "replay_script \<Rightarrow> nat" where
  "replay_remaining script = length (rs_steps script) - rs_cursor script"

definition replay_answer :: "replay_exchange \<Rightarrow> bytes" where
  "replay_answer step = rx_response_data step @ [fst (rx_sw step), snd (rx_sw step)]"

definition replay_exchange_step :: "bytes \<Rightarrow> replay_script \<Rightarrow> bytes krn_result \<times> replay_script" where
  "replay_exchange_step command script = (case get_at (rs_steps script) (rs_cursor script) of
     None \<Rightarrow> (Inl ParseError, script)
   | Some step \<Rightarrow>
       if rx_command step \<noteq> command then (Inl ParseError, script)
       else (Inr (replay_answer step), script\<lparr>rs_cursor := rs_cursor script + 1\<rparr>))"

definition masked_step :: "log_policy \<Rightarrow> nat \<times> replay_exchange \<Rightarrow> bytes krn_result" where
  "masked_step policy = (\<lambda>(idx, step).
     rbind (mask_apdu_command (word_of_nat idx * 2) (rx_command step) policy) (\<lambda>command.
     rbind (mask_apdu_response (word_of_nat idx * 2 + 1) (rx_context step) (rx_response_data step) (rx_sw step) policy) (\<lambda>response.
       Inr (apdu_trace_json command @ [0x0a] @ apdu_trace_json response @ [0x0a]))))"

definition masked_jsonl_with_identity :: "replay_script \<Rightarrow> log_policy \<Rightarrow> trace_identity option \<Rightarrow> bytes krn_result" where
  "masked_jsonl_with_identity script policy identity =
     rbind (rmapM (masked_step policy) (zip [0..<length (rs_steps script)] (rs_steps script))) (\<lambda>lines.
       Inr ((case identity of Some i \<Rightarrow> trace_identity_json i policy @ [0x0a] | None \<Rightarrow> []) @ concat lines))"

definition masked_jsonl :: "replay_script \<Rightarrow> log_policy \<Rightarrow> bytes krn_result" where
  "masked_jsonl script policy = masked_jsonl_with_identity script policy None"

section \<open>What a trace may show\<close>

text \<open>The tags whose values never show under a policy, and what shows of a field.\<close>

definition secret_tag :: "log_policy \<Rightarrow> bytes \<Rightarrow> bool" where
  "secret_tag policy tag \<longleftrightarrow>
     tag \<in> {[0x91], [0x9f, 0x4b], [0x9f, 0x4c], [0x86], [0x9f, 0x18], [0x99]} \<or>
     tag = [0x57] \<and> \<not> allows_track2_hash policy \<or>
     tag = [0x9f, 0x26] \<and> \<not> allows_transaction_cryptograms policy \<or>
     tag = [0x9f, 0x10] \<and> \<not> allows_profile_defined_trace_data policy"

definition shown_pan :: "bytes \<Rightarrow> nat \<times> bytes" where
  "shown_pan v = (length (pan_digits v), drop (length (pan_digits v) - 4) (pan_digits v))"

definition shown :: "log_policy \<Rightarrow> flat_tlv \<Rightarrow> bytes \<times> bool \<times> (nat \<times> bytes) option" where
  "shown policy item =
     (flat_tag item, flat_constructed item,
      (if flat_constructed item \<or> secret_tag policy (flat_tag item) then None
       else if flat_tag item = [0x5a]
       then Some (shown_pan (flat_value item))
       else Some (length (flat_value item), flat_value item)))"

lemma mask_pan_shown: "mask_pan_bcd v = replicate (fst (shown_pan v) - 4) 0x2a @ snd (shown_pan v)"
proof -
  have "length d - min (length d) 4 = length d - 4" for d :: bytes by simp
  then show ?thesis by (simp add: mask_pan_bcd_def shown_pan_def Let_def)
qed

lemma secret_masked: "secret_tag policy tag \<Longrightarrow> mask_tlv_value tag v policy = mask_tlv_value tag v' policy"
  by (auto simp: secret_tag_def mask_tlv_value_def)

lemma mask_item_shown:
  assumes eq: "shown policy a = shown policy b"
  shows "mask_item policy a = mask_item policy b"
proof -
  from eq have same: "flat_tag b = flat_tag a" "flat_constructed b = flat_constructed a"
    by (simp_all add: shown_def)
  show ?thesis
  proof (cases "flat_constructed a")
    case True
    with same show ?thesis by (simp add: mask_item_def)
  next
    case primitive: False
    show ?thesis
    proof (cases "secret_tag policy (flat_tag a)")
      case True
      then show ?thesis using secret_masked [OF True] by (simp add: mask_item_def same primitive)
    next
      case False
      show ?thesis
      proof (cases "flat_tag a = [0x5a]")
        case True
        with False primitive same eq have "mask_pan_bcd (flat_value a) = mask_pan_bcd (flat_value b)"
          by (simp add: mask_pan_shown shown_def)
        with True same show ?thesis by (simp add: mask_item_def mask_tlv_value_def)
      next
        case other: False
        with False primitive same eq have "flat_value a = flat_value b" by (simp add: shown_def)
        with same show ?thesis by (simp add: mask_item_def)
      qed
    qed
  qed
qed

lemma masked_stream_shown:
  assumes "parse_many x = Inr a" "parse_many y = Inr b"
    and "map (shown policy) (tlv_flatten a) = map (shown policy) (tlv_flatten b)"
  shows "mask_tlv_stream x policy = mask_tlv_stream y policy"
proof -
  have "map (mask_item policy) (tlv_flatten a) = map (mask_item policy) (tlv_flatten b)"
    using assms(3) by (auto simp: list_eq_iff_nth_eq intro: mask_item_shown)
  moreover from this have "length (tlv_flatten a) = length (tlv_flatten b)" by (metis length_map)
  ultimately show ?thesis by (simp add: mask_tlv_stream_def assms(1,2))
qed

section \<open>Replaying\<close>

fun replay_run :: "bytes list \<Rightarrow> replay_script \<Rightarrow> bytes list krn_result \<times> replay_script" where
  "replay_run [] script = (Inr [], script)"
| "replay_run (command # commands) script = (case replay_exchange_step command script of
     (Inl e, script') \<Rightarrow> (Inl e, script')
   | (Inr answer, script') \<Rightarrow> (case replay_run commands script' of
       (Inl e, script'') \<Rightarrow> (Inl e, script'') | (Inr answers, script'') \<Rightarrow> (Inr (answer # answers), script'')))"

lemma replay_run_eq:
  "replay_run commands script = (Inr answers, script') \<longleftrightarrow>
     (let steps = take (length commands) (drop (rs_cursor script) (rs_steps script))
      in commands = map rx_command steps \<and> answers = map replay_answer steps \<and>
         script' = script\<lparr>rs_cursor := rs_cursor script + length commands\<rparr>)"
proof (induction commands arbitrary: script answers)
  case Nil
  show ?case by (auto simp: Let_def)
next
  case (Cons command commands)
  show ?case
  proof (cases "get_at (rs_steps script) (rs_cursor script)")
    case None
    then have "drop (rs_cursor script) (rs_steps script) = []" by (simp add: get_at_def split: if_splits)
    with None show ?thesis by (simp add: replay_exchange_step_def get_at_def)
  next
    case (Some step)
    then have d: "drop (rs_cursor script) (rs_steps script) = step # drop (Suc (rs_cursor script)) (rs_steps script)"
      by (auto simp: get_at_def Cons_nth_drop_Suc split: if_splits)
    show ?thesis
    proof (cases "rx_command step = command")
      case True
      then have "replay_exchange_step command script = (Inr (replay_answer step), script\<lparr>rs_cursor := rs_cursor script + 1\<rparr>)"
        unfolding replay_exchange_step_def Some by simp
      then show ?thesis
        using Cons.IH [of "script\<lparr>rs_cursor := rs_cursor script + 1\<rparr>"] True
        by (cases "replay_run commands (script\<lparr>rs_cursor := rs_cursor script + 1\<rparr>)"; cases "fst (replay_run commands (script\<lparr>rs_cursor := rs_cursor script + 1\<rparr>))")
          (auto simp: d Let_def)
    next
      case False
      then have "replay_exchange_step command script = (Inl ParseError, script)"
        unfolding replay_exchange_step_def Some by simp
      with False show ?thesis by (simp add: d Let_def)
    qed
  qed
qed

section \<open>Reading a trace back\<close>

text \<open>Texts that the traces are made of.\<close>

lemma readable_ascii: "list_all key_char s \<Longrightarrow> list_all (\<lambda>c. of_char c \<noteq> (0x7f :: byte)) s \<Longrightarrow> list_all readable_char (ascii s)"
  by (induction s) (auto simp: ascii_def readable_char_def key_char_def Let_def word_le_nat_alt not_le)

definition masked_ok :: "masked_value \<Rightarrow> bool" where
  "masked_ok v = (case v of
     MaskHex hex \<Rightarrow> list_all readable_char hex
   | MaskPan masked \<Rightarrow> list_all readable_char masked
   | MaskSuppressed reason \<Rightarrow> list_all readable_char (ascii reason)
   | MaskDebugHash len hash \<Rightarrow> len < 2 ^ 64)"

fun masked_members :: "masked_value \<Rightarrow> written_members" where
  "masked_members (MaskHex hex) = [str_member ''type'' (ascii ''hex''), str_member ''value'' hex]"
| "masked_members (MaskPan masked) = [str_member ''type'' (ascii ''pan''), str_member ''value'' masked]"
| "masked_members (MaskSuppressed reason) =
     [str_member ''type'' (ascii ''suppressed''), str_member ''reason'' (ascii reason)]"
| "masked_members (MaskDebugHash len hash64) =
     [str_member ''type'' (ascii ''debug-hash''), number_member ''len'' len, str_member ''hash64'' (hex_u64 hash64)]"

definition masked_member :: "string \<Rightarrow> masked_value \<Rightarrow> string \<times> json_value \<times> bytes" where
  "masked_member k v = (k, object_value (masked_members v), object_text (masked_members v))"

lemma masked_member_text: "member_text (masked_member k v) = push_masked_value k v"
proof -
  have "object_text (masked_members v) @ [] = drop (length (push_json_key k)) (push_masked_value k v)"
    by (cases v) (simp_all add: object_text_def join_Cons str_member_text number_member_text)
  moreover have "take (length (push_json_key k)) (push_masked_value k v) = push_json_key k"
    by (cases v) simp_all
  ultimately show ?thesis
    by (simp add: member_text_def masked_member_def push_json_key_def) (metis append_take_drop_id append.assoc append_Cons append_Nil)
qed

definition opt_members :: "('a \<Rightarrow> string \<times> json_value \<times> bytes) \<Rightarrow> 'a option \<Rightarrow> written_members" where
  "opt_members g v = (case v of None \<Rightarrow> [] | Some x \<Rightarrow> [g x])"

definition field_members :: "masked_field \<Rightarrow> written_members" where
  "field_members f = [str_member ''tag'' (to_hex (mf_tag f)), masked_member ''value'' (mf_value f)]"

definition fields_member :: "masked_field list \<Rightarrow> string \<times> json_value \<times> bytes" where
  "fields_member fs = (''fields'', JsonArray (map (\<lambda>f. object_value (field_members f)) fs),
     0x5b # join (map (\<lambda>f. object_text (field_members f)) fs) @ [0x5d])"

definition trace_members :: "apdu_trace \<Rightarrow> written_members" where
  "trace_members t =
     [number_member ''sequence'' (unat (at_sequence t)), str_member ''direction'' (ascii (direction_name (at_direction t))),
      str_member ''context'' (ascii (context_name (at_context t)))] @
     opt_members (\<lambda>b. str_member ''cla'' (to_hex [b])) (at_cla t) @ opt_members (\<lambda>b. str_member ''ins'' (to_hex [b])) (at_ins t) @
     opt_members (\<lambda>b. str_member ''p1'' (to_hex [b])) (at_p1 t) @ opt_members (\<lambda>b. str_member ''p2'' (to_hex [b])) (at_p2 t) @
     opt_members (\<lambda>(sw1, sw2). str_member ''sw'' (to_hex [sw1, sw2])) (at_sw t) @
     [masked_member ''data'' (at_data t), fields_member (at_fields t)]"

lemma opt_members_text:
  "concat (map ((#) 0x2c) (map member_text (opt_members g v))) = optional_member (\<lambda>x. member_text (g x)) v"
  by (simp add: opt_members_def optional_member_def split: option.split)

lemma field_json_text: "object_text (field_members f) = field_json f"
  by (simp add: object_text_def field_members_def join_Cons str_member_text masked_member_text field_json_def)

lemma fields_member_text: "member_text (fields_member fs) = push_fields_json ''fields'' fs"
  by (simp add: fields_member_def member_text_def push_fields_json_def push_json_key_def field_json_text)

lemma apdu_trace_json_text: "object_text (trace_members t) = apdu_trace_json t"
proof -
  have sw: "(\<lambda>x. member_text (case x of (sw1, sw2) \<Rightarrow> str_member ''sw'' (to_hex [sw1, sw2]))) =
      (\<lambda>(sw1, sw2). push_json_str ''sw'' (to_hex [sw1, sw2]))"
    by (auto simp: str_member_text)
  show ?thesis
    unfolding object_text_def trace_members_def append.simps map_append list.map join_Cons
      concat.simps concat_append opt_members_text
    by (simp add: str_member_text number_member_text masked_member_text fields_member_text
        apdu_trace_json_def push_json_hex_byte_def [abs_def] sw)
qed

lemma trace_keys: "list_all (list_all key_char) [''type'', ''value'', ''reason'', ''len'', ''hash64'', ''tag'', ''fields'', ''sequence'',
    ''direction'', ''context'', ''cla'', ''ins'', ''p1'', ''p2'', ''sw'', ''data'']"
  by code_simp

lemma trace_words: "list_all (\<lambda>s. list_all readable_char (ascii s)) [''hex'', ''pan'', ''suppressed'', ''debug-hash'', ''command'', ''response'',
    ''generic'', ''generate-ac-response'']"
  by code_simp

lemma trace_keys_of: "fst (masked_member k m) = k" "fst (fields_member fs) = ''fields''"
  by (simp_all add: masked_member_def fields_member_def)

lemmas keys_of = written_keys_of trace_keys_of

lemma masked_members_written: "masked_ok v \<Longrightarrow> members_written (masked_members v)"
  using trace_keys trace_words
  by (cases v) (auto intro!: members_writtenI str_member_written number_member_written
      simp: masked_ok_def keys_of readable_hex hex_u64_def)

lemma masked_member_written: "list_all key_char k \<Longrightarrow> masked_ok v \<Longrightarrow> member_written (masked_member k v)"
  by (simp add: member_written_def masked_member_def written_object_text masked_members_written)

lemma field_members_written: "masked_ok (mf_value f) \<Longrightarrow> members_written (field_members f)"
  using trace_keys
  by (auto intro!: members_writtenI str_member_written masked_member_written simp: field_members_def keys_of readable_hex)

lemma fields_member_written: "list_all (\<lambda>f. masked_ok (mf_value f)) fs \<Longrightarrow> member_written (fields_member fs)"
  using trace_keys
  by (auto simp: member_written_def fields_member_def list_all2_map1 list_all2_map2 list_all2_same list_all_iff
      intro!: written_any_array written_object_text field_members_written)

lemma opt_members_written: "(\<And>x. member_written (g x)) \<Longrightarrow> list_all member_written (opt_members g v)"
  by (simp add: opt_members_def split: option.split)

definition trace_ok :: "apdu_trace \<Rightarrow> bool" where
  "trace_ok t \<longleftrightarrow> masked_ok (at_data t) \<and> list_all (\<lambda>f. masked_ok (mf_value f)) (at_fields t) \<and> length (at_fields t) \<le> MAX_TRACE_FIELDS"

lemma trace_members_written:
  assumes "trace_ok t"
  shows "members_written (trace_members t)"
proof (rule members_writtenI)
  have u: "unat (at_sequence t) < 2 ^ 64" by (rule order_less_le_trans [OF unsigned_less]) simp
  have names: "list_all readable_char (ascii (direction_name (at_direction t)))"
    "list_all readable_char (ascii (context_name (at_context t)))"
    using trace_words by (cases "at_direction t"; simp) (cases "at_context t"; simp add: trace_words [simplified])
  show "list_all member_written (trace_members t)"
    using trace_keys assms u names
    by (auto simp: trace_members_def trace_ok_def readable_hex intro!: number_member_written str_member_written opt_members_written
        masked_member_written fields_member_written)
  show "distinct (map fst (trace_members t))"
    by (auto simp: trace_members_def opt_members_def keys_of split: option.split)
qed (simp add: trace_members_def)

lemma flat_value_bound: "wf_tlv d t \<Longrightarrow> item \<in> set (tlv_walk t) \<Longrightarrow> length (flat_value item) \<le> 4096"
proof (induction t arbitrary: d rule: tlv_walk.induct)
  case (1 tag v constructed children)
  then show ?case
    by (cases constructed) (auto simp: wf_tlv.simps list_all_iff)
qed

lemma readable_pan: "list_all readable_char (mask_pan_bcd v)"
proof -
  have "readable_char (0x30 + nibble)" if "nibble \<le> 9" for nibble :: byte
  proof -
    have "unat (0x30 + nibble) = 0x30 + unat nibble"
      using that by (subst unat_add_lem [THEN iffD1]) (auto simp: word_le_nat_alt)
    then show ?thesis using that by (auto simp: readable_char_def word_le_nat_alt)
  qed
  then have "list_all readable_char (pan_digits v)" by (auto simp: pan_digits_def list_all_iff)
  then show ?thesis by (auto simp: mask_pan_bcd_def Let_def list_all_iff readable_char_def dest: in_set_dropD)
qed

lemma readable_reasons: "list_all (\<lambda>s. list_all readable_char (ascii s))
    [''track2'', ''transaction-cryptogram'', ''issuer-authentication-data'', ''issuer-application-data'',
     ''signed-dynamic-application-data'', ''icc-dynamic-number'', ''issuer-script-command-data'',
     ''issuer-script-identifier'', ''pin-block'', ''constructed'', ''pin-verify-data'', ''full-apdu-disabled'',
     ''unparsed-response'', ''tag-masked'']"
  by code_simp

lemma masked_ok_value: "length v < 2 ^ 64 \<or> tag \<noteq> [0x57] \<Longrightarrow> masked_ok (mf_value (mask_tlv_value tag v policy))"
  using readable_reasons by (auto simp: mask_tlv_value_def masked_ok_def readable_hex readable_pan)

lemma mask_command_ok: "mask_apdu_command sequence command policy = Inr t \<Longrightarrow> trace_ok t"
  using readable_reasons
  by (auto simp: mask_apdu_command_def rbind_eq_Inr Let_def trace_ok_def masked_ok_def readable_hex)

lemma mask_stream_ok:
  assumes "mask_tlv_stream input policy = Inr fs"
  shows "list_all (\<lambda>f. masked_ok (mf_value f)) fs \<and> length fs \<le> MAX_TRACE_FIELDS"
proof -
  obtain ts where ts: "parse_many input = Inr ts" "fs = map (mask_item policy) (tlv_flatten ts)"
    "length fs \<le> MAX_TRACE_FIELDS"
    using assms by (auto simp: mask_tlv_stream_def rbind_eq_Inr Let_def split: if_splits)
  from ts(1) have "wf_forest 0 ts" by (simp add: parse_many_eq_Inr)
  then have "length (flat_value item) < 2 ^ 64" if "item \<in> set (tlv_flatten ts)" for item
    using that flat_value_bound [of 0 _ item] by (fastforce simp: tlv_flatten_def wf_forest_def list_all_iff)
  then have "masked_ok (mf_value (mask_item policy item))" if "item \<in> set (tlv_flatten ts)" for item
    using that masked_ok_value [of "flat_value item" "flat_tag item" policy] readable_reasons
    by (auto simp: mask_item_def masked_ok_def)
  with ts show ?thesis by (simp add: list_all_iff)
qed

lemma mask_response_ok:
  assumes "mask_apdu_response sequence c data sw policy = Inr t"
  shows "trace_ok t"
proof -
  obtain fs where fs: "(case c of TraceGeneric \<Rightarrow> if data = [] then Inr [] else mask_tlv_stream data policy
       | TraceGenerateAcResponse \<Rightarrow> mask_generate_ac_response data policy) = Inr fs"
    and t: "at_fields t = fs" "at_data t = MaskSuppressed (if fs = [] then ''unparsed-response'' else ''tag-masked'')"
    using assms by (auto simp: mask_apdu_response_def rbind_eq_Inr)
  have "list_all (\<lambda>f. masked_ok (mf_value f)) fs \<and> length fs \<le> MAX_TRACE_FIELDS"
  proof (cases c)
    case TraceGeneric
    with fs show ?thesis using mask_stream_ok by (cases "data = []") auto
  next
    case TraceGenerateAcResponse
    with fs show ?thesis
      by (auto simp: mask_generate_ac_response_def rbind_eq_Inr push_gac_fields_def masked_ok_value MAX_TRACE_FIELDS_def
          split: option.split)
  qed
  then show ?thesis using t readable_reasons by (auto simp: trace_ok_def masked_ok_def)
qed

text \<open>The value that the JSON of a trace denotes.\<close>

fun masked_json_value :: "masked_value \<Rightarrow> json_value" where
  "masked_json_value (MaskHex hex) = JsonObject [(''type'', JsonString ''hex''), (''value'', json_ascii hex)]"
| "masked_json_value (MaskPan masked) = JsonObject [(''type'', JsonString ''pan''), (''value'', json_ascii masked)]"
| "masked_json_value (MaskSuppressed reason) =
     JsonObject [(''type'', JsonString ''suppressed''), (''reason'', JsonString reason)]"
| "masked_json_value (MaskDebugHash len hash64) = JsonObject [(''type'', JsonString ''debug-hash''),
     (''len'', JsonNumber (word_of_nat len)), (''hash64'', json_ascii (hex_u64 hash64))]"

definition hex_json :: "string \<Rightarrow> bytes \<Rightarrow> string \<times> json_value" where
  "hex_json k bs = (k, json_ascii (to_hex bs))"

definition field_json_value :: "masked_field \<Rightarrow> json_value" where
  "field_json_value f = JsonObject [hex_json ''tag'' (mf_tag f), (''value'', masked_json_value (mf_value f))]"

definition opt_json :: "string \<Rightarrow> byte option \<Rightarrow> (string \<times> json_value) list" where
  "opt_json k b = (case b of None \<Rightarrow> [] | Some b \<Rightarrow> [hex_json k [b]])"

definition apdu_trace_value :: "apdu_trace \<Rightarrow> json_value" where
  "apdu_trace_value t = JsonObject
     ([(''sequence'', JsonNumber (at_sequence t)), (''direction'', JsonString (direction_name (at_direction t))),
       (''context'', JsonString (context_name (at_context t)))] @
      opt_json ''cla'' (at_cla t) @ opt_json ''ins'' (at_ins t) @ opt_json ''p1'' (at_p1 t) @ opt_json ''p2'' (at_p2 t) @
      (case at_sw t of None \<Rightarrow> [] | Some (sw1, sw2) \<Rightarrow> [hex_json ''sw'' [sw1, sw2]]) @
      [(''data'', masked_json_value (at_data t)), (''fields'', JsonArray (map field_json_value (at_fields t)))])"

lemma masked_member_value: "object_value (masked_members v) = masked_json_value v"
  by (cases v) (simp_all add: object_value_def str_member_def number_member_def json_ascii_ascii)

lemma field_member_value: "object_value (field_members f) = field_json_value f"
  unfolding object_value_def [of "field_members f"]
  by (simp add: field_members_def str_member_def masked_member_def masked_member_value field_json_value_def hex_json_def)

lemma trace_members_value: "object_value (trace_members t) = apdu_trace_value t"
  unfolding object_value_def [of "trace_members t"]
  by (auto simp: trace_members_def apdu_trace_value_def opt_members_def opt_json_def hex_json_def
      number_member_def str_member_def masked_member_def masked_member_value fields_member_def field_member_value
      json_ascii_ascii split: option.split)

lemma masked_json_limits: "fits 3 (masked_json_value v)" "fits 1 (masked_json_value v)" "json_nodes (masked_json_value v) \<le> 4"
  by (cases v; simp add: json_ascii_def MAX_JSON_DEPTH_def)+

lemma field_json_limits: "fits 2 (field_json_value f)" "json_nodes (field_json_value f) \<le> 6"
  using masked_json_limits [of "mf_value f"]
  by (simp_all add: field_json_value_def hex_json_def json_ascii_def MAX_JSON_DEPTH_def)

lemma apdu_trace_value_limits:
  assumes "trace_ok t"
  shows "fits 0 (apdu_trace_value t)" "json_nodes (apdu_trace_value t) \<le> MAX_JSON_NODES"
proof -
  have opt: "list_all (\<lambda>(k, v). fits 1 v) (opt_json k b)" "sum_list (map (\<lambda>(k, v). json_nodes v) (opt_json k b)) \<le> 1" for k b
    by (simp_all add: opt_json_def hex_json_def json_ascii_def MAX_JSON_DEPTH_def split: option.split)
  show "fits 0 (apdu_trace_value t)"
  proof -
    have "list_all (fits 2) (map field_json_value (at_fields t))" by (simp add: list_all_iff field_json_limits(1))
    then show ?thesis using masked_json_limits(2) [of "at_data t"] opt(1)
      by (simp add: apdu_trace_value_def hex_json_def json_ascii_def MAX_JSON_DEPTH_def numeral_2_eq_2 split: option.split)
  qed
  have "sum_list (map json_nodes (map field_json_value fs)) \<le> 6 * length fs" for fs
    using field_json_limits(2) by (induction fs) (auto intro: add_mono)
  from this [of "at_fields t"] have f: "sum_list (map json_nodes (map field_json_value (at_fields t))) \<le> 768"
    using assms by (simp add: trace_ok_def MAX_TRACE_FIELDS_def)
  have sw: "sum_list (map (\<lambda>(k, v). json_nodes v) (case at_sw t of None \<Rightarrow> [] | Some (sw1, sw2) \<Rightarrow> [hex_json ''sw'' [sw1, sw2]])) \<le> 1"
    by (simp add: hex_json_def json_ascii_def split: option.split prod.split)
  show "json_nodes (apdu_trace_value t) \<le> MAX_JSON_NODES"
    using masked_json_limits(3) [of "at_data t"] f sw opt(2) [of "''cla''" "at_cla t"] opt(2) [of "''ins''" "at_ins t"]
      opt(2) [of "''p1''" "at_p1 t"] opt(2) [of "''p2''" "at_p2 t"]
    by (simp add: apdu_trace_value_def MAX_JSON_NODES_def)
qed

lemma apdu_trace_json_parses:
  assumes "trace_ok t"
  shows "json_parse (apdu_trace_json t) = Inr (apdu_trace_value t)"
proof -
  have "json_text (apdu_trace_value t) (apdu_trace_json t)"
    using written_object_text [OF trace_members_written [OF assms]] by (simp add: trace_members_value apdu_trace_json_text)
  with apdu_trace_value_limits [OF assms] show ?thesis
    unfolding json_parse_eq_Inr by (intro exI [of _ "apdu_trace_json t"] exI [of _ "[]"]) (simp add: ws_text_def)
qed

text \<open>Responses, and what is secret in production.\<close>

lemma mask_stream_Nil: "mask_tlv_stream [] policy = Inr []"
  by code_simp

lemma masked_response_shown:
  assumes "parse_many x = Inr a" "parse_many y = Inr b"
    and "map (shown policy) (tlv_flatten a) = map (shown policy) (tlv_flatten b)"
  shows "mask_tlv_stream x policy = mask_tlv_stream y policy \<and>
    (length x \<le> MAX_REPLAY_APDU_BYTES \<longrightarrow> length y \<le> MAX_REPLAY_APDU_BYTES \<longrightarrow>
     mask_apdu_response sequence TraceGeneric x sw policy = mask_apdu_response sequence TraceGeneric y sw policy)"
proof -
  have generic: "(if z = [] then Inr [] else mask_tlv_stream z policy) = mask_tlv_stream z policy" for z
    by (simp add: mask_stream_Nil)
  show ?thesis using masked_stream_shown [OF assms]
    by (simp add: mask_apdu_response_def validate_replay_apdu_def generic)
qed

lemma production_secrets:
  "lp_build_mode policy = LogProduction \<Longrightarrow> list_all (secret_tag policy)
     [[0x57], [0x9f, 0x26], [0x91], [0x9f, 0x10], [0x9f, 0x4b], [0x9f, 0x4c], [0x86], [0x9f, 0x18], [0x99]]"
  by (simp add: secret_tag_def allows_track2_hash_def allows_transaction_cryptograms_def allows_profile_defined_trace_data_def)

lemma masked_gac_shown:
  assumes production: "lp_build_mode policy = LogProduction"
    and "parse_generate_ac_response x = Inr g" "parse_generate_ac_response y = Inr h"
    and same: "gac_cid g = gac_cid h" "gac_atc g = gac_atc h"
      "gac_issuer_application_data g = [] \<longleftrightarrow> gac_issuer_application_data h = []"
      "gac_icc_dynamic_number g = None \<longleftrightarrow> gac_icc_dynamic_number h = None"
      "gac_signed_dynamic_application_data g = None \<longleftrightarrow> gac_signed_dynamic_application_data h = None"
  shows "mask_generate_ac_response x policy = mask_generate_ac_response y policy"
proof -
  have hidden: "mask_tlv_value tag v policy = mask_tlv_value tag w policy"
    if "tag \<in> {[0x9f, 0x26], [0x9f, 0x10], [0x9f, 0x4c], [0x9f, 0x4b]}" for tag v w
    using that production_secrets [OF production] by (auto intro!: secret_masked)
  have "push_gac_fields g policy = push_gac_fields h policy"
    using same by (auto simp: push_gac_fields_def intro!: hidden split: option.split)
  then show ?thesis by (simp add: mask_generate_ac_response_def assms(2,3))
qed

section \<open>Properties\<close>

text \<open>C30: What a trace shows of a response.  Two streams of data objects that agree in their tags, in the
  number and the last four digits of an account number (tag 5A), and in the values of the tags that
  are not secret under the policy, have the same masked fields, and so have two responses made of
  them.  In production, whatever flags are set, track 2 equivalent data (tag 57), the cryptogram,
  issuer data, script commands and PIN blocks are secret, and two answers to GENERATE AC whose
  cryptogram information and transaction counter agree, with the same fields there, have the same
  masked fields.  The list of secret tags has a gap that this property keeps: the track 2 data (9F6B)
  and track 1 data (56) of contactless cards are not on it, and are shown in full by every policy.\<close>

theorem what_a_trace_shows:
  "(case (parse_many x, parse_many y) of
      (Inr a, Inr b) \<Rightarrow>
        if map (shown policy) (tlv_flatten a) = map (shown policy) (tlv_flatten b)
        then mask_tlv_stream x policy = mask_tlv_stream y policy \<and>
          (if length x \<le> MAX_REPLAY_APDU_BYTES \<and> length y \<le> MAX_REPLAY_APDU_BYTES
           then mask_apdu_response sequence TraceGeneric x sw policy = mask_apdu_response sequence TraceGeneric y sw policy
           else True)
        else True
    | _ \<Rightarrow> True) \<and>
   (if lp_build_mode policy = LogProduction
    then list_all (secret_tag policy)
        [[0x57], [0x9f, 0x26], [0x91], [0x9f, 0x10], [0x9f, 0x4b], [0x9f, 0x4c], [0x86], [0x9f, 0x18], [0x99]] \<and>
      (case (parse_generate_ac_response x, parse_generate_ac_response y) of
         (Inr g, Inr h) \<Rightarrow>
           if gac_cid g = gac_cid h \<and> gac_atc g = gac_atc h \<and>
             (gac_issuer_application_data g = [] \<longleftrightarrow> gac_issuer_application_data h = []) \<and>
             (gac_icc_dynamic_number g = None \<longleftrightarrow> gac_icc_dynamic_number h = None) \<and>
             (gac_signed_dynamic_application_data g = None \<longleftrightarrow> gac_signed_dynamic_application_data h = None)
           then mask_generate_ac_response x policy = mask_generate_ac_response y policy
           else True
       | _ \<Rightarrow> True)
    else True) \<and>
   list_all (\<lambda>tag. mask_tlv_value tag v policy = \<lparr>mf_tag = tag, mf_value = MaskHex (to_hex v)\<rparr>) [[0x9f, 0x6b], [0x56]]"
  using masked_response_shown [of x _ y _ policy sequence sw] production_secrets [of policy] masked_gac_shown [of policy x _ y]
  by (auto simp: mask_tlv_value_def split: sum.split)

text \<open>C31: No PIN in a trace: under every policy the trace of a VERIFY command with data is the same for
  all data of the same length, and so is that of every command when the policy does not allow full
  commands, which no production policy does; a replay script never holds a VERIFY command with data.\<close>

theorem command_data_is_not_traced:
  "(if (if allows_full_apdu policy then ins = 0x20 else True) \<and> length data = length data'
    then mask_apdu_command sequence ([cla, ins, p1, p2, lc] @ data) policy =
         mask_apdu_command sequence ([cla, ins, p1, p2, lc] @ data') policy
    else True) \<and>
   (if lp_build_mode policy = LogProduction then \<not> allows_full_apdu policy else True) \<and>
   (case replay_exchange_new ([cla, 0x20, p1, p2, lc] @ data) response sw c of
      Inl _ \<Rightarrow> True | Inr _ \<Rightarrow> data = [])"
proof -
  have verify: "is_pin_verify_with_data ([cla, 0x20, p1, p2, lc] @ d)"
    if "validate_replay_command_apdu ([cla, 0x20, p1, p2, lc] @ d) = Inr ()" "d \<noteq> []" for d
  proof -
    have "unat lc \<noteq> 0" using that
      by (cases d) (auto simp: validate_replay_command_apdu_def rbind_eq_Inr Let_def split: if_splits)
    with that(2) show ?thesis
      by (cases d) (auto simp: is_pin_verify_with_data_def apdu_command_data_def get_at_def Let_def take_Cons' min_def)
  qed
  have valid: "validate_replay_command_apdu ([cla, ins, p1, p2, lc] @ data) =
      validate_replay_command_apdu ([cla, ins, p1, p2, lc] @ data')" if "length data = length data'"
    using that by (simp add: validate_replay_command_apdu_def validate_replay_apdu_def Let_def)
  have same: "mask_apdu_command sequence ([cla, ins, p1, p2, lc] @ data) policy =
         mask_apdu_command sequence ([cla, ins, p1, p2, lc] @ data') policy"
    if len: "length data = length data'" and hidden: "ins = 0x20 \<or> \<not> allows_full_apdu policy"
  proof (cases "data = []")
    case True
    with len show ?thesis by simp
  next
    case False
    with len have "data' \<noteq> []" by auto
    show ?thesis
    proof (cases "validate_replay_command_apdu ([cla, ins, p1, p2, lc] @ data)")
      case (Inl e)
      with valid [OF len] show ?thesis by (simp add: mask_apdu_command_def)
    next
      case (Inr u)
      have "is_pin_verify_with_data ([cla, ins, p1, p2, lc] @ data) = (ins = 0x20)"
        "is_pin_verify_with_data ([cla, ins, p1, p2, lc] @ data') = (ins = 0x20)"
        using verify Inr valid [OF len] False \<open>data' \<noteq> []\<close> by (auto simp: is_pin_verify_with_data_def get_at_def)
      with Inr valid [OF len] hidden show ?thesis
        by (auto simp: mask_apdu_command_def Let_def get_at_def)
    qed
  qed
  have "data = []" if "replay_exchange_new ([cla, 0x20, p1, p2, lc] @ data) response sw c = Inr x" for x
    using that verify [of data] by (auto simp: replay_exchange_new_def rbind_eq_Inr split: if_splits)
  with same show ?thesis by (auto simp: allows_full_apdu_def split: sum.split)
qed

text \<open>C32: The JSON of every trace of a command or response reads back, with the kernel's own parser, as the
  object with exactly the members of the trace: sequence, direction, context, header bytes or
  status word, and the masked fields in order.\<close>

theorem trace_json_roundtrip:
  "(case mask_apdu_command sequence command policy of
      Inl _ \<Rightarrow> True | Inr t \<Rightarrow> json_parse (apdu_trace_json t) = Inr (apdu_trace_value t)) \<and>
   (case mask_apdu_response sequence c response sw policy of
      Inl _ \<Rightarrow> True | Inr t \<Rightarrow> json_parse (apdu_trace_json t) = Inr (apdu_trace_value t))"
  by (auto split: sum.split dest!: mask_command_ok mask_response_ok intro: apdu_trace_json_parses)

text \<open>A replay follows its script: a run of commands succeeds exactly when they are the next commands
  of the script, in order; the answers are those of the script, each with its status word, and the
  script moves on by as many steps.\<close>

theorem replay_follows_script:
  "replay_run commands script = (Inr answers, script') \<longleftrightarrow>
     (let steps = take (length commands) (drop (rs_cursor script) (rs_steps script))
      in commands = map rx_command steps \<and> answers = map replay_answer steps \<and>
         script' = script\<lparr>rs_cursor := rs_cursor script + length commands\<rparr>)"
  by (rule replay_run_eq)

end
