(* ===== verification/Emv_Abi.thy ===== *)
theory Emv_Abi
  imports Emv_Online Emv_Bundle Emv_Trace
begin

text \<open>
  The entry points of the C interface (\<open>krn_*\<close> of \<open>src/src/ffi.rs\<close>).  A pointer is an option:
  \<open>None\<close> is the null pointer.  A pointer to readable bytes carries the bytes; an output buffer is
  whether it is there and, behind the pointer to its length, its capacity; what a call writes to
  it is part of the result.  The sizes of the C structures are those of a 64-bit target.
\<close>

unbundle bit_operations_syntax

section \<open>Pointers and buffers\<close>

type_synonym 'w handle = "'w krn_context option"

definition readable_slice :: "bytes option \<Rightarrow> nat \<Rightarrow> bytes krn_result" where
  "readable_slice ptr len =
     (if len = 0 then Inr []
      else case ptr of None \<Rightarrow> Inl InvalidArgument | Some memory \<Rightarrow> Inr (take len memory))"

text \<open>An output buffer before a call, and what the call wrote to its length and to it.\<close>

record out_buffer =
  ob_present :: bool
  ob_capacity :: "nat option"

record written =
  wr_len :: "nat option"
  wr_bytes :: "bytes option"

definition nothing_written :: written where
  "nothing_written = \<lparr>wr_len = None, wr_bytes = None\<rparr>"

definition write_output :: "bytes \<Rightarrow> out_buffer \<Rightarrow> nat krn_result \<times> written" where
  "write_output bs out = (case ob_capacity out of
     None \<Rightarrow> (Inl InvalidArgument, nothing_written)
   | Some capacity \<Rightarrow>
       let written = \<lparr>wr_len = Some (length bs), wr_bytes = None\<rparr> in
       if bs = [] then (Inr 0, written)
       else if \<not> ob_present out then (Inl BufferTooSmall, written)
       else if capacity < length bs then (Inl BufferTooSmall, written)
       else (Inr (length bs), written\<lparr>wr_bytes := Some bs\<rparr>))"

text \<open>A computed value goes to the buffer; an error leaves it as it was.\<close>

definition write_result :: "bytes krn_result \<Rightarrow> out_buffer \<Rightarrow> nat krn_result \<times> written" where
  "write_result r out = (case r of Inl e \<Rightarrow> (Inl e, nothing_written) | Inr bs \<Rightarrow> write_output bs out)"

section \<open>The frame of an entry point\<close>

definition mark_reentrant_call :: "'w krn_context \<Rightarrow> bool \<times> 'w krn_context" where
  "mark_reentrant_call ctx = (if kc_busy ctx then (True, ctx\<lparr>kc_last_error := Busy\<rparr>) else (False, ctx))"

text \<open>Null handle, then reentrancy, then the operation; \<open>none\<close> is the output when nothing was written.\<close>

definition guarded ::
    "'o \<Rightarrow> ('w krn_context \<Rightarrow> int \<times> 'w krn_context \<times> 'o) \<Rightarrow> 'w handle \<Rightarrow> int \<times> 'w handle \<times> 'o" where
  "guarded none operation handle = (case handle of
     None \<Rightarrow> (error_code InvalidArgument, None, none)
   | Some ctx \<Rightarrow> (case mark_reentrant_call ctx of
       (True, ctx') \<Rightarrow> (error_code Busy, Some ctx', none)
     | (False, ctx') \<Rightarrow> (case operation ctx' of (code, ctx'', out) \<Rightarrow> (code, Some ctx'', out))))"

text \<open>An operation that only changes the context, its result recorded by \<open>set_result\<close>.\<close>

definition recorded :: "('w krn_context, 'a) krn \<Rightarrow> 'w krn_context \<Rightarrow> int \<times> 'w krn_context \<times> unit" where
  "recorded m ctx = (case m ctx of (r, ctx') \<Rightarrow> case set_result ctx' r of (code, ctx'') \<Rightarrow> (code, ctx'', ()))"

text \<open>One that reads the context and writes to the caller's memory.\<close>

definition reported :: "('w krn_context \<Rightarrow> 'a krn_result \<times> 'o) \<Rightarrow> 'w krn_context \<Rightarrow> int \<times> 'w krn_context \<times> 'o" where
  "reported f ctx = (case f ctx of (r, out) \<Rightarrow> case set_result ctx r of (code, ctx') \<Rightarrow> (code, ctx', out))"

section \<open>Creating and resetting a context\<close>

definition KRN_CONFIG_BLOB_SIZE :: nat where "KRN_CONFIG_BLOB_SIZE = 24"
definition KRN_RUNTIME_SIZE :: nat where "KRN_RUNTIME_SIZE = 40"
definition KRN_CALLBACK_TIMEOUT_POLICY_SIZE :: nat where "KRN_CALLBACK_TIMEOUT_POLICY_SIZE = 32"
definition KRN_TXN_PARAMS_SIZE :: nat where "KRN_TXN_PARAMS_SIZE = 56"

record krn_config_blob =
  cfg_abi_version :: nat
  cfg_struct_size :: nat
  cfg_bytes :: "bytes option"
  cfg_len :: nat

record 'w krn_runtime =
  kr_abi_version :: nat
  kr_struct_size :: nat
  kr_transmit_apdu :: "(bytes \<Rightarrow> int \<Rightarrow> nat \<Rightarrow> 'w \<Rightarrow> (int \<times> bytes \<times> nat) \<times> 'w) option"
  kr_get_unpredictable_number :: "(nat \<Rightarrow> nat \<Rightarrow> 'w \<Rightarrow> (int \<times> bytes) \<times> 'w) option"
  kr_contactless_outcome :: "(krn_contactless_outcome \<Rightarrow> nat \<Rightarrow> 'w \<Rightarrow> 'w) option"
  kr_user_data :: nat

definition validate_config_blob :: "krn_config_blob option \<Rightarrow> unit krn_result" where
  "validate_config_blob cfg = (case cfg of
     None \<Rightarrow> Inr ()
   | Some c \<Rightarrow>
       if cfg_abi_version c \<noteq> KRN_ABI_VERSION \<or> cfg_struct_size c \<noteq> KRN_CONFIG_BLOB_SIZE then Inl InvalidArgument
       else if cfg_len c \<noteq> 0 \<and> cfg_bytes c = None then Inl InvalidArgument
       else Inr ())"

definition read_runtime :: "'w krn_runtime option \<Rightarrow> 'w runtime_callbacks krn_result" where
  "read_runtime runtime = (case runtime of
     None \<Rightarrow> Inl InvalidArgument
   | Some r \<Rightarrow>
       if kr_abi_version r \<noteq> KRN_ABI_VERSION \<or> kr_struct_size r \<noteq> KRN_RUNTIME_SIZE then Inl InvalidArgument
       else rbind (ok_or (kr_transmit_apdu r) InvalidArgument) (\<lambda>transmit.
            rbind (ok_or (kr_get_unpredictable_number r) InvalidArgument) (\<lambda>random.
              Inr \<lparr>rt_transmit_apdu = transmit, rt_get_unpredictable_number = random,
                   rt_contactless_outcome = kr_contactless_outcome r, rt_user_data = kr_user_data r\<rparr>)))"

text \<open>\<open>out_kernel\<close> says whether the place for the new handle is there; \<open>w\<close> is the environment.\<close>

definition krn_init ::
    "krn_config_blob option \<Rightarrow> 'w krn_runtime option \<Rightarrow> bool \<Rightarrow> 'w \<Rightarrow> int \<times> 'w handle" where
  "krn_init cfg runtime out_kernel w =
     (if \<not> out_kernel then (error_code InvalidArgument, None)
      else case rbind (validate_config_blob cfg) (\<lambda>_. read_runtime runtime) of
        Inl err \<Rightarrow> (error_code err, None)
      | Inr callbacks \<Rightarrow>
          (error_code Ok, Some ((krn_context_empty w)
             \<lparr>kc_contactless_outcome_callback := rt_contactless_outcome callbacks,
              kc_contactless_outcome_user_data := rt_user_data callbacks,
              kc_runtime := Some callbacks\<rparr>)))"

definition krn_context_new :: "'w \<Rightarrow> 'w handle" where
  "krn_context_new w = Some (krn_context_empty w)"

definition krn_reset :: "'w handle \<Rightarrow> int \<times> 'w handle \<times> unit" where
  "krn_reset = guarded () (\<lambda>ctx. (error_code Ok, krn_context_reset ctx, ()))"

section \<open>Reading the state\<close>

definition krn_get_last_error :: "'w handle \<Rightarrow> int" where
  "krn_get_last_error handle = (case handle of
     None \<Rightarrow> error_code InvalidArgument | Some ctx \<Rightarrow> error_code (kc_last_error ctx))"

definition krn_get_fsm_state :: "'w handle \<Rightarrow> nat" where
  "krn_get_fsm_state handle = (case handle of
     None \<Rightarrow> fsm_state_code Se | Some ctx \<Rightarrow> fsm_state_code (kc_fsm_state ctx))"

definition krn_get_final_outcome :: "'w handle \<Rightarrow> int" where
  "krn_get_final_outcome handle = (case handle of
     None \<Rightarrow> outcome_code OutcomeError
   | Some ctx \<Rightarrow> outcome_code (case_option OutcomeError id (kc_final_outcome ctx)))"

record krn_callback_timeout_policy =
  ctp_abi_version :: nat
  ctp_struct_size :: nat
  ctp_min_timeout_ms :: int
  ctp_max_timeout_ms :: int
  ctp_apdu_transport_timeout_ms :: int
  ctp_host_authorization_timeout_ms :: int
  ctp_pin_entry_timeout_ms :: int
  ctp_contactless_ui_timeout_ms :: int

definition write_callback_timeout_policy ::
    "krn_callback_timeout_policy \<Rightarrow> callback_timeout_profile \<Rightarrow> krn_callback_timeout_policy" where
  "write_callback_timeout_policy out timeouts =
     out\<lparr>ctp_min_timeout_ms := KRN_CALLBACK_TIMEOUT_MIN_MS, ctp_max_timeout_ms := KRN_CALLBACK_TIMEOUT_MAX_MS,
         ctp_apdu_transport_timeout_ms := apdu_transport_timeout_ms timeouts,
         ctp_host_authorization_timeout_ms := host_authorization_timeout_ms timeouts,
         ctp_pin_entry_timeout_ms := pin_entry_timeout_ms timeouts,
         ctp_contactless_ui_timeout_ms := contactless_ui_timeout_ms timeouts\<rparr>"

text \<open>The policy of a context, or the defaults without one.\<close>

definition krn_get_context_callback_timeout_policy ::
    "'w handle \<Rightarrow> krn_callback_timeout_policy option \<Rightarrow> int \<times> krn_callback_timeout_policy option" where
  "krn_get_context_callback_timeout_policy handle out = (case out of
     None \<Rightarrow> (error_code InvalidArgument, None)
   | Some policy \<Rightarrow>
       if ctp_abi_version policy \<noteq> KRN_ABI_VERSION \<or> ctp_struct_size policy \<noteq> KRN_CALLBACK_TIMEOUT_POLICY_SIZE
       then (error_code InvalidArgument, Some policy)
       else (error_code Ok, Some (write_callback_timeout_policy policy
         (case_option callback_timeouts_defaults kc_callback_timeouts handle))))"

definition krn_get_callback_timeout_policy ::
    "krn_callback_timeout_policy option \<Rightarrow> int \<times> krn_callback_timeout_policy option" where
  "krn_get_callback_timeout_policy out = (case out of
     None \<Rightarrow> (error_code InvalidArgument, None)
   | Some policy \<Rightarrow>
       if ctp_abi_version policy \<noteq> KRN_ABI_VERSION \<or> ctp_struct_size policy \<noteq> KRN_CALLBACK_TIMEOUT_POLICY_SIZE
       then (error_code InvalidArgument, Some policy)
       else (error_code Ok, Some (write_callback_timeout_policy policy callback_timeouts_defaults)))"

section \<open>Transaction parameters\<close>

record krn_txn_params =
  raw_struct_size :: nat
  raw_amount_authorised_minor :: u64
  raw_amount_other_minor :: u64
  raw_currency_code :: u16
  raw_currency_exponent :: byte
  raw_terminal_country_code :: u16
  raw_transaction_type :: byte
  raw_terminal_type :: byte
  raw_merchant_category_code :: arr2
  raw_interface_preference :: byte
  raw_merchant_name_location :: "bytes option"
  raw_merchant_name_location_len :: nat

definition validate_three_digit_numeric_code :: "u16 \<Rightarrow> unit krn_result" where
  "validate_three_digit_numeric_code v = (if v > 999 then Inl InvalidArgument else Inr ())"

definition bool_flag :: "byte \<Rightarrow> bool krn_result" where
  "bool_flag v = (if v = 0 then Inr False else if v = 1 then Inr True else Inl InvalidArgument)"

definition read_transaction_params :: "krn_txn_params option \<Rightarrow> stored_txn_params krn_result" where
  "read_transaction_params params = (case params of
     None \<Rightarrow> Inl InvalidArgument
   | Some p \<Rightarrow>
       if raw_struct_size p \<noteq> KRN_TXN_PARAMS_SIZE then Inl InvalidArgument
       else if raw_interface_preference p \<notin> {KRN_INTERFACE_CONTACT, KRN_INTERFACE_CONTACTLESS} then Inl InvalidArgument
       else rbind (currency_exponent_from_value (raw_currency_exponent p)) (\<lambda>_.
            rbind (validate_three_digit_numeric_code (raw_currency_code p)) (\<lambda>_.
            rbind (validate_three_digit_numeric_code (raw_terminal_country_code p)) (\<lambda>_.
            rbind (terminal_type_online_capable (raw_terminal_type p)) (\<lambda>_.
            if raw_merchant_name_location_len p > MAX_MERCHANT_NAME_LOCATION_LEN then Inl LengthOverflow
            else rbind (readable_slice (raw_merchant_name_location p) (raw_merchant_name_location_len p)) (\<lambda>name.
              Inr \<lparr>tp_amount_authorised_minor = raw_amount_authorised_minor p,
                   tp_amount_other_minor = raw_amount_other_minor p, tp_currency_code = raw_currency_code p,
                   tp_currency_exponent = raw_currency_exponent p,
                   tp_terminal_country_code = raw_terminal_country_code p,
                   tp_transaction_type = raw_transaction_type p, tp_terminal_type = raw_terminal_type p,
                   tp_merchant_category_code = raw_merchant_category_code p,
                   tp_interface_preference = raw_interface_preference p,
                   tp_merchant_name_location = name\<rparr>))))))"

definition set_transaction_params :: "krn_txn_params option \<Rightarrow> ('w krn_context, unit) krn" where
  "set_transaction_params params =
     kbind (klift (read_transaction_params params)) (\<lambda>stored.
     kbind (klift (transition S0 EvSetTransactionParams)) (\<lambda>t.
       kmod (\<lambda>ctx. (clear_transaction_artifacts ctx)
         \<lparr>kc_txn_params := Some stored, kc_state := K_ParamsSet, kc_fsm_state := tr_to t\<rparr>)))"

definition krn_set_transaction_params :: "krn_txn_params option \<Rightarrow> 'w handle \<Rightarrow> int \<times> 'w handle \<times> unit" where
  "krn_set_transaction_params params = guarded () (recorded (set_transaction_params params))"

section \<open>Terminal data\<close>

text \<open>The parsers of the fixed-length fields cannot fail on an array of that length; \<open>expect\<close> says so.\<close>

definition expect_parsed :: "'a krn_result \<Rightarrow> ('a \<Rightarrow> 'w krn_context \<Rightarrow> 'w krn_context) \<Rightarrow> ('w krn_context, unit) krn" where
  "expect_parsed r f = kbind (klift r) (\<lambda>a. kmod (f a))"

definition krn_set_terminal_capabilities :: "byte \<Rightarrow> byte \<Rightarrow> byte \<Rightarrow> 'w handle \<Rightarrow> int \<times> 'w handle \<times> unit" where
  "krn_set_terminal_capabilities byte1 byte2 byte3 = guarded () (recorded
     (expect_parsed (terminal_capabilities_parse [byte1, byte2, byte3])
       (\<lambda>c ctx. ctx\<lparr>kc_terminal_capabilities := Some c\<rparr>)))"

definition krn_set_additional_terminal_capabilities ::
    "byte \<Rightarrow> byte \<Rightarrow> byte \<Rightarrow> byte \<Rightarrow> byte \<Rightarrow> 'w handle \<Rightarrow> int \<times> 'w handle \<times> unit" where
  "krn_set_additional_terminal_capabilities byte1 byte2 byte3 byte4 byte5 = guarded () (recorded
     (expect_parsed (atc_parse [byte1, byte2, byte3, byte4, byte5])
       (\<lambda>c ctx. ctx\<lparr>kc_additional_terminal_capabilities := Some c\<rparr>)))"

definition krn_set_terminal_transaction_qualifiers ::
    "byte \<Rightarrow> byte \<Rightarrow> byte \<Rightarrow> byte \<Rightarrow> 'w handle \<Rightarrow> int \<times> 'w handle \<times> unit" where
  "krn_set_terminal_transaction_qualifiers byte1 byte2 byte3 byte4 = guarded () (recorded
     (expect_parsed (ttq_parse [byte1, byte2, byte3, byte4])
       (\<lambda>q ctx. ctx\<lparr>kc_terminal_transaction_qualifiers := Some q\<rparr>)))"

definition offline_counter_non_volatile :: "u16 \<Rightarrow> offline_counter" where
  "offline_counter_non_volatile n = \<lparr>oc_count = n, oc_source = NonVolatile\<rparr>"

definition krn_set_nonvolatile_offline_counter :: "u16 \<Rightarrow> 'w handle \<Rightarrow> int \<times> 'w handle \<times> unit" where
  "krn_set_nonvolatile_offline_counter consecutive = guarded () (recorded
     (kmod (\<lambda>ctx. ctx\<lparr>kc_offline_counter := Some (offline_counter_non_volatile consecutive)\<rparr>)))"

definition krn_set_trm_random_selection_sample :: "u16 \<Rightarrow> 'w handle \<Rightarrow> int \<times> 'w handle \<times> unit" where
  "krn_set_trm_random_selection_sample sample = guarded () (recorded
     (if sample > 9999 then kfail InvalidArgument
      else kmod (\<lambda>ctx. ctx\<lparr>kc_trm_random_sample_basis_points := Some sample\<rparr>)))"

definition krn_set_cvm_capabilities :: "byte \<Rightarrow> byte \<Rightarrow> byte \<Rightarrow> 'w handle \<Rightarrow> int \<times> 'w handle \<times> unit" where
  "krn_set_cvm_capabilities online_pin signature cdcvm = guarded () (recorded
     (kbind (klift (bool_flag online_pin)) (\<lambda>online_pin.
      kbind (klift (bool_flag signature)) (\<lambda>signature.
      kbind (klift (bool_flag cdcvm)) (\<lambda>cdcvm.
        kmod (\<lambda>ctx. ctx\<lparr>kc_cvm_capabilities :=
          \<lparr>rcc_offline_pin_supported = rcc_offline_pin_supported (kc_cvm_capabilities ctx),
           rcc_online_pin_supported = online_pin, rcc_signature_supported = signature,
           rcc_cdcvm_performed = cdcvm\<rparr>\<rparr>))))))"

definition krn_set_offline_pin_capability :: "byte \<Rightarrow> 'w handle \<Rightarrow> int \<times> 'w handle \<times> unit" where
  "krn_set_offline_pin_capability offline_pin = guarded () (recorded
     (kbind (klift (bool_flag offline_pin)) (\<lambda>offline_pin.
        kmod (\<lambda>ctx. ctx\<lparr>kc_cvm_capabilities :=
          (kc_cvm_capabilities ctx)\<lparr>rcc_offline_pin_supported := offline_pin\<rparr>\<rparr>))))"

definition krn_set_offline_pin_handle :: "byte \<Rightarrow> u64 \<Rightarrow> 'w handle \<Rightarrow> int \<times> 'w handle \<times> unit" where
  "krn_set_offline_pin_handle pin_method secure_pin_data_handle = guarded () (recorded
     (kbind (klift (ped_pin_handle_new secure_pin_data_handle)) (\<lambda>pin.
        if pin_method = KRN_PIN_METHOD_OFFLINE_PLAINTEXT
        then kmod (\<lambda>ctx. ctx\<lparr>kc_cvm_pin_handles := (kc_cvm_pin_handles ctx)\<lparr>offline_plaintext := Some pin\<rparr>\<rparr>)
        else if pin_method = KRN_PIN_METHOD_OFFLINE_ENCIPHERED
        then kmod (\<lambda>ctx. ctx\<lparr>kc_cvm_pin_handles := (kc_cvm_pin_handles ctx)\<lparr>offline_enciphered := Some pin\<rparr>\<rparr>)
        else kfail InvalidArgument)))"

section \<open>Profiles\<close>

definition load_profiles_verified :: "bytes option \<Rightarrow> nat \<Rightarrow> u64 \<Rightarrow> u64 \<Rightarrow> emv_date \<Rightarrow> ('w krn_context, unit) krn" where
  "load_profiles_verified json json_len installed_version candidate_version evaluation_date =
     kbind (klift (readable_slice json json_len)) (\<lambda>bs.
     kbind (kask (\<lambda>ctx. let current_version = case_option 0 ps_version (kc_profiles ctx) in
         load_profile_set bs
           \<lparr>policy_mode = ModeCertification, policy_signature_status = SignatureVerified,
            policy_installed_version = max installed_version current_version,
            policy_candidate_version = candidate_version, policy_evaluation_date = evaluation_date\<rparr>)) (\<lambda>profiles.
       kmod (\<lambda>ctx. ctx\<lparr>kc_profile_sha256 := Some (sha256 bs), kc_profiles := Some profiles,
         kc_profile_evaluation_date := Some evaluation_date\<rparr>)))"

definition krn_load_profiles_verified ::
    "bytes option \<Rightarrow> nat \<Rightarrow> u64 \<Rightarrow> u64 \<Rightarrow> byte \<Rightarrow> byte \<Rightarrow> byte \<Rightarrow> 'w handle \<Rightarrow> int \<times> 'w handle \<times> unit" where
  "krn_load_profiles_verified json json_len installed_version candidate_version eval_year eval_month eval_day =
     guarded () (recorded (load_profiles_verified json json_len installed_version candidate_version
       (EmvDate eval_year eval_month eval_day)))"

text \<open>
  A certification bundle brings its profile set, its rollback counter and the timeouts of the callbacks.
  What is compared is the counter of the last bundle, not the version of the profiles.
\<close>

definition load_certification_bundle_verified ::
    "'k ed25519 \<Rightarrow> bytes option \<Rightarrow> nat \<Rightarrow> bytes option \<Rightarrow> nat \<Rightarrow> u64 \<Rightarrow> emv_date \<Rightarrow> ('w krn_context, unit) krn" where
  "load_certification_bundle_verified ed bundle_json bundle_json_len trust_json trust_json_len
      installed_rollback_counter evaluation_date =
     kbind (klift (readable_slice bundle_json bundle_json_len)) (\<lambda>bundle_bytes.
     kbind (klift (readable_slice trust_json trust_json_len)) (\<lambda>trust_bytes.
     kbind (klift (parse_trust_anchors trust_bytes)) (\<lambda>trust_anchors.
     kbind (kask (\<lambda>ctx. load_certification_bundle ed bundle_bytes
         \<lparr>blp_mode = ModeCertification,
          blp_installed_rollback_counter = max installed_rollback_counter (kc_certification_bundle_rollback_counter ctx),
          blp_evaluation_date = evaluation_date, blp_trust_anchors = trust_anchors\<rparr>)) (\<lambda>loaded.
       kmod (\<lambda>ctx. ctx
         \<lparr>kc_profile_sha256 := Some (lcb_scheme_profile_sha256 loaded),
          kc_profiles := Some (lcb_profile_set loaded),
          kc_profile_evaluation_date := Some evaluation_date,
          kc_certification_bundle_sha256 := Some (lcb_bundle_sha256 loaded),
          kc_certification_bundle_payload_sha256 := Some (lcb_payload_sha256 loaded),
          kc_certification_bundle_rollback_counter := cb_rollback_counter (lcb_bundle loaded),
          kc_callback_timeouts := rp_callback_timeouts (cbp_runtime_policy (cb_payload (lcb_bundle loaded)))\<rparr>)))))"

definition krn_load_certification_bundle_verified ::
    "'k ed25519 \<Rightarrow> bytes option \<Rightarrow> nat \<Rightarrow> bytes option \<Rightarrow> nat \<Rightarrow> u64 \<Rightarrow> byte \<Rightarrow> byte \<Rightarrow> byte \<Rightarrow> 'w handle \<Rightarrow>
       int \<times> 'w handle \<times> unit" where
  "krn_load_certification_bundle_verified ed bundle_json bundle_json_len trust_json trust_json_len
      installed_rollback_counter eval_year eval_month eval_day =
     guarded () (recorded (load_certification_bundle_verified ed bundle_json bundle_json_len
       trust_json trust_json_len installed_rollback_counter (EmvDate eval_year eval_month eval_day)))"

section \<open>Running\<close>

text \<open>Calls back into the same context are refused while an operation runs.\<close>

definition while_busy :: "('w krn_context, 'a) krn \<Rightarrow> ('w krn_context, 'a) krn" where
  "while_busy m = (\<lambda>ctx. case m (ctx\<lparr>kc_busy := True\<rparr>) of (r, ctx') \<Rightarrow> (r, ctx'\<lparr>kc_busy := False\<rparr>))"

definition krn_run_transaction :: "('w \<Rightarrow> nat) \<Rightarrow> 'w handle \<Rightarrow> int \<times> 'w handle" where
  "krn_run_transaction clock handle = (case handle of
     None \<Rightarrow> (outcome_code OutcomeError, None)
   | Some ctx \<Rightarrow> (case mark_reentrant_call ctx of
       (True, ctx') \<Rightarrow> (outcome_code OutcomeError, Some ctx')
     | (False, ctx') \<Rightarrow> (case run_transaction clock (ctx'\<lparr>kc_busy := True\<rparr>) of
         (outcome, ctx'') \<Rightarrow> (outcome_code outcome, Some (ctx''\<lparr>kc_busy := False\<rparr>)))))"

definition apply_host_response_bytes :: "bytes option \<Rightarrow> nat \<Rightarrow> ('w krn_context, unit) krn" where
  "apply_host_response_bytes response len =
     kbind (klift (readable_slice response len)) (\<lambda>bs.
       if bs = [] \<or> length bs > MAX_HOST_RESPONSE_LEN then kfail LengthOverflow else apply_host_response bs)"

definition krn_apply_host_response :: "bytes option \<Rightarrow> nat \<Rightarrow> 'w handle \<Rightarrow> int \<times> 'w handle \<times> unit" where
  "krn_apply_host_response response len = guarded () (recorded (apply_host_response_bytes response len))"

text \<open>The operations that talk to the card need the callbacks; without them the error is recorded.\<close>

definition with_runtime :: "('w runtime_callbacks \<Rightarrow> ('w krn_context, unit) krn) \<Rightarrow> ('w krn_context, unit) krn" where
  "with_runtime operation = (\<lambda>ctx. case kc_runtime ctx of
     None \<Rightarrow> (Inl InvalidArgument, ctx)
   | Some runtime \<Rightarrow> while_busy (operation runtime) ctx)"

definition krn_process_issuer_authentication :: "'w handle \<Rightarrow> int \<times> 'w handle \<times> unit" where
  "krn_process_issuer_authentication = guarded () (recorded (with_runtime run_issuer_authentication))"

definition krn_process_issuer_scripts :: "'w handle \<Rightarrow> int \<times> 'w handle \<times> unit" where
  "krn_process_issuer_scripts = guarded () (recorded (with_runtime run_issuer_scripts))"

definition krn_process_post_final_issuer_scripts :: "'w handle \<Rightarrow> int \<times> 'w handle \<times> unit" where
  "krn_process_post_final_issuer_scripts = guarded () (recorded (with_runtime run_post_final_issuer_scripts))"

definition krn_process_final_generate_ac :: "'w handle \<Rightarrow> int \<times> 'w handle \<times> unit" where
  "krn_process_final_generate_ac = guarded () (recorded (with_runtime run_final_generate_ac))"

section \<open>Building commands\<close>

definition krn_build_select_environment :: "bool \<Rightarrow> out_buffer \<Rightarrow> 'w handle \<Rightarrow> int \<times> 'w handle \<times> written" where
  "krn_build_select_environment contactless out = guarded nothing_written (reported (\<lambda>_.
     write_result (apdu_encode (select_environment (if contactless then Contactless else Contact))) out))"

fun cryptogram_request_of_u8 :: "byte \<Rightarrow> cryptogram_request krn_result" where
  "cryptogram_request_of_u8 n =
     (if n = 0 then Inr ReqAac else if n = 1 then Inr ReqTc else if n = 2 then Inr ReqArqc else Inl InvalidArgument)"

definition krn_build_generate_ac ::
    "byte \<Rightarrow> bytes option \<Rightarrow> nat \<Rightarrow> byte \<Rightarrow> out_buffer \<Rightarrow> 'w handle \<Rightarrow> int \<times> 'w handle \<times> written" where
  "krn_build_generate_ac request cdol_values cdol_len cda_p1_low_bits out = guarded nothing_written (reported (\<lambda>_.
     write_result
       (rbind (readable_slice cdol_values cdol_len) (\<lambda>vs.
        rbind (cryptogram_request_of_u8 request) (\<lambda>req.
        rbind (generate_ac req vs (if cda_p1_low_bits = 0 then NotRequested else P1LowBits cda_p1_low_bits)) apdu_encode))) out))"

definition krn_build_internal_authenticate ::
    "bytes option \<Rightarrow> nat \<Rightarrow> out_buffer \<Rightarrow> 'w handle \<Rightarrow> int \<times> 'w handle \<times> written" where
  "krn_build_internal_authenticate ddol_values ddol_values_len out = guarded nothing_written (reported (\<lambda>_.
     write_result (rbind (readable_slice ddol_values ddol_values_len) (\<lambda>vs.
       rbind (internal_authenticate vs) apdu_encode)) out))"

section \<open>Reading results\<close>

definition krn_get_online_authorization_data :: "out_buffer \<Rightarrow> 'w handle \<Rightarrow> int \<times> 'w handle \<times> written" where
  "krn_get_online_authorization_data out = guarded nothing_written (reported (\<lambda>ctx.
     write_result (ok_or (kc_online_authorization_data ctx) InvalidArgument) out))"

definition krn_get_profile_sha256 :: "out_buffer \<Rightarrow> 'w handle \<Rightarrow> int \<times> 'w handle \<times> written" where
  "krn_get_profile_sha256 out = guarded nothing_written (reported (\<lambda>ctx.
     write_result (ok_or (kc_profile_sha256 ctx) InvalidProfile) out))"

text \<open>This one writes the length before it looks for the digest, and leaves the context alone.\<close>

definition krn_get_certification_bundle_sha256 :: "out_buffer \<Rightarrow> 'w handle \<Rightarrow> int \<times> written" where
  "krn_get_certification_bundle_sha256 out handle = (case handle of
     None \<Rightarrow> (error_code InvalidArgument, nothing_written)
   | Some ctx \<Rightarrow> (case ob_capacity out of
       None \<Rightarrow> (error_code InvalidArgument, nothing_written)
     | Some capacity \<Rightarrow>
         if \<not> ob_present out then (error_code InvalidArgument, nothing_written)
         else if capacity < KRN_PROFILE_SHA256_LEN
         then (error_code BufferTooSmall, \<lparr>wr_len = Some KRN_PROFILE_SHA256_LEN, wr_bytes = None\<rparr>)
         else (case kc_certification_bundle_sha256 ctx of
             None \<Rightarrow> (error_code InvalidProfile, nothing_written)
           | Some digest \<Rightarrow> (error_code Ok, \<lparr>wr_len = Some KRN_PROFILE_SHA256_LEN, wr_bytes = Some digest\<rparr>))))"

definition krn_get_issuer_script_result_count :: "'w handle \<Rightarrow> nat" where
  "krn_get_issuer_script_result_count handle = (case handle of
     None \<Rightarrow> 0 | Some ctx \<Rightarrow> length (kc_issuer_script_results ctx))"

text \<open>What is read of the captured result at an index; \<open>present\<close> says that all the places to write to are there.\<close>

definition script_result_at ::
    "bool \<Rightarrow> nat \<Rightarrow> (captured_issuer_script_result \<Rightarrow> 'o) \<Rightarrow> 'w krn_context \<Rightarrow> unit krn_result \<times> 'o option" where
  "script_result_at present index f ctx =
     (if \<not> present then (Inl InvalidArgument, None)
      else case get_at (kc_issuer_script_results ctx) index of
        None \<Rightarrow> (Inl InvalidArgument, None)
      | Some result \<Rightarrow> (Inr (), Some (f result)))"

definition krn_get_issuer_script_result ::
    "nat \<Rightarrow> bool \<Rightarrow> bool \<Rightarrow> 'w handle \<Rightarrow> int \<times> 'w handle \<times> (byte \<times> byte) option" where
  "krn_get_issuer_script_result index present_sw1 present_sw2 = guarded None (reported
     (script_result_at (present_sw1 \<and> present_sw2) index (\<lambda>r. (scr_sw1 (cis_result r), scr_sw2 (cis_result r)))))"

definition krn_get_issuer_script_result_phase :: "nat \<Rightarrow> bool \<Rightarrow> 'w handle \<Rightarrow> int \<times> 'w handle \<times> byte option" where
  "krn_get_issuer_script_result_phase index present = guarded None (reported
     (script_result_at present index (\<lambda>r. script_phase_code (cis_phase r))))"

definition krn_get_issuer_script_result_position ::
    "nat \<Rightarrow> bool \<Rightarrow> bool \<Rightarrow> 'w handle \<Rightarrow> int \<times> 'w handle \<times> (u16 \<times> u16) option" where
  "krn_get_issuer_script_result_position index present_script present_command = guarded None (reported
     (script_result_at (present_script \<and> present_command) index (\<lambda>r. (cis_script_index r, cis_command_index r))))"

definition script_result_identifier :: "nat \<Rightarrow> out_buffer \<Rightarrow> 'w krn_context \<Rightarrow> unit krn_result \<times> written" where
  "script_result_identifier index out ctx = (case ob_capacity out of
     None \<Rightarrow> (Inl InvalidArgument, nothing_written)
   | Some available \<Rightarrow> (case get_at (kc_issuer_script_results ctx) index of
       None \<Rightarrow> (Inl InvalidArgument, nothing_written)
     | Some result \<Rightarrow> (case cis_script_identifier result of
         None \<Rightarrow> (Inr (), \<lparr>wr_len = Some 0, wr_bytes = None\<rparr>)
       | Some identifier \<Rightarrow>
           let required = length identifier in
           if \<not> ob_present out \<or> available < required
           then (Inl BufferTooSmall, \<lparr>wr_len = Some required, wr_bytes = None\<rparr>)
           else (Inr (), \<lparr>wr_len = Some required, wr_bytes = Some identifier\<rparr>))))"

definition krn_get_issuer_script_result_identifier :: "nat \<Rightarrow> out_buffer \<Rightarrow> 'w handle \<Rightarrow> int \<times> 'w handle \<times> written" where
  "krn_get_issuer_script_result_identifier index out = guarded nothing_written (reported (script_result_identifier index out))"

definition krn_get_profile_version :: "bool \<Rightarrow> 'w handle \<Rightarrow> int \<times> 'w handle \<times> u64 option" where
  "krn_get_profile_version present = guarded None (reported (\<lambda>ctx.
     if \<not> present then (Inl InvalidArgument, None)
     else case kc_profiles ctx of
       None \<Rightarrow> (Inl InvalidProfile, None) | Some profiles \<Rightarrow> (Inr (), Some (ps_version profiles))))"

section \<open>The contactless outcome\<close>

text \<open>Registering the callback replaces the callback and the user data of the runtime too.\<close>

definition krn_set_contactless_outcome_callback ::
    "(krn_contactless_outcome \<Rightarrow> nat \<Rightarrow> 'w \<Rightarrow> 'w) option \<Rightarrow> nat \<Rightarrow> 'w handle \<Rightarrow> int \<times> 'w handle \<times> unit" where
  "krn_set_contactless_outcome_callback callback user_data = guarded () (\<lambda>ctx.
     (error_code Ok,
      ctx\<lparr>kc_contactless_outcome_callback := callback, kc_contactless_outcome_user_data := user_data,
          kc_runtime := map_option (\<lambda>runtime. runtime\<lparr>rt_contactless_outcome := callback, rt_user_data := user_data\<rparr>)
            (kc_runtime ctx),
          kc_last_error := Ok\<rparr>, ()))"

definition outcome_code_from_u8 :: "byte \<Rightarrow> contactless_outcome_code krn_result" where
  "outcome_code_from_u8 v =
     (if v = 1 then Inr OutApproved else if v = 2 then Inr OutDeclined else if v = 3 then Inr OutOnlineRequired
      else if v = 4 then Inr OutTryAgain else if v = 5 then Inr OutSelectNext
      else if v = 6 then Inr OutAlternateInterface else if v = 7 then Inr OutTerminate
      else if v = 8 then Inr OutCvmRequired else if v = 255 then Inr OutProfileDefined
      else Inl InvalidArgument)"

definition start_signal_from_u8 :: "byte \<Rightarrow> start_signal krn_result" where
  "start_signal_from_u8 v =
     (if v = 0 then Inr StartNone else if v = 1 then Inr Start else if v = 2 then Inr StartRestart
      else if v = 3 then Inr StartPrompt else Inl InvalidArgument)"

definition ui_status_from_u8 :: "byte \<Rightarrow> ui_status krn_result" where
  "ui_status_from_u8 v =
     (if v = 0 then Inr UiNone else if v = 1 then Inr UiReadyToRead else if v = 2 then Inr UiProcessing
      else if v = 3 then Inr UiApproved else if v = 4 then Inr UiDeclined else if v = 5 then Inr UiError
      else if v = 6 then Inr UiTryAgain else Inl InvalidArgument)"

definition alternate_interface_from_u8 :: "byte \<Rightarrow> alternate_interface krn_result" where
  "alternate_interface_from_u8 v =
     (if v = 0 then Inr AltNone else if v = 1 then Inr AltContact else if v = 2 then Inr AltMagstripe
      else if v = 3 then Inr AltOtherCard else Inl InvalidArgument)"

record raw_contactless_outcome_args =
  rco_outcome_code :: byte
  rco_start_signal :: byte
  rco_ui_message_id :: u16
  rco_ui_status :: byte
  rco_hold_time_ms :: u16
  rco_restart_required :: byte
  rco_data_record :: "bytes option"
  rco_data_record_len :: nat
  rco_discretionary_data :: "bytes option"
  rco_discretionary_data_len :: nat
  rco_alternate_interface :: byte

definition contactless_outcome_of_args :: "raw_contactless_outcome_args \<Rightarrow> contactless_outcome krn_result" where
  "contactless_outcome_of_args args =
     rbind (readable_slice (rco_data_record args) (rco_data_record_len args)) (\<lambda>data_record.
     rbind (readable_slice (rco_discretionary_data args) (rco_discretionary_data_len args)) (\<lambda>discretionary_data.
     rbind (outcome_code_from_u8 (rco_outcome_code args)) (\<lambda>code.
     rbind (start_signal_from_u8 (rco_start_signal args)) (\<lambda>start.
     rbind (ui_status_from_u8 (rco_ui_status args)) (\<lambda>status.
     rbind (alternate_interface_from_u8 (rco_alternate_interface args)) (\<lambda>alt.
       contactless_outcome_new code start
         \<lparr>ui_message_id = rco_ui_message_id args, ui_status = status, ui_hold_time_ms = rco_hold_time_ms args\<rparr>
         (rco_restart_required args \<noteq> 0) data_record discretionary_data alt))))))"

definition emit_contactless_outcome :: "raw_contactless_outcome_args \<Rightarrow> ('w krn_context, unit) krn" where
  "emit_contactless_outcome args =
     kbind (kask (\<lambda>ctx. ok_or (kc_contactless_outcome_callback ctx) InvalidArgument)) (\<lambda>callback.
     kbind (klift (contactless_outcome_of_args args)) (\<lambda>outcome.
       kmod (\<lambda>ctx. ctx\<lparr>kc_world := callback (as_ffi outcome) (kc_contactless_outcome_user_data ctx) (kc_world ctx)\<rparr>)))"

definition krn_emit_contactless_outcome :: "raw_contactless_outcome_args \<Rightarrow> 'w handle \<Rightarrow> int \<times> 'w handle \<times> unit" where
  "krn_emit_contactless_outcome args = guarded () (recorded (emit_contactless_outcome args))"

section \<open>The table of errors\<close>

definition krn_abi_version :: nat where "krn_abi_version = KRN_ABI_VERSION"
definition krn_error_table_len :: nat where "krn_error_table_len = length ERROR_TABLE"

definition krn_error_code_at :: "nat \<Rightarrow> bool \<Rightarrow> int \<times> int option" where
  "krn_error_code_at index present =
     (if \<not> present then (error_code InvalidArgument, None)
      else case get_at ERROR_TABLE index of
        None \<Rightarrow> (error_code InvalidArgument, None)
      | Some err \<Rightarrow> (error_code Ok, Some (error_code err)))"

text \<open>The result of a call without a context: the code, and what was written.\<close>

definition plain_output :: "nat krn_result \<times> written \<Rightarrow> int \<times> written" where
  "plain_output r = (case r of (Inr _, out) \<Rightarrow> (error_code Ok, out) | (Inl err, out) \<Rightarrow> (error_code err, out))"

definition krn_error_name :: "int \<Rightarrow> out_buffer \<Rightarrow> int \<times> written" where
  "krn_error_name code out = (case error_from_code code of
     None \<Rightarrow> (error_code InvalidArgument, nothing_written)
   | Some err \<Rightarrow> plain_output (write_output (ascii (error_name err)) out))"

definition krn_error_description :: "int \<Rightarrow> out_buffer \<Rightarrow> int \<times> written" where
  "krn_error_description code out = (case error_from_code code of
     None \<Rightarrow> (error_code InvalidArgument, nothing_written)
   | Some err \<Rightarrow> plain_output (write_output (ascii (error_description err)) out))"

section \<open>Masked traces\<close>

definition trace_policy :: "bool \<Rightarrow> log_policy" where
  "trace_policy certification_support = (if certification_support then policy_certification_support else policy_production)"

definition trace_context :: "byte \<Rightarrow> apdu_trace_context krn_result" where
  "trace_context c = (if c = 0 then Inr TraceGeneric else if c = 1 then Inr TraceGenerateAcResponse else Inl InvalidArgument)"

definition krn_mask_apdu_command_json :: "bytes option \<Rightarrow> nat \<Rightarrow> bool \<Rightarrow> out_buffer \<Rightarrow> int \<times> written" where
  "krn_mask_apdu_command_json command command_len certification_support out = plain_output (write_result
     (rbind (readable_slice command command_len) (\<lambda>bs.
      rbind (mask_apdu_command 0 bs (trace_policy certification_support)) (\<lambda>trace. Inr (apdu_trace_json trace)))) out)"

definition krn_mask_apdu_response_json ::
    "byte \<Rightarrow> bytes option \<Rightarrow> nat \<Rightarrow> byte \<Rightarrow> byte \<Rightarrow> bool \<Rightarrow> out_buffer \<Rightarrow> int \<times> written" where
  "krn_mask_apdu_response_json c response_data response_data_len b1 b2 certification_support out = plain_output (write_result
     (rbind (trace_context c) (\<lambda>trace_context.
      rbind (readable_slice response_data response_data_len) (\<lambda>bs.
      rbind (mask_apdu_response 0 trace_context bs (b1, b2) (trace_policy certification_support)) (\<lambda>trace.
        Inr (apdu_trace_json trace))))) out)"

end
