(* ===== verification/Emv_Bundle_Json.thy ===== *)
theory Emv_Bundle_Json
  imports Emv_Bundle
begin

text \<open>
  What the JSON of a certification bundle (\<open>src/src/cert_bundle.rs\<close>) says: a bundle that was parsed is
  read back from what is written for it.
\<close>

unbundle bit_operations_syntax

section \<open>Texts that are read back\<close>

text \<open>ASCII without the control characters that JSON has no short escape for.\<close>

definition plain_char :: "char \<Rightarrow> bool" where
  "plain_char c \<longleftrightarrow> (let n = of_char c :: nat in n < 0x7f \<and> (0x20 \<le> n \<or> n = 9 \<or> n = 10 \<or> n = 13))"

definition plain_text :: "string \<Rightarrow> bool" where
  "plain_text s \<longleftrightarrow> list_all plain_char s"

lemma plain_char_written:
  assumes plain: "plain_char c"
  shows "escape_char c = json_escape_char (of_char c) \<and> readable_char (of_char c) \<and> utf8_char c = [of_char c]"
proof -
  define n where "n = (of_char c :: nat)"
  define b where "b = (of_char c :: byte)"
  have n: "n < 0x7f" "0x20 \<le> n \<or> n = 9 \<or> n = 10 \<or> n = 13"
    using plain by (simp_all add: plain_char_def Let_def n_def)
  have b: "b = word_of_nat n" by (simp add: b_def n_def of_nat_of_char)
  then have ub: "unat b = n" using n(1) by (simp add: unsigned_of_nat take_bit_nat_eq_self)
  have c: "c = d \<longleftrightarrow> n = of_char d" for d by (simp add: n_def)
  have w: "b = w \<longleftrightarrow> n = unat w" "b < w \<longleftrightarrow> n < unat w" "b \<le> w \<longleftrightarrow> n \<le> unat w" "w \<le> b \<longleftrightarrow> unat w \<le> n" "w < b \<longleftrightarrow> unat w < n" for w
    using ub by (auto simp: word_unat_eq_iff word_less_nat_alt word_le_nat_alt)
  have "escape_char c = json_escape_char b"
    using n by (auto simp: escape_char_def json_escape_char_def c w is_control_def utf8_char_def Let_def n_def [symmetric] b [symmetric])
  moreover have "readable_char b" using n by (auto simp: readable_char_def w)
  moreover have "utf8_char c = [b]" using n(1) by (simp add: utf8_char_def Let_def n_def [symmetric] b [symmetric])
  ultimately show ?thesis by (simp add: b_def)
qed

lemma plain_text_written:
  assumes "plain_text s"
  shows "push_json_escaped s = concat (map json_escape_char (ascii s))" "list_all readable_char (ascii s)" "utf8 s = ascii s"
  using assms by (induction s) (simp_all add: plain_text_def push_json_escaped_def ascii_def utf8_def plain_char_written)

lemma plain_string_text: "plain_text s \<Longrightarrow> json_text (JsonString s) (0x22 # push_json_escaped s @ [0x22])"
  using written_string [of "ascii s"] json_ascii_ascii [of s] by (simp add: plain_text_written json_ascii_def)

definition text_member :: "string \<Rightarrow> string \<Rightarrow> string \<times> json_value \<times> bytes" where
  "text_member k s = (k, JsonString s, 0x22 # push_json_escaped s @ [0x22])"

definition texts_member :: "string \<Rightarrow> string list \<Rightarrow> string \<times> json_value \<times> bytes" where
  "texts_member k vs = (k, JsonArray (map JsonString vs), 0x5b # join (map (\<lambda>v. 0x22 # push_json_escaped v @ [0x22]) vs) @ [0x5d])"

definition flag_member :: "string \<Rightarrow> bool \<Rightarrow> string \<times> json_value \<times> bytes" where
  "flag_member k b = (k, JsonBool b, ascii (if b then ''true'' else ''false''))"

definition object_member :: "string \<Rightarrow> written_members \<Rightarrow> string \<times> json_value \<times> bytes" where
  "object_member k ms = (k, object_value ms, object_text ms)"

definition objects_member :: "string \<Rightarrow> written_members list \<Rightarrow> string \<times> json_value \<times> bytes" where
  "objects_member k mss = (k, JsonArray (map object_value mss), 0x5b # join (map object_text mss) @ [0x5d])"

lemmas member_defs = text_member_def texts_member_def flag_member_def object_member_def objects_member_def number_member_def

lemma member_texts:
  "member_text (text_member k s) = push_text k s"
  "member_text (texts_member k vs) = push_json_array k vs"
  "member_text (flag_member k b) = push_bool k b"
  "member_text (object_member k ms) = push_member k (object_text ms)"
  "member_text (objects_member k mss) = push_member k (array_json object_text mss)"
  "member_text (number_member k n) = push_json_number k n"
  by (simp_all add: member_defs member_text_def push_text_def push_json_array_def push_bool_def push_member_def array_json_def
      push_json_number_def)

lemma member_keys:
  "fst (text_member k s) = k" "fst (texts_member k vs) = k" "fst (flag_member k b) = k" "fst (object_member k ms) = k"
  "fst (objects_member k mss) = k" "fst (number_member k n) = k"
  by (simp_all add: member_defs)

lemma member_writtenI:
  assumes "list_all key_char k"
  shows "plain_text s \<Longrightarrow> member_written (text_member k s)"
    "list_all plain_text vs \<Longrightarrow> member_written (texts_member k vs)"
    "member_written (flag_member k b)"
    "members_written ms \<Longrightarrow> member_written (object_member k ms)"
    "list_all members_written mss \<Longrightarrow> member_written (objects_member k mss)"
    "n < 2 ^ 64 \<Longrightarrow> member_written (number_member k n)"
proof -
  have t: "json_text (JsonBool True) (ascii ''true'')" "json_text (JsonBool False) (ascii ''false'')"
    using text_true [of "[]"] text_false [of "[]"] by (simp_all add: ws_text_def)
  show "plain_text s \<Longrightarrow> member_written (text_member k s)"
    "list_all plain_text vs \<Longrightarrow> member_written (texts_member k vs)"
    "member_written (flag_member k b)"
    "members_written ms \<Longrightarrow> member_written (object_member k ms)"
    "list_all members_written mss \<Longrightarrow> member_written (objects_member k mss)"
    "n < 2 ^ 64 \<Longrightarrow> member_written (number_member k n)"
    using assms t
    by (auto simp: member_written_def member_defs list_all_iff list_all2_map1 list_all2_map2 list_all2_same
        intro!: plain_string_text written_any_array written_object_text written_number)
qed

section \<open>What reading a field returns\<close>

definition clean :: "string \<Rightarrow> bool" where
  "clean v \<longleftrightarrow> validate_clean_string v = Inr ()"

definition clean_set :: "string list \<Rightarrow> bool" where
  "clean_set vs \<longleftrightarrow> vs \<noteq> [] \<and> list_all clean vs \<and> distinct vs \<and> length vs \<le> MAX_BUNDLE_COLLECTION_ITEMS"

definition clean_hex :: "string \<Rightarrow> nat \<Rightarrow> bool" where
  "clean_hex v n \<longleftrightarrow> clean v \<and> validate_hex_len v n = Inr ()"

lemma as_eq:
  "as_string v = Inr s \<longleftrightarrow> v = JsonString s" "as_array v = Inr vs \<longleftrightarrow> v = JsonArray vs"
  "as_object v = Inr ms \<longleftrightarrow> v = JsonObject ms" "as_u64 v = Inr n \<longleftrightarrow> v = JsonNumber n"
  "as_bool v = Inr b \<longleftrightarrow> v = JsonBool b"
  by (cases v; auto)+

lemma unit_result: "(\<exists>u. m = Inr u \<and> P) \<longleftrightarrow> m = Inr () \<and> P" for m :: "'e + unit"
  by auto

lemma required_fields:
  "required_string object k = Inr s \<longleftrightarrow> json_get object k = Some (JsonString s)"
  "required_object object k = Inr ms \<longleftrightarrow> json_get object k = Some (JsonObject ms)"
  "required_u64 object k = Inr n \<longleftrightarrow> json_get object k = Some (JsonNumber n)"
  "required_bool object k = Inr b \<longleftrightarrow> json_get object k = Some (JsonBool b)"
  by (auto simp: required_string_def required_object_def required_u64_def required_bool_def required_field_def krn_simps as_eq)

lemma required_clean_string_iff:
  "required_clean_string object k = Inr s \<longleftrightarrow> json_get object k = Some (JsonString s) \<and> clean s"
  by (auto simp: required_clean_string_def rbind_eq_Inr required_fields clean_def)

lemma clean_items: "rmapM clean_item items = Inr vs \<longleftrightarrow> items = map JsonString vs \<and> list_all clean vs"
proof -
  have "clean_item item = Inr v \<longleftrightarrow> item = JsonString v \<and> clean v" for item v
    by (auto simp: clean_item_def rbind_eq_Inr as_eq clean_def)
  then show ?thesis
    unfolding rmapM_eq_Inr_list_all2 by (induction items arbitrary: vs) (auto simp: list_all2_Cons1 Cons_eq_map_conv)
qed

lemma bounded_len_iff: "bounded_len n = Inr u \<longleftrightarrow> n \<le> MAX_BUNDLE_COLLECTION_ITEMS"
  by (simp add: bounded_len_def)

lemma reject_duplicates_iff: "reject_duplicates vs = Inr u \<longleftrightarrow> distinct vs"
  by (simp add: reject_duplicates_def)

lemma validate_non_empty_set_iff: "validate_non_empty_set vs = Inr u \<longleftrightarrow> vs \<noteq> [] \<and> distinct vs"
  by (simp add: validate_non_empty_set_def reject_duplicates_iff)

lemma required_string_array_iff:
  "required_string_array object k = Inr vs \<longleftrightarrow> json_get object k = Some (JsonArray (map JsonString vs)) \<and> clean_set vs"
proof -
  have nonempty: "(if items = [] then Inl InvalidProfile else m) = Inr vs \<longleftrightarrow> items \<noteq> [] \<and> m = Inr vs"
    for items :: "json_value list" and m :: "string list krn_result"
    by simp
  show ?thesis
    unfolding required_string_array_def required_field_def nonempty krn_simps as_eq bounded_len_iff clean_items clean_set_def
      validate_non_empty_set_iff
    by auto
qed

lemma required_string_array_allow_empty_iff:
  "required_string_array_allow_empty object k = Inr vs \<longleftrightarrow>
     json_get object k = Some (JsonArray (map JsonString vs)) \<and> (vs = [] \<or> clean_set vs)"
  by (auto simp: required_string_array_allow_empty_def required_field_def krn_simps as_eq bounded_len_iff clean_items
      reject_duplicates_iff clean_set_def)

lemma validate_callback_timeouts_iff:
  "validate_callback_timeouts t = Inr u \<longleftrightarrow>
     list_all (\<lambda>timeout. 1 \<le> timeout \<and> timeout \<le> 60000)
       [apdu_transport_timeout_ms t, host_authorization_timeout_ms t, pin_entry_timeout_ms t, contactless_ui_timeout_ms t]"
  by (auto simp: validate_callback_timeouts_def)

lemmas read_iffs = required_fields required_clean_string_iff required_string_array_iff required_string_array_allow_empty_iff
  as_eq unit_result clean_hex_def rbind_eq_Inr

text \<open>An object with the keys and values of written members.\<close>

abbreviation key_values :: "written_members \<Rightarrow> json_object" where
  "key_values ms \<equiv> map (\<lambda>(k, v, t). (k, v)) ms"

lemma known_fields: "reject_unknown_fields object allowed = Inr u \<longleftrightarrow> fst ` set object \<subseteq> set allowed"
proof -
  have "list_ex (\<lambda>k. k = key) allowed \<longleftrightarrow> key \<in> set allowed" for key by (auto simp: list_ex_iff)
  then show ?thesis by (auto simp: reject_unknown_fields_def list_ex_iff)
qed

lemmas field_reads = json_get_def member_defs

section \<open>Dates\<close>

definition dated :: "emv_date \<Rightarrow> bool" where
  "dated d \<longleftrightarrow> valid_date d \<and> unat (date_year d) \<le> 99"

lemma two_digits_read:
  "unat b \<le> 99 \<Longrightarrow> \<exists>h l. two_digits b = [byte_char h, byte_char l] \<and> decimal_pair h l = Inr b \<and>
     plain_char (byte_char h) \<and> plain_char (byte_char l)"
proof -
  have "list_all (\<lambda>n. case map of_char (two_digits (word_of_nat n)) of
      [h, l] \<Rightarrow> decimal_pair h l = Inr (word_of_nat n) \<and> plain_char (byte_char h) \<and> plain_char (byte_char l)
    | _ \<Rightarrow> False) [0..<100]"
    by code_simp
  moreover assume "unat b \<le> 99"
  then have "unat b \<in> set [0..<100]" by simp
  ultimately have "case map of_char (two_digits (word_of_nat (unat b))) of
      [h, l] \<Rightarrow> decimal_pair h l = Inr (word_of_nat (unat b)) \<and> plain_char (byte_char h) \<and> plain_char (byte_char l)
    | _ \<Rightarrow> False"
    unfolding list_all_iff by (rule bspec)
  then obtain z za where "two_digits b = [z, za]" "decimal_pair (of_char z) (of_char za) = Inr b" "plain_char z" "plain_char za"
    by (auto split: list.splits simp: byte_char_of_char)
  then show ?thesis
    by (intro exI [of _ "of_char z"] exI [of _ "of_char za"]) (simp add: byte_char_of_char)
qed

lemma decimal_pair_le: "decimal_pair h l = Inr b \<Longrightarrow> unat b \<le> 99"
proof -
  assume a: "decimal_pair h l = Inr b"
  then have d: "0x30 \<le> h" "h \<le> 0x39" "0x30 \<le> l" "l \<le> 0x39" "b = (h - 0x30) * 10 + l - 0x30"
    by (auto simp: decimal_pair_def split: if_splits)
  then have h: "unat (h - 0x30) = unat h - 48" "unat h \<ge> 48" "unat h \<le> 57" "unat l \<ge> 48" "unat l \<le> 57"
    by (auto simp: word_le_nat_alt unat_sub)
  have "unat ((h - 0x30) * 10) = (unat h - 48) * 10" using h by (subst unat_mult_lem [THEN iffD1]) simp_all
  moreover from this have "unat ((h - 0x30) * 10 + l) = (unat h - 48) * 10 + unat l"
    using h by (subst unat_add_lem [THEN iffD1]) simp_all
  ultimately have "unat b = (unat h - 48) * 10 + unat l - 48"
    using h unfolding d(5) by (subst unat_sub) (simp_all add: word_le_nat_alt)
  with h show ?thesis by simp
qed

lemma parse_iso_date_dated: "parse_iso_date s = Inr d \<Longrightarrow> dated d"
  by (auto simp: parse_iso_date_def Let_def krn_simps date_new_iff dated_def dest: decimal_pair_le split: if_splits)

lemma date_read_back: "dated d \<Longrightarrow> parse_iso_date (format_date d) = Inr d \<and> plain_text (format_date d)"
proof -
  assume d: "dated d"
  have le: "unat (date_year d) \<le> 99" "unat (date_month d) \<le> 99" "unat (date_day d) \<le> 99"
    using d by (auto simp: dated_def valid_date_def days_in_month_def split: if_splits)
  from two_digits_read [OF le(1)] two_digits_read [OF le(2)] two_digits_read [OF le(3)]
  obtain y1 y2 m1 m2 d1 d2 where
    t: "two_digits (date_year d) = [byte_char y1, byte_char y2]" "two_digits (date_month d) = [byte_char m1, byte_char m2]"
       "two_digits (date_day d) = [byte_char d1, byte_char d2]"
    and r: "decimal_pair y1 y2 = Inr (date_year d)" "decimal_pair m1 m2 = Inr (date_month d)" "decimal_pair d1 d2 = Inr (date_day d)"
    and p: "plain_char (byte_char y1)" "plain_char (byte_char y2)" "plain_char (byte_char m1)" "plain_char (byte_char m2)"
       "plain_char (byte_char d1)" "plain_char (byte_char d2)"
    by blast
  have of: "(of_char (byte_char b) :: byte) = b" for b
  proof -
    have "unat b < 256" by (rule order_less_le_trans [OF unsigned_less]) simp
    then have "(of_char (byte_char b) :: nat) = unat b" by (simp add: byte_char_def)
    moreover have "(of_char (byte_char b) :: byte) = word_of_nat (of_char (byte_char b))" by (simp only: of_nat_of_char)
    ultimately show ?thesis by simp
  qed
  have "parse_iso_date (format_date d) = date_new (date_year d) (date_month d) (date_day d)"
    by (simp add: parse_iso_date_def format_date_def t ascii_def of r Let_def)
  also have "\<dots> = Inr d" using d by (cases d) (simp add: date_new_iff dated_def)
  finally have "parse_iso_date (format_date d) = Inr d" .
  moreover have "plain_text ''20''" "plain_text ''-''" by code_simp+
  ultimately show ?thesis using p by (simp add: format_date_def t plain_text_def)
qed

section \<open>The objects of a bundle\<close>

text \<open>For every object: the members that are written for it, that their text is what the writer writes and is
  JSON when the texts are plain, what the reader promises of it, and that the reader returns it.\<close>

lemma bundle_keys: "list_all (list_all key_char)
   [''product_name'', ''product_version'', ''certification_target'', ''interfaces'', ''authorities'',
    ''emv_contact_version'', ''emv_contactless_kernel'', ''bulletins_included'', ''bulletins_excluded'',
    ''terminal_type'', ''device_model'', ''firmware_version'', ''l1_approval_reference'', ''pci_pts_reference'',
    ''supported_interfaces'', ''apdu_transport_timeout_ms'', ''host_authorization_timeout_ms'',
    ''pin_entry_timeout_ms'', ''contactless_ui_timeout_ms'', ''callback_timeouts'',
    ''offline_counter_persistence'', ''trace_masking_policy'', ''kernel_profile_id'', ''interface'', ''algorithm'',
    ''c8_package'', ''scheme_scope'', ''rule_id'', ''cvm_code_hex'', ''meaning'', ''tvr_on_failure_hex'',
    ''continue_on_failure'', ''case_id'', ''vector_class'', ''expected_outcome'', ''trace_requirement'',
    ''artifact_id'', ''artifact_kind'', ''sha256_hex'', ''binds_open_issues'', ''signer_id'',
    ''signing_key_fingerprint'', ''payload_sha256'', ''signature_hex'', ''signature_artifact_sha256'',
    ''verification_public_key_hex'', ''allowed_payload_sha256'', ''not_after'', ''schema_version'',
    ''trust_anchors'', ''bundle_id'', ''bundle_version'', ''rollback_counter'', ''bundle_class'', ''created'',
    ''payload'', ''signature'', ''submission_scope'', ''standards_target'', ''terminal_profile'', ''runtime_policy'',
    ''kernel_registry'', ''cvm_extensions'', ''test_plan'', ''artifact_hashes'', ''scheme_profile_set_json'',
    ''vector_bundle_json'']"
  by code_simp

lemma in_list_all: "list_all P xs \<Longrightarrow> x \<in> set xs \<Longrightarrow> P x"
  by (simp add: list_all_iff)

lemma object_text_Cons:
  "object_text (m # ms) = 0x7b # member_text m @ concat (map (\<lambda>m. 0x2c # member_text m) ms) @ [0x7d]"
  by (simp add: object_text_def join_Cons comp_def)

lemma json_strings_eq: "map JsonString vs = map JsonString ws \<longleftrightarrow> vs = ws"
  by (simp add: inj_map_eq_map inj_def)

definition submission_scope_members :: "submission_scope \<Rightarrow> written_members" where
  "submission_scope_members v =
     [text_member ''product_name'' (ss_product_name v), text_member ''product_version'' (ss_product_version v),
      text_member ''certification_target'' (ss_certification_target v),
      texts_member ''interfaces'' (ss_interfaces v), texts_member ''authorities'' (ss_authorities v)]"

definition submission_scope_ok :: "submission_scope \<Rightarrow> bool" where
  "submission_scope_ok v \<longleftrightarrow>
     clean (ss_product_name v) \<and> clean (ss_product_version v) \<and>
     clean (ss_certification_target v) \<and> clean_set (ss_interfaces v) \<and> clean_set (ss_authorities v)"

definition submission_scope_texts :: "submission_scope \<Rightarrow> string list" where
  "submission_scope_texts v =
     [ss_product_name v, ss_product_version v, ss_certification_target v] @ ss_interfaces v @ ss_authorities v"

lemma submission_scope_written:
  "object_text (submission_scope_members v) = submission_scope_json v"
  "list_all plain_text (submission_scope_texts v) \<Longrightarrow> members_written (submission_scope_members v)"
  by (simp_all add: object_text_Cons submission_scope_members_def submission_scope_json_def member_texts)
    (auto intro!: members_writtenI member_writtenI in_list_all [OF bundle_keys] simp: submission_scope_texts_def member_keys)

lemma submission_scope_ok: "parse_submission_scope object = Inr v \<Longrightarrow> submission_scope_ok v"
  by (auto simp: parse_submission_scope_def read_iffs known_fields json_strings_eq submission_scope_ok_def)

lemma submission_scope_back: "submission_scope_ok v \<Longrightarrow> parse_submission_scope (key_values (submission_scope_members v)) = Inr v"
  by (simp add: parse_submission_scope_def read_iffs known_fields json_strings_eq submission_scope_ok_def submission_scope_members_def field_reads)

definition standards_target_members :: "standards_target \<Rightarrow> written_members" where
  "standards_target_members v =
     [text_member ''emv_contact_version'' (stt_emv_contact_version v),
      text_member ''emv_contactless_kernel'' (stt_emv_contactless_kernel v),
      texts_member ''bulletins_included'' (stt_bulletins_included v),
      texts_member ''bulletins_excluded'' (stt_bulletins_excluded v)]"

definition standards_target_ok :: "standards_target \<Rightarrow> bool" where
  "standards_target_ok v \<longleftrightarrow>
     clean (stt_emv_contact_version v) \<and> clean (stt_emv_contactless_kernel v) \<and>
     clean_set (stt_bulletins_included v) \<and>
     (stt_bulletins_excluded v = [] \<or> clean_set (stt_bulletins_excluded v))"

definition standards_target_texts :: "standards_target \<Rightarrow> string list" where
  "standards_target_texts v =
     [stt_emv_contact_version v, stt_emv_contactless_kernel v] @ stt_bulletins_included v @
     stt_bulletins_excluded v"

lemma standards_target_written:
  "object_text (standards_target_members v) = standards_target_json v"
  "list_all plain_text (standards_target_texts v) \<Longrightarrow> members_written (standards_target_members v)"
  by (simp_all add: object_text_Cons standards_target_members_def standards_target_json_def member_texts)
    (auto intro!: members_writtenI member_writtenI in_list_all [OF bundle_keys] simp: standards_target_texts_def member_keys)

lemma standards_target_ok: "parse_standards_target object = Inr v \<Longrightarrow> standards_target_ok v"
  by (auto simp: parse_standards_target_def read_iffs known_fields json_strings_eq standards_target_ok_def)

lemma standards_target_back: "standards_target_ok v \<Longrightarrow> parse_standards_target (key_values (standards_target_members v)) = Inr v"
  by (simp add: parse_standards_target_def read_iffs known_fields json_strings_eq standards_target_ok_def standards_target_members_def field_reads)

definition terminal_profile_members :: "terminal_profile \<Rightarrow> written_members" where
  "terminal_profile_members v =
     [text_member ''terminal_type'' (tp_terminal_type v), text_member ''device_model'' (tp_device_model v),
      text_member ''firmware_version'' (tp_firmware_version v),
      text_member ''l1_approval_reference'' (tp_l1_approval_reference v),
      text_member ''pci_pts_reference'' (tp_pci_pts_reference v),
      texts_member ''supported_interfaces'' (tp_supported_interfaces v)]"

definition terminal_profile_ok :: "terminal_profile \<Rightarrow> bool" where
  "terminal_profile_ok v \<longleftrightarrow>
     clean (tp_terminal_type v) \<and> clean (tp_device_model v) \<and> clean (tp_firmware_version v) \<and>
     clean (tp_l1_approval_reference v) \<and> clean (tp_pci_pts_reference v) \<and>
     clean_set (tp_supported_interfaces v)"

definition terminal_profile_texts :: "terminal_profile \<Rightarrow> string list" where
  "terminal_profile_texts v =
     [tp_terminal_type v, tp_device_model v, tp_firmware_version v, tp_l1_approval_reference v,
     tp_pci_pts_reference v] @ tp_supported_interfaces v"

lemma terminal_profile_written:
  "object_text (terminal_profile_members v) = terminal_profile_json v"
  "list_all plain_text (terminal_profile_texts v) \<Longrightarrow> members_written (terminal_profile_members v)"
  by (simp_all add: object_text_Cons terminal_profile_members_def terminal_profile_json_def member_texts)
    (auto intro!: members_writtenI member_writtenI in_list_all [OF bundle_keys] simp: terminal_profile_texts_def member_keys)

lemma terminal_profile_ok: "parse_terminal_profile object = Inr v \<Longrightarrow> terminal_profile_ok v"
  by (auto simp: parse_terminal_profile_def read_iffs known_fields json_strings_eq terminal_profile_ok_def)

lemma terminal_profile_back: "terminal_profile_ok v \<Longrightarrow> parse_terminal_profile (key_values (terminal_profile_members v)) = Inr v"
  by (simp add: parse_terminal_profile_def read_iffs known_fields json_strings_eq terminal_profile_ok_def terminal_profile_members_def field_reads)

definition callback_timeouts_members :: "callback_timeout_profile \<Rightarrow> written_members" where
  "callback_timeouts_members v =
     [number_member ''apdu_transport_timeout_ms'' (as_u64_of_i32 (apdu_transport_timeout_ms v)),
      number_member ''host_authorization_timeout_ms'' (as_u64_of_i32 (host_authorization_timeout_ms v)),
      number_member ''pin_entry_timeout_ms'' (as_u64_of_i32 (pin_entry_timeout_ms v)),
      number_member ''contactless_ui_timeout_ms'' (as_u64_of_i32 (contactless_ui_timeout_ms v))]"

definition callback_timeouts_ok :: "callback_timeout_profile \<Rightarrow> bool" where
  "callback_timeouts_ok v \<longleftrightarrow>
     validate_callback_timeouts v = Inr ()"

lemma callback_timeouts_written:
  "object_text (callback_timeouts_members v) = callback_timeouts_json v"
  "members_written (callback_timeouts_members v)"
  by (simp_all add: object_text_Cons callback_timeouts_members_def callback_timeouts_json_def member_texts)
    (auto intro!: members_writtenI member_writtenI in_list_all [OF bundle_keys] simp: as_u64_of_i32_def member_keys)

lemma callback_timeouts_ok: "parse_callback_timeouts object = Inr v \<Longrightarrow> callback_timeouts_ok v"
  by (auto simp: parse_callback_timeouts_def Let_def rbind_eq_Inr callback_timeouts_ok_def)

lemma timeout_read_back:
  assumes "json_get object k = Some (JsonNumber (word_of_nat (as_u64_of_i32 t)))" "1 \<le> t" "t \<le> 60000"
  shows "required_timeout object k = Inr t"
proof -
  define w :: u64 where "w = word_of_nat (as_u64_of_i32 t)"
  have "unat w = nat t" using assms(2,3) unfolding w_def by (subst unat_of_nat_u64) (simp_all add: as_u64_of_i32_def)
  moreover from this have "uint w = t" using assms(2) by (simp add: uint_nat)
  moreover have "required_u64 object k = Inr w" using assms(1) by (simp only: required_fields w_def)
  ultimately show ?thesis using assms(2,3) by (simp add: required_timeout_def)
qed

lemma callback_timeouts_back: "callback_timeouts_ok v \<Longrightarrow> parse_callback_timeouts (key_values (callback_timeouts_members v)) = Inr v"
  by (simp add: parse_callback_timeouts_def callback_timeouts_ok_def validate_callback_timeouts_iff known_fields timeout_read_back callback_timeouts_members_def field_reads
      rbind_eq_Inr unit_result Let_def)

definition runtime_policy_members :: "runtime_policy \<Rightarrow> written_members" where
  "runtime_policy_members v =
     [object_member ''callback_timeouts'' (callback_timeouts_members (rp_callback_timeouts v)),
      text_member ''offline_counter_persistence'' (rp_offline_counter_persistence v),
      text_member ''trace_masking_policy'' (rp_trace_masking_policy v)]"

definition runtime_policy_ok :: "runtime_policy \<Rightarrow> bool" where
  "runtime_policy_ok v \<longleftrightarrow>
     callback_timeouts_ok (rp_callback_timeouts v) \<and> clean (rp_offline_counter_persistence v) \<and>
     clean (rp_trace_masking_policy v)"

definition runtime_policy_texts :: "runtime_policy \<Rightarrow> string list" where
  "runtime_policy_texts v =
     [rp_offline_counter_persistence v, rp_trace_masking_policy v]"

lemma runtime_policy_written:
  "object_text (runtime_policy_members v) = runtime_policy_json v"
  "list_all plain_text (runtime_policy_texts v) \<Longrightarrow> members_written (runtime_policy_members v)"
  by (simp_all add: object_text_Cons runtime_policy_members_def runtime_policy_json_def member_texts callback_timeouts_written(1))
    (auto intro!: members_writtenI member_writtenI in_list_all [OF bundle_keys] callback_timeouts_written(2) simp: runtime_policy_texts_def member_keys)

lemma runtime_policy_ok: "parse_runtime_policy object = Inr v \<Longrightarrow> runtime_policy_ok v"
  by (auto simp: parse_runtime_policy_def read_iffs known_fields json_strings_eq runtime_policy_ok_def dest: callback_timeouts_ok)

lemma runtime_policy_back: "runtime_policy_ok v \<Longrightarrow> parse_runtime_policy (key_values (runtime_policy_members v)) = Inr v"
  by (simp add: parse_runtime_policy_def read_iffs known_fields json_strings_eq runtime_policy_ok_def runtime_policy_members_def field_reads object_value_def callback_timeouts_back [simplified field_reads])

definition kernel_registration_members :: "kernel_profile_registration \<Rightarrow> written_members" where
  "kernel_registration_members v =
     [text_member ''kernel_profile_id'' (kr_kernel_profile_id v), text_member ''interface'' (kr_interface v),
      text_member ''algorithm'' (kr_algorithm v), text_member ''c8_package'' (kr_c8_package v),
      texts_member ''scheme_scope'' (kr_scheme_scope v)]"

definition kernel_registration_ok :: "kernel_profile_registration \<Rightarrow> bool" where
  "kernel_registration_ok v \<longleftrightarrow>
     clean (kr_kernel_profile_id v) \<and> clean (kr_interface v) \<and> clean (kr_algorithm v) \<and>
     clean (kr_c8_package v) \<and> clean_set (kr_scheme_scope v)"

definition kernel_registration_texts :: "kernel_profile_registration \<Rightarrow> string list" where
  "kernel_registration_texts v =
     [kr_kernel_profile_id v, kr_interface v, kr_algorithm v, kr_c8_package v] @ kr_scheme_scope v"

lemma kernel_registration_written:
  "object_text (kernel_registration_members v) = kernel_registration_json v"
  "list_all plain_text (kernel_registration_texts v) \<Longrightarrow> members_written (kernel_registration_members v)"
  by (simp_all add: object_text_Cons kernel_registration_members_def kernel_registration_json_def member_texts)
    (auto intro!: members_writtenI member_writtenI in_list_all [OF bundle_keys] simp: kernel_registration_texts_def member_keys)

lemma kernel_registration_ok: "parse_kernel_registration w = Inr v \<Longrightarrow> kernel_registration_ok v"
  by (auto simp: parse_kernel_registration_def read_iffs known_fields json_strings_eq kernel_registration_ok_def)

lemma kernel_registration_back: "kernel_registration_ok v \<Longrightarrow> parse_kernel_registration (object_value (kernel_registration_members v)) = Inr v"
  by (simp add: parse_kernel_registration_def read_iffs known_fields json_strings_eq kernel_registration_ok_def kernel_registration_members_def field_reads object_value_def)

definition cvm_extension_members :: "cvm_extension_rule \<Rightarrow> written_members" where
  "cvm_extension_members v =
     [text_member ''rule_id'' (ce_rule_id v), texts_member ''scheme_scope'' (ce_scheme_scope v),
      text_member ''cvm_code_hex'' (ce_cvm_code_hex v), text_member ''meaning'' (ce_meaning v),
      text_member ''tvr_on_failure_hex'' (ce_tvr_on_failure_hex v),
      flag_member ''continue_on_failure'' (ce_continue_on_failure v)]"

definition cvm_extension_ok :: "cvm_extension_rule \<Rightarrow> bool" where
  "cvm_extension_ok v \<longleftrightarrow>
     clean (ce_rule_id v) \<and> clean_set (ce_scheme_scope v) \<and> clean_hex (ce_cvm_code_hex v) 1 \<and>
     clean (ce_meaning v) \<and> clean_hex (ce_tvr_on_failure_hex v) 5"

definition cvm_extension_texts :: "cvm_extension_rule \<Rightarrow> string list" where
  "cvm_extension_texts v =
     [ce_rule_id v, ce_cvm_code_hex v, ce_meaning v, ce_tvr_on_failure_hex v] @ ce_scheme_scope v"

lemma cvm_extension_written:
  "object_text (cvm_extension_members v) = cvm_extension_json v"
  "list_all plain_text (cvm_extension_texts v) \<Longrightarrow> members_written (cvm_extension_members v)"
  by (simp_all add: object_text_Cons cvm_extension_members_def cvm_extension_json_def member_texts)
    (auto intro!: members_writtenI member_writtenI in_list_all [OF bundle_keys] simp: cvm_extension_texts_def member_keys)

lemma cvm_extension_ok: "parse_cvm_extension w = Inr v \<Longrightarrow> cvm_extension_ok v"
  by (auto simp: parse_cvm_extension_def read_iffs known_fields json_strings_eq cvm_extension_ok_def)

lemma cvm_extension_back: "cvm_extension_ok v \<Longrightarrow> parse_cvm_extension (object_value (cvm_extension_members v)) = Inr v"
  by (simp add: parse_cvm_extension_def read_iffs known_fields json_strings_eq cvm_extension_ok_def cvm_extension_members_def field_reads object_value_def)

definition test_case_members :: "certification_test_case \<Rightarrow> written_members" where
  "test_case_members v =
     [text_member ''case_id'' (ctc_case_id v), text_member ''vector_class'' (ctc_vector_class v),
      text_member ''expected_outcome'' (ctc_expected_outcome v),
      text_member ''trace_requirement'' (ctc_trace_requirement v)]"

definition test_case_ok :: "certification_test_case \<Rightarrow> bool" where
  "test_case_ok v \<longleftrightarrow>
     clean (ctc_case_id v) \<and> validate_identifier (ctc_case_id v) = Inr () \<and>
     clean (ctc_vector_class v) \<and> clean (ctc_expected_outcome v) \<and> clean (ctc_trace_requirement v)"

definition test_case_texts :: "certification_test_case \<Rightarrow> string list" where
  "test_case_texts v =
     [ctc_case_id v, ctc_vector_class v, ctc_expected_outcome v, ctc_trace_requirement v]"

lemma test_case_written:
  "object_text (test_case_members v) = test_case_json v"
  "list_all plain_text (test_case_texts v) \<Longrightarrow> members_written (test_case_members v)"
  by (simp_all add: object_text_Cons test_case_members_def test_case_json_def member_texts)
    (auto intro!: members_writtenI member_writtenI in_list_all [OF bundle_keys] simp: test_case_texts_def member_keys)

lemma test_case_ok: "parse_test_case w = Inr v \<Longrightarrow> test_case_ok v"
  by (auto simp: parse_test_case_def read_iffs known_fields json_strings_eq test_case_ok_def)

lemma test_case_back: "test_case_ok v \<Longrightarrow> parse_test_case (object_value (test_case_members v)) = Inr v"
  by (simp add: parse_test_case_def read_iffs known_fields json_strings_eq test_case_ok_def test_case_members_def field_reads object_value_def)

definition artifact_hash_members :: "artifact_hash_binding \<Rightarrow> written_members" where
  "artifact_hash_members v =
     [text_member ''artifact_id'' (ahb_artifact_id v), text_member ''artifact_kind'' (ahb_artifact_kind v),
      text_member ''sha256_hex'' (ahb_sha256_hex v),
      texts_member ''binds_open_issues'' (ahb_binds_open_issues v)]"

definition artifact_hash_ok :: "artifact_hash_binding \<Rightarrow> bool" where
  "artifact_hash_ok v \<longleftrightarrow>
     clean (ahb_artifact_id v) \<and> clean (ahb_artifact_kind v) \<and> clean_hex (ahb_sha256_hex v) 32 \<and>
     clean_set (ahb_binds_open_issues v)"

definition artifact_hash_texts :: "artifact_hash_binding \<Rightarrow> string list" where
  "artifact_hash_texts v =
     [ahb_artifact_id v, ahb_artifact_kind v, ahb_sha256_hex v] @ ahb_binds_open_issues v"

lemma artifact_hash_written:
  "object_text (artifact_hash_members v) = artifact_hash_json v"
  "list_all plain_text (artifact_hash_texts v) \<Longrightarrow> members_written (artifact_hash_members v)"
  by (simp_all add: object_text_Cons artifact_hash_members_def artifact_hash_json_def member_texts)
    (auto intro!: members_writtenI member_writtenI in_list_all [OF bundle_keys] simp: artifact_hash_texts_def member_keys)

lemma artifact_hash_ok: "parse_artifact_hash w = Inr v \<Longrightarrow> artifact_hash_ok v"
  by (auto simp: parse_artifact_hash_def read_iffs known_fields json_strings_eq artifact_hash_ok_def)

lemma artifact_hash_back: "artifact_hash_ok v \<Longrightarrow> parse_artifact_hash (object_value (artifact_hash_members v)) = Inr v"
  by (simp add: parse_artifact_hash_def read_iffs known_fields json_strings_eq artifact_hash_ok_def artifact_hash_members_def field_reads object_value_def)

definition signature_members :: "bundle_signature \<Rightarrow> written_members" where
  "signature_members v =
     [text_member ''algorithm'' (bsig_algorithm v), text_member ''signer_id'' (bsig_signer_id v),
      text_member ''signing_key_fingerprint'' (bsig_signing_key_fingerprint v),
      text_member ''payload_sha256'' (bsig_payload_sha256 v),
      text_member ''signature_hex'' (bsig_signature_hex v),
      text_member ''signature_artifact_sha256'' (bsig_signature_artifact_sha256 v)]"

definition signature_ok :: "bundle_signature \<Rightarrow> bool" where
  "signature_ok v \<longleftrightarrow>
     clean (bsig_algorithm v) \<and> clean (bsig_signer_id v) \<and>
     clean (bsig_signing_key_fingerprint v) \<and> clean_hex (bsig_payload_sha256 v) 32 \<and>
     clean_hex (bsig_signature_hex v) (if bsig_algorithm v = CERTIFICATION_BUNDLE_SIGNATURE_ALGORITHM then 64 else 32) \<and>
     clean_hex (bsig_signature_artifact_sha256 v) 32"

definition signature_texts :: "bundle_signature \<Rightarrow> string list" where
  "signature_texts v =
     [bsig_algorithm v, bsig_signer_id v, bsig_signing_key_fingerprint v, bsig_payload_sha256 v,
     bsig_signature_hex v, bsig_signature_artifact_sha256 v]"

lemma signature_written:
  "object_text (signature_members v) = signature_json v"
  "list_all plain_text (signature_texts v) \<Longrightarrow> members_written (signature_members v)"
  by (simp_all add: object_text_Cons signature_members_def signature_json_def member_texts)
    (auto intro!: members_writtenI member_writtenI in_list_all [OF bundle_keys] simp: signature_texts_def member_keys)

lemma signature_ok: "parse_signature w = Inr v \<Longrightarrow> signature_ok v"
  by (auto simp: parse_signature_def read_iffs known_fields json_strings_eq signature_ok_def)

lemma signature_back: "signature_ok v \<Longrightarrow> parse_signature (object_value (signature_members v)) = Inr v"
  by (simp add: parse_signature_def read_iffs known_fields json_strings_eq signature_ok_def signature_members_def field_reads object_value_def)

section \<open>The payload and the bundle\<close>

definition payload_members :: "certification_bundle_payload \<Rightarrow> written_members" where
  "payload_members p =
     [object_member ''submission_scope'' (submission_scope_members (cbp_submission_scope p)),
      object_member ''standards_target'' (standards_target_members (cbp_standards_target p)),
      object_member ''terminal_profile'' (terminal_profile_members (cbp_terminal_profile p)),
      object_member ''runtime_policy'' (runtime_policy_members (cbp_runtime_policy p)),
      objects_member ''kernel_registry'' (map kernel_registration_members (cbp_kernel_registry p)),
      objects_member ''cvm_extensions'' (map cvm_extension_members (cbp_cvm_extensions p)),
      objects_member ''test_plan'' (map test_case_members (cbp_test_plan p)),
      objects_member ''artifact_hashes'' (map artifact_hash_members (cbp_artifact_hashes p)),
      text_member ''scheme_profile_set_json'' (cbp_scheme_profile_set_json p),
      text_member ''vector_bundle_json'' (cbp_vector_bundle_json p)]"

definition payload_ok :: "certification_bundle_payload \<Rightarrow> bool" where
  "payload_ok p \<longleftrightarrow> submission_scope_ok (cbp_submission_scope p) \<and> standards_target_ok (cbp_standards_target p) \<and>
     terminal_profile_ok (cbp_terminal_profile p) \<and> runtime_policy_ok (cbp_runtime_policy p) \<and>
     list_all kernel_registration_ok (cbp_kernel_registry p) \<and> list_all cvm_extension_ok (cbp_cvm_extensions p) \<and>
     list_all test_case_ok (cbp_test_plan p) \<and> list_all artifact_hash_ok (cbp_artifact_hashes p) \<and>
     validate_payload p = Inr ()"

definition payload_texts :: "certification_bundle_payload \<Rightarrow> string list" where
  "payload_texts p = submission_scope_texts (cbp_submission_scope p) @ standards_target_texts (cbp_standards_target p) @
     terminal_profile_texts (cbp_terminal_profile p) @ runtime_policy_texts (cbp_runtime_policy p) @
     concat (map kernel_registration_texts (cbp_kernel_registry p)) @ concat (map cvm_extension_texts (cbp_cvm_extensions p)) @
     concat (map test_case_texts (cbp_test_plan p)) @ concat (map artifact_hash_texts (cbp_artifact_hashes p)) @
     [cbp_scheme_profile_set_json p, cbp_vector_bundle_json p]"

lemma array_json_map: "(\<And>x. g (f x) = h x) \<Longrightarrow> array_json g (map f xs) = array_json h xs"
  by (simp add: array_json_def comp_def)

lemma list_all_concat: "list_all P (concat xss) \<longleftrightarrow> list_all (list_all P) xss"
  by (induction xss) auto

lemma payload_written:
  "object_text (payload_members p) = payload_canonical_json p"
  "list_all plain_text (payload_texts p) \<Longrightarrow> members_written (payload_members p)"
proof -
  show "object_text (payload_members p) = payload_canonical_json p"
    by (simp add: object_text_Cons payload_members_def payload_canonical_json_def member_texts submission_scope_written(1)
        standards_target_written(1) terminal_profile_written(1) runtime_policy_written(1)
        array_json_map [of object_text, OF kernel_registration_written(1)] array_json_map [of object_text, OF cvm_extension_written(1)]
        array_json_map [of object_text, OF test_case_written(1)] array_json_map [of object_text, OF artifact_hash_written(1)])
  assume "list_all plain_text (payload_texts p)"
  then have plain: "list_all plain_text (submission_scope_texts (cbp_submission_scope p))"
    "list_all plain_text (standards_target_texts (cbp_standards_target p))"
    "list_all plain_text (terminal_profile_texts (cbp_terminal_profile p))"
    "list_all plain_text (runtime_policy_texts (cbp_runtime_policy p))"
    "list_all (\<lambda>v. list_all plain_text (kernel_registration_texts v)) (cbp_kernel_registry p)"
    "list_all (\<lambda>v. list_all plain_text (cvm_extension_texts v)) (cbp_cvm_extensions p)"
    "list_all (\<lambda>v. list_all plain_text (test_case_texts v)) (cbp_test_plan p)"
    "list_all (\<lambda>v. list_all plain_text (artifact_hash_texts v)) (cbp_artifact_hashes p)"
    "plain_text (cbp_scheme_profile_set_json p)" "plain_text (cbp_vector_bundle_json p)"
    by (simp_all add: payload_texts_def list_all_concat list.pred_map comp_def)
  from plain(5-8) have arrays: "list_all members_written (map kernel_registration_members (cbp_kernel_registry p))"
    "list_all members_written (map cvm_extension_members (cbp_cvm_extensions p))"
    "list_all members_written (map test_case_members (cbp_test_plan p))"
    "list_all members_written (map artifact_hash_members (cbp_artifact_hashes p))"
    by (auto simp: list_all_iff intro!: kernel_registration_written(2) cvm_extension_written(2) test_case_written(2)
        artifact_hash_written(2))
  show "members_written (payload_members p)"
    by (auto intro!: members_writtenI member_writtenI in_list_all [OF bundle_keys] submission_scope_written(2)
        standards_target_written(2) terminal_profile_written(2) runtime_policy_written(2)
        simp: payload_members_def member_keys plain arrays)
qed

lemma parse_array_ok:
  assumes "parse_array object k f = Inr xs" "\<And>w x. f w = Inr x \<Longrightarrow> P x"
  shows "list_all P xs"
proof -
  obtain items where "rmapM f items = Inr xs"
    using assms(1) by (auto simp: parse_array_def rbind_eq_Inr)
  then show ?thesis
    unfolding rmapM_eq_Inr_list_all2 using assms(2) by (induction items xs rule: list_all2_induct) auto
qed

lemma parse_array_back:
  assumes "json_get object k = Some (JsonArray (map object_value (map ms xs)))" "length xs \<le> MAX_BUNDLE_COLLECTION_ITEMS"
    "list_all P xs" "\<And>x. P x \<Longrightarrow> f (object_value (ms x)) = Inr x"
  shows "parse_array object k f = Inr xs"
proof -
  have "rmapM f (map object_value (map ms xs)) = Inr xs"
    using assms(3,4) by (induction xs) simp_all
  with assms(1,2) show ?thesis
    by (simp add: parse_array_def required_field_def ok_or_def bounded_len_def)
qed

lemma payload_ok: "parse_payload w = Inr p \<Longrightarrow> payload_ok p"
  unfolding parse_payload_def Let_def
  by (auto simp: rbind_eq_Inr payload_ok_def dest: submission_scope_ok standards_target_ok terminal_profile_ok runtime_policy_ok
      elim!: parse_array_ok intro: kernel_registration_ok cvm_extension_ok test_case_ok artifact_hash_ok)

lemma validate_payload_lengths:
  "validate_payload p = Inr () \<Longrightarrow> length (cbp_kernel_registry p) \<le> MAX_BUNDLE_COLLECTION_ITEMS \<and>
     length (cbp_cvm_extensions p) \<le> MAX_BUNDLE_COLLECTION_ITEMS \<and> length (cbp_test_plan p) \<le> MAX_BUNDLE_COLLECTION_ITEMS \<and>
     length (cbp_artifact_hashes p) \<le> MAX_BUNDLE_COLLECTION_ITEMS"
  unfolding validate_payload_def by (simp only: rbind_eq_Inr bounded_len_iff) blast

lemma payload_self:
  "\<lparr>cbp_submission_scope = cbp_submission_scope p, cbp_standards_target = cbp_standards_target p,
    cbp_terminal_profile = cbp_terminal_profile p, cbp_runtime_policy = cbp_runtime_policy p,
    cbp_kernel_registry = cbp_kernel_registry p, cbp_cvm_extensions = cbp_cvm_extensions p,
    cbp_test_plan = cbp_test_plan p, cbp_artifact_hashes = cbp_artifact_hashes p,
    cbp_scheme_profile_set_json = cbp_scheme_profile_set_json p,
    cbp_vector_bundle_json = cbp_vector_bundle_json p\<rparr> = p"
  by (cases p) simp

lemma payload_back:
  assumes ok: "payload_ok p"
  shows "parse_payload (object_value (payload_members p)) = Inr p"
proof -
  let ?o = "key_values (payload_members p)"
  have get: "json_get ?o ''submission_scope'' = Some (object_value (submission_scope_members (cbp_submission_scope p)))"
    "json_get ?o ''standards_target'' = Some (object_value (standards_target_members (cbp_standards_target p)))"
    "json_get ?o ''terminal_profile'' = Some (object_value (terminal_profile_members (cbp_terminal_profile p)))"
    "json_get ?o ''runtime_policy'' = Some (object_value (runtime_policy_members (cbp_runtime_policy p)))"
    "json_get ?o ''kernel_registry'' = Some (JsonArray (map object_value (map kernel_registration_members (cbp_kernel_registry p))))"
    "json_get ?o ''cvm_extensions'' = Some (JsonArray (map object_value (map cvm_extension_members (cbp_cvm_extensions p))))"
    "json_get ?o ''test_plan'' = Some (JsonArray (map object_value (map test_case_members (cbp_test_plan p))))"
    "json_get ?o ''artifact_hashes'' = Some (JsonArray (map object_value (map artifact_hash_members (cbp_artifact_hashes p))))"
    "json_get ?o ''scheme_profile_set_json'' = Some (JsonString (cbp_scheme_profile_set_json p))"
    "json_get ?o ''vector_bundle_json'' = Some (JsonString (cbp_vector_bundle_json p))"
    by (simp_all add: payload_members_def field_reads)
  have known: "reject_unknown_fields ?o [''submission_scope'', ''standards_target'', ''terminal_profile'',
       ''runtime_policy'', ''kernel_registry'', ''cvm_extensions'', ''test_plan'', ''artifact_hashes'',
       ''scheme_profile_set_json'', ''vector_bundle_json''] = Inr ()"
    by (simp add: known_fields payload_members_def member_defs)
  have len: "length (cbp_kernel_registry p) \<le> MAX_BUNDLE_COLLECTION_ITEMS" "length (cbp_cvm_extensions p) \<le> MAX_BUNDLE_COLLECTION_ITEMS"
    "length (cbp_test_plan p) \<le> MAX_BUNDLE_COLLECTION_ITEMS" "length (cbp_artifact_hashes p) \<le> MAX_BUNDLE_COLLECTION_ITEMS"
    using ok validate_payload_lengths [of p] by (simp_all add: payload_ok_def)
  have objects: "required_object ?o ''submission_scope'' = Inr (key_values (submission_scope_members (cbp_submission_scope p)))"
    "required_object ?o ''standards_target'' = Inr (key_values (standards_target_members (cbp_standards_target p)))"
    "required_object ?o ''terminal_profile'' = Inr (key_values (terminal_profile_members (cbp_terminal_profile p)))"
    "required_object ?o ''runtime_policy'' = Inr (key_values (runtime_policy_members (cbp_runtime_policy p)))"
    by (simp_all only: required_fields get object_value_def)
  have strings: "required_string ?o ''scheme_profile_set_json'' = Inr (cbp_scheme_profile_set_json p)"
    "required_string ?o ''vector_bundle_json'' = Inr (cbp_vector_bundle_json p)"
    by (simp_all only: required_fields get)
  have arrays: "parse_array ?o ''kernel_registry'' parse_kernel_registration = Inr (cbp_kernel_registry p)"
    "parse_array ?o ''cvm_extensions'' parse_cvm_extension = Inr (cbp_cvm_extensions p)"
    "parse_array ?o ''test_plan'' parse_test_case = Inr (cbp_test_plan p)"
    "parse_array ?o ''artifact_hashes'' parse_artifact_hash = Inr (cbp_artifact_hashes p)"
    using ok
    by (auto intro: parse_array_back [OF get(5) len(1) _ kernel_registration_back] parse_array_back [OF get(6) len(2) _ cvm_extension_back]
        parse_array_back [OF get(7) len(3) _ test_case_back] parse_array_back [OF get(8) len(4) _ artifact_hash_back]
        simp: payload_ok_def)
  show ?thesis
    using ok unfolding parse_payload_def object_value_def payload_ok_def
    by (simp add: known objects strings arrays submission_scope_back standards_target_back terminal_profile_back
        runtime_policy_back Let_def payload_self)
qed

definition bundle_members :: "certification_bundle \<Rightarrow> written_members" where
  "bundle_members b =
     [text_member ''schema_version'' (cb_schema_version b), text_member ''bundle_id'' (cb_bundle_id b),
      number_member ''bundle_version'' (unat (cb_bundle_version b)),
      number_member ''rollback_counter'' (unat (cb_rollback_counter b)),
      text_member ''bundle_class'' (bundle_class_as_str (cb_bundle_class b)),
      text_member ''created'' (format_date (cb_created b)),
      object_member ''payload'' (payload_members (cb_payload b)),
      object_member ''signature'' (signature_members (cb_signature b))]"

definition bundle_ok :: "certification_bundle \<Rightarrow> bool" where
  "bundle_ok b \<longleftrightarrow> cb_schema_version b = CERTIFICATION_BUNDLE_SCHEMA_VERSION \<and> clean (cb_bundle_id b) \<and>
     validate_identifier (cb_bundle_id b) = Inr () \<and> cb_bundle_version b \<noteq> 0 \<and> cb_rollback_counter b \<noteq> 0 \<and>
     dated (cb_created b) \<and> payload_ok (cb_payload b) \<and> signature_ok (cb_signature b)"

definition bundle_texts :: "certification_bundle \<Rightarrow> string list" where
  "bundle_texts b = cb_bundle_id b # payload_texts (cb_payload b) @ signature_texts (cb_signature b)"

definition bundle_value :: "certification_bundle \<Rightarrow> json_value" where
  "bundle_value b = object_value (bundle_members b)"

lemma bundle_written:
  assumes "dated (cb_created b)"
  shows "object_text (bundle_members b) @ [0x0a] = certification_bundle_json b"
    and "list_all plain_text (bundle_texts b) \<Longrightarrow> cb_schema_version b = CERTIFICATION_BUNDLE_SCHEMA_VERSION \<Longrightarrow>
      members_written (bundle_members b)"
proof -
  show "object_text (bundle_members b) @ [0x0a] = certification_bundle_json b"
    by (simp add: object_text_Cons bundle_members_def certification_bundle_json_def member_texts payload_written(1) signature_written(1))
  assume plain: "list_all plain_text (bundle_texts b)" and version: "cb_schema_version b = CERTIFICATION_BUNDLE_SCHEMA_VERSION"
  have names: "plain_text CERTIFICATION_BUNDLE_SCHEMA_VERSION" "plain_text (bundle_class_as_str BundleTesting)"
    "plain_text (bundle_class_as_str BundleCertification)"
    by code_simp+
  then have cls: "plain_text (bundle_class_as_str (cb_bundle_class b))" by (cases "cb_bundle_class b") simp_all
  have u: "unat (w :: u64) < 18446744073709551616" for w by (rule order_less_le_trans [OF unsigned_less]) simp
  from plain have texts: "plain_text (cb_bundle_id b)" "list_all plain_text (payload_texts (cb_payload b))"
    "list_all plain_text (signature_texts (cb_signature b))"
    by (simp_all add: bundle_texts_def)
  show "members_written (bundle_members b)"
    using conjunct2 [OF date_read_back [OF assms]]
    by (auto intro!: members_writtenI member_writtenI in_list_all [OF bundle_keys] payload_written(2) signature_written(2)
        simp: bundle_members_def member_keys version texts names cls u)
qed

lemma bundle_ok:
  assumes "parse_certification_bundle json = Inr b"
  shows "bundle_ok b"
  using assms unfolding parse_certification_bundle_def
  by (auto simp: rbind_eq_Inr if_Inl_eq_Inr required_clean_string_iff bundle_ok_def dest: payload_ok signature_ok parse_iso_date_dated)

lemma bundle_self:
  "\<lparr>cb_schema_version = cb_schema_version b, cb_bundle_id = cb_bundle_id b, cb_bundle_version = cb_bundle_version b,
    cb_rollback_counter = cb_rollback_counter b, cb_bundle_class = cb_bundle_class b, cb_created = cb_created b,
    cb_payload = cb_payload b, cb_signature = cb_signature b\<rparr> = b"
  by (cases b) simp

lemma bundle_back:
  assumes ok: "bundle_ok b" and json: "json_parse json = Inr (bundle_value b)"
  shows "parse_certification_bundle json = Inr b"
proof -
  let ?o = "key_values (bundle_members b)"
  have get: "json_get ?o ''schema_version'' = Some (JsonString (cb_schema_version b))"
    "json_get ?o ''bundle_id'' = Some (JsonString (cb_bundle_id b))"
    "json_get ?o ''bundle_version'' = Some (JsonNumber (word_of_nat (unat (cb_bundle_version b))))"
    "json_get ?o ''rollback_counter'' = Some (JsonNumber (word_of_nat (unat (cb_rollback_counter b))))"
    "json_get ?o ''bundle_class'' = Some (JsonString (bundle_class_as_str (cb_bundle_class b)))"
    "json_get ?o ''created'' = Some (JsonString (format_date (cb_created b)))"
    "json_get ?o ''payload'' = Some (object_value (payload_members (cb_payload b)))"
    "json_get ?o ''signature'' = Some (object_value (signature_members (cb_signature b)))"
    by (simp_all add: bundle_members_def field_reads)
  have known: "reject_unknown_fields ?o [''schema_version'', ''bundle_id'', ''bundle_version'', ''rollback_counter'',
       ''bundle_class'', ''created'', ''payload'', ''signature''] = Inr ()"
    by (simp add: known_fields bundle_members_def member_defs)
  have strings: "required_string ?o ''schema_version'' = Inr (cb_schema_version b)"
    "required_string ?o ''bundle_class'' = Inr (bundle_class_as_str (cb_bundle_class b))"
    "required_string ?o ''created'' = Inr (format_date (cb_created b))"
    "required_u64 ?o ''bundle_version'' = Inr (cb_bundle_version b)"
    "required_u64 ?o ''rollback_counter'' = Inr (cb_rollback_counter b)"
    using get(3,4) by (simp_all add: required_fields get(1,5,6))
  have id: "required_clean_string ?o ''bundle_id'' = Inr (cb_bundle_id b)"
    using ok by (simp add: required_clean_string_iff get(2) bundle_ok_def)
  have nested: "required_field ?o ''payload'' = Inr (object_value (payload_members (cb_payload b)))"
    "required_field ?o ''signature'' = Inr (object_value (signature_members (cb_signature b)))"
    by (simp_all add: required_field_def get(7,8) ok_or_def)
  have cls: "parse_bundle_class (bundle_class_as_str (cb_bundle_class b)) = Inr (cb_bundle_class b)"
    by (cases "cb_bundle_class b") (simp_all add: parse_bundle_class_def)
  show ?thesis
    using ok date_read_back [of "cb_created b"]
    by (simp add: parse_certification_bundle_def json bundle_value_def object_value_def known strings id nested cls
        bundle_ok_def payload_back [unfolded object_value_def] signature_back [unfolded object_value_def] bundle_self
        del: bundle_class_as_str.simps)
qed

lemma list_all_true: "list_all (\<lambda>x. True) xs"
  by (simp add: list_all_iff)

lemma bundle_value_fits: "fits 0 (bundle_value b)"
  by (simp add: bundle_value_def bundle_members_def payload_members_def submission_scope_members_def
      standards_target_members_def terminal_profile_members_def runtime_policy_members_def callback_timeouts_members_def
      kernel_registration_members_def cvm_extension_members_def test_case_members_def artifact_hash_members_def
      signature_members_def object_value_def member_defs MAX_JSON_DEPTH_def list.pred_map comp_def list_all_true)

lemma bundle_read_back:
  assumes ok: "bundle_ok b" and plain: "list_all plain_text (bundle_texts b)"
    and nodes: "json_nodes (bundle_value b) \<le> MAX_JSON_NODES"
  shows "parse_certification_bundle (certification_bundle_json b) = Inr b"
proof -
  have d: "dated (cb_created b)" and v: "cb_schema_version b = CERTIFICATION_BUNDLE_SCHEMA_VERSION"
    using ok by (simp_all add: bundle_ok_def)
  have "json_text (bundle_value b) (object_text (bundle_members b))"
    unfolding bundle_value_def by (intro written_object_text bundle_written(2) d plain v)
  moreover have "ws_text [0x0a]" by (simp add: ws_text_def json_ws_def)
  ultimately have "json_parse (certification_bundle_json b) = Inr (bundle_value b)"
    unfolding json_parse_eq_Inr using bundle_written(1) [OF d] bundle_value_fits nodes by metis
  then show ?thesis by (rule bundle_back [OF ok])
qed

section \<open>Properties\<close>

text \<open>C22: A certification bundle that was read is read back, the same in every field, from the JSON that is
  written for it, as long as its texts are printable ASCII (with tabs and line ends) and the JSON is
  within the parser's limit of values.\<close>

theorem certification_bundle_json_roundtrip:
  "case parse_certification_bundle json of
     Inl _ \<Rightarrow> True
   | Inr b \<Rightarrow>
       if list_all plain_text (bundle_texts b) \<and> json_nodes (bundle_value b) \<le> MAX_JSON_NODES
       then parse_certification_bundle (certification_bundle_json b) = Inr b else True"
  by (auto split: sum.split intro: bundle_read_back bundle_ok)

end
