(* ===== verification/Emv_Compile.thy ===== *)
theory Emv_Compile
  imports Emv_Bundle_Json
begin

text \<open>
  The compile report on a certification bundle (\<open>src/src/cert_bundle.rs\<close>): what its lint rules find, which
  capabilities its data cover, and whether the bundle passes.  The report is written as JSON; its Markdown
  view is left out.
\<close>

section \<open>The report\<close>

datatype bundle_lint_severity = LintInfo | LintWarning | LintError

fun lint_severity_as_str :: "bundle_lint_severity \<Rightarrow> string" where
  "lint_severity_as_str LintInfo = ''info''"
| "lint_severity_as_str LintWarning = ''warning''"
| "lint_severity_as_str LintError = ''error''"

record bundle_lint_finding =
  blf_severity :: bundle_lint_severity
  blf_field_path :: string
  blf_title :: string
  blf_impact :: string
  blf_suggestion :: string

record capability_coverage =
  ecc_id :: string
  ecc_area :: string
  ecc_role :: string
  ecc_bundle_source :: string
  ecc_status :: string
  ecc_suggestion :: string

record bundle_compile_report =
  cr_status :: string
  cr_mode :: build_mode
  cr_findings :: "bundle_lint_finding list"
  cr_coverage :: "capability_coverage list"
  cr_bundle_sha256 :: "string option"
  cr_payload_sha256 :: "string option"
  cr_scheme_profile_sha256 :: "string option"
  cr_vector_bundle_sha256 :: "string option"
  cr_verification_status :: "string option"

definition push_finding ::
    "bundle_compile_report \<Rightarrow> bundle_lint_severity \<Rightarrow> string \<Rightarrow> string \<Rightarrow> string \<Rightarrow> string \<Rightarrow> bundle_compile_report" where
  "push_finding report severity field_path title impact suggestion =
     report\<lparr>cr_findings := cr_findings report @
       [\<lparr>blf_severity = severity, blf_field_path = field_path, blf_title = title, blf_impact = impact,
         blf_suggestion = suggestion\<rparr>]\<rparr>"

section \<open>Lint rules\<close>

definition to_ascii_lowercase :: "char \<Rightarrow> char" where
  "to_ascii_lowercase c = (let n = of_char c :: nat in if 65 \<le> n \<and> n \<le> 90 then char_of (n + 32) else c)"

definition lower_contains :: "string \<Rightarrow> string \<Rightarrow> bool" where
  "lower_contains v needle \<longleftrightarrow> str_contains (map to_ascii_lowercase v) needle"

definition pending_text :: "string \<Rightarrow> bool" where
  "pending_text v \<longleftrightarrow> lower_contains v ''pending'' \<or> lower_contains v ''external-'' \<or> lower_contains v ''required''"

definition lint_pending_text :: "string \<Rightarrow> string \<Rightarrow> bundle_compile_report \<Rightarrow> bundle_compile_report" where
  "lint_pending_text field_path v report = (if pending_text v then
     push_finding report LintWarning field_path ''External evidence placeholder remains''
     ''The bundle can compile for pre-lab use, but this field must be replaced or backed by accepted authority evidence for certification closure.''
     ''Attach the lab, scheme, L1, device, PCI/PED, or acquirer evidence and update this field with the accepted reference.''
   else report)"

text \<open>A path with an index in it.\<close>

definition indexed :: "string \<Rightarrow> nat \<Rightarrow> string" where
  "indexed path n = path @ ''['' @ map byte_char (decimal n) @ '']''"

text \<open>What the vectors of a bundle are worth.\<close>

definition array_size :: "json_object \<Rightarrow> string \<Rightarrow> nat" where
  "array_size object key = (case json_get object key of
     None \<Rightarrow> 0 | Some v \<Rightarrow> (case as_array v of Inl _ \<Rightarrow> 0 | Inr vs \<Rightarrow> length vs))"

definition certification_vector_bundle_status :: "string \<Rightarrow> string" where
  "certification_vector_bundle_status vector_json =
     (case rbind (json_parse (utf8 vector_json)) as_object of Inl _ \<Rightarrow> ''incomplete''
      | Inr object \<Rightarrow> (case required_string object ''vector_class'' of Inl _ \<Rightarrow> ''incomplete''
        | Inr vector_class \<Rightarrow>
            if vector_class \<noteq> ''CERTIFICATION'' \<or> lower_contains vector_json ''fixture'' \<or>
               lower_contains vector_json ''pending'' \<or> lower_contains vector_json ''placeholder''
            then ''external_required''
            else if array_size object ''cases'' = 0 \<and> array_size object ''test_vectors'' = 0 then ''external_required''
            else if lower_contains vector_json ''sda'' \<and> lower_contains vector_json ''dda'' \<and>
                    lower_contains vector_json ''cda''
            then ''covered'' else ''external_required''))"

text \<open>The rules on a bundle, in their order, in three groups.\<close>

definition lint_policy :: "certification_bundle \<Rightarrow> bundle_load_policy \<Rightarrow> bundle_compile_report \<Rightarrow> bundle_compile_report" where
  "lint_policy b policy report =
     (let
      report = (if cb_bundle_class b = BundleTesting \<and> blp_mode policy \<noteq> ModeTest then
        push_finding report LintError ''bundle_class'' ''Testing bundle selected outside test mode''
        ''Certification and production loaders must not accept a testing bundle.''
        ''Switch the bundle_class to CERTIFICATION and use an authority-backed signature, or load it only with --mode test.''
        else report);
      report = (if cb_rollback_counter b \<le> blp_installed_rollback_counter policy then
        push_finding report LintError ''rollback_counter''
        ''Rollback counter is not newer than installed policy''
        ''The runtime anti-rollback guard will reject older or equal bundles.''
        ''Increase rollback_counter above the installed counter for any replacement bundle.''
        else report);
      report = (if cb_created b > blp_evaluation_date policy then
        push_finding report LintError ''created'' ''Bundle creation date is after evaluation date''
        ''A future-dated bundle cannot be accepted as current certification material.''
        ''Set the evaluation date to the lab date or regenerate the bundle with a valid creation date.''
        else report);
      report = (if bsig_algorithm (cb_signature b) = CERTIFICATION_BUNDLE_TEST_ALGORITHM then
        push_finding report LintWarning ''signature.algorithm'' ''Self-attested test signature detected''
        ''Self-attestation is acceptable for local testing only and is not certification authority evidence.''
        ''Use the certification bundle signature algorithm with a protected trust anchor before submission.''
        else report)
      in report)"

definition lint_references :: "certification_bundle_payload \<Rightarrow> bundle_compile_report \<Rightarrow> bundle_compile_report" where
  "lint_references p report =
     (let
      report = lint_pending_text ''submission_scope.certification_target''
        (ss_certification_target (cbp_submission_scope p)) report;
      report = lint_pending_text ''terminal_profile.device_model'' (tp_device_model (cbp_terminal_profile p)) report;
      report = lint_pending_text ''terminal_profile.firmware_version'' (tp_firmware_version (cbp_terminal_profile p)) report;
      report = lint_pending_text ''terminal_profile.l1_approval_reference''
        (tp_l1_approval_reference (cbp_terminal_profile p)) report;
      report = lint_pending_text ''terminal_profile.pci_pts_reference'' (tp_pci_pts_reference (cbp_terminal_profile p)) report
      in foldl (\<lambda>report (n, authority). lint_pending_text (indexed ''submission_scope.authorities'' n) authority report)
           report (enumerate 0 (ss_authorities (cbp_submission_scope p))))"

definition lint_content :: "certification_bundle_payload \<Rightarrow> bundle_compile_report \<Rightarrow> bundle_compile_report" where
  "lint_content p report =
     (let
      report = (if stt_bulletins_included (cbp_standards_target p) = [] then
        push_finding report LintError ''standards_target.bulletins_included''
        ''No standards bulletin reconciliation is present''
        ''Certification scope changes must be tied to explicit standards and bulletin data.''
        ''Add the public or licensed standards-watch identifier that applies to the target submission.''
        else report);
      report = (if \<not> lower_contains (rp_trace_masking_policy (cbp_runtime_policy p)) ''mask'' then
        push_finding report LintError ''runtime_policy.trace_masking_policy''
        ''Trace masking policy does not declare masking''
        ''APDU and report artifacts can leak PAN, track-equivalent, cryptogram, or PIN-adjacent data without a masking policy.''
        ''Use a masking policy that explicitly covers PAN, track-equivalent data, cryptograms, PIN material, and sensitive TLVs.''
        else report);
      report = (if length (cbp_artifact_hashes p) < 2 then
        push_finding report LintWarning ''artifact_hashes'' ''Few artifact bindings are present''
        ''A certification bundle should bind profiles, CAPKs, vectors, reports, traces, and external evidence to stable hashes.''
        ''Add hash bindings for every certification artifact before freezing the submission.''
        else report);
      status = certification_vector_bundle_status (cbp_vector_bundle_json p)
      in if status = ''covered'' then report
      else if status = ''external_required'' then
        push_finding report LintWarning ''payload.vector_bundle_json''
        ''Certification vector bundle is still fixture or empty data''
        ''The bundle can be linted for pre-lab flow, but fixture, pending, structural, or empty vector data cannot close ODA certification coverage.''
        ''Replace the vector bundle with authority/lab supplied CERTIFICATION data containing non-empty SDA, DDA, and CDA cases before final submission.''
      else
        push_finding report LintError ''payload.vector_bundle_json''
        ''Vector bundle is malformed or incomplete''
        ''ODA coverage cannot be assessed because the vector bundle does not have a supported schema shape.''
        ''Provide a JSON object with vector_class and non-empty cases or test_vectors arrays.'')"

definition lint_parsed_bundle :: "certification_bundle \<Rightarrow> bundle_load_policy \<Rightarrow> bundle_compile_report \<Rightarrow> bundle_compile_report" where
  "lint_parsed_bundle b policy report =
     lint_content (cb_payload b) (lint_references (cb_payload b) (lint_policy b policy report))"

definition default_fixture_public_key_hex :: "'k ed25519 \<Rightarrow> string" where
  "default_fixture_public_key_hex ed = (case signing_key_from_hex DEFAULT_FIXTURE_SIGNING_PRIVATE_KEY_HEX of
     Inl _ \<Rightarrow> [] | Inr key \<Rightarrow> hex_text (ed_key_bytes ed (ed_verifying_key ed key)))"

definition lint_trust_anchor ::
    "'k ed25519 \<Rightarrow> bundle_load_policy \<Rightarrow> bundle_compile_report \<Rightarrow> nat \<times> bundle_trust_anchor \<Rightarrow> bundle_compile_report" where
  "lint_trust_anchor ed policy report x = (case x of (n, anchor) \<Rightarrow>
     let
      report = (if bta_verification_public_key_hex anchor = default_fixture_public_key_hex ed then
        push_finding report LintWarning (indexed ''trust_anchors'' n @ ''.verification_public_key_hex'')
        ''Fixture verification key is still present''
        ''The checked-in fixture public key identifies a deterministic local signing key and must not be used for production or final certification submissions.''
        ''Generate and custody a submission-specific signing key outside the repository fixture and provision only its public verification key here.''
        else report)
     in if (case bta_not_after anchor of Some not_after \<Rightarrow> not_after < blp_evaluation_date policy | None \<Rightarrow> False) then
        push_finding report LintError (indexed ''trust_anchors'' n @ ''.not_after'')
        ''Trust anchor has expired for the evaluation date''
        ''The runtime will reject bundles signed by expired anchors.''
        ''Rotate the trust anchor or evaluate against the correct lab date.''
     else report)"

definition lint_trust_anchors ::
    "'k ed25519 \<Rightarrow> bundle_trust_anchor list \<Rightarrow> bundle_load_policy \<Rightarrow> bundle_compile_report \<Rightarrow> bundle_compile_report" where
  "lint_trust_anchors ed anchors policy report =
     (let report = (if anchors = [] then
        push_finding report LintError ''trust_anchors'' ''No trust anchors are provisioned''
        ''Certification and production bundles cannot be authenticated without authority metadata.''
        ''Provision a signer trust anchor in a protected store and bind it to the accepted payload hash.''
        else report)
      in foldl (lint_trust_anchor ed policy) report (enumerate 0 anchors))"

section \<open>Capabilities\<close>

definition coverage_status_item ::
    "string \<Rightarrow> string \<Rightarrow> string \<Rightarrow> string \<Rightarrow> string \<Rightarrow> string \<Rightarrow> capability_coverage" where
  "coverage_status_item ident area role bundle_source status suggestion =
     \<lparr>ecc_id = ident, ecc_area = area, ecc_role = role, ecc_bundle_source = bundle_source, ecc_status = status,
      ecc_suggestion = suggestion\<rparr>"

definition coverage_item ::
    "string \<Rightarrow> string \<Rightarrow> string \<Rightarrow> string \<Rightarrow> bool \<Rightarrow> string \<Rightarrow> capability_coverage" where
  "coverage_item ident area role bundle_source covered suggestion =
     coverage_status_item ident area role bundle_source (if covered then ''covered'' else ''incomplete'') suggestion"

definition external_reference_status :: "string \<Rightarrow> string" where
  "external_reference_status v =
     (if lower_contains v ''pending'' \<or> lower_contains v ''required'' \<or> lower_contains v ''external-''
      then ''external_required'' else ''covered'')"

definition profile_aids_with_interface :: "profile_set \<Rightarrow> string \<Rightarrow> nat" where
  "profile_aids_with_interface profile iface =
     length (filter (\<lambda>aid. list_ex (\<lambda>item. item = iface) (ap_interfaces aid)) (concat (map sp_aids (ps_schemes profile))))"

definition has_value :: "string list \<Rightarrow> string \<Rightarrow> bool" where
  "has_value vs needle = list_ex (\<lambda>v. v = needle) vs"

definition some_aid :: "profile_set \<Rightarrow> (aid_profile \<Rightarrow> bool) \<Rightarrow> bool" where
  "some_aid profile P = list_ex P (concat (map sp_aids (ps_schemes profile)))"

definition binds_artifact :: "certification_bundle_payload \<Rightarrow> string \<Rightarrow> bool" where
  "binds_artifact p ident = list_ex (\<lambda>artifact. ahb_artifact_id artifact = ident) (cbp_artifact_hashes p)"

definition has_contactless_kernel :: "certification_bundle_payload \<Rightarrow> bool" where
  "has_contactless_kernel p = list_ex (\<lambda>entry. kr_interface entry = ''contactless'') (cbp_kernel_registry p)"

definition has_trm :: "aid_profile \<Rightarrow> bool" where
  "has_trm aid \<longleftrightarrow> ap_floor_limit aid > 0 \<or> ap_random_selection_percent aid > 0 \<or>
     ap_lower_consecutive_offline_limit aid \<noteq> None \<or> ap_upper_consecutive_offline_limit aid \<noteq> None \<or>
     ap_transaction_type_floor_limits aid \<noteq> []"

definition has_cvm :: "aid_profile \<Rightarrow> bool" where
  "has_cvm aid \<longleftrightarrow> ap_cvm_limit_contact aid > 0 \<or> ap_contactless_cvm_limit aid > 0 \<or> ap_cdcvm_supported aid"

definition emv_capability_coverage :: "loaded_certification_bundle \<Rightarrow> capability_coverage list" where
  "emv_capability_coverage loaded =
     (let p = cb_payload (lcb_bundle loaded); profile = lcb_profile_set loaded;
          interfaces = ss_interfaces (cbp_submission_scope p) in
      [coverage_item ''selection'' ''Application selection''
       ''Selects PSE/PPSE, matches configured AIDs, and keeps scheme choice data-driven.''
       ''payload.scheme_profile_set_json.schemes[].aids''
       (list_ex (\<lambda>scheme. sp_aids scheme \<noteq> []) (ps_schemes profile))
       ''Add at least one scheme profile with AID entries for each claimed interface.'',
       coverage_item ''contact_l2'' ''Contact EMV L2''
       ''Binds contact interface, contact kernel type, TAC/IAC, DOL, CVM, TRM, and scripts to profile data.''
       ''payload.submission_scope.interfaces + scheme_profile_set_json''
       (has_value interfaces ''contact'' \<and> profile_aids_with_interface profile ''contact'' > 0 \<and>
        list_ex (\<lambda>scheme. sp_contact_kernel_type scheme \<noteq> None) (ps_schemes profile))
       ''Add contact to the claimed interfaces and include contact AID/profile material with contact_kernel_type.'',
       coverage_item ''contactless_c8'' ''Contactless Kernel C-8''
       ''Binds contactless scope to C-8 package data, TTQ/CVM limits, relay resistance, and masked traces.''
       ''payload.kernel_registry + scheme_profile_set_json''
       (has_value interfaces ''contactless'' \<and> profile_aids_with_interface profile ''contactless'' > 0 \<and> has_contactless_kernel p)
       ''Add a contactless kernel registry entry and contactless AID profile data for every claimed scheme.'',
       coverage_item ''capk_authority'' ''CAPK authority data''
       ''Supplies RID/index public keys, expiry, checksums, and provenance for ODA validation.''
       ''payload.scheme_profile_set_json.schemes[].capks''
       (list_ex (\<lambda>scheme. sp_capks scheme \<noteq> []) (ps_schemes profile))
       ''Attach accepted CAPK material with checksums and authority provenance.'',
       coverage_status_item ''oda_vectors'' ''SDA/DDA/CDA and ODA vectors''
       ''Binds cryptographic vector evidence and CDA request behavior to bundle hashes.''
       ''payload.vector_bundle_json + payload.artifact_hashes''
       (if some_aid profile cda_allowed_by_profile \<and> binds_artifact p ''vector_bundle_json''
        then certification_vector_bundle_status (cbp_vector_bundle_json p) else ''incomplete'')
       ''Attach lab or scheme ODA vectors with non-empty SDA, DDA, and CDA cases and bind their hash in artifact_hashes.'',
       coverage_item ''cvm_pin'' ''CVM and PIN integration''
       ''Controls CVM limits, CDCVM support, extension codes, and PED-owned offline PIN behavior.''
       ''payload.cvm_extensions + scheme_profile_set_json.aids''
       (cbp_cvm_extensions p \<noteq> [] \<or> some_aid profile has_cvm)
       ''Add CVM limits, certified CVM code handling, and PED integration evidence.'',
       coverage_item ''trm'' ''Terminal risk management''
       ''Drives floor limits, random selection, transaction type limits, and offline counters from profile data.''
       ''payload.scheme_profile_set_json.aids[].trm'' (some_aid profile has_trm)
       ''Add floor limits, random selection settings, and offline counter bounds for the target schemes.'',
       coverage_item ''taa'' ''Terminal action analysis''
       ''Keeps TAC/IAC policy in signed profile data rather than compiled constants.''
       ''payload.scheme_profile_set_json.schemes[].taa'' (ps_schemes profile \<noteq> [])
       ''Attach scheme-approved TAC/IAC profile material.'',
       coverage_item ''issuer_scripts'' ''Issuer script handling''
       ''Defines which issuer script INS values are critical for post-authorization handling.''
       ''payload.scheme_profile_set_json.aids[].critical_issuer_script_ins''
       (some_aid profile (\<lambda>aid. ap_critical_issuer_script_ins aid \<noteq> []))
       ''Add critical issuer script INS policy for each scheme profile that requires it.'',
       coverage_status_item ''relay_resistance'' ''Relay resistance''
       ''Controls contactless relay resistance behavior where required by scheme/profile.''
       ''payload.scheme_profile_set_json.aids[].relay_resistance''
       (if some_aid profile (\<lambda>aid. ap_relay_resistance aid \<noteq> None) then ''covered'' else ''warning'')
       ''Add relay resistance parameters for contactless profiles that claim it.'',
       coverage_item ''runtime_abi'' ''Runtime ABI and timeouts''
       ''Sets APDU, host authorization, PIN entry, and contactless UI callback bounds from bundle data.''
       ''payload.runtime_policy.callback_timeouts'' (True)
       ''Keep timeout values within 1..60000 ms and document device-specific rationale.'',
       coverage_item ''security_trust'' ''Signature, trust, and anti-rollback''
       ''Authenticates bundle payloads, enforces rollback counters, and records verification status.''
       ''signature + trust_anchors + rollback_counter''
       (lcb_verification_status loaded = ''trust-anchor-verified'')
       ''Use authority-managed trust anchors and keep rollback counters monotonic.'',
       coverage_status_item ''device_l1'' ''Device and L1 evidence''
       ''Binds target device, firmware, interface, and L1 approval references to the bundle.''
       ''payload.terminal_profile''
       (external_reference_status (tp_l1_approval_reference (cbp_terminal_profile p)))
       ''Replace pre-lab placeholders with accepted L1/device references.'',
       coverage_status_item ''pci_ped'' ''PCI/PED evidence''
       ''Records PED/PIN custody evidence for CVM and offline PIN integration.''
       ''payload.terminal_profile.pci_pts_reference''
       (external_reference_status (tp_pci_pts_reference (cbp_terminal_profile p)))
       ''Replace pre-lab placeholders with PCI PTS or assessor evidence references.'',
       coverage_item ''standards_bulletins'' ''Standards and bulletins''
       ''Captures contact/contactless target versions and bulletin inclusions/exclusions as data.''
       ''payload.standards_target'' (stt_bulletins_included (cbp_standards_target p) \<noteq> [])
       ''Add accepted standards and bulletin reconciliation data.'',
       coverage_item ''evidence_freeze'' ''Evidence freeze and reports''
       ''Binds test plan, artifact hashes, fingerprints, and report pack outputs for reproducible submissions.''
       ''payload.test_plan + payload.artifact_hashes''
       (cbp_test_plan p \<noteq> [] \<and> binds_artifact p ''scheme_profile_set_json'' \<and> binds_artifact p ''vector_bundle_json'')
       ''Bind every external report, trace pack, vector set, profile, and submitted binary by hash.'',
       coverage_item ''trace_privacy'' ''Trace privacy''
       ''Requires masked APDU traces and prevents sensitive data from becoming report content.''
       ''payload.runtime_policy.trace_masking_policy''
       (lower_contains (rp_trace_masking_policy (cbp_runtime_policy p)) ''mask'')
       ''Use the repository masking policy and audit trace packs before submission.''])"

definition payload_capability_coverage :: "certification_bundle \<Rightarrow> capability_coverage list" where
  "payload_capability_coverage b =
     (let p = cb_payload b in
      [coverage_item ''selection'' ''Application selection''
       ''Selects PSE/PPSE, matches configured AIDs, and keeps scheme choice data-driven.''
       ''payload.scheme_profile_set_json'' (True)
       ''Compile the embedded scheme profile set to verify concrete AID coverage.'',
       coverage_item ''contact_l2'' ''Contact EMV L2'' ''Binds contact interface to profile material.''
       ''payload.submission_scope.interfaces''
       (has_value (ss_interfaces (cbp_submission_scope p)) ''contact'')
       ''Add contact interface data and compile the embedded profile set.'',
       coverage_item ''contactless_c8'' ''Contactless Kernel C-8''
       ''Binds contactless scope to C-8 package data.'' ''payload.kernel_registry''
       (has_value (ss_interfaces (cbp_submission_scope p)) ''contactless'' \<and> has_contactless_kernel p)
       ''Add contactless scope and a contactless kernel registry entry.'',
       coverage_item ''security_trust'' ''Signature, trust, and anti-rollback''
       ''Authenticates bundle payloads and enforces rollback counters.'' ''signature + trust_anchors'' (False)
       ''Fix compile/authentication errors before treating this bundle as usable.''])"

section \<open>Compiling\<close>

definition finalize_compile_status :: "bundle_compile_report \<Rightarrow> bundle_compile_report" where
  "finalize_compile_status report = report\<lparr>cr_status :=
     (if list_ex (\<lambda>finding. blf_severity finding = LintError) (cr_findings report) \<or>
         list_ex (\<lambda>item. ecc_status item = ''incomplete'') (cr_coverage report) then ''fail''
      else if list_ex (\<lambda>finding. blf_severity finding = LintWarning) (cr_findings report) \<or>
         list_ex (\<lambda>item. ecc_status item = ''external_required'') (cr_coverage report) then ''warn''
      else ''pass'')\<rparr>"

text \<open>The report before the loader is asked: what is empty, what does not parse, what the rules find.\<close>

definition new_report :: "build_mode \<Rightarrow> bundle_compile_report" where
  "new_report mode = \<lparr>cr_status = ''pass'', cr_mode = mode, cr_findings = [], cr_coverage = [],
     cr_bundle_sha256 = None, cr_payload_sha256 = None, cr_scheme_profile_sha256 = None,
     cr_vector_bundle_sha256 = None, cr_verification_status = None\<rparr>"

definition lint_inputs ::
    "'k ed25519 \<Rightarrow> bytes \<Rightarrow> bytes \<Rightarrow> bundle_load_policy \<Rightarrow> bundle_compile_report" where
  "lint_inputs ed bundle_json anchors_json policy =
     (let
      report = new_report (blp_mode policy);
      report = (if bundle_json = [] then
        push_finding report LintError ''bundle_json'' ''Bundle JSON is empty''
        ''The kernel cannot parse, authenticate, or load an empty bundle.''
        ''Export a populated certification bundle before compiling.''
        else report);
      report = (if anchors_json = [] then
        push_finding report LintError ''trust_anchors_json'' ''Trust-anchor JSON is empty''
        ''Certification and production modes require trusted signer metadata before bundle authentication.''
        ''Provision at least one signer trust anchor with an allowed payload hash.''
        else report);
      report = (case parse_certification_bundle bundle_json of
        Inr b \<Rightarrow> lint_parsed_bundle b policy report
      | Inl err \<Rightarrow>
        push_finding report LintError ''bundle_json'' ''Bundle schema validation failed''
        ''The compiled runtime will reject this bundle before any EMV transaction can use it.''
        (''Fix the JSON shape, required fields, identifiers, hashes, and bounds reported by the parser: '' @ error_display err))
      in case parse_trust_anchors anchors_json of
        Inr anchors \<Rightarrow> lint_trust_anchors ed anchors policy report
      | Inl err \<Rightarrow>
        push_finding report LintError ''trust_anchors_json'' ''Trust-anchor validation failed''
        ''The compiled runtime cannot authenticate a certification or production bundle without valid trust anchors.''
        (''Fix the trust-anchor schema, signer IDs, fingerprints, secret length, dates, and allowed payload hashes: '' @ error_display err))"

definition certification_bundle_compile_report ::
    "'k ed25519 \<Rightarrow> bytes \<Rightarrow> bytes \<Rightarrow> bundle_load_policy \<Rightarrow> bundle_compile_report" where
  "certification_bundle_compile_report ed bundle_json anchors_json policy =
     (let report = lint_inputs ed bundle_json anchors_json policy in finalize_compile_status
     (case parse_certification_bundle bundle_json of
        Inl _ \<Rightarrow> report
      | Inr b \<Rightarrow> (case parse_trust_anchors anchors_json of
          Inl _ \<Rightarrow> report\<lparr>cr_coverage := payload_capability_coverage b\<rparr>
        | Inr anchors \<Rightarrow> (case load_certification_bundle ed bundle_json (policy\<lparr>blp_trust_anchors := anchors\<rparr>) of
            Inr loaded \<Rightarrow>
              let report = report\<lparr>cr_bundle_sha256 := Some (hex_text (lcb_bundle_sha256 loaded)),
                cr_payload_sha256 := Some (hex_text (lcb_payload_sha256 loaded)),
                cr_scheme_profile_sha256 := Some (hex_text (lcb_scheme_profile_sha256 loaded)),
                cr_vector_bundle_sha256 := Some (hex_text (lcb_vector_bundle_sha256 loaded)),
                cr_verification_status := Some (lcb_verification_status loaded)\<rparr>;
              report =
        push_finding report LintInfo ''bundle'' ''Bundle compiled and authenticated''
        ''The same kernel binary can load this data bundle under the selected policy.''
        ''Keep the bundle, trust anchors, fingerprints, reports, and submitted binary hash together in the certification pack.''
              in report\<lparr>cr_coverage := emv_capability_coverage loaded\<rparr>
          | Inl err \<Rightarrow>
              (
        push_finding report LintError ''bundle'' ''Bundle compile/authentication failed''
        ''The runtime loader will reject this bundle under the selected mode, rollback, date, or trust policy.''
        (''Reconcile payload hash, signer trust anchor, rollback counter, bundle class, profile signatures, and evaluation date: '' @ error_display err))
              \<lparr>cr_coverage := payload_capability_coverage b\<rparr>))))"

section \<open>The report as JSON\<close>

fun build_mode_as_str :: "build_mode \<Rightarrow> string" where
  "build_mode_as_str ModeTest = ''test''"
| "build_mode_as_str ModeCertification = ''certification''"
| "build_mode_as_str ModeProduction = ''production''"

definition lint_finding_json :: "bundle_lint_finding \<Rightarrow> bytes" where
  "lint_finding_json f = [0x7b] @ push_text ''severity'' (lint_severity_as_str (blf_severity f)) @ [0x2c] @
     push_text ''field_path'' (blf_field_path f) @ [0x2c] @ push_text ''title'' (blf_title f) @ [0x2c] @
     push_text ''impact'' (blf_impact f) @ [0x2c] @ push_text ''suggestion'' (blf_suggestion f) @ [0x7d]"

definition capability_coverage_json :: "capability_coverage \<Rightarrow> bytes" where
  "capability_coverage_json c = [0x7b] @ push_text ''id'' (ecc_id c) @ [0x2c] @ push_text ''area'' (ecc_area c) @ [0x2c] @
     push_text ''role'' (ecc_role c) @ [0x2c] @ push_text ''bundle_source'' (ecc_bundle_source c) @ [0x2c] @
     push_text ''status'' (ecc_status c) @ [0x2c] @ push_text ''suggestion'' (ecc_suggestion c) @ [0x7d]"

definition optional_text :: "string \<Rightarrow> string option \<Rightarrow> bytes" where
  "optional_text key v = (case v of None \<Rightarrow> [] | Some t \<Rightarrow> [0x2c] @ push_text key t)"

definition certification_bundle_compile_report_json :: "bundle_compile_report \<Rightarrow> bytes" where
  "certification_bundle_compile_report_json r = [0x7b] @
     push_text ''type'' ''hyperion-certification-bundle-compile-report'' @ [0x2c] @
     push_text ''status'' (cr_status r) @ [0x2c] @ push_text ''mode'' (build_mode_as_str (cr_mode r)) @
     optional_text ''bundle_sha256'' (cr_bundle_sha256 r) @ optional_text ''payload_sha256'' (cr_payload_sha256 r) @
     optional_text ''scheme_profile_sha256'' (cr_scheme_profile_sha256 r) @
     optional_text ''vector_bundle_sha256'' (cr_vector_bundle_sha256 r) @
     optional_text ''verification_status'' (cr_verification_status r) @ [0x2c] @
     push_member ''findings'' (array_json lint_finding_json (cr_findings r)) @ [0x2c] @
     push_member ''capability_coverage'' (array_json capability_coverage_json (cr_coverage r)) @ [0x7d, 0x0a]"

section \<open>What the findings say\<close>

definition finds :: "bundle_lint_severity \<Rightarrow> bundle_compile_report \<Rightarrow> bool" where
  "finds severity report = list_ex (\<lambda>finding. blf_severity finding = severity) (cr_findings report)"

lemma finds_push [simp]:
  "finds s (push_finding report severity path title impact suggestion) \<longleftrightarrow> finds s report \<or> severity = s"
  by (auto simp: finds_def push_finding_def)

lemma finds_new [simp]: "\<not> finds s (new_report mode)"
  by (simp add: finds_def new_report_def)

lemma finds_update [simp]:
  "finds s (report\<lparr>cr_coverage := coverage\<rparr>) = finds s report"
  "finds s (report\<lparr>cr_bundle_sha256 := h\<rparr>) = finds s report"
  "finds s (report\<lparr>cr_payload_sha256 := h\<rparr>) = finds s report"
  "finds s (report\<lparr>cr_scheme_profile_sha256 := h\<rparr>) = finds s report"
  "finds s (report\<lparr>cr_vector_bundle_sha256 := h\<rparr>) = finds s report"
  "finds s (report\<lparr>cr_verification_status := h\<rparr>) = finds s report"
  by (simp_all add: finds_def)

lemma finds_if [simp]: "finds s (if c then a else b) \<longleftrightarrow> (if c then finds s a else finds s b)"
  by simp

lemma finds_pending [simp]:
  "finds s (lint_pending_text path v report) \<longleftrightarrow> finds s report \<or> s = LintWarning \<and> pending_text v"
  by (auto simp: lint_pending_text_def)

lemma finds_policy:
  "finds s (lint_policy b policy report) \<longleftrightarrow> finds s report \<or>
     s = LintError \<and> (cb_bundle_class b = BundleTesting \<and> blp_mode policy \<noteq> ModeTest \<or>
       cb_rollback_counter b \<le> blp_installed_rollback_counter policy \<or> blp_evaluation_date policy < cb_created b) \<or>
     s = LintWarning \<and> bsig_algorithm (cb_signature b) = CERTIFICATION_BUNDLE_TEST_ALGORITHM"
  unfolding lint_policy_def Let_def finds_if finds_push by auto

definition pending_reference :: "certification_bundle_payload \<Rightarrow> bool" where
  "pending_reference p \<longleftrightarrow> list_ex pending_text
     (ss_certification_target (cbp_submission_scope p) # tp_device_model (cbp_terminal_profile p) #
      tp_firmware_version (cbp_terminal_profile p) # tp_l1_approval_reference (cbp_terminal_profile p) #
      tp_pci_pts_reference (cbp_terminal_profile p) # ss_authorities (cbp_submission_scope p))"

lemma finds_authorities:
  "finds s (foldl (\<lambda>report (n, authority). lint_pending_text (indexed path n) authority report) report (enumerate k as)) \<longleftrightarrow>
     finds s report \<or> s = LintWarning \<and> list_ex pending_text as"
  by (induction as arbitrary: k report) auto

lemma finds_references:
  "finds s (lint_references p report) \<longleftrightarrow> finds s report \<or> s = LintWarning \<and> pending_reference p"
  unfolding lint_references_def Let_def finds_authorities finds_pending pending_reference_def by auto

lemma vector_status_cases:
  "certification_vector_bundle_status v \<in> {''incomplete'', ''external_required'', ''covered''}"
  by (simp add: certification_vector_bundle_status_def split: sum.split)

lemma finds_content:
  "finds s (lint_content p report) \<longleftrightarrow> finds s report \<or>
     s = LintError \<and> (stt_bulletins_included (cbp_standards_target p) = [] \<or>
       \<not> lower_contains (rp_trace_masking_policy (cbp_runtime_policy p)) ''mask'' \<or>
       certification_vector_bundle_status (cbp_vector_bundle_json p) = ''incomplete'') \<or>
     s = LintWarning \<and> (length (cbp_artifact_hashes p) < 2 \<or>
       certification_vector_bundle_status (cbp_vector_bundle_json p) = ''external_required'')"
  using vector_status_cases [of "cbp_vector_bundle_json p"]
  unfolding lint_content_def Let_def finds_if finds_push by auto

definition anchor_expired :: "bundle_load_policy \<Rightarrow> bundle_trust_anchor \<Rightarrow> bool" where
  "anchor_expired policy anchor \<longleftrightarrow>
     (case bta_not_after anchor of Some not_after \<Rightarrow> not_after < blp_evaluation_date policy | None \<Rightarrow> False)"

definition fixture_key :: "'k ed25519 \<Rightarrow> bundle_trust_anchor \<Rightarrow> bool" where
  "fixture_key ed anchor \<longleftrightarrow> bta_verification_public_key_hex anchor = default_fixture_public_key_hex ed"

lemma finds_anchor:
  "finds s (lint_trust_anchor ed policy report (n, anchor)) \<longleftrightarrow> finds s report \<or>
     s = LintError \<and> anchor_expired policy anchor \<or> s = LintWarning \<and> fixture_key ed anchor"
  unfolding lint_trust_anchor_def Let_def prod.case finds_if finds_push anchor_expired_def fixture_key_def by auto

lemma finds_anchors:
  "finds s (lint_trust_anchors ed anchors policy report) \<longleftrightarrow> finds s report \<or>
     s = LintError \<and> (anchors = [] \<or> list_ex (anchor_expired policy) anchors) \<or>
     s = LintWarning \<and> list_ex (fixture_key ed) anchors"
proof -
  have "finds s (foldl (lint_trust_anchor ed policy) report (enumerate k as)) \<longleftrightarrow> finds s report \<or>
      s = LintError \<and> list_ex (anchor_expired policy) as \<or> s = LintWarning \<and> list_ex (fixture_key ed) as"
    for report k as
    by (induction as arbitrary: k report) (auto simp: finds_anchor)
  then show ?thesis unfolding lint_trust_anchors_def Let_def finds_if finds_push by auto
qed

section \<open>What a loaded bundle leaves to be found\<close>

lemma loaded_bundle_facts:
  assumes load: "load_certification_bundle ed json policy = Inr l"
  shows "json \<noteq> []" and "parse_certification_bundle json = Inr (lcb_bundle l)"
    and "blp_installed_rollback_counter policy < cb_rollback_counter (lcb_bundle l)"
    and "cb_created (lcb_bundle l) \<le> blp_evaluation_date policy"
    and "\<not> (cb_bundle_class (lcb_bundle l) = BundleTesting \<and> blp_mode policy \<noteq> ModeTest)"
    and "stt_bulletins_included (cbp_standards_target (cb_payload (lcb_bundle l))) \<noteq> []"
    and "lcb_verification_status l = ''trust-anchor-verified'' \<Longrightarrow>
      bsig_algorithm (cb_signature (lcb_bundle l)) \<noteq> CERTIFICATION_BUNDLE_TEST_ALGORITHM"
proof -
  have "\<exists>m. load_certification_bundle ed json policy = Inr m \<and>
      lcb_bundle m = lcb_bundle l \<and> lcb_profile_set m = lcb_profile_set l"
    using load by blast
  note accepted = this [unfolded bundle_accepted bundle_current_def]
  show "json \<noteq> []" "parse_certification_bundle json = Inr (lcb_bundle l)"
    "blp_installed_rollback_counter policy < cb_rollback_counter (lcb_bundle l)"
    "cb_created (lcb_bundle l) \<le> blp_evaluation_date policy"
    "\<not> (cb_bundle_class (lcb_bundle l) = BundleTesting \<and> blp_mode policy \<noteq> ModeTest)"
    using accepted by auto
  from accepted have "bundle_ok (lcb_bundle l)" by (blast intro: bundle_ok)
  then show "stt_bulletins_included (cbp_standards_target (cb_payload (lcb_bundle l))) \<noteq> []"
    by (simp add: bundle_ok_def payload_ok_def standards_target_ok_def clean_set_def)
  show "bsig_algorithm (cb_signature (lcb_bundle l)) \<noteq> CERTIFICATION_BUNDLE_TEST_ALGORITHM"
    if "lcb_verification_status l = ''trust-anchor-verified''"
  proof -
    obtain b h where "verify_bundle_signature ed b h policy = Inr (lcb_verification_status l)" "lcb_bundle l = b"
      using load by (auto simp: load_certification_bundle_def rbind_eq_Inr if_Inl_eq_Inr Let_def)
    with that show ?thesis
      by (auto simp: verify_bundle_signature_def rbind_eq_Inr if_Inl_eq_Inr Let_def CERTIFICATION_BUNDLE_TEST_ALGORITHM_def
          CERTIFICATION_BUNDLE_SIGNATURE_ALGORITHM_def split: if_splits)
  qed
qed

lemma anchors_not_empty: "parse_trust_anchors json = Inr anchors \<Longrightarrow> anchors \<noteq> [] \<and> json \<noteq> []"
  by (auto simp: parse_trust_anchors_def rbind_eq_Inr if_Inl_eq_Inr rmapM_eq_Inr_list_all2)

lemma two_bindings:
  assumes "binds_artifact p ''scheme_profile_set_json''" and "binds_artifact p ''vector_bundle_json''"
  shows "2 \<le> length (cbp_artifact_hashes p)"
proof -
  have "card {''scheme_profile_set_json'', ''vector_bundle_json''} \<le> card (ahb_artifact_id ` set (cbp_artifact_hashes p))"
    using assms by (intro card_mono) (auto simp: binds_artifact_def list_ex_iff intro: rev_image_eqI)
  also have "\<dots> \<le> length (cbp_artifact_hashes p)"
    by (metis card_length length_map list.set_map)
  finally show ?thesis by simp
qed

text \<open>
  A bundle that its loader takes and that its own data do not mark as incomplete: no trust anchor has
  expired, the vectors have their shape, and no capability is incomplete.
\<close>

definition complete_bundle :: "bundle_load_policy \<Rightarrow> bundle_trust_anchor list \<Rightarrow> loaded_certification_bundle \<Rightarrow> bool" where
  "complete_bundle policy anchors l \<longleftrightarrow>
     \<not> list_ex (anchor_expired policy) anchors \<and>
     certification_vector_bundle_status (cbp_vector_bundle_json (cb_payload (lcb_bundle l))) \<noteq> ''incomplete'' \<and>
     list_all (\<lambda>c. ecc_status c \<noteq> ''incomplete'') (emv_capability_coverage l)"

text \<open>One that needs no external evidence any more.\<close>

definition settled_bundle :: "'k ed25519 \<Rightarrow> bundle_trust_anchor list \<Rightarrow> loaded_certification_bundle \<Rightarrow> bool" where
  "settled_bundle ed anchors l \<longleftrightarrow>
     \<not> pending_reference (cb_payload (lcb_bundle l)) \<and> \<not> list_ex (fixture_key ed) anchors \<and>
     certification_vector_bundle_status (cbp_vector_bundle_json (cb_payload (lcb_bundle l))) = ''covered'' \<and>
     list_all (\<lambda>c. ecc_status c \<noteq> ''external_required'') (emv_capability_coverage l)"

lemma finalize_status:
  "cr_status (finalize_compile_status report) = (if finds LintError report \<or> list_ex (\<lambda>c. ecc_status c = ''incomplete'') (cr_coverage report)
     then ''fail'' else if finds LintWarning report \<or> list_ex (\<lambda>c. ecc_status c = ''external_required'') (cr_coverage report)
     then ''warn'' else ''pass'')"
  by (simp add: finalize_compile_status_def finds_def)

lemma complete_coverage:
  assumes "list_all (\<lambda>c. ecc_status c \<noteq> ''incomplete'') (emv_capability_coverage l)"
  shows "lower_contains (rp_trace_masking_policy (cbp_runtime_policy (cb_payload (lcb_bundle l)))) ''mask''"
    and "lcb_verification_status l = ''trust-anchor-verified''"
    and "2 \<le> length (cbp_artifact_hashes (cb_payload (lcb_bundle l)))"
proof -
  have item: "ecc_status (coverage_item a b c d e f) \<noteq> ''incomplete'' \<longleftrightarrow> e" for a b c d e f
    by (simp add: coverage_item_def coverage_status_item_def)
  show "lower_contains (rp_trace_masking_policy (cbp_runtime_policy (cb_payload (lcb_bundle l)))) ''mask''"
    and "lcb_verification_status l = ''trust-anchor-verified''"
    and "2 \<le> length (cbp_artifact_hashes (cb_payload (lcb_bundle l)))"
    using assms unfolding emv_capability_coverage_def Let_def list.pred_inject item by (blast intro: two_bindings)+
qed

lemma finds_case [simp]:
  "finds s (case x of Inl e \<Rightarrow> f e | Inr y \<Rightarrow> g y) \<longleftrightarrow> (case x of Inl e \<Rightarrow> finds s (f e) | Inr y \<Rightarrow> finds s (g y))"
  by (simp split: sum.split)

lemma finds_inputs:
  "finds s (lint_inputs ed json anchors_json policy) \<longleftrightarrow>
     s = LintError \<and> (json = [] \<or> anchors_json = []) \<or>
     (case parse_certification_bundle json of
        Inl _ \<Rightarrow> s = LintError
      | Inr b \<Rightarrow> finds s (lint_parsed_bundle b policy (new_report (blp_mode policy)))) \<or>
     (case parse_trust_anchors anchors_json of
        Inl _ \<Rightarrow> s = LintError
      | Inr anchors \<Rightarrow> finds s (lint_trust_anchors ed anchors policy (new_report (blp_mode policy))))"
  unfolding lint_inputs_def Let_def finds_case finds_if finds_push finds_anchors lint_parsed_bundle_def finds_content
    finds_references finds_policy
  by (auto split: sum.split)

text \<open>A report on a bundle that does not load fails.\<close>

lemma report_not_loaded:
  assumes "\<And>anchors l. parse_trust_anchors anchors_json = Inr anchors \<Longrightarrow>
    load_certification_bundle ed json (policy\<lparr>blp_trust_anchors := anchors\<rparr>) \<noteq> Inr l"
  shows "cr_status (certification_bundle_compile_report ed json anchors_json policy) = ''fail''"
proof (cases "parse_certification_bundle json")
  case (Inl e)
  then have "finds LintError (lint_inputs ed json anchors_json policy)" by (simp add: finds_inputs)
  with Inl show ?thesis by (simp add: certification_bundle_compile_report_def finalize_status)
next
  case (Inr b)
  show ?thesis
  proof (cases "parse_trust_anchors anchors_json")
    case (Inl e)
    then have "finds LintError (lint_inputs ed json anchors_json policy)" by (simp add: finds_inputs)
    with Inl Inr show ?thesis by (simp add: certification_bundle_compile_report_def finalize_status)
  next
    fix anchors
    assume anchors: "parse_trust_anchors anchors_json = Inr anchors"
    with assms obtain e where "load_certification_bundle ed json (policy\<lparr>blp_trust_anchors := anchors\<rparr>) = Inl e"
      by (meson sum.exhaust)
    with anchors Inr show ?thesis by (simp add: certification_bundle_compile_report_def finalize_status)
  qed
qed

lemma report_loaded:
  assumes anchors: "parse_trust_anchors anchors_json = Inr anchors"
    and load: "load_certification_bundle ed json (policy\<lparr>blp_trust_anchors := anchors\<rparr>) = Inr l"
  shows "cr_status (certification_bundle_compile_report ed json anchors_json policy) =
      (if complete_bundle policy anchors l then if settled_bundle ed anchors l then ''pass'' else ''warn'' else ''fail'')"
    and "cr_verification_status (certification_bundle_compile_report ed json anchors_json policy) = Some (lcb_verification_status l)"
    and "cr_bundle_sha256 (certification_bundle_compile_report ed json anchors_json policy) = Some (hex_text (sha256 json))"
proof -
  note facts = loaded_bundle_facts [OF load, simplified]
  let ?p = "cb_payload (lcb_bundle l)"
  define report where "report = lint_inputs ed json anchors_json policy"
  have error: "finds LintError report \<longleftrightarrow> list_ex (anchor_expired policy) anchors \<or>
      \<not> lower_contains (rp_trace_masking_policy (cbp_runtime_policy ?p)) ''mask'' \<or>
      certification_vector_bundle_status (cbp_vector_bundle_json ?p) = ''incomplete''"
    unfolding report_def finds_inputs facts(2) anchors sum.case lint_parsed_bundle_def finds_content finds_references
      finds_policy finds_anchors
    using facts anchors_not_empty [OF anchors] by auto
  have warning: "finds LintWarning report \<longleftrightarrow> list_ex (fixture_key ed) anchors \<or> pending_reference ?p \<or>
      bsig_algorithm (cb_signature (lcb_bundle l)) = CERTIFICATION_BUNDLE_TEST_ALGORITHM \<or>
      length (cbp_artifact_hashes ?p) < 2 \<or>
      certification_vector_bundle_status (cbp_vector_bundle_json ?p) = ''external_required''"
    unfolding report_def finds_inputs facts(2) anchors sum.case lint_parsed_bundle_def finds_content finds_references
      finds_policy finds_anchors
    by auto
  have compiled: "\<exists>r. certification_bundle_compile_report ed json anchors_json policy = finalize_compile_status r \<and>
      (\<forall>s. finds s r \<longleftrightarrow> finds s report \<or> s = LintInfo) \<and> cr_coverage r = emv_capability_coverage l \<and>
      cr_verification_status r = Some (lcb_verification_status l) \<and> cr_bundle_sha256 r = Some (hex_text (lcb_bundle_sha256 l))"
    unfolding certification_bundle_compile_report_def report_def [symmetric] facts(2) anchors load sum.case Let_def
    by (intro exI conjI refl allI) (auto simp: push_finding_def finds_def)
  then obtain r where r: "certification_bundle_compile_report ed json anchors_json policy = finalize_compile_status r"
      "\<And>s. finds s r \<longleftrightarrow> finds s report \<or> s = LintInfo" "cr_coverage r = emv_capability_coverage l"
      "cr_verification_status r = Some (lcb_verification_status l)" "cr_bundle_sha256 r = Some (hex_text (lcb_bundle_sha256 l))"
    by blast
  note complete = complete_coverage [of l]
  show "cr_status (certification_bundle_compile_report ed json anchors_json policy) =
      (if complete_bundle policy anchors l then if settled_bundle ed anchors l then ''pass'' else ''warn'' else ''fail'')"
    unfolding r(1) finalize_status r(2,3) error warning complete_bundle_def settled_bundle_def
    using complete facts(7) vector_status_cases [of "cbp_vector_bundle_json ?p"]
    by (auto simp: list_all_iff list_ex_iff)
  show "cr_verification_status (certification_bundle_compile_report ed json anchors_json policy) = Some (lcb_verification_status l)"
    unfolding r(1) by (simp add: finalize_compile_status_def r(4))
  have "lcb_bundle_sha256 l = sha256 json"
    using load by (auto simp: load_certification_bundle_def rbind_eq_Inr if_Inl_eq_Inr Let_def)
  then show "cr_bundle_sha256 (certification_bundle_compile_report ed json anchors_json policy) = Some (hex_text (sha256 json))"
    unfolding r(1) by (simp add: finalize_compile_status_def r(5))
qed

section \<open>Properties\<close>

text \<open>C23: The compile report tells what the loader does: it does not fail exactly when the trust anchors parse,
  the loader accepts the bundle with them, and nothing that only the report looks at is incomplete (expired
  anchors, the shape of the vectors, the capabilities that the data cover); it passes exactly when moreover no
  reference is pending, no fixture key is among the anchors and all vectors are there.  A bundle that does not
  fail was verified under a trust anchor: one that attests itself fails even in test mode.\<close>

theorem compile_report_tells_what_loads:
  "(cr_status (certification_bundle_compile_report ed json anchors_json policy) \<noteq> ''fail'' \<longleftrightarrow>
     (\<exists>anchors l. parse_trust_anchors anchors_json = Inr anchors \<and>
        load_certification_bundle ed json (policy\<lparr>blp_trust_anchors := anchors\<rparr>) = Inr l \<and>
        complete_bundle policy anchors l)) \<and>
   (cr_status (certification_bundle_compile_report ed json anchors_json policy) = ''pass'' \<longleftrightarrow>
     (\<exists>anchors l. parse_trust_anchors anchors_json = Inr anchors \<and>
        load_certification_bundle ed json (policy\<lparr>blp_trust_anchors := anchors\<rparr>) = Inr l \<and>
        complete_bundle policy anchors l \<and> settled_bundle ed anchors l)) \<and>
   (if cr_status (certification_bundle_compile_report ed json anchors_json policy) = ''fail'' then True
    else cr_verification_status (certification_bundle_compile_report ed json anchors_json policy) =
      Some ''trust-anchor-verified'')"
proof (cases "\<exists>anchors l. parse_trust_anchors anchors_json = Inr anchors \<and>
    load_certification_bundle ed json (policy\<lparr>blp_trust_anchors := anchors\<rparr>) = Inr l")
  case True
  then obtain anchors l where l: "parse_trust_anchors anchors_json = Inr anchors"
      "load_certification_bundle ed json (policy\<lparr>blp_trust_anchors := anchors\<rparr>) = Inr l" by blast
  have "complete_bundle policy anchors l \<Longrightarrow> lcb_verification_status l = ''trust-anchor-verified''"
    using complete_coverage(2) [of l] by (simp add: complete_bundle_def)
  with l report_loaded [OF l] show ?thesis by auto
next
  case False
  then have "cr_status (certification_bundle_compile_report ed json anchors_json policy) = ''fail''"
    by (intro report_not_loaded) blast
  with False show ?thesis by auto
qed

end
