(* ===== verification/Emv_Perf.thy ===== *)
theory Emv_Perf
  imports Emv_Fsm Emv_Bundle
begin

text \<open>
  The performance accumulator and the performance profile (\<open>src/src/perf.rs\<close>): microseconds per stage
  with checked sums, the targets they are held against, and the CSV text the targets are read from.
  Texts are characters below 256.
\<close>

section \<open>The accumulator\<close>

datatype perf_stage = OdaRsa | OdaEcc | TlvParsing | ApduOverhead

fun stage_index :: "perf_stage \<Rightarrow> nat" where
  "stage_index OdaRsa = 0"
| "stage_index OdaEcc = 1"
| "stage_index TlvParsing = 2"
| "stage_index ApduOverhead = 3"

record perf_accumulator =
  elapsed_micros :: "u64 list"

definition perf_new :: perf_accumulator where
  "perf_new = \<lparr>elapsed_micros = [0, 0, 0, 0]\<rparr>"

definition perf_record :: "perf_accumulator \<Rightarrow> perf_stage \<Rightarrow> u64 \<Rightarrow> perf_accumulator krn_result" where
  "perf_record acc stage us =
     rbind (ok_or (checked_add_u64 (elapsed_micros acc ! stage_index stage) us) LengthOverflow) (\<lambda>bucket.
       Inr (acc\<lparr>elapsed_micros := (elapsed_micros acc)[stage_index stage := bucket]\<rparr>))"

definition stage_micros :: "perf_accumulator \<Rightarrow> perf_stage \<Rightarrow> u64" where
  "stage_micros acc stage = elapsed_micros acc ! stage_index stage"

definition kernel_only_micros :: "perf_accumulator \<Rightarrow> u64 krn_result" where
  "kernel_only_micros acc = rfold (\<lambda>sum us. ok_or (checked_add_u64 sum us) LengthOverflow) 0 (elapsed_micros acc)"

section \<open>Targets\<close>

record performance_target =
  pt_profile_id :: string
  pt_tier :: string
  pt_device_class :: string
  oda_rsa_us_max :: u64
  oda_ecc_us_max :: u64
  tlv_parse_us_max :: u64
  apdu_overhead_us_max :: u64
  kernel_only_us_max :: u64
  pt_test_id :: string

text \<open>The sum is formed only when the stages are within their targets.\<close>

definition within_target :: "perf_accumulator \<Rightarrow> performance_target \<Rightarrow> bool krn_result" where
  "within_target acc target =
     (if stage_micros acc OdaRsa \<le> oda_rsa_us_max target \<and> stage_micros acc OdaEcc \<le> oda_ecc_us_max target \<and>
         stage_micros acc TlvParsing \<le> tlv_parse_us_max target \<and>
         stage_micros acc ApduOverhead \<le> apdu_overhead_us_max target
      then rbind (kernel_only_micros acc) (\<lambda>us. Inr (us \<le> kernel_only_us_max target)) else Inr False)"

section \<open>The profile\<close>

definition PROFILE_HEADER :: "string list" where
  "PROFILE_HEADER = [''profile_id'', ''tier'', ''device_class'', ''oda_rsa_us_max'', ''oda_ecc_us_max'',
     ''tlv_parse_us_max'', ''apdu_overhead_us_max'', ''kernel_only_us_max'', ''test_id'']"

definition digit_char :: "char \<Rightarrow> bool" where
  "digit_char c \<longleftrightarrow> (let n = of_char c :: nat in 48 \<le> n \<and> n \<le> 57)"

definition digit_value :: "char \<Rightarrow> nat" where
  "digit_value c = of_char c - 48"

text \<open>\<open>str::parse::<u64>\<close>: an optional plus sign, then digits, with checked arithmetic.\<close>

definition digit_step :: "u64 option \<Rightarrow> char \<Rightarrow> u64 option" where
  "digit_step acc c = Option.bind acc (\<lambda>n.
     if digit_char c
     then Option.bind (checked_mul_u64 n 10) (\<lambda>m. checked_add_u64 m (of_nat (digit_value c)))
     else None)"

definition without_sign :: "string \<Rightarrow> string" where
  "without_sign s = (if s \<noteq> [] \<and> hd s = CHR 0x2b then tl s else s)"

definition parse_u64 :: "string \<Rightarrow> u64 option" where
  "parse_u64 s = (let digits = without_sign s in if digits = [] then None else foldl digit_step (Some 0) digits)"

definition parse_positive_u64 :: "string \<Rightarrow> u64 krn_result" where
  "parse_positive_u64 v =
     rbind (ok_or (parse_u64 v) ParseError) (\<lambda>n. if n = 0 then Inl InvalidProfile else Inr n)"

definition parse_target_line :: "string \<Rightarrow> performance_target krn_result" where
  "parse_target_line line =
     (let fs = split_comma line in
      if length fs \<noteq> length PROFILE_HEADER \<or> list_ex (\<lambda>f. f = []) fs then Inl ParseError
      else if str_contains (fs ! 2) ''profile-defined'' \<or> str_contains (fs ! 2) ''generic'' then Inl InvalidProfile
      else
      rbind (parse_positive_u64 (fs ! 3)) (\<lambda>rsa.
      rbind (parse_positive_u64 (fs ! 4)) (\<lambda>ecc.
      rbind (parse_positive_u64 (fs ! 5)) (\<lambda>tlv.
      rbind (parse_positive_u64 (fs ! 6)) (\<lambda>apdu.
      rbind (parse_positive_u64 (fs ! 7)) (\<lambda>krn.
      if \<not> str_contains (fs ! 8) ''KRN-PERF-001'' \<or> \<not> str_contains (fs ! 8) ''KRN-PERF-002'' then Inl InvalidProfile
      else Inr \<lparr>pt_profile_id = fs ! 0, pt_tier = fs ! 1, pt_device_class = fs ! 2, oda_rsa_us_max = rsa,
        oda_ecc_us_max = ecc, tlv_parse_us_max = tlv, apdu_overhead_us_max = apdu, kernel_only_us_max = krn,
        pt_test_id = fs ! 8\<rparr>))))))"

definition target_line_step :: "performance_target list \<Rightarrow> string \<Rightarrow> performance_target list krn_result" where
  "target_line_step targets line =
     (if trim_text line = [] then Inr targets
      else rbind (parse_target_line line) (\<lambda>target. Inr (targets @ [target])))"

definition parse_performance_profile :: "string \<Rightarrow> performance_target list krn_result" where
  "parse_performance_profile csv = (case csv_lines csv of
     [] \<Rightarrow> Inl ParseError
   | header # lines \<Rightarrow>
       if split_comma header \<noteq> PROFILE_HEADER then Inl ParseError
       else rbind (rfold target_line_step [] lines) (\<lambda>targets.
         if targets = [] then Inl InvalidProfile else Inr targets))"

section \<open>Sums\<close>

definition stage_sum :: "perf_stage \<Rightarrow> (perf_stage \<times> u64) list \<Rightarrow> nat" where
  "stage_sum stage rs = sum_list (map (\<lambda>(s, us). if s = stage then unat us else 0) rs)"

lemma u64_bound: "unat (n :: u64) < 18446744073709551616"
proof -
  have "(unsigned n :: nat) < 2 ^ LENGTH(64)" by (rule unsigned_less)
  then show ?thesis by simp
qed

lemma u64_of_nat: "k < 18446744073709551616 \<Longrightarrow> unat (of_nat k :: u64) = k"
  by (simp add: unat_of_nat)

lemma checked_add_u64_iff: "checked_add_u64 a b = Some c \<longleftrightarrow> unat a + unat b = unat c"
proof
  assume "unat a + unat b = unat c"
  moreover have "unat c < 2 ^ 64" using u64_bound [of c] by simp
  ultimately have "checked_add_u64 a b = Some (a + b)" by (simp add: checked_add_u64_def)
  moreover from this have "unat (a + b) = unat c" using checked_add_u64_unat \<open>unat a + unat b = unat c\<close> by metis
  ultimately show "checked_add_u64 a b = Some c" by (simp add: word_unat_eq_iff)
qed (simp add: checked_add_u64_unat)

lemma checked_add_u64_None: "checked_add_u64 a b = None \<longleftrightarrow> 2 ^ 64 \<le> unat a + unat b"
  by (simp add: checked_add_u64_def not_less)

lemma stage_index_inject [simp]: "stage_index s = stage_index t \<longleftrightarrow> s = t"
  by (cases s; cases t) simp_all

lemma stage_index_less [simp]: "stage_index s < 4"
  by (cases s) simp_all

lemma stages_within: "stage_sum s (xs @ ys) = stage_sum s xs + stage_sum s ys"
  by (simp add: stage_sum_def)

lemma records_sum:
  assumes "length (elapsed_micros acc) = 4"
  shows "case rfold (\<lambda>acc (stage, us). perf_record acc stage us) acc rs of
     Inl e \<Rightarrow> e = LengthOverflow \<and> (\<exists>stage. 2 ^ 64 \<le> unat (stage_micros acc stage) + stage_sum stage rs)
   | Inr acc' \<Rightarrow> length (elapsed_micros acc') = 4 \<and>
       (\<forall>stage. unat (stage_micros acc' stage) = unat (stage_micros acc stage) + stage_sum stage rs)"
  using assms
proof (induction rs arbitrary: acc)
  case (Cons r rs)
  obtain stage us where r: "r = (stage, us)" by fastforce
  have sums: "stage_sum t (r # rs) = (if t = stage then unat us else 0) + stage_sum t rs" for t
    by (simp add: stage_sum_def r)
  show ?case
  proof (cases "checked_add_u64 (stage_micros acc stage) us")
    case None
    then have "2 ^ 64 \<le> unat (stage_micros acc stage) + stage_sum stage (r # rs)"
      by (simp add: checked_add_u64_None sums)
    with None show ?thesis by (auto simp: r perf_record_def stage_micros_def ok_or_def)
  next
    case (Some bucket)
    let ?acc = "acc\<lparr>elapsed_micros := (elapsed_micros acc)[stage_index stage := bucket]\<rparr>"
    have step: "perf_record acc stage us = Inr ?acc" using Some by (simp add: perf_record_def stage_micros_def ok_or_def)
    have micros: "unat (stage_micros ?acc t) = unat (stage_micros acc t) + (if t = stage then unat us else 0)" for t
      using Some Cons.prems by (simp add: stage_micros_def checked_add_u64_unat nth_list_update)
    have "unat (stage_micros ?acc t) + stage_sum t rs = unat (stage_micros acc t) + stage_sum t (r # rs)" for t
      by (simp add: micros sums)
    note eq = this
    have "length (elapsed_micros ?acc) = 4" using Cons.prems by simp
    moreover have "rfold (\<lambda>acc (stage, us). perf_record acc stage us) acc (r # rs) =
        rfold (\<lambda>acc (stage, us). perf_record acc stage us) ?acc rs"
      by (simp add: r step)
    ultimately show ?thesis using Cons.IH [of ?acc] unfolding eq by simp
  qed
qed (simp add: stage_sum_def)

lemma kernel_only_sum:
  assumes "length (elapsed_micros acc) = 4"
  shows "kernel_only_micros acc = Inr n \<longleftrightarrow>
     unat (stage_micros acc OdaRsa) + unat (stage_micros acc OdaEcc) + unat (stage_micros acc TlvParsing) +
       unat (stage_micros acc ApduOverhead) = unat n"
proof -
  have fold: "rfold (\<lambda>s us. ok_or (checked_add_u64 s us) LengthOverflow) a us = Inr n \<longleftrightarrow>
      unat a + sum_list (map unat us) = unat n" for a us
  proof (induction us arbitrary: a)
    case (Cons u us)
    show ?case
    proof (cases "checked_add_u64 a u")
      case None
      then have "unat n < unat a + unat u" using u64_bound [of n] by (simp add: checked_add_u64_None)
      with None show ?thesis by (simp add: ok_or_def)
    next
      case (Some b)
      then have "unat b = unat a + unat u" by (rule checked_add_u64_unat)
      with Some Cons show ?thesis by (simp add: ok_or_def add.assoc)
    qed
  qed (simp add: word_unat_eq_iff)
  from assms obtain a b c d where "elapsed_micros acc = [a, b, c, d]"
    by (auto simp: numeral_eq_Suc length_Suc_conv)
  then show ?thesis unfolding kernel_only_micros_def fold by (simp add: stage_micros_def add.assoc)
qed

section \<open>Lines of a profile\<close>

definition decimal_value :: "string \<Rightarrow> nat" where
  "decimal_value ds = foldl (\<lambda>n c. n * 10 + digit_value c) 0 ds"

text \<open>A text that denotes a 64-bit number.\<close>

definition u64_text :: "string \<Rightarrow> u64 \<Rightarrow> bool" where
  "u64_text s n \<longleftrightarrow> without_sign s \<noteq> [] \<and> list_all digit_char (without_sign s) \<and> decimal_value (without_sign s) = unat n"

lemma digits_grow: "a \<le> foldl (\<lambda>n c. n * 10 + digit_value c) a ds"
proof (induction ds arbitrary: a)
  case (Cons c ds)
  have "a \<le> a * 10 + digit_value c" by simp
  also have "\<dots> \<le> foldl (\<lambda>n c. n * 10 + digit_value c) (a * 10 + digit_value c) ds" by (rule Cons)
  finally show ?case by simp
qed simp

lemma digit_value_word: "digit_char c \<Longrightarrow> unat (of_nat (digit_value c) :: u64) = digit_value c"
  unfolding digit_char_def digit_value_def Let_def by (rule u64_of_nat) linarith

lemma checked_mul_u64_iff: "checked_mul_u64 a b = Some c \<longleftrightarrow> unat a * unat b = unat c"
proof
  assume "unat a * unat b = unat c"
  moreover have "unat c < 2 ^ 64" using u64_bound [of c] by simp
  ultimately have "checked_mul_u64 a b = Some (a * b)" by (simp add: checked_mul_u64_def)
  moreover from this have "unat (a * b) = unat c" using checked_mul_u64_unat \<open>unat a * unat b = unat c\<close> by metis
  ultimately show "checked_mul_u64 a b = Some c" by (simp add: word_unat_eq_iff)
qed (simp add: checked_mul_u64_unat)

lemma digit_step_iff:
  "digit_step (Some a) c = Some b \<longleftrightarrow> digit_char c \<and> unat a * 10 + digit_value c = unat b"
proof
  assume digit: "digit_char c \<and> unat a * 10 + digit_value c = unat b"
  let ?m = "of_nat (unat a * 10) :: u64"
  have m: "unat ?m = unat a * 10" using digit u64_bound [of b] by (intro u64_of_nat) simp
  then have "checked_mul_u64 a 10 = Some ?m" unfolding checked_mul_u64_iff by simp
  moreover have "checked_add_u64 ?m (of_nat (digit_value c)) = Some b"
    unfolding checked_add_u64_iff m using digit by (simp add: digit_value_word)
  ultimately show "digit_step (Some a) c = Some b" using digit by (simp add: digit_step_def)
qed (auto simp: digit_step_def bind_eq_Some_conv checked_add_u64_iff checked_mul_u64_iff digit_value_word split: if_splits)

lemma digit_step_None: "foldl digit_step None ds = None"
  by (induction ds) (simp_all add: digit_step_def)

lemma digit_steps:
  "foldl digit_step (Some a) ds = Some n \<longleftrightarrow>
     list_all digit_char ds \<and> foldl (\<lambda>n c. n * 10 + digit_value c) (unat a) ds = unat n"
proof (induction ds arbitrary: a)
  case (Cons c ds)
  show ?case
  proof (cases "digit_step (Some a) c")
    case None
    have "foldl (\<lambda>n c. n * 10 + digit_value c) (unat a * 10 + digit_value c) ds \<noteq> unat n" if "digit_char c"
    proof
      assume eq: "foldl (\<lambda>n c. n * 10 + digit_value c) (unat a * 10 + digit_value c) ds = unat n"
      then have "unat a * 10 + digit_value c \<le> unat n" using digits_grow [of "unat a * 10 + digit_value c" ds] by simp
      then have "unat (of_nat (unat a * 10 + digit_value c) :: u64) = unat a * 10 + digit_value c"
        using u64_bound [of n] by (intro u64_of_nat) simp
      with that have "digit_step (Some a) c = Some (of_nat (unat a * 10 + digit_value c))"
        unfolding digit_step_iff by (simp del: of_nat_add of_nat_mult)
      with None show False by simp
    qed
    with None show ?thesis by (auto simp: digit_step_None)
  next
    case (Some b)
    then have "digit_char c" "unat b = unat a * 10 + digit_value c" by (auto simp: digit_step_iff)
    with Some Cons show ?thesis by simp
  qed
qed (simp add: word_unat_eq_iff)

lemma parse_u64_iff: "parse_u64 s = Some n \<longleftrightarrow> u64_text s n"
  by (simp add: parse_u64_def u64_text_def digit_steps decimal_value_def Let_def)

lemma parse_positive_u64_iff: "parse_positive_u64 s = Inr n \<longleftrightarrow> u64_text s n \<and> n \<noteq> 0"
  by (cases "parse_u64 s") (auto simp: parse_positive_u64_def ok_or_def simp flip: parse_u64_iff)

fun join_comma :: "string list \<Rightarrow> string" where
  "join_comma [] = []"
| "join_comma [f] = f"
| "join_comma (f # fs) = f @ CHR 0x2c # join_comma fs"

lemma split_comma_not_Nil: "split_comma s \<noteq> []"
  by (induction s) (auto split: list.split)

lemma split_comma_join:
  "split_comma s = fs \<longleftrightarrow> fs \<noteq> [] \<and> list_all (\<lambda>f. CHR 0x2c \<notin> set f) fs \<and> join_comma fs = s"
proof
  assume "split_comma s = fs"
  then show "fs \<noteq> [] \<and> list_all (\<lambda>f. CHR 0x2c \<notin> set f) fs \<and> join_comma fs = s"
  proof (induction s arbitrary: fs)
    case (Cons c s)
    obtain g gs where s: "split_comma s = g # gs" using split_comma_not_Nil by (meson list.exhaust)
    from Cons.IH [OF this] Cons.prems s show ?case by (cases gs) (auto split: if_splits)
  qed auto
next
  have one: "CHR 0x2c \<notin> set f \<Longrightarrow> split_comma f = [f]" for f
    by (induction f) auto
  have more: "CHR 0x2c \<notin> set f \<Longrightarrow> split_comma (f @ CHR 0x2c # s) = f # split_comma s" for f s
    by (induction f) auto
  assume "fs \<noteq> [] \<and> list_all (\<lambda>f. CHR 0x2c \<notin> set f) fs \<and> join_comma fs = s"
  then have "fs \<noteq> []" "list_all (\<lambda>f. CHR 0x2c \<notin> set f) fs" "s = join_comma fs" by auto
  then show "split_comma s = fs"
    by (induction fs arbitrary: s rule: join_comma.induct) (auto simp: one more)
qed

text \<open>A line of the profile that stands for a target.\<close>

definition target_line :: "string \<Rightarrow> performance_target \<Rightarrow> bool" where
  "target_line line t \<longleftrightarrow> (\<exists>rsa ecc tlv apdu krn.
     (let fs = [pt_profile_id t, pt_tier t, pt_device_class t, rsa, ecc, tlv, apdu, krn, pt_test_id t] in
      line = join_comma fs \<and> list_all (\<lambda>f. f \<noteq> [] \<and> CHR 0x2c \<notin> set f) fs) \<and>
     u64_text rsa (oda_rsa_us_max t) \<and> u64_text ecc (oda_ecc_us_max t) \<and> u64_text tlv (tlv_parse_us_max t) \<and>
     u64_text apdu (apdu_overhead_us_max t) \<and> u64_text krn (kernel_only_us_max t)) \<and>
   oda_rsa_us_max t \<noteq> 0 \<and> oda_ecc_us_max t \<noteq> 0 \<and> tlv_parse_us_max t \<noteq> 0 \<and> apdu_overhead_us_max t \<noteq> 0 \<and>
   kernel_only_us_max t \<noteq> 0 \<and>
   \<not> str_contains (pt_device_class t) ''profile-defined'' \<and> \<not> str_contains (pt_device_class t) ''generic'' \<and>
   str_contains (pt_test_id t) ''KRN-PERF-001'' \<and> str_contains (pt_test_id t) ''KRN-PERF-002''"

lemma nine: "length fs = length PROFILE_HEADER \<longleftrightarrow> (\<exists>a b c d e f g h i. fs = [a, b, c, d, e, f, g, h, i])"
  by (auto simp: PROFILE_HEADER_def numeral_eq_Suc length_Suc_conv)

lemma parse_target_line_fields:
  assumes "split_comma line = [a, b, c, d, e, f, g, h, i]"
  shows "parse_target_line line = Inr t \<longleftrightarrow>
     list_all (\<lambda>f. f \<noteq> []) [a, b, c, d, e, f, g, h, i] \<and>
     \<not> str_contains c ''profile-defined'' \<and> \<not> str_contains c ''generic'' \<and>
     str_contains i ''KRN-PERF-001'' \<and> str_contains i ''KRN-PERF-002'' \<and>
     pt_profile_id t = a \<and> pt_tier t = b \<and> pt_device_class t = c \<and> pt_test_id t = i \<and>
     parse_positive_u64 d = Inr (oda_rsa_us_max t) \<and> parse_positive_u64 e = Inr (oda_ecc_us_max t) \<and>
     parse_positive_u64 f = Inr (tlv_parse_us_max t) \<and> parse_positive_u64 g = Inr (apdu_overhead_us_max t) \<and>
     parse_positive_u64 h = Inr (kernel_only_us_max t)"
  by (cases t) (auto simp: parse_target_line_def Let_def assms PROFILE_HEADER_def rbind_eq_Inr if_Inl_eq_Inr)

lemma parse_target_line_iff: "parse_target_line line = Inr t \<longleftrightarrow> target_line line t"
proof (cases "length (split_comma line) = length PROFILE_HEADER")
  case True
  then obtain a b c d e f g h i where fs: "split_comma line = [a, b, c, d, e, f, g, h, i]" unfolding nine by blast
  then have line: "line = join_comma [a, b, c, d, e, f, g, h, i]"
      "list_all (\<lambda>f. CHR 0x2c \<notin> set f) [a, b, c, d, e, f, g, h, i]"
    unfolding split_comma_join by simp_all
  have eq: "line = join_comma [a', b', c', d', e', f', g', h', i'] \<and>
        list_all (\<lambda>f. f \<noteq> [] \<and> CHR 0x2c \<notin> set f) [a', b', c', d', e', f', g', h', i'] \<longleftrightarrow>
      a' = a \<and> b' = b \<and> c' = c \<and> d' = d \<and> e' = e \<and> f' = f \<and> g' = g \<and> h' = h \<and> i' = i \<and>
        list_all (\<lambda>f. f \<noteq> []) [a, b, c, d, e, f, g, h, i]" for a' b' c' d' e' f' g' h' i'
    using fs split_comma_join [of line "[a', b', c', d', e', f', g', h', i']"] line(2)
    by (auto simp del: join_comma.simps)
  show ?thesis
    unfolding parse_target_line_fields [OF fs] target_line_def Let_def parse_positive_u64_iff eq
    by (rule iffI; elim conjE exE; simp del: list.pred_inject)
next
  case False
  have "length (split_comma line) = length PROFILE_HEADER" if "target_line line t"
  proof -
    from that obtain rsa ecc tlv apdu krn where
      "line = join_comma [pt_profile_id t, pt_tier t, pt_device_class t, rsa, ecc, tlv, apdu, krn, pt_test_id t]"
      "list_all (\<lambda>f. CHR 0x2c \<notin> set f) [pt_profile_id t, pt_tier t, pt_device_class t, rsa, ecc, tlv, apdu, krn, pt_test_id t]"
      unfolding target_line_def Let_def by (auto simp del: join_comma.simps)
    then have "split_comma line = [pt_profile_id t, pt_tier t, pt_device_class t, rsa, ecc, tlv, apdu, krn, pt_test_id t]"
      unfolding split_comma_join by simp
    then show ?thesis by (simp add: PROFILE_HEADER_def)
  qed
  with False have "\<not> target_line line t" by blast
  with False show ?thesis by (simp add: parse_target_line_def Let_def)
qed

lemma target_lines:
  "rfold target_line_step ts lines = Inr us \<longleftrightarrow>
     (\<exists>vs. us = ts @ vs \<and> list_all2 target_line (filter (\<lambda>l. trim_text l \<noteq> []) lines) vs)"
proof (induction lines arbitrary: ts)
  case (Cons line lines)
  then show ?case
    by (cases "trim_text line = []")
      (auto simp: target_line_step_def rbind_eq_Inr parse_target_line_iff list_all2_Cons1 krn_simps)
qed auto

section \<open>Properties\<close>

text \<open>A performance profile is read exactly as it is written: its first line is the header, and its other
  lines that are not blank are, in order, the targets: nine fields that are not empty, with positive decimal
  numbers below \<open>2 ^ 64\<close>, a specific device class and both of the test identifiers; there is at least one.\<close>

theorem performance_profile_iff:
  "parse_performance_profile csv = Inr targets \<longleftrightarrow>
     (\<exists>lines. csv_lines csv = join_comma PROFILE_HEADER # lines \<and> targets \<noteq> [] \<and>
        list_all2 target_line (filter (\<lambda>l. trim_text l \<noteq> []) lines) targets)"
proof -
  have "split_comma header = PROFILE_HEADER \<longleftrightarrow> header = join_comma PROFILE_HEADER" for header
    unfolding split_comma_join by (auto simp: PROFILE_HEADER_def)
  then show ?thesis
    by (cases "csv_lines csv")
      (auto simp: parse_performance_profile_def target_lines rbind_eq_Inr if_Inl_eq_Inr)
qed

text \<open>C37: What is measured is what is compared: after any sequence of records, of which none was refused, the
  accumulator meets a target exactly when the true sums of the recorded times do, stage by stage and all
  together, however large they are; a record is refused only when the sum of its stage exceeds 64 bits.\<close>

theorem measured_time_decides:
  "case rfold (\<lambda>acc (stage, us). perf_record acc stage us) perf_new records of
     Inl e \<Rightarrow> e = LengthOverflow \<and> (\<exists>stage. 2 ^ 64 \<le> stage_sum stage records)
   | Inr acc \<Rightarrow>
       within_target acc target = Inr True \<longleftrightarrow>
         stage_sum OdaRsa records \<le> unat (oda_rsa_us_max target) \<and>
         stage_sum OdaEcc records \<le> unat (oda_ecc_us_max target) \<and>
         stage_sum TlvParsing records \<le> unat (tlv_parse_us_max target) \<and>
         stage_sum ApduOverhead records \<le> unat (apdu_overhead_us_max target) \<and>
         stage_sum OdaRsa records + stage_sum OdaEcc records + stage_sum TlvParsing records +
           stage_sum ApduOverhead records \<le> unat (kernel_only_us_max target)"
proof -
  have new: "length (elapsed_micros perf_new) = 4" "stage_micros perf_new stage = 0" for stage
    by (cases stage; simp add: perf_new_def stage_micros_def)+
  show ?thesis
  proof (cases "rfold (\<lambda>acc (stage, us). perf_record acc stage us) perf_new records")
    case (Inr acc)
    then have acc: "length (elapsed_micros acc) = 4" "\<And>stage. unat (stage_micros acc stage) = stage_sum stage records"
      using records_sum [OF new(1), of records] by (simp_all add: new(2))
    have "(\<exists>n :: u64. s = unat n \<and> unat n \<le> unat m) \<longleftrightarrow> s \<le> unat m" for s :: nat and m :: u64
    proof
      assume "s \<le> unat m"
      then show "\<exists>n :: u64. s = unat n \<and> unat n \<le> unat m"
        using u64_bound [of m] by (intro exI [of _ "of_nat s :: u64"]) (simp add: u64_of_nat)
    qed auto
    note in_time = this
    have "within_target acc target = Inr True \<longleftrightarrow>
        stage_micros acc OdaRsa \<le> oda_rsa_us_max target \<and> stage_micros acc OdaEcc \<le> oda_ecc_us_max target \<and>
        stage_micros acc TlvParsing \<le> tlv_parse_us_max target \<and>
        stage_micros acc ApduOverhead \<le> apdu_overhead_us_max target \<and>
        (\<exists>n. kernel_only_micros acc = Inr n \<and> n \<le> kernel_only_us_max target)"
      by (cases "kernel_only_micros acc") (auto simp: within_target_def)
    then show ?thesis
      unfolding Inr sum.case kernel_only_sum [OF acc(1)] word_le_nat_alt acc(2) in_time .
  qed (use records_sum [OF new(1), of records] in \<open>simp add: new(2)\<close>)
qed

end
