(* ===== verification/Emv_Provision.thy ===== *)
theory Emv_Provision
  imports Emv_Bundle_Json
begin

text \<open>
  The making of certification bundles (\<open>create_bundle_from_inputs\<close> in \<open>src/src/cert_bundle.rs\<close>): a bundle
  that is made with a signing key is admitted by the trust anchor made with it.
\<close>

unbundle bit_operations_syntax

section \<open>Hexadecimal texts\<close>

lemma hex_byte_read:
  "\<exists>h l hi lo. hex_byte b = [h, l] \<and> hex_nibble h = Inr hi \<and> hex_nibble l = Inr lo \<and> push_bit 4 hi OR lo = b \<and>
     h \<in> set HEX_DIGITS \<and> l \<in> set HEX_DIGITS"
proof -
  define hi lo where "hi = drop_bit 4 b" and "lo = b AND 0x0f"
  have all: "list_all (\<lambda>n. hex_nibble (HEX_DIGITS ! n) = Inr (word_of_nat n)) [0..<16]" "length HEX_DIGITS = 16"
    by code_simp+
  have "unat b < 256" by (rule order_less_le_trans [OF unsigned_less]) simp
  moreover have "unat hi = unat b div 2 ^ 4" unfolding hi_def by (subst unat_drop_bit_eq) (rule drop_bit_eq_div)
  ultimately have hi: "unat hi < 16" by (simp add: div_less_iff_less_mult)
  have "lo \<le> 0x0f" unfolding lo_def by (rule word_and_le1)
  then have lo: "unat lo < 16" by (simp add: word_le_nat_alt)
  have read: "hex_nibble (HEX_DIGITS ! unat w) = Inr w" "HEX_DIGITS ! unat w \<in> set HEX_DIGITS" if "unat w < 16" for w
    using all(1) that all(2) by (simp_all add: list_all_iff del: upt_rec_numeral)
  have "lo = take_bit 4 b" by (simp add: lo_def take_bit_eq_mask mask_eq_exp_minus_1)
  moreover have "push_bit 4 (drop_bit 4 b) OR take_bit 4 b = b" by (rule bit_word_eqI) (auto simp: bit_simps)
  ultimately have "push_bit 4 hi OR lo = b" by (simp only: hi_def)
  with read [OF hi] read [OF lo] show ?thesis by (simp add: hex_byte_def hi_def lo_def)
qed

lemma chunks_of_hex: "chunks_exact 2 (to_hex bs) = map hex_byte bs"
proof -
  have "length (hex_byte b) = 2" for b by (simp add: hex_byte_def)
  then show ?thesis unfolding to_hex_def by (intro chunks_exact_concat) auto
qed

lemma ascii_hex_text: "ascii (hex_text bs) = to_hex bs"
proof -
  have "of_char (byte_char b) = b" for b :: byte
  proof -
    have "unat b < 256" by (rule order_less_le_trans [OF unsigned_less]) simp
    then have "(of_char (byte_char b) :: nat) = unat b" by (simp add: byte_char_def)
    moreover have "(of_char (byte_char b) :: byte) = word_of_nat (of_char (byte_char b))" by (simp only: of_nat_of_char)
    ultimately show ?thesis by simp
  qed
  then show ?thesis by (simp add: ascii_def hex_text_def comp_def)
qed

lemma length_to_hex: "length (to_hex bs) = 2 * length bs"
  by (induction bs) (simp_all add: to_hex_def hex_byte_def)

lemma decode_hex_text: "bs \<noteq> [] \<Longrightarrow> decode_hex (hex_text bs) = Inr bs"
proof -
  assume "bs \<noteq> []"
  moreover have "rmapM (\<lambda>pair. rbind (hex_nibble (pair ! 0)) (\<lambda>high. rbind (hex_nibble (pair ! 1)) (\<lambda>low.
      Inr (push_bit 4 high OR low)))) (map hex_byte bs) = Inr bs"
  proof (induction bs)
    case (Cons b bs)
    then show ?case using hex_byte_read [of b] by auto
  qed simp
  ultimately show ?thesis
    using length_to_hex [of bs] by (auto simp: decode_hex_def Let_def ascii_hex_text chunks_of_hex)
qed

lemma hex_text_chars: "c \<in> set (hex_text bs) \<Longrightarrow> c \<in> byte_char ` set HEX_DIGITS"
proof -
  have "set (hex_byte b) \<subseteq> set HEX_DIGITS" for b using hex_byte_read [of b] by auto
  then show "c \<in> set (hex_text bs) \<Longrightarrow> c \<in> byte_char ` set HEX_DIGITS"
    by (fastforce simp: hex_text_def to_hex_def)
qed

lemma contains_subset: "str_contains s t \<Longrightarrow> set t \<subseteq> set s"
proof (induction s)
  case (Cons c s)
  then show ?case by (auto simp: starts_with_def) (metis in_set_takeD set_ConsD)+
qed simp

lemma hex_text_clean:
  assumes "bs \<noteq> []" "length bs \<le> 2048"
  shows "clean (hex_text bs)" "plain_text (hex_text bs)"
proof -
  have all: "list_all (\<lambda>c. plain_char c \<and> \<not> is_control c \<and> \<not> white_space c \<and>
      (of_char (to_ascii_uppercase c) :: nat) \<notin> {80, 46, 85}) ''0123456789abcdef''"
    by (simp add: plain_char_def is_control_def white_space_def to_ascii_uppercase_def Let_def)
  have "map byte_char HEX_DIGITS = ''0123456789abcdef''"
    by (simp only: HEX_DIGITS_def ascii_def map_map comp_def byte_char_of_char map_ident)
  then have digits: "byte_char ` set HEX_DIGITS = set ''0123456789abcdef''" by (metis set_map)
  have chars: "plain_char c \<and> \<not> is_control c \<and> \<not> white_space c \<and> (of_char (to_ascii_uppercase c) :: nat) \<notin> {80, 46, 85}"
    if "c \<in> set (hex_text bs)" for c
    using all hex_text_chars [OF that] unfolding list_all_iff digits by blast
  show plain: "plain_text (hex_text bs)" using chars by (simp add: plain_text_def list_all_iff)
  have len: "length (hex_text bs) = 2 * length bs" by (simp add: hex_text_def length_to_hex)
  with assms have ne: "hex_text bs \<noteq> []" by auto
  have "\<not> white_space (hd (hex_text bs))" "\<not> white_space (last (hex_text bs))" using ne chars by simp_all
  then have "dropWhile white_space (hex_text bs) = hex_text bs" "dropWhile white_space (rev (hex_text bs)) = rev (hex_text bs)"
    by (simp_all add: dropWhile_eq_self_iff hd_rev)
  then have trim: "trim_text (hex_text bs) = hex_text bs" by (simp add: trim_text_def trim_by_def)
  have "\<not> str_contains (map to_ascii_uppercase (hex_text bs)) t"
    if "d \<in> set t" "(of_char d :: nat) \<in> {80, 46, 85}" for d t
    using that contains_subset [of "map to_ascii_uppercase (hex_text bs)" t] chars by fastforce
  from this [of "CHR ''P''" "''PLACEHOLDER''"] this [of "CHR ''.''" "''...''"] this [of "CHR ''U''" "''DUMMY''"]
  have "\<not> str_contains (map to_ascii_uppercase (hex_text bs)) ''PLACEHOLDER''"
    "\<not> str_contains (map to_ascii_uppercase (hex_text bs)) ''...''"
    "\<not> str_contains (map to_ascii_uppercase (hex_text bs)) ''DUMMY''" by simp_all
  then show "clean (hex_text bs)"
    using ne chars len assms(2) plain_text_written(3) [OF plain]
    by (auto simp: clean_def validate_clean_string_def trim list_ex_iff Let_def MAX_BUNDLE_STRING_BYTES_def)
qed

lemma hex_text_hex: "bs \<noteq> [] \<Longrightarrow> length bs \<le> 2048 \<Longrightarrow> clean_hex (hex_text bs) (length bs)"
  by (simp add: clean_hex_def hex_text_clean validate_hex_len_iff decode_hex_text)

lemma sha256_length: "length (sha256 m) = 32"
proof -
  have "length (sha256_words_to_bytes h) = 32" for h by (cases h) simp
  then show ?thesis by (simp add: sha256_def Let_def)
qed
section \<open>Trust anchors\<close>

definition anchor_members :: "bundle_trust_anchor \<Rightarrow> written_members" where
  "anchor_members a =
     [text_member ''signer_id'' (bta_signer_id a),
      text_member ''signing_key_fingerprint'' (bta_signing_key_fingerprint a),
      text_member ''verification_public_key_hex'' (bta_verification_public_key_hex a),
      text_member ''allowed_payload_sha256'' (bta_allowed_payload_sha256 a)] @
     (case bta_not_after a of Some d \<Rightarrow> [text_member ''not_after'' (format_date d)] | None \<Rightarrow> [])"

definition anchor_ok :: "bundle_trust_anchor \<Rightarrow> bool" where
  "anchor_ok a \<longleftrightarrow> clean (bta_signer_id a) \<and> clean (bta_signing_key_fingerprint a) \<and>
     clean_hex (bta_verification_public_key_hex a) 32 \<and> clean_hex (bta_allowed_payload_sha256 a) 32 \<and>
     (case bta_not_after a of Some d \<Rightarrow> dated d | None \<Rightarrow> True)"

definition anchor_texts :: "bundle_trust_anchor \<Rightarrow> string list" where
  "anchor_texts a = [bta_signer_id a, bta_signing_key_fingerprint a, bta_verification_public_key_hex a,
     bta_allowed_payload_sha256 a]"

lemma anchor_written:
  "object_text (anchor_members a) = trust_anchor_json a"
  "anchor_ok a \<Longrightarrow> list_all plain_text (anchor_texts a) \<Longrightarrow> members_written (anchor_members a)"
proof -
  show "object_text (anchor_members a) = trust_anchor_json a"
    by (simp add: object_text_Cons anchor_members_def trust_anchor_json_def member_texts split: option.split)
  assume "anchor_ok a" "list_all plain_text (anchor_texts a)"
  then show "members_written (anchor_members a)"
    by (auto intro!: members_writtenI member_writtenI in_list_all [OF bundle_keys] conjunct2 [OF date_read_back]
        simp: anchor_members_def anchor_texts_def member_keys anchor_ok_def split: option.splits)
qed

lemma anchor_self:
  "\<lparr>bta_signer_id = bta_signer_id a, bta_signing_key_fingerprint = bta_signing_key_fingerprint a,
    bta_verification_public_key_hex = bta_verification_public_key_hex a,
    bta_allowed_payload_sha256 = bta_allowed_payload_sha256 a, bta_not_after = bta_not_after a\<rparr> = a"
  by (cases a) simp

lemma anchor_back:
  assumes ok: "anchor_ok a"
  shows "parse_trust_anchor (object_value (anchor_members a)) = Inr a"
proof -
  let ?o = "key_values (anchor_members a)"
  have get: "json_get ?o ''signer_id'' = Some (JsonString (bta_signer_id a))"
    "json_get ?o ''signing_key_fingerprint'' = Some (JsonString (bta_signing_key_fingerprint a))"
    "json_get ?o ''verification_public_key_hex'' = Some (JsonString (bta_verification_public_key_hex a))"
    "json_get ?o ''allowed_payload_sha256'' = Some (JsonString (bta_allowed_payload_sha256 a))"
    "json_get ?o ''not_after'' = map_option (\<lambda>d. JsonString (format_date d)) (bta_not_after a)"
    by (simp_all add: anchor_members_def field_reads split: option.split)
  have known: "reject_unknown_fields ?o [''signer_id'', ''signing_key_fingerprint'',
       ''verification_public_key_hex'', ''allowed_payload_sha256'', ''not_after''] = Inr ()"
    by (cases "bta_not_after a") (simp_all add: known_fields anchor_members_def member_defs)
  have strings: "required_clean_string ?o ''signer_id'' = Inr (bta_signer_id a)"
    "required_clean_string ?o ''signing_key_fingerprint'' = Inr (bta_signing_key_fingerprint a)"
    "required_clean_string ?o ''verification_public_key_hex'' = Inr (bta_verification_public_key_hex a)"
    "required_clean_string ?o ''allowed_payload_sha256'' = Inr (bta_allowed_payload_sha256 a)"
    "validate_hex_len (bta_verification_public_key_hex a) 32 = Inr ()"
    "validate_hex_len (bta_allowed_payload_sha256 a) 32 = Inr ()"
    using ok by (simp_all add: required_clean_string_iff get anchor_ok_def clean_hex_def)
  have date: "(case json_get ?o ''not_after'' of None \<Rightarrow> Inr None
      | Some v \<Rightarrow> rmap Some (rbind (as_string v) parse_iso_date)) = Inr (bta_not_after a)"
    using ok by (auto simp: get(5) anchor_ok_def date_read_back split: option.splits)
  show ?thesis
    by (simp add: parse_trust_anchor_def object_value_def known strings date anchor_self)
qed

lemma anchors_read_back:
  assumes ok: "anchor_ok a" and plain: "list_all plain_text (anchor_texts a)"
    and len: "length (trust_anchors_json [a]) \<le> MAX_CERTIFICATION_BUNDLE_BYTES"
  shows "parse_trust_anchors (trust_anchors_json [a]) = Inr [a]"
proof -
  let ?ms = "[text_member ''schema_version'' ''hyperion-certification-trust-anchors-1.0'',
    objects_member ''trust_anchors'' [anchor_members a]]"
  have version: "plain_text ''hyperion-certification-trust-anchors-1.0''" by code_simp
  have whole: "object_text ?ms @ [0x0a] = trust_anchors_json [a]"
    by (simp add: object_text_Cons member_texts trust_anchors_json_def array_json_def anchor_written(1))
  have "members_written ?ms"
    using version anchor_written(2) [OF ok plain]
    by (auto intro!: members_writtenI member_writtenI in_list_all [OF bundle_keys] simp: member_keys)
  then have "json_text (object_value ?ms) (object_text ?ms)" by (rule written_object_text)
  moreover have "ws_text [0x0a]" by (simp add: ws_text_def json_ws_def)
  moreover have "fits 0 (object_value ?ms)" "json_nodes (object_value ?ms) \<le> MAX_JSON_NODES"
    by (simp_all add: object_value_def member_defs anchor_members_def MAX_JSON_DEPTH_def MAX_JSON_NODES_def split: option.split)
  ultimately have json: "json_parse (trust_anchors_json [a]) = Inr (object_value ?ms)"
    unfolding json_parse_eq_Inr whole [symmetric] by metis
  have known: "reject_unknown_fields (key_values ?ms) [''schema_version'', ''trust_anchors''] = Inr ()"
    by (simp add: known_fields member_defs)
  have found: "required_string (key_values ?ms) ''schema_version'' = Inr ''hyperion-certification-trust-anchors-1.0''"
    "required_field (key_values ?ms) ''trust_anchors'' = Inr (JsonArray [object_value (anchor_members a)])"
    by (simp_all add: required_string_def required_field_def field_reads)
  have "trust_anchors_json [a] \<noteq> []" by (simp add: trust_anchors_json_def)
  then show ?thesis
    using len anchor_back [OF ok]
    unfolding parse_trust_anchors_def json object_value_def [of ?ms]
    by (simp add: known [simplified] found [simplified] bounded_len_def MAX_BUNDLE_COLLECTION_ITEMS_def)
qed

text \<open>How long the written texts are; a written list of one trust anchor always fits.\<close>

lemma escape_char_length: "length (escape_char c) \<le> 6"
  by (simp add: escape_char_def utf8_char_def hex_byte_def Let_def)

lemma escaped_length: "length (push_json_escaped v) \<le> 6 * length v"
proof (induction v)
  case (Cons c v)
  then show ?case using escape_char_length [of c] by (simp add: push_json_escaped_def)
qed (simp add: push_json_escaped_def)

lemma push_text_length: "length (push_text k v) = length k + 5 + length (push_json_escaped v)"
  by (simp add: push_text_def ascii_def)

lemma utf8_length: "length v \<le> length (utf8 v)"
proof (induction v)
  case (Cons c v)
  then show ?case by (simp add: utf8_def utf8_char_def Let_def)
qed (simp add: utf8_def)

lemma hex_text_length: "length (hex_text bs) = 2 * length bs"
  by (simp add: hex_text_def length_to_hex)

lemma dated_digits: "dated d \<Longrightarrow> unat (date_year d) \<le> 99 \<and> unat (date_month d) \<le> 99 \<and> unat (date_day d) \<le> 99"
  by (auto simp: dated_def valid_date_def days_in_month_def split: if_splits)

lemma format_date_length: "dated d \<Longrightarrow> length (format_date d) = 10"
  using dated_digits [of d] two_digits_read [of "date_year d"] two_digits_read [of "date_month d"] two_digits_read [of "date_day d"]
  by (auto simp: format_date_def)

lemma anchors_length:
  assumes "clean (bta_signer_id a)" "length (bta_signing_key_fingerprint a) \<le> 128"
    "length (bta_verification_public_key_hex a) \<le> 128" "length (bta_allowed_payload_sha256 a) \<le> 128"
    "case bta_not_after a of Some d \<Rightarrow> dated d | None \<Rightarrow> True"
  shows "length (trust_anchors_json [a]) \<le> MAX_CERTIFICATION_BUNDLE_BYTES"
proof -
  have s: "length (bta_signer_id a) \<le> 4096"
    using assms(1) utf8_length [of "bta_signer_id a"]
    by (simp add: clean_def validate_clean_string_def MAX_BUNDLE_STRING_BYTES_def split: if_splits)
  note e = escaped_length [of "bta_signer_id a"] escaped_length [of "bta_signing_key_fingerprint a"]
    escaped_length [of "bta_verification_public_key_hex a"] escaped_length [of "bta_allowed_payload_sha256 a"]
    escaped_length [of "''hyperion-certification-trust-anchors-1.0''"]
  have d: "length (push_json_escaped (format_date d)) \<le> 60" if "bta_not_after a = Some d" for d
    using assms(5) escaped_length [of "format_date d"] format_date_length [of d] by (simp add: that)
  show ?thesis
    using e s assms(2-4) d
    by (auto simp: trust_anchors_json_def array_json_def join_def trust_anchor_json_def push_text_length push_member_def
        ascii_def MAX_CERTIFICATION_BUNDLE_BYTES_def split: option.split)
qed

section \<open>Bundles that are made\<close>

text \<open>The laws of Ed25519 that the loading of a bundle that was made rests on: public keys are 32 bytes that
  denote them, signatures are 64 bytes, and a signature verifies under the key of its secret.\<close>

definition signature_laws :: "'k ed25519 \<Rightarrow> bool" where
  "signature_laws ed \<longleftrightarrow> (\<forall>secret message. length secret = 32 \<longrightarrow>
     length (ed_key_bytes ed (ed_verifying_key ed secret)) = 32 \<and>
     ed_key_of_bytes ed (ed_key_bytes ed (ed_verifying_key ed secret)) = Some (ed_verifying_key ed secret) \<and>
     length (ed_sign ed secret message) = 64 \<and>
     ed_verify ed (ed_verifying_key ed secret) message (ed_sign ed secret message))"

text \<open>What a bundle needs of its inputs beyond what is checked when it is made: clean plain texts, lists that
  are not too long, counters above zero and dates that can be written.\<close>

definition inputs_clean :: "bundle_provisioning_input \<Rightarrow> bool" where
  "inputs_clean inp \<longleftrightarrow>
     list_all (\<lambda>s. clean s \<and> plain_text s)
       ([bpi_bundle_id inp, bpi_product_name inp, bpi_product_version inp, bpi_certification_target inp,
         bpi_emv_contact_version inp, bpi_emv_contactless_kernel inp, bpi_terminal_type inp, bpi_device_model inp,
         bpi_firmware_version inp, bpi_l1_approval_reference inp, bpi_pci_pts_reference inp,
         bpi_kernel_profile_id inp, bpi_kernel_interface inp, bpi_kernel_algorithm inp, bpi_c8_package inp,
         bpi_vector_class inp, bpi_signer_id inp] @
        csv_items (bpi_interfaces inp) @ csv_items (bpi_authorities inp) @ csv_items (bpi_bulletins_included inp) @
        csv_items (bpi_bulletins_excluded inp) @ csv_items (bpi_scheme_scope inp)) \<and>
     list_all (\<lambda>s. length (csv_items s) \<le> MAX_BUNDLE_COLLECTION_ITEMS)
       [bpi_interfaces inp, bpi_authorities inp, bpi_bulletins_included inp, bpi_bulletins_excluded inp, bpi_scheme_scope inp] \<and>
     plain_text (bpi_scheme_profile_set_json inp) \<and> plain_text (bpi_vector_bundle_json inp) \<and>
     bpi_bundle_version inp \<noteq> 0 \<and> bpi_rollback_counter inp \<noteq> 0 \<and> dated (bpi_created inp) \<and>
     (case bpi_trust_not_after inp of Some d \<Rightarrow> dated d | None \<Rightarrow> True)"

lemma split_csv_iff: "split_csv inp = Inr vs \<longleftrightarrow> vs = csv_items inp \<and> vs \<noteq> [] \<and> distinct vs"
  and split_csv_allow_empty_iff: "split_csv_allow_empty inp = Inr ws \<longleftrightarrow> ws = csv_items inp \<and> distinct ws"
  by (auto simp: split_csv_def split_csv_allow_empty_def rbind_eq_Inr validate_non_empty_set_iff reject_duplicates_iff)

lemma fixed_texts: "list_all (\<lambda>s. clean s \<and> plain_text s)
    [''terminal-nonvolatile-counter-required'', ''mask-pan-track-equivalent-cryptogram-pin-and-sensitive-tlv'',
     ''baseline-cvm-extension-data'', ''1E'', ''signature-or-cdcvm-as-authority-profiled'', ''0000000000'',
     ''CERT-DATA-0001'', ''bundle-loads-and-profile-validates'', ''masked-apdu-trace-required-for-submission'',
     ''scheme_profile_set_json'', ''scheme-profile'', ''CERT-OPEN-002'', ''CERT-OPEN-003'', ''vector_bundle_json'',
     ''test-vectors'', ''CERT-OPEN-004'', ''CERT-OPEN-012'', CERTIFICATION_BUNDLE_SIGNATURE_ALGORITHM]"
  by code_simp

lemma fixed_values: "validate_hex_len ''1E'' (Suc 0) = Inr ()" "validate_hex_len ''0000000000'' 5 = Inr ()"
  "validate_identifier ''CERT-DATA-0001'' = Inr ()"
  by code_simp+

lemma json_nodes_strings: "sum_list (map (json_nodes \<circ> JsonString) vs) = length vs"
  by (induction vs) simp_all

lemma provisioned_payload_ok:
  assumes made: "provisioned_payload inp t = Inr p" "validate_payload p = Inr ()" and clean: "inputs_clean inp"
    and t: "validate_callback_timeouts t = Inr ()"
  shows "payload_ok p" "list_all plain_text (payload_texts p)" "json_nodes (object_value (payload_members p)) \<le> 1000"
    "cbp_scheme_profile_set_json p = bpi_scheme_profile_set_json inp"
proof -
  have p: "cbp_submission_scope p = \<lparr>ss_product_name = bpi_product_name inp, ss_product_version = bpi_product_version inp,
        ss_certification_target = bpi_certification_target inp, ss_interfaces = csv_items (bpi_interfaces inp),
        ss_authorities = csv_items (bpi_authorities inp)\<rparr>"
    "cbp_standards_target p = \<lparr>stt_emv_contact_version = bpi_emv_contact_version inp,
        stt_emv_contactless_kernel = bpi_emv_contactless_kernel inp,
        stt_bulletins_included = csv_items (bpi_bulletins_included inp),
        stt_bulletins_excluded = csv_items (bpi_bulletins_excluded inp)\<rparr>"
    "cbp_terminal_profile p = \<lparr>tp_terminal_type = bpi_terminal_type inp, tp_device_model = bpi_device_model inp,
        tp_firmware_version = bpi_firmware_version inp, tp_l1_approval_reference = bpi_l1_approval_reference inp,
        tp_pci_pts_reference = bpi_pci_pts_reference inp, tp_supported_interfaces = csv_items (bpi_interfaces inp)\<rparr>"
    "cbp_runtime_policy p = \<lparr>rp_callback_timeouts = t,
        rp_offline_counter_persistence = ''terminal-nonvolatile-counter-required'',
        rp_trace_masking_policy = ''mask-pan-track-equivalent-cryptogram-pin-and-sensitive-tlv''\<rparr>"
    "cbp_kernel_registry p = [\<lparr>kr_kernel_profile_id = bpi_kernel_profile_id inp, kr_interface = bpi_kernel_interface inp,
        kr_algorithm = bpi_kernel_algorithm inp, kr_c8_package = bpi_c8_package inp,
        kr_scheme_scope = csv_items (bpi_scheme_scope inp)\<rparr>]"
    "cbp_cvm_extensions p = [\<lparr>ce_rule_id = ''baseline-cvm-extension-data'', ce_scheme_scope = csv_items (bpi_scheme_scope inp),
        ce_cvm_code_hex = ''1E'', ce_meaning = ''signature-or-cdcvm-as-authority-profiled'',
        ce_tvr_on_failure_hex = ''0000000000'', ce_continue_on_failure = True\<rparr>]"
    "cbp_test_plan p = [\<lparr>ctc_case_id = ''CERT-DATA-0001'', ctc_vector_class = bpi_vector_class inp,
        ctc_expected_outcome = ''bundle-loads-and-profile-validates'',
        ctc_trace_requirement = ''masked-apdu-trace-required-for-submission''\<rparr>]"
    "cbp_artifact_hashes p = [\<lparr>ahb_artifact_id = ''scheme_profile_set_json'', ahb_artifact_kind = ''scheme-profile'',
        ahb_sha256_hex = hex_text (sha256 (utf8 (bpi_scheme_profile_set_json inp))),
        ahb_binds_open_issues = [''CERT-OPEN-002'', ''CERT-OPEN-003'']\<rparr>,
       \<lparr>ahb_artifact_id = ''vector_bundle_json'', ahb_artifact_kind = ''test-vectors'',
        ahb_sha256_hex = hex_text (sha256 (utf8 (bpi_vector_bundle_json inp))),
        ahb_binds_open_issues = [''CERT-OPEN-004'', ''CERT-OPEN-012'']\<rparr>]"
    "cbp_scheme_profile_set_json p = bpi_scheme_profile_set_json inp"
    "cbp_vector_bundle_json p = bpi_vector_bundle_json inp"
    and sets: "csv_items (bpi_interfaces inp) \<noteq> []" "distinct (csv_items (bpi_interfaces inp))"
    "csv_items (bpi_authorities inp) \<noteq> []" "distinct (csv_items (bpi_authorities inp))"
    "csv_items (bpi_bulletins_included inp) \<noteq> []" "distinct (csv_items (bpi_bulletins_included inp))"
    "distinct (csv_items (bpi_bulletins_excluded inp))"
    "csv_items (bpi_scheme_scope inp) \<noteq> []" "distinct (csv_items (bpi_scheme_scope inp))"
    using made(1) by (auto simp: provisioned_payload_def rbind_eq_Inr split_csv_iff split_csv_allow_empty_iff)
  have split: "list_all (\<lambda>s. clean s \<and> plain_text s) xs \<longleftrightarrow> list_all clean xs \<and> list_all plain_text xs" for xs
    by (auto simp: list_all_iff)
  note inputs = clean [unfolded inputs_clean_def split list_all_append list.pred_inject]
  note fixed = fixed_texts [unfolded split list.pred_inject]
  have hash: "clean_hex (hex_text (sha256 m)) 32" "plain_text (hex_text (sha256 m))" for m
    using hex_text_hex [of "sha256 m"] hex_text_clean(2) [of "sha256 m"] sha256_length [of m] by force+
  show "cbp_scheme_profile_set_json p = bpi_scheme_profile_set_json inp" by (rule p(9))
  show "payload_ok p"
    using inputs fixed sets made(2) t
    by (simp add: payload_ok_def p submission_scope_ok_def standards_target_ok_def terminal_profile_ok_def
        runtime_policy_ok_def callback_timeouts_ok_def kernel_registration_ok_def cvm_extension_ok_def
        test_case_ok_def artifact_hash_ok_def clean_set_def hash clean_hex_def [of "''1E''"] clean_hex_def [of "''0000000000''"]
        fixed_values MAX_BUNDLE_COLLECTION_ITEMS_def)
  show "list_all plain_text (payload_texts p)"
    using inputs fixed
    by (simp add: payload_texts_def p submission_scope_texts_def standards_target_texts_def terminal_profile_texts_def
        runtime_policy_texts_def kernel_registration_texts_def cvm_extension_texts_def test_case_texts_def
        artifact_hash_texts_def hash)
  show "json_nodes (object_value (payload_members p)) \<le> 1000"
    using inputs
    by (simp add: payload_members_def p object_value_def member_defs submission_scope_members_def
        standards_target_members_def terminal_profile_members_def runtime_policy_members_def callback_timeouts_members_def
        kernel_registration_members_def cvm_extension_members_def test_case_members_def artifact_hash_members_def
        json_nodes_strings MAX_BUNDLE_COLLECTION_ITEMS_def)
qed
lemma create_bundle_eq_Inr:
  assumes "create_bundle_from_inputs ed inp = Inr (bundle_json, anchors_json)"
  obtains t p secret where "validate_callback_timeouts t = Inr ()" "provisioned_payload inp t = Inr p" "validate_payload p = Inr ()"
    "length secret = 32" "validate_identifier (bpi_bundle_id inp) = Inr ()"
    "bundle_json = certification_bundle_json (signed_bundle ed inp p secret)"
    "anchors_json = trust_anchors_json [provisioned_anchor ed inp p secret]"
  using assms
  unfolding create_bundle_from_inputs_def Let_def signing_key_from_hex_def
  by (auto simp: rbind_eq_Inr split: if_splits)

lemma made_bundle_ok:
  assumes p: "provisioned_payload inp t = Inr p" "validate_payload p = Inr ()" and t: "validate_callback_timeouts t = Inr ()"
    and secret: "length secret = 32" and id: "validate_identifier (bpi_bundle_id inp) = Inr ()"
    and clean: "inputs_clean inp" and laws: "signature_laws ed"
  defines "b \<equiv> signed_bundle ed inp p secret" and "a \<equiv> provisioned_anchor ed inp p secret"
  shows "bundle_ok b" "list_all plain_text (bundle_texts b)" "json_nodes (bundle_value b) \<le> MAX_JSON_NODES"
    and "anchor_ok a" "list_all plain_text (anchor_texts a)"
    and "signed_by_anchor ed \<lparr>blp_mode = mode, blp_installed_rollback_counter = installed, blp_evaluation_date = date,
        blp_trust_anchors = [a]\<rparr> b (sha256 (payload_canonical_json (cb_payload b))) \<longleftrightarrow>
      (case bpi_trust_not_after inp of Some d \<Rightarrow> date \<le> d | None \<Rightarrow> True)"
    and "bsig_payload_sha256 (cb_signature b) = hex_text (sha256 (payload_canonical_json (cb_payload b)))"
    and "\<not> self_attested policy b"
proof -
  note payload = provisioned_payload_ok [OF p clean t]
  have signer: "clean (bpi_signer_id inp)" "plain_text (bpi_signer_id inp)" "clean (bpi_bundle_id inp)" "plain_text (bpi_bundle_id inp)"
    and rest: "bpi_bundle_version inp \<noteq> 0" "bpi_rollback_counter inp \<noteq> 0" "dated (bpi_created inp)"
      "case bpi_trust_not_after inp of Some d \<Rightarrow> dated d | None \<Rightarrow> True"
    using clean by (simp_all add: inputs_clean_def)
  have key: "length (ed_key_bytes ed (ed_verifying_key ed secret)) = 32"
    "ed_key_of_bytes ed (ed_key_bytes ed (ed_verifying_key ed secret)) = Some (ed_verifying_key ed secret)"
    "length (ed_sign ed secret m) = 64" "ed_verify ed (ed_verifying_key ed secret) m (ed_sign ed secret m)" for m
    using laws secret by (simp_all add: signature_laws_def)
  have hex: "clean_hex (hex_text bs) (length bs) \<and> clean (hex_text bs) \<and> plain_text (hex_text bs) \<and> decode_hex (hex_text bs) = Inr bs"
    if "0 < length bs" "length bs \<le> 64" for bs
    using that hex_text_hex [of bs] hex_text_clean [of bs] decode_hex_text [of bs] by auto
  have hash: "clean_hex (hex_text (sha256 m)) 32" "clean (hex_text (sha256 m))" "plain_text (hex_text (sha256 m))" for m
    using hex [of "sha256 m"] sha256_length [of m] by simp_all
  have kh: "clean_hex (hex_text (ed_key_bytes ed (ed_verifying_key ed secret))) 32"
    "plain_text (hex_text (ed_key_bytes ed (ed_verifying_key ed secret)))"
    "decode_hex (hex_text (ed_key_bytes ed (ed_verifying_key ed secret))) = Inr (ed_key_bytes ed (ed_verifying_key ed secret))"
    using hex [of "ed_key_bytes ed (ed_verifying_key ed secret)"] key(1) by simp_all
  have sh: "clean_hex (hex_text (ed_sign ed secret m)) 64" "plain_text (hex_text (ed_sign ed secret m))"
    "decode_hex (hex_text (ed_sign ed secret m)) = Inr (ed_sign ed secret m)" for m
    using hex [of "ed_sign ed secret m"] key(3) [of m] by simp_all
  have alg: "clean CERTIFICATION_BUNDLE_SIGNATURE_ALGORITHM" "plain_text CERTIFICATION_BUNDLE_SIGNATURE_ALGORITHM"
    using fixed_texts by simp_all
  show "bundle_ok b"
    using payload(1) signer rest id
    by (simp add: bundle_ok_def b_def signed_bundle_def Let_def signature_ok_def signature_ed25519_hex_def hash sh alg)
  show "list_all plain_text (bundle_texts b)"
    using payload(2) signer
    by (simp add: bundle_texts_def b_def signed_bundle_def Let_def signature_texts_def signature_ed25519_hex_def hash sh alg)
  show "json_nodes (bundle_value b) \<le> MAX_JSON_NODES"
    using payload(3)
    by (simp add: bundle_value_def bundle_members_def object_value_def [of "_ # _"] member_defs signature_members_def b_def
        signed_bundle_def Let_def MAX_JSON_NODES_def)
  show "anchor_ok a"
    using signer rest(4) by (simp add: anchor_ok_def a_def provisioned_anchor_def Let_def hash kh split: option.splits)
  show "list_all plain_text (anchor_texts a)"
    using signer by (simp add: anchor_texts_def a_def provisioned_anchor_def Let_def hash kh)
  show "signed_by_anchor ed \<lparr>blp_mode = mode, blp_installed_rollback_counter = installed, blp_evaluation_date = date,
        blp_trust_anchors = [a]\<rparr> b (sha256 (payload_canonical_json (cb_payload b))) \<longleftrightarrow>
      (case bpi_trust_not_after inp of Some d \<Rightarrow> date \<le> d | None \<Rightarrow> True)"
    by (simp add: signed_by_anchor_def a_def b_def provisioned_anchor_def signed_bundle_def Let_def anchor_of_def
        signature_ed25519_hex_def kh key sh split: option.split)
  show "bsig_payload_sha256 (cb_signature b) = hex_text (sha256 (payload_canonical_json (cb_payload b)))"
    by (simp add: b_def signed_bundle_def Let_def)
  show "\<not> self_attested policy b"
    by (simp add: self_attested_def b_def signed_bundle_def Let_def CERTIFICATION_BUNDLE_SIGNATURE_ALGORITHM_def
        CERTIFICATION_BUNDLE_TEST_ALGORITHM_def)
qed
lemma if_condI: "(c \<Longrightarrow> P) \<Longrightarrow> if c then P else True"
  by simp

lemma made_bundle_admitted:
  assumes laws: "signature_laws ed" and made: "create_bundle_from_inputs ed inp = Inr (bundle_json, anchors_json)"
    and clean: "inputs_clean inp"
    and current: "bpi_created inp \<le> date" "installed < bpi_rollback_counter inp"
      "mode = ModeTest \<or> bpi_bundle_class inp = BundleCertification"
      "case bpi_trust_not_after inp of Some d \<Rightarrow> date \<le> d | None \<Rightarrow> True"
  shows "\<exists>anchors. parse_trust_anchors anchors_json = Inr anchors \<and>
    (if length bundle_json \<le> MAX_CERTIFICATION_BUNDLE_BYTES
     then (\<exists>l. load_certification_bundle ed bundle_json \<lparr>blp_mode = mode, blp_installed_rollback_counter = installed,
             blp_evaluation_date = date, blp_trust_anchors = anchors\<rparr> = Inr l) \<longleftrightarrow>
          (\<exists>ps. load_profile_set (utf8 (bpi_scheme_profile_set_json inp))
             \<lparr>policy_mode = (if bpi_bundle_class inp = BundleTesting then ModeTest else mode),
              policy_signature_status = SignatureVerified, policy_installed_version = installed,
              policy_candidate_version = bpi_rollback_counter inp, policy_evaluation_date = date\<rparr> = Inr ps)
     else load_certification_bundle ed bundle_json \<lparr>blp_mode = mode, blp_installed_rollback_counter = installed,
             blp_evaluation_date = date, blp_trust_anchors = anchors\<rparr> = Inl LengthOverflow)"
proof -
  obtain t p secret where m: "validate_callback_timeouts t = Inr ()" "provisioned_payload inp t = Inr p" "validate_payload p = Inr ()"
    "length secret = 32" "validate_identifier (bpi_bundle_id inp) = Inr ()"
    and made_json: "bundle_json = certification_bundle_json (signed_bundle ed inp p secret)"
    and anchors: "anchors_json = trust_anchors_json [provisioned_anchor ed inp p secret]"
    using made by (rule create_bundle_eq_Inr)
  define b where "b = signed_bundle ed inp p secret"
  define a where "a = provisioned_anchor ed inp p secret"
  note ok = made_bundle_ok [OF m(2,3,1,4,5) clean laws, folded b_def a_def]
  have b: "cb_created b = bpi_created inp" "cb_rollback_counter b = bpi_rollback_counter inp"
    "cb_bundle_class b = bpi_bundle_class inp" "cbp_scheme_profile_set_json (cb_payload b) = bpi_scheme_profile_set_json inp"
    using provisioned_payload_ok(4) [OF m(2,3) clean m(1)] by (simp_all add: b_def signed_bundle_def Let_def)
  let ?policy = "\<lparr>blp_mode = mode, blp_installed_rollback_counter = installed, blp_evaluation_date = date, blp_trust_anchors = [a]\<rparr>"
  have parsed: "parse_certification_bundle bundle_json = Inr b"
    unfolding made_json b_def [symmetric] by (rule bundle_read_back [OF ok(1-3)])
  let ?load = "load_certification_bundle ed bundle_json ?policy"
  let ?profiles = "load_profile_set (utf8 (bpi_scheme_profile_set_json inp))
        \<lparr>policy_mode = (if bpi_bundle_class inp = BundleTesting then ModeTest else mode),
         policy_signature_status = SignatureVerified, policy_installed_version = installed,
         policy_candidate_version = bpi_rollback_counter inp, policy_evaluation_date = date\<rparr>"
  have anchor_fits: "length (trust_anchors_json [a]) \<le> MAX_CERTIFICATION_BUNDLE_BYTES"
    using ok(4) laws m(4) by (intro anchors_length)
      (simp_all add: anchor_ok_def a_def provisioned_anchor_def Let_def hex_text_length sha256_length signature_laws_def)
  have anchors_ok: "parse_trust_anchors anchors_json = Inr [a]"
    unfolding anchors a_def [symmetric] by (intro anchors_read_back ok(4,5) anchor_fits)
  have "(\<exists>l. ?load = Inr l \<and> lcb_bundle l = b \<and> lcb_profile_set l = ps) \<longleftrightarrow> ?profiles = Inr ps"
    if size: "length bundle_json \<le> MAX_CERTIFICATION_BUNDLE_BYTES" for ps
  proof -
    have "bundle_json \<noteq> []" by (simp add: made_json certification_bundle_json_def)
    moreover have "bundle_current ?policy b" using current by (simp add: bundle_current_def b)
    moreover have "signed_by_anchor ed ?policy b (sha256 (payload_canonical_json (cb_payload b)))"
      using ok(6) [of mode installed date] current(4) by simp
    ultimately show ?thesis
      unfolding bundle_accepted using parsed size ok(7) ok(8) [of ?policy] by (simp add: b)
  qed
  moreover have "lcb_bundle l = b" if "?load = Inr l" for l
    using bundle_accepted [of ed bundle_json ?policy "lcb_bundle l" "lcb_profile_set l"] that parsed by auto
  ultimately have "(\<exists>l. ?load = Inr l) \<longleftrightarrow> (\<exists>ps. ?profiles = Inr ps)"
    if "length bundle_json \<le> MAX_CERTIFICATION_BUNDLE_BYTES" using that by metis
  moreover have "?load = Inl LengthOverflow" if "\<not> length bundle_json \<le> MAX_CERTIFICATION_BUNDLE_BYTES"
    using that by (simp add: load_certification_bundle_def)
  ultimately show ?thesis using anchors_ok by (intro exI [of _ "[a]"]) simp
qed

text \<open>A signature scheme with the laws: a signature repeats its key.\<close>

definition sample_ed25519 :: "bytes ed25519" where
  "sample_ed25519 = \<lparr>ed_key_of_bytes = (\<lambda>bs. if length bs = 32 then Some bs else None), ed_key_bytes = (\<lambda>key. key),
     ed_verify = (\<lambda>key message signature. signature = key @ key), ed_verifying_key = (\<lambda>secret. secret),
     ed_sign = (\<lambda>secret message. secret @ secret)\<rparr>"

text \<open>Inputs from which a bundle is made; the hashes in it stay as they are.\<close>

definition sample_input :: bundle_provisioning_input where
  "sample_input =
     \<lparr>bpi_bundle_id = ''bundle-7'', bpi_bundle_version = 1, bpi_rollback_counter = 7,
      bpi_bundle_class = BundleCertification, bpi_created = EmvDate 26 6 1, bpi_product_name = ''reader'',
      bpi_product_version = ''1.0'', bpi_certification_target = ''contact'', bpi_interfaces = ''contact,contactless'',
      bpi_authorities = ''lab'', bpi_emv_contact_version = ''4.4'', bpi_emv_contactless_kernel = ''C-8'',
      bpi_bulletins_included = ''SB-1, SB-2'', bpi_bulletins_excluded = [], bpi_terminal_type = ''22'',
      bpi_device_model = ''model'', bpi_firmware_version = ''2.1'', bpi_l1_approval_reference = ''L1-9'',
      bpi_pci_pts_reference = ''PTS-6'', bpi_kernel_profile_id = ''kernel-8'', bpi_kernel_interface = ''contactless'',
      bpi_kernel_algorithm = ''c8'', bpi_c8_package = ''package'', bpi_scheme_scope = ''scheme'',
      bpi_vector_class = ''unit'', bpi_signer_id = ''signer'', bpi_signing_private_key_hex = None,
      bpi_trust_not_after = Some (EmvDate 27 12 31), bpi_callback_timeouts = None,
      bpi_scheme_profile_set_json = ''{}'', bpi_vector_bundle_json = ''[]''\<rparr>"

lemma sample_clean: "inputs_clean sample_input" by code_simp

lemma sample_checks:
  "validate_identifier (bpi_bundle_id sample_input) = Inr () \<and>
   validate_callback_timeouts callback_timeouts_defaults = Inr () \<and>
   validate_hex_len DEFAULT_FIXTURE_SIGNING_PRIVATE_KEY_HEX 32 = Inr () \<and>
   signing_key_from_hex DEFAULT_FIXTURE_SIGNING_PRIVATE_KEY_HEX = Inr [0x00, 0x11, 0x22, 0x33, 0x44, 0x55, 0x66, 0x77, 0x88, 0x99, 0xaa, 0xbb, 0xcc, 0xdd, 0xee, 0xff, 0x00, 0x11, 0x22, 0x33, 0x44, 0x55, 0x66, 0x77, 0x88, 0x99, 0xaa, 0xbb, 0xcc, 0xdd, 0xee, 0xff]"
  by code_simp

lemma sample_csv: "csv_items (bpi_interfaces sample_input) = [''contact'', ''contactless'']" "csv_items (bpi_authorities sample_input) = [''lab'']"
   "csv_items (bpi_bulletins_included sample_input) = [''SB-1'', ''SB-2'']" "csv_items (bpi_bulletins_excluded sample_input) = []" "csv_items (bpi_scheme_scope sample_input) = [''scheme'']"
  by code_simp+

lemma sample_sets: "list_all (\<lambda>vs. validate_non_empty_set vs = Inr ()) [[''contact'', ''contactless''], [''lab''],
    [''SB-1'', ''SB-2''], [''scheme''], [''CERT-OPEN-002'', ''CERT-OPEN-003''], [''CERT-OPEN-004'', ''CERT-OPEN-012'']] \<and>
    list_all (\<lambda>v. validate_identifier v = Inr ()) [''kernel-8'', ''scheme_profile_set_json'', ''vector_bundle_json''] \<and>
    list_all (\<lambda>v. reject_blank v = Inr ()) [''c8'', ''package''] \<and> reject_duplicates [] = Inr ()"
  by code_simp

lemma sample_json: "json_parse (utf8 ''{}'') = Inr (JsonObject []) \<and> json_parse (utf8 ''[]'') = Inr (JsonArray []) \<and>
   length (utf8 ''{}'') = 2 \<and> length (utf8 ''[]'') = 2"
  by code_simp

lemmas sample_csv_input = sample_csv [unfolded sample_input_def bundle_provisioning_input.simps]

lemma sample_payload_made:
  "\<exists>p. provisioned_payload sample_input callback_timeouts_defaults = Inr p \<and> validate_payload p = Inr ()"
proof -
  note sets = sample_sets [unfolded list.pred_inject]
  have hash: "check_artifact_hash \<lparr>ahb_artifact_id = n, ahb_artifact_kind = k, ahb_sha256_hex = hex_text (sha256 m), ahb_binds_open_issues = vs\<rparr> = Inr ()"
    if "validate_identifier n = Inr ()" "validate_non_empty_set vs = Inr ()" for n k m vs
    using that hex_text_hex [of "sha256 m"] sha256_length [of m]
    by (force simp: check_artifact_hash_def clean_hex_def)
  show ?thesis
    using sets sample_checks sample_json
    by (simp add: provisioned_payload_def split_csv_def split_csv_allow_empty_def sample_csv_input hash
        validate_payload_def bounded_len_def check_registration_def validate_known_interface_def
        sample_input_def MAX_BUNDLE_COLLECTION_ITEMS_def MAX_EMBEDDED_PROFILE_BYTES_def)
qed

lemma sample_payload_length:
  assumes "provisioned_payload sample_input callback_timeouts_defaults = Inr p"
  shows "length (payload_canonical_json p) \<le> 20000"
proof -
  have hex: "length (push_json_escaped (hex_text (sha256 m))) \<le> 384" for m
    using escaped_length [of "hex_text (sha256 m)"] by (simp add: hex_text_length sha256_length)
  have lengths: "list_all (\<lambda>v. length (push_json_escaped v) = length v) [
    ''reader'', ''1.0'', ''contact'', ''contactless'', ''lab'', ''4.4'', ''C-8'', ''SB-1'', ''SB-2'', ''22'',
    ''model'', ''2.1'', ''L1-9'', ''PTS-6'', ''terminal-nonvolatile-counter-required'',
    ''mask-pan-track-equivalent-cryptogram-pin-and-sensitive-tlv'', ''kernel-8'', ''c8'', ''package'', ''scheme'',
    ''baseline-cvm-extension-data'', ''1E'', ''signature-or-cdcvm-as-authority-profiled'', ''0000000000'',
    ''CERT-DATA-0001'', ''unit'', ''bundle-loads-and-profile-validates'',
    ''masked-apdu-trace-required-for-submission'', ''scheme_profile_set_json'', ''scheme-profile'',
    ''CERT-OPEN-002'', ''CERT-OPEN-003'', ''vector_bundle_json'', ''test-vectors'', ''CERT-OPEN-004'',
    ''CERT-OPEN-012'', ''{}'', ''[]'']" by code_simp
  have sizes: "list_all (\<lambda>(n, v). length (push_json_escaped v) = n) [
    (6, ''reader''), (3, ''1.0''), (7, ''contact''), (11, ''contactless''), (3, ''lab''), (3, ''4.4''), (3, ''C-8''),
    (4, ''SB-1''), (4, ''SB-2''), (2, ''22''), (5, ''model''), (3, ''2.1''), (4, ''L1-9''), (5, ''PTS-6''),
    (37, ''terminal-nonvolatile-counter-required''),
    (58, ''mask-pan-track-equivalent-cryptogram-pin-and-sensitive-tlv''), (8, ''kernel-8''), (2, ''c8''),
    (7, ''package''), (6, ''scheme''), (27, ''baseline-cvm-extension-data''), (2, ''1E''),
    (40, ''signature-or-cdcvm-as-authority-profiled''), (10, ''0000000000''), (14, ''CERT-DATA-0001''),
    (4, ''unit''), (34, ''bundle-loads-and-profile-validates''), (41, ''masked-apdu-trace-required-for-submission''),
    (23, ''scheme_profile_set_json''), (14, ''scheme-profile''), (13, ''CERT-OPEN-002''), (13, ''CERT-OPEN-003''),
    (18, ''vector_bundle_json''), (12, ''test-vectors''), (13, ''CERT-OPEN-004''), (13, ''CERT-OPEN-012''),
    (2, ''{}''), (2, ''[]'')]"
    by (simp add: lengths [unfolded list.pred_inject])
  have timeouts: "length (callback_timeouts_json callback_timeouts_defaults) \<le> 1000"
    by (simp add: callback_timeouts_json_def callback_timeouts_defaults_def push_json_number_def ascii_def
        as_u64_of_i32_def decimal.simps)
  note sizes = sizes [unfolded list.pred_inject prod.case]
  note writers = push_text_length push_bool_def push_json_array_def push_member_def ascii_def join_def
  have p: "cbp_submission_scope p = \<lparr>ss_product_name = ''reader'', ss_product_version = ''1.0'',
        ss_certification_target = ''contact'', ss_interfaces = [''contact'', ''contactless''], ss_authorities = [''lab'']\<rparr>"
    "cbp_standards_target p = \<lparr>stt_emv_contact_version = ''4.4'', stt_emv_contactless_kernel = ''C-8'',
        stt_bulletins_included = [''SB-1'', ''SB-2''], stt_bulletins_excluded = []\<rparr>"
    "cbp_terminal_profile p = \<lparr>tp_terminal_type = ''22'', tp_device_model = ''model'', tp_firmware_version = ''2.1'',
        tp_l1_approval_reference = ''L1-9'', tp_pci_pts_reference = ''PTS-6'',
        tp_supported_interfaces = [''contact'', ''contactless'']\<rparr>"
    "cbp_runtime_policy p = \<lparr>rp_callback_timeouts = callback_timeouts_defaults,
        rp_offline_counter_persistence = ''terminal-nonvolatile-counter-required'',
        rp_trace_masking_policy = ''mask-pan-track-equivalent-cryptogram-pin-and-sensitive-tlv''\<rparr>"
    "cbp_kernel_registry p = [\<lparr>kr_kernel_profile_id = ''kernel-8'', kr_interface = ''contactless'',
        kr_algorithm = ''c8'', kr_c8_package = ''package'', kr_scheme_scope = [''scheme'']\<rparr>]"
    "cbp_cvm_extensions p = [\<lparr>ce_rule_id = ''baseline-cvm-extension-data'', ce_scheme_scope = [''scheme''],
        ce_cvm_code_hex = ''1E'', ce_meaning = ''signature-or-cdcvm-as-authority-profiled'',
        ce_tvr_on_failure_hex = ''0000000000'', ce_continue_on_failure = True\<rparr>]"
    "cbp_test_plan p = [\<lparr>ctc_case_id = ''CERT-DATA-0001'', ctc_vector_class = ''unit'',
        ctc_expected_outcome = ''bundle-loads-and-profile-validates'',
        ctc_trace_requirement = ''masked-apdu-trace-required-for-submission''\<rparr>]"
    "cbp_artifact_hashes p = [\<lparr>ahb_artifact_id = ''scheme_profile_set_json'', ahb_artifact_kind = ''scheme-profile'',
        ahb_sha256_hex = hex_text (sha256 (utf8 ''{}'')), ahb_binds_open_issues = [''CERT-OPEN-002'', ''CERT-OPEN-003'']\<rparr>,
       \<lparr>ahb_artifact_id = ''vector_bundle_json'', ahb_artifact_kind = ''test-vectors'',
        ahb_sha256_hex = hex_text (sha256 (utf8 ''[]'')), ahb_binds_open_issues = [''CERT-OPEN-004'', ''CERT-OPEN-012'']\<rparr>]"
    "cbp_scheme_profile_set_json p = ''{}''" "cbp_vector_bundle_json p = ''[]''"
    using assms sample_sets [unfolded list.pred_inject]
    by (auto simp: provisioned_payload_def split_csv_def split_csv_allow_empty_def sample_csv_input sample_input_def)
  have "length (submission_scope_json (cbp_submission_scope p)) \<le> 1000"
    "length (standards_target_json (cbp_standards_target p)) \<le> 1000"
    "length (terminal_profile_json (cbp_terminal_profile p)) \<le> 1000"
    "length (runtime_policy_json (cbp_runtime_policy p)) \<le> 2000"
    "length (array_json kernel_registration_json (cbp_kernel_registry p)) \<le> 1000"
    "length (array_json cvm_extension_json (cbp_cvm_extensions p)) \<le> 1000"
    "length (array_json test_case_json (cbp_test_plan p)) \<le> 1000"
    using timeouts
    by (simp_all add: p sizes writers submission_scope_json_def standards_target_json_def terminal_profile_json_def
        runtime_policy_json_def kernel_registration_json_def cvm_extension_json_def test_case_json_def array_json_def)
  moreover have "length (array_json artifact_hash_json (cbp_artifact_hashes p)) \<le> 2000"
    using hex [of "utf8 ''{}''"] hex [of "utf8 ''[]''"]
    by (simp add: p sizes writers artifact_hash_json_def array_json_def)
  ultimately show ?thesis
    by (simp add: payload_canonical_json_def p(9,10) sizes push_text_length push_member_def ascii_def)
qed

lemma sample_bundle_length:
  assumes "provisioned_payload sample_input callback_timeouts_defaults = Inr p" "length secret = 32"
  shows "length (certification_bundle_json (signed_bundle sample_ed25519 sample_input p secret)) \<le> MAX_CERTIFICATION_BUNDLE_BYTES"
proof -
  have hex: "length (push_json_escaped (hex_text bs)) \<le> 12 * length bs" for bs
    using escaped_length [of "hex_text bs"] by (simp add: hex_text_length)
  have lengths: "list_all (\<lambda>v. length (push_json_escaped v) = length v) [''hyperion-certification-bundle-1.0'', ''bundle-7'',
     ''CERTIFICATION'', ''2026-06-01'', ''hyperion-ed25519-sha256-v1'', ''signer'']" by code_simp
  note payload = sample_payload_length [OF assms(1)]
  have date: "format_date (EmvDate 26 6 1) = ''2026-06-01''" by code_simp
  have nums: "length (decimal 1) = 1 \<and> length (decimal 7) = 1" by code_simp
  show ?thesis
    using payload hex [of "sha256 (payload_canonical_json p)"] hex [of "sha256 secret"] hex [of "secret @ secret"] assms(2)
     hex [of "sha256 (utf8 (hex_text (secret @ secret)))"] lengths [unfolded list.pred_inject] nums
    by (simp add: certification_bundle_json_def signed_bundle_def Let_def push_text_length push_member_def push_json_number_def ascii_def
       signature_json_def signature_ed25519_hex_def sample_ed25519_def sha256_length sample_input_def date
       CERTIFICATION_BUNDLE_SCHEMA_VERSION_def CERTIFICATION_BUNDLE_SIGNATURE_ALGORITHM_def MAX_CERTIFICATION_BUNDLE_BYTES_def)
qed

lemma sample_made:
  obtains p secret where "provisioned_payload sample_input callback_timeouts_defaults = Inr p" "length secret = 32"
    "create_bundle_from_inputs sample_ed25519 sample_input =
       Inr (certification_bundle_json (signed_bundle sample_ed25519 sample_input p secret),
            trust_anchors_json [provisioned_anchor sample_ed25519 sample_input p secret])"
proof -
  obtain p where p: "provisioned_payload sample_input callback_timeouts_defaults = Inr p" "validate_payload p = Inr ()"
    using sample_payload_made by blast
  obtain secret where secret: "signing_key_from_hex DEFAULT_FIXTURE_SIGNING_PRIVATE_KEY_HEX = Inr secret" "length secret = 32"
    using sample_checks by simp
  have none: "bpi_callback_timeouts sample_input = None" "bpi_signing_private_key_hex sample_input = None"
    by (simp_all add: sample_input_def)
  show ?thesis
    using sample_checks p secret by (intro that [OF p(1) secret(2)]) (simp add: create_bundle_from_inputs_def none)
qed

section \<open>Properties\<close>

text \<open>C21: A bundle that is made is admitted by what is made with it, if it is not too long: when signatures
  verify, a bundle that was made from clean inputs meets, in every mode that takes its class, on every
  day from its creation to the end of its trust anchor and over every lower installed counter, trust
  anchors that are read back from the text written beside it, and then loads exactly when its profile
  set does.  That holds for a bundle of at most 4 MiB.  Making a bundle does not look at the length of
  what it writes, and clean inputs do not bound it (two embedded texts of 1 MiB, which are allowed, may
  double when they are escaped): a longer bundle is made all the same and then refused as too long.\<close>

theorem provisioned_bundle_loads:
  assumes "signature_laws ed"
  shows "case create_bundle_from_inputs ed inp of
     Inl _ \<Rightarrow> True
   | Inr (bundle_json, anchors_json) \<Rightarrow>
       if inputs_clean inp \<and> bpi_created inp \<le> date \<and> installed < bpi_rollback_counter inp \<and>
          (mode = ModeTest \<or> bpi_bundle_class inp = BundleCertification) \<and>
          (case bpi_trust_not_after inp of Some d \<Rightarrow> date \<le> d | None \<Rightarrow> True)
       then \<exists>anchors. parse_trust_anchors anchors_json = Inr anchors \<and>
          (if length bundle_json \<le> MAX_CERTIFICATION_BUNDLE_BYTES
           then (\<exists>l. load_certification_bundle ed bundle_json \<lparr>blp_mode = mode, blp_installed_rollback_counter = installed,
                   blp_evaluation_date = date, blp_trust_anchors = anchors\<rparr> = Inr l) \<longleftrightarrow>
                (\<exists>ps. load_profile_set (utf8 (bpi_scheme_profile_set_json inp))
                   \<lparr>policy_mode = (if bpi_bundle_class inp = BundleTesting then ModeTest else mode),
                    policy_signature_status = SignatureVerified, policy_installed_version = installed,
                    policy_candidate_version = bpi_rollback_counter inp, policy_evaluation_date = date\<rparr> = Inr ps)
           else load_certification_bundle ed bundle_json \<lparr>blp_mode = mode, blp_installed_rollback_counter = installed,
                   blp_evaluation_date = date, blp_trust_anchors = anchors\<rparr> = Inl LengthOverflow)
       else True"
proof (cases "create_bundle_from_inputs ed inp")
  case (Inr made)
  then obtain b a where m: "create_bundle_from_inputs ed inp = Inr (b, a)" by (cases made) simp
  show ?thesis unfolding m sum.case prod.case
    by (rule if_condI) (rule made_bundle_admitted [OF assms m]; blast)
qed simp

theorem provisioned_bundle_loads_witness:
  "signature_laws sample_ed25519 \<and>
   (\<exists>bundle_json anchors_json anchors.
      create_bundle_from_inputs sample_ed25519 sample_input = Inr (bundle_json, anchors_json) \<and>
      parse_trust_anchors anchors_json = Inr anchors \<and>
      ((\<exists>l. load_certification_bundle sample_ed25519 bundle_json
          \<lparr>blp_mode = ModeCertification, blp_installed_rollback_counter = 3,
           blp_evaluation_date = EmvDate 26 6 30, blp_trust_anchors = anchors\<rparr> = Inr l) \<longleftrightarrow>
       (\<exists>ps. load_profile_set (utf8 ''{}'')
          \<lparr>policy_mode = ModeCertification, policy_signature_status = SignatureVerified, policy_installed_version = 3,
           policy_candidate_version = 7, policy_evaluation_date = EmvDate 26 6 30\<rparr> = Inr ps)))"
proof -
  have laws: "signature_laws sample_ed25519" by (simp add: signature_laws_def sample_ed25519_def)
  obtain p secret where made: "provisioned_payload sample_input callback_timeouts_defaults = Inr p" "length secret = 32"
    "create_bundle_from_inputs sample_ed25519 sample_input =
       Inr (certification_bundle_json (signed_bundle sample_ed25519 sample_input p secret),
            trust_anchors_json [provisioned_anchor sample_ed25519 sample_input p secret])" by (rule sample_made)
  have dates: "EmvDate 26 6 1 \<le> EmvDate 26 6 30 \<and> EmvDate 26 6 30 \<le> EmvDate 27 12 31" by code_simp
  have "bpi_created sample_input = EmvDate 26 6 1" "bpi_rollback_counter sample_input = 7"
    "bpi_bundle_class sample_input = BundleCertification" "bpi_trust_not_after sample_input = Some (EmvDate 27 12 31)"
    "bpi_scheme_profile_set_json sample_input = ''{}''" by (simp_all add: sample_input_def)
  then show ?thesis
    using provisioned_bundle_loads [OF laws, of sample_input "EmvDate 26 6 30" 3 ModeCertification]
      sample_bundle_length [OF made(1,2)] made(3) sample_clean dates laws by auto
qed

end
