(* ===== verification/Emv_Session.thy ===== *)
theory Emv_Session
  imports Emv_Abi Emv_Bundle_Json
begin

text \<open>
  Sequences of calls of the C interface.  \<open>perform_call\<close> is one call on a handle, its code and the
  handle it leaves; \<open>perform_calls\<close> a session.  What holds of the context between calls is proved once
  per kind of entry point and rests on what the operations of \<open>src/src/ffi.rs\<close> keep.
\<close>

section \<open>Calls\<close>

datatype 'w abi_call =
    CallReset
  | CallSetTransactionParams "krn_txn_params option"
  | CallSetTerminalCapabilities byte byte byte
  | CallSetAdditionalTerminalCapabilities byte byte byte byte byte
  | CallSetTerminalTransactionQualifiers byte byte byte byte
  | CallSetNonvolatileOfflineCounter u16
  | CallSetTrmRandomSelectionSample u16
  | CallSetCvmCapabilities byte byte byte
  | CallSetOfflinePinCapability byte
  | CallSetOfflinePinHandle byte u64
  | CallLoadProfilesVerified "bytes option" nat u64 u64 byte byte byte
  | CallLoadCertificationBundle "bytes option" nat "bytes option" nat u64 byte byte byte
  | CallRunTransaction
  | CallApplyHostResponse "bytes option" nat
  | CallProcessIssuerAuthentication
  | CallProcessIssuerScripts
  | CallProcessPostFinalIssuerScripts
  | CallProcessFinalGenerateAc
  | CallBuildSelectEnvironment bool out_buffer
  | CallBuildGenerateAc byte "bytes option" nat byte out_buffer
  | CallBuildInternalAuthenticate "bytes option" nat out_buffer
  | CallGetOnlineAuthorizationData out_buffer
  | CallGetProfileSha256 out_buffer
  | CallGetIssuerScriptResult nat bool bool
  | CallGetIssuerScriptResultPhase nat bool
  | CallGetIssuerScriptResultPosition nat bool bool
  | CallGetIssuerScriptResultIdentifier nat out_buffer
  | CallGetProfileVersion bool
  | CallSetContactlessOutcomeCallback "(krn_contactless_outcome \<Rightarrow> nat \<Rightarrow> 'w \<Rightarrow> 'w) option" nat
  | CallEmitContactlessOutcome raw_contactless_outcome_args
  | CallGetLastError
  | CallGetFsmState
  | CallGetFinalOutcome
  | CallGetIssuerScriptResultCount
  | CallGetCertificationBundleSha256 out_buffer
  | CallGetContextCallbackTimeoutPolicy "krn_callback_timeout_policy option"

definition code_and_handle :: "int \<times> 'w handle \<times> 'o \<Rightarrow> int \<times> 'w handle" where
  "code_and_handle r = (case r of (code, handle, out) \<Rightarrow> (code, handle))"

fun perform_call :: "'k ed25519 \<Rightarrow> ('w \<Rightarrow> nat) \<Rightarrow> 'w abi_call \<Rightarrow> 'w handle \<Rightarrow> int \<times> 'w handle" where
  "perform_call ed clock CallReset h = code_and_handle (krn_reset h)"
| "perform_call ed clock (CallSetTransactionParams params) h = code_and_handle (krn_set_transaction_params params h)"
| "perform_call ed clock (CallSetTerminalCapabilities b1 b2 b3) h = code_and_handle (krn_set_terminal_capabilities b1 b2 b3 h)"
| "perform_call ed clock (CallSetAdditionalTerminalCapabilities b1 b2 b3 b4 b5) h =
     code_and_handle (krn_set_additional_terminal_capabilities b1 b2 b3 b4 b5 h)"
| "perform_call ed clock (CallSetTerminalTransactionQualifiers b1 b2 b3 b4) h =
     code_and_handle (krn_set_terminal_transaction_qualifiers b1 b2 b3 b4 h)"
| "perform_call ed clock (CallSetNonvolatileOfflineCounter n) h = code_and_handle (krn_set_nonvolatile_offline_counter n h)"
| "perform_call ed clock (CallSetTrmRandomSelectionSample n) h = code_and_handle (krn_set_trm_random_selection_sample n h)"
| "perform_call ed clock (CallSetCvmCapabilities pin signature cdcvm) h =
     code_and_handle (krn_set_cvm_capabilities pin signature cdcvm h)"
| "perform_call ed clock (CallSetOfflinePinCapability pin) h = code_and_handle (krn_set_offline_pin_capability pin h)"
| "perform_call ed clock (CallSetOfflinePinHandle method pin) h = code_and_handle (krn_set_offline_pin_handle method pin h)"
| "perform_call ed clock (CallLoadProfilesVerified json len installed candidate year month day) h =
     code_and_handle (krn_load_profiles_verified json len installed candidate year month day h)"
| "perform_call ed clock (CallLoadCertificationBundle json len trust trust_len installed year month day) h =
     code_and_handle (krn_load_certification_bundle_verified ed json len trust trust_len installed year month day h)"
| "perform_call ed clock CallRunTransaction h = krn_run_transaction clock h"
| "perform_call ed clock (CallApplyHostResponse response len) h = code_and_handle (krn_apply_host_response response len h)"
| "perform_call ed clock CallProcessIssuerAuthentication h = code_and_handle (krn_process_issuer_authentication h)"
| "perform_call ed clock CallProcessIssuerScripts h = code_and_handle (krn_process_issuer_scripts h)"
| "perform_call ed clock CallProcessPostFinalIssuerScripts h = code_and_handle (krn_process_post_final_issuer_scripts h)"
| "perform_call ed clock CallProcessFinalGenerateAc h = code_and_handle (krn_process_final_generate_ac h)"
| "perform_call ed clock (CallBuildSelectEnvironment contactless out) h =
     code_and_handle (krn_build_select_environment contactless out h)"
| "perform_call ed clock (CallBuildGenerateAc request vs len cda out) h =
     code_and_handle (krn_build_generate_ac request vs len cda out h)"
| "perform_call ed clock (CallBuildInternalAuthenticate vs len out) h =
     code_and_handle (krn_build_internal_authenticate vs len out h)"
| "perform_call ed clock (CallGetOnlineAuthorizationData out) h = code_and_handle (krn_get_online_authorization_data out h)"
| "perform_call ed clock (CallGetProfileSha256 out) h = code_and_handle (krn_get_profile_sha256 out h)"
| "perform_call ed clock (CallGetIssuerScriptResult n p1 p2) h = code_and_handle (krn_get_issuer_script_result n p1 p2 h)"
| "perform_call ed clock (CallGetIssuerScriptResultPhase n p) h = code_and_handle (krn_get_issuer_script_result_phase n p h)"
| "perform_call ed clock (CallGetIssuerScriptResultPosition n p1 p2) h =
     code_and_handle (krn_get_issuer_script_result_position n p1 p2 h)"
| "perform_call ed clock (CallGetIssuerScriptResultIdentifier n out) h =
     code_and_handle (krn_get_issuer_script_result_identifier n out h)"
| "perform_call ed clock (CallGetProfileVersion p) h = code_and_handle (krn_get_profile_version p h)"
| "perform_call ed clock (CallSetContactlessOutcomeCallback callback user) h =
     code_and_handle (krn_set_contactless_outcome_callback callback user h)"
| "perform_call ed clock (CallEmitContactlessOutcome args) h = code_and_handle (krn_emit_contactless_outcome args h)"
| "perform_call ed clock CallGetLastError h = (krn_get_last_error h, h)"
| "perform_call ed clock CallGetFsmState h = (int (krn_get_fsm_state h), h)"
| "perform_call ed clock CallGetFinalOutcome h = (krn_get_final_outcome h, h)"
| "perform_call ed clock CallGetIssuerScriptResultCount h = (int (krn_get_issuer_script_result_count h), h)"
| "perform_call ed clock (CallGetCertificationBundleSha256 out) h = (fst (krn_get_certification_bundle_sha256 out h), h)"
| "perform_call ed clock (CallGetContextCallbackTimeoutPolicy out) h =
     (fst (krn_get_context_callback_timeout_policy h out), h)"

definition perform_calls :: "'k ed25519 \<Rightarrow> ('w \<Rightarrow> nat) \<Rightarrow> 'w abi_call list \<Rightarrow> 'w handle \<Rightarrow> 'w handle" where
  "perform_calls ed clock calls h = fold (\<lambda>c h. snd (perform_call ed clock c h)) calls h"

lemma perform_calls_Nil: "perform_calls ed clock [] h = h"
  and perform_calls_Cons: "perform_calls ed clock (c # calls) h = perform_calls ed clock calls (snd (perform_call ed clock c h))"
  by (simp_all add: perform_calls_def)

lemmas entry_defs =
  krn_reset_def krn_set_transaction_params_def krn_set_terminal_capabilities_def
  krn_set_additional_terminal_capabilities_def krn_set_terminal_transaction_qualifiers_def
  krn_set_nonvolatile_offline_counter_def krn_set_trm_random_selection_sample_def krn_set_cvm_capabilities_def
  krn_set_offline_pin_capability_def krn_set_offline_pin_handle_def krn_load_profiles_verified_def
  krn_load_certification_bundle_verified_def
  krn_apply_host_response_def krn_process_issuer_authentication_def krn_process_issuer_scripts_def
  krn_process_post_final_issuer_scripts_def krn_process_final_generate_ac_def krn_build_select_environment_def
  krn_build_generate_ac_def krn_build_internal_authenticate_def krn_get_online_authorization_data_def
  krn_get_profile_sha256_def krn_get_issuer_script_result_def krn_get_issuer_script_result_phase_def
  krn_get_issuer_script_result_position_def krn_get_issuer_script_result_identifier_def
  krn_get_profile_version_def krn_set_contactless_outcome_callback_def krn_emit_contactless_outcome_def

text \<open>
  Six entry points read the context through a shared reference; they do not look whether an operation
  is running.  All others do.
\<close>

fun guarded_call :: "'w abi_call \<Rightarrow> bool" where
  "guarded_call CallGetLastError = False"
| "guarded_call CallGetFsmState = False"
| "guarded_call CallGetFinalOutcome = False"
| "guarded_call CallGetIssuerScriptResultCount = False"
| "guarded_call (CallGetCertificationBundleSha256 out) = False"
| "guarded_call (CallGetContextCallbackTimeoutPolicy out) = False"
| "guarded_call _ = True"

text \<open>What a call on the null handle returns; the timeout policy is then the default one.\<close>

fun null_answer :: "'w abi_call \<Rightarrow> int" where
  "null_answer CallRunTransaction = outcome_code OutcomeError"
| "null_answer CallGetFinalOutcome = outcome_code OutcomeError"
| "null_answer CallGetFsmState = int (fsm_state_code Se)"
| "null_answer CallGetIssuerScriptResultCount = 0"
| "null_answer (CallGetContextCallbackTimeoutPolicy (Some policy)) =
     (if ctp_abi_version policy = KRN_ABI_VERSION \<and> ctp_struct_size policy = KRN_CALLBACK_TIMEOUT_POLICY_SIZE
      then error_code Ok else error_code InvalidArgument)"
| "null_answer _ = error_code InvalidArgument"

lemma unguarded_call: "\<not> guarded_call c \<Longrightarrow> snd (perform_call ed clock c h) = h"
  by (cases c) simp_all

lemma perform_call_null: "perform_call ed clock c None = (null_answer c, None)"
proof (cases c)
  case (CallGetContextCallbackTimeoutPolicy out)
  then show ?thesis by (cases out) (simp_all add: krn_get_context_callback_timeout_policy_def)
qed (simp_all add: entry_defs guarded_def code_and_handle_def krn_run_transaction_def krn_get_last_error_def
  krn_get_fsm_state_def krn_get_final_outcome_def krn_get_issuer_script_result_count_def
  krn_get_certification_bundle_sha256_def)

lemma perform_call_busy:
  "kc_busy ctx \<Longrightarrow> guarded_call c \<Longrightarrow> perform_call ed clock c (Some ctx) =
     (if c = CallRunTransaction then outcome_code OutcomeError else error_code Busy, Some (ctx\<lparr>kc_last_error := Busy\<rparr>))"
  by (cases c) (simp_all add: entry_defs guarded_def code_and_handle_def krn_run_transaction_def mark_reentrant_call_def)

lemma perform_calls_None: "perform_calls ed clock calls None = None"
  by (induction calls) (simp_all add: perform_calls_Nil perform_calls_Cons perform_call_null)

section \<open>What a context keeps between calls\<close>

text \<open>
  A property of the context that the error code does not matter for: an entry point keeps it when
  its operation does.
\<close>

locale context_invariant =
  fixes P :: "'w krn_context \<Rightarrow> bool"
  assumes P_error: "P ctx \<Longrightarrow> P (ctx\<lparr>kc_last_error := e\<rparr>)"
begin

definition kept :: "int \<times> 'w handle \<Rightarrow> bool" where
  "kept r \<longleftrightarrow> (\<exists>ctx. snd r = Some ctx \<and> P ctx)"

lemma kept_guarded:
  assumes "P ctx" and "\<not> kc_busy ctx \<Longrightarrow> P (fst (snd (operation ctx)))"
  shows "kept (code_and_handle (guarded none operation (Some ctx)))"
  using assms P_error
  by (auto simp: kept_def code_and_handle_def guarded_def mark_reentrant_call_def split: prod.split)

lemma kept_recorded:
  "P ctx \<Longrightarrow> (\<not> kc_busy ctx \<Longrightarrow> P (snd (m ctx))) \<Longrightarrow> kept (code_and_handle (guarded none (recorded m) (Some ctx)))"
  by (rule kept_guarded) (auto simp: recorded_def set_result_def P_error split: prod.split sum.split)

lemma kept_same: "P ctx \<Longrightarrow> kept (code, Some ctx)"
  by (simp add: kept_def)

lemma kept_reported: "P ctx \<Longrightarrow> kept (code_and_handle (guarded none (reported f) (Some ctx)))"
  by (rule kept_guarded) (auto simp: reported_def set_result_def P_error split: prod.split sum.split)

end

section \<open>The online part does not go back\<close>

definition no_return :: "'w krn_context \<Rightarrow> 'w krn_context \<Rightarrow> bool" where
  "no_return s t \<longleftrightarrow> loaded_part t = loaded_part s \<and> kc_busy t = kc_busy s \<and>
     (kc_fsm_state t \<in> {S0, S1} \<longrightarrow> kc_fsm_state s \<in> {S0, S1})"

interpretation nr: step_relation no_return
  by unfold_locales (auto simp: no_return_def)

lemma no_return_world: "within only_world m \<Longrightarrow> within no_return m"
  by (erule within_only_world) (simp add: no_return_def)

lemma no_return_transition:
  assumes "event \<notin> {EvFinalOutcomeComplete, EvErrorReset}"
  shows "within no_return (apply_transition event)"
proof -
  have "list_all (\<lambda>((s, e), to_state, action, err).
      e \<notin> {EvFinalOutcomeComplete, EvErrorReset} \<longrightarrow> to_state \<in> {S0, S1} \<longrightarrow> s \<in> {S0, S1}) TRANSITIONS"
    by (simp add: TRANSITIONS_def)
  note row = transition_rows [OF _ this]
  have "no_return s (s\<lparr>kc_fsm_state := tr_to t\<rparr>)" if "transition (kc_fsm_state s) event = Inr t" for s :: "'a krn_context" and t
    using row [OF that] assms by (auto simp: no_return_def)
  then show ?thesis
    by (simp add: within_def apply_transition_def kbind_def kask_def kmod_def nr.R_refl split: sum.split)
qed

lemma no_return_put_card_data: "within no_return (put_card_data tag v)"
  unfolding put_card_data_def by (intro nr.within_rules) (simp add: no_return_def)

lemma no_return_set_kernel_state: "within no_return (set_kernel_state k)"
  unfolding set_kernel_state_def by (intro nr.within_rules) (simp add: no_return_def)

lemma no_return_put: "within no_return put_tvr" "within no_return put_tsi"
  unfolding put_tvr_def put_tsi_def by (intro nr.within_rules no_return_put_card_data)+

lemma no_return_require: "within no_return (require_fsm_state expected)"
  unfolding require_fsm_state_def by (intro nr.within_rules)

lemma no_return_put_optional: "within no_return (put_optional tag v)"
  unfolding put_optional_def by (intro nr.within_rules no_return_put_card_data)

lemma no_return_ignore: "within no_return m \<Longrightarrow> within no_return (ignore_result m)"
  by (simp add: within_def ignore_result_def)

lemma no_return_kmod:
  "(\<And>s. loaded_part (g s) = loaded_part s \<and> kc_busy (g s) = kc_busy s \<and> kc_fsm_state (g s) = kc_fsm_state s) \<Longrightarrow>
     within no_return (kmod g)"
  by (rule nr.within_kmod) (simp add: no_return_def)

lemmas no_return_steps = nr.within_kbind nr.within_kret nr.within_kfail nr.within_klift nr.within_kask
  nr.within_option nr.within_prod nr.within_if no_return_kmod no_return_transition no_return_put_card_data
  no_return_set_kernel_state no_return_put no_return_require no_return_put_optional no_return_ignore
  no_return_world [OF only_world_send]

lemma no_return_host_response: "within no_return (apply_host_response bs)"
  unfolding apply_host_response_def by (intro no_return_steps; simp)

text \<open>When the event was read from the context, only the events it can be matter.\<close>

lemma no_return_kask:
  assumes "\<And>s a. f s = Inr a \<Longrightarrow> within no_return (g a)"
  shows "within no_return (kbind (kask f) g)"
proof (rule withinI)
  fix s r t
  assume run: "kbind (kask f) g s = (r, t)"
  show "no_return s t"
  proof (cases "f s")
    case (Inl e)
    with run show ?thesis by (simp add: kexec nr.R_refl)
  next
    case (Inr a)
    with run have "g a s = (r, t)" by (simp add: kexec)
    then show ?thesis by (rule withinD [OF assms [OF Inr]])
  qed
qed

lemma no_return_issuer_authentication: "within no_return (run_issuer_authentication runtime)"
proof -
  have "event \<notin> {EvFinalOutcomeComplete, EvErrorReset}"
    if "issuer_authentication_event_from_status action t = Inr (event, u)" for action t event u
    using that by (cases action) auto
  then have event: "within no_return (kbind (kask (\<lambda>ctx. issuer_authentication_event_from_status (classify ExternalAuthenticate sw) (kc_tvr ctx)))
      (\<lambda>(event, t). kbind (kmod (\<lambda>ctx. ctx\<lparr>kc_tvr := t\<rparr>)) (\<lambda>_. kbind put_tvr (\<lambda>_. kbind put_tsi (\<lambda>_.
         kbind (apply_transition event) (\<lambda>_. set_kernel_state K_IssuerScripts))))))" for sw
    by (intro no_return_kask) (auto intro!: no_return_steps)
  show ?thesis
    unfolding run_issuer_authentication_def set_tsi_bit_def
    by (intro no_return_steps event) simp
qed

lemma no_return_script_commands:
  "within no_return (run_script_commands runtime phase script_index identifier n commands)"
proof (induction commands arbitrary: n)
  case (Cons command rest)
  show ?case unfolding run_script_commands.simps
    by (auto intro!: no_return_steps Cons split: issuer_script_status.split)
qed (simp add: nr.within_kret)

lemma no_return_one_script: "within no_return (run_one_script runtime n script)"
  unfolding run_one_script_def conclude_script_def store_script_summary_def
  by (intro no_return_steps no_return_script_commands; simp add: Let_def)

lemma no_return_scripts_loop: "within no_return (run_scripts_loop runtime n scripts)"
  by (induction scripts arbitrary: n) (auto intro!: no_return_steps no_return_one_script)

lemma no_return_scripts: "within no_return (run_issuer_scripts_for_phase runtime phase)"
  unfolding run_issuer_scripts_for_phase_def by (intro no_return_steps no_return_scripts_loop) simp

lemma no_return_gac_success:
  "event \<notin> {EvFinalOutcomeComplete, EvErrorReset} \<Longrightarrow> within no_return (require_generate_ac_success sw event)"
  unfolding require_generate_ac_success_def
  by (auto intro!: no_return_steps split: sum.split)

lemma no_return_conclude_final_gac: "within no_return (conclude_final_gac parsed)"
  unfolding conclude_final_gac_def
  by (cases "cryptogram_type_of (gac_cid parsed)") (auto intro!: no_return_steps)

lemma no_return_final_gac: "within no_return (run_final_generate_ac runtime)"
  unfolding run_final_generate_ac_def request_cryptogram_def store_gac_response_def
  by (intro no_return_steps no_return_gac_success no_return_conclude_final_gac; simp)

section \<open>The invariant\<close>

text \<open>Nothing of an earlier transaction is left.\<close>

definition no_leftovers :: "'w krn_context \<Rightarrow> bool" where
  "no_leftovers ctx \<longleftrightarrow> kc_tvr ctx = tvr_cleared \<and> kc_tsi ctx = tsi_cleared \<and> kc_selected_application ctx = None \<and>
     kc_selected_oda_method ctx = None \<and> kc_requested_cryptogram ctx = None \<and> kc_first_gac_response ctx = None \<and>
     kc_final_gac_response ctx = None \<and> kc_final_outcome ctx = None \<and> kc_online_authorization_data ctx = None \<and>
     kc_host_response ctx = None \<and> kc_issuer_script_results ctx = [] \<and> kc_card_data ctx = ds_new \<and>
     kc_offline_auth_records ctx = []"

definition session_ok :: "'w krn_context \<Rightarrow> bool" where
  "session_ok ctx \<longleftrightarrow> \<not> kc_busy ctx \<and> (case kc_profiles ctx of None \<Rightarrow> True | Some p \<Rightarrow> taa_profiles_wf p) \<and>
     (kc_fsm_state ctx \<in> {S0, S1} \<longrightarrow> no_leftovers ctx)"

interpretation so: context_invariant session_ok
  by unfold_locales (simp add: session_ok_def no_leftovers_def)

lemma session_ok_init:
  "krn_init cfg runtime out w = (code, Some ctx) \<Longrightarrow> session_ok ctx \<and> kc_profiles ctx = None"
  by (auto simp: krn_init_def session_ok_def no_leftovers_def krn_context_empty_def split: if_splits sum.splits)


text \<open>The online part needs a state after the first cryptogram.\<close>

lemma online_refused:
  assumes "kc_fsm_state s \<in> {S0, S1}"
  shows "apply_host_response bs s = (Inl InvalidArgument, s)"
    and "run_issuer_authentication runtime s = (Inl InvalidArgument, s)"
    and "run_issuer_scripts runtime s = (Inl InvalidArgument, s)"
    and "run_post_final_issuer_scripts runtime s = (Inl InvalidArgument, s)"
    and "run_final_generate_ac runtime s = (Inl InvalidArgument, s)"
  using assms
  by (auto simp: apply_host_response_def run_issuer_authentication_def run_issuer_scripts_def
      run_post_final_issuer_scripts_def run_issuer_scripts_for_phase_def run_final_generate_ac_def
      require_fsm_state_def kexec)

definition calm :: "('w krn_context, 'a) krn \<Rightarrow> bool" where
  "calm m \<longleftrightarrow> within no_return m \<and> (\<forall>s. kc_fsm_state s \<in> {S0, S1} \<longrightarrow> m s = (Inl InvalidArgument, s))"

lemma calm_online:
  "calm (apply_host_response bs)" "calm (run_issuer_authentication runtime)" "calm (run_issuer_scripts runtime)"
  "calm (run_post_final_issuer_scripts runtime)" "calm (run_final_generate_ac runtime)"
  by (simp_all add: calm_def online_refused no_return_host_response no_return_issuer_authentication
      run_issuer_scripts_def run_post_final_issuer_scripts_def no_return_scripts no_return_final_gac)
    (simp_all add: run_issuer_scripts_for_phase_def require_fsm_state_def kexec)

lemma session_ok_calm:
  assumes ok: "session_ok s" and m: "calm m" and t: "m (s\<lparr>kc_busy := b\<rparr>) = (r, t)"
  shows "session_ok (t\<lparr>kc_busy := False\<rparr>)"
proof (cases "kc_fsm_state s \<in> {S0, S1}")
  case True
  then have "t = s\<lparr>kc_busy := b\<rparr>" using m t by (auto simp: calm_def)
  with ok show ?thesis by (simp add: session_ok_def no_leftovers_def)
next
  case False
  have "within no_return m" using m by (simp add: calm_def)
  then have "no_return (s\<lparr>kc_busy := b\<rparr>) t" using t by (rule withinD)
  with False ok show ?thesis by (auto simp: session_ok_def no_return_def)
qed

lemma session_ok_with_runtime:
  assumes "session_ok s" and "\<And>runtime. calm (operation runtime)"
  shows "session_ok (snd (with_runtime operation s))"
  using assms session_ok_calm [OF assms, of _ True]
  by (auto simp: with_runtime_def while_busy_def split: option.split prod.split)

lemma session_ok_host_response:
  assumes ok: "session_ok s" and idle: "\<not> kc_busy s"
  shows "session_ok (snd (apply_host_response_bytes response len s))"
proof -
  have "session_ok (snd (apply_host_response bs s))" for bs
  proof -
    obtain r t where t: "apply_host_response bs s = (r, t)" by fastforce
    have s: "s\<lparr>kc_busy := False\<rparr> = s" using idle by simp
    have "no_return s t" by (rule withinD [OF no_return_host_response t])
    then have "t\<lparr>kc_busy := False\<rparr> = t" using idle by (simp add: no_return_def)
    with session_ok_calm [OF ok calm_online(1), of bs False r t] t s show ?thesis by simp
  qed
  then show ?thesis
    using ok by (cases "readable_slice response len") (simp_all add: apply_host_response_bytes_def kexec)
qed

lemma session_ok_set_params: "session_ok s \<Longrightarrow> session_ok (snd (set_transaction_params params s))"
  by (cases "read_transaction_params params")
    (simp_all add: set_transaction_params_def kexec transition_eqs session_ok_def no_leftovers_def
      clear_transaction_artifacts_def)

text \<open>A profile set that loads is newer than the installed one, here and as the caller says.\<close>

lemma load_profiles_verified_cases:
  obtains e where "load_profiles_verified json len installed candidate date s = (Inl e, s)"
  | bs profiles where "load_profiles_verified json len installed candidate date s =
        (Inr (), s\<lparr>kc_profile_sha256 := Some (sha256 bs), kc_profiles := Some profiles,
          kc_profile_evaluation_date := Some date\<rparr>)"
      and "readable_slice json len = Inr bs" and "taa_profiles_wf profiles" and "ps_version profiles = candidate"
      and "max installed (case_option 0 ps_version (kc_profiles s)) < ps_version profiles"
proof (cases "readable_slice json len")
  case (Inl e)
  then have "load_profiles_verified json len installed candidate date s = (Inl e, s)"
    by (simp add: load_profiles_verified_def kexec)
  then show ?thesis by (rule that(1))
next
  case (Inr bs)
  let ?policy = "\<lparr>policy_mode = ModeCertification, policy_signature_status = SignatureVerified,
    policy_installed_version = max installed (case_option 0 ps_version (kc_profiles s)),
    policy_candidate_version = candidate, policy_evaluation_date = date\<rparr>"
  show ?thesis
  proof (cases "load_profile_set bs ?policy")
    case (Inl e)
    then have "load_profiles_verified json len installed candidate date s = (Inl e, s)"
      using Inr by (simp add: load_profiles_verified_def kexec)
    then show ?thesis by (rule that(1))
  next
    case (Inr profiles)
    then have "load_profiles_verified json len installed candidate date s =
        (Inr (), s\<lparr>kc_profile_sha256 := Some (sha256 bs), kc_profiles := Some profiles,
          kc_profile_evaluation_date := Some date\<rparr>)"
      using \<open>readable_slice json len = Inr bs\<close> by (simp add: load_profiles_verified_def kexec)
    then show ?thesis
      by (rule that(2))
        (use Inr load_profile_set_wf [OF Inr] \<open>readable_slice json len = Inr bs\<close> in
          \<open>auto simp: loaded_taa_profiles_wf wf_profile_set_def\<close>)
  qed
qed

text \<open>A bundle that loads has a higher counter than the last one, profiles of that version and usable timeouts.\<close>

definition with_bundle :: "loaded_certification_bundle \<Rightarrow> emv_date \<Rightarrow> 'w krn_context \<Rightarrow> 'w krn_context" where
  "with_bundle l date s = s
     \<lparr>kc_profile_sha256 := Some (lcb_scheme_profile_sha256 l), kc_profiles := Some (lcb_profile_set l),
      kc_profile_evaluation_date := Some date, kc_certification_bundle_sha256 := Some (lcb_bundle_sha256 l),
      kc_certification_bundle_payload_sha256 := Some (lcb_payload_sha256 l),
      kc_certification_bundle_rollback_counter := cb_rollback_counter (lcb_bundle l),
      kc_callback_timeouts := rp_callback_timeouts (cbp_runtime_policy (cb_payload (lcb_bundle l)))\<rparr>"

definition bundle_policy :: "u64 \<Rightarrow> emv_date \<Rightarrow> bundle_trust_anchor list \<Rightarrow> 'w krn_context \<Rightarrow> bundle_load_policy" where
  "bundle_policy installed date anchors s =
     \<lparr>blp_mode = ModeCertification,
      blp_installed_rollback_counter = max installed (kc_certification_bundle_rollback_counter s),
      blp_evaluation_date = date, blp_trust_anchors = anchors\<rparr>"

lemma load_certification_bundle_run:
  "load_certification_bundle_verified ed json len trust trust_len installed date s =
     (case rbind (readable_slice json len) (\<lambda>bs. rbind (readable_slice trust trust_len) (\<lambda>ts.
        rbind (parse_trust_anchors ts) (\<lambda>anchors.
          load_certification_bundle ed bs (bundle_policy installed date anchors s)))) of
        Inl e \<Rightarrow> (Inl e, s) | Inr l \<Rightarrow> (Inr (), with_bundle l date s))"
  by (simp add: load_certification_bundle_verified_def kbind_def klift_def kask_def kmod_def rbind_def with_bundle_def
      bundle_policy_def split: sum.split)

lemma loaded_bundle:
  assumes "load_certification_bundle ed bs (bundle_policy installed date anchors s) = Inr l"
  shows "taa_profiles_wf (lcb_profile_set l)" and "ps_version (lcb_profile_set l) = cb_rollback_counter (lcb_bundle l)"
    and "max installed (kc_certification_bundle_rollback_counter s) < cb_rollback_counter (lcb_bundle l)"
    and "callback_timeouts_ok (rp_callback_timeouts (cbp_runtime_policy (cb_payload (lcb_bundle l))))"
proof -
  have "\<exists>m. load_certification_bundle ed bs (bundle_policy installed date anchors s) = Inr m \<and>
      lcb_bundle m = lcb_bundle l \<and> lcb_profile_set m = lcb_profile_set l"
    using assms by blast
  note accepted = this [unfolded bundle_accepted bundle_current_def]
  obtain p where p: "load_profile_set (utf8 (cbp_scheme_profile_set_json (cb_payload (lcb_bundle l)))) p = Inr (lcb_profile_set l)"
      "policy_candidate_version p = cb_rollback_counter (lcb_bundle l)"
    using accepted by auto
  show "taa_profiles_wf (lcb_profile_set l)" by (rule loaded_taa_profiles_wf [OF p(1)])
  show "ps_version (lcb_profile_set l) = cb_rollback_counter (lcb_bundle l)"
    using load_profile_set_wf [OF p(1)] p(2) by (simp add: wf_profile_set_def)
  show "max installed (kc_certification_bundle_rollback_counter s) < cb_rollback_counter (lcb_bundle l)"
    using accepted by (simp add: bundle_policy_def)
  show "callback_timeouts_ok (rp_callback_timeouts (cbp_runtime_policy (cb_payload (lcb_bundle l))))"
    using accepted bundle_ok [of bs "lcb_bundle l"] by (simp add: bundle_ok_def payload_ok_def runtime_policy_ok_def)
qed

lemma load_certification_bundle_cases:
  obtains e where "load_certification_bundle_verified ed json len trust trust_len installed date s = (Inl e, s)"
  | l where "load_certification_bundle_verified ed json len trust trust_len installed date s = (Inr (), with_bundle l date s)"
      and "taa_profiles_wf (lcb_profile_set l)" and "ps_version (lcb_profile_set l) = cb_rollback_counter (lcb_bundle l)"
      and "max installed (kc_certification_bundle_rollback_counter s) < cb_rollback_counter (lcb_bundle l)"
      and "callback_timeouts_ok (rp_callback_timeouts (cbp_runtime_policy (cb_payload (lcb_bundle l))))"
proof (cases "rbind (readable_slice json len) (\<lambda>bs. rbind (readable_slice trust trust_len) (\<lambda>ts.
    rbind (parse_trust_anchors ts) (\<lambda>anchors. load_certification_bundle ed bs (bundle_policy installed date anchors s))))")
  case (Inl e)
  then show ?thesis by (intro that(1) [of e]) (simp add: load_certification_bundle_run)
next
  case (Inr l)
  then obtain bs anchors where "load_certification_bundle ed bs (bundle_policy installed date anchors s) = Inr l"
    by (auto simp: rbind_eq_Inr)
  note loaded = loaded_bundle [OF this]
  show ?thesis by (rule that(2) [OF _ loaded]) (simp add: load_certification_bundle_run Inr)
qed

lemma session_ok_load_bundle:
  assumes "session_ok s"
  shows "session_ok (snd (load_certification_bundle_verified ed json len trust trust_len installed date s))"
  by (rule load_certification_bundle_cases [of ed json len trust trust_len installed date s])
    (use assms in \<open>simp_all add: session_ok_def no_leftovers_def with_bundle_def\<close>)

lemma session_ok_load:
  assumes "session_ok s"
  shows "session_ok (snd (load_profiles_verified json len installed candidate date s))"
  by (rule load_profiles_verified_cases [of json len installed candidate date s])
    (use assms in \<open>simp_all add: session_ok_def no_leftovers_def\<close>)

text \<open>Everything else that an entry changes is none of the invariant's business.\<close>

definition setting :: "'w krn_context \<Rightarrow> 'w krn_context \<Rightarrow> bool" where
  "setting s t \<longleftrightarrow> loaded_part t = loaded_part s \<and> kc_busy t = kc_busy s \<and> kc_fsm_state t = kc_fsm_state s \<and>
     (no_leftovers s \<longrightarrow> no_leftovers t)"

interpretation set: step_relation setting
  by unfold_locales (auto simp: setting_def)

lemma session_ok_setting: "session_ok s \<Longrightarrow> within setting m \<Longrightarrow> session_ok (snd (m s))"
  by (auto simp: within_def setting_def session_ok_def)

lemma setting_emit: "within setting (emit_contactless_outcome args)"
  unfolding emit_contactless_outcome_def
  by (intro set.within_kbind set.within_kask set.within_klift set.within_kmod) (simp add: setting_def no_leftovers_def)

section \<open>A run of the transaction\<close>

lemma outcome_supported_state: "outcome_supported t outcome \<Longrightarrow> kc_fsm_state t \<notin> {S0, S1}"
  by (cases outcome) (auto simp: is_final_outcome_state_def)

lemma run_in_session:
  assumes ok: "session_ok (s\<lparr>kc_busy := False\<rparr>)" and run: "run_transaction clock s = (outcome, t)"
  shows "outcome = OutcomeError \<and> kc_fsm_state t = Se \<and> kc_state t = K_Error \<or> outcome_supported t outcome"
proof (cases "kc_fsm_state s = S1 \<and> kc_profiles s \<noteq> None")
  case True
  with ok obtain profiles where "kc_profiles s = Some profiles" "taa_profiles_wf profiles" "kc_first_gac_response s = None"
    by (auto simp: session_ok_def no_leftovers_def)
  from run_transaction_inner_supported [OF this(3,1,2), of clock] run show ?thesis
    by (auto simp: run_transaction_def kwp_def fail_transaction_def split: prod.splits sum.splits)
next
  case False
  have "\<exists>e. run_transaction clock s = fail_transaction e s"
  proof (cases "kc_fsm_state s = S1")
    case True
    with False have none: "kc_profiles s = None" by simp
    show ?thesis
      by (cases "kc_txn_params s"; cases "kc_runtime s")
        (auto simp: run_transaction_def run_transaction_inner_def kexec none)
  qed (rule run_transaction_elsewhere)
  with run show ?thesis by (auto simp: fail_transaction_def)
qed

lemma session_ok_run:
  assumes ok: "session_ok (s\<lparr>kc_busy := False\<rparr>)" and run: "run_transaction clock s = (outcome, t)"
  shows "session_ok (t\<lparr>kc_busy := False\<rparr>)"
proof -
  have "kc_fsm_state t \<notin> {S0, S1}"
    using run_in_session [OF ok run] by (auto dest: outcome_supported_state)
  moreover have "same_profiles s t" using same_profiles_run [of s clock] by (simp add: run)
  ultimately show ?thesis using ok by (auto simp: session_ok_def same_profiles_def)
qed

section \<open>Every call keeps the invariant\<close>

lemma setting_kmod:
  "(\<And>s. loaded_part (g s) = loaded_part s \<and> kc_busy (g s) = kc_busy s \<and> kc_fsm_state (g s) = kc_fsm_state s \<and>
     (no_leftovers s \<longrightarrow> no_leftovers (g s))) \<Longrightarrow> within setting (kmod g)"
  by (rule set.within_kmod) (simp add: setting_def)

lemmas setting_rules = set.within_kbind set.within_kask set.within_klift set.within_kfail set.within_if setting_kmod

lemma session_ok_perform_call:
  assumes ok: "session_ok ctx"
  shows "so.kept (perform_call ed clock c (Some ctx))"
proof (cases c)
  case CallRunTransaction
  obtain outcome t where run: "run_transaction clock (ctx\<lparr>kc_busy := True\<rparr>) = (outcome, t)" by fastforce
  have "session_ok (ctx\<lparr>kc_busy := True, kc_busy := False\<rparr>)"
    using ok by (simp add: session_ok_def no_leftovers_def)
  from session_ok_run [OF _ run] this ok run show ?thesis
    by (simp add: CallRunTransaction krn_run_transaction_def mark_reentrant_call_def so.kept_def session_ok_def)
next
  case CallReset
  show ?thesis unfolding CallReset perform_call.simps krn_reset_def
    by (rule so.kept_guarded [OF ok])
      (use ok in \<open>simp add: krn_context_reset_def clear_transaction_artifacts_def session_ok_def no_leftovers_def\<close>)
next
  case (CallSetContactlessOutcomeCallback callback user)
  show ?thesis unfolding CallSetContactlessOutcomeCallback perform_call.simps krn_set_contactless_outcome_callback_def
    by (rule so.kept_guarded [OF ok]) (use ok in \<open>simp add: session_ok_def no_leftovers_def\<close>)
qed (simp_all only: perform_call.simps entry_defs expect_parsed_def so.kept_reported [OF ok] so.kept_same [OF ok],
  (rule so.kept_recorded [OF ok];
   (rule session_ok_set_params [OF ok] | rule session_ok_load [OF ok] | rule session_ok_load_bundle [OF ok] | rule session_ok_host_response [OF ok], assumption |
    rule session_ok_setting [OF ok setting_emit] | rule session_ok_with_runtime [OF ok], rule calm_online |
    rule session_ok_setting [OF ok], intro setting_rules; simp add: no_leftovers_def))+)

section \<open>What is loaded\<close>

definition installed_version :: "'w krn_context \<Rightarrow> u64" where
  "installed_version ctx = case_option 0 ps_version (kc_profiles ctx)"

definition loaded_kept :: "'w krn_context \<Rightarrow> 'w krn_context \<Rightarrow> bool" where
  "loaded_kept s t \<longleftrightarrow> loaded_part t = loaded_part s"

interpretation pk: step_relation loaded_kept
  by unfold_locales (simp_all add: loaded_kept_def)

lemma loaded_kept_no_return: "within no_return m \<Longrightarrow> within loaded_kept m"
  and loaded_kept_setting: "within setting m \<Longrightarrow> within loaded_kept m"
  by (simp_all add: within_def no_return_def setting_def loaded_kept_def)

lemma loaded_kept_runtime:
  assumes "\<And>runtime. within no_return (operation runtime)"
  shows "within loaded_kept (with_runtime operation)"
proof (rule withinI)
  fix s r t
  assume run: "with_runtime operation s = (r, t)"
  show "loaded_kept s t"
  proof (cases "kc_runtime s")
    case (Some runtime)
    obtain q u where u: "operation runtime (s\<lparr>kc_busy := True\<rparr>) = (q, u)" by fastforce
    from withinD [OF assms u] run Some u show ?thesis
      by (auto simp: with_runtime_def while_busy_def loaded_kept_def no_return_def)
  qed (use run in \<open>simp add: with_runtime_def loaded_kept_def\<close>)
qed

lemma loaded_kept_online:
  "within loaded_kept (with_runtime run_issuer_authentication)"
  "within loaded_kept (with_runtime run_issuer_scripts)"
  "within loaded_kept (with_runtime run_post_final_issuer_scripts)"
  "within loaded_kept (with_runtime run_final_generate_ac)"
  by (rule loaded_kept_runtime; simp add: no_return_issuer_authentication no_return_scripts
      run_issuer_scripts_def run_post_final_issuer_scripts_def no_return_final_gac)+

lemma loaded_kept_host_response: "within loaded_kept (apply_host_response_bytes response len)"
  unfolding apply_host_response_bytes_def
  by (intro loaded_kept_no_return no_return_steps no_return_host_response)

lemma loaded_kept_set_params: "within loaded_kept (set_transaction_params params)"
  unfolding set_transaction_params_def
  by (intro pk.within_rules) (simp add: loaded_kept_def clear_transaction_artifacts_def)

text \<open>
  A property of what is loaded: it holds after every call when it holds after every load.  \<open>bundles\<close> says
  whether certification bundles are loaded at all.
\<close>

fun loads_bundle :: "'w abi_call \<Rightarrow> bool" where
  "loads_bundle (CallLoadCertificationBundle json len trust trust_len installed year month day) = True"
| "loads_bundle _ = False"

locale load_invariant =
  fixes P :: "'w krn_context \<Rightarrow> bool" and ed :: "'k ed25519" and bundles :: bool
  assumes P_same: "P s \<Longrightarrow> loaded_part t = loaded_part s \<Longrightarrow> P t"
    and P_profiles: "P s \<Longrightarrow> P (snd (load_profiles_verified json len installed candidate date s))"
    and P_bundle: "P s \<Longrightarrow> bundles \<Longrightarrow>
      P (snd (load_certification_bundle_verified ed json len trust trust_len installed date s))"

sublocale load_invariant \<subseteq> context_invariant P
  by unfold_locales (rule P_same; simp)

context load_invariant
begin

lemma P_kept: "P s \<Longrightarrow> within loaded_kept m \<Longrightarrow> P (snd (m s))"
  by (auto simp: within_def loaded_kept_def intro: P_same)

lemma perform_call_keeps:
  assumes v: "P ctx" and b: "bundles \<or> \<not> loads_bundle c"
  shows "kept (perform_call ed clock c (Some ctx))"
proof (cases c)
  case (CallLoadCertificationBundle json len trust trust_len installed year month day)
  with b have bundles by simp
  then show ?thesis
    unfolding CallLoadCertificationBundle perform_call.simps krn_load_certification_bundle_verified_def
    by (intro kept_recorded P_bundle v)
next
  case CallRunTransaction
  have "loaded_part (snd (run_transaction clock (ctx\<lparr>kc_busy := True\<rparr>))) = loaded_part ctx"
    using same_profiles_run [of "ctx\<lparr>kc_busy := True\<rparr>" clock] by (simp add: same_profiles_def)
  with v show ?thesis
    by (auto simp: CallRunTransaction krn_run_transaction_def mark_reentrant_call_def kept_def split: prod.split
        intro: P_same P_error)
next
  case CallReset
  show ?thesis unfolding CallReset perform_call.simps krn_reset_def
    by (rule kept_guarded [OF v]) (simp add: P_same [OF v] krn_context_reset_def clear_transaction_artifacts_def)
next
  case (CallSetContactlessOutcomeCallback callback user)
  show ?thesis unfolding CallSetContactlessOutcomeCallback perform_call.simps krn_set_contactless_outcome_callback_def
    by (rule kept_guarded [OF v]) (simp add: P_same [OF v])
qed (simp_all only: perform_call.simps entry_defs expect_parsed_def kept_reported [OF v] kept_same [OF v],
  (rule kept_recorded [OF v];
   (rule P_profiles [OF v] | rule P_kept [OF v loaded_kept_host_response] | rule P_kept [OF v loaded_kept_set_params] |
    rule P_kept [OF v loaded_kept_setting [OF setting_emit]] | rule P_kept [OF v], rule loaded_kept_online |
    rule P_kept [OF v loaded_kept_setting], intro setting_rules; simp add: no_leftovers_def))+)

lemma perform_calls_keep:
  "P ctx \<Longrightarrow> bundles \<or> list_all (\<lambda>c. \<not> loads_bundle c) calls \<Longrightarrow>
     \<exists>ctx'. perform_calls ed clock calls (Some ctx) = Some ctx' \<and> P ctx'"
proof (induction calls arbitrary: ctx)
  case (Cons c calls)
  from perform_call_keeps [OF Cons.prems(1), of c clock] Cons.prems(2)
  obtain ctx' where "snd (perform_call ed clock c (Some ctx)) = Some ctx'" "P ctx'"
    by (auto simp: kept_def)
  with Cons.IH [of ctx'] Cons.prems(2) show ?case by (simp add: perform_calls_Cons) blast
qed (simp add: perform_calls_Nil)

end

definition version_from :: "u64 \<Rightarrow> 'w krn_context \<Rightarrow> bool" where
  "version_from v ctx \<longleftrightarrow> v \<le> installed_version ctx"

text \<open>With bundles, the version may fall to the counter of the last bundle, and no further.\<close>

definition counters_from :: "u64 \<Rightarrow> u64 \<Rightarrow> 'w krn_context \<Rightarrow> bool" where
  "counters_from v n ctx \<longleftrightarrow> n \<le> kc_certification_bundle_rollback_counter ctx \<and>
     min v (kc_certification_bundle_rollback_counter ctx) \<le> installed_version ctx"

text \<open>What is loaded is loaded as a whole.\<close>

definition load_evidence :: "'w krn_context \<Rightarrow> bool" where
  "load_evidence ctx \<longleftrightarrow>
     (kc_profile_sha256 ctx = None \<longleftrightarrow> kc_profiles ctx = None) \<and>
     (kc_profile_evaluation_date ctx = None \<longleftrightarrow> kc_profiles ctx = None) \<and>
     (kc_certification_bundle_sha256 ctx = None \<longleftrightarrow> kc_certification_bundle_rollback_counter ctx = 0) \<and>
     (kc_certification_bundle_payload_sha256 ctx = None \<longleftrightarrow> kc_certification_bundle_rollback_counter ctx = 0) \<and>
     (kc_profiles ctx = None \<longrightarrow> kc_certification_bundle_rollback_counter ctx = 0) \<and>
     callback_timeouts_ok (kc_callback_timeouts ctx)"

lemmas load_invariant_defs = version_from_def counters_from_def load_evidence_def installed_version_def with_bundle_def

lemma version_from_load:
  "version_from v s \<Longrightarrow> version_from v (snd (load_profiles_verified json len installed candidate date s))"
  by (rule load_profiles_verified_cases [of json len installed candidate date s])
    (auto simp: load_invariant_defs)

lemma version_from_same: "version_from v s \<Longrightarrow> loaded_part t = loaded_part s \<Longrightarrow> version_from v t"
  by (simp add: load_invariant_defs)

interpretation ver: load_invariant "version_from v" ed False for v ed
  by (unfold_locales; (erule (1) version_from_same | erule version_from_load | simp))

lemma counters_from_load:
  "counters_from v n s \<Longrightarrow> counters_from v n (snd (load_profiles_verified json len installed candidate date s))"
  by (rule load_profiles_verified_cases [of json len installed candidate date s])
    (auto simp: load_invariant_defs)

lemma counters_from_load_bundle:
  "counters_from v n s \<Longrightarrow> counters_from v n (snd (load_certification_bundle_verified ed json len trust trust_len installed date s))"
  by (rule load_certification_bundle_cases [of ed json len trust trust_len installed date s])
    (auto simp: load_invariant_defs)

lemma counters_from_same: "counters_from v n s \<Longrightarrow> loaded_part t = loaded_part s \<Longrightarrow> counters_from v n t"
  by (simp add: load_invariant_defs)

interpretation ctr: load_invariant "counters_from v n" ed True for v n ed
  by (unfold_locales; (erule (1) counters_from_same | erule counters_from_load | erule counters_from_load_bundle))

lemma load_evidence_load:
  "load_evidence s \<Longrightarrow> load_evidence (snd (load_profiles_verified json len installed candidate date s))"
  by (rule load_profiles_verified_cases [of json len installed candidate date s])
    (auto simp: load_invariant_defs)

lemma load_evidence_load_bundle:
  "load_evidence s \<Longrightarrow> load_evidence (snd (load_certification_bundle_verified ed json len trust trust_len installed date s))"
  by (rule load_certification_bundle_cases [of ed json len trust trust_len installed date s])
    (auto simp: load_invariant_defs)

lemma load_evidence_same: "load_evidence s \<Longrightarrow> loaded_part t = loaded_part s \<Longrightarrow> load_evidence t"
  by (simp add: load_invariant_defs)

interpretation evi: load_invariant "load_evidence" ed True for ed
  by (unfold_locales; (erule (1) load_evidence_same | erule load_evidence_load | erule load_evidence_load_bundle))

section \<open>Sessions\<close>

lemma session_ok_perform_calls:
  "session_ok ctx \<Longrightarrow> \<exists>ctx'. perform_calls ed clock calls (Some ctx) = Some ctx' \<and> session_ok ctx'"
proof (induction calls arbitrary: ctx)
  case (Cons c calls)
  from session_ok_perform_call [OF Cons.prems, of ed clock c]
  obtain ctx' where "snd (perform_call ed clock c (Some ctx)) = Some ctx'" "session_ok ctx'"
    by (auto simp: so.kept_def)
  with Cons.IH show ?case by (simp add: perform_calls_Cons)
qed (simp add: perform_calls_Nil)

lemma outcome_supported_busy: "outcome_supported (ctx\<lparr>kc_busy := b\<rparr>) outcome = outcome_supported ctx outcome"
proof -
  have "cda_holds (ctx\<lparr>kc_busy := b\<rparr>) r = cda_holds ctx r" for r
    by (simp add: cda_holds_def verify_combined_data_authentication_def selected_aid_profile_def)
  then show ?thesis
    by (cases outcome) (simp_all add: is_final_outcome_state_def split: option.split)
qed

text \<open>Reading back the numbers of an outcome.\<close>

lemma from_u8_iff:
  "outcome_code_from_u8 v = Inr code \<longleftrightarrow> v = outcome_code_u8 code"
  "start_signal_from_u8 v = Inr start \<longleftrightarrow> v = start_signal_u8 start"
  "ui_status_from_u8 v = Inr status \<longleftrightarrow> v = ui_status_u8 status"
  "alternate_interface_from_u8 v = Inr alt \<longleftrightarrow> v = alternate_interface_u8 alt"
  subgoal by (cases code) (auto simp: outcome_code_from_u8_def)
  subgoal by (cases start) (auto simp: start_signal_from_u8_def)
  subgoal by (cases status) (auto simp: ui_status_from_u8_def)
  subgoal by (cases alt) (auto simp: alternate_interface_from_u8_def)
  done

lemma contactless_outcome_new_fields:
  "contactless_outcome_new code start ui restart data_record discretionary_data alt = Inr outcome \<Longrightarrow>
     outcome = \<lparr>co_outcome_code = code, co_start_signal = start, co_ui = ui, co_restart_required = restart,
       co_data_record = data_record, co_discretionary_data = discretionary_data, co_alternate_interface = alt\<rparr>"
  by (simp add: contactless_outcome_new_def rbind_eq_Inr split: if_splits)

lemma readable_slice_Inr: "readable_slice p n = Inr bs \<Longrightarrow> bs = take n (case_option [] id p)"
  by (auto simp: readable_slice_def split: if_splits option.splits)

text \<open>A load of a bundle, whatever the active profiles are.\<close>

lemma bundle_load_ignores_profiles:
  "case load_certification_bundle_verified ed json len trust trust_len installed date ctx of (r, ctx') \<Rightarrow>
     fst (load_certification_bundle_verified ed json len trust trust_len installed date (ctx\<lparr>kc_profiles := profiles\<rparr>)) = r \<and>
     (case r of
        Inl _ \<Rightarrow> ctx' = ctx
      | Inr _ \<Rightarrow> installed_version ctx' = kc_certification_bundle_rollback_counter ctx' \<and>
          max installed (kc_certification_bundle_rollback_counter ctx) < kc_certification_bundle_rollback_counter ctx')"
proof -
  have "fst (load_certification_bundle_verified ed json len trust trust_len installed date (ctx\<lparr>kc_profiles := profiles\<rparr>)) =
      fst (load_certification_bundle_verified ed json len trust trust_len installed date ctx)"
    unfolding load_certification_bundle_run by (simp add: bundle_policy_def split: sum.split)
  then show ?thesis
    by (cases rule: load_certification_bundle_cases [of ed json len trust trust_len installed date ctx])
      (simp_all add: installed_version_def with_bundle_def)
qed

section \<open>Refused calls\<close>

text \<open>The operations after the host answered.\<close>

fun goes_online :: "'w abi_call \<Rightarrow> bool" where
  "goes_online (CallApplyHostResponse response len) = True"
| "goes_online CallProcessIssuerAuthentication = True"
| "goes_online CallProcessIssuerScripts = True"
| "goes_online CallProcessPostFinalIssuerScripts = True"
| "goes_online CallProcessFinalGenerateAc = True"
| "goes_online _ = False"

text \<open>Operations that change nothing, and those that change nothing when they fail.\<close>

definition reads_only :: "('s, 'a) krn \<Rightarrow> bool" where
  "reads_only m \<longleftrightarrow> (\<forall>s. snd (m s) = s)"

definition all_or_nothing :: "('s, 'a) krn \<Rightarrow> bool" where
  "all_or_nothing m \<longleftrightarrow> (\<forall>s. case m s of (Inl _, t) \<Rightarrow> t = s | (Inr _, _) \<Rightarrow> True)"

lemma reads_only_basic: "reads_only (klift r)" "reads_only (kask f)" "reads_only (kfail e)"
  by (simp_all add: reads_only_def kexec)

lemma all_or_nothing_basic: "all_or_nothing (kmod g)" "all_or_nothing (kfail e)"
  by (simp_all add: all_or_nothing_def kexec)

lemma all_or_nothing_kbind:
  assumes "reads_only m" and "\<And>a. all_or_nothing (f a)"
  shows "all_or_nothing (kbind m f)"
  unfolding all_or_nothing_def
proof
  fix s
  obtain r where r: "m s = (r, s)" using assms(1) unfolding reads_only_def by (metis prod.collapse)
  show "case kbind m f s of (Inl _, t) \<Rightarrow> t = s | (Inr _, _) \<Rightarrow> True"
    using assms(2) by (cases r) (simp_all add: kbind_def r all_or_nothing_def)
qed

lemma all_or_nothing_if: "all_or_nothing m \<Longrightarrow> all_or_nothing n \<Longrightarrow> all_or_nothing (if b then m else n)"
  by simp

lemmas all_or_nothing_rules = reads_only_basic all_or_nothing_basic all_or_nothing_kbind all_or_nothing_if

lemma all_or_nothing_operations:
  "all_or_nothing (set_transaction_params params)"
  "all_or_nothing (load_profiles_verified json len installed candidate date)"
  "all_or_nothing (load_certification_bundle_verified ed json len trust trust_len installed' date)"
  "all_or_nothing (emit_contactless_outcome args)"
  unfolding set_transaction_params_def load_profiles_verified_def load_certification_bundle_verified_def
    emit_contactless_outcome_def
  by (intro all_or_nothing_rules)+

text \<open>A code that is the last error, and a context that changes only with success, where \<open>whole\<close> says so.\<close>

definition answered :: "bool \<Rightarrow> 'w krn_context \<Rightarrow> int \<times> 'w handle \<Rightarrow> bool" where
  "answered whole ctx r \<longleftrightarrow> (\<exists>e t. fst r = error_code e \<and> snd r = Some t \<and> kc_last_error t = e \<and>
     (if e = Ok \<or> \<not> whole then True else t = ctx\<lparr>kc_last_error := e\<rparr>))"

lemma answeredI:
  "kc_last_error t = e \<Longrightarrow> (e \<noteq> Ok \<Longrightarrow> whole \<Longrightarrow> t = ctx\<lparr>kc_last_error := e\<rparr>) \<Longrightarrow> answered whole ctx (error_code e, Some t)"
  by (auto simp: answered_def)

lemma answered_success: "kc_last_error t = Ok \<Longrightarrow> answered whole ctx (error_code Ok, Some t)"
  by (rule answeredI) simp_all

lemma answered_recorded:
  assumes "\<not> kc_busy ctx" and "whole \<Longrightarrow> all_or_nothing m"
  shows "answered whole ctx (code_and_handle (guarded none (recorded m) (Some ctx)))"
proof -
  obtain r t where run: "m ctx = (r, t)" by fastforce
  have "t = ctx" if "r = Inl e" whole for e
    using assms(2) that run unfolding all_or_nothing_def by (auto split: prod.splits dest: spec [of _ ctx])
  then show ?thesis
    by (cases r) (simp_all add: answeredI answered_success code_and_handle_def guarded_def mark_reentrant_call_def recorded_def
        set_result_def run assms(1) del: error_code.simps)
qed

lemma answered_reported:
  "\<not> kc_busy ctx \<Longrightarrow> answered whole ctx (code_and_handle (guarded none (reported f) (Some ctx)))"
  by (simp add: answeredI answered_success code_and_handle_def guarded_def mark_reentrant_call_def reported_def set_result_def
      split: prod.split sum.split del: error_code.simps)

lemma answered_ok:
  "\<not> kc_busy ctx \<Longrightarrow> kc_last_error (g ctx) = Ok \<Longrightarrow>
     answered whole ctx (code_and_handle (guarded none (\<lambda>ctx. (error_code Ok, g ctx, out)) (Some ctx)))"
  by (simp add: answeredI answered_success code_and_handle_def guarded_def mark_reentrant_call_def del: error_code.simps)

lemma perform_call_answers:
  assumes idle: "\<not> kc_busy ctx" and c: "guarded_call c" "c \<noteq> CallRunTransaction"
  shows "answered (\<not> goes_online c) ctx (perform_call ed clock c (Some ctx))"
proof (cases c)
  case CallReset
  show ?thesis unfolding CallReset perform_call.simps krn_reset_def
    by (rule answered_ok [OF idle]) (simp add: krn_context_reset_def)
next
  case (CallSetContactlessOutcomeCallback callback user)
  show ?thesis unfolding CallSetContactlessOutcomeCallback perform_call.simps krn_set_contactless_outcome_callback_def
    by (rule answered_ok [OF idle]) simp
qed (use c in \<open>simp_all only: perform_call.simps entry_defs expect_parsed_def goes_online.simps guarded_call.simps
    answered_reported [OF idle] simp_thms\<close>,
  (rule answered_recorded [OF idle]; (simp only: simp_thms)?; intro all_or_nothing_rules all_or_nothing_operations)+)

lemma run_keeps_handle: "snd (krn_run_transaction clock (Some ctx)) \<noteq> None"
  by (auto simp: krn_run_transaction_def split: prod.split bool.split)

lemma perform_call_answered:
  "case perform_call ed clock c handle of (code, handle') \<Rightarrow> (case handle of
      None \<Rightarrow> handle' = None \<and> code = null_answer c
    | Some ctx \<Rightarrow>
        if \<not> guarded_call c then handle' = Some ctx
        else if kc_busy ctx
        then handle' = Some (ctx\<lparr>kc_last_error := Busy\<rparr>) \<and>
          code = (if c = CallRunTransaction then outcome_code OutcomeError else error_code Busy)
        else if c = CallRunTransaction then handle' \<noteq> None
        else \<exists>e ctx'. code = error_code e \<and> handle' = Some ctx' \<and> kc_last_error ctx' = e \<and>
          (if e = Ok \<or> goes_online c then True else ctx' = ctx\<lparr>kc_last_error := e\<rparr>))"
proof (cases handle)
  case None
  then show ?thesis by (simp add: perform_call_null del: perform_call.simps)
next
  case (Some ctx)
  obtain code handle' where r: "perform_call ed clock c (Some ctx) = (code, handle')" by fastforce
  show ?thesis
    using unguarded_call [of c ed clock "Some ctx"] perform_call_busy [of ctx c ed clock]
      perform_call_answers [of ctx c ed clock] r
      run_keeps_handle [of clock ctx] perform_call.simps(13) [of ed clock "Some ctx"]
    by (auto simp: Some answered_def simp del: perform_call.simps error_code.simps)
qed

lemma perform_calls_busy:
  "kc_busy ctx \<Longrightarrow> perform_calls ed clock calls (Some ctx) =
     Some (if list_all (\<lambda>c. \<not> guarded_call c) calls then ctx else ctx\<lparr>kc_last_error := Busy\<rparr>)"
proof (induction calls arbitrary: ctx)
  case (Cons c calls)
  show ?case
  proof (cases "guarded_call c")
    case True
    then show ?thesis using Cons.IH [of "ctx\<lparr>kc_last_error := Busy\<rparr>"] Cons.prems
      by (simp add: perform_calls_Cons perform_call_busy del: perform_call.simps)
  next
    case False
    then show ?thesis using Cons by (simp add: perform_calls_Cons unguarded_call del: perform_call.simps)
  qed
qed (simp add: perform_calls_Nil)

text \<open>The C view of an outcome made from arguments, and arguments made from a C view.\<close>

lemma accepted_view:
  assumes "contactless_outcome_of_args args = Inr outcome"
  shows "as_ffi outcome =
     \<lparr>kco_outcome_code = rco_outcome_code args, kco_start_signal = rco_start_signal args,
      kco_ui_message_id = rco_ui_message_id args, kco_ui_status = rco_ui_status args,
      kco_hold_time_ms = rco_hold_time_ms args, kco_restart_required = (if rco_restart_required args \<noteq> 0 then 1 else 0),
      kco_data_record = take (rco_data_record_len args) (case_option [] id (rco_data_record args)),
      kco_discretionary_data = take (rco_discretionary_data_len args) (case_option [] id (rco_discretionary_data args)),
      kco_alternate_interface = rco_alternate_interface args\<rparr>"
proof -
  from assms obtain d dd code start status alt where
    slices: "readable_slice (rco_data_record args) (rco_data_record_len args) = Inr d"
      "readable_slice (rco_discretionary_data args) (rco_discretionary_data_len args) = Inr dd"
    and numbers: "rco_outcome_code args = outcome_code_u8 code" "rco_start_signal args = start_signal_u8 start"
      "rco_ui_status args = ui_status_u8 status" "rco_alternate_interface args = alternate_interface_u8 alt"
    and new: "contactless_outcome_new code start \<lparr>ui_message_id = rco_ui_message_id args, ui_status = status,
      ui_hold_time_ms = rco_hold_time_ms args\<rparr> (rco_restart_required args \<noteq> 0) d dd alt = Inr outcome"
    unfolding contactless_outcome_of_args_def rbind_eq_Inr from_u8_iff by blast
  show ?thesis
    using readable_slice_Inr [OF slices(1)] readable_slice_Inr [OF slices(2)]
    by (simp add: contactless_outcome_new_fields [OF new] as_ffi_def numbers)
qed

definition args_of_view :: "krn_contactless_outcome \<Rightarrow> raw_contactless_outcome_args" where
  "args_of_view v =
     \<lparr>rco_outcome_code = kco_outcome_code v, rco_start_signal = kco_start_signal v,
      rco_ui_message_id = kco_ui_message_id v, rco_ui_status = kco_ui_status v, rco_hold_time_ms = kco_hold_time_ms v,
      rco_restart_required = kco_restart_required v,
      rco_data_record = Some (kco_data_record v), rco_data_record_len = length (kco_data_record v),
      rco_discretionary_data = Some (kco_discretionary_data v),
      rco_discretionary_data_len = length (kco_discretionary_data v),
      rco_alternate_interface = kco_alternate_interface v\<rparr>"

lemma args_of_view_accepted:
  assumes "contactless_outcome_new code start ui restart d dd alt = Inr outcome"
  shows "contactless_outcome_of_args (args_of_view (as_ffi outcome)) = Inr outcome"
proof -
  note f = contactless_outcome_new_fields [OF assms]
  have codes: "outcome_code_from_u8 (outcome_code_u8 code) = Inr code" "start_signal_from_u8 (start_signal_u8 start) = Inr start"
    "ui_status_from_u8 (ui_status_u8 status) = Inr status" "alternate_interface_from_u8 (alternate_interface_u8 alt) = Inr alt" for status
    by (simp_all add: from_u8_iff)
  have slice: "readable_slice (Some bs) (length bs) = Inr bs" for bs by (simp add: readable_slice_def)
  have restart: "((if restart then 1 else 0) \<noteq> (0 :: byte)) = restart" by simp
  have ui: "\<lparr>ui_message_id = ui_message_id ui, ui_status = ui_status ui, ui_hold_time_ms = ui_hold_time_ms ui\<rparr> = ui"
    by simp
  show ?thesis using assms
    by (simp only: contactless_outcome_of_args_def args_of_view_def as_ffi_def f codes slice restart rbind_Inr
        raw_contactless_outcome_args.simps krn_contactless_outcome.simps contactless_outcome.simps ui)
qed

section \<open>Properties\<close>

text \<open>C1: Whatever calls came before, in whatever order, what \<open>krn_run_transaction\<close> returns has its
  evidence in the context it leaves: from a context made by \<open>krn_init\<close>, a run ends in the error state
  with the error outcome, or with an outcome that is supported: an offline approval by the terminal
  action analysis where the card gave no cryptogram, and otherwise by a transaction certificate of the
  card, whose combined authentication verifies where combined data authentication (CDA) was selected
  (without CDA the kernel takes the certificate as the card gives it); an offline decline by the
  terminal action analysis, by a decline cryptogram, or where CDA failed and a decline was asked for;
  a request to go online by a request cryptogram and the data for the host; and any other outcome
  only before a cryptogram.\<close>

theorem every_session_outcome_is_supported:
  "case krn_init cfg runtime out w of (_, handle) \<Rightarrow>
     case krn_run_transaction clock (perform_calls ed clock calls handle) of
       (code, None) \<Rightarrow> handle = None \<and> code = outcome_code OutcomeError
     | (code, Some ctx) \<Rightarrow> \<exists>outcome. code = outcome_code outcome \<and>
         (if outcome = OutcomeError then kc_fsm_state ctx = Se \<and> kc_state ctx = K_Error
          else outcome_supported ctx outcome)"
proof (cases "snd (krn_init cfg runtime out w)")
  case None
  then show ?thesis using perform_calls_None [of ed clock calls] by (auto simp: krn_run_transaction_def split: prod.split)
next
  case (Some ctx)
  then have "session_ok ctx" using session_ok_init [of cfg runtime out w _ ctx] by (metis prod.collapse)
  from session_ok_perform_calls [OF this, of ed clock calls] obtain s where
    s: "perform_calls ed clock calls (Some ctx) = Some s" "session_ok s" by blast
  obtain outcome t where run: "run_transaction clock (s\<lparr>kc_busy := True\<rparr>) = (outcome, t)" by fastforce
  have idle: "\<not> kc_busy s" "session_ok (s\<lparr>kc_busy := True, kc_busy := False\<rparr>)"
    using s(2) by (auto simp: session_ok_def no_leftovers_def)
  then show ?thesis
    using run_in_session [OF _ run] Some s(1)
    by (auto simp: krn_run_transaction_def mark_reentrant_call_def run outcome_supported_busy
        intro!: exI [of _ outcome] split: prod.split)
qed

text \<open>C6: What guards against a rollback, and what does not.  In every session, with failed loads and
  resets, the counter of the certification bundles never decreases, without a bundle the installed
  version of the profiles never decreases, and with bundles it falls below what it was at most to the
  counter of the last bundle.  But a bundle can put older profiles in place of newer ones: its load is
  compared with the counter of the last bundle and the one the caller names only; whether it succeeds
  does not depend on the active profiles, and when it does, the installed version is the bundle's
  counter, whatever it was.\<close>

theorem what_guards_against_rollback:
  "(case perform_calls ed clock calls (Some ctx) of
     None \<Rightarrow> False
   | Some ctx' \<Rightarrow>
       kc_certification_bundle_rollback_counter ctx \<le> kc_certification_bundle_rollback_counter ctx' \<and>
       min (installed_version ctx) (kc_certification_bundle_rollback_counter ctx') \<le> installed_version ctx' \<and>
       (if list_all (\<lambda>c. \<not> loads_bundle c) calls then installed_version ctx \<le> installed_version ctx' else True)) \<and>
   (case load_certification_bundle_verified ed json len trust trust_len installed date ctx of (r, ctx') \<Rightarrow>
     fst (load_certification_bundle_verified ed json len trust trust_len installed date (ctx\<lparr>kc_profiles := profiles\<rparr>)) = r \<and>
     (case r of
        Inl _ \<Rightarrow> ctx' = ctx
      | Inr _ \<Rightarrow> installed_version ctx' = kc_certification_bundle_rollback_counter ctx' \<and>
          max installed (kc_certification_bundle_rollback_counter ctx) < kc_certification_bundle_rollback_counter ctx'))"
proof (rule conjI)
  have "counters_from (installed_version ctx) (kc_certification_bundle_rollback_counter ctx) ctx"
    by (simp add: counters_from_def)
  from ctr.perform_calls_keep [OF this, of calls ed clock] obtain ctx' where
    ctx': "perform_calls ed clock calls (Some ctx) = Some ctx'"
      "counters_from (installed_version ctx) (kc_certification_bundle_rollback_counter ctx) ctx'" by auto
  have "version_from (installed_version ctx) ctx" by (simp add: version_from_def)
  from ver.perform_calls_keep [OF this, of calls ed clock] ctx'
  show "case perform_calls ed clock calls (Some ctx) of
     None \<Rightarrow> False
   | Some ctx' \<Rightarrow>
       kc_certification_bundle_rollback_counter ctx \<le> kc_certification_bundle_rollback_counter ctx' \<and>
       min (installed_version ctx) (kc_certification_bundle_rollback_counter ctx') \<le> installed_version ctx' \<and>
       (if list_all (\<lambda>c. \<not> loads_bundle c) calls then installed_version ctx \<le> installed_version ctx' else True)"
    by (auto simp: version_from_def counters_from_def)
qed (rule bundle_load_ignores_profiles)

text \<open>C7: What a session has loaded it has loaded whole: from a new context, digest and evaluation date are there
  exactly when profiles are, the digests of a certification bundle exactly when its counter is not zero, and
  never without profiles; and the timeouts that the callbacks are given stay between 1 and 60000 ms.\<close>

theorem loads_are_whole:
  "case perform_calls ed clock calls (snd (krn_init cfg runtime out w)) of
     None \<Rightarrow> snd (krn_init cfg runtime out w) = None
   | Some ctx \<Rightarrow> load_evidence ctx \<and> 1 \<le> apdu_timeout ctx \<and> apdu_timeout ctx \<le> 60000"
proof (cases "snd (krn_init cfg runtime out w)")
  case None
  then show ?thesis by (simp add: perform_calls_None)
next
  case (Some ctx)
  then have "load_evidence ctx"
    by (auto simp: krn_init_def krn_context_empty_def load_evidence_def callback_timeouts_ok_def
        validate_callback_timeouts_def callback_timeouts_defaults_def split: if_splits sum.splits)
  from evi.perform_calls_keep [OF this, of calls ed clock] Some show ?thesis
    by (auto simp: load_evidence_def apdu_timeout_def callback_timeouts_ok_def validate_callback_timeouts_def split: if_splits)
qed


text \<open>C26: A call that is refused changes nothing.  Six entry points only read the context, through a shared
  reference, and never change it.  Every other entry point on a handle but \<open>krn_run_transaction\<close>, which
  returns an outcome, returns a code that is then the last error, and unless that code is success it
  leaves the context otherwise as it was; the five operations after the host answered may fail half
  way and are excepted.  The null handle stays null and gets the answer for it.  While the context is
  marked as busy the six still answer and all others are refused, so that any sequence of calls that a
  callback makes then leaves the context as it was but for the last error.  The callback that
  \<open>krn_emit_contactless_outcome\<close> calls is outside this: the context is not marked as busy for it.\<close>

theorem refused_calls_change_nothing:
  "(case perform_call ed clock c handle of (code, handle') \<Rightarrow> (case handle of
      None \<Rightarrow> handle' = None \<and> code = null_answer c
    | Some ctx \<Rightarrow>
        if \<not> guarded_call c then handle' = Some ctx
        else if kc_busy ctx
        then handle' = Some (ctx\<lparr>kc_last_error := Busy\<rparr>) \<and>
          code = (if c = CallRunTransaction then outcome_code OutcomeError else error_code Busy)
        else if c = CallRunTransaction then handle' \<noteq> None
        else \<exists>e ctx'. code = error_code e \<and> handle' = Some ctx' \<and> kc_last_error ctx' = e \<and>
          (if e = Ok \<or> goes_online c then True else ctx' = ctx\<lparr>kc_last_error := e\<rparr>))) \<and>
   (if kc_busy ctx
    then perform_calls ed' clock' calls (Some ctx) =
      Some (if list_all (\<lambda>c. \<not> guarded_call c) calls then ctx else ctx\<lparr>kc_last_error := Busy\<rparr>)
    else True)"
  using perform_calls_busy [of ctx ed' clock' calls] by (intro conjI [OF perform_call_answered]) simp

text \<open>C28: A contactless outcome reaches the callback as the host described it.  A call to
  \<open>krn_emit_contactless_outcome\<close> on an idle context fails without a callback, and with arguments that
  are no outcome, and then changes the last error only; otherwise it calls the registered callback
  once, with the user data registered with it and a view that has every number of the arguments, both
  data as far as their lengths say, and the restart flag as 0 or 1, and changes nothing else.  And
  every outcome that the kernel builds comes back the same from the arguments that its C view gives.\<close>

theorem contactless_outcome_roundtrip:
  "krn_emit_contactless_outcome args (Some (ctx\<lparr>kc_busy := False\<rparr>)) =
     (case kc_contactless_outcome_callback ctx of
        None \<Rightarrow> (error_code InvalidArgument, Some (ctx\<lparr>kc_busy := False, kc_last_error := InvalidArgument\<rparr>), ())
      | Some callback \<Rightarrow> (case contactless_outcome_of_args args of
          Inl e \<Rightarrow> (error_code e, Some (ctx\<lparr>kc_busy := False, kc_last_error := e\<rparr>), ())
        | Inr _ \<Rightarrow> (error_code Ok, Some (ctx\<lparr>kc_busy := False, kc_last_error := Ok,
            kc_world := callback
              \<lparr>kco_outcome_code = rco_outcome_code args, kco_start_signal = rco_start_signal args,
               kco_ui_message_id = rco_ui_message_id args, kco_ui_status = rco_ui_status args,
               kco_hold_time_ms = rco_hold_time_ms args,
               kco_restart_required = (if rco_restart_required args \<noteq> 0 then 1 else 0),
               kco_data_record = take (rco_data_record_len args) (case_option [] id (rco_data_record args)),
               kco_discretionary_data =
                 take (rco_discretionary_data_len args) (case_option [] id (rco_discretionary_data args)),
               kco_alternate_interface = rco_alternate_interface args\<rparr>
              (kc_contactless_outcome_user_data ctx) (kc_world ctx)\<rparr>), ()))) \<and>
   (case contactless_outcome_new code start ui restart data_record discretionary_data alt of
      Inl _ \<Rightarrow> True
    | Inr outcome \<Rightarrow> contactless_outcome_of_args (args_of_view (as_ffi outcome)) = Inr outcome)"
proof (rule conjI)
  show "case contactless_outcome_new code start ui restart data_record discretionary_data alt of
      Inl _ \<Rightarrow> True
    | Inr outcome \<Rightarrow> contactless_outcome_of_args (args_of_view (as_ffi outcome)) = Inr outcome"
    using args_of_view_accepted by (auto split: sum.split)
qed (auto simp: krn_emit_contactless_outcome_def guarded_def mark_reentrant_call_def recorded_def set_result_def
  emit_contactless_outcome_def kexec accepted_view split: option.split sum.split)

end
