(* ===== verification/Emv_Vectors.thy ===== *)
theory Emv_Vectors
  imports Emv_Oda Emv_Json
begin

text \<open>
  The check of an annex of ODA test vectors (\<open>validate_oda_vector_annex\<close> and what it calls in
  \<open>src/src/oda.rs\<close>): a search in the text of a JSON document that never parses it.  A text is its UTF-8
  bytes: every pattern is ASCII, so that a position in the text is a position in the bytes.
\<close>

section \<open>Texts\<close>

text \<open>\<open>core::str::from_utf8\<close>: the well-formed byte sequences.\<close>

definition utf8_tail :: "byte \<Rightarrow> bool" where
  "utf8_tail b \<longleftrightarrow> 0x80 \<le> b \<and> b \<le> 0xbf"

definition utf8_two :: "byte \<Rightarrow> byte \<Rightarrow> bool" where
  "utf8_two a b \<longleftrightarrow> 0xc2 \<le> a \<and> a \<le> 0xdf \<and> utf8_tail b"

definition utf8_three :: "byte \<Rightarrow> byte \<Rightarrow> byte \<Rightarrow> bool" where
  "utf8_three a b c \<longleftrightarrow> 0xe0 \<le> a \<and> a \<le> 0xef \<and> utf8_tail b \<and> utf8_tail c \<and>
     (a = 0xe0 \<longrightarrow> 0xa0 \<le> b) \<and> (a = 0xed \<longrightarrow> b \<le> 0x9f)"

definition utf8_four :: "byte \<Rightarrow> byte \<Rightarrow> byte \<Rightarrow> byte \<Rightarrow> bool" where
  "utf8_four a b c d \<longleftrightarrow> 0xf0 \<le> a \<and> a \<le> 0xf4 \<and> utf8_tail b \<and> utf8_tail c \<and> utf8_tail d \<and>
     (a = 0xf0 \<longrightarrow> 0x90 \<le> b) \<and> (a = 0xf4 \<longrightarrow> b \<le> 0x8f)"

fun valid_utf8 :: "bytes \<Rightarrow> bool" where
  "valid_utf8 [] = True"
| "valid_utf8 (a # r) =
     (if a < 0x80 then valid_utf8 r
      else case r of [] \<Rightarrow> False | b # r \<Rightarrow>
        if utf8_two a b then valid_utf8 r
        else case r of [] \<Rightarrow> False | c # r \<Rightarrow>
          if utf8_three a b c then valid_utf8 r
          else case r of [] \<Rightarrow> False | d # r \<Rightarrow> utf8_four a b c d \<and> valid_utf8 r)"

definition from_utf8 :: "bytes \<Rightarrow> bytes krn_result" where
  "from_utf8 bs = (if valid_utf8 bs then Inr bs else Inl ParseError)"

text \<open>\<open>str::find\<close> with a text and with a character, \<open>str::rfind\<close> with a character, \<open>contains\<close>.\<close>

fun find_text :: "bytes \<Rightarrow> bytes \<Rightarrow> nat option" where
  "find_text [] p = (if p = [] then Some 0 else None)"
| "find_text (b # bs) p = (if starts_with (b # bs) p then Some 0 else map_option Suc (find_text bs p))"

fun find_byte :: "byte \<Rightarrow> bytes \<Rightarrow> nat option" where
  "find_byte c [] = None"
| "find_byte c (b # bs) = (if b = c then Some 0 else map_option Suc (find_byte c bs))"

definition rfind_byte :: "byte \<Rightarrow> bytes \<Rightarrow> nat option" where
  "rfind_byte c bs = map_option (\<lambda>n. length bs - 1 - n) (find_byte c (rev bs))"

definition text_contains :: "bytes \<Rightarrow> bytes \<Rightarrow> bool" where
  "text_contains bs p \<longleftrightarrow> find_text bs p \<noteq> None"

definition quoted :: "string \<Rightarrow> bytes" where
  "quoted key = [0x22] @ ascii key @ [0x22]"

definition ascii_lower :: "byte \<Rightarrow> byte" where
  "ascii_lower b = (if 0x41 \<le> b \<and> b \<le> 0x5a then b + 0x20 else b)"

definition contains_forbidden_placeholder :: "bytes \<Rightarrow> bool" where
  "contains_forbidden_placeholder text =
     (let lower = map ascii_lower text in
      text_contains lower (ascii ''...'') \<or> text_contains lower (ascii ''placeholder'') \<or>
      text_contains lower (ascii ''dummy'') \<or> text_contains lower (ascii ''fictitious'') \<or>
      text_contains lower (ascii ''fixture''))"

section \<open>Fields\<close>

definition quoted_value_start :: "bytes \<Rightarrow> nat option" where
  "quoted_value_start after_key =
     Option.bind (find_byte 0x3a after_key) (\<lambda>colon.
     Option.bind (find_byte 0x22 (drop (colon + 1) after_key)) (\<lambda>quote. Some (colon + 1 + quote + 1)))"

text \<open>Where the text after a key begins and ends.\<close>

definition quoted_value :: "bytes \<Rightarrow> nat \<Rightarrow> (nat \<times> nat) krn_result" where
  "quoted_value text after_key =
     rbind (ok_or (map_option (\<lambda>offset. after_key + offset) (quoted_value_start (drop after_key text))) ParseError) (\<lambda>value_start.
     rbind (ok_or (map_option (\<lambda>offset. value_start + offset) (find_byte 0x22 (drop value_start text))) ParseError) (\<lambda>value_end.
       Inr (value_start, value_end)))"

definition required_json_string_field :: "bytes \<Rightarrow> string \<Rightarrow> bytes krn_result" where
  "required_json_string_field text key =
     rbind (ok_or (find_text text (quoted key)) InvalidProfile) (\<lambda>key_start.
     rbind (quoted_value text (key_start + length (quoted key))) (\<lambda>(value_start, value_end).
       Inr (slice_of text value_start value_end)))"

text \<open>The closing brace of an object: braces count outside texts, and a backslash in a text hides the next character.\<close>

fun object_end_loop :: "nat \<Rightarrow> bool \<Rightarrow> bool \<Rightarrow> nat \<Rightarrow> bytes \<Rightarrow> nat krn_result" where
  "object_end_loop depth in_string escaped absolute [] = Inl ParseError"
| "object_end_loop depth in_string escaped absolute (ch # rest) =
     (if in_string then
        (if escaped then object_end_loop depth True False (absolute + 1) rest
         else if ch = 0x5c then object_end_loop depth True True (absolute + 1) rest
         else if ch = 0x22 then object_end_loop depth False escaped (absolute + 1) rest
         else object_end_loop depth True escaped (absolute + 1) rest)
      else if ch = 0x22 then object_end_loop depth True escaped (absolute + 1) rest
      else if ch = 0x7b then
        rbind (ok_or (checked_add_usize depth 1) LengthOverflow) (\<lambda>depth.
          object_end_loop depth False escaped (absolute + 1) rest)
      else if ch = 0x7d then
        rbind (ok_or (checked_sub_usize depth 1) ParseError) (\<lambda>depth.
          if depth = 0 then Inr absolute else object_end_loop depth False escaped (absolute + 1) rest)
      else object_end_loop depth False escaped (absolute + 1) rest)"

definition matching_json_object_end :: "bytes \<Rightarrow> nat \<Rightarrow> nat krn_result" where
  "matching_json_object_end text object_start = object_end_loop 0 False False object_start (drop object_start text)"

section \<open>The loops over a text\<close>

lemma find_byte_bound: "find_byte c bs = Some n \<Longrightarrow> n < length bs"
  by (induction bs arbitrary: n) (auto split: if_splits)

lemma quoted_value_bounds:
  "quoted_value text k = Inr (vs, ve) \<Longrightarrow> k < vs \<and> vs \<le> ve \<and> ve < length text"
  by (auto simp: quoted_value_def quoted_value_start_def rbind_eq_Inr ok_or_def bind_eq_Some_conv
      dest!: find_byte_bound split: option.splits)

definition ODA_VECTOR_METHOD_PREFIXES :: "string list" where
  "ODA_VECTOR_METHOD_PREFIXES = [''SDA'', ''DDA'', ''CDA'']"

definition strip_text :: "bytes \<Rightarrow> bytes \<Rightarrow> bytes option" where
  "strip_text bs p = (if starts_with bs p then Some (drop (length p) bs) else None)"

definition id_byte :: "byte \<Rightarrow> bool" where
  "id_byte b \<longleftrightarrow> 0x61 \<le> b \<and> b \<le> 0x7a \<or> 0x41 \<le> b \<and> b \<le> 0x5a \<or> 0x30 \<le> b \<and> b \<le> 0x39 \<or> b = 0x5f \<or> b = 0x2d"

definition names_method :: "bytes \<Rightarrow> string \<Rightarrow> bool" where
  "names_method ident prefix = (case strip_text ident (ascii prefix) of
     None \<Rightarrow> False
   | Some suffix \<Rightarrow> (case suffix of
       [] \<Rightarrow> False
     | sep # rest \<Rightarrow> (sep = 0x5f \<or> sep = 0x2d) \<and> rest \<noteq> [] \<and> list_all id_byte rest))"

definition certification_vector_method :: "bytes \<Rightarrow> string option" where
  "certification_vector_method ident = find (names_method ident) ODA_VECTOR_METHOD_PREFIXES"

function vector_ids_loop :: "bytes \<Rightarrow> nat \<Rightarrow> bytes list \<Rightarrow> bytes list krn_result" where
  "vector_ids_loop text search_from ids = (case find_text (drop search_from text) (quoted ''id'') of
     None \<Rightarrow> Inr ids
   | Some relative \<Rightarrow> (case quoted_value text (search_from + relative + length (quoted ''id'')) of
       Inl e \<Rightarrow> Inl e
     | Inr (value_start, value_end) \<Rightarrow>
         let ident = slice_of text value_start value_end in
         if certification_vector_method ident = None \<or> ident \<in> set ids then Inl InvalidProfile
         else vector_ids_loop text (value_end + 1) (ids @ [ident])))"
  by pat_completeness auto
termination
  by (relation "measure (\<lambda>(text, search_from, ids). length text - search_from)")
    (auto dest: quoted_value_bounds)

definition validate_certification_vector_ids :: "bytes \<Rightarrow> unit krn_result" where
  "validate_certification_vector_ids text =
     rbind (vector_ids_loop text 0 []) (\<lambda>ids. if ids = [] then Inl InvalidProfile else Inr ())"

text \<open>The object around the first field of that name whose text has the prefix.\<close>

function object_with_field_loop :: "bytes \<Rightarrow> bytes \<Rightarrow> bytes \<Rightarrow> nat \<Rightarrow> bytes krn_result" where
  "object_with_field_loop text pattern prefix search_from = (case find_text (drop search_from text) pattern of
     None \<Rightarrow> Inl InvalidProfile
   | Some relative \<Rightarrow>
       let key_start = search_from + relative in
       (case quoted_value text (key_start + length pattern) of
         Inl e \<Rightarrow> Inl e
       | Inr (value_start, value_end) \<Rightarrow>
           if starts_with (slice_of text value_start value_end) prefix then
             rbind (ok_or (rfind_byte 0x7b (take key_start text)) ParseError) (\<lambda>object_start.
             rbind (matching_json_object_end text object_start) (\<lambda>object_end.
               Inr (slice_of text object_start (object_end + 1))))
           else object_with_field_loop text pattern prefix (value_end + 1)))"
  by pat_completeness auto
termination
  by (relation "measure (\<lambda>(text, pattern, prefix, search_from). length text - search_from)")
    (auto dest: quoted_value_bounds)

definition required_json_object_with_string_field_prefix :: "bytes \<Rightarrow> string \<Rightarrow> string \<Rightarrow> bytes krn_result" where
  "required_json_object_with_string_field_prefix text key prefix =
     object_with_field_loop text (quoted key) (ascii prefix) 0"

definition require_json_fields :: "bytes \<Rightarrow> string list \<Rightarrow> unit krn_result" where
  "require_json_fields text names =
     (if list_all (\<lambda>name. text_contains text (quoted name)) names then Inr () else Inl InvalidProfile)"

definition SDA_FIELDS :: "string list" where
  "SDA_FIELDS = [''capk'', ''issuer_certificate_hex'', ''static_signature_hex'', ''expected_tvr'', ''expected_oda_result'']"

definition DDA_FIELDS :: "string list" where
  "DDA_FIELDS = [''capk'', ''issuer_certificate_hex'', ''icc_certificate_hex'', ''ddol_input_hex'',
     ''internal_auth_response_hex'', ''expected_tvr'', ''expected_oda_result'']"

definition CDA_FIELDS :: "string list" where
  "CDA_FIELDS = [''capk'', ''issuer_certificate_hex'', ''icc_certificate_hex'', ''generate_ac_response_hex'',
     ''cda_request_bit_used'', ''expected_tvr'', ''expected_oda_result'']"

definition validate_certification_vector_coverage :: "bytes \<Rightarrow> unit krn_result" where
  "validate_certification_vector_coverage text =
     rbind (required_json_object_with_string_field_prefix text ''id'' ''SDA'') (\<lambda>sda.
     rbind (require_json_fields sda SDA_FIELDS) (\<lambda>_.
     rbind (required_json_object_with_string_field_prefix text ''id'' ''DDA'') (\<lambda>dda.
     rbind (require_json_fields dda DDA_FIELDS) (\<lambda>_.
     rbind (required_json_object_with_string_field_prefix text ''id'' ''CDA'') (\<lambda>cda.
       require_json_fields cda CDA_FIELDS)))))"

definition validate_vector_hex_field :: "bytes \<Rightarrow> bytes \<Rightarrow> unit krn_result" where
  "validate_vector_hex_field key v =
     rbind (decode_hex (map byte_char v)) (\<lambda>bs.
       if text_contains key (ascii ''certificate'') \<and> length bs < MIN_ODA_CERTIFICATE_BYTES then Inl InvalidProfile
       else if (text_contains key (ascii ''signature'') \<or> text_contains key (ascii ''response'')) \<and>
               length bs < MIN_ODA_SIGNATURE_BYTES then Inl InvalidProfile
       else Inr ())"

function hex_fields_loop :: "bytes \<Rightarrow> nat \<Rightarrow> nat \<Rightarrow> nat krn_result" where
  "hex_fields_loop text search_from hex_fields = (case find_text (drop search_from text) (ascii ''_hex'' @ [0x22]) of
     None \<Rightarrow> Inr hex_fields
   | Some relative \<Rightarrow>
       let key_end = search_from + relative + 5; key_close = key_end - 1 in
       (case rfind_byte 0x22 (take key_close text) of
         None \<Rightarrow> Inl ParseError
       | Some key_start \<Rightarrow> (case quoted_value text key_end of
           Inl e \<Rightarrow> Inl e
         | Inr (value_start, value_end) \<Rightarrow>
             (case validate_vector_hex_field (slice_of text (key_start + 1) key_close) (slice_of text value_start value_end) of
               Inl e \<Rightarrow> Inl e
             | Inr _ \<Rightarrow> hex_fields_loop text (value_end + 1) (hex_fields + 1)))))"
  by pat_completeness auto
termination
  by (relation "measure (\<lambda>(text, search_from, hex_fields). length text - search_from)")
    (auto dest: quoted_value_bounds)

definition validate_oda_vector_annex :: "bytes \<Rightarrow> bool \<Rightarrow> unit krn_result" where
  "validate_oda_vector_annex json certification =
     rbind (from_utf8 json) (\<lambda>text.
     rbind (required_json_string_field text ''vector_class'') (\<lambda>vector_class.
     if \<not> (vector_class = ascii ''CERTIFICATION'' \<or> vector_class = ascii ''STRUCTURAL_FIXTURE'' \<and> \<not> certification)
     then Inl InvalidProfile
     else if certification \<and> contains_forbidden_placeholder text then Inl InvalidProfile
     else
     rbind (require_json_fields text [''test_vectors'', ''expected_tvr'', ''expected_oda_result'']) (\<lambda>_.
     rbind (if certification
            then rbind (validate_certification_vector_ids text) (\<lambda>_. validate_certification_vector_coverage text)
            else Inr ()) (\<lambda>_.
     rbind (hex_fields_loop text 0 0) (\<lambda>hex_fields.
       if hex_fields = 0 then Inl InvalidProfile else Inr ())))))"

declare vector_ids_loop.simps [simp del] object_with_field_loop.simps [simp del] hex_fields_loop.simps [simp del]

lemma from_utf8_eq_Inr: "from_utf8 bs = Inr t \<longleftrightarrow> valid_utf8 bs \<and> t = bs"
  by (auto simp: from_utf8_def)

section \<open>The end of an object\<close>

text \<open>Bytes that are neither braces nor quotes are passed over.\<close>

definition plain_byte :: "byte \<Rightarrow> bool" where
  "plain_byte b \<longleftrightarrow> b \<notin> {0x22, 0x7b, 0x7d}"

lemma end_loop_plain:
  "list_all plain_byte t \<Longrightarrow>
     object_end_loop d False False p (t @ rest) = object_end_loop d False False (p + length t) rest"
  by (induction t arbitrary: p) (auto simp: plain_byte_def)

lemma plain_ws: "ws_text w \<Longrightarrow> list_all plain_byte w"
  by (auto simp: ws_text_def list_all_iff json_ws_def plain_byte_def)

lemma plain_number: "number_text n t \<Longrightarrow> list_all plain_byte t"
  by (auto simp: number_text_def list_all_iff json_digit_def plain_byte_def)

lemma plain_literals: "list_all plain_byte (ascii ''true'')" "list_all plain_byte (ascii ''false'')" "list_all plain_byte (ascii ''null'')"
  by (simp_all add: ascii_def plain_byte_def)

lemma end_loop_string:
  "string_body s t \<Longrightarrow>
     object_end_loop d True False p (t @ 0x22 # rest) = object_end_loop d False False (p + length t + 1) rest"
  by (induction arbitrary: p rule: string_body.induct) simp_all

lemma end_loop_open:
  "d \<le> MAX_JSON_DEPTH \<Longrightarrow> object_end_loop d False False p (0x7b # t) = object_end_loop (Suc d) False False (Suc p) t"
  by (simp add: checked_add_usize_def ok_or_def MAX_JSON_DEPTH_def)

lemma end_loop_close:
  "0 < d \<Longrightarrow> object_end_loop d False False p (0x7d # t) =
     (if d = 1 then Inr p else object_end_loop (d - 1) False False (Suc p) t)"
  by (auto simp: checked_sub_usize_def ok_or_def)

lemma end_loop_quote: "object_end_loop d False False p (0x22 # t) = object_end_loop d True False (Suc p) t"
  and end_loop_skip: "plain_byte b \<Longrightarrow> object_end_loop d False False p (b # t) = object_end_loop d False False (Suc p) t"
  by (simp_all add: plain_byte_def)

lemmas end_loop_steps = end_loop_plain [OF plain_ws] end_loop_plain [OF plain_number] end_loop_string
  end_loop_open end_loop_close end_loop_quote end_loop_skip end_loop_plain [OF plain_literals(1)]
  end_loop_plain [OF plain_literals(2)] end_loop_plain [OF plain_literals(3)]

text \<open>
  A value is passed over at any depth above zero; the members of an object end it, and end the loop when
  they are those of the outermost object.
\<close>

lemma end_loop_value:
  "json_text v t \<Longrightarrow> (\<And>k d p rest. fits k v \<Longrightarrow> 0 < d \<Longrightarrow> d \<le> k \<Longrightarrow>
     object_end_loop d False False p (t @ rest) = object_end_loop d False False (p + length t) rest)"
  "members_text ms tm \<Longrightarrow> (\<And>k d p rest. list_all (\<lambda>(key, v). fits k v) ms \<Longrightarrow> 0 < d \<Longrightarrow> d \<le> k \<Longrightarrow>
     object_end_loop d False False p (tm @ rest) =
       (if d = 1 then Inr (p + length tm - 1) else object_end_loop (d - 1) False False (p + length tm) rest))"
  "elements_text vs te \<Longrightarrow> (\<And>k d p rest. list_all (fits k) vs \<Longrightarrow> 0 < d \<Longrightarrow> d \<le> k \<Longrightarrow>
     object_end_loop d False False p (te @ rest) = object_end_loop d False False (p + length te) rest)"
proof (induction rule: json_text_members_text_elements_text.inducts)
  case (text_no_members w w')
  then have "d \<le> MAX_JSON_DEPTH" by simp
  with text_no_members show ?case by (simp add: end_loop_steps add.assoc del: object_end_loop.simps)
next
  case (text_object w ms t)
  from text_object.prems have "d \<le> MAX_JSON_DEPTH" "list_all (\<lambda>(key, v). fits (k + 1) v) ms" "d + 1 \<le> k + 1" by auto
  with text_object.IH [of "k + 1" "d + 1"] text_object.prems text_object.hyps show ?case
    by (simp add: end_loop_steps add.assoc del: object_end_loop.simps)
next
  case (text_no_elements w w')
  then show ?case by (simp add: end_loop_steps add.assoc plain_byte_def del: object_end_loop.simps)
next
  case (text_array w vs t)
  from text_array.prems have "list_all (fits (k + 1)) vs" "d \<le> k + 1" by auto
  with text_array.IH [of "k + 1" d] text_array.prems text_array.hyps show ?case
    by (simp add: end_loop_steps add.assoc plain_byte_def del: object_end_loop.simps)
next
  case (text_string w s t)
  then show ?case by (simp add: end_loop_steps add.assoc del: object_end_loop.simps)
next
  case (text_number w n t)
  then show ?case by (simp add: end_loop_steps add.assoc del: object_end_loop.simps)
next
  case (text_true w)
  then show ?case by (simp add: end_loop_steps add.assoc del: object_end_loop.simps)
next
  case (text_false w)
  then show ?case by (simp add: end_loop_steps add.assoc del: object_end_loop.simps)
next
  case (text_null w)
  then show ?case by (simp add: end_loop_steps add.assoc del: object_end_loop.simps)
next
  case (last_member w key kt w' v vt w'')
  from last_member.prems have "fits k v" by simp
  with last_member.IH [of k d] last_member.prems last_member.hyps show ?case
    by (simp add: end_loop_steps add.assoc plain_byte_def del: object_end_loop.simps)
next
  case (next_member w key kt w' v vt w'' ms t)
  from next_member.prems have "fits k v" "list_all (\<lambda>(key, v). fits k v) ms" by simp_all
  with next_member.IH(1) [of k d] next_member.IH(2) [of k d] next_member.prems next_member.hyps show ?case
    by (simp add: end_loop_steps add.assoc plain_byte_def del: object_end_loop.simps)
next
  case (last_element v vt w)
  then show ?case by (simp add: end_loop_steps add.assoc plain_byte_def del: object_end_loop.simps)
next
  case (next_element v vt w vs t)
  from next_element.prems have "fits k v" "list_all (fits k) vs" by simp_all
  with next_element.IH(1) [of k d] next_element.IH(2) [of k d] next_element.prems next_element.hyps show ?case
    by (simp add: end_loop_steps add.assoc plain_byte_def del: object_end_loop.simps)
qed

lemma text_from_brace:
  "json_text v (0x7b # u) \<Longrightarrow>
     (\<exists>w. u = w @ [0x7d] \<and> ws_text w \<and> v = JsonObject []) \<or> (\<exists>ms. v = JsonObject ms \<and> members_text ms u)"
  by (erule json_text.cases)
    (auto simp: Cons_eq_append_conv append_eq_Cons_conv ws_text_def json_ws_def number_text_def json_digit_def ascii_def)

lemma end_loop_object:
  assumes "json_text v (0x7b # u)" and "fits 0 v"
  shows "object_end_loop 1 False False p (u @ rest) = Inr (p + length u - 1)" and "u \<noteq> []"
proof -
  have "object_end_loop 1 False False p (u @ rest) = Inr (p + length u - 1) \<and> u \<noteq> []"
    using text_from_brace [OF assms(1)]
  proof (elim disjE exE conjE)
    fix w
    assume "u = w @ [0x7d]" "ws_text w"
    then show ?thesis by (simp add: end_loop_steps del: object_end_loop.simps)
  next
    fix ms
    assume ms: "v = JsonObject ms" "members_text ms u"
    then have "u \<noteq> []" by (auto elim: members_text.cases)
    moreover have "list_all (\<lambda>(key, v). fits 1 v) ms" using assms(2) ms(1) by simp
    ultimately show ?thesis using end_loop_value(2) [OF ms(2), of 1 1 p rest] by simp
  qed
  then show "object_end_loop 1 False False p (u @ rest) = Inr (p + length u - 1)" "u \<noteq> []" by auto
qed

section \<open>What certification accepts\<close>

lemma vector_ids_ok:
  "vector_ids_loop s k ids = Inr ids' \<Longrightarrow> distinct ids \<Longrightarrow> list_all (\<lambda>i. certification_vector_method i \<noteq> None) ids \<Longrightarrow>
     distinct ids' \<and> list_all (\<lambda>i. certification_vector_method i \<noteq> None) ids'"
proof (induction s k ids rule: vector_ids_loop.induct)
  case (1 s k ids)
  show ?case
  proof (cases "find_text (drop k s) (quoted ''id'')")
    case None
    with "1.prems" show ?thesis by (simp add: vector_ids_loop.simps [of s])
  next
    case (Some relative)
    with "1.prems"(1) obtain vs ve where v: "quoted_value s (k + relative + length (quoted ''id'')) = Inr (vs, ve)"
      and ok: "\<not> (certification_vector_method (slice_of s vs ve) = None \<or> slice_of s vs ve \<in> set ids)"
      and rest: "vector_ids_loop s (ve + 1) (ids @ [slice_of s vs ve]) = Inr ids'"
      by (auto simp: vector_ids_loop.simps [of s k] Let_def split: sum.splits if_splits)
    from "1.IH" [OF Some v refl refl ok rest] "1.prems"(2,3) ok show ?thesis by auto
  qed
qed

text \<open>A certified annex is a development annex too, names its vectors once, and holds one of each method.\<close>

lemma certified_annex:
  assumes "validate_oda_vector_annex json True = Inr ()"
  shows "validate_oda_vector_annex json False = Inr ()" and "\<not> contains_forbidden_placeholder json"
    and "\<exists>ids. vector_ids_loop json 0 [] = Inr ids \<and> ids \<noteq> [] \<and> distinct ids \<and>
      list_all (\<lambda>i. certification_vector_method i \<noteq> None) ids"
    and "validate_certification_vector_coverage json = Inr ()"
proof -
  show "validate_oda_vector_annex json False = Inr ()" "\<not> contains_forbidden_placeholder json"
    "validate_certification_vector_coverage json = Inr ()"
    using assms by (auto simp: validate_oda_vector_annex_def rbind_eq_Inr if_Inl_eq_Inr from_utf8_eq_Inr)
  obtain ids where ids: "vector_ids_loop json 0 [] = Inr ids" "ids \<noteq> []"
    using assms by (auto simp: validate_oda_vector_annex_def validate_certification_vector_ids_def rbind_eq_Inr
        if_Inl_eq_Inr from_utf8_eq_Inr)
  with vector_ids_ok [OF ids(1)] show "\<exists>ids. vector_ids_loop json 0 [] = Inr ids \<and> ids \<noteq> [] \<and> distinct ids \<and>
      list_all (\<lambda>i. certification_vector_method i \<noteq> None) ids"
    by auto
qed

section \<open>Properties\<close>

text \<open>C36: The search for the closing brace agrees with the JSON parser: when the text from some opening brace on
  begins with an object, with anything before it and after it, the search cuts out that object, and what
  it cuts out parses to the same value.\<close>

theorem object_end_agrees_with_parser:
  "case json_parse (0x7b # t) of
     Inl _ \<Rightarrow> True
   | Inr v \<Rightarrow> (\<exists>object_end. matching_json_object_end (before @ 0x7b # t @ after) (length before) = Inr object_end \<and>
       json_parse (slice_of (before @ 0x7b # t @ after) (length before) (object_end + 1)) = Inr v)"
proof (cases "json_parse (0x7b # t)")
  case (Inr v)
  then obtain t' w where t: "0x7b # t = t' @ w" "json_text v t'" "ws_text w" "fits 0 v" "json_nodes v \<le> MAX_JSON_NODES"
    unfolding json_parse_eq_Inr by blast
  have "\<not> ws_text (0x7b # t)" by (simp add: ws_text_def json_ws_def)
  with t(1,3) obtain u where u: "t' = 0x7b # u" by (cases t') auto
  note object = end_loop_object [OF t(2) [unfolded u] t(4)]
  have t_is: "t = u @ w" using t(1) u by simp
  have "matching_json_object_end (before @ 0x7b # t @ after) (length before) = Inr (length before + length u)"
    using object(1) [of "Suc (length before)" "w @ after"] object(2)
    by (simp add: matching_json_object_end_def t_is end_loop_open del: object_end_loop.simps)
  moreover have "slice_of (before @ 0x7b # t @ after) (length before) (length before + length u + 1) = t'"
    by (simp add: slice_of_def t_is u)
  moreover have "json_parse t' = Inr v"
    unfolding json_parse_eq_Inr using t by (intro exI [of _ t'] exI [of _ "[]"]) (simp add: ws_text_def)
  ultimately show ?thesis using Inr by auto
qed simp

end
