(* ===== verification/Spec2Isabelle.thy ===== *)
theory Spec2Isabelle
  imports Emv_Abi Emv_Afl Emv_Apdu Emv_Bundle Emv_Bundle_Json Emv_C8 Emv_Card Emv_Compile
     Emv_Config Emv_Cvm Emv_Dol Emv_Error Emv_Fsm Emv_Gac Emv_Gpo Emv_Issuer Emv_Json
     Emv_Kernel Emv_Manifest Emv_Numeric Emv_Oda Emv_Online Emv_Perf Emv_Prelude Emv_Profiles
     Emv_Provenance Emv_Provision Emv_Record Emv_Restrictions Emv_Rsa Emv_Run Emv_Selection
     Emv_Session Emv_Sha1 Emv_Stages Emv_State Emv_Sw Emv_Taa Emv_Terminal Emv_Tlv Emv_Trace
     Emv_Transaction Emv_Trm Emv_Vectors Emv_Writer
begin

text \<open>
  A verification development of the Hyperion-X EMV Level 2 kernel: the Rust program under
  \<open>src/src\<close> that runs a chip-card payment transaction in a terminal.

  \<^bold>\<open>The program.\<close>  A host application sets the transaction parameters and loads a profile set (the
  card schemes, their application identifiers, limits, action codes and certification authority
  keys, read from JSON).  The kernel then talks to the card through a callback: it selects an
  application, gets its processing options, reads its records, authenticates its data offline,
  checks the processing restrictions, verifies the cardholder, manages the terminal's risk,
  decides between decline, approval and going online, and asks the card for a cryptogram.  After
  an online authorization it forwards the issuer's authentication data and scripts and asks for
  a second cryptogram.  What each phase finds is recorded in two registers, the TVR and the TSI;
  which phase comes next is the business of a state machine.

  \<^bold>\<open>Theories, in the order of the code they model.\<close>
  \<^item> \<open>Emv_Prelude\<close>: words for Rust's integers, lists of bytes, the result combinators for \<open>?\<close>,
    \<open>ok_or\<close>, \<open>try_fold\<close> and \<open>collect\<close>, indexing, slicing, checked arithmetic.
  \<^item> \<open>Emv_Error\<close> (\<open>error.rs\<close>), \<open>Emv_State\<close> (\<open>state.rs\<close>: kernel states, TVR, TSI; the locale
    \<open>status_register\<close> states what a register promises and both registers interpret it).
  \<^item> \<open>Emv_Tlv\<close> (\<open>tlv.rs\<close>): the BER-TLV reader with its limits of depth and of nodes.  \<open>Emv_Dol\<close>
    (\<open>dol.rs\<close>): the data store, data object lists and the data built for them.
    \<open>Emv_Numeric\<close> (\<open>numeric.rs\<close>): BCD amounts.
  \<^item> \<open>Emv_Sw\<close> (\<open>sw.rs\<close>), \<open>Emv_Card\<close> (\<open>aip.rs\<close>, \<open>cid.rs\<close>), \<open>Emv_Apdu\<close> (\<open>apdu.rs\<close>): status words,
    card data, commands.  \<open>Emv_Afl\<close>, \<open>Emv_Gpo\<close>, \<open>Emv_Record\<close>, \<open>Emv_Gac\<close>, \<open>Emv_Issuer\<close>
    (\<open>afl.rs\<close>, \<open>gpo.rs\<close>, \<open>record.rs\<close>, \<open>gac.rs\<close>, \<open>issuer.rs\<close>): what the card and the host answer.
  \<^item> \<open>Emv_Restrictions\<close>, \<open>Emv_Cvm\<close>, \<open>Emv_Trm\<close>, \<open>Emv_Taa\<close>, \<open>Emv_Transaction\<close>, \<open>Emv_Terminal\<close>,
    \<open>Emv_C8\<close> (\<open>restrictions.rs\<close>, \<open>cvm.rs\<close>, \<open>trm.rs\<close>, \<open>taa.rs\<close>, \<open>transaction.rs\<close>, \<open>terminal.rs\<close>,
    \<open>c8.rs\<close>): the decisions of the phases, as functions of their inputs.
  \<^item> \<open>Emv_Sha1\<close>, \<open>Emv_Rsa\<close>, \<open>Emv_Oda\<close> (\<open>sha1\<close> and RSA of \<open>oda.rs\<close>, then the rest of \<open>oda.rs\<close>): the
    hash as a stream over 64-byte blocks, the public-key operation on byte arrays, certificates,
    signed data and offline data authentication.
    \<open>Emv_Vectors\<close> has the textual check of a test vector annex, \<open>Emv_Perf\<close> (\<open>perf.rs\<close>) the times per stage
    and their targets.
  \<^item> \<open>Emv_Config\<close>, \<open>Emv_Json\<close>, \<open>Emv_Profiles\<close> (\<open>config.rs\<close>): profile records, the JSON parser,
    and the loading of a profile set.  \<open>Emv_Selection\<close> (\<open>selection.rs\<close>): candidates and their
    order.
  \<^item> \<open>Emv_Fsm\<close> (\<open>fsm.rs\<close>): the state machine and its CSV annex.
  \<^item> \<open>Emv_Kernel\<close>, \<open>Emv_Stages\<close>, \<open>Emv_Run\<close>, \<open>Emv_Online\<close> (\<open>ffi.rs\<close>): the runtime.  \<open>krn_context\<close> is the
    \<open>KrnContext\<close>; a function that takes it by mutable reference and returns a \<open>Result\<close> is a value of the
    state and error monad \<open>krn\<close>, with one weakest-precondition equation per construct.  The callbacks
    are functions on an environment \<open>'w\<close>, the terminal and the card behind it, about which nothing is
    assumed.  \<open>Emv_Stages\<close> has the stages of a transaction, \<open>Emv_Run\<close> the loop over them and
    \<open>krn_run_transaction\<close>'s body, \<open>Emv_Online\<close> host response, issuer authentication, scripts and the
    final cryptogram.
  \<^item> \<open>Emv_Abi\<close>, \<open>Emv_Session\<close> (\<open>ffi.rs\<close>): the entry points \<open>krn_*\<close>, and sequences of calls with what
    the context keeps between them.
  \<^item> \<open>Emv_Provenance\<close>, \<open>Emv_Writer\<close>, \<open>Emv_Manifest\<close> (\<open>provenance.rs\<close>): SHA-256, the JSON writers with the
    member lists that say what a written object reads back as, the build manifest.  \<open>Emv_Trace\<close>
    (\<open>trace.rs\<close>): what the log policies show of commands and responses, its JSON, replay scripts.
  \<^item> \<open>Emv_Bundle\<close>, \<open>Emv_Bundle_Json\<close>, \<open>Emv_Provision\<close>, \<open>Emv_Compile\<close> (\<open>cert_bundle.rs\<close>): the certification bundle, a
    signed JSON document that carries a profile set: its checks and its loading, its JSON read back,
    the bundle that the provisioning routine makes, and the compile report with its lint rules.  Ed25519 is the parameter \<open>ed25519\<close>; its laws, that
    the keys and signatures have their lengths and that a signature verifies, are \<open>signature_laws\<close>.

  \<^bold>\<open>Correspondence.\<close>  A definition has the name of the Rust item it models, with the name of its
  type in front where two items share a name (\<open>ds_put\<close> is \<open>DataStore::put\<close>) and a record's fields
  carry a short prefix.  A \<open>Result\<close> is a sum with the error on the left, so that every early return
  of the source is a branch; a \<open>for\<close> loop with early returns is \<open>rfold\<close>; arrays of fixed length
  are datatypes (\<open>A2\<close>, \<open>A3\<close>, \<open>A5\<close>) or lists whose length the lemmas carry.  \<open>usize\<close> is \<open>nat\<close> with the
  64-bit bound written out where the source checks it; \<open>u8\<close> to \<open>u64\<close> are words that wrap.

  \<^bold>\<open>What is proved.\<close>  Parsers accept exactly the inputs that a grammar or an encoder describes (TLV,
  data object lists, locators, cryptogram answers, host responses, JSON, CVM lists, certificates,
  signed data), with their limits; encoders and parsers round-trip; the phases set exactly the
  bits their rules name and never a reserved one; selection is ordered and complete; loading a
  profile set yields a well-formed one whose keys can be used; SHA-1 does not depend on how its
  input is cut, SHA-256 is that of FIPS 180-4 and RSA recovery computes \<open>s ^ e mod n\<close>; the state
  machine reaches its final state only through its phases, and its table agrees with the CSV annex.
  Over the runtime: an exchange with the card is a chain of at most five commands; the loop over the
  stages ends; after any sequence of calls the outcome of a transaction has its evidence in the
  context; nothing of one transaction is left in the next; the counter of the bundles never falls, and
  the version of the profiles only by a bundle, which is not compared with it; what is loaded is loaded
  whole; a call that is refused changes nothing; the commands of the issuer scripts are sent in order and
  the status words of the card captured; the final cryptogram decides the online outcome.  A trace depends only on
  what its policy shows, which includes the track 2 data object 9F6B, and reads back from its JSON.  A certification bundle is accepted exactly when
  it is current, of the class asked for and signed by an anchor that allows its payload; it reads back
  from its JSON, and a bundle that is made, if it is at most 4 MiB long, is admitted by the anchors made with it.

  \<^bold>\<open>Bounds and termination.\<close>  All functions are total.  The TLV reader and the JSON parser recurse
  over the remaining input (a measure); their limits are the source's: depth 8 and 512
  nodes, depth 24 and 4096 nodes.  The RSA exponentiation runs over the bits of an exponent of at
  most three bytes.  The loop over the stages runs while the state machine gets nearer to its end
  (\<open>stages_left\<close>, at most seven turns); an exchange follows up at most four times, a count that
  the source has.  No definition uses fuel.

  \<^bold>\<open>Not modelled.\<close>  Debug formatting; freeing a context; the conformance statement, a fixed text; the
  Markdown and HTML views of a bundle; the certification tooling (reports, manifests, imports and the command line), which reads and writes
  files around the kernel and takes no part in a transaction; Ed25519, which is a third-party crate.
  The texts of a bundle are characters below 256, what the JSON parser yields.  PROJECT.json lists every
  part.
\<close>

section \<open>Properties that span components\<close>

lemma loaded_key_selected:
  assumes ps: "wf_profile_set policy ps" "ps_profile_class ps = ClassCertification"
    and s: "s \<in> set (ps_schemes ps)" and c: "c \<in> set (sp_capks s)"
  shows "select_capk ps (sp_rid s) (capk_key_index c) (policy_evaluation_date policy) CapkVerified = Inr c \<and>
    rsa_exponent_ok (capk_exponent c)"
proof -
  from ps s have ws: "wf_scheme (policy_evaluation_date policy) ClassCertification (policy_mode policy) s"
    by (auto simp: wf_profile_set_def list_all_iff)
  with c have wc: "wf_capk (sp_rid s) (policy_evaluation_date policy) ClassCertification c"
    by (auto simp: wf_scheme_def list_all_iff)
  have "List.find (\<lambda>t. sp_rid t = sp_rid s) (ps_schemes ps) = Some s"
    using find_distinct [of sp_rid "ps_schemes ps" s "\<lambda>_. True"] ps s by (simp add: wf_profile_set_def)
  moreover have "List.find (\<lambda>k. capk_key_index k = capk_key_index c \<and> policy_evaluation_date policy \<le> capk_expiry k)
      (sp_capks s) = Some c"
    using ws wc c by (intro find_distinct) (auto simp: wf_scheme_def wf_capk_def)
  moreover have "capk_checksum_is_valid c" using wc by (simp add: capk_checksum_is_valid_iff wf_capk_def)
  ultimately show ?thesis using wc validated_exponent_ok [of "capk_modulus c" "capk_exponent c"]
    by (simp add: select_capk_def wf_capk_def)
qed

text \<open>C19: Loading and authentication fit together: of a certification profile set that loads, every key
  of every scheme is the one that key selection finds for its scheme and index on the day of
  loading, and its exponent is one that the RSA operation accepts.\<close>

theorem loaded_keys_are_selected:
  "case load_profile_set json policy of
     Inl _ \<Rightarrow> True
   | Inr ps \<Rightarrow>
       if ps_profile_class ps = ClassCertification
       then list_all (\<lambda>s. list_all (\<lambda>c.
              select_capk ps (sp_rid s) (capk_key_index c) (policy_evaluation_date policy) CapkVerified = Inr c \<and>
              rsa_exponent_ok (capk_exponent c)) (sp_capks s)) (ps_schemes ps)
       else True"
  using load_profile_set_wf [of json policy] loaded_key_selected
  by (auto simp: list_all_iff split: sum.split)

end
